(* ===== verification/Prelude.thy ===== *)
theory Prelude
  imports
    Main
    "HOL-Library.FSet"
    "HOL-Library.Finite_Map"
    "HOL-Library.Char_ord"
    "HOL-Library.List_Lexorder"
    "HOL-Library.Product_Lexorder"
begin

text \<open>
  Shared vocabulary of the development.

  \<^item> Rust's \<open>Result<T, Diagnostic>\<close> is the sum \<open>'a res\<close>: \<open>Inl\<close> carries the diagnostic,
    \<open>Inr\<close> the value, and \<open>bind_res\<close> is the \<open>?\<close> operator. A diagnostic keeps its category
    and its stable code; the human-readable message and the detail entries are not kept.
  \<^item> \<open>BTreeSet<T>\<close> is the finite set \<open>'a fset\<close> and \<open>BTreeMap<K, V>\<close> the finite map
    \<open>('k, 'v) fmap\<close>; iterating over them in key order is \<open>sorted_list_of_fset\<close> and
    \<open>sorted_list_of_fmap\<close>.
  \<^item> Rust's \<open>str\<close> is the list of its UTF-8 bytes (\<open>string\<close>, a list of 8-bit \<open>char\<close>), so
    \<open>length\<close> is \<open>str::len\<close> and the lexicographic order of the library's list order is
    \<open>str\<close>'s order.
\<close>

named_theorems res_simps \<open>unfolding rules for the Result combinators\<close>

section \<open>Diagnostics and results\<close>

datatype diagnostic_category =
    InvalidContract | UnsupportedCapability | ResourceLimit | Cancelled | Integrity

datatype diagnostic = Diagnostic (diag_category: diagnostic_category) (diag_code: string)

type_synonym 'a res = "diagnostic + 'a"

definition bind_res :: "'e + 'a \<Rightarrow> ('a \<Rightarrow> 'e + 'b) \<Rightarrow> 'e + 'b" where
  "bind_res r f = (case r of Inl e \<Rightarrow> Inl e | Inr x \<Rightarrow> f x)"

definition ensure :: "bool \<Rightarrow> 'e \<Rightarrow> 'e + unit" where
  "ensure c e = (if c then Inr () else Inl e)"

definition ok_or :: "'a option \<Rightarrow> 'e \<Rightarrow> 'e + 'a" where
  "ok_or x e = (case x of None \<Rightarrow> Inl e | Some v \<Rightarrow> Inr v)"

text \<open>A \<open>for\<close> loop whose body can return early with an error.\<close>

fun fold_res :: "('a \<Rightarrow> 's \<Rightarrow> 'e + 's) \<Rightarrow> 'a list \<Rightarrow> 's \<Rightarrow> 'e + 's" where
  "fold_res f [] s = Inr s"
| "fold_res f (x # xs) s = bind_res (f x s) (fold_res f xs)"

text \<open>\<open>iter().map(f).collect::<Result<Vec<_>, _>>()\<close>.\<close>

fun map_res :: "('a \<Rightarrow> 'e + 'b) \<Rightarrow> 'a list \<Rightarrow> 'e + 'b list" where
  "map_res f [] = Inr []"
| "map_res f (x # xs) = bind_res (f x) (\<lambda>y. bind_res (map_res f xs) (\<lambda>ys. Inr (y # ys)))"

lemma bind_res_Inl [simp]: "bind_res (Inl e) f = Inl e"
  by (simp add: bind_res_def)

lemma bind_res_Inr [simp]: "bind_res (Inr x) f = f x"
  by (simp add: bind_res_def)

lemma bind_res_eq_Inr [res_simps]: "bind_res r f = Inr y \<longleftrightarrow> (\<exists>x. r = Inr x \<and> f x = Inr y)"
  by (cases r) auto

lemma bind_res_eq_Inl [res_simps]:
  "bind_res r f = Inl e \<longleftrightarrow> r = Inl e \<or> (\<exists>x. r = Inr x \<and> f x = Inl e)"
  by (cases r) auto

lemma bind_res_cong [fundef_cong]:
  "r = r' \<Longrightarrow> (\<And>x. r' = Inr x \<Longrightarrow> f x = g x) \<Longrightarrow> bind_res r f = bind_res r' g"
  by (cases r') auto

lemma ensure_eq_Inr [res_simps]: "ensure c e = Inr u \<longleftrightarrow> c"
  by (simp add: ensure_def)

lemma ensure_eq_Inl [res_simps]: "ensure c e = Inl e' \<longleftrightarrow> \<not> c \<and> e' = e"
  by (auto simp: ensure_def)

lemma ensure_True [simp]: "ensure True e = Inr ()"
  by (simp add: ensure_def)

lemma ok_or_eq_Inr [res_simps]: "ok_or x e = Inr v \<longleftrightarrow> x = Some v"
  by (auto simp: ok_or_def split: option.splits)

lemma ok_or_eq_Inl [res_simps]: "ok_or x e = Inl e' \<longleftrightarrow> x = None \<and> e' = e"
  by (auto simp: ok_or_def split: option.splits)

lemma ok_or_Some [simp]: "ok_or (Some v) e = Inr v"
  by (simp add: ok_or_def)

lemma fold_res_append:
  "fold_res f (xs @ ys) s = bind_res (fold_res f xs s) (fold_res f ys)"
proof (induction xs arbitrary: s)
  case (Cons x xs)
  then show ?case by (cases "f x s") auto
qed simp

lemma fold_res_total:
  assumes "P s" and "\<And>x s. x \<in> set xs \<Longrightarrow> P s \<Longrightarrow> \<exists>t. f x s = Inr t \<and> P t"
  shows "\<exists>t. fold_res f xs s = Inr t \<and> P t"
  using assms
proof (induction xs arbitrary: s)
  case (Cons x xs)
  then obtain u where "f x s = Inr u" "P u" by (metis list.set_intros(1))
  with Cons show ?case by (metis bind_res_Inr fold_res.simps(2) list.set_intros(2))
qed simp

lemma map_res_eq_Inr [res_simps]:
  "map_res f xs = Inr ys \<longleftrightarrow> list_all2 (\<lambda>x y. f x = Inr y) xs ys"
proof (induction xs arbitrary: ys)
  case (Cons x xs)
  show ?case by (cases ys) (auto simp: res_simps Cons)
qed auto

text \<open>
  A call that returns a result or panics: the outer \<open>None\<close> is the panic (an \<open>expect\<close> or an index
  out of range), kept apart from the diagnostics so that its absence can be stated.
\<close>

type_synonym 'a panicking = "'a res option"

definition bind_panicking :: "('e + 'a) option \<Rightarrow> ('a \<Rightarrow> ('e + 'b) option) \<Rightarrow> ('e + 'b) option" where
  "bind_panicking r f = (case r of None \<Rightarrow> None | Some (Inl e) \<Rightarrow> Some (Inl e) | Some (Inr x) \<Rightarrow> f x)"

fun map_panicking :: "('a \<Rightarrow> ('e + 'b) option) \<Rightarrow> 'a list \<Rightarrow> ('e + 'b list) option" where
  "map_panicking f [] = Some (Inr [])"
| "map_panicking f (x # xs) =
     bind_panicking (f x) (\<lambda>y. bind_panicking (map_panicking f xs) (\<lambda>ys. Some (Inr (y # ys))))"

fun fold_panicking :: "('a \<Rightarrow> 's \<Rightarrow> ('e + 's) option) \<Rightarrow> 'a list \<Rightarrow> 's \<Rightarrow> ('e + 's) option" where
  "fold_panicking f [] s = Some (Inr s)"
| "fold_panicking f (x # xs) s = bind_panicking (f x s) (\<lambda>s'. fold_panicking f xs s')"

lemma bind_panicking_simps [simp]:
  "bind_panicking None f = None"
  "bind_panicking (Some (Inl e)) f = Some (Inl e)"
  "bind_panicking (Some (Inr x)) f = f x"
  by (simp_all add: bind_panicking_def)

lemma bind_panicking_eq_Inr [res_simps]:
  "bind_panicking r f = Some (Inr y) \<longleftrightarrow> (\<exists>x. r = Some (Inr x) \<and> f x = Some (Inr y))"
  by (cases r; cases "the r") auto

lemma bind_panicking_cong [fundef_cong]:
  "r = r' \<Longrightarrow> (\<And>x. r' = Some (Inr x) \<Longrightarrow> f x = g x) \<Longrightarrow> bind_panicking r f = bind_panicking r' g"
  by (cases r'; cases "the r'") auto

lemma fold_panicking_checks:
  fixes f :: "'a \<Rightarrow> unit \<Rightarrow> ('e + unit) option"
  shows "fold_panicking f xs () = Some (Inr u) \<longleftrightarrow> (\<forall>x \<in> set xs. f x () = Some (Inr ()))"
    and "(\<And>x. x \<in> set xs \<Longrightarrow> f x () \<noteq> None) \<Longrightarrow> fold_panicking f xs () \<noteq> None"
  by (induction xs) (auto simp: bind_panicking_def split: option.splits sum.splits)

lemma fold_res_checks:
  fixes f :: "'a \<Rightarrow> unit \<Rightarrow> 'e + unit"
  shows "fold_res f xs () = Inr u \<longleftrightarrow> (\<forall>x \<in> set xs. f x () = Inr ())"
  by (induction xs) (auto simp: bind_res_def split: sum.splits)

lemma map_panicking_eq_Inr [res_simps]:
  "map_panicking f xs = Some (Inr ys) \<longleftrightarrow> list_all2 (\<lambda>x y. f x = Some (Inr y)) xs ys"
proof (induction xs arbitrary: ys)
  case (Cons x xs)
  show ?case by (cases ys) (auto simp: res_simps Cons)
qed auto

lemma map_option_sum_Inr: "map_option (map_sum id f) r = Some (Inr y) \<Longrightarrow> \<exists>x. r = Some (Inr x) \<and> f x = y"
  by (cases r; cases "the r") auto

section \<open>Rust's \<open>Ordering\<close>\<close>

datatype ordering = Less | Equal | Greater

definition cmp :: "'a::linorder \<Rightarrow> 'a \<Rightarrow> ordering" where
  "cmp a b = (if a < b then Less else if a = b then Equal else Greater)"

fun then_with :: "ordering \<Rightarrow> ordering \<Rightarrow> ordering" where
  "then_with Equal o2 = o2"
| "then_with o1 o2 = o1"

fun reverse_ordering :: "ordering \<Rightarrow> ordering" where
  "reverse_ordering Less = Greater"
| "reverse_ordering Equal = Equal"
| "reverse_ordering Greater = Less"

lemma cmp_eq_simps [simp]:
  "cmp a b = Less \<longleftrightarrow> a < b" "cmp a b = Equal \<longleftrightarrow> a = b" "cmp a b = Greater \<longleftrightarrow> b < a"
  by (auto simp: cmp_def)

lemma reverse_cmp: "reverse_ordering (cmp a b) = cmp b a"
  by (auto simp: cmp_def)

lemma cmp_cong: "(a < b \<longleftrightarrow> x < y) \<Longrightarrow> (b < a \<longleftrightarrow> y < x) \<Longrightarrow> cmp a b = cmp x y"
  by (auto simp: cmp_def)

lemma cmp_chain:
  "cmp x y \<noteq> Greater \<Longrightarrow> cmp y z \<noteq> Greater \<Longrightarrow> then_with (cmp x y) (cmp y z) = cmp x z"
  by (auto simp: cmp_def split: if_splits)

section \<open>Sorted views of finite sets and maps\<close>

lemma set_sorted_list_of_fset [simp]: "set (sorted_list_of_fset A) = fset A"
  by (simp add: sorted_list_of_fset.rep_eq)

lemma sorted_sorted_list_of_fset [simp]: "sorted (sorted_list_of_fset A)"
  by (simp add: sorted_list_of_fset.rep_eq)

lemma distinct_sorted_list_of_fset [simp]: "distinct (sorted_list_of_fset A)"
  by (simp add: sorted_list_of_fset.rep_eq)

lemma sorted_list_of_fset_empty [simp]: "sorted_list_of_fset {||} = []"
  by (simp add: sorted_list_of_fset.rep_eq)

lemma sorted_list_of_fset_eq_Nil [simp]: "sorted_list_of_fset A = [] \<longleftrightarrow> A = {||}"
  by (metis fset_of_list_simps(1) sorted_list_of_fset_empty sorted_list_of_fset_simps(2))

definition fm_values :: "('k::linorder, 'v) fmap \<Rightarrow> 'v list" where
  "fm_values m = map snd (sorted_list_of_fmap m)"

definition fm_keys :: "('k::linorder, 'v) fmap \<Rightarrow> 'k list" where
  "fm_keys m = sorted_list_of_fset (fmdom m)"

lemma set_fm_keys [simp]: "set (fm_keys m) = fset (fmdom m)"
  by (simp add: fm_keys_def)

lemma distinct_fm_keys [simp]: "distinct (fm_keys m)"
  by (simp add: fm_keys_def)

lemma sorted_fm_keys [simp]: "sorted (fm_keys m)"
  by (simp add: fm_keys_def)

lemma fm_values_conv: "fm_values m = map (\<lambda>k. the (fmlookup m k)) (fm_keys m)"
  by (simp add: fm_values_def fm_keys_def sorted_list_of_fmap_def)

lemma set_fm_values: "v \<in> set (fm_values m) \<longleftrightarrow> (\<exists>k. fmlookup m k = Some v)"
  by (auto simp: fm_values_conv image_iff fmlookup_dom_iff)
     (metis fmdomI option.sel)

lemma set_sorted_list_of_fmap: "(k, v) \<in> set (sorted_list_of_fmap m) \<longleftrightarrow> fmlookup m k = Some v"
  by (auto simp: sorted_list_of_fmap_def fmlookup_dom_iff)

lemma fmap_ext_lookup: "(\<And>k. fmlookup m k = fmlookup n k) \<Longrightarrow> m = n"
  by (rule fmap_ext)

lemma fmlookup_in_dom: "k |\<in>| fmdom m \<longleftrightarrow> fmlookup m k \<noteq> None"
  by (auto simp: fmlookup_dom_iff)

lemma in_set_map_filter: "y \<in> set (List.map_filter f xs) \<longleftrightarrow> (\<exists>x \<in> set xs. f x = Some y)"
  by (induction xs) (auto simp: List.map_filter_simps split: option.splits)

end
