(* ===== verification/Rust_Strings.thy ===== *)
theory Rust_Strings
  imports Prelude
begin

text \<open>
  The part of Rust's string library that the parsers and printers of the contract crate use:
  splitting and trimming, the integer parsers behind \<open>str::parse\<close>, and the decimal formatting of
  \<open>Display\<close> with zero padding (\<open>{:04}\<close>). Strings are byte lists; every function below only
  splits at ASCII bytes, which is what the source does. The lemmas are the round trips between
  digits and numbers that the decimal and temporal components share.
\<close>

section \<open>Splitting and trimming\<close>

definition strip_prefix :: "string \<Rightarrow> string \<Rightarrow> string option" where
  "strip_prefix p s = (if take (length p) s = p then Some (drop (length p) s) else None)"

definition strip_suffix :: "string \<Rightarrow> string \<Rightarrow> string option" where
  "strip_suffix q s = map_option rev (strip_prefix (rev q) (rev s))"

definition split_once :: "char \<Rightarrow> string \<Rightarrow> (string \<times> string) option" where
  "split_once c s = (case dropWhile (\<lambda>x. x \<noteq> c) s of
     [] \<Rightarrow> None
   | _ # r \<Rightarrow> Some (takeWhile (\<lambda>x. x \<noteq> c) s, r))"

definition rsplit_once :: "char \<Rightarrow> string \<Rightarrow> (string \<times> string) option" where
  "rsplit_once c s = map_option (\<lambda>(a, b). (rev b, rev a)) (split_once c (rev s))"

definition trim_start_matches :: "char \<Rightarrow> string \<Rightarrow> string" where
  "trim_start_matches c s = dropWhile (\<lambda>x. x = c) s"

definition trim_end_matches :: "char \<Rightarrow> string \<Rightarrow> string" where
  "trim_end_matches c s = rev (dropWhile (\<lambda>x. x = c) (rev s))"

definition unwrap_or :: "'a option \<Rightarrow> 'a \<Rightarrow> 'a" where
  "unwrap_or x d = (case x of None \<Rightarrow> d | Some v \<Rightarrow> v)"

section \<open>Digits and numbers\<close>

definition is_ascii_digit :: "char \<Rightarrow> bool" where
  "is_ascii_digit c \<longleftrightarrow> 48 \<le> (of_char c :: nat) \<and> (of_char c :: nat) \<le> 57"

definition is_ascii :: "char \<Rightarrow> bool" where
  "is_ascii c \<longleftrightarrow> (of_char c :: nat) < 128"

definition is_ascii_alphanumeric :: "char \<Rightarrow> bool" where
  "is_ascii_alphanumeric c \<longleftrightarrow> is_ascii_digit c
     \<or> (65 \<le> (of_char c :: nat) \<and> (of_char c :: nat) \<le> 90)
     \<or> (97 \<le> (of_char c :: nat) \<and> (of_char c :: nat) \<le> 122)"

definition all_digits :: "string \<Rightarrow> bool" where
  "all_digits s = list_all is_ascii_digit s"

definition digit_val :: "char \<Rightarrow> nat" where
  "digit_val c = of_char c - 48"

definition digit_char :: "nat \<Rightarrow> char" where
  "digit_char n = char_of (48 + n)"

fun dec_nat_acc :: "nat \<Rightarrow> string \<Rightarrow> nat" where
  "dec_nat_acc a [] = a"
| "dec_nat_acc a (c # s) = dec_nat_acc (10 * a + digit_val c) s"

definition dec_nat :: "string \<Rightarrow> nat" where
  "dec_nat s = dec_nat_acc 0 s"

fun show_nat :: "nat \<Rightarrow> string" where
  "show_nat n = (if n < 10 then [digit_char n] else show_nat (n div 10) @ [digit_char (n mod 10)])"

declare show_nat.simps [simp del]

text \<open>\<open>{:0w}\<close> of an unsigned number.\<close>

definition zero_pad :: "nat \<Rightarrow> string \<Rightarrow> string" where
  "zero_pad w s = replicate (w - length s) CHR ''0'' @ s"

definition show_int :: "int \<Rightarrow> string" where
  "show_int i = (if i < 0 then CHR ''-'' # show_nat (nat (- i)) else show_nat (nat i))"

text \<open>\<open>str::parse\<close> for an unsigned type of \<open>w\<close> bits: an optional plus sign, then at least one
  digit; a value that does not fit the type is an error.\<close>

definition parse_unsigned :: "nat \<Rightarrow> string \<Rightarrow> nat option" where
  "parse_unsigned w s =
     (let d = unwrap_or (strip_prefix ''+'' s) s in
      if d \<noteq> [] \<and> all_digits d \<and> dec_nat d < 2 ^ w then Some (dec_nat d) else None)"

definition parse_signed :: "nat \<Rightarrow> string \<Rightarrow> int option" where
  "parse_signed w s =
     (case strip_prefix ''-'' s of
        Some d \<Rightarrow>
          if d \<noteq> [] \<and> all_digits d \<and> dec_nat d \<le> 2 ^ (w - 1) then Some (- int (dec_nat d)) else None
      | None \<Rightarrow>
          (let d = unwrap_or (strip_prefix ''+'' s) s in
           if d \<noteq> [] \<and> all_digits d \<and> dec_nat d < 2 ^ (w - 1) then Some (int (dec_nat d)) else None))"

section \<open>Lemmas on splitting\<close>

lemma strip_prefix_append [simp]: "strip_prefix p (p @ s) = Some s"
  by (simp add: strip_prefix_def)

lemma strip_prefix_eq_Some: "strip_prefix p s = Some r \<longleftrightarrow> s = p @ r"
  by (auto simp: strip_prefix_def) (metis append_take_drop_id)

lemma strip_prefix_single [simp]:
  "strip_prefix [c] s = (case s of [] \<Rightarrow> None | x # r \<Rightarrow> if x = c then Some r else None)"
  by (cases s) (auto simp: strip_prefix_def)

lemma strip_suffix_append [simp]: "strip_suffix q (s @ q) = Some s"
  by (simp add: strip_suffix_def)

lemma strip_suffix_eq_Some: "strip_suffix q s = Some r \<longleftrightarrow> s = r @ q"
  by (auto simp: strip_suffix_def strip_prefix_eq_Some rev_swap)

lemma split_once_append:
  "c \<notin> set a \<Longrightarrow> split_once c (a @ c # b) = Some (a, b)"
  by (simp add: split_once_def dropWhile_append takeWhile_append2 takeWhile_append)

lemma split_once_None: "split_once c s = None \<longleftrightarrow> c \<notin> set s"
  by (simp add: split_once_def split: list.splits)
     (metis (mono_tags, lifting) dropWhile_eq_Nil_conv list.distinct(1))

lemma split_once_not_mem: "c \<notin> set s \<Longrightarrow> split_once c s = None"
  by (simp add: split_once_None)

lemma split_once_Some: "split_once c s = Some (a, b) \<longleftrightarrow> s = a @ c # b \<and> c \<notin> set a"
proof
  assume h: "split_once c s = Some (a, b)"
  then obtain x where d: "dropWhile (\<lambda>x. x \<noteq> c) s = x # b" and a: "a = takeWhile (\<lambda>x. x \<noteq> c) s"
    by (auto simp: split_once_def split: list.splits)
  have "x = c" using d by (metis (mono_tags, lifting) hd_dropWhile list.sel(1) list.distinct(1))
  with d a show "s = a @ c # b \<and> c \<notin> set a"
    by (metis (mono_tags, lifting) set_takeWhileD takeWhile_dropWhile_id)
qed (auto simp: split_once_append)

lemma rsplit_once_append:
  "c \<notin> set b \<Longrightarrow> rsplit_once c (a @ c # b) = Some (a, b)"
  by (simp add: rsplit_once_def split_once_append)

section \<open>Lemmas on digits and numbers\<close>

lemma digit_val_digit_char [simp]: "n < 10 \<Longrightarrow> digit_val (digit_char n) = n"
  by (simp add: digit_val_def digit_char_def)

lemma is_ascii_digit_digit_char [simp]: "n < 10 \<Longrightarrow> is_ascii_digit (digit_char n)"
  by (simp add: is_ascii_digit_def digit_char_def)

lemma digit_char_digit_val [simp]: "is_ascii_digit c \<Longrightarrow> digit_char (digit_val c) = c"
  by (simp add: digit_val_def digit_char_def is_ascii_digit_def)

lemma digit_val_less [simp]: "is_ascii_digit c \<Longrightarrow> digit_val c < 10"
  unfolding digit_val_def is_ascii_digit_def by linarith

lemma is_ascii_digit_zero [simp]: "is_ascii_digit CHR ''0''"
  by (simp add: is_ascii_digit_def)

lemma digit_val_zero [simp]: "digit_val CHR ''0'' = 0"
  by (simp add: digit_val_def)

lemma digit_val_inj:
  "is_ascii_digit c \<Longrightarrow> is_ascii_digit d \<Longrightarrow> digit_val c = digit_val d \<longleftrightarrow> c = d"
  by (metis digit_char_digit_val)

lemma digit_val_less_iff:
  "is_ascii_digit c \<Longrightarrow> is_ascii_digit d \<Longrightarrow> digit_val c < digit_val d \<longleftrightarrow> c < d"
  by (auto simp: digit_val_def is_ascii_digit_def less_char_def)

lemma all_digits_simps [simp]:
  "all_digits []"
  "all_digits (c # s) \<longleftrightarrow> is_ascii_digit c \<and> all_digits s"
  "all_digits (s @ t) \<longleftrightarrow> all_digits s \<and> all_digits t"
  "all_digits (rev s) \<longleftrightarrow> all_digits s"
  "all_digits (replicate n CHR ''0'')"
  by (auto simp: all_digits_def list_all_iff)

lemma all_digits_iff: "all_digits s \<longleftrightarrow> (\<forall>c \<in> set s. is_ascii_digit c)"
  by (simp add: all_digits_def list_all_iff)

lemma all_digits_not_mem:
  "all_digits s \<Longrightarrow> \<not> is_ascii_digit c \<Longrightarrow> c \<notin> set s"
  by (auto simp: all_digits_iff)

lemma dec_nat_acc_append: "dec_nat_acc a (s @ t) = dec_nat_acc (dec_nat_acc a s) t"
  by (induction s arbitrary: a) auto

lemma dec_nat_acc_conv: "dec_nat_acc a s = a * 10 ^ length s + dec_nat s"
proof (induction s arbitrary: a)
  case (Cons c s)
  have "dec_nat (c # s) = dec_nat_acc (digit_val c) s" by (simp add: dec_nat_def)
  with Cons show ?case by (simp add: algebra_simps)
qed (simp add: dec_nat_def)

lemma dec_nat_Nil [simp]: "dec_nat [] = 0"
  by (simp add: dec_nat_def)

lemma dec_nat_Cons: "dec_nat (c # s) = digit_val c * 10 ^ length s + dec_nat s"
  using dec_nat_acc_conv [of "digit_val c" s] by (simp add: dec_nat_def)

lemma dec_nat_append: "dec_nat (s @ t) = dec_nat s * 10 ^ length t + dec_nat t"
  by (simp add: dec_nat_def dec_nat_acc_append) (simp add: dec_nat_acc_conv flip: dec_nat_def)

lemma dec_nat_single [simp]: "dec_nat [c] = digit_val c"
  by (simp add: dec_nat_Cons)

lemma dec_nat_replicate [simp]: "dec_nat (replicate n CHR ''0'') = 0"
  by (induction n) (auto simp: dec_nat_Cons)

lemma dec_nat_less: "all_digits s \<Longrightarrow> dec_nat s < 10 ^ length s"
proof (induction s)
  case (Cons c s)
  then have "digit_val c < 10" "dec_nat s < 10 ^ length s" by auto
  then have "digit_val c * 10 ^ length s + dec_nat s < (digit_val c + 1) * 10 ^ length s"
    by simp
  also have "\<dots> \<le> 10 * 10 ^ length s" using \<open>digit_val c < 10\<close> by (intro mult_le_mono1) simp
  finally show ?case by (simp add: dec_nat_Cons)
qed simp

lemma lex_combine:
  fixes a b :: nat
  assumes "x < k" "y < k"
  shows "a * k + x < b * k + y \<longleftrightarrow> a < b \<or> (a = b \<and> x < y)"
proof (cases a b rule: linorder_cases)
  case less
  then have "a * k + k \<le> b * k" by (metis Suc_leI mult_Suc add.commute mult_le_mono1)
  with assms less show ?thesis by linarith
next
  case greater
  then have "b * k + k \<le> a * k" by (metis Suc_leI mult_Suc add.commute mult_le_mono1)
  with assms greater show ?thesis by linarith
qed simp

lemma dec_nat_lex:
  "all_digits s \<Longrightarrow> all_digits t \<Longrightarrow> length s = length t \<Longrightarrow> dec_nat s < dec_nat t \<longleftrightarrow> s < t"
proof (induction s t rule: list_induct2')
  case (4 x xs y ys)
  then show ?case
    using dec_nat_less [of xs] dec_nat_less [of ys]
    by (auto simp: dec_nat_Cons lex_combine digit_val_less_iff digit_val_inj)
qed auto

lemma dec_nat_inj:
  "all_digits s \<Longrightarrow> all_digits t \<Longrightarrow> length s = length t \<Longrightarrow> dec_nat s = dec_nat t \<longleftrightarrow> s = t"
  by (metis dec_nat_lex less_irrefl not_less_iff_gr_or_eq)

section \<open>Printing numbers\<close>

lemma show_nat_digits [simp]: "all_digits (show_nat n)"
  by (induction n rule: show_nat.induct) (subst show_nat.simps, simp)

lemma show_nat_not_Nil [simp]: "show_nat n \<noteq> []"
  by (subst show_nat.simps) simp

lemma dec_nat_show_nat [simp]: "dec_nat (show_nat n) = n"
proof (induction n rule: show_nat.induct)
  case (1 n)
  then show ?case by (subst show_nat.simps) (simp add: dec_nat_append)
qed

lemma show_nat_snoc:
  "s \<noteq> [] \<Longrightarrow> all_digits s \<Longrightarrow> dec_nat s > 0 \<Longrightarrow> is_ascii_digit c \<Longrightarrow>
   show_nat (dec_nat s) = s \<Longrightarrow> show_nat (dec_nat (s @ [c])) = s @ [c]"
  by (subst show_nat.simps) (simp add: dec_nat_append)

lemma dec_nat_pos:
  assumes "all_digits s" "s \<noteq> []" "hd s \<noteq> CHR ''0''"
  shows "dec_nat s > 0"
proof -
  obtain c r where s: "s = c # r" using assms(2) by (cases s) auto
  with assms have "digit_val c \<noteq> 0" using digit_val_inj [of c "CHR ''0''"] by auto
  with s show ?thesis by (simp add: dec_nat_Cons)
qed

lemma show_nat_dec_nat:
  "all_digits s \<Longrightarrow> s \<noteq> [] \<Longrightarrow> hd s \<noteq> CHR ''0'' \<Longrightarrow> show_nat (dec_nat s) = s"
proof (induction s rule: rev_induct)
  case (snoc c s)
  show ?case
  proof (cases "s = []")
    case True
    with snoc show ?thesis by (subst show_nat.simps) simp
  next
    case False
    with snoc show ?thesis by (intro show_nat_snoc) (auto intro: dec_nat_pos)
  qed
qed simp

lemma show_nat_zero [simp]: "show_nat 0 = ''0''"
  using digit_char_digit_val [of "CHR ''0''"] by (subst show_nat.simps) simp

lemma length_show_nat:
  "0 < w \<Longrightarrow> n < 10 ^ w \<Longrightarrow> length (show_nat n) \<le> w"
proof (induction n arbitrary: w rule: show_nat.induct)
  case (1 n)
  show ?case
  proof (cases "n < 10")
    case True
    with 1 show ?thesis by (subst show_nat.simps) simp
  next
    case False
    obtain v where w: "w = Suc v" using 1(2) by (cases w) auto
    have "v \<noteq> 0" using 1(3) False w by (cases v) auto
    have "n div 10 < 10 ^ v" using 1(3) w by (simp add: less_mult_imp_div_less mult.commute)
    with 1(1) False \<open>v \<noteq> 0\<close> have "length (show_nat (n div 10)) \<le> v" by simp
    with False w show ?thesis by (subst show_nat.simps) simp
  qed
qed

lemma zero_pad_digits [simp]: "all_digits (zero_pad w s) \<longleftrightarrow> all_digits s"
  by (simp add: zero_pad_def)

lemma dec_nat_zero_pad [simp]: "dec_nat (zero_pad w s) = dec_nat s"
  by (simp add: zero_pad_def dec_nat_append)

lemma length_zero_pad [simp]: "length s \<le> w \<Longrightarrow> length (zero_pad w s) = w"
  by (simp add: zero_pad_def)

lemma takeWhile_eq_replicate: "takeWhile (\<lambda>x. x = c) s = replicate (length (takeWhile (\<lambda>x. x = c) s)) c"
  by (induction s) auto

lemma trim_start_decomp: "\<exists>n. s = replicate n c @ trim_start_matches c s"
  using takeWhile_dropWhile_id [of "\<lambda>x. x = c" s] takeWhile_eq_replicate [of c s]
  by (metis trim_start_matches_def)

lemma trim_end_decomp: "\<exists>n. s = trim_end_matches c s @ replicate n c"
proof -
  let ?t = "takeWhile (\<lambda>x. x = c) (rev s)"
  have "?t = replicate (length ?t) c"
    by (rule takeWhile_eq_replicate)
  then have "rev ?t = replicate (length ?t) c" by (metis rev_replicate)
  moreover have "s = trim_end_matches c s @ rev ?t"
    by (metis rev_append rev_rev_ident takeWhile_dropWhile_id trim_end_matches_def)
  ultimately show ?thesis by metis
qed

lemma trim_end_pad:
  "trim_end_matches c s @ replicate (length s - length (trim_end_matches c s)) c = s"
proof -
  obtain n where n: "s = trim_end_matches c s @ replicate n c" using trim_end_decomp by blast
  then have "length s = length (trim_end_matches c s) + n" by (metis length_append length_replicate)
  with n show ?thesis by simp
qed

lemma trim_end_last: "trim_end_matches c s \<noteq> [] \<Longrightarrow> last (trim_end_matches c s) \<noteq> c"
  using hd_dropWhile [of "\<lambda>x. x = c" "rev s"] by (auto simp: trim_end_matches_def last_rev)

lemma trim_end_id: "s = [] \<or> last s \<noteq> c \<Longrightarrow> trim_end_matches c s = s"
  by (cases s rule: rev_cases) (auto simp: trim_end_matches_def)

lemma trim_end_append_replicate:
  "s = [] \<or> last s \<noteq> c \<Longrightarrow> trim_end_matches c (s @ replicate n c) = s"
  using trim_end_id [of s c] by (simp add: trim_end_matches_def dropWhile_append)

lemma trim_end_digits [simp]: "all_digits s \<Longrightarrow> all_digits (trim_end_matches c s)"
  by (auto simp: all_digits_iff trim_end_matches_def dest: set_dropWhileD)

lemma length_trim_end: "length (trim_end_matches c s) \<le> length s"
  using trim_end_decomp [of s c] by (metis le_add1 length_append)

end
