(* ===== verification/Decimals.thy ===== *)
theory Decimals
  imports Rust_Strings
begin

text \<open>
  Canonical decimals, \<open>contract/src/decimal.rs\<close>: the parser of TypeQL decimal text, the
  comparison of parsed decimals and their canonical spelling. \<open>dec_scaled\<close> is the reference
  meaning of a decimal: its value as an integer number of units of ten to the minus nineteen, the
  smallest fraction the grammar admits. The lemmas relate the digit-string algorithms to it.
\<close>

record canonical_decimal =
  dec_negative :: bool
  dec_whole :: string
  dec_fraction :: string

definition pad_end :: "nat \<Rightarrow> string \<Rightarrow> string" where
  "pad_end w s = s @ replicate (w - length s) CHR ''0''"

definition compare_decimal :: "canonical_decimal \<Rightarrow> canonical_decimal \<Rightarrow> ordering" where
  "compare_decimal a b =
     (if dec_negative a \<noteq> dec_negative b then (if dec_negative a then Less else Greater)
      else
        (let width = max (length (dec_fraction a)) (length (dec_fraction b));
             magnitude =
               then_with (then_with (cmp (length (dec_whole a)) (length (dec_whole b)))
                                    (cmp (dec_whole a) (dec_whole b)))
                         (cmp (pad_end width (dec_fraction a)) (pad_end width (dec_fraction b)))
         in if dec_negative a then reverse_ordering magnitude else magnitude))"

definition canonical_string :: "canonical_decimal \<Rightarrow> string" where
  "canonical_string d =
     (if dec_negative d then ''-'' else []) @ dec_whole d
     @ (if dec_fraction d \<noteq> [] then CHR ''.'' # dec_fraction d else [])"

definition decimal_limit :: "bool \<Rightarrow> string" where
  "decimal_limit neg = (if neg then ''9223372036854775808'' else ''9223372036854775807'')"

text \<open>The tail of the parser, from the split digits on: trimming, the range check, the sign.\<close>

definition normalize_decimal :: "bool \<Rightarrow> string \<Rightarrow> string \<Rightarrow> canonical_decimal option" where
  "normalize_decimal neg raw_whole raw_fraction =
     (let w0 = trim_start_matches (CHR ''0'') raw_whole;
          w = (if w0 = [] then ''0'' else w0);
          f = trim_end_matches (CHR ''0'') raw_fraction;
          limit = decimal_limit neg;
          r = \<lparr>dec_negative = neg \<and> \<not> (w = ''0'' \<and> f = []), dec_whole = w, dec_fraction = f\<rparr>
      in case then_with (cmp (length w) (length limit)) (cmp w limit) of
           Greater \<Rightarrow> None
         | Equal \<Rightarrow> if neg \<and> f \<noteq> [] then None else Some r
         | Less \<Rightarrow> Some r)"

definition parse_decimal :: "string \<Rightarrow> canonical_decimal option" where
  "parse_decimal text =
     (let value = unwrap_or (strip_suffix ''dec'' text) text;
          (neg, unsigned) =
            (case strip_prefix ''-'' value of
               Some v \<Rightarrow> (True, v)
             | None \<Rightarrow> (False, unwrap_or (strip_prefix ''+'' value) value));
          (raw_whole, raw_fraction) =
            (case split_once (CHR ''.'') unsigned of
               Some (w, f) \<Rightarrow> (w, Some f)
             | None \<Rightarrow> (unsigned, None))
      in if raw_whole = [] \<or> \<not> all_digits raw_whole
            \<or> (case raw_fraction of None \<Rightarrow> False
               | Some f \<Rightarrow> f = [] \<or> 19 < length f \<or> \<not> all_digits f)
         then None
         else normalize_decimal neg raw_whole (unwrap_or raw_fraction []))"

text \<open>Reference meaning and the well-formedness invariant of parsed decimals.\<close>

definition scaled :: "string \<Rightarrow> string \<Rightarrow> nat" where
  "scaled w f = dec_nat w * 10 ^ 19 + dec_nat (pad_end 19 f)"

definition signed :: "bool \<Rightarrow> nat \<Rightarrow> int" where
  "signed neg n = (if neg then - int n else int n)"

definition dec_scaled :: "canonical_decimal \<Rightarrow> int" where
  "dec_scaled d = signed (dec_negative d) (scaled (dec_whole d) (dec_fraction d))"

definition decimal_range :: "int \<Rightarrow> bool" where
  "decimal_range v \<longleftrightarrow> - (2 ^ 63 * 10 ^ 19) \<le> v \<and> v < 2 ^ 63 * 10 ^ 19"

definition whole_wf :: "string \<Rightarrow> bool" where
  "whole_wf w \<longleftrightarrow> w \<noteq> [] \<and> all_digits w \<and> (w = ''0'' \<or> hd w \<noteq> CHR ''0'')"

definition fraction_wf :: "string \<Rightarrow> bool" where
  "fraction_wf f \<longleftrightarrow> all_digits f \<and> length f \<le> 19 \<and> (f = [] \<or> last f \<noteq> CHR ''0'')"

definition decimal_wf :: "canonical_decimal \<Rightarrow> bool" where
  "decimal_wf d \<longleftrightarrow> whole_wf (dec_whole d) \<and> fraction_wf (dec_fraction d)
     \<and> \<not> (dec_negative d \<and> dec_whole d = ''0'' \<and> dec_fraction d = [])
     \<and> decimal_range (dec_scaled d)"

text \<open>The texts the grammar admits: a sign, whole digits, an optional fraction, the driver suffix.\<close>

definition decimal_text :: "string \<Rightarrow> string \<Rightarrow> string \<Rightarrow> string \<Rightarrow> string" where
  "decimal_text sign w f suffix = sign @ w @ (if f = [] then [] else CHR ''.'' # f) @ suffix"

section \<open>Digit strings and numbers\<close>

lemma pad_end_digits [simp]: "all_digits (pad_end n s) \<longleftrightarrow> all_digits s"
  by (simp add: pad_end_def)

lemma length_pad_end [simp]: "length s \<le> n \<Longrightarrow> length (pad_end n s) = n"
  by (simp add: pad_end_def)

lemma dec_nat_pad_end: "length s \<le> n \<Longrightarrow> dec_nat (pad_end n s) = dec_nat s * 10 ^ (n - length s)"
  by (simp add: pad_end_def dec_nat_append)

lemma dec_nat_pad_end_less:
  "all_digits s \<Longrightarrow> length s \<le> n \<Longrightarrow> dec_nat (pad_end n s) < 10 ^ n"
  using dec_nat_less [of "pad_end n s"] by simp

lemma whole_wf_show: "whole_wf w \<Longrightarrow> show_nat (dec_nat w) = w"
  by (auto simp: whole_wf_def show_nat_dec_nat)

lemma whole_wf_lower:
  assumes "whole_wf w" "w \<noteq> ''0''"
  shows "10 ^ (length w - 1) \<le> dec_nat w"
proof -
  obtain c r where w: "w = c # r" using assms by (cases w) (auto simp: whole_wf_def)
  with assms have "digit_val c \<noteq> 0"
    using digit_val_inj [of c "CHR ''0''"] by (auto simp: whole_wf_def)
  then show ?thesis using w by (cases "digit_val c") (auto simp: dec_nat_Cons)
qed

lemma dec_nat_length_less:
  assumes "whole_wf a" "whole_wf b" "length a < length b"
  shows "dec_nat a < dec_nat b"
proof -
  have "b \<noteq> ''0''" using assms by (auto simp: whole_wf_def less_Suc_eq)
  have "dec_nat a < 10 ^ length a" using assms by (simp add: whole_wf_def dec_nat_less)
  also have "\<dots> \<le> 10 ^ (length b - 1)" using assms by (intro power_increasing) auto
  also have "\<dots> \<le> dec_nat b" by (rule whole_wf_lower) fact+
  finally show ?thesis .
qed

lemma whole_cmp:
  assumes "whole_wf a" "whole_wf b"
  shows "then_with (cmp (length a) (length b)) (cmp a b) = cmp (dec_nat a) (dec_nat b)"
proof (cases "length a" "length b" rule: linorder_cases)
  case equal
  have "cmp a b = cmp (dec_nat a) (dec_nat b)"
    using assms equal by (intro cmp_cong) (simp_all add: whole_wf_def dec_nat_lex)
  with equal show ?thesis by (simp add: cmp_def)
qed (use assms dec_nat_length_less in \<open>force simp: cmp_def\<close>)+

lemma fraction_cmp:
  assumes "fraction_wf f" "fraction_wf g" "width = max (length f) (length g)"
  shows "cmp (pad_end width f) (pad_end width g) = cmp (dec_nat (pad_end 19 f)) (dec_nat (pad_end 19 g))"
proof -
  have "width \<le> 19" using assms by (simp add: fraction_wf_def)
  then have scale: "dec_nat (pad_end 19 x) = dec_nat (pad_end width x) * 10 ^ (19 - width)"
    if "length x \<le> width" for x
    using that by (simp add: dec_nat_pad_end flip: power_add mult.assoc)
  have "pad_end width f < pad_end width g \<longleftrightarrow> dec_nat (pad_end width f) < dec_nat (pad_end width g)"
       "pad_end width g < pad_end width f \<longleftrightarrow> dec_nat (pad_end width g) < dec_nat (pad_end width f)"
    using assms by (simp_all add: fraction_wf_def dec_nat_lex)
  then show ?thesis using assms scale [of f] scale [of g]
    by (intro cmp_cong) simp_all
qed

lemma cmp_combine:
  fixes a b x y k :: nat
  assumes "x < k" "y < k"
  shows "then_with (cmp a b) (cmp x y) = cmp (a * k + x) (b * k + y)"
  using lex_combine [OF assms, of a b] lex_combine [OF assms(2,1), of b a]
  by (cases "cmp a b") (auto simp: cmp_def)

lemma magnitude_cmp:
  assumes "decimal_wf a" "decimal_wf b"
    and "width = max (length (dec_fraction a)) (length (dec_fraction b))"
  shows "then_with (then_with (cmp (length (dec_whole a)) (length (dec_whole b)))
                              (cmp (dec_whole a) (dec_whole b)))
           (cmp (pad_end width (dec_fraction a)) (pad_end width (dec_fraction b)))
         = cmp (scaled (dec_whole a) (dec_fraction a)) (scaled (dec_whole b) (dec_fraction b))"
proof -
  have wf: "whole_wf (dec_whole x)" "fraction_wf (dec_fraction x)" if "decimal_wf x" for x
    using that by (simp_all add: decimal_wf_def)
  have "dec_nat (pad_end 19 (dec_fraction x)) < 10 ^ 19" if "decimal_wf x" for x
    using wf [OF that] by (intro dec_nat_pad_end_less) (simp_all add: fraction_wf_def)
  then show ?thesis using assms wf
    by (simp only: scaled_def whole_cmp fraction_cmp cmp_combine)
qed

lemma scaled_pos:
  assumes "decimal_wf d" "dec_negative d"
  shows "0 < scaled (dec_whole d) (dec_fraction d)"
proof (cases "dec_whole d = ''0''")
  case False
  then have "dec_nat (dec_whole d) > 0"
    using assms by (auto simp: decimal_wf_def whole_wf_def intro: dec_nat_pos)
  then show ?thesis by (simp add: scaled_def)
next
  case True
  with assms have f: "dec_fraction d \<noteq> []" "fraction_wf (dec_fraction d)" by (auto simp: decimal_wf_def)
  then obtain g c where g: "dec_fraction d = g @ [c]" by (cases "dec_fraction d" rule: rev_cases) auto
  with f have "digit_val c \<noteq> 0"
    using digit_val_inj [of c "CHR ''0''"] by (auto simp: fraction_wf_def)
  then have "dec_nat (dec_fraction d) > 0" by (simp add: g dec_nat_append)
  then show ?thesis using f by (simp add: scaled_def dec_nat_pad_end fraction_wf_def)
qed

section \<open>Comparison\<close>

lemma compare_decimal_scaled:
  assumes "decimal_wf a" "decimal_wf b"
  shows "compare_decimal a b = cmp (dec_scaled a) (dec_scaled b)"
proof (cases "dec_negative a = dec_negative b")
  case True
  then show ?thesis using magnitude_cmp [OF assms refl]
    by (auto simp: compare_decimal_def dec_scaled_def signed_def reverse_cmp intro!: cmp_cong)
next
  case False
  then show ?thesis using scaled_pos [OF assms(1)] scaled_pos [OF assms(2)]
    by (auto simp: compare_decimal_def dec_scaled_def signed_def cmp_def)
qed

lemma pad_end_inj:
  assumes "fraction_wf f" "fraction_wf g" "pad_end n f = pad_end n g"
  shows "f = g"
  using assms trim_end_append_replicate [of f "CHR ''0''"] trim_end_append_replicate [of g "CHR ''0''"]
  by (metis fraction_wf_def pad_end_def)

lemma scaled_inj:
  assumes "whole_wf w" "whole_wf v" "fraction_wf f" "fraction_wf g" "scaled w f = scaled v g"
  shows "w = v \<and> f = g"
proof -
  have less: "dec_nat (pad_end 19 x) < 10 ^ 19" if "fraction_wf x" for x
    using that by (intro dec_nat_pad_end_less) (simp_all add: fraction_wf_def)
  from cmp_combine [OF less [OF assms(3)] less [OF assms(4)], of "dec_nat w" "dec_nat v"] assms(5)
  have "then_with (cmp (dec_nat w) (dec_nat v)) (cmp (dec_nat (pad_end 19 f)) (dec_nat (pad_end 19 g))) = Equal"
    by (simp only: scaled_def cmp_eq_simps)
  then have "dec_nat w = dec_nat v" "dec_nat (pad_end 19 f) = dec_nat (pad_end 19 g)"
    by (cases "cmp (dec_nat w) (dec_nat v)"; simp)+
  then have "w = v" "pad_end 19 f = pad_end 19 g"
    using assms whole_wf_show dec_nat_inj [of "pad_end 19 f" "pad_end 19 g"]
    by (metis, auto simp: fraction_wf_def)
  with assms show ?thesis using pad_end_inj by blast
qed

lemma dec_scaled_inj:
  assumes "decimal_wf a" "decimal_wf b" "dec_scaled a = dec_scaled b"
  shows "a = b"
proof -
  have "dec_negative a = dec_negative b"
    using assms scaled_pos [of a] scaled_pos [of b]
    by (auto simp: dec_scaled_def signed_def split: if_splits)
  moreover from this have "scaled (dec_whole a) (dec_fraction a) = scaled (dec_whole b) (dec_fraction b)"
    using assms by (auto simp: dec_scaled_def signed_def split: if_splits)
  ultimately show ?thesis using scaled_inj assms by (auto simp: decimal_wf_def)
qed

section \<open>Parsing\<close>

lemma whole_normal_wf:
  assumes "w \<noteq> []" "all_digits w"
  shows "whole_wf (if trim_start_matches (CHR ''0'') w = [] then ''0'' else trim_start_matches (CHR ''0'') w)"
    (is ?wf)
    and "dec_nat (if trim_start_matches (CHR ''0'') w = [] then ''0'' else trim_start_matches (CHR ''0'') w)
         = dec_nat w" (is ?val)
proof -
  let ?t = "trim_start_matches (CHR ''0'') w"
  have digits: "all_digits ?t"
    using assms by (auto simp: all_digits_iff trim_start_matches_def dest: set_dropWhileD)
  have "?t \<noteq> [] \<Longrightarrow> hd ?t \<noteq> CHR ''0''"
    using hd_dropWhile [of "\<lambda>x. x = CHR ''0''" w] by (auto simp: trim_start_matches_def)
  with digits show ?wf by (auto simp: whole_wf_def)
  obtain n where w: "w = replicate n (CHR ''0'') @ ?t" using trim_start_decomp by blast
  have "dec_nat w = dec_nat ?t" by (subst w) (simp add: dec_nat_append)
  then show ?val by simp
qed

lemma pad_end_append_replicate:
  "length t + n \<le> k \<Longrightarrow> pad_end k (t @ replicate n (CHR ''0'')) = pad_end k t"
  by (simp add: pad_end_def flip: replicate_add)

lemma fraction_normal_wf:
  assumes "all_digits f" "length f \<le> 19"
  shows "fraction_wf (trim_end_matches (CHR ''0'') f)"
    and "pad_end 19 (trim_end_matches (CHR ''0'') f) = pad_end 19 f"
proof -
  show "fraction_wf (trim_end_matches (CHR ''0'') f)"
    using assms length_trim_end [of "CHR ''0''" f] trim_end_last [of "CHR ''0''" f]
    by (auto simp: fraction_wf_def)
  obtain n where n: "f = trim_end_matches (CHR ''0'') f @ replicate n (CHR ''0'')"
    using trim_end_decomp by blast
  have "length (trim_end_matches (CHR ''0'') f) + n = length f"
    using arg_cong [OF n, of length] by (simp only: length_append length_replicate)
  then have "pad_end 19 (trim_end_matches (CHR ''0'') f @ replicate n (CHR ''0''))
      = pad_end 19 (trim_end_matches (CHR ''0'') f)"
    using assms by (intro pad_end_append_replicate) simp
  then show "pad_end 19 (trim_end_matches (CHR ''0'') f) = pad_end 19 f"
    by (simp only: n [symmetric])
qed

lemma limit_value:
  "dec_nat (decimal_limit neg) = (if neg then 2 ^ 63 else 2 ^ 63 - 1)" "whole_wf (decimal_limit neg)"
  by (cases neg; simp add: decimal_limit_def dec_nat_Cons digit_val_def whole_wf_def is_ascii_digit_def)+

lemma range_check:
  assumes "whole_wf w" "fraction_wf f"
  shows "decimal_range (signed neg (scaled w f)) \<longleftrightarrow>
    (case then_with (cmp (length w) (length (decimal_limit neg))) (cmp w (decimal_limit neg)) of
       Greater \<Rightarrow> False | Equal \<Rightarrow> \<not> (neg \<and> f \<noteq> []) | Less \<Rightarrow> True)"
proof -
  let ?p = "dec_nat (pad_end 19 f)"
  have p: "?p < 10 ^ 19"
    using assms by (intro dec_nat_pad_end_less) (simp_all add: fraction_wf_def)
  have zero: "?p = 0 \<longleftrightarrow> f = []"
    using scaled_inj [of "''0''" "''0''" f "[]"] assms
    by (auto simp: scaled_def pad_end_def whole_wf_def fraction_wf_def)
  have "then_with (cmp (length w) (length (decimal_limit neg))) (cmp w (decimal_limit neg))
        = cmp (dec_nat w) (if neg then 2 ^ 63 else 2 ^ 63 - 1)"
    using whole_cmp [OF assms(1) limit_value(2)] by (simp only: limit_value(1))
  moreover have "decimal_range (signed neg (scaled w f)) \<longleftrightarrow>
    (if neg then dec_nat w < 2 ^ 63 \<or> dec_nat w = 2 ^ 63 \<and> ?p = 0 else dec_nat w < 2 ^ 63)"
    using p by (auto simp: decimal_range_def signed_def scaled_def)
  ultimately show ?thesis using zero by (auto simp: cmp_def)
qed

lemma normalize_decimal_spec:
  assumes "w \<noteq> []" "all_digits w" "all_digits f" "length f \<le> 19"
  shows "decimal_range (signed neg (scaled w f)) \<Longrightarrow>
           \<exists>d. normalize_decimal neg w f = Some d \<and> decimal_wf d \<and> dec_scaled d = signed neg (scaled w f)"
    and "\<not> decimal_range (signed neg (scaled w f)) \<Longrightarrow> normalize_decimal neg w f = None"
proof -
  define w' where "w' = (if trim_start_matches (CHR ''0'') w = [] then ''0'' else trim_start_matches (CHR ''0'') w)"
  define f' where "f' = trim_end_matches (CHR ''0'') f"
  let ?d = "\<lparr>dec_negative = neg \<and> \<not> (w' = ''0'' \<and> f' = []), dec_whole = w', dec_fraction = f'\<rparr>"
  have wf: "whole_wf w'" "fraction_wf f'" and eq: "scaled w' f' = scaled w f"
    using whole_normal_wf [OF assms(1,2)] fraction_normal_wf [OF assms(3,4)]
    unfolding w'_def f'_def scaled_def by simp_all
  have "normalize_decimal neg w f = (if decimal_range (signed neg (scaled w' f')) then Some ?d else None)"
    using range_check [OF wf, of neg]
    by (auto simp: normalize_decimal_def Let_def w'_def f'_def split: ordering.splits)
  moreover have "dec_scaled ?d = signed neg (scaled w' f')"
    by (auto simp: dec_scaled_def signed_def scaled_def pad_end_def)
  ultimately show "decimal_range (signed neg (scaled w f)) \<Longrightarrow>
           \<exists>d. normalize_decimal neg w f = Some d \<and> decimal_wf d \<and> dec_scaled d = signed neg (scaled w f)"
    and "\<not> decimal_range (signed neg (scaled w f)) \<Longrightarrow> normalize_decimal neg w f = None"
    using wf eq by (auto simp: decimal_wf_def)
qed

lemma not_digit_simps [simp]:
  "\<not> is_ascii_digit CHR ''.''" "\<not> is_ascii_digit CHR ''-''" "\<not> is_ascii_digit CHR ''+''"
  "\<not> is_ascii_digit CHR ''c''"
  by (simp_all add: is_ascii_digit_def)

lemma strip_dec_digits:
  assumes "all_digits t" "t \<noteq> []"
  shows "strip_suffix ''dec'' (s @ t) = None"
proof -
  obtain t' c where t: "t = t' @ [c]" using assms(2) by (cases t rule: rev_cases) auto
  with assms(1) have "c \<noteq> CHR ''c''" by auto
  then show ?thesis by (simp add: t strip_suffix_def strip_prefix_def)
qed

lemma decimal_text_strip:
  assumes "w \<noteq> []" "all_digits w" "all_digits f" "suffix \<in> {[], ''dec''}"
  shows "unwrap_or (strip_suffix ''dec'' (decimal_text sign w f suffix)) (decimal_text sign w f suffix)
         = sign @ w @ (if f = [] then [] else CHR ''.'' # f)"
proof (cases "suffix = []")
  case True
  have "strip_suffix ''dec'' (decimal_text sign w f []) = None"
    using strip_dec_digits [of w sign] strip_dec_digits [of f "sign @ w @ ''.''"] assms
    by (auto simp: decimal_text_def)
  with True show ?thesis by (simp add: decimal_text_def unwrap_or_def)
next
  case False
  then have "decimal_text sign w f suffix = (sign @ w @ (if f = [] then [] else CHR ''.'' # f)) @ ''dec''"
    using assms by (simp add: decimal_text_def)
  then show ?thesis by (simp only: strip_suffix_append unwrap_or_def option.case)
qed

lemma parse_decimal_text:
  assumes "sign \<in> {[], ''+'', ''-''}" "w \<noteq> []" "all_digits w" "all_digits f" "length f \<le> 19"
    "suffix \<in> {[], ''dec''}"
  shows "parse_decimal (decimal_text sign w f suffix) = normalize_decimal (sign = ''-'') w f"
proof -
  let ?u = "w @ (if f = [] then [] else CHR ''.'' # f)"
  have split: "split_once (CHR ''.'') ?u = (if f = [] then None else Some (w, f))"
    using all_digits_not_mem [OF assms(3), of "CHR ''.''"] by (simp add: split_once_append split_once_None)
  have "hd w \<noteq> CHR ''-''" "hd w \<noteq> CHR ''+''" using assms by (cases w; auto)+
  then have "(case strip_prefix ''-'' (sign @ ?u) of Some v \<Rightarrow> (True, v)
       | None \<Rightarrow> (False, unwrap_or (strip_prefix ''+'' (sign @ ?u)) (sign @ ?u))) = (sign = ''-'', ?u)"
    using assms(1,2) by (cases w) (auto simp: unwrap_or_def)
  then show ?thesis
    unfolding parse_decimal_def decimal_text_strip [OF assms(2,3,4,6)] Let_def
    using assms split by (simp add: unwrap_or_def)
qed

lemma parse_decimal_SomeE:
  assumes "parse_decimal s = Some d"
  obtains sign w f suffix where "s = decimal_text sign w f suffix" "sign \<in> {[], ''+'', ''-''}"
    "w \<noteq> []" "all_digits w" "all_digits f" "length f \<le> 19" "suffix \<in> {[], ''dec''}"
proof -
  define body where "body = unwrap_or (strip_suffix ''dec'' s) s"
  obtain suffix where s: "s = body @ suffix" "suffix \<in> {[], ''dec''}"
    using strip_suffix_eq_Some [of "''dec''" s]
    by (cases "strip_suffix ''dec'' s") (auto simp: body_def unwrap_or_def)
  obtain neg u where u: "(case strip_prefix ''-'' body of Some v \<Rightarrow> (True, v)
       | None \<Rightarrow> (False, unwrap_or (strip_prefix ''+'' body) body)) = (neg, u)" by fastforce
  then obtain sign where v: "body = sign @ u" "sign \<in> {[], ''+'', ''-''}"
    by (cases body) (auto simp: unwrap_or_def split: if_splits)
  have digits: "\<exists>w f. u = w @ (if f = [] then [] else CHR ''.'' # f) \<and> w \<noteq> [] \<and> all_digits w
      \<and> all_digits f \<and> length f \<le> 19"
  proof (cases "split_once (CHR ''.'') u")
    case None
    then have "u \<noteq> [] \<and> all_digits u" using assms u
      by (auto simp: parse_decimal_def Let_def simp flip: body_def split: if_splits)
    then have "u = u @ (if [] = [] then [] else CHR ''.'' # [])" "u \<noteq> []" "all_digits u" "all_digits []"
      by simp_all
    then show ?thesis by (metis le0 list.size(3))
  next
    case (Some wf)
    then obtain w f where wf: "split_once (CHR ''.'') u = Some (w, f)" by (cases wf) auto
    then have "w \<noteq> [] \<and> all_digits w \<and> f \<noteq> [] \<and> all_digits f \<and> length f \<le> 19" using assms u
      by (auto simp: parse_decimal_def Let_def simp flip: body_def split: if_splits)
    moreover have "u = w @ CHR ''.'' # f" using wf by (simp add: split_once_Some)
    ultimately show ?thesis by metis
  qed
  then show ?thesis using that s v unfolding decimal_text_def by (metis append.assoc)
qed

lemma parse_decimal_wf:
  assumes "parse_decimal s = Some d"
  shows "decimal_wf d"
  using assms
proof (cases rule: parse_decimal_SomeE)
  case (1 sign w f suffix)
  then have "normalize_decimal (sign = ''-'') w f = Some d"
    using assms parse_decimal_text [of sign w f suffix] by simp
  then show ?thesis using normalize_decimal_spec [OF 1(3-6), of "sign = ''-''"] by fastforce
qed

lemma parse_canonical_string:
  assumes "decimal_wf d"
  shows "parse_decimal (canonical_string d) = Some d"
proof -
  let ?sign = "if dec_negative d then ''-'' else []"
  have wf: "dec_whole d \<noteq> []" "all_digits (dec_whole d)" "all_digits (dec_fraction d)"
      "length (dec_fraction d) \<le> 19"
    using assms by (auto simp: decimal_wf_def whole_wf_def fraction_wf_def)
  have "canonical_string d = decimal_text ?sign (dec_whole d) (dec_fraction d) []"
    by (simp add: canonical_string_def decimal_text_def)
  then have "parse_decimal (canonical_string d) = normalize_decimal (dec_negative d) (dec_whole d) (dec_fraction d)"
    using parse_decimal_text [of ?sign "dec_whole d" "dec_fraction d" "[]"] wf by simp
  also have "\<dots> = Some d"
    using normalize_decimal_spec(1) [OF wf, of "dec_negative d"] assms dec_scaled_inj
    by (auto simp: dec_scaled_def decimal_wf_def)
  finally show ?thesis .
qed

lemma length_whole:
  assumes "decimal_wf d"
  shows "length (dec_whole d) \<le> 19"
proof -
  have "int (scaled (dec_whole d) (dec_fraction d)) \<le> 2 ^ 63 * 10 ^ 19"
    using assms by (auto simp: decimal_wf_def dec_scaled_def decimal_range_def signed_def split: if_splits)
  then have "dec_nat (dec_whole d) \<le> 2 ^ 63" by (simp add: scaled_def)
  then have "length (show_nat (dec_nat (dec_whole d))) \<le> 19" by (intro length_show_nat) simp_all
  then show ?thesis using assms whole_wf_show by (simp add: decimal_wf_def)
qed

section \<open>Properties\<close>



text \<open>
  C29. Canonical spelling: whatever text a decimal was parsed from, its canonical string parses back
  to the same decimal, is at most 40 bytes long, and is the same for two texts exactly when they
  denote the same number.
\<close>

theorem decimal_canonical_roundtrip:
  assumes "parse_decimal s = Some a" "parse_decimal t = Some b"
  shows "parse_decimal (canonical_string a) = Some a
     \<and> length (canonical_string a) \<le> 40
     \<and> (canonical_string a = canonical_string b \<longleftrightarrow> dec_scaled a = dec_scaled b)"
proof (intro conjI)
  note wf = parse_decimal_wf [OF assms(1)] parse_decimal_wf [OF assms(2)]
  show "parse_decimal (canonical_string a) = Some a" using wf by (simp add: parse_canonical_string)
  show "length (canonical_string a) \<le> 40"
    using wf length_whole [OF wf(1)] by (simp add: canonical_string_def decimal_wf_def fraction_wf_def)
  show "canonical_string a = canonical_string b \<longleftrightarrow> dec_scaled a = dec_scaled b"
    using wf parse_canonical_string dec_scaled_inj by (metis option.inject)
qed

theorem decimal_canonical_roundtrip_witness:
  "\<exists>a b. parse_decimal ''+01.250'' = Some a \<and> parse_decimal ''1.25dec'' = Some b
     \<and> parse_decimal (canonical_string a) = Some a \<and> length (canonical_string a) \<le> 40
     \<and> canonical_string a = canonical_string b"
proof -
  let ?d = "\<lparr>dec_negative = False, dec_whole = ''1'', dec_fraction = ''25''\<rparr>"
  have "parse_decimal ''+01.250'' = Some ?d" "parse_decimal ''1.25dec'' = Some ?d" by code_simp+
  from decimal_canonical_roundtrip [OF this] this show ?thesis by blast
qed

text \<open>
  C30. Comparing two parsed decimals with the digit-wise algorithm gives the order of the numbers
  they denote, so it does not depend on how they were spelled.
\<close>

theorem compare_decimal_numeric:
  assumes "parse_decimal s = Some a" "parse_decimal t = Some b"
  shows "compare_decimal a b = cmp (dec_scaled a) (dec_scaled b)"
  using assms compare_decimal_scaled parse_decimal_wf by blast

theorem compare_decimal_numeric_witness:
  "\<exists>a b. parse_decimal ''-10.5'' = Some a \<and> parse_decimal ''-9.75'' = Some b
     \<and> compare_decimal a b = cmp (dec_scaled a) (dec_scaled b) \<and> dec_scaled a < dec_scaled b"
proof -
  let ?a = "\<lparr>dec_negative = True, dec_whole = ''10'', dec_fraction = ''5''\<rparr>"
  let ?b = "\<lparr>dec_negative = True, dec_whole = ''9'', dec_fraction = ''75''\<rparr>"
  have p: "parse_decimal ''-10.5'' = Some ?a" "parse_decimal ''-9.75'' = Some ?b" by code_simp+
  moreover have "compare_decimal ?a ?b = Less" by code_simp
  ultimately show ?thesis using compare_decimal_numeric [OF p] by (metis cmp_eq_simps(1))
qed

end
