(* ===== verification/Temporals.thy ===== *)
theory Temporals
  imports Rust_Strings
begin

text \<open>
  Canonical temporal values, \<open>contract/src/temporal.rs\<close>: validated calendar dates, times of day,
  date-times, zoned date-times and durations, with their \<open>Display\<close> and \<open>FromStr\<close> implementations
  and the order key of zoned instants. Component integers are \<open>int\<close> or \<open>nat\<close>; the casts to
  \<open>u8\<close> that the parsers perform before validation are written as \<open>mod 256\<close>, and the width limits
  of \<open>str::parse\<close> are part of the integer parsers.
\<close>

section \<open>Dates\<close>

definition invalid_temporal :: diagnostic where
  "invalid_temporal = Diagnostic InvalidContract ''invalid_canonical_scalar''"

definition MIN_CANONICAL_YEAR :: int where "MIN_CANONICAL_YEAR = - 262143"

definition MAX_CANONICAL_YEAR :: int where "MAX_CANONICAL_YEAR = 262142"

definition MAX_TIME_ZONE_NAME_BYTES :: nat where "MAX_TIME_ZONE_NAME_BYTES = 255"

definition parse_digits :: "string \<Rightarrow> nat option" where
  "parse_digits s = (if s \<noteq> [] \<and> all_digits s then parse_unsigned 32 s else None)"

text \<open>Rust's integer division truncates towards zero.\<close>

definition rust_div :: "int \<Rightarrow> int \<Rightarrow> int" where
  "rust_div a b = sgn a * sgn b * (\<bar>a\<bar> div \<bar>b\<bar>)"

definition rust_rem :: "int \<Rightarrow> int \<Rightarrow> int" where
  "rust_rem a b = a - rust_div a b * b"

record canonical_date =
  date_year :: int
  date_month :: nat
  date_day :: nat

definition date_leap :: "int \<Rightarrow> bool" where
  "date_leap year \<longleftrightarrow> rust_rem year 4 = 0 \<and> (rust_rem year 100 \<noteq> 0 \<or> rust_rem year 400 = 0)"

definition date_max_day :: "int \<Rightarrow> nat \<Rightarrow> nat" where
  "date_max_day year month =
     (if month \<in> {1, 3, 5, 7, 8, 10, 12} then 31
      else if month \<in> {4, 6, 9, 11} then 30
      else if month = 2 then (if date_leap year then 29 else 28)
      else 0)"

definition date_new :: "int \<Rightarrow> nat \<Rightarrow> nat \<Rightarrow> canonical_date res" where
  "date_new year month day =
     (if \<not> (MIN_CANONICAL_YEAR \<le> year \<and> year \<le> MAX_CANONICAL_YEAR) \<or> day = 0
         \<or> date_max_day year month < day
      then Inl invalid_temporal
      else Inr \<lparr>date_year = year, date_month = month, date_day = day\<rparr>)"

definition show_year :: "int \<Rightarrow> string" where
  "show_year y =
     (if 0 \<le> y \<and> y \<le> 9999 then zero_pad 4 (show_nat (nat y))
      else if 10000 \<le> y then CHR ''+'' # show_nat (nat y)
      else if - 9999 \<le> y \<and> y \<le> - 1 then CHR ''-'' # zero_pad 4 (show_nat (nat (- y)))
      else show_int y)"

definition show_date :: "canonical_date \<Rightarrow> string" where
  "show_date d = show_year (date_year d) @ ''-'' @ zero_pad 2 (show_nat (date_month d))
     @ ''-'' @ zero_pad 2 (show_nat (date_day d))"

definition date_from_str :: "string \<Rightarrow> canonical_date res" where
  "date_from_str text =
     bind_res (ok_or (rsplit_once (CHR ''-'') text) invalid_temporal) (\<lambda>(year_month, day).
     bind_res (ok_or (rsplit_once (CHR ''-'') year_month) invalid_temporal) (\<lambda>(year, month).
     bind_res (ok_or (parse_signed 32 year) invalid_temporal) (\<lambda>y.
     bind_res (ok_or (parse_digits month) invalid_temporal) (\<lambda>m.
     bind_res (ok_or (parse_digits day) invalid_temporal) (\<lambda>d.
     bind_res (date_new y (m mod 256) (d mod 256)) (\<lambda>parsed.
       if show_date parsed \<noteq> text then Inl invalid_temporal else Inr parsed))))))"

section \<open>Times of day and date-times\<close>

record canonical_time =
  time_hour :: nat
  time_minute :: nat
  time_second :: nat
  time_nanosecond :: nat

definition time_new :: "nat \<Rightarrow> nat \<Rightarrow> nat \<Rightarrow> nat \<Rightarrow> canonical_time res" where
  "time_new hour minute second nanosecond =
     (if 23 < hour \<or> 59 < minute \<or> 59 < second \<or> 1000000000 \<le> nanosecond
      then Inl invalid_temporal
      else Inr \<lparr>time_hour = hour, time_minute = minute, time_second = second,
                time_nanosecond = nanosecond\<rparr>)"

definition show_fraction :: "nat \<Rightarrow> string" where
  "show_fraction n =
     (if n \<noteq> 0 then CHR ''.'' # trim_end_matches (CHR ''0'') (zero_pad 9 (show_nat n)) else [])"

definition show_time :: "canonical_time \<Rightarrow> string" where
  "show_time t = zero_pad 2 (show_nat (time_hour t)) @ '':'' @ zero_pad 2 (show_nat (time_minute t))
     @ '':'' @ zero_pad 2 (show_nat (time_second t)) @ show_fraction (time_nanosecond t)"

text \<open>\<open>extend(repeat_n('0', 9 - fraction.len()))\<close>\<close>

definition pad_nanos :: "string \<Rightarrow> string" where
  "pad_nanos f = f @ replicate (9 - length f) (CHR ''0'')"

definition time_seconds_from_str :: "string \<Rightarrow> (string \<times> nat) res" where
  "time_seconds_from_str text =
     (case split_once (CHR ''.'') text of
        Some (seconds, fraction) \<Rightarrow>
          if fraction \<noteq> [] \<and> length fraction \<le> 9 \<and> all_digits fraction
          then bind_res (ok_or (parse_unsigned 32 (pad_nanos fraction)) invalid_temporal)
                 (\<lambda>nanos. Inr (seconds, nanos))
          else Inl invalid_temporal
      | None \<Rightarrow> Inr (text, 0))"

definition time_from_str :: "string \<Rightarrow> canonical_time res" where
  "time_from_str text =
     (if \<not> list_all is_ascii text \<or> length text < 8 \<or> text ! 2 \<noteq> CHR '':'' \<or> text ! 5 \<noteq> CHR '':''
      then Inl invalid_temporal
      else
        bind_res (ok_or (parse_digits (take 2 text)) invalid_temporal) (\<lambda>hour.
        bind_res (ok_or (parse_digits (take 2 (drop 3 text))) invalid_temporal) (\<lambda>minute.
        bind_res (time_seconds_from_str (drop 6 text)) (\<lambda>(seconds, nanos).
        bind_res (ok_or (parse_digits seconds) invalid_temporal) (\<lambda>s.
        bind_res (ensure (s < 256) invalid_temporal) (\<lambda>_.
        bind_res (time_new (hour mod 256) (minute mod 256) s nanos) (\<lambda>parsed.
          if show_time parsed \<noteq> text then Inl invalid_temporal else Inr parsed)))))))"

record canonical_date_time =
  dt_date :: canonical_date
  dt_time :: canonical_time

definition show_date_time :: "canonical_date_time \<Rightarrow> string" where
  "show_date_time x = show_date (dt_date x) @ ''T'' @ show_time (dt_time x)"

definition date_time_from_str :: "string \<Rightarrow> canonical_date_time res" where
  "date_time_from_str text =
     bind_res (ok_or (split_once (CHR ''T'') text) invalid_temporal) (\<lambda>(date, time).
       if CHR ''T'' \<in> set time then Inl invalid_temporal
       else
         bind_res (date_from_str date) (\<lambda>d.
         bind_res (time_from_str time) (\<lambda>t.
           Inr \<lparr>dt_date = d, dt_time = t\<rparr>)))"

section \<open>Zoned date-times\<close>

datatype time_zone_designator = Utc | OffsetSeconds int | Named string

record canonical_date_time_tz =
  tz_local :: canonical_date_time
  tz_zone :: time_zone_designator
  tz_effective_offset_seconds :: int

definition tz_new_fixed ::
  "canonical_date_time \<Rightarrow> time_zone_designator \<Rightarrow> canonical_date_time_tz res" where
  "tz_new_fixed local zone =
     (case zone of
        Utc \<Rightarrow> Inr \<lparr>tz_local = local, tz_zone = zone, tz_effective_offset_seconds = 0\<rparr>
      | OffsetSeconds seconds \<Rightarrow>
          if \<bar>seconds\<bar> \<le> 86399 \<and> seconds \<noteq> 0
          then Inr \<lparr>tz_local = local, tz_zone = zone, tz_effective_offset_seconds = seconds\<rparr>
          else Inl invalid_temporal
      | Named _ \<Rightarrow> Inl invalid_temporal)"

definition tz_new_named_resolved ::
  "canonical_date_time \<Rightarrow> string \<Rightarrow> int \<Rightarrow> canonical_date_time_tz res" where
  "tz_new_named_resolved local name offset =
     (if name = [] \<or> MAX_TIME_ZONE_NAME_BYTES < length name
         \<or> \<not> list_all (\<lambda>b. is_ascii_alphanumeric b \<or> b \<in> set ''/_-+'') name
         \<or> 86399 < \<bar>offset\<bar>
      then Inl invalid_temporal
      else Inr \<lparr>tz_local = local, tz_zone = Named name, tz_effective_offset_seconds = offset\<rparr>)"

definition date_order_key :: "canonical_date \<Rightarrow> int" where
  "date_order_key d =
     (let year = date_year d; month = int (date_month d); day = int (date_day d);
          adjusted_year = year - (if month \<le> 2 then 1 else 0);
          era = rust_div (if 0 \<le> adjusted_year then adjusted_year else adjusted_year - 399) 400;
          year_of_era = adjusted_year - era * 400;
          adjusted_month = month + (if 2 < month then - 3 else 9);
          day_of_year = rust_div (153 * adjusted_month + 2) 5 + day - 1
      in era * 146097 + year_of_era * 365 + rust_div year_of_era 4 - rust_div year_of_era 100
         + day_of_year)"

definition local_nanoseconds :: "canonical_date_time \<Rightarrow> int" where
  "local_nanoseconds x =
     (let t = dt_time x in
      date_order_key (dt_date x) * 86400000000000 + int (time_hour t) * 3600000000000
      + int (time_minute t) * 60000000000 + int (time_second t) * 1000000000
      + int (time_nanosecond t))"

definition semantic_utc_nanoseconds :: "canonical_date_time_tz \<Rightarrow> int" where
  "semantic_utc_nanoseconds z =
     local_nanoseconds (tz_local z) - tz_effective_offset_seconds z * 1000000000"

definition tz_wire_decode ::
  "canonical_date_time \<Rightarrow> time_zone_designator \<Rightarrow> int \<Rightarrow> canonical_date_time_tz res" where
  "tz_wire_decode local zone offset =
     (case zone of
        Utc \<Rightarrow> if offset = 0 then tz_new_fixed local Utc else Inl invalid_temporal
      | OffsetSeconds seconds \<Rightarrow>
          if offset = seconds then tz_new_fixed local (OffsetSeconds seconds) else Inl invalid_temporal
      | Named name \<Rightarrow> tz_new_named_resolved local name offset)"

definition show_offset :: "int \<Rightarrow> string" where
  "show_offset seconds =
     (let absolute = nat \<bar>seconds\<bar>; s = absolute mod 60 in
      [if seconds < 0 then CHR ''-'' else CHR ''+''] @ zero_pad 2 (show_nat (absolute div 3600))
      @ '':'' @ zero_pad 2 (show_nat (absolute mod 3600 div 60))
      @ (if s \<noteq> 0 then '':'' @ zero_pad 2 (show_nat s) else []))"

definition show_date_time_tz :: "canonical_date_time_tz \<Rightarrow> string" where
  "show_date_time_tz z = show_date_time (tz_local z)
     @ (case tz_zone z of
          Utc \<Rightarrow> ''Z''
        | Named name \<Rightarrow> ''['' @ name @ '']''
        | OffsetSeconds seconds \<Rightarrow> show_offset seconds)"

definition offset_shape :: "string \<Rightarrow> bool" where
  "offset_shape b \<longleftrightarrow>
     (length b = 6 \<or> length b = 9 \<and> b ! 6 = CHR '':'')
     \<and> b ! 0 \<in> set ''+-'' \<and> b ! 3 = CHR '':''
     \<and> list_all (\<lambda>i. i \<in> {0, 3, 6} \<or> is_ascii_digit (b ! i)) [0..<length b]"

definition parse_fixed_offset_seconds :: "string \<Rightarrow> int option" where
  "parse_fixed_offset_seconds b =
     (if \<not> offset_shape b then None
      else
        (case parse_signed 32 (take 2 (drop 1 b)) of None \<Rightarrow> None | Some hours \<Rightarrow>
         case parse_signed 32 (take 2 (drop 4 b)) of None \<Rightarrow> None | Some minutes \<Rightarrow>
         case (if length b = 9 then parse_signed 32 (take 2 (drop 7 b)) else Some 0) of
           None \<Rightarrow> None | Some seconds \<Rightarrow>
         if 23 < hours \<or> 59 < minutes \<or> 59 < seconds then None
         else
           (let magnitude = hours * 3600 + minutes * 60 + seconds in
            Some (if b ! 0 = CHR ''-'' then - magnitude else magnitude))))"

fun find_offset :: "string \<Rightarrow> nat list \<Rightarrow> (nat \<times> int) option" where
  "find_offset text [] = None"
| "find_offset text (width # ws) =
     (case (if width \<le> length text
            then map_option (\<lambda>s. (length text - width, s))
                   (parse_fixed_offset_seconds (drop (length text - width) text))
            else None) of
        Some r \<Rightarrow> Some r
      | None \<Rightarrow> find_offset text ws)"

definition date_time_tz_from_str :: "string \<Rightarrow> canonical_date_time_tz res" where
  "date_time_tz_from_str text =
     (if \<not> list_all is_ascii text then Inl invalid_temporal
      else
        case strip_suffix ''Z'' text of
          Some local \<Rightarrow>
            bind_res (date_time_from_str local) (\<lambda>l.
            bind_res (tz_new_fixed l Utc) (\<lambda>parsed.
              if show_date_time_tz parsed = text then Inr parsed else Inl invalid_temporal))
        | None \<Rightarrow>
            if strip_suffix '']'' text \<noteq> None then Inl invalid_temporal
            else
              bind_res (ok_or (find_offset text [9, 6]) invalid_temporal) (\<lambda>(split, seconds).
              bind_res (date_time_from_str (take split text)) (\<lambda>l.
              bind_res (tz_new_fixed l (OffsetSeconds seconds)) (\<lambda>parsed.
                if show_date_time_tz parsed \<noteq> text then Inl invalid_temporal else Inr parsed))))"

section \<open>Durations\<close>

record canonical_duration =
  dur_negative :: bool
  dur_months :: nat
  dur_days :: nat
  dur_seconds :: nat
  dur_nanosecond :: nat

definition duration_new :: "bool \<Rightarrow> nat \<Rightarrow> nat \<Rightarrow> nat \<Rightarrow> nat \<Rightarrow> canonical_duration res" where
  "duration_new negative months days seconds nanosecond =
     (if 1000000000 \<le> nanosecond then Inl invalid_temporal
      else
        (let zero = (months = 0 \<and> days = 0 \<and> seconds = 0 \<and> nanosecond = 0) in
         Inr \<lparr>dur_negative = negative \<and> \<not> zero, dur_months = months, dur_days = days,
              dur_seconds = seconds, dur_nanosecond = nanosecond\<rparr>))"

definition show_duration :: "canonical_duration \<Rightarrow> string" where
  "show_duration d =
     (if dur_negative d then ''-'' else []) @ ''P''
     @ (if dur_months d \<noteq> 0 then show_nat (dur_months d) @ ''M'' else [])
     @ (if dur_days d \<noteq> 0 then show_nat (dur_days d) @ ''D'' else [])
     @ (if dur_seconds d \<noteq> 0 \<or> dur_nanosecond d \<noteq> 0 \<or> (dur_months d = 0 \<and> dur_days d = 0)
        then ''T'' @ show_nat (dur_seconds d) @ show_fraction (dur_nanosecond d) @ ''S'' else [])"

definition canonical_unsigned :: "string \<Rightarrow> nat option" where
  "canonical_unsigned s =
     (if s = [] \<or> \<not> all_digits s then None
      else
        (case parse_unsigned 64 s of
           None \<Rightarrow> None
         | Some parsed \<Rightarrow> if show_nat parsed = s then Some parsed else None))"

text \<open>\<open>if let Some(index) = rest.find(c)\<close>: the unsigned number before the first \<open>c\<close> and the
  text after it, or zero and the whole text.\<close>

definition take_component :: "char \<Rightarrow> string \<Rightarrow> (nat \<times> string) res" where
  "take_component c rest =
     (case split_once c rest of
        None \<Rightarrow> Inr (0, rest)
      | Some (before, after) \<Rightarrow>
          bind_res (ok_or (canonical_unsigned before) invalid_temporal) (\<lambda>n. Inr (n, after)))"

definition duration_time_from_str :: "string option \<Rightarrow> (nat \<times> nat) res" where
  "duration_time_from_str time_part =
     (case time_part of
        None \<Rightarrow> Inr (0, 0)
      | Some time \<Rightarrow>
          bind_res (ok_or (strip_suffix ''S'' time) invalid_temporal) (\<lambda>seconds.
            case split_once (CHR ''.'') seconds of
              Some (whole, fraction) \<Rightarrow>
                if fraction \<noteq> [] \<and> length fraction \<le> 9 \<and> last fraction \<noteq> CHR ''0'' \<and> all_digits fraction
                then
                  bind_res (ok_or (canonical_unsigned whole) invalid_temporal) (\<lambda>s.
                  bind_res (ok_or (parse_unsigned 32 (pad_nanos fraction)) invalid_temporal) (\<lambda>n.
                    Inr (s, n)))
                else Inl invalid_temporal
            | None \<Rightarrow>
                bind_res (ok_or (canonical_unsigned seconds) invalid_temporal) (\<lambda>s. Inr (s, 0))))"

definition duration_body_from_str :: "bool \<Rightarrow> string \<Rightarrow> string \<Rightarrow> canonical_duration res" where
  "duration_body_from_str negative body original =
     (let (date, time) = (case split_once (CHR ''T'') body of
                            Some (d, t) \<Rightarrow> (d, Some t) | None \<Rightarrow> (body, None))
      in
        bind_res (take_component (CHR ''M'') date) (\<lambda>(months, rest).
        bind_res (take_component (CHR ''D'') rest) (\<lambda>(days, rest).
          if rest \<noteq> [] \<or> months = 0 \<and> CHR ''M'' \<in> set date \<or> days = 0 \<and> CHR ''D'' \<in> set date
          then Inl invalid_temporal
          else
            bind_res (duration_time_from_str time) (\<lambda>(seconds, nanosecond).
              if months = 0 \<and> days = 0 \<and> seconds = 0 \<and> nanosecond = 0 then Inl invalid_temporal
              else
                bind_res (duration_new negative months days seconds nanosecond) (\<lambda>parsed.
                  if show_duration parsed \<noteq> original then Inl invalid_temporal else Inr parsed)))))"

definition duration_from_str :: "string \<Rightarrow> canonical_duration res" where
  "duration_from_str original =
     (let (negative, text) = (case strip_prefix ''-'' original of
                                 None \<Rightarrow> (False, original) | Some v \<Rightarrow> (True, v))
      in
        bind_res (ok_or (strip_prefix ''P'' text) invalid_temporal) (\<lambda>body.
          if body = ''T0S'' then
            bind_res (duration_new negative 0 0 0 0) (\<lambda>parsed.
              if show_duration parsed = original then Inr parsed else Inl invalid_temporal)
          else duration_body_from_str negative body original))"

section \<open>Validity\<close>

definition date_wf :: "canonical_date \<Rightarrow> bool" where
  "date_wf d \<longleftrightarrow> date_new (date_year d) (date_month d) (date_day d) = Inr d"

definition time_wf :: "canonical_time \<Rightarrow> bool" where
  "time_wf t \<longleftrightarrow> time_new (time_hour t) (time_minute t) (time_second t) (time_nanosecond t) = Inr t"

definition date_time_wf :: "canonical_date_time \<Rightarrow> bool" where
  "date_time_wf x \<longleftrightarrow> date_wf (dt_date x) \<and> time_wf (dt_time x)"

text \<open>Zoned values whose zone is written as UTC or as a fixed offset, and the durations whose
  components fit the \<open>u64\<close> fields.\<close>

definition tz_fixed_wf :: "canonical_date_time_tz \<Rightarrow> bool" where
  "tz_fixed_wf z \<longleftrightarrow> date_time_wf (tz_local z) \<and> tz_new_fixed (tz_local z) (tz_zone z) = Inr z"

definition duration_wf :: "canonical_duration \<Rightarrow> bool" where
  "duration_wf d \<longleftrightarrow>
     duration_new (dur_negative d) (dur_months d) (dur_days d) (dur_seconds d) (dur_nanosecond d) = Inr d
     \<and> dur_months d < 2 ^ 64 \<and> dur_days d < 2 ^ 64 \<and> dur_seconds d < 2 ^ 64"

definition show_component :: "nat \<Rightarrow> char \<Rightarrow> string" where
  "show_component n c = (if n \<noteq> 0 then show_nat n @ [c] else [])"

definition show_duration_time :: "nat \<Rightarrow> nat \<Rightarrow> string" where
  "show_duration_time s n = show_nat s @ show_fraction n @ ''S''"

definition duration_time_part :: "canonical_duration \<Rightarrow> string option" where
  "duration_time_part d =
     (if dur_seconds d \<noteq> 0 \<or> dur_nanosecond d \<noteq> 0 \<or> (dur_months d = 0 \<and> dur_days d = 0)
      then Some (show_duration_time (dur_seconds d) (dur_nanosecond d)) else None)"

definition show_duration_body :: "canonical_duration \<Rightarrow> string" where
  "show_duration_body d =
     (show_component (dur_months d) (CHR ''M'') @ show_component (dur_days d) (CHR ''D''))
     @ (case duration_time_part d of None \<Rightarrow> [] | Some t \<Rightarrow> CHR ''T'' # t)"

text \<open>Every component a duration parser returns fits \<open>u64\<close>.\<close>

definition u64_ok :: "nat \<Rightarrow> bool" where "u64_ok n \<longleftrightarrow> n < 2 ^ 64"

section \<open>Parsing printed numbers\<close>

lemma non_digits [simp]:
  "\<not> is_ascii_digit CHR ''+''" "\<not> is_ascii_digit CHR ''-''" "\<not> is_ascii_digit CHR '':''"
  "\<not> is_ascii_digit CHR ''.''" "\<not> is_ascii_digit CHR ''T''" "\<not> is_ascii_digit CHR ''M''"
  "\<not> is_ascii_digit CHR ''D''" "\<not> is_ascii_digit CHR ''S''" "\<not> is_ascii_digit CHR ''Z''"
  "\<not> is_ascii_digit CHR ''P''" "\<not> is_ascii_digit CHR '']''"
  by (simp_all add: is_ascii_digit_def)

lemma non_ascii_simps [simp]:
  "is_ascii CHR ''+''" "is_ascii CHR ''-''" "is_ascii CHR '':''" "is_ascii CHR ''.''"
  "is_ascii CHR ''T''" "is_ascii CHR ''Z''"
  by (simp_all add: is_ascii_def)

lemma digits_ascii: "all_digits s \<Longrightarrow> list_all is_ascii s"
  by (auto simp: all_digits_iff list_all_iff is_ascii_def is_ascii_digit_def)

lemma strip_prefix_digits: "all_digits s \<Longrightarrow> \<not> is_ascii_digit c \<Longrightarrow> strip_prefix [c] s = None"
  by (cases s) auto

lemma parse_unsigned_digits:
  "all_digits s \<Longrightarrow> s \<noteq> [] \<Longrightarrow> dec_nat s < 2 ^ w \<Longrightarrow> parse_unsigned w s = Some (dec_nat s)"
  by (simp add: parse_unsigned_def strip_prefix_digits unwrap_or_def del: strip_prefix_single)

lemma parse_signed_digits:
  "all_digits s \<Longrightarrow> s \<noteq> [] \<Longrightarrow> dec_nat s < 2 ^ (w - 1) \<Longrightarrow> parse_signed w s = Some (int (dec_nat s))"
  by (simp add: parse_signed_def strip_prefix_digits unwrap_or_def del: strip_prefix_single)

lemma parse_signed_plus:
  "all_digits s \<Longrightarrow> s \<noteq> [] \<Longrightarrow> dec_nat s < 2 ^ (w - 1) \<Longrightarrow>
   parse_signed w (CHR ''+'' # s) = Some (int (dec_nat s))"
  by (simp add: parse_signed_def unwrap_or_def)

lemma parse_signed_minus:
  "all_digits s \<Longrightarrow> s \<noteq> [] \<Longrightarrow> dec_nat s \<le> 2 ^ (w - 1) \<Longrightarrow>
   parse_signed w (CHR ''-'' # s) = Some (- int (dec_nat s))"
  by (simp add: parse_signed_def)

lemma zero_pad_not_Nil [simp]: "s \<noteq> [] \<Longrightarrow> zero_pad w s \<noteq> []"
  by (simp add: zero_pad_def)

lemma parse_digits_zero_pad: "n < 2 ^ 32 \<Longrightarrow> parse_digits (zero_pad w (show_nat n)) = Some n"
  by (simp add: parse_digits_def parse_unsigned_digits)

lemma canonical_unsigned_show: "n < 2 ^ 64 \<Longrightarrow> canonical_unsigned (show_nat n) = Some n"
  by (simp add: canonical_unsigned_def parse_unsigned_digits)

lemma length_two: "n < 100 \<Longrightarrow> length (zero_pad 2 (show_nat n)) = 2"
  using length_show_nat [of 2 n] by simp

lemma pad_nanos_trim:
  assumes "n < 1000000000"
  shows "pad_nanos (trim_end_matches (CHR ''0'') (zero_pad 9 (show_nat n))) = zero_pad 9 (show_nat n)"
proof -
  have "length (zero_pad 9 (show_nat n)) = 9" using assms length_show_nat [of 9 n] by simp
  then show ?thesis using trim_end_pad [of "CHR ''0''" "zero_pad 9 (show_nat n)"]
    by (simp add: pad_nanos_def)
qed

text \<open>The printed fraction of a nonzero nanosecond count: digits, at most nine, no trailing zero.\<close>

lemma show_fraction_nonzero:
  assumes "0 < n" "n < 1000000000"
  obtains f where "show_fraction n = CHR ''.'' # f" "f \<noteq> []" "all_digits f" "length f \<le> 9"
    "last f \<noteq> CHR ''0''" "parse_unsigned 32 (pad_nanos f) = Some n"
proof
  let ?z = "zero_pad 9 (show_nat n)"
  let ?f = "trim_end_matches (CHR ''0'') ?z"
  show "show_fraction n = CHR ''.'' # ?f" using assms by (simp add: show_fraction_def)
  show "all_digits ?f" by simp
  have len: "length ?z = 9" using assms length_show_nat [of 9 n] by simp
  then show "length ?f \<le> 9" using length_trim_end [of "CHR ''0''" ?z] by simp
  show ne: "?f \<noteq> []"
  proof
    assume "?f = []"
    then have "?z = replicate 9 (CHR ''0'')"
      using trim_end_pad [of "CHR ''0''" ?z] len by simp
    then have "dec_nat ?z = 0" by (simp only: dec_nat_replicate)
    with assms show False by simp
  qed
  then show "last ?f \<noteq> CHR ''0''" by (rule trim_end_last)
  have "?z \<noteq> []" using len by auto
  moreover have "dec_nat ?z < 2 ^ 32" using assms by simp
  ultimately have "parse_unsigned 32 ?z = Some (dec_nat ?z)"
    by (intro parse_unsigned_digits) simp_all
  then show "parse_unsigned 32 (pad_nanos ?f) = Some n"
    using assms by (simp add: pad_nanos_trim)
qed

section \<open>Round trips\<close>

lemma parse_signed_show_year:
  assumes "MIN_CANONICAL_YEAR \<le> y" "y \<le> MAX_CANONICAL_YEAR"
  shows "parse_signed 32 (show_year y) = Some y"
  using assms
  by (auto simp: show_year_def show_int_def MIN_CANONICAL_YEAR_def MAX_CANONICAL_YEAR_def
      parse_signed_digits parse_signed_plus parse_signed_minus)

lemma date_wf_iff:
  "date_wf d \<longleftrightarrow> MIN_CANONICAL_YEAR \<le> date_year d \<and> date_year d \<le> MAX_CANONICAL_YEAR
     \<and> 0 < date_day d \<and> date_day d \<le> date_max_day (date_year d) (date_month d)"
  by (auto simp: date_wf_def date_new_def)

lemma date_wf_bounds: "date_wf d \<Longrightarrow> 1 \<le> date_month d \<and> date_month d \<le> 12 \<and> date_day d \<le> 31"
  by (auto simp: date_wf_iff date_max_day_def split: if_splits)

lemma date_from_str_show:
  assumes "date_wf d"
  shows "date_from_str (show_date d) = Inr d"
proof -
  let ?m = "zero_pad 2 (show_nat (date_month d))" and ?d = "zero_pad 2 (show_nat (date_day d))"
  have no: "CHR ''-'' \<notin> set ?m" "CHR ''-'' \<notin> set ?d"
    by (rule all_digits_not_mem; simp)+
  have "rsplit_once (CHR ''-'') (show_date d) = Some (show_year (date_year d) @ CHR ''-'' # ?m, ?d)"
    using rsplit_once_append [OF no(2), of "show_year (date_year d) @ CHR ''-'' # ?m"]
    by (simp add: show_date_def)
  moreover have "parse_digits ?m = Some (date_month d)" "parse_digits ?d = Some (date_day d)"
    using date_wf_bounds [OF assms] by (simp_all add: parse_digits_zero_pad)
  moreover have "parse_signed 32 (show_year (date_year d)) = Some (date_year d)"
    using assms by (simp add: date_wf_iff parse_signed_show_year)
  moreover have "date_new (date_year d) (date_month d mod 256) (date_day d mod 256) = Inr d"
    using assms date_wf_bounds [OF assms] by (simp add: date_wf_def)
  ultimately show ?thesis
    by (simp add: date_from_str_def rsplit_once_append [OF no(1)])
qed

lemma date_from_str_iff: "date_from_str s = Inr d \<longleftrightarrow> date_wf d \<and> s = show_date d"
proof
  assume "date_from_str s = Inr d"
  then show "date_wf d \<and> s = show_date d"
    by (auto simp: date_from_str_def date_wf_def date_new_def res_simps split: if_splits)
qed (auto simp: date_from_str_show)

lemma time_wf_iff:
  "time_wf t \<longleftrightarrow> time_hour t \<le> 23 \<and> time_minute t \<le> 59 \<and> time_second t \<le> 59
     \<and> time_nanosecond t < 1000000000"
  by (auto simp: time_wf_def time_new_def)

lemma time_seconds_from_str_show:
  assumes "s < 100" "n < 1000000000"
  shows "time_seconds_from_str (zero_pad 2 (show_nat s) @ show_fraction n) = Inr (zero_pad 2 (show_nat s), n)"
proof -
  have no: "CHR ''.'' \<notin> set (zero_pad 2 (show_nat s))" by (rule all_digits_not_mem) simp_all
  show ?thesis
  proof (cases "n = 0")
    case True
    then show ?thesis using no by (simp add: show_fraction_def time_seconds_from_str_def split_once_not_mem)
  next
    case False
    then obtain f where f: "show_fraction n = CHR ''.'' # f" "f \<noteq> []" "all_digits f" "length f \<le> 9"
        "parse_unsigned 32 (pad_nanos f) = Some n"
      using show_fraction_nonzero assms by (metis gr0I)
    then show ?thesis using split_once_append [OF no, of f] by (simp add: time_seconds_from_str_def)
  qed
qed

lemma show_fraction_ascii [simp]: "list_all is_ascii (show_fraction n)"
  using digits_ascii [of "trim_end_matches (CHR ''0'') (zero_pad 9 (show_nat n))"]
  by (simp add: show_fraction_def)

lemma padded_ascii [simp]: "list_all is_ascii (zero_pad w (show_nat n))"
  by (rule digits_ascii) simp

lemma nth_after: "length a = n \<Longrightarrow> (a @ c # b) ! n = c"
  by auto

lemma time_from_str_show:
  assumes "time_wf t"
  shows "time_from_str (show_time t) = Inr t"
proof -
  let ?h = "zero_pad 2 (show_nat (time_hour t))" and ?m = "zero_pad 2 (show_nat (time_minute t))"
    and ?s = "zero_pad 2 (show_nat (time_second t))" and ?f = "show_fraction (time_nanosecond t)"
  have wf: "time_hour t \<le> 23" "time_minute t \<le> 59" "time_second t \<le> 59" "time_nanosecond t < 1000000000"
    using assms by (simp_all add: time_wf_iff)
  then have len: "length ?h = 2" "length ?m = 2" "length ?s = 2" by (simp_all add: length_two)
  have printed: "show_time t = ?h @ CHR '':'' # ?m @ CHR '':'' # ?s @ ?f" by (simp add: show_time_def)
  have shape: "list_all is_ascii (show_time t)" "8 \<le> length (show_time t)"
    "show_time t ! 2 = CHR '':''" "show_time t ! 5 = CHR '':''"
    using len nth_after [of "?h @ CHR '':'' # ?m" 5] by (simp_all add: printed nth_append)
  have parts: "take 2 (show_time t) = ?h" "take 2 (drop 3 (show_time t)) = ?m"
    "drop 6 (show_time t) = ?s @ ?f"
    using len by (simp_all add: printed)
  have "time_new (time_hour t mod 256) (time_minute t mod 256) (time_second t) (time_nanosecond t) = Inr t"
    using assms wf by (simp add: time_wf_def)
  then show ?thesis using shape wf
    by (simp add: time_from_str_def parts parse_digits_zero_pad time_seconds_from_str_show)
qed

lemma time_from_str_iff: "time_from_str s = Inr t \<longleftrightarrow> time_wf t \<and> s = show_time t"
proof
  assume "time_from_str s = Inr t"
  then show "time_wf t \<and> s = show_time t"
    by (auto simp: time_from_str_def time_wf_def time_new_def res_simps split: if_splits)
qed (auto simp: time_from_str_show)

lemma set_zero_pad: "c \<in> set (zero_pad w (show_nat n)) \<Longrightarrow> is_ascii_digit c"
  using all_digits_iff zero_pad_digits show_nat_digits by blast

lemma set_show_fraction: "c \<in> set (show_fraction n) \<Longrightarrow> is_ascii_digit c \<or> c = CHR ''.''"
proof -
  have "all_digits (trim_end_matches (CHR ''0'') (zero_pad 9 (show_nat n)))" by simp
  then show "c \<in> set (show_fraction n) \<Longrightarrow> is_ascii_digit c \<or> c = CHR ''.''"
    unfolding all_digits_iff show_fraction_def by (auto split: if_splits)
qed

lemma set_show_nat: "c \<in> set (show_nat n) \<Longrightarrow> is_ascii_digit c"
  using show_nat_digits [of n] by (simp add: all_digits_iff)

lemma set_show_year: "c \<in> set (show_year y) \<Longrightarrow> is_ascii_digit c \<or> c = CHR ''+'' \<or> c = CHR ''-''"
  by (auto simp: show_year_def show_int_def dest: set_zero_pad set_show_nat split: if_splits)

lemma no_T: "CHR ''T'' \<notin> set (show_date d)" "CHR ''T'' \<notin> set (show_time t)"
  by (auto simp: show_date_def show_time_def dest: set_zero_pad set_show_fraction set_show_year)

lemma date_time_from_str_iff: "date_time_from_str s = Inr x \<longleftrightarrow> date_time_wf x \<and> s = show_date_time x"
proof
  assume "date_time_from_str s = Inr x"
  then show "date_time_wf x \<and> s = show_date_time x"
    by (auto simp: date_time_from_str_def res_simps date_from_str_iff time_from_str_iff date_time_wf_def
        show_date_time_def split_once_Some split: if_splits)
next
  assume "date_time_wf x \<and> s = show_date_time x"
  then show "date_time_from_str s = Inr x"
    using split_once_append [OF no_T(1), of "dt_date x" "show_time (dt_time x)"] no_T(2)
    by (simp add: date_time_from_str_def show_date_time_def date_from_str_show time_from_str_show
        date_time_wf_def)
qed

section \<open>Zoned round trip\<close>

lemma two_digits:
  assumes "n < 100"
  obtains a b where "zero_pad 2 (show_nat n) = [a, b]" "is_ascii_digit a" "is_ascii_digit b"
    "dec_nat [a, b] = n"
proof -
  obtain a b where ab: "zero_pad 2 (show_nat n) = [a, b]"
    using length_two [OF assms] by (auto simp: length_Suc_conv numeral_2_eq_2)
  moreover from this have "is_ascii_digit a" "is_ascii_digit b"
    by (metis set_zero_pad list.set_intros)+
  moreover have "dec_nat [a, b] = n" using ab by (metis dec_nat_show_nat dec_nat_zero_pad)
  ultimately show ?thesis using that by blast
qed

lemma parse_signed_two:
  assumes "is_ascii_digit a" "is_ascii_digit b"
  shows "parse_signed 32 [a, b] = Some (int (dec_nat [a, b]))"
proof -
  have "dec_nat [a, b] < 100" using dec_nat_less [of "[a, b]"] assms by simp
  then show ?thesis using assms by (intro parse_signed_digits) simp_all
qed

lemma upt_unfold: "[0..<6] = [0, 1, 2, 3, 4, 5]" "[0..<9] = [0, 1, 2, 3, 4, 5, 6, 7, 8]"
  by (simp_all add: upt_rec)

lemma parse_offset_short:
  assumes "is_ascii_digit a" "is_ascii_digit b" "is_ascii_digit c" "is_ascii_digit d"
    and "dec_nat [a, b] \<le> 23" "dec_nat [c, d] \<le> 59" "sign = CHR ''+'' \<or> sign = CHR ''-''"
  shows "parse_fixed_offset_seconds [sign, a, b, CHR '':'', c, d] =
    Some ((if sign = CHR ''-'' then - 1 else 1) * (int (dec_nat [a, b]) * 3600 + int (dec_nat [c, d]) * 60))"
proof -
  have "offset_shape [sign, a, b, CHR '':'', c, d]"
    using assms by (auto simp: offset_shape_def upt_unfold)
  then show ?thesis using assms
    by (simp add: parse_fixed_offset_seconds_def parse_signed_two)
qed

lemma parse_offset_long:
  assumes "is_ascii_digit a" "is_ascii_digit b" "is_ascii_digit c" "is_ascii_digit d"
    "is_ascii_digit e" "is_ascii_digit f"
    and "dec_nat [a, b] \<le> 23" "dec_nat [c, d] \<le> 59" "dec_nat [e, f] \<le> 59"
    "sign = CHR ''+'' \<or> sign = CHR ''-''"
  shows "parse_fixed_offset_seconds [sign, a, b, CHR '':'', c, d, CHR '':'', e, f] =
    Some ((if sign = CHR ''-'' then - 1 else 1)
      * (int (dec_nat [a, b]) * 3600 + int (dec_nat [c, d]) * 60 + int (dec_nat [e, f])))"
proof -
  have "offset_shape [sign, a, b, CHR '':'', c, d, CHR '':'', e, f]"
    using assms by (auto simp: offset_shape_def upt_unfold)
  then show ?thesis using assms
    by (simp add: parse_fixed_offset_seconds_def parse_signed_two)
qed

lemma offset_split:
  fixes n :: nat
  shows "n div 3600 * 3600 + n mod 3600 div 60 * 60 + n mod 60 = n"
proof -
  have "n mod 3600 div 60 * 60 + n mod 3600 mod 60 = n mod 3600" by simp
  moreover have "n mod 3600 mod 60 = n mod 60" by (simp add: mod_mod_cancel)
  ultimately show ?thesis by (metis add.assoc div_mult_mod_eq)
qed

lemma show_offset_parse:
  assumes "s \<noteq> 0" "\<bar>s\<bar> \<le> 86399"
  shows "parse_fixed_offset_seconds (show_offset s) = Some s"
    and "length (show_offset s) = (if nat \<bar>s\<bar> mod 60 = 0 then 6 else 9)"
    and "show_offset s \<noteq> [] \<and> hd (show_offset s) \<noteq> CHR '':'' \<and> is_ascii_digit (last (show_offset s))"
    and "list_all is_ascii (show_offset s)"
proof -
  let ?n = "nat \<bar>s\<bar>" and ?sign = "if s < 0 then CHR ''-'' else CHR ''+''"
  have n: "?n div 3600 \<le> 23" "?n mod 3600 div 60 \<le> 59" "?n mod 60 \<le> 59" using assms by linarith+
  obtain a b where h: "zero_pad 2 (show_nat (?n div 3600)) = [a, b]" "is_ascii_digit a" "is_ascii_digit b"
    "dec_nat [a, b] = ?n div 3600" using two_digits [of "?n div 3600"] n by auto
  obtain c d where m: "zero_pad 2 (show_nat (?n mod 3600 div 60)) = [c, d]" "is_ascii_digit c"
    "is_ascii_digit d" "dec_nat [c, d] = ?n mod 3600 div 60"
    using two_digits [of "?n mod 3600 div 60"] n by auto
  obtain e f where k: "zero_pad 2 (show_nat (?n mod 60)) = [e, f]" "is_ascii_digit e"
    "is_ascii_digit f" "dec_nat [e, f] = ?n mod 60" using two_digits [of "?n mod 60"] n by auto
  have printed: "show_offset s = (if ?n mod 60 = 0 then [?sign, a, b, CHR '':'', c, d]
      else [?sign, a, b, CHR '':'', c, d, CHR '':'', e, f])"
    unfolding show_offset_def Let_def h(1) m(1) k(1) by simp
  have total: "int (?n div 3600) * 3600 + int (?n mod 3600 div 60) * 60 + int (?n mod 60) = \<bar>s\<bar>"
    using arg_cong [OF offset_split [of ?n], of int]
    by (simp only: of_nat_add of_nat_mult of_nat_numeral nat_0_le abs_ge_zero)
  have sign: "?sign = CHR ''+'' \<or> ?sign = CHR ''-''"
    "(if ?sign = CHR ''-'' then - 1 else 1) * \<bar>s\<bar> = s" by auto
  note short = parse_offset_short [OF h(2,3) m(2,3) _ _ sign(1), unfolded h(4) m(4), OF n(1,2)]
  note long = parse_offset_long [OF h(2,3) m(2,3) k(2,3) _ _ _ sign(1), unfolded h(4) m(4) k(4), OF n]
  show "parse_fixed_offset_seconds (show_offset s) = Some s"
  proof (cases "?n mod 60 = 0")
    case True
    with total have "int (?n div 3600) * 3600 + int (?n mod 3600 div 60) * 60 = \<bar>s\<bar>" by simp
    then show ?thesis by (simp only: printed True simp_thms if_True short sign(2))
  next
    case False
    then show ?thesis by (simp only: printed if_False long total sign(2))
  qed
  show "length (show_offset s) = (if ?n mod 60 = 0 then 6 else 9)" unfolding printed by simp
  show "show_offset s \<noteq> [] \<and> hd (show_offset s) \<noteq> CHR '':'' \<and> is_ascii_digit (last (show_offset s))"
    unfolding printed using m(2,3) k(2,3) by (cases "?n mod 60 = 0") simp_all
  show "list_all is_ascii (show_offset s)"
    unfolding printed using digits_ascii [of "[a, b, c, d, e, f]"] h(2,3) m(2,3) k(2,3) by simp
qed

lemma find_offset_show:
  assumes "s \<noteq> 0" "\<bar>s\<bar> \<le> 86399" "3 \<le> length l"
  shows "find_offset (l @ show_offset s) [9, 6] = Some (length l, s)"
proof (cases "nat \<bar>s\<bar> mod 60 = 0")
  case False
  then have "length (show_offset s) = 9" using show_offset_parse(2) [OF assms(1,2)] by simp
  then show ?thesis using show_offset_parse(1) [OF assms(1,2)] by simp
next
  case True
  then have len: "length (show_offset s) = 6" using show_offset_parse(2) [OF assms(1,2)] by simp
  have "drop (length l - 3) (l @ show_offset s) ! 3 = show_offset s ! 0"
    using assms(3) by (simp add: nth_append)
  then have "drop (length l - 3) (l @ show_offset s) ! 3 \<noteq> CHR '':''"
    using show_offset_parse(3) [OF assms(1,2)] by (metis hd_conv_nth)
  then have "\<not> offset_shape (drop (length l - 3) (l @ show_offset s))" by (simp add: offset_shape_def)
  then show ?thesis using len show_offset_parse(1) [OF assms(1,2)]
    by (simp add: parse_fixed_offset_seconds_def)
qed

lemma strip_suffix_digit:
  assumes "t \<noteq> []" "is_ascii_digit (last t)" "\<not> is_ascii_digit c"
  shows "strip_suffix [c] (s @ t) = None"
  using assms by (cases t rule: rev_cases) (auto simp: strip_suffix_def)

lemma show_date_time_ascii: "list_all is_ascii (show_date_time x)"
proof -
  have "list_all is_ascii (show_year y)" for y
    unfolding list_all_iff
  proof
    fix c assume "c \<in> set (show_year y)"
    then show "is_ascii c"
      using set_show_year [of c y] by (auto simp: is_ascii_digit_def is_ascii_def)
  qed
  then show ?thesis by (simp add: show_date_time_def show_date_def show_time_def)
qed

lemma show_date_time_length: "3 \<le> length (show_date_time x)"
proof -
  have "0 < length (zero_pad 2 (show_nat n))" for n by (simp add: zero_pad_def)
  then show ?thesis by (simp add: show_date_time_def show_date_def show_time_def)
qed

lemma date_time_tz_from_str_show:
  assumes "tz_fixed_wf z"
  shows "date_time_tz_from_str (show_date_time_tz z) = Inr z"
proof -
  let ?l = "show_date_time (tz_local z)"
  have l: "date_time_from_str ?l = Inr (tz_local z)"
    using assms by (simp add: tz_fixed_wf_def date_time_from_str_iff)
  have new: "tz_new_fixed (tz_local z) (tz_zone z) = Inr z" using assms by (simp add: tz_fixed_wf_def)
  show ?thesis
  proof (cases "tz_zone z")
    case Utc
    then have "show_date_time_tz z = ?l @ ''Z''" by (simp add: show_date_time_tz_def)
    then show ?thesis using Utc l new show_date_time_ascii
      by (simp add: date_time_tz_from_str_def)
  next
    case (OffsetSeconds s)
    then have s: "s \<noteq> 0" "\<bar>s\<bar> \<le> 86399" using new by (auto simp: tz_new_fixed_def split: if_splits)
    note facts = show_offset_parse [OF this]
    have "show_date_time_tz z = ?l @ show_offset s"
      using OffsetSeconds by (simp add: show_date_time_tz_def)
    moreover have "strip_suffix ''Z'' (?l @ show_offset s) = None" "strip_suffix '']'' (?l @ show_offset s) = None"
      using facts(3) by (simp_all add: strip_suffix_digit)
    ultimately show ?thesis
      using OffsetSeconds l new facts(4) show_date_time_ascii find_offset_show [OF s show_date_time_length]
      by (simp add: date_time_tz_from_str_def del: find_offset.simps)
  next
    case (Named name)
    then show ?thesis using new by (simp add: tz_new_fixed_def)
  qed
qed

lemma tz_new_fixed_wf: "tz_new_fixed l zone = Inr z \<Longrightarrow> tz_new_fixed (tz_local z) (tz_zone z) = Inr z \<and> tz_local z = l"
  by (auto simp: tz_new_fixed_def split: time_zone_designator.splits if_splits)

text \<open>
  C31. Zoned date-times in UTC or at a fixed offset have exactly one accepted text: the parser accepts
  a string if and only if it is the printed form of a valid value, and then returns that value.
\<close>

theorem date_time_tz_from_str_iff:
  "date_time_tz_from_str s = Inr z \<longleftrightarrow> tz_fixed_wf z \<and> s = show_date_time_tz z"
proof
  assume "date_time_tz_from_str s = Inr z"
  then show "tz_fixed_wf z \<and> s = show_date_time_tz z"
    by (auto simp: date_time_tz_from_str_def tz_fixed_wf_def res_simps date_time_from_str_iff
        dest: tz_new_fixed_wf split: if_splits option.splits)
qed (auto simp: date_time_tz_from_str_show)

section \<open>Duration round trip\<close>

lemma show_nat_no: "\<not> is_ascii_digit c \<Longrightarrow> c \<notin> set (show_nat n)"
  using set_show_nat by blast

lemma set_show_component: "x \<in> set (show_component n c) \<Longrightarrow> is_ascii_digit x \<or> x = c \<and> n \<noteq> 0"
  by (auto simp: show_component_def dest: set_show_nat split: if_splits)

lemma take_component_show:
  assumes "\<not> is_ascii_digit c" "n < 2 ^ 64" "n = 0 \<Longrightarrow> c \<notin> set r"
  shows "take_component c (show_component n c @ r) = Inr (n, r)"
proof (cases "n = 0")
  case True
  with assms show ?thesis by (simp add: take_component_def show_component_def split_once_not_mem)
next
  case False
  then show ?thesis
    using split_once_append [OF show_nat_no [OF assms(1)], of n r] assms(2)
    by (simp add: take_component_def show_component_def canonical_unsigned_show)
qed

lemma duration_time_show:
  assumes "s < 2 ^ 64" "n < 1000000000"
  shows "duration_time_from_str (Some (show_duration_time s n)) = Inr (s, n)"
proof -
  have strip: "strip_suffix ''S'' (show_duration_time s n) = Some (show_nat s @ show_fraction n)"
    using strip_suffix_append [of "''S''" "show_nat s @ show_fraction n"] by (simp add: show_duration_time_def)
  have no: "CHR ''.'' \<notin> set (show_nat s)" by (rule show_nat_no) simp
  show ?thesis
  proof (cases "n = 0")
    case True
    then show ?thesis using strip no assms
      by (simp add: duration_time_from_str_def show_fraction_def split_once_not_mem canonical_unsigned_show)
  next
    case False
    then obtain f where "show_fraction n = CHR ''.'' # f" "f \<noteq> []" "all_digits f" "length f \<le> 9"
        "last f \<noteq> CHR ''0''" "parse_unsigned 32 (pad_nanos f) = Some n"
      using show_fraction_nonzero assms by (metis gr0I)
    then show ?thesis using strip split_once_append [OF no, of f] assms
      by (simp add: duration_time_from_str_def canonical_unsigned_show)
  qed
qed

lemma duration_time_zero: "show_duration_time s n = ''0S'' \<Longrightarrow> s = 0 \<and> n = 0"
proof -
  assume h: "show_duration_time s n = ''0S''"
  then have eq: "show_nat s @ show_fraction n = ''0''" by (simp add: show_duration_time_def)
  then have "show_nat s = ''0'' \<and> show_fraction n = []"
    by (cases "show_nat s") auto
  then show ?thesis using dec_nat_show_nat [of s] by (auto simp: show_fraction_def split: if_splits)
qed

lemma show_duration_alt:
  "show_duration d = (if dur_negative d then ''-'' else []) @ CHR ''P'' # show_duration_body d"
  by (simp add: show_duration_def show_duration_body_def show_component_def duration_time_part_def
      show_duration_time_def)

lemma duration_wf_iff:
  "duration_wf d \<longleftrightarrow> dur_nanosecond d < 1000000000
     \<and> (dur_months d = 0 \<and> dur_days d = 0 \<and> dur_seconds d = 0 \<and> dur_nanosecond d = 0 \<longrightarrow> \<not> dur_negative d)
     \<and> dur_months d < 2 ^ 64 \<and> dur_days d < 2 ^ 64 \<and> dur_seconds d < 2 ^ 64"
  by (cases d) (auto simp: duration_wf_def duration_new_def)

lemma duration_body_from_str_show:
  assumes "duration_wf d"
    and nz: "\<not> (dur_months d = 0 \<and> dur_days d = 0 \<and> dur_seconds d = 0 \<and> dur_nanosecond d = 0)"
  shows "duration_body_from_str (dur_negative d) (show_duration_body d) (show_duration d) = Inr d"
proof -
  let ?M = "show_component (dur_months d) (CHR ''M'')" and ?D = "show_component (dur_days d) (CHR ''D'')"
  have wf: "dur_months d < 2 ^ 64" "dur_days d < 2 ^ 64" "dur_seconds d < 2 ^ 64"
    "dur_nanosecond d < 1000000000" using assms by (simp_all add: duration_wf_iff)
  have noT: "CHR ''T'' \<notin> set (?M @ ?D)" by (auto dest!: set_show_component)
  have split: "(case split_once (CHR ''T'') (show_duration_body d) of
      Some (a, t) \<Rightarrow> (a, Some t) | None \<Rightarrow> (show_duration_body d, None)) = (?M @ ?D, duration_time_part d)"
    using split_once_append [OF noT] split_once_not_mem [OF noT]
    by (cases "duration_time_part d") (simp_all add: show_duration_body_def del: append_assoc)
  have M: "take_component (CHR ''M'') (?M @ ?D) = Inr (dur_months d, ?D)"
    using wf by (intro take_component_show) (auto dest!: set_show_component)
  have D: "take_component (CHR ''D'') ?D = Inr (dur_days d, [])"
    using take_component_show [of "CHR ''D''" "dur_days d" "[]"] wf by simp
  have T: "duration_time_from_str (duration_time_part d) = Inr (dur_seconds d, dur_nanosecond d)"
    using duration_time_show [OF wf(3,4)] by (simp add: duration_time_part_def)
       (auto simp: duration_time_from_str_def)
  have zero: "dur_months d = 0 \<Longrightarrow> CHR ''M'' \<notin> set (?M @ ?D)" "dur_days d = 0 \<Longrightarrow> CHR ''D'' \<notin> set (?M @ ?D)"
    by (auto dest!: set_show_component)
  have "duration_new (dur_negative d) (dur_months d) (dur_days d) (dur_seconds d) (dur_nanosecond d) = Inr d"
    using assms by (simp add: duration_wf_def)
  then show ?thesis unfolding duration_body_from_str_def split
    using M D T zero nz by (cases "dur_months d = 0"; cases "dur_days d = 0") auto
qed

lemma duration_from_str_show:
  assumes "duration_wf d"
  shows "duration_from_str (show_duration d) = Inr d"
proof -
  have start: "(case strip_prefix ''-'' (show_duration d) of
       None \<Rightarrow> (False, show_duration d) | Some v \<Rightarrow> (True, v))
     = (dur_negative d, CHR ''P'' # show_duration_body d)"
    by (simp add: show_duration_alt)
  show ?thesis
  proof (cases "dur_months d = 0 \<and> dur_days d = 0 \<and> dur_seconds d = 0 \<and> dur_nanosecond d = 0")
    case True
    then have body: "show_duration_body d = ''T0S''"
      by (simp add: show_duration_body_def show_component_def duration_time_part_def
          show_duration_time_def show_fraction_def)
    have "duration_new (dur_negative d) 0 0 0 0 = Inr d"
      using assms True by (simp add: duration_wf_def)
    then show ?thesis unfolding duration_from_str_def start by (simp add: body)
  next
    case False
    have "show_duration_body d \<noteq> ''T0S''"
    proof
      assume h: "show_duration_body d = ''T0S''"
      have "\<not> is_ascii_digit (hd (show_duration_body d))" by (simp add: h)
      then have "dur_months d = 0 \<and> dur_days d = 0"
        using show_nat_digits [of "dur_months d"] show_nat_digits [of "dur_days d"]
        by (cases "show_nat (dur_months d)"; cases "show_nat (dur_days d)")
           (auto simp: show_duration_body_def show_component_def split: if_splits)
      with h False show False
        using duration_time_zero [of "dur_seconds d" "dur_nanosecond d"]
        by (auto simp: show_duration_body_def show_component_def duration_time_part_def split: if_splits)
    qed
    then show ?thesis unfolding duration_from_str_def start
      using duration_body_from_str_show [OF assms False] by simp
  qed
qed

lemma u64_ok_zero [simp]: "u64_ok 0"
  by (simp add: u64_ok_def)

lemma canonical_unsigned_bound: "canonical_unsigned s = Some n \<Longrightarrow> u64_ok n"
  by (auto simp: canonical_unsigned_def parse_unsigned_def Let_def u64_ok_def split: if_splits option.splits)

lemma take_component_bound: "take_component c s = Inr (n, r) \<Longrightarrow> u64_ok n"
  by (auto simp: take_component_def res_simps dest: canonical_unsigned_bound split: option.splits)

lemma duration_time_bound: "duration_time_from_str t = Inr (s, n) \<Longrightarrow> u64_ok s"
  by (auto simp: duration_time_from_str_def res_simps dest: canonical_unsigned_bound
      split: option.splits if_splits)

lemma duration_new_wf:
  "duration_new neg m d s n = Inr x \<Longrightarrow> u64_ok m \<Longrightarrow> u64_ok d \<Longrightarrow> u64_ok s \<Longrightarrow> duration_wf x"
  by (auto simp: duration_new_def duration_wf_def Let_def u64_ok_def split: if_splits)

text \<open>
  C32. Durations have exactly one accepted text: the parser accepts a string if and only if it is the
  printed form of a normalised duration whose components fit their integer types, and then returns
  that duration. In particular every printed duration parses back to itself.
\<close>

theorem duration_from_str_iff: "duration_from_str s = Inr d \<longleftrightarrow> duration_wf d \<and> s = show_duration d"
proof
  assume "duration_from_str s = Inr d"
  then show "duration_wf d \<and> s = show_duration d"
    by (auto simp: duration_from_str_def duration_body_from_str_def Let_def res_simps
        dest: take_component_bound duration_time_bound intro: duration_new_wf
        split: if_splits option.splits prod.splits)
qed (auto simp: duration_from_str_show)

text \<open>
  Dates and date-times have exactly one accepted text: a string is accepted if and only if it is
  the printed form of a calendar-valid value inside the canonical year range, and the value read is
  the value printed.
\<close>

lemma date_text_canonical:
  "(date_from_str s = Inr d \<longleftrightarrow> date_wf d \<and> s = show_date d)
   \<and> (date_time_from_str t = Inr x \<longleftrightarrow> date_time_wf x \<and> t = show_date_time x)"
  using date_from_str_iff date_time_from_str_iff by blast

text \<open>
  Decoding the wire form of a zoned value re-establishes its invariants: what decodes is either a
  UTC or fixed-offset value whose effective offset is the authored one, or a named zone with a
  well-formed name, always within one day of UTC, and it re-encodes to the same three wire fields.
\<close>

lemma tz_wire_decode_sound:
  assumes "tz_wire_decode l zone offset = Inr z"
  shows "tz_local z = l \<and> tz_zone z = zone \<and> tz_effective_offset_seconds z = offset
    \<and> \<bar>offset\<bar> \<le> 86399
    \<and> (case zone of Utc \<Rightarrow> offset = 0 | OffsetSeconds s \<Rightarrow> offset = s \<and> s \<noteq> 0
       | Named name \<Rightarrow> name \<noteq> [] \<and> length name \<le> 255)"
  using assms
  by (auto simp: tz_wire_decode_def tz_new_fixed_def tz_new_named_resolved_def MAX_TIME_ZONE_NAME_BYTES_def
      split: time_zone_designator.splits if_splits)


end
