(* ===== verification/Instants.thy ===== *)
theory Instants
  imports Temporals
begin

text \<open>
  The order keys of dates and instants, \<open>date_order_key\<close> and \<open>semantic_utc_nanoseconds\<close> of
  \<open>contract/src/temporal.rs\<close>, against a reference calendar: \<open>next_day\<close> is the proleptic Gregorian
  successor written from the month lengths, \<open>date_tuple\<close> and \<open>time_tuple\<close> are the component tuples
  whose lexicographic order is the order the source derives on the structs.
\<close>

section \<open>Reference definitions\<close>

definition date_tuple :: "canonical_date \<Rightarrow> int \<times> nat \<times> nat" where
  "date_tuple d = (date_year d, date_month d, date_day d)"

definition next_day :: "canonical_date \<Rightarrow> canonical_date" where
  "next_day d =
     (if date_day d < date_max_day (date_year d) (date_month d) then d\<lparr>date_day := date_day d + 1\<rparr>
      else if date_month d < 12 then d\<lparr>date_month := date_month d + 1, date_day := 1\<rparr>
      else \<lparr>date_year = date_year d + 1, date_month = 1, date_day = 1\<rparr>)"

definition leap_days :: "int \<Rightarrow> int" where
  "leap_days y = (if date_leap y then 1 else 0)"

definition year_start :: "int \<Rightarrow> int" where
  "year_start y = 365 * (y - 1) + (y - 1) div 4 - (y - 1) div 100 + (y - 1) div 400 + 306"

definition month_start :: "int \<Rightarrow> nat \<Rightarrow> int" where
  "month_start y m =
     (if m = 1 then 0 else if m = 2 then 31 else 59 + leap_days y + (153 * (int m - 3) + 2) div 5)"

definition day_nanoseconds :: "canonical_time \<Rightarrow> int" where
  "day_nanoseconds t = int (time_hour t) * 3600000000000 + int (time_minute t) * 60000000000
     + int (time_second t) * 1000000000 + int (time_nanosecond t)"

definition time_tuple :: "canonical_time \<Rightarrow> nat \<times> nat \<times> nat \<times> nat" where
  "time_tuple t = (time_hour t, time_minute t, time_second t, time_nanosecond t)"

section \<open>The calendar behind the order key\<close>

lemma rust_div_nonneg: "0 \<le> a \<Longrightarrow> 0 < b \<Longrightarrow> rust_div a b = a div b"
  by (cases "a = 0") (auto simp: rust_div_def)

lemma rust_rem_zero_iff: "0 < b \<Longrightarrow> rust_rem a b = 0 \<longleftrightarrow> a mod b = 0"
proof -
  assume b: "0 < b"
  have "rust_div a b * b = a \<longleftrightarrow> \<bar>a\<bar> div b * b = \<bar>a\<bar>"
    using b by (cases a "0 :: int" rule: linorder_cases) (auto simp: rust_div_def)
  also have "\<dots> \<longleftrightarrow> b dvd \<bar>a\<bar>" by (metis dvd_div_mult_self dvd_triv_right)
  finally show ?thesis by (auto simp: rust_rem_def mod_eq_0_iff_dvd)
qed

lemma date_leap_iff: "date_leap y \<longleftrightarrow> y mod 4 = 0 \<and> (y mod 100 \<noteq> 0 \<or> y mod 400 = 0)"
  by (simp add: date_leap_def rust_rem_zero_iff)

lemma era_floor:
  "rust_div (if 0 \<le> y then y else y - 399) 400 = y div 400"
proof (cases "0 \<le> y")
  case False
  then have "rust_div (y - 399) 400 = - ((399 - y) div 400)" by (simp add: rust_div_def)
  also have "399 - y = (399 - y mod 400) + (- (y div 400)) * 400"
    using div_mult_mod_eq [of y 400] by linarith
  also have "- (((399 - y mod 400) + (- (y div 400)) * 400) div 400) = y div 400"
    using pos_mod_bound [of 400 y] pos_mod_sign [of 400 y]
    by (subst div_mult_self1) (simp_all add: div_pos_pos_trivial)
  finally show ?thesis using False by simp
qed (simp add: rust_div_nonneg)

lemma era_days:
  fixes y :: int
  shows "y div 400 * 146097 + y mod 400 * 365 + y mod 400 div 4 - y mod 400 div 100
         = 365 * y + y div 4 - y div 100 + y div 400"
proof -
  define e r where "e = y div 400" and "r = y mod 400"
  have y: "y = 400 * e + r" by (simp add: e_def r_def)
  have "y div 4 = 100 * e + r div 4" "y div 100 = 4 * e + r div 100" unfolding y by simp_all
  then show ?thesis unfolding e_def [symmetric] r_def [symmetric] by (simp add: y)
qed

lemma date_order_key_floor:
  assumes "1 \<le> date_month d"
  shows "date_order_key d =
    (let y = date_year d - (if date_month d \<le> 2 then 1 else 0);
         m = int (date_month d) + (if 2 < date_month d then - 3 else 9)
     in 365 * y + y div 4 - y div 100 + y div 400 + (153 * m + 2) div 5 + int (date_day d) - 1)"
proof -
  define y where "y = date_year d - (if int (date_month d) \<le> 2 then 1 else 0)"
  define m where "m = int (date_month d) + (if 2 < int (date_month d) then - 3 else 9)"
  have pos: "0 \<le> 153 * m + 2" "0 \<le> y mod 400" using assms by (simp_all add: m_def)
  have "date_order_key d =
    (let era = rust_div (if 0 \<le> y then y else y - 399) 400; yoe = y - era * 400
     in era * 146097 + yoe * 365 + rust_div yoe 4 - rust_div yoe 100
        + (rust_div (153 * m + 2) 5 + int (date_day d) - 1))"
    unfolding date_order_key_def y_def m_def Let_def by (rule refl)
  also have "\<dots> = y div 400 * 146097 + y mod 400 * 365 + y mod 400 div 4 - y mod 400 div 100
      + ((153 * m + 2) div 5 + int (date_day d) - 1)"
    using pos by (simp only: Let_def era_floor minus_div_mult_eq_mod rust_div_nonneg zero_less_numeral)
  finally show ?thesis unfolding era_days by (simp add: Let_def y_def m_def)
qed

lemma div_step:
  fixes y k :: int
  assumes "0 < k"
  shows "y div k = (y - 1) div k + (if y mod k = 0 then 1 else 0)"
proof -
  have y: "y = k * (y div k) + y mod k" and r: "0 \<le> y mod k" "y mod k < k" using assms by simp_all
  show ?thesis
  proof (cases "y mod k = 0")
    case True
    then have "(y - 1) div k = y div k - 1"
      using y assms by (intro int_div_pos_eq [where r = "k - 1"]) (simp_all add: algebra_simps)
    with True show ?thesis by simp
  next
    case False
    then have "(y - 1) div k = y div k"
      using y r by (intro int_div_pos_eq [where r = "y mod k - 1"]) linarith+
    with False show ?thesis by simp
  qed
qed

lemma year_start_step: "year_start (y + 1) = year_start y + 365 + leap_days y"
proof -
  define m4 m100 m400 where "m4 \<longleftrightarrow> y mod 4 = 0" and "m100 \<longleftrightarrow> y mod 100 = 0" and "m400 \<longleftrightarrow> y mod 400 = 0"
  define p q r where "p = (y - 1) div 4" and "q = (y - 1) div 100" and "r = (y - 1) div 400"
  have "year_start (y + 1) = 365 * y + (p + (if m4 then 1 else 0)) - (q + (if m100 then 1 else 0))
      + (r + (if m400 then 1 else 0)) + 306"
    unfolding m4_def m100_def m400_def p_def q_def r_def
    by (simp only: year_start_def add_diff_cancel_right' div_step [symmetric] zero_less_numeral)
  moreover have "year_start y = 365 * (y - 1) + p - q + r + 306"
    by (simp only: year_start_def p_def q_def r_def)
  moreover have "date_leap y \<longleftrightarrow> m4 \<and> (\<not> m100 \<or> m400)"
    by (simp only: date_leap_iff m4_def m100_def m400_def)
  moreover have "m400 \<longrightarrow> m100" "m100 \<longrightarrow> m4"
    unfolding m4_def m100_def m400_def by presburger+
  ultimately show ?thesis
    by (cases m4; cases m100; cases m400) (simp_all add: leap_days_def)
qed

lemma month_range:
  assumes "1 \<le> m" "m \<le> (12 :: nat)"
  shows "m = 1 \<or> m = 2 \<or> m = 3 \<or> m = 4 \<or> m = 5 \<or> m = 6 \<or> m = 7 \<or> m = 8 \<or> m = 9 \<or> m = 10
    \<or> m = 11 \<or> m = 12"
  using assms by presburger

lemma date_order_key_alt:
  assumes "1 \<le> date_month d"
  shows "date_order_key d = year_start (date_year d) + month_start (date_year d) (date_month d)
    + int (date_day d) - 1"
proof (cases "date_month d \<le> 2")
  case True
  then have "date_month d = 1 \<or> date_month d = 2" using assms by auto
  then show ?thesis
    by (auto simp: date_order_key_floor year_start_def month_start_def Let_def)
next
  case False
  have "365 * date_year d + date_year d div 4 - date_year d div 100 + date_year d div 400
      = year_start (date_year d) + 365 + leap_days (date_year d) - 306"
    using year_start_step [of "date_year d"] by (simp add: year_start_def)
  with False assms show ?thesis
    by (simp add: date_order_key_floor month_start_def Let_def)
qed

lemma month_start_step:
  assumes "1 \<le> m" "m \<le> 12"
  shows "month_start y m + int (date_max_day y m) =
    (if m = 12 then 365 + leap_days y else month_start y (m + 1))"
  using month_range [OF assms] by (auto simp: month_start_def date_max_day_def leap_days_def)

lemma month_start_bounds:
  assumes "date_wf d"
  shows "0 \<le> month_start (date_year d) (date_month d)"
    and "month_start (date_year d) (date_month d) + int (date_day d) \<le> 365 + leap_days (date_year d)"
proof -
  have "1 \<le> date_month d" "date_month d \<le> 12" "date_day d \<le> date_max_day (date_year d) (date_month d)"
    using assms date_wf_bounds by (auto simp: date_wf_iff)
  then show "0 \<le> month_start (date_year d) (date_month d)"
    and "month_start (date_year d) (date_month d) + int (date_day d) \<le> 365 + leap_days (date_year d)"
    using month_range [of "date_month d"] by (auto simp: month_start_def date_max_day_def leap_days_def)
qed

lemma month_start_mono:
  assumes "1 \<le> m" "m < n" "n \<le> 12"
  shows "month_start y m + int (date_max_day y m) \<le> month_start y n"
  using assms
proof (induction n)
  case (Suc n)
  have step: "month_start y k + int (date_max_day y k) = month_start y (Suc k)" if "1 \<le> k" "k < 12" for k
    using month_start_step [of k y] that by simp
  show ?case
  proof (cases "m = n")
    case True
    with Suc step show ?thesis by simp
  next
    case False
    with Suc have "month_start y m + int (date_max_day y m) \<le> month_start y n" by simp
    also have "\<dots> \<le> month_start y (Suc n)" using step [of n] Suc by simp
    finally show ?thesis .
  qed
qed simp

lemma year_start_mono:
  assumes "y < z"
  shows "year_start y + 365 + leap_days y \<le> year_start z"
  using assms
proof (induction "nat (z - y)" arbitrary: z)
  case (Suc n)
  show ?case
  proof (cases "z = y + 1")
    case False
    then have "year_start y + 365 + leap_days y \<le> year_start (z - 1)" using Suc by auto
    also have "\<dots> \<le> year_start z"
      using year_start_step [of "z - 1"] by (simp add: leap_days_def split: if_splits)
    finally show ?thesis .
  qed (simp add: year_start_step)
qed simp

lemma date_order_key_less:
  assumes "date_wf a" "date_wf b" "date_tuple a < date_tuple b"
  shows "date_order_key a < date_order_key b"
proof -
  note a = date_wf_bounds [OF assms(1)] and b = date_wf_bounds [OF assms(2)]
  have days: "date_day a \<le> date_max_day (date_year a) (date_month a)" "0 < date_day b"
    using assms by (auto simp: date_wf_iff)
  from assms(3) consider "date_year a < date_year b"
    | "date_year a = date_year b" "date_month a < date_month b"
    | "date_year a = date_year b" "date_month a = date_month b" "date_day a < date_day b"
    by (auto simp: date_tuple_def less_prod_def')
  then show ?thesis
  proof cases
    case 1
    then show ?thesis
      using year_start_mono [OF 1] month_start_bounds [OF assms(1)] month_start_bounds [OF assms(2)] a b days
      by (simp add: date_order_key_alt)
  next
    case 2
    then show ?thesis
      using month_start_mono [of "date_month a" "date_month b" "date_year a"] a b days
      by (simp add: date_order_key_alt)
  qed (use a b in \<open>simp add: date_order_key_alt\<close>)
qed

lemma date_order_key_next:
  assumes "date_wf d"
  shows "date_order_key (next_day d) = date_order_key d + 1"
proof -
  note b = date_wf_bounds [OF assms]
  have le: "date_day d \<le> date_max_day (date_year d) (date_month d)" using assms by (simp add: date_wf_iff)
  note step = month_start_step [of "date_month d" "date_year d"]
  show ?thesis
  proof (cases "date_day d < date_max_day (date_year d) (date_month d)")
    case True
    then show ?thesis using b by (simp add: next_day_def date_order_key_alt)
  next
    case False
    with le have last: "date_day d = date_max_day (date_year d) (date_month d)" by simp
    show ?thesis
    proof (cases "date_month d < 12")
      case True
      with False last step b show ?thesis by (simp add: next_day_def date_order_key_alt)
    next
      case False
      with b have "date_month d = 12" by simp
      then have "next_day d = \<lparr>date_year = date_year d + 1, date_month = 1, date_day = 1\<rparr>"
        using last by (simp add: next_day_def)
      moreover have "month_start (date_year d + 1) 1 = 0" by (simp add: month_start_def)
      ultimately show ?thesis
        using \<open>date_month d = 12\<close> step last year_start_step [of "date_year d"]
        by (simp add: date_order_key_alt)
    qed
  qed
qed

section \<open>Instants\<close>

lemma day_nanoseconds_bounds:
  "time_wf t \<Longrightarrow> 0 \<le> day_nanoseconds t \<and> day_nanoseconds t < 86400000000000"
  by (simp add: day_nanoseconds_def time_wf_iff)

lemma day_nanoseconds_less:
  "time_wf s \<Longrightarrow> time_wf t \<Longrightarrow> time_tuple s < time_tuple t \<Longrightarrow> day_nanoseconds s < day_nanoseconds t"
  by (auto simp: time_tuple_def day_nanoseconds_def time_wf_iff less_prod_def')

lemma local_nanoseconds_less:
  assumes "date_time_wf x" "date_time_wf y"
    and "(date_tuple (dt_date x), time_tuple (dt_time x)) < (date_tuple (dt_date y), time_tuple (dt_time y))"
  shows "local_nanoseconds x < local_nanoseconds y"
proof -
  have split: "local_nanoseconds z = date_order_key (dt_date z) * 86400000000000 + day_nanoseconds (dt_time z)" for z
    by (simp add: local_nanoseconds_def day_nanoseconds_def Let_def)
  have wf: "date_wf (dt_date x)" "date_wf (dt_date y)" "time_wf (dt_time x)" "time_wf (dt_time y)"
    using assms by (simp_all add: date_time_wf_def)
  note t = day_nanoseconds_bounds [OF wf(3)] day_nanoseconds_bounds [OF wf(4)]
  from assms(3) consider "date_tuple (dt_date x) < date_tuple (dt_date y)"
    | "date_tuple (dt_date x) = date_tuple (dt_date y)" "time_tuple (dt_time x) < time_tuple (dt_time y)"
    by (auto simp: less_prod_def')
  then show ?thesis
  proof cases
    case 1
    then have "date_order_key (dt_date x) + 1 \<le> date_order_key (dt_date y)"
      using date_order_key_less wf by fastforce
    then show ?thesis using t unfolding split by linarith
  next
    case 2
    then have "dt_date x = dt_date y" by (simp add: date_tuple_def)
    then show ?thesis using day_nanoseconds_less [OF wf(3,4) 2(2)] unfolding split by simp
  qed
qed

section \<open>Properties\<close>

lemma date_order_key_iff:
  assumes "date_wf a" "date_wf b"
  shows "date_order_key a < date_order_key b \<longleftrightarrow> date_tuple a < date_tuple b"
proof (cases "date_tuple a" "date_tuple b" rule: linorder_cases)
  case equal
  then have "a = b" by (simp add: date_tuple_def)
  then show ?thesis by simp
qed (use assms date_order_key_less in \<open>fastforce\<close>)+

text \<open>
  The integer key of a date counts days: on calendar-valid dates it orders them as their
  (year, month, day) components do, over the whole canonical year range including negative years and
  century leap rules, and the calendar successor of a date has the next key.
\<close>

lemma date_order_key_counts_days:
  assumes "date_wf a" "date_wf b"
  shows "(date_order_key a < date_order_key b \<longleftrightarrow> date_tuple a < date_tuple b)
    \<and> date_order_key (next_day a) = date_order_key a + 1"
  using date_order_key_iff [OF assms] date_order_key_next [OF assms(1)] by blast


text \<open>
  The UTC key of zoned values at one and the same offset orders them by their local date and then
  time of day, down to the nanosecond, so distinct local values never share an instant.
\<close>

lemma semantic_utc_order:
  assumes "date_time_wf (tz_local x)" "date_time_wf (tz_local y)"
    and "tz_effective_offset_seconds x = tz_effective_offset_seconds y"
  shows "semantic_utc_nanoseconds x < semantic_utc_nanoseconds y \<longleftrightarrow>
    (date_tuple (dt_date (tz_local x)), time_tuple (dt_time (tz_local x)))
    < (date_tuple (dt_date (tz_local y)), time_tuple (dt_time (tz_local y)))"
proof (cases "(date_tuple (dt_date (tz_local x)), time_tuple (dt_time (tz_local x)))"
    "(date_tuple (dt_date (tz_local y)), time_tuple (dt_time (tz_local y)))" rule: linorder_cases)
  case less
  then show ?thesis using local_nanoseconds_less assms by (simp add: semantic_utc_nanoseconds_def)
next
  case equal
  then have "tz_local x = tz_local y" by (simp add: date_tuple_def time_tuple_def)
  then show ?thesis using assms by (simp add: semantic_utc_nanoseconds_def)
next
  case greater
  then have "local_nanoseconds (tz_local y) < local_nanoseconds (tz_local x)"
    using local_nanoseconds_less assms by blast
  then show ?thesis using greater assms(3) by (auto simp: semantic_utc_nanoseconds_def)
qed


end
