(* ===== verification/Canonical_Values.thy ===== *)
theory Canonical_Values
  imports Decimals Temporals Instants "HOL-Library.Word"
begin

text \<open>
  Domain-tagged scalar values and cardinalities, \<open>contract/src/value.rs\<close>: the validating
  constructors, the same-domain semantic comparison that value ranges rely on, and the wire form of
  cardinalities and longs. A double is its 64-bit pattern, compared the way IEEE 754 compares finite
  numbers; a \<open>DecimalValue\<close> is its canonical text, re-parsed by the comparison, whose \<open>expect\<close> is
  the outer \<open>None\<close> of the result.
\<close>

section \<open>Scalars\<close>

definition MAX_CANONICAL_STRING_BYTES :: nat where
  "MAX_CANONICAL_STRING_BYTES = 1048576"

definition invalid_scalar :: diagnostic where
  "invalid_scalar = Diagnostic InvalidContract ''invalid_canonical_scalar''"

datatype canonical_string_value = CanonicalString (string_text: string)

definition canonical_string_new :: "string \<Rightarrow> canonical_string_value res" where
  "canonical_string_new s =
     (if MAX_CANONICAL_STRING_BYTES < length s
      then Inl (Diagnostic ResourceLimit ''canonical_string_limit_exceeded'')
      else Inr (CanonicalString s))"

datatype canonical_double = CanonicalDouble (double_bits: "64 word")

text \<open>\<open>f64::is_finite\<close>: the eleven exponent bits are not all ones.\<close>

definition double_is_finite :: "64 word \<Rightarrow> bool" where
  "double_is_finite w \<longleftrightarrow> (uint w div 2 ^ 52) mod 2 ^ 11 \<noteq> 2 ^ 11 - 1"

definition double_new :: "64 word \<Rightarrow> canonical_double res" where
  "double_new w = (if double_is_finite w then Inr (CanonicalDouble w) else Inl invalid_scalar)"

text \<open>Finite doubles compare by sign and magnitude; the two zeros are equal.\<close>

definition double_key :: "canonical_double \<Rightarrow> int" where
  "double_key d =
     (let u = uint (double_bits d) in if 2 ^ 63 \<le> u then - (u - 2 ^ 63) else u)"

datatype decimal_value = DecimalValue (decimal_text_of: string)

definition decimal_value_new :: "string \<Rightarrow> decimal_value res" where
  "decimal_value_new s =
     (case parse_decimal s of
        None \<Rightarrow> Inl invalid_scalar
      | Some d \<Rightarrow> Inr (DecimalValue (canonical_string d)))"

datatype value_type_tag =
    TagString | TagLong | TagDouble | TagBoolean | TagDate | TagDateTime | TagDateTimeTz
  | TagDecimal | TagDuration

datatype canonical_value =
    VString canonical_string_value
  | VLong int
  | VDouble canonical_double
  | VBoolean bool
  | VDate canonical_date
  | VDateTime canonical_date_time
  | VDateTimeTz canonical_date_time_tz
  | VDecimal decimal_value
  | VDuration canonical_duration

fun value_type :: "canonical_value \<Rightarrow> value_type_tag" where
  "value_type (VString _) = TagString"
| "value_type (VLong _) = TagLong"
| "value_type (VDouble _) = TagDouble"
| "value_type (VBoolean _) = TagBoolean"
| "value_type (VDate _) = TagDate"
| "value_type (VDateTime _) = TagDateTime"
| "value_type (VDateTimeTz _) = TagDateTimeTz"
| "value_type (VDecimal _) = TagDecimal"
| "value_type (VDuration _) = TagDuration"

definition date_time_tuple :: "canonical_date_time \<Rightarrow> (int \<times> nat \<times> nat) \<times> (nat \<times> nat \<times> nat \<times> nat)" where
  "date_time_tuple x = (date_tuple (dt_date x), time_tuple (dt_time x))"

text \<open>The outer option is \<open>None\<close> where the source panics, the inner one where it returns \<open>None\<close>.\<close>

fun semantic_cmp_same_domain :: "canonical_value \<Rightarrow> canonical_value \<Rightarrow> ordering option option" where
  "semantic_cmp_same_domain (VString a) (VString b) = Some (Some (cmp (string_text a) (string_text b)))"
| "semantic_cmp_same_domain (VLong a) (VLong b) = Some (Some (cmp a b))"
| "semantic_cmp_same_domain (VDouble a) (VDouble b) = Some (Some (cmp (double_key a) (double_key b)))"
| "semantic_cmp_same_domain (VBoolean a) (VBoolean b) = Some (Some (cmp a b))"
| "semantic_cmp_same_domain (VDate a) (VDate b) = Some (Some (cmp (date_tuple a) (date_tuple b)))"
| "semantic_cmp_same_domain (VDateTime a) (VDateTime b) =
     Some (Some (cmp (date_time_tuple a) (date_time_tuple b)))"
| "semantic_cmp_same_domain (VDateTimeTz a) (VDateTimeTz b) =
     Some (Some (cmp (semantic_utc_nanoseconds a) (semantic_utc_nanoseconds b)))"
| "semantic_cmp_same_domain (VDecimal a) (VDecimal b) =
     (case (parse_decimal (decimal_text_of a), parse_decimal (decimal_text_of b)) of
        (Some l, Some r) \<Rightarrow> Some (Some (compare_decimal l r))
      | _ \<Rightarrow> None)"
| "semantic_cmp_same_domain _ _ = Some None"

section \<open>Cardinalities\<close>

record cardinality =
  card_min :: nat
  card_max :: "nat option"

definition cardinality_new :: "nat \<Rightarrow> nat option \<Rightarrow> cardinality res" where
  "cardinality_new mn mx =
     (if (case mx of None \<Rightarrow> False | Some m \<Rightarrow> m < mn \<or> m = 0)
      then Inl (Diagnostic InvalidContract ''invalid_cardinality'')
      else Inr \<lparr>card_min = mn, card_max = mx\<rparr>)"

definition cardinality_encode :: "cardinality \<Rightarrow> string \<times> string" where
  "cardinality_encode c =
     (show_nat (card_min c),
      (case card_max c of None \<Rightarrow> ''unbounded'' | Some m \<Rightarrow> show_nat m))"

text \<open>The custom error of the deserializer, which carries no stable code.\<close>

definition wire_error :: diagnostic where
  "wire_error = Diagnostic InvalidContract ''wire''"

definition parse_canonical_u64 :: "string \<Rightarrow> nat res" where
  "parse_canonical_u64 s =
     bind_res (ok_or (parse_unsigned 64 s) wire_error) (\<lambda>n.
       if show_nat n \<noteq> s then Inl wire_error else Inr n)"

definition cardinality_decode :: "string \<times> string \<Rightarrow> cardinality res" where
  "cardinality_decode wire =
     bind_res (parse_canonical_u64 (fst wire)) (\<lambda>mn.
     bind_res (if snd wire = ''unbounded'' then Inr None
               else bind_res (parse_canonical_u64 (snd wire)) (\<lambda>m. Inr (Some m))) (\<lambda>mx.
       cardinality_new mn mx))"

definition long_decode :: "string \<Rightarrow> int res" where
  "long_decode s =
     bind_res (ok_or (parse_signed 64 s) wire_error) (\<lambda>n.
       if show_int n \<noteq> s then Inl wire_error else Inr n)"

section \<open>Validity\<close>

definition decimal_value_wf :: "decimal_value \<Rightarrow> bool" where
  "decimal_value_wf v \<longleftrightarrow> decimal_value_new (decimal_text_of v) = Inr v"

fun value_wf :: "canonical_value \<Rightarrow> bool" where
  "value_wf (VString s) = (length (string_text s) \<le> MAX_CANONICAL_STRING_BYTES)"
| "value_wf (VLong i) = (- (2 ^ 63) \<le> i \<and> i < 2 ^ 63)"
| "value_wf (VDouble d) = double_is_finite (double_bits d)"
| "value_wf (VBoolean _) = True"
| "value_wf (VDate d) = date_wf d"
| "value_wf (VDateTime x) = date_time_wf x"
| "value_wf (VDateTimeTz z) = date_time_wf (tz_local z)"
| "value_wf (VDecimal v) = decimal_value_wf v"
| "value_wf (VDuration d) = duration_wf d"

definition cardinality_wf :: "cardinality \<Rightarrow> bool" where
  "cardinality_wf c \<longleftrightarrow> cardinality_new (card_min c) (card_max c) = Inr c
     \<and> card_min c < 2 ^ 64 \<and> (\<forall>m. card_max c = Some m \<longrightarrow> m < 2 ^ 64)"

section \<open>The comparison is a total preorder on each domain\<close>

lemma decimal_value_parse:
  assumes "decimal_value_wf v"
  obtains d where "parse_decimal (decimal_text_of v) = Some d" "decimal_wf d"
    "decimal_text_of v = canonical_string d"
proof -
  from assms obtain d where d: "parse_decimal (decimal_text_of v) = Some d" "DecimalValue (canonical_string d) = v"
    by (auto simp: decimal_value_wf_def decimal_value_new_def split: option.splits)
  then show ?thesis using that parse_decimal_wf by force
qed

text \<open>Reference: the semantic position of a value inside its domain.\<close>

lemma decimal_value_new_wf: "decimal_value_new s = Inr v \<Longrightarrow> decimal_value_wf v"
  by (auto simp: decimal_value_new_def decimal_value_wf_def parse_canonical_string parse_decimal_wf
      split: option.splits)

lemma decimal_cmp:
  assumes "decimal_value_wf a" "decimal_value_wf b"
  shows "semantic_cmp_same_domain (VDecimal a) (VDecimal b) =
    Some (Some (cmp (dec_scaled (the (parse_decimal (decimal_text_of a))))
                    (dec_scaled (the (parse_decimal (decimal_text_of b))))))"
  using decimal_value_parse [OF assms(1)] decimal_value_parse [OF assms(2)] compare_decimal_scaled
  by (metis (no_types, lifting) case_prod_conv option.sel option.simps(5) semantic_cmp_same_domain.simps(8))

lemma semantic_cmp_defined:
  assumes "value_wf a" "value_wf b"
  shows "semantic_cmp_same_domain a b \<noteq> None"
    and "semantic_cmp_same_domain a b = Some None \<longleftrightarrow>
      value_type a \<noteq> value_type b \<or> value_type a = TagDuration"
  using assms by (cases a; cases b; simp add: decimal_cmp del: semantic_cmp_same_domain.simps(8))+

lemma semantic_cmp_reverse:
  assumes "value_wf a" "value_wf b" "semantic_cmp_same_domain a b = Some (Some ord)"
  shows "semantic_cmp_same_domain b a = Some (Some (reverse_ordering ord))"
  using assms by (cases a; cases b) (auto simp: decimal_cmp reverse_cmp simp del: semantic_cmp_same_domain.simps(8))

lemma semantic_cmp_trans:
  assumes "value_wf a" "value_wf b" "value_wf c"
    and "semantic_cmp_same_domain a b = Some (Some o1)" "o1 \<noteq> Greater"
    and "semantic_cmp_same_domain b c = Some (Some o2)" "o2 \<noteq> Greater"
  shows "semantic_cmp_same_domain a c = Some (Some (then_with o1 o2))"
proof -
  have same: "value_type b = value_type a" "value_type c = value_type b"
    using assms semantic_cmp_defined(2) by (metis option.distinct(1) option.inject)+
  show ?thesis
  proof (cases a)
    case (VDecimal d)
    then obtain e f where "b = VDecimal e" "c = VDecimal f"
      using same by (cases b; cases c; simp)
    with VDecimal assms show ?thesis
      by (auto simp: decimal_cmp cmp_chain simp del: semantic_cmp_same_domain.simps(8))
  qed (use same assms in \<open>cases b; simp; cases c; auto simp: cmp_chain\<close>)+
qed

lemma parse_canonical_u64_iff: "parse_canonical_u64 s = Inr n \<longleftrightarrow> n < 2 ^ 64 \<and> s = show_nat n"
proof
  assume "parse_canonical_u64 s = Inr n"
  then show "n < 2 ^ 64 \<and> s = show_nat n"
    by (auto simp: parse_canonical_u64_def parse_unsigned_def Let_def res_simps split: if_splits)
qed (auto simp: parse_canonical_u64_def parse_unsigned_digits)

lemma show_nat_not_unbounded: "show_nat n \<noteq> ''unbounded''"
proof
  assume h: "show_nat n = ''unbounded''"
  have "all_digits ''unbounded''" using show_nat_digits [of n] by (simp only: h)
  then show False by (simp add: is_ascii_digit_def)
qed

section \<open>Properties\<close>

text \<open>
  C33. Comparing valid canonical values never panics, is undefined exactly across domains and on
  durations, and otherwise is a total preorder: swapping the arguments reverses the answer, and
  non-decreasing steps compose, with strictness kept. Range annotations rely on this.
\<close>

theorem semantic_cmp_total_preorder:
  assumes "value_wf a" "value_wf b" "value_wf c"
  shows "semantic_cmp_same_domain a b \<noteq> None
    \<and> (semantic_cmp_same_domain a b = Some None \<longleftrightarrow> value_type a \<noteq> value_type b \<or> value_type a = TagDuration)
    \<and> (\<forall>ord. semantic_cmp_same_domain a b = Some (Some ord) \<longrightarrow>
          semantic_cmp_same_domain b a = Some (Some (reverse_ordering ord)))
    \<and> (\<forall>o1 o2. semantic_cmp_same_domain a b = Some (Some o1) \<and> o1 \<noteq> Greater
          \<and> semantic_cmp_same_domain b c = Some (Some o2) \<and> o2 \<noteq> Greater
          \<longrightarrow> semantic_cmp_same_domain a c = Some (Some (then_with o1 o2)))"
  using semantic_cmp_defined [OF assms(1,2)] semantic_cmp_reverse [OF assms(1,2)]
    semantic_cmp_trans [OF assms] by blast

theorem semantic_cmp_total_preorder_witness:
  "semantic_cmp_same_domain (VDecimal (DecimalValue ''-0.5'')) (VDecimal (DecimalValue ''2''))
     = Some (Some Less)
   \<and> semantic_cmp_same_domain (VDecimal (DecimalValue ''2'')) (VDecimal (DecimalValue ''-0.5''))
     = Some (Some Greater)"
proof -
  let ?a = "VDecimal (DecimalValue ''-0.5'')" and ?b = "VDecimal (DecimalValue ''2'')"
  have "value_wf ?a" "value_wf ?b" by code_simp+
  moreover have "semantic_cmp_same_domain ?a ?b = Some (Some Less)" by code_simp
  ultimately show ?thesis using semantic_cmp_total_preorder [of ?a ?b ?b] by simp
qed

text \<open>
  The wire form of a cardinality is decoded to a valid cardinality exactly from its canonical
  encoding: bounds as plain decimal numbers within 64 bits, or the word for an open maximum.
\<close>

lemma cardinality_wire_canonical:
  "cardinality_decode wire = Inr c \<longleftrightarrow> cardinality_wf c \<and> wire = cardinality_encode c"
proof
  assume "cardinality_decode wire = Inr c"
  then show "cardinality_wf c \<and> wire = cardinality_encode c"
    by (cases wire)
       (auto simp: cardinality_decode_def cardinality_encode_def cardinality_wf_def cardinality_new_def
        res_simps parse_canonical_u64_iff split: if_splits option.splits)
next
  assume "cardinality_wf c \<and> wire = cardinality_encode c"
  then show "cardinality_decode wire = Inr c"
    by (cases "card_max c")
       (auto simp: cardinality_decode_def cardinality_encode_def cardinality_wf_def
        iffD2 [OF parse_canonical_u64_iff] show_nat_not_unbounded)
qed

end
