(* ===== verification/Schema_Ids.thy ===== *)
theory Schema_Ids
  imports Rust_Strings
begin

text \<open>
  Identifiers of the schema contract: \<open>contract/src/id.rs\<close> (labels, type, role, attribute, function
  and struct ids), \<open>contract/src/capability.rs\<close> and the fact identities of
  \<open>contract/src/schema.rs\<close>. A validated label is its byte string. The derived \<open>Ord\<close> of the ids is
  the lexicographic order of \<open>*_key\<close>: the variant's position, then the fields in declaration order;
  it makes the ids a \<open>linorder\<close>, so that the library's sorted views of sets and maps are the
  iteration order of \<open>BTreeSet\<close> and \<open>BTreeMap\<close>. The Unicode identifier tests come from the
  \<open>unicode_ident\<close> crate and are parameters of \<open>label_new\<close>.
\<close>

section \<open>Labels\<close>

type_synonym label = string

definition MAX_LABEL_BYTES :: nat where "MAX_LABEL_BYTES = 255"

definition TYPEQL_3_12_1_RESERVED_LABELS :: "string list" where
  "TYPEQL_3_12_1_RESERVED_LABELS =
     [''with'', ''given'', ''match'', ''fetch'', ''update'', ''define'', ''undefine'', ''redefine'',
      ''insert'', ''put'', ''delete'', ''end'', ''entity'', ''relation'', ''attribute'', ''role'',
      ''asc'', ''desc'', ''struct'', ''fun'', ''return'', ''alias'', ''sub'', ''owns'', ''as'',
      ''plays'', ''relates'', ''iid'', ''isa'', ''links'', ''has'', ''is'', ''or'', ''not'', ''try'',
      ''in'', ''true'', ''false'', ''of'', ''from'', ''first'', ''last'']"

text \<open>\<open>str::chars\<close>: the code points of valid UTF-8.\<close>

fun utf8_chars :: "nat list \<Rightarrow> nat list" where
  "utf8_chars [] = []"
| "utf8_chars [a] = [a]"
| "utf8_chars [a, b] =
     (if a < 128 then a # utf8_chars [b] else [(a - 192) * 64 + (b - 128)])"
| "utf8_chars [a, b, c] =
     (if a < 128 then a # utf8_chars [b, c]
      else if a < 224 then ((a - 192) * 64 + (b - 128)) # utf8_chars [c]
      else [(a - 224) * 4096 + (b - 128) * 64 + (c - 128)])"
| "utf8_chars (a # b # c # d # s) =
     (if a < 128 then a # utf8_chars (b # c # d # s)
      else if a < 224 then ((a - 192) * 64 + (b - 128)) # utf8_chars (c # d # s)
      else if a < 240 then ((a - 224) * 4096 + (b - 128) * 64 + (c - 128)) # utf8_chars (d # s)
      else ((a - 240) * 262144 + (b - 128) * 4096 + (c - 128) * 64 + (d - 128)) # utf8_chars s)"

definition chars :: "string \<Rightarrow> nat list" where
  "chars s = utf8_chars (map of_char s)"

definition label_new :: "(nat \<Rightarrow> bool) \<Rightarrow> (nat \<Rightarrow> bool) \<Rightarrow> string \<Rightarrow> label res" where
  "label_new is_xid_start is_xid_continue value =
     (if length value \<le> MAX_LABEL_BYTES
         \<and> (case chars value of
              [] \<Rightarrow> False
            | c # rest \<Rightarrow> (c = 95 \<or> is_xid_start c) \<and> list_all (\<lambda>c. c = 45 \<or> is_xid_continue c) rest)
         \<and> value \<notin> set TYPEQL_3_12_1_RESERVED_LABELS
      then Inr value
      else Inl (Diagnostic InvalidContract ''malformed_id''))"

definition MAX_THING_IID_HEX_DIGITS :: nat where "MAX_THING_IID_HEX_DIGITS = 256"

definition is_ascii_hexdigit :: "char \<Rightarrow> bool" where
  "is_ascii_hexdigit c \<longleftrightarrow> is_ascii_digit c
     \<or> (65 \<le> (of_char c :: nat) \<and> (of_char c :: nat) \<le> 70)
     \<or> (97 \<le> (of_char c :: nat) \<and> (of_char c :: nat) \<le> 102)"

definition is_canonical_thing_iid :: "string \<Rightarrow> bool" where
  "is_canonical_thing_iid value =
     (case strip_prefix ''0x'' value of
        None \<Rightarrow> False
      | Some digits \<Rightarrow> digits \<noteq> [] \<and> length digits \<le> MAX_THING_IID_HEX_DIGITS
          \<and> list_all is_ascii_hexdigit digits)"

section \<open>Type, role and member identities\<close>

datatype type_kind = Entity | Relation | Attribute | Struct

datatype type_id = TypeId (type_id_kind: type_kind) (type_id_label: label)

datatype role_id = RoleId (declaring_relation: label) (role_label: label)

datatype attribute_id = AttributeId (attribute_label: label)

datatype function_id = FunctionId (function_label: label)

datatype struct_id = StructId (struct_label: label)

definition attribute_type_id :: "attribute_id \<Rightarrow> type_id" where
  "attribute_type_id a = TypeId Attribute (attribute_label a)"

definition relation_type :: "role_id \<Rightarrow> type_id" where
  "relation_type r = TypeId Relation (declaring_relation r)"

section \<open>Fact identities\<close>

datatype sub_fact_id = SubFactId (sub_subtype: type_id) (sub_supertype: type_id)

datatype value_fact_id = ValueFactId (value_attribute: attribute_id)

datatype owns_fact_id = OwnsFactId (owns_owner: type_id) (owns_attribute: attribute_id)

datatype relates_fact_id = RelatesFactId (relates_relation: type_id) (relates_role: role_id)

datatype plays_fact_id = PlaysFactId (plays_player: type_id) (plays_role: role_id)

datatype annotation_subject_id =
    OnType type_id
  | OnSub sub_fact_id
  | OnValue value_fact_id
  | OnOwns owns_fact_id
  | OnRelates relates_fact_id
  | OnPlays plays_fact_id
  | OnFunction function_id

datatype annotation_kind_id =
    Abstract | Independent | Key | Unique | Distinct | Card | Regex | Range | Values | Doc
  | Meta label

datatype annotation_fact_id =
  AnnotationFactId (annotation_subject: annotation_subject_id) (annotation_kind: annotation_kind_id)

datatype schema_fact_id =
    IdType type_id
  | IdSub sub_fact_id
  | IdValue value_fact_id
  | IdOwns owns_fact_id
  | IdRelates relates_fact_id
  | IdPlays plays_fact_id
  | IdAnnotation annotation_fact_id
  | IdFunction function_id
  | IdStruct struct_id

definition invalid_contract :: "string \<Rightarrow> diagnostic" where
  "invalid_contract code = Diagnostic InvalidContract code"

definition sub_fact_id_new :: "type_id \<Rightarrow> type_id \<Rightarrow> sub_fact_id res" where
  "sub_fact_id_new subtype supertype =
     (if type_id_kind subtype = Struct \<or> type_id_kind supertype = Struct
         \<or> type_id_kind subtype \<noteq> type_id_kind supertype \<or> subtype = supertype
      then Inl (invalid_contract ''invalid_sub_fact'') else Inr (SubFactId subtype supertype))"

definition owns_fact_id_new :: "type_id \<Rightarrow> attribute_id \<Rightarrow> owns_fact_id res" where
  "owns_fact_id_new owner attribute =
     (if type_id_kind owner \<notin> {Entity, Relation}
      then Inl (invalid_contract ''invalid_owns_owner'') else Inr (OwnsFactId owner attribute))"

definition relates_fact_id_new :: "type_id \<Rightarrow> role_id \<Rightarrow> relates_fact_id res" where
  "relates_fact_id_new relation role =
     (if type_id_kind relation \<noteq> Relation \<or> type_id_label relation \<noteq> declaring_relation role
      then Inl (invalid_contract ''invalid_relates_identity'') else Inr (RelatesFactId relation role))"

definition plays_fact_id_new :: "type_id \<Rightarrow> role_id \<Rightarrow> plays_fact_id res" where
  "plays_fact_id_new player role =
     (if type_id_kind player \<notin> {Entity, Relation}
      then Inl (invalid_contract ''invalid_plays_player'') else Inr (PlaysFactId player role))"

fun subject_fact_id :: "annotation_subject_id \<Rightarrow> schema_fact_id" where
  "subject_fact_id (OnType i) = IdType i"
| "subject_fact_id (OnSub i) = IdSub i"
| "subject_fact_id (OnValue i) = IdValue i"
| "subject_fact_id (OnOwns i) = IdOwns i"
| "subject_fact_id (OnRelates i) = IdRelates i"
| "subject_fact_id (OnPlays i) = IdPlays i"
| "subject_fact_id (OnFunction i) = IdFunction i"

section \<open>Capabilities\<close>

type_synonym capability_id = string

type_synonym capability_set = "capability_id fset"

definition MAX_CAPABILITY_ID_BYTES :: nat where "MAX_CAPABILITY_ID_BYTES = 255"

fun split_on :: "char \<Rightarrow> string \<Rightarrow> string list" where
  "split_on c [] = [[]]"
| "split_on c (x # s) =
     (if x = c then [] # split_on c s
      else (case split_on c s of [] \<Rightarrow> [[x]] | seg # segs \<Rightarrow> (x # seg) # segs))"

definition is_ascii_lowercase :: "char \<Rightarrow> bool" where
  "is_ascii_lowercase c \<longleftrightarrow> 97 \<le> (of_char c :: nat) \<and> (of_char c :: nat) \<le> 122"

definition capability_segment :: "string \<Rightarrow> bool" where
  "capability_segment seg =
     (case seg of
        [] \<Rightarrow> False
      | b # rest \<Rightarrow> is_ascii_lowercase b
          \<and> list_all (\<lambda>b. is_ascii_lowercase b \<or> is_ascii_digit b \<or> b \<in> set ''-_'') rest)"

definition capability_id_new :: "string \<Rightarrow> capability_id res" where
  "capability_id_new value =
     (let segments = split_on (CHR ''.'') value in
      if length value \<le> MAX_CAPABILITY_ID_BYTES \<and> 2 \<le> length segments \<and> list_all capability_segment segments
      then Inr value else Inl (invalid_contract ''malformed_capability_id''))"

definition missing_from :: "capability_set \<Rightarrow> capability_set \<Rightarrow> capability_set" where
  "missing_from required available = required |-| available"

definition ensure_supported_by :: "capability_set \<Rightarrow> capability_set \<Rightarrow> unit res" where
  "ensure_supported_by required available =
     (if missing_from required available = {||} then Inr ()
      else Inl (Diagnostic UnsupportedCapability ''unsupported_required_capability''))"

section \<open>The derived orders\<close>

fun kind_key :: "type_kind \<Rightarrow> string" where
  "kind_key Entity = ''a''" | "kind_key Relation = ''b''" | "kind_key Attribute = ''c''"
| "kind_key Struct = ''d''"

fun type_id_key :: "type_id \<Rightarrow> string list" where
  "type_id_key (TypeId k l) = [kind_key k, l]"

fun role_id_key :: "role_id \<Rightarrow> string list" where
  "role_id_key (RoleId r l) = [r, l]"

fun sub_fact_id_key :: "sub_fact_id \<Rightarrow> string list" where
  "sub_fact_id_key (SubFactId a b) = type_id_key a @ type_id_key b"

fun owns_fact_id_key :: "owns_fact_id \<Rightarrow> string list" where
  "owns_fact_id_key (OwnsFactId t a) = type_id_key t @ [attribute_label a]"

fun relates_fact_id_key :: "relates_fact_id \<Rightarrow> string list" where
  "relates_fact_id_key (RelatesFactId t r) = type_id_key t @ role_id_key r"

fun plays_fact_id_key :: "plays_fact_id \<Rightarrow> string list" where
  "plays_fact_id_key (PlaysFactId t r) = type_id_key t @ role_id_key r"

fun annotation_subject_key :: "annotation_subject_id \<Rightarrow> string list" where
  "annotation_subject_key (OnType i) = ''a'' # type_id_key i"
| "annotation_subject_key (OnSub i) = ''b'' # sub_fact_id_key i"
| "annotation_subject_key (OnValue i) = [''c'', attribute_label (value_attribute i)]"
| "annotation_subject_key (OnOwns i) = ''d'' # owns_fact_id_key i"
| "annotation_subject_key (OnRelates i) = ''e'' # relates_fact_id_key i"
| "annotation_subject_key (OnPlays i) = ''f'' # plays_fact_id_key i"
| "annotation_subject_key (OnFunction i) = [''g'', function_label i]"

fun annotation_kind_key :: "annotation_kind_id \<Rightarrow> string list" where
  "annotation_kind_key Abstract = [''a'']"
| "annotation_kind_key Independent = [''b'']"
| "annotation_kind_key Key = [''c'']"
| "annotation_kind_key Unique = [''d'']"
| "annotation_kind_key Distinct = [''e'']"
| "annotation_kind_key Card = [''f'']"
| "annotation_kind_key Regex = [''g'']"
| "annotation_kind_key Range = [''h'']"
| "annotation_kind_key Values = [''i'']"
| "annotation_kind_key Doc = [''j'']"
| "annotation_kind_key (Meta l) = [''k'', l]"

fun schema_fact_id_key :: "schema_fact_id \<Rightarrow> string list" where
  "schema_fact_id_key (IdType i) = ''a'' # type_id_key i"
| "schema_fact_id_key (IdSub i) = ''b'' # sub_fact_id_key i"
| "schema_fact_id_key (IdValue i) = [''c'', attribute_label (value_attribute i)]"
| "schema_fact_id_key (IdOwns i) = ''d'' # owns_fact_id_key i"
| "schema_fact_id_key (IdRelates i) = ''e'' # relates_fact_id_key i"
| "schema_fact_id_key (IdPlays i) = ''f'' # plays_fact_id_key i"
| "schema_fact_id_key (IdAnnotation i) =
     ''g'' # annotation_subject_key (annotation_subject i) @ annotation_kind_key (annotation_kind i)"
| "schema_fact_id_key (IdFunction i) = [''h'', function_label i]"
| "schema_fact_id_key (IdStruct i) = [''i'', struct_label i]"

section \<open>The keys are injective\<close>

lemma kind_key_inj [simp]: "kind_key a = kind_key b \<longleftrightarrow> a = b"
  by (cases a; cases b; simp)

lemma type_id_key_inj [simp]: "type_id_key a = type_id_key b \<longleftrightarrow> a = b"
  by (cases a; cases b) simp

lemma role_id_key_inj [simp]: "role_id_key a = role_id_key b \<longleftrightarrow> a = b"
  by (cases a; cases b) simp

lemma sub_fact_id_key_inj [simp]: "sub_fact_id_key a = sub_fact_id_key b \<longleftrightarrow> a = b"
proof (cases a; cases b)
  fix s t u v assume "a = SubFactId s t" "b = SubFactId u v"
  then show ?thesis by (cases s; cases t; cases u; cases v) simp
qed

lemma owns_fact_id_key_inj [simp]: "owns_fact_id_key a = owns_fact_id_key b \<longleftrightarrow> a = b"
proof (cases a; cases b)
  fix s t u v assume "a = OwnsFactId s t" "b = OwnsFactId u v"
  then show ?thesis by (cases s; cases t; cases u; cases v) simp
qed

lemma relates_fact_id_key_inj [simp]: "relates_fact_id_key a = relates_fact_id_key b \<longleftrightarrow> a = b"
proof (cases a; cases b)
  fix s t u v assume "a = RelatesFactId s t" "b = RelatesFactId u v"
  then show ?thesis by (cases s; cases t; cases u; cases v) simp
qed

lemma plays_fact_id_key_inj [simp]: "plays_fact_id_key a = plays_fact_id_key b \<longleftrightarrow> a = b"
proof (cases a; cases b)
  fix s t u v assume "a = PlaysFactId s t" "b = PlaysFactId u v"
  then show ?thesis by (cases s; cases t; cases u; cases v) simp
qed

lemma label_id_inj [simp]:
  "attribute_label a = attribute_label b \<longleftrightarrow> a = b"
  "function_label f = function_label g \<longleftrightarrow> f = g"
  "struct_label s = struct_label t \<longleftrightarrow> s = t"
  "value_attribute v = value_attribute w \<longleftrightarrow> v = w"
  by (auto intro: attribute_id.expand function_id.expand struct_id.expand value_fact_id.expand)

lemma key_lengths:
  "length (type_id_key t) = 2" "length (role_id_key r) = 2" "length (sub_fact_id_key s) = 4"
  "length (owns_fact_id_key w) = 3" "length (relates_fact_id_key x) = 4" "length (plays_fact_id_key p) = 4"
proof -
  show l: "length (type_id_key t) = 2" "length (role_id_key r) = 2" for t r by (cases t; cases r; simp)+
  show "length (sub_fact_id_key s) = 4" "length (owns_fact_id_key w) = 3"
    "length (relates_fact_id_key x) = 4" "length (plays_fact_id_key p) = 4"
    by (cases s; cases w; cases x; cases p; simp add: l)+
qed

lemma annotation_kind_key_inj [simp]: "annotation_kind_key a = annotation_kind_key b \<longleftrightarrow> a = b"
  by (cases a; cases b; simp)

lemma annotation_subject_key_append_inj:
  "annotation_subject_key a @ x = annotation_subject_key b @ y \<longleftrightarrow> a = b \<and> x = y"
  by (cases a; cases b) (auto simp: key_lengths)

lemma schema_fact_id_key_inj [simp]: "schema_fact_id_key a = schema_fact_id_key b \<longleftrightarrow> a = b"
  by (cases a; cases b) (auto simp: annotation_subject_key_append_inj intro: annotation_fact_id.expand)

section \<open>Linear orders\<close>

instantiation type_id :: linorder
begin
definition less_eq_type_id :: "type_id \<Rightarrow> type_id \<Rightarrow> bool" where
  "less_eq_type_id a b \<longleftrightarrow> type_id_key a \<le> type_id_key b"
definition less_type_id :: "type_id \<Rightarrow> type_id \<Rightarrow> bool" where
  "less_type_id a b \<longleftrightarrow> type_id_key a < type_id_key b"
instance
  by standard (auto simp: less_eq_type_id_def less_type_id_def less_le_not_le dest: order_antisym)
end

instantiation sub_fact_id :: linorder
begin
definition less_eq_sub_fact_id :: "sub_fact_id \<Rightarrow> sub_fact_id \<Rightarrow> bool" where
  "less_eq_sub_fact_id a b \<longleftrightarrow> sub_fact_id_key a \<le> sub_fact_id_key b"
definition less_sub_fact_id :: "sub_fact_id \<Rightarrow> sub_fact_id \<Rightarrow> bool" where
  "less_sub_fact_id a b \<longleftrightarrow> sub_fact_id_key a < sub_fact_id_key b"
instance
  by standard (auto simp: less_eq_sub_fact_id_def less_sub_fact_id_def less_le_not_le dest: order_antisym)
end

instantiation schema_fact_id :: linorder
begin
definition less_eq_schema_fact_id :: "schema_fact_id \<Rightarrow> schema_fact_id \<Rightarrow> bool" where
  "less_eq_schema_fact_id a b \<longleftrightarrow> schema_fact_id_key a \<le> schema_fact_id_key b"
definition less_schema_fact_id :: "schema_fact_id \<Rightarrow> schema_fact_id \<Rightarrow> bool" where
  "less_schema_fact_id a b \<longleftrightarrow> schema_fact_id_key a < schema_fact_id_key b"
instance
  by standard (auto simp: less_eq_schema_fact_id_def less_schema_fact_id_def less_le_not_le dest: order_antisym)
end

end
