(* ===== verification/Schema_Facts.thy ===== *)
theory Schema_Facts
  imports Schema_Ids Canonical_Values
begin

text \<open>
  Schema facts and declared schemas, \<open>contract/src/schema.rs\<close>: the fact types with their validating
  constructors, the value sets and ranges of annotations, and \<open>DeclaredSchema::from_facts\<close> with its
  three whole-schema validations. Source spans only label diagnostics and are not kept. Encoding to
  canonical JSON and hashing are done by external crates: the identity fingerprint of a schema is a
  parameter \<open>identity_fp\<close> of \<open>from_facts\<close>, which may fail (the encoder has size limits).
\<close>

section \<open>Annotation payloads\<close>

definition MAX_CANONICAL_COLLECTION_LEN :: nat where
  "MAX_CANONICAL_COLLECTION_LEN = 65536"

datatype regex_pattern = RegexPattern (regex_text: string)

definition regex_pattern_new :: "string \<Rightarrow> regex_pattern res" where
  "regex_pattern_new s =
     (if s = [] \<or> MAX_CANONICAL_STRING_BYTES < length s
      then Inl (invalid_contract ''invalid_regex_annotation'') else Inr (RegexPattern s))"

datatype doc_text = DocText (doc_text_of: string)

definition doc_text_new :: "string \<Rightarrow> doc_text res" where
  "doc_text_new s =
     (if s = [] \<or> MAX_CANONICAL_STRING_BYTES < length s
      then Inl (invalid_contract ''invalid_doc_annotation'') else Inr (DocText s))"

datatype value_set_violation =
    EmptySet
  | MemberLimitExceeded nat nat
  | MixedSetDomain value_type_tag value_type_tag nat
  | Duplicate nat nat

text \<open>The loop of \<open>CanonicalValueSet::new_detailed\<close>: \<open>positions\<close> is the map of seen values to their
  index, kept as an association list since only lookups and the final key set are used.\<close>

fun value_set_loop :: "canonical_value list \<Rightarrow> nat \<Rightarrow> value_type_tag option \<Rightarrow>
    (canonical_value \<times> nat) list \<Rightarrow> value_set_violation + (canonical_value \<times> nat) list" where
  "value_set_loop [] i t positions = Inr positions"
| "value_set_loop (v # vs) i t positions =
     (if MAX_CANONICAL_COLLECTION_LEN \<le> i then Inl (MemberLimitExceeded MAX_CANONICAL_COLLECTION_LEN i)
      else
        (case t of
           Some expected \<Rightarrow>
             if expected \<noteq> value_type v then Inl (MixedSetDomain expected (value_type v) i)
             else (case map_of positions v of
                     Some first \<Rightarrow> Inl (Duplicate first i)
                   | None \<Rightarrow> value_set_loop vs (i + 1) t ((v, i) # positions))
         | None \<Rightarrow>
             (case map_of positions v of
                Some first \<Rightarrow> Inl (Duplicate first i)
              | None \<Rightarrow> value_set_loop vs (i + 1) (Some (value_type v)) ((v, i) # positions))))"

definition value_set_new :: "canonical_value list \<Rightarrow> value_set_violation + canonical_value fset" where
  "value_set_new vs =
     (case value_set_loop vs 0 None [] of
        Inl e \<Rightarrow> Inl e
      | Inr positions \<Rightarrow>
          if positions = [] then Inl EmptySet else Inr (fset_of_list (map fst positions)))"

record value_range =
  range_lower :: "canonical_value option"
  range_upper :: "canonical_value option"

datatype value_range_violation =
    EmptyRange
  | MixedRangeDomain value_type_tag value_type_tag
  | UnsupportedDomain value_type_tag
  | InvalidBounds ordering

text \<open>\<open>None\<close> where one of the two \<open>expect\<close> calls would panic.\<close>

definition value_range_new ::
  "canonical_value option \<Rightarrow> canonical_value option \<Rightarrow> (value_range_violation + value_range) option" where
  "value_range_new lower upper =
     (if lower = None \<and> upper = None then Some (Inl EmptyRange)
      else
        (case (lower, upper) of
           (Some l, Some u) \<Rightarrow>
             if value_type l \<noteq> value_type u then Some (Inl (MixedRangeDomain (value_type l) (value_type u)))
             else if value_type l = TagDuration then Some (Inl (UnsupportedDomain (value_type l)))
             else
               (case semantic_cmp_same_domain l u of
                  Some (Some o1) \<Rightarrow>
                    if o1 \<noteq> Less then Some (Inl (InvalidBounds o1))
                    else Some (Inr \<lparr>range_lower = lower, range_upper = upper\<rparr>)
                | _ \<Rightarrow> None)
         | _ \<Rightarrow>
             (case (case lower of Some l \<Rightarrow> Some l | None \<Rightarrow> upper) of
                None \<Rightarrow> None
              | Some b \<Rightarrow>
                  if value_type b = TagDuration then Some (Inl (UnsupportedDomain (value_type b)))
                  else Some (Inr \<lparr>range_lower = lower, range_upper = upper\<rparr>))))"

datatype schema_annotation_value =
    PayloadPresence
  | PayloadCardinality cardinality
  | PayloadRegex regex_pattern
  | PayloadRange value_range
  | PayloadValues "canonical_value fset"
  | PayloadDoc doc_text
  | PayloadMeta canonical_value

section \<open>Facts\<close>

fun value_type_tag_of :: "string \<Rightarrow> value_type_tag option" where
  "value_type_tag_of s =
     (if s = ''string'' then Some TagString
      else if s = ''integer'' then Some TagLong
      else if s = ''double'' then Some TagDouble
      else if s = ''boolean'' then Some TagBoolean
      else if s = ''date'' then Some TagDate
      else if s = ''datetime'' then Some TagDateTime
      else if s = ''datetime-tz'' then Some TagDateTimeTz
      else if s = ''decimal'' then Some TagDecimal
      else if s = ''duration'' then Some TagDuration
      else None)"

datatype collection_mode = Unordered | OrderedList

record value_fact =
  value_fact_id_of :: value_fact_id
  value_fact_type :: value_type_tag

record owns_fact =
  owns_fact_id_of :: owns_fact_id
  owns_collection_mode :: collection_mode

record relates_fact =
  relates_fact_id_of :: relates_fact_id
  relates_specializes :: "role_id option"
  relates_collection_mode :: collection_mode

record annotation_fact =
  annotation_fact_id_of :: annotation_fact_id
  annotation_value :: schema_annotation_value

datatype type_reference = RefValue value_type_tag | RefSchema label

record function_parameter =
  parameter_name :: label
  parameter_type_ref :: type_reference

record function_return_element =
  return_type_ref :: type_reference
  return_optional :: bool

datatype function_return_mode =
    ReturnScalar function_return_element
  | ReturnTuple "function_return_element list"
  | ReturnStream "function_return_element list"

record function_signature =
  signature_parameters :: "function_parameter list"
  signature_returns :: function_return_mode

record function_fact =
  function_fact_id_of :: function_id
  function_signature_of :: function_signature
  function_body :: string

record struct_field =
  field_name :: label
  field_value_type :: value_type_tag
  field_optional :: bool

record struct_fact =
  struct_fact_id_of :: struct_id
  struct_fields :: "struct_field list"

datatype schema_fact =
    FactType type_id
  | FactSub sub_fact_id
  | FactValue value_fact
  | FactOwns owns_fact
  | FactRelates relates_fact
  | FactPlays plays_fact_id
  | FactAnnotation annotation_fact
  | FactFunction function_fact
  | FactStruct struct_fact

fun fact_id :: "schema_fact \<Rightarrow> schema_fact_id" where
  "fact_id (FactType i) = IdType i"
| "fact_id (FactSub i) = IdSub i"
| "fact_id (FactValue f) = IdValue (value_fact_id_of f)"
| "fact_id (FactOwns f) = IdOwns (owns_fact_id_of f)"
| "fact_id (FactRelates f) = IdRelates (relates_fact_id_of f)"
| "fact_id (FactPlays i) = IdPlays i"
| "fact_id (FactAnnotation f) = IdAnnotation (annotation_fact_id_of f)"
| "fact_id (FactFunction f) = IdFunction (function_fact_id_of f)"
| "fact_id (FactStruct f) = IdStruct (struct_fact_id_of f)"

definition type_fact_new :: "type_id \<Rightarrow> schema_fact res" where
  "type_fact_new i =
     (if type_id_kind i = Struct then Inl (invalid_contract ''invalid_type_fact_kind'')
      else if value_type_tag_of (type_id_label i) \<noteq> None
      then Inl (invalid_contract ''reserved_schema_type_label'')
      else Inr (FactType i))"

definition relates_fact_new :: "relates_fact_id \<Rightarrow> role_id option \<Rightarrow> collection_mode \<Rightarrow> schema_fact res" where
  "relates_fact_new i spec mode =
     (if spec = Some (relates_role i) then Inl (invalid_contract ''self_specializing_role'')
      else Inr (FactRelates \<lparr>relates_fact_id_of = i, relates_specializes = spec,
                            relates_collection_mode = mode\<rparr>))"

fun return_elements :: "function_return_mode \<Rightarrow> function_return_element list" where
  "return_elements (ReturnScalar e) = [e]"
| "return_elements (ReturnTuple es) = es"
| "return_elements (ReturnStream es) = es"

fun schema_label :: "type_reference \<Rightarrow> label option" where
  "schema_label (RefValue _) = None"
| "schema_label (RefSchema l) = Some l"

definition return_tuple :: "function_return_element list \<Rightarrow> function_return_mode res" where
  "return_tuple es =
     (if \<not> (2 \<le> length es \<and> length es \<le> MAX_CANONICAL_COLLECTION_LEN)
      then Inl (invalid_contract ''invalid_function_tuple_return'') else Inr (ReturnTuple es))"

definition return_stream :: "function_return_element list \<Rightarrow> function_return_mode res" where
  "return_stream es =
     (if es = [] \<or> MAX_CANONICAL_COLLECTION_LEN < length es
      then Inl (invalid_contract ''invalid_function_stream_return'') else Inr (ReturnStream es))"

definition function_signature_new ::
  "function_parameter list \<Rightarrow> function_return_mode \<Rightarrow> function_signature res" where
  "function_signature_new ps r =
     (if MAX_CANONICAL_COLLECTION_LEN < length ps
      then Inl (Diagnostic ResourceLimit ''too_many_function_parameters'')
      else if \<not> distinct (map parameter_name ps)
      then Inl (invalid_contract ''duplicate_function_parameter'')
      else Inr \<lparr>signature_parameters = ps, signature_returns = r\<rparr>)"

definition schema_references :: "function_fact \<Rightarrow> label list" where
  "schema_references f =
     List.map_filter (\<lambda>p. schema_label (parameter_type_ref p))
       (signature_parameters (function_signature_of f))
     @ List.map_filter (\<lambda>e. schema_label (return_type_ref e))
         (return_elements (signature_returns (function_signature_of f)))"

definition struct_fact_new :: "struct_id \<Rightarrow> struct_field list \<Rightarrow> schema_fact res" where
  "struct_fact_new i fs =
     (if value_type_tag_of (struct_label i) \<noteq> None
      then Inl (invalid_contract ''reserved_schema_type_label'')
      else if fs = [] then Inl (invalid_contract ''empty_struct_fields'')
      else if MAX_CANONICAL_COLLECTION_LEN < length fs
      then Inl (Diagnostic ResourceLimit ''too_many_struct_fields'')
      else if \<not> distinct (map field_name fs)
      then Inl (invalid_contract ''duplicate_struct_field'')
      else Inr (FactStruct \<lparr>struct_fact_id_of = i, struct_fields = fs\<rparr>))"

section \<open>Annotation validation\<close>

fun annotation_payload_matches :: "annotation_kind_id \<Rightarrow> schema_annotation_value \<Rightarrow> bool" where
  "annotation_payload_matches Abstract v = (v = PayloadPresence)"
| "annotation_payload_matches Independent v = (v = PayloadPresence)"
| "annotation_payload_matches Key v = (v = PayloadPresence)"
| "annotation_payload_matches Unique v = (v = PayloadPresence)"
| "annotation_payload_matches Distinct v = (v = PayloadPresence)"
| "annotation_payload_matches Card v = (case v of PayloadCardinality _ \<Rightarrow> True | _ \<Rightarrow> False)"
| "annotation_payload_matches Regex v = (case v of PayloadRegex _ \<Rightarrow> True | _ \<Rightarrow> False)"
| "annotation_payload_matches Range v = (case v of PayloadRange _ \<Rightarrow> True | _ \<Rightarrow> False)"
| "annotation_payload_matches Values v = (case v of PayloadValues _ \<Rightarrow> True | _ \<Rightarrow> False)"
| "annotation_payload_matches Doc v = (case v of PayloadDoc _ \<Rightarrow> True | _ \<Rightarrow> False)"
| "annotation_payload_matches (Meta _) v =
     (case v of PayloadMeta (VString _) \<Rightarrow> True | _ \<Rightarrow> False)"

fun annotation_subject_matches :: "annotation_kind_id \<Rightarrow> annotation_subject_id \<Rightarrow> bool" where
  "annotation_subject_matches Abstract s =
     (case s of
        OnType i \<Rightarrow> type_id_kind i \<in> {Entity, Relation, Attribute}
      | OnRelates _ \<Rightarrow> True
      | _ \<Rightarrow> False)"
| "annotation_subject_matches Independent s =
     (case s of OnType i \<Rightarrow> type_id_kind i = Attribute | _ \<Rightarrow> False)"
| "annotation_subject_matches Key s = (case s of OnOwns _ \<Rightarrow> True | _ \<Rightarrow> False)"
| "annotation_subject_matches Unique s = (case s of OnOwns _ \<Rightarrow> True | _ \<Rightarrow> False)"
| "annotation_subject_matches Distinct s =
     (case s of OnOwns _ \<Rightarrow> True | OnRelates _ \<Rightarrow> True | _ \<Rightarrow> False)"
| "annotation_subject_matches Card s =
     (case s of OnOwns _ \<Rightarrow> True | OnRelates _ \<Rightarrow> True | OnPlays _ \<Rightarrow> True | _ \<Rightarrow> False)"
| "annotation_subject_matches Regex s = (case s of OnValue _ \<Rightarrow> True | OnOwns _ \<Rightarrow> True | _ \<Rightarrow> False)"
| "annotation_subject_matches Range s = (case s of OnValue _ \<Rightarrow> True | OnOwns _ \<Rightarrow> True | _ \<Rightarrow> False)"
| "annotation_subject_matches Values s = (case s of OnValue _ \<Rightarrow> True | OnOwns _ \<Rightarrow> True | _ \<Rightarrow> False)"
| "annotation_subject_matches Doc s = (case s of OnValue _ \<Rightarrow> False | _ \<Rightarrow> True)"
| "annotation_subject_matches (Meta _) s = (case s of OnValue _ \<Rightarrow> False | _ \<Rightarrow> True)"

definition validate_annotation ::
  "annotation_subject_id \<Rightarrow> annotation_kind_id \<Rightarrow> schema_annotation_value \<Rightarrow> unit res" where
  "validate_annotation subject kind v =
     (if \<not> annotation_payload_matches kind v then Inl (invalid_contract ''invalid_annotation_payload'')
      else if \<not> annotation_subject_matches kind subject
      then Inl (invalid_contract ''invalid_annotation_subject'')
      else Inr ())"

definition annotation_fact_new :: "annotation_fact_id \<Rightarrow> schema_annotation_value \<Rightarrow> schema_fact res" where
  "annotation_fact_new i v =
     bind_res (validate_annotation (annotation_subject i) (annotation_kind i) v) (\<lambda>_.
       Inr (FactAnnotation \<lparr>annotation_fact_id_of = i, annotation_value = v\<rparr>))"

section \<open>Declared schemas\<close>

type_synonym fact_map = "(schema_fact_id, schema_fact) fmap"

type_synonym fingerprint = string

definition fact_types :: "fact_map \<Rightarrow> type_id set" where
  "fact_types facts = {i. IdType i |\<in>| fmdom facts}"

definition facts_list :: "fact_map \<Rightarrow> schema_fact list" where
  "facts_list facts = fm_values facts"

text \<open>The attribute supertype found first in fact order, \<open>find_map\<close> over the \<open>Sub\<close> facts.\<close>

fun find_attribute_supertype :: "type_id \<Rightarrow> schema_fact list \<Rightarrow> type_id option" where
  "find_attribute_supertype t [] = None"
| "find_attribute_supertype t (f # fs) =
     (case f of
        FactSub s \<Rightarrow>
          if sub_subtype s = t \<and> type_id_kind (sub_supertype s) = Attribute
          then Some (sub_supertype s) else find_attribute_supertype t fs
      | _ \<Rightarrow> find_attribute_supertype t fs)"

definition supertype_ids :: "fact_map \<Rightarrow> type_id set" where
  "supertype_ids facts = {sub_supertype s | s. FactSub s \<in> set (facts_list facts)}"

lemma find_attribute_supertype_Some:
  "find_attribute_supertype t fs = Some u \<Longrightarrow>
   type_id_kind u = Attribute \<and> (\<exists>s. FactSub s \<in> set fs \<and> sub_supertype s = u \<and> sub_subtype s = t)"
  by (induction fs) (auto split: schema_fact.splits if_splits)

lemma finite_supertype_ids [simp]: "finite (supertype_ids facts)"
proof -
  have "supertype_ids facts \<subseteq> (\<lambda>f. case f of FactSub s \<Rightarrow> sub_supertype s | _ \<Rightarrow> undefined) ` set (facts_list facts)"
    by (force simp: supertype_ids_def)
  then show ?thesis by (rule finite_subset) simp
qed

definition declared_value_type :: "fact_map \<Rightarrow> attribute_id \<Rightarrow> value_type_tag option" where
  "declared_value_type facts a =
     (case fmlookup facts (IdValue (ValueFactId a)) of
        Some (FactValue v) \<Rightarrow> Some (value_fact_type v)
      | _ \<Rightarrow> None)"

definition chain_measure :: "fact_map \<Rightarrow> attribute_id \<Rightarrow> type_id fset \<Rightarrow> nat" where
  "chain_measure facts a visited =
     2 * card (supertype_ids facts - fset visited)
     + (if attribute_type_id a \<in> supertype_ids facts then 0 else 1)"

lemma chain_measure_decreases:
  assumes "attribute_type_id a |\<notin>| visited"
    and "find_attribute_supertype (attribute_type_id a) (facts_list facts) = Some u"
  shows "chain_measure facts (AttributeId (type_id_label u)) (finsert (attribute_type_id a) visited)
    < chain_measure facts a visited"
proof -
  have "type_id_kind u = Attribute" and u: "u \<in> supertype_ids facts"
    using find_attribute_supertype_Some [OF assms(2)] by (auto simp: supertype_ids_def)
  then have next_in: "attribute_type_id (AttributeId (type_id_label u)) \<in> supertype_ids facts"
    by (cases u) (simp add: attribute_type_id_def)
  show ?thesis
  proof (cases "attribute_type_id a \<in> supertype_ids facts")
    case True
    then have "card (supertype_ids facts - fset (finsert (attribute_type_id a) visited))
        < card (supertype_ids facts - fset visited)"
      using assms(1) by (intro psubset_card_mono) auto
    with next_in True show ?thesis by (simp add: chain_measure_def)
  next
    case False
    then have "supertype_ids facts - fset (finsert (attribute_type_id a) visited)
        = supertype_ids facts - fset visited" by auto
    with next_in False show ?thesis by (simp add: chain_measure_def)
  qed
qed

text \<open>The loop of \<open>annotation_subject_value_type\<close> from a given attribute: the first value
  declaration on the chain of attribute supertypes, stopping at a repeated attribute.\<close>

function attribute_value_type ::
  "fact_map \<Rightarrow> attribute_id \<Rightarrow> type_id fset \<Rightarrow> (value_type_tag \<times> schema_fact_id) option" where
  "attribute_value_type facts a visited =
     (if attribute_type_id a |\<in>| visited then None
      else
        (case declared_value_type facts a of
           Some tag \<Rightarrow> Some (tag, IdValue (ValueFactId a))
         | None \<Rightarrow>
             (case find_attribute_supertype (attribute_type_id a) (facts_list facts) of
                None \<Rightarrow> None
              | Some u \<Rightarrow> attribute_value_type facts (AttributeId (type_id_label u))
                            (finsert (attribute_type_id a) visited))))"
  by pat_completeness auto

termination
  by (relation "measure (\<lambda>(facts, a, visited). chain_measure facts a visited)")
     (auto intro: chain_measure_decreases)

declare attribute_value_type.simps [simp del]

fun annotation_subject_value_type ::
  "annotation_subject_id \<Rightarrow> fact_map \<Rightarrow> (value_type_tag \<times> schema_fact_id) option" where
  "annotation_subject_value_type (OnValue i) facts = attribute_value_type facts (value_attribute i) {||}"
| "annotation_subject_value_type (OnOwns i) facts = attribute_value_type facts (owns_attribute i) {||}"
| "annotation_subject_value_type _ facts = None"

definition annotation_domain_valid :: "annotation_kind_id \<Rightarrow> schema_annotation_value \<Rightarrow> value_type_tag \<Rightarrow> bool" where
  "annotation_domain_valid kind v tag =
     (case (kind, v) of
        (Key, _) \<Rightarrow> tag \<noteq> TagDouble
      | (Unique, _) \<Rightarrow> tag \<noteq> TagDouble
      | (Regex, PayloadRegex _) \<Rightarrow> tag = TagString
      | (Range, PayloadRange r) \<Rightarrow>
          tag \<noteq> TagDuration
          \<and> (case range_lower r of None \<Rightarrow> True | Some b \<Rightarrow> value_type b = tag)
          \<and> (case range_upper r of None \<Rightarrow> True | Some b \<Rightarrow> value_type b = tag)
      | (Values, PayloadValues vs) \<Rightarrow> fBall vs (\<lambda>x. value_type x = tag)
      | _ \<Rightarrow> False)"

text \<open>The diagnostics one fact contributes to \<open>validate_annotation_value_domains\<close>.\<close>

definition annotation_domain_errors :: "fact_map \<Rightarrow> schema_fact \<Rightarrow> diagnostic list" where
  "annotation_domain_errors facts sf =
     (case sf of
        FactAnnotation annotation \<Rightarrow>
          (let kind = annotation_kind (annotation_fact_id_of annotation) in
           if kind \<notin> {Key, Unique, Regex, Range, Values} then []
           else
             (case annotation_subject_value_type
                     (annotation_subject (annotation_fact_id_of annotation)) facts of
                None \<Rightarrow> [invalid_contract ''unknown_annotation_value_domain'']
              | Some (tag, _) \<Rightarrow>
                  if \<not> annotation_domain_valid kind (annotation_value annotation) tag
                  then [invalid_contract ''invalid_annotation_value_domain''] else []))
      | _ \<Rightarrow> [])"

definition validate_annotation_value_domains :: "fact_map \<Rightarrow> diagnostic list" where
  "validate_annotation_value_domains facts =
     concat (map (annotation_domain_errors facts) (facts_list facts))"

definition type_ids :: "fact_map \<Rightarrow> type_id list" where
  "type_ids facts = List.map_filter (\<lambda>i. case i of IdType t \<Rightarrow> Some t | _ \<Rightarrow> None) (fm_keys facts)"

definition role_ids :: "fact_map \<Rightarrow> role_id list" where
  "role_ids facts =
     List.map_filter (\<lambda>i. case i of IdRelates r \<Rightarrow> Some (relates_role r) | _ \<Rightarrow> None) (fm_keys facts)"

definition struct_labels :: "fact_map \<Rightarrow> label list" where
  "struct_labels facts =
     List.map_filter (\<lambda>i. case i of IdStruct s \<Rightarrow> Some (struct_label s) | _ \<Rightarrow> None) (fm_keys facts)"

definition references_valid :: "fact_map \<Rightarrow> schema_fact \<Rightarrow> bool" where
  "references_valid facts sf =
     (case sf of
        FactType _ \<Rightarrow> True
      | FactStruct _ \<Rightarrow> True
      | FactFunction f \<Rightarrow>
          list_all (\<lambda>l. list_ex (\<lambda>t. type_id_label t = l) (type_ids facts) \<or> l \<in> set (struct_labels facts))
            (schema_references f)
      | FactSub s \<Rightarrow> sub_subtype s \<in> set (type_ids facts) \<and> sub_supertype s \<in> set (type_ids facts)
      | FactValue v \<Rightarrow> attribute_type_id (value_attribute (value_fact_id_of v)) \<in> set (type_ids facts)
      | FactOwns w \<Rightarrow> owns_owner (owns_fact_id_of w) \<in> set (type_ids facts)
          \<and> attribute_type_id (owns_attribute (owns_fact_id_of w)) \<in> set (type_ids facts)
      | FactRelates r \<Rightarrow> relates_relation (relates_fact_id_of r) \<in> set (type_ids facts)
          \<and> (case relates_specializes r of None \<Rightarrow> True | Some role \<Rightarrow> role \<in> set (role_ids facts))
      | FactPlays p \<Rightarrow> plays_player p \<in> set (type_ids facts) \<and> plays_role p \<in> set (role_ids facts)
      | FactAnnotation a \<Rightarrow> subject_fact_id (annotation_subject (annotation_fact_id_of a)) |\<in>| fmdom facts)"

definition validate_references :: "fact_map \<Rightarrow> diagnostic list" where
  "validate_references facts =
     concat (map (\<lambda>sf. if references_valid facts sf then []
                        else [invalid_contract ''unknown_schema_fact_reference'']) (facts_list facts))"

text \<open>The annotation facts in fact order; their subjects in the order of \<open>by_subject\<close> and the kinds
  recorded for one subject. Fact ids sort by subject before kind, so the subjects met in fact order
  are already in the order of the map.\<close>

definition annotation_ids :: "fact_map \<Rightarrow> annotation_fact_id list" where
  "annotation_ids facts =
     List.map_filter (\<lambda>f. case f of FactAnnotation a \<Rightarrow> Some (annotation_fact_id_of a) | _ \<Rightarrow> None)
       (facts_list facts)"

definition kinds_of :: "fact_map \<Rightarrow> annotation_subject_id \<Rightarrow> annotation_kind_id list" where
  "kinds_of facts subject =
     map annotation_kind (filter (\<lambda>i. annotation_subject i = subject) (annotation_ids facts))"

definition ordered_collection :: "fact_map \<Rightarrow> annotation_subject_id \<Rightarrow> bool" where
  "ordered_collection facts subject =
     (case fmlookup facts (subject_fact_id subject) of
        Some (FactOwns w) \<Rightarrow> owns_collection_mode w = OrderedList
      | Some (FactRelates r) \<Rightarrow> relates_collection_mode r = OrderedList
      | _ \<Rightarrow> True)"

definition annotation_combination_errors :: "fact_map \<Rightarrow> annotation_subject_id \<Rightarrow> diagnostic list" where
  "annotation_combination_errors facts subject =
     (let kinds = kinds_of facts subject in
      (if Distinct \<in> set kinds \<and> \<not> ordered_collection facts subject
       then [invalid_contract ''distinct_requires_ordered_collection''] else [])
      @ (if Key \<in> set kinds \<and> (Unique \<in> set kinds \<or> Card \<in> set kinds)
         then [invalid_contract ''key_annotation_conflict''] else []))"

definition validate_annotation_combinations :: "fact_map \<Rightarrow> diagnostic list" where
  "validate_annotation_combinations facts =
     concat (map (annotation_combination_errors facts)
                 (remdups_adj (map annotation_subject (annotation_ids facts))))"

section \<open>Source spans\<close>

definition MAX_DOCUMENT_ID_BYTES :: nat where "MAX_DOCUMENT_ID_BYTES = 4096"

definition document_id_new :: "string \<Rightarrow> string res" where
  "document_id_new value =
     (if value = [] \<or> length value > MAX_DOCUMENT_ID_BYTES \<or> hd value = CHR ''/''
         \<or> CHR 0x5C \<in> set value \<or> CHR 0x00 \<in> set value
         \<or> \<not> list_all (\<lambda>seg. seg \<noteq> [] \<and> seg \<noteq> ''.'' \<and> seg \<noteq> ''..'') (split_on (CHR ''/'') value)
      then Inl (invalid_contract ''invalid_schema_document_id'') else Inr value)"

record source_span =
  span_document :: string
  span_byte_start :: nat
  span_byte_end :: nat
  span_line :: nat
  span_column :: nat
  span_end_line :: nat
  span_end_column :: nat

definition source_span_new :: "string \<Rightarrow> nat \<Rightarrow> nat \<Rightarrow> nat \<Rightarrow> nat \<Rightarrow> nat \<Rightarrow> nat \<Rightarrow> source_span res" where
  "source_span_new document byte_start byte_end line column end_line end_column =
     (if byte_start > byte_end \<or> line = 0 \<or> column = 0 \<or> end_line = 0 \<or> end_column = 0
         \<or> (end_line, end_column) < (line, column)
      then Inl (invalid_contract ''invalid_schema_source_span'')
      else Inr \<lparr>span_document = document, span_byte_start = byte_start, span_byte_end = byte_end, span_line = line,
                span_column = column, span_end_line = end_line, span_end_column = end_column\<rparr>)"

type_synonym span_map = "(schema_fact_id, source_span) fmap"

section \<open>Building a declared schema\<close>

text \<open>Collecting the facts: a repeated identity is a diagnostic and keeps the first fact and span.\<close>

fun collect_facts :: "(schema_fact \<times> source_span) list \<Rightarrow> fact_map \<Rightarrow> span_map \<Rightarrow> diagnostic list \<Rightarrow>
    fact_map \<times> span_map \<times> diagnostic list" where
  "collect_facts [] facts provenance ds = (facts, provenance, ds)"
| "collect_facts ((f, span) # fs) facts provenance ds =
     (if fact_id f |\<in>| fmdom provenance
      then collect_facts fs facts provenance (ds @ [invalid_contract ''duplicate_schema_fact''])
      else collect_facts fs (fmupd (fact_id f) f facts) (fmupd (fact_id f) span provenance) ds)"

record declared_schema =
  schema_format :: nat
  schema_required_capabilities :: capability_set
  schema_facts :: fact_map
  schema_provenance :: span_map
  schema_fingerprint :: fingerprint

type_synonym identity_fp = "nat \<Rightarrow> capability_set \<Rightarrow> fact_map \<Rightarrow> fingerprint res"

definition ensure_format_version :: "nat \<Rightarrow> nat \<Rightarrow> unit res" where
  "ensure_format_version actual supported =
     (if actual = supported then Inr () else Inl (invalid_contract ''unsupported_format_version''))"

definition from_facts :: "identity_fp \<Rightarrow> nat \<Rightarrow> capability_set \<Rightarrow> (schema_fact \<times> source_span) list \<Rightarrow>
    diagnostic list + declared_schema" where
  "from_facts identity_fp format capabilities sourced =
     (case ensure_format_version format 1 of
        Inl e \<Rightarrow> Inl [e]
      | Inr _ \<Rightarrow>
          (let (facts, provenance, duplicates) = collect_facts sourced fmempty fmempty [];
               ds = (if duplicates = []
                     then validate_references facts @ validate_annotation_combinations facts
                          @ validate_annotation_value_domains facts
                     else duplicates)
           in if ds \<noteq> [] then Inl ds
              else
                (case identity_fp format capabilities facts of
                   Inl e \<Rightarrow> Inl [e]
                 | Inr fp \<Rightarrow>
                     Inr \<lparr>schema_format = format, schema_required_capabilities = capabilities,
                          schema_facts = facts, schema_provenance = provenance, schema_fingerprint = fp\<rparr>)))"

section \<open>What an accepted declaration satisfies\<close>

definition facts_keyed :: "fact_map \<Rightarrow> bool" where
  "facts_keyed facts \<longleftrightarrow> (\<forall>i f. fmlookup facts i = Some f \<longrightarrow> fact_id f = i)"

definition facts_valid :: "fact_map \<Rightarrow> bool" where
  "facts_valid facts \<longleftrightarrow>
     validate_references facts = [] \<and> validate_annotation_combinations facts = []
     \<and> validate_annotation_value_domains facts = []"

definition insert_fact :: "schema_fact \<Rightarrow> fact_map \<Rightarrow> fact_map" where
  "insert_fact f facts = fmupd (fact_id f) f facts"

definition insert_span :: "schema_fact \<times> source_span \<Rightarrow> span_map \<Rightarrow> span_map" where
  "insert_span = (\<lambda>(f, span). fmupd (fact_id f) span)"

lemma collect_facts_eq:
  "collect_facts sourced facts provenance ds = (facts', provenance', ds') \<Longrightarrow>
   (ds' = ds \<longleftrightarrow> distinct (map (fact_id \<circ> fst) sourced) \<and> (\<forall>f \<in> set sourced. fact_id (fst f) |\<notin>| fmdom provenance))
   \<and> (\<exists>es. ds' = ds @ es)
   \<and> (ds' = ds \<longrightarrow> facts' = fold insert_fact (map fst sourced) facts \<and> provenance' = fold insert_span sourced provenance)"
proof (induction sourced facts provenance ds rule: collect_facts.induct)
  case (2 f span fs facts provenance ds)
  show ?case
  proof (cases "fact_id f |\<in>| fmdom provenance")
    case True
    with 2 have "\<exists>es. ds' = (ds @ [invalid_contract ''duplicate_schema_fact'']) @ es" by simp
    then have "ds' \<noteq> ds" "\<exists>es. ds' = ds @ es" by auto
    with True show ?thesis by simp
  next
    case False
    have dom: "(\<forall>g \<in> set fs. fact_id (fst g) |\<notin>| fmdom (fmupd (fact_id f) span provenance)) \<longleftrightarrow>
        fact_id f \<notin> (fact_id \<circ> fst) ` set fs \<and> (\<forall>g \<in> set fs. fact_id (fst g) |\<notin>| fmdom provenance)"
      by (auto simp: image_iff)
    note ih = 2(2) [OF False]
    show ?thesis
      using ih 2(3) False unfolding dom
      by (auto simp: insert_fact_def insert_span_def)
  qed
qed simp

lemma from_facts_iff:
  "from_facts identity_fp format capabilities sourced = Inr d \<longleftrightarrow>
     format = 1 \<and> distinct (map (fact_id \<circ> fst) sourced)
     \<and> facts_valid (schema_facts d)
     \<and> identity_fp format capabilities (schema_facts d) = Inr (schema_fingerprint d)
     \<and> d = \<lparr>schema_format = format, schema_required_capabilities = capabilities,
           schema_facts = fold insert_fact (map fst sourced) fmempty,
           schema_provenance = fold insert_span sourced fmempty, schema_fingerprint = schema_fingerprint d\<rparr>"
proof -
  obtain facts provenance ds where c: "collect_facts sourced fmempty fmempty [] = (facts, provenance, ds)"
    by (metis surj_pair)
  note eq = collect_facts_eq [OF c]
  show ?thesis
  proof (cases "ds = []")
    case True
    with eq have "facts = fold insert_fact (map fst sourced) fmempty" "provenance = fold insert_span sourced fmempty"
      "distinct (map (fact_id \<circ> fst) sourced)" by auto
    with True show ?thesis
      by (cases d) (auto simp: from_facts_def c ensure_format_version_def facts_valid_def split: sum.splits)
  next
    case False
    with eq have "\<not> distinct (map (fact_id \<circ> fst) sourced)" by auto
    with False show ?thesis by (auto simp: from_facts_def c ensure_format_version_def)
  qed
qed

lemma fold_insert_fact_lookup:
  "distinct (map fact_id fs) \<Longrightarrow>
   fmlookup (fold insert_fact fs facts) i =
     (case find (\<lambda>f. fact_id f = i) fs of Some f \<Rightarrow> Some f | None \<Rightarrow> fmlookup facts i)"
proof (induction fs arbitrary: facts)
  case (Cons f fs)
  then have "fact_id f = i \<Longrightarrow> find (\<lambda>f. fact_id f = i) fs = None"
    by (simp add: find_None_iff image_iff) metis
  with Cons show ?case by (auto simp: insert_fact_def split: option.splits)
qed simp

lemma insert_fact_keyed: "facts_keyed facts \<Longrightarrow> facts_keyed (insert_fact f facts)"
  by (simp add: insert_fact_def facts_keyed_def)

lemma fold_insert_keyed: "facts_keyed facts \<Longrightarrow> facts_keyed (fold insert_fact fs facts)"
  by (induction fs arbitrary: facts) (simp_all add: insert_fact_keyed)

lemma fold_insert_fact_dom: "fmdom (fold insert_fact fs facts) = fset_of_list (map fact_id fs) |\<union>| fmdom facts"
  by (induction fs arbitrary: facts) (auto simp: insert_fact_def)

lemma fold_insert_span_dom:
  "fmdom (fold insert_span sourced provenance) = fset_of_list (map (fact_id \<circ> fst) sourced) |\<union>| fmdom provenance"
  by (induction sourced arbitrary: provenance) (auto simp: insert_span_def)

lemma from_facts_wf:
  assumes "from_facts identity_fp format capabilities sourced = Inr d"
  shows "facts_keyed (schema_facts d)" and "fmdom (schema_provenance d) = fmdom (schema_facts d)"
    and "facts_valid (schema_facts d)"
proof -
  note d = assms [unfolded from_facts_iff]
  then have f: "schema_facts d = fold insert_fact (map fst sourced) fmempty"
    "schema_provenance d = fold insert_span sourced fmempty"
    by (metis declared_schema.select_convs(3), metis declared_schema.select_convs(4))
  show "facts_keyed (schema_facts d)" unfolding f by (rule fold_insert_keyed) (simp add: facts_keyed_def)
  show "fmdom (schema_provenance d) = fmdom (schema_facts d)"
    unfolding f fold_insert_fact_dom fold_insert_span_dom by (simp add: comp_def)
  show "facts_valid (schema_facts d)" using d by blast
qed

end
