(* ===== verification/Tarjan.thy ===== *)
theory Tarjan
  imports Prelude
begin

text \<open>
  Tarjan's strongly connected components as the schema crate writes it
  (\<open>schema/src/delta_dependencies.rs\<close>, \<open>strongly_connected_components\<close> with its inner \<open>visit\<close>).
  The state is the source's struct; its stack is a list with the top at the head. The recursion is
  bounded by fuel, and \<open>None\<close> stands for running out of fuel and for every \<open>expect\<close> and index
  operation of the source that would panic. The locale \<open>digraph\<close> is the interface the client
  supplies (a finite node set closed under the neighbour function); inside it the search is shown to
  need no more fuel than there are nodes, never to panic, and to return the strongly connected
  components with dependencies first.
\<close>

section \<open>The algorithm\<close>

record 'a tarjan =
  tj_next_index :: nat
  tj_stack :: "'a list"
  tj_on_stack :: "'a fset"
  tj_indices :: "('a, nat) fmap"
  tj_lowlinks :: "('a, nat) fmap"
  tj_components :: "'a list list"

definition tarjan_init :: "'a tarjan" where
  "tarjan_init = \<lparr>tj_next_index = 0, tj_stack = [], tj_on_stack = {||}, tj_indices = fmempty,
     tj_lowlinks = fmempty, tj_components = []\<rparr>"

definition tarjan_push :: "'a \<Rightarrow> 'a tarjan \<Rightarrow> 'a tarjan" where
  "tarjan_push node s =
     (let index = tj_next_index s in
      s\<lparr>tj_next_index := index + 1,
        tj_indices := fmupd node index (tj_indices s),
        tj_lowlinks := fmupd node index (tj_lowlinks s),
        tj_stack := node # tj_stack s,
        tj_on_stack := finsert node (tj_on_stack s)\<rparr>)"

text \<open>\<open>let lowlink = lowlinks.get_mut(&node).expect(..); *lowlink = (*lowlink).min(value)\<close>\<close>

definition lower_link :: "'a \<Rightarrow> nat \<Rightarrow> 'a tarjan \<Rightarrow> 'a tarjan option" where
  "lower_link node value s =
     (case fmlookup (tj_lowlinks s) node of
        None \<Rightarrow> None
      | Some l \<Rightarrow> Some (s\<lparr>tj_lowlinks := fmupd node (min l value) (tj_lowlinks s)\<rparr>))"

text \<open>The popping loop: pop until \<open>node\<close> has been popped.\<close>

fun pop_component :: "'a \<Rightarrow> 'a list \<Rightarrow> 'a fset \<Rightarrow> 'a list \<Rightarrow> ('a list \<times> 'a fset \<times> 'a list) option" where
  "pop_component node [] on_stack component = None"
| "pop_component node (member # stack) on_stack component =
     (let on_stack' = on_stack |-| {|member|}; component' = component @ [member] in
      if member = node then Some (stack, on_stack', component')
      else pop_component node stack on_stack' component')"

definition tarjan_finish :: "'a::linorder \<Rightarrow> 'a tarjan \<Rightarrow> 'a tarjan option" where
  "tarjan_finish node s =
     (case (fmlookup (tj_lowlinks s) node, fmlookup (tj_indices s) node) of
        (Some l, Some i) \<Rightarrow>
          if l = i then
            (case pop_component node (tj_stack s) (tj_on_stack s) [] of
               None \<Rightarrow> None
             | Some (stack, on_stack, component) \<Rightarrow>
                 Some (s\<lparr>tj_stack := stack, tj_on_stack := on_stack,
                         tj_components := tj_components s @ [sort component]\<rparr>))
          else Some s
      | _ \<Rightarrow> None)"

fun tarjan_visit :: "('a::linorder \<Rightarrow> 'a list) \<Rightarrow> nat \<Rightarrow> 'a \<Rightarrow> 'a tarjan \<Rightarrow> 'a tarjan option"
  and tarjan_neighbors :: "('a \<Rightarrow> 'a list) \<Rightarrow> nat \<Rightarrow> 'a \<Rightarrow> 'a list \<Rightarrow> 'a tarjan \<Rightarrow> 'a tarjan option" where
  "tarjan_visit nbrs 0 node s = None"
| "tarjan_visit nbrs (Suc fuel) node s =
     Option.bind (tarjan_neighbors nbrs fuel node (nbrs node) (tarjan_push node s)) (tarjan_finish node)"
| "tarjan_neighbors nbrs fuel node [] s = Some s"
| "tarjan_neighbors nbrs fuel node (n # ns) s =
     (if n |\<notin>| fmdom (tj_indices s) then
        Option.bind (tarjan_visit nbrs fuel n s) (\<lambda>s1.
        Option.bind (fmlookup (tj_lowlinks s1) n) (\<lambda>l.
        Option.bind (lower_link node l s1) (\<lambda>s2. tarjan_neighbors nbrs fuel node ns s2)))
      else if n |\<in>| tj_on_stack s then
        Option.bind (fmlookup (tj_indices s) n) (\<lambda>i.
        Option.bind (lower_link node i s) (\<lambda>s2. tarjan_neighbors nbrs fuel node ns s2))
      else tarjan_neighbors nbrs fuel node ns s)"

fun tarjan_roots :: "('a::linorder \<Rightarrow> 'a list) \<Rightarrow> nat \<Rightarrow> 'a list \<Rightarrow> 'a tarjan \<Rightarrow> 'a tarjan option" where
  "tarjan_roots nbrs fuel [] s = Some s"
| "tarjan_roots nbrs fuel (n # ns) s =
     (if n |\<notin>| fmdom (tj_indices s)
      then Option.bind (tarjan_visit nbrs fuel n s) (tarjan_roots nbrs fuel ns)
      else tarjan_roots nbrs fuel ns s)"

definition scc_components :: "('a::linorder \<Rightarrow> 'a list) \<Rightarrow> nat \<Rightarrow> 'a fset \<Rightarrow> 'a list list option" where
  "scc_components nbrs fuel nodes =
     map_option tj_components (tarjan_roots nbrs fuel (sorted_list_of_fset nodes) tarjan_init)"

section \<open>What a component list promises\<close>

text \<open>Every edge leads into the same or an earlier block.\<close>

definition blocks_closed :: "('a \<Rightarrow> 'a list) \<Rightarrow> 'a list list \<Rightarrow> bool" where
  "blocks_closed nbrs cs \<longleftrightarrow>
     (\<forall>i < length cs. \<forall>x \<in> set (cs ! i). set (nbrs x) \<subseteq> \<Union> (set ` set (take (Suc i) cs)))"

definition reaches :: "('a \<Rightarrow> 'a list) \<Rightarrow> 'a \<Rightarrow> 'a \<Rightarrow> bool" where
  "reaches nbrs = (\<lambda>x y. y \<in> set (nbrs x))\<^sup>*\<^sup>*"

definition blocks_connected :: "('a \<Rightarrow> 'a list) \<Rightarrow> 'a list list \<Rightarrow> bool" where
  "blocks_connected nbrs cs \<longleftrightarrow> (\<forall>c \<in> set cs. c \<noteq> [] \<and> (\<forall>x \<in> set c. \<forall>y \<in> set c. reaches nbrs x y))"

text \<open>The specification of the search.\<close>

definition is_scc_order :: "('a::linorder \<Rightarrow> 'a list) \<Rightarrow> 'a set \<Rightarrow> 'a list list \<Rightarrow> bool" where
  "is_scc_order nbrs nodes cs \<longleftrightarrow>
     distinct (concat cs) \<and> set (concat cs) = nodes \<and> (\<forall>c \<in> set cs. sorted c)
     \<and> blocks_connected nbrs cs \<and> blocks_closed nbrs cs"

section \<open>Invariants of the search\<close>

definition tj_dom :: "'a tarjan \<Rightarrow> 'a set" where
  "tj_dom s = fset (fmdom (tj_indices s))"

definition tj_index :: "'a tarjan \<Rightarrow> 'a \<Rightarrow> nat" where
  "tj_index s x = the (fmlookup (tj_indices s) x)"

text \<open>Consistency of the state's fields.\<close>

definition tj_consistent :: "'a::linorder set \<Rightarrow> 'a tarjan \<Rightarrow> bool" where
  "tj_consistent nodes s \<longleftrightarrow>
     tj_dom s \<subseteq> nodes
     \<and> fmdom (tj_lowlinks s) = fmdom (tj_indices s)
     \<and> tj_on_stack s = fset_of_list (tj_stack s)
     \<and> distinct (tj_stack s @ concat (tj_components s))
     \<and> set (tj_stack s) \<union> set (concat (tj_components s)) = tj_dom s
     \<and> (\<forall>x \<in> tj_dom s. tj_index s x < tj_next_index s)
     \<and> sorted_wrt (\<lambda>x y. tj_index s y < tj_index s x) (tj_stack s)"

text \<open>The search invariant; \<open>g\<close> are the nodes whose visit has not returned.\<close>

definition tj_inv :: "('a::linorder \<Rightarrow> 'a list) \<Rightarrow> 'a set \<Rightarrow> 'a set \<Rightarrow> 'a tarjan \<Rightarrow> bool" where
  "tj_inv nbrs nodes g s \<longleftrightarrow>
     tj_consistent nodes s
     \<and> g \<subseteq> set (tj_stack s)
     \<and> (\<forall>x \<in> tj_dom s - g. set (nbrs x) \<subseteq> tj_dom s)
     \<and> (\<forall>x \<in> g. \<forall>y \<in> set (tj_stack s). tj_index s x \<le> tj_index s y \<longrightarrow> reaches nbrs x y)
     \<and> (\<forall>y \<in> set (tj_stack s). \<exists>x \<in> g. tj_index s x \<le> tj_index s y \<and> reaches nbrs y x)
     \<and> (\<forall>c \<in> set (tj_components s). sorted c)
     \<and> blocks_connected nbrs (tj_components s)
     \<and> blocks_closed nbrs (tj_components s)"

text \<open>What a finished sub-search leaves of the state it started from, apart from the stack.\<close>

definition tj_frame :: "'a tarjan \<Rightarrow> 'a tarjan \<Rightarrow> bool" where
  "tj_frame s t \<longleftrightarrow>
     tj_dom s \<subseteq> tj_dom t
     \<and> (\<forall>x \<in> tj_dom s. fmlookup (tj_indices t) x = fmlookup (tj_indices s) x
          \<and> fmlookup (tj_lowlinks t) x = fmlookup (tj_lowlinks s) x)
     \<and> (\<forall>x \<in> tj_dom t - tj_dom s. tj_next_index s \<le> tj_index t x)
     \<and> tj_next_index s \<le> tj_next_index t
     \<and> (\<exists>cs. tj_components t = tj_components s @ cs)"

text \<open>The result of a visit of \<open>v\<close>: \<open>new\<close> is what it left on the stack, \<open>L\<close> the low link of \<open>v\<close>.\<close>

definition visit_post ::
  "('a::linorder \<Rightarrow> 'a list) \<Rightarrow> 'a set \<Rightarrow> 'a set \<Rightarrow> 'a \<Rightarrow> 'a tarjan \<Rightarrow> 'a tarjan \<Rightarrow> bool" where
  "visit_post nbrs nodes g v s t \<longleftrightarrow>
     tj_inv nbrs nodes g t \<and> tj_frame s t \<and> v \<in> tj_dom t
     \<and> (\<exists>new L. tj_stack t = new @ tj_stack s \<and> fmlookup (tj_lowlinks t) v = Some L
          \<and> (if new = [] then tj_next_index s \<le> L
             else \<exists>y \<in> set (tj_stack s). reaches nbrs v y \<and> tj_index s y = L)
          \<and> (\<forall>x \<in> set new. \<forall>y \<in> set (nbrs x) \<inter> set (tj_stack s). L \<le> tj_index s y))"

text \<open>The loop over the neighbours of \<open>v\<close>, started from \<open>s0\<close> by pushing \<open>v\<close>, after the
  neighbours in \<open>D\<close>.\<close>

definition loop_inv ::
  "('a::linorder \<Rightarrow> 'a list) \<Rightarrow> 'a set \<Rightarrow> 'a set \<Rightarrow> 'a \<Rightarrow> 'a tarjan \<Rightarrow> 'a set \<Rightarrow> 'a tarjan \<Rightarrow> bool" where
  "loop_inv nbrs nodes g v s0 D s \<longleftrightarrow>
     tj_inv nbrs nodes (insert v g) s \<and> tj_frame s0 s \<and> D \<subseteq> tj_dom s
     \<and> fmlookup (tj_indices s) v = Some (tj_next_index s0)
     \<and> (\<exists>new L. tj_stack s = new @ v # tj_stack s0 \<and> fmlookup (tj_lowlinks s) v = Some L
          \<and> (\<exists>y \<in> set (v # tj_stack s0). reaches nbrs v y \<and> tj_index s y = L)
          \<and> (\<forall>x \<in> set new. \<forall>y \<in> set (nbrs x) \<inter> set (tj_stack s0). L \<le> tj_index s y)
          \<and> (\<forall>y \<in> D \<inter> set (tj_stack s0). L \<le> tj_index s y))"

section \<open>Generic lemmas\<close>

lemma reaches_refl [simp, intro]: "reaches nbrs x x"
  by (simp add: reaches_def)

lemma reaches_step: "y \<in> set (nbrs x) \<Longrightarrow> reaches nbrs x y"
  by (simp add: reaches_def r_into_rtranclp)

lemma reaches_trans [trans]: "reaches nbrs x y \<Longrightarrow> reaches nbrs y z \<Longrightarrow> reaches nbrs x z"
  by (simp add: reaches_def)

lemma reaches_closed:
  assumes "reaches nbrs x y" "x \<in> A" "\<And>z. z \<in> A \<Longrightarrow> set (nbrs z) \<subseteq> A"
  shows "y \<in> A"
  using assms(1) unfolding reaches_def
  by (induction rule: rtranclp_induct) (use assms in auto)

lemma blocks_closed_snoc:
  "blocks_closed nbrs (cs @ [c]) \<longleftrightarrow>
     blocks_closed nbrs cs \<and> (\<forall>x \<in> set c. set (nbrs x) \<subseteq> set c \<union> set (concat cs))"
proof -
  have take: "take (Suc i) (cs @ [c]) = take (Suc i) cs" if "i < length cs" for i using that by simp
  show ?thesis
    by (simp add: blocks_closed_def less_Suc_eq all_conj_distrib nth_append take cong: conj_cong)
       (auto simp: nth_append)
qed

lemma blocks_closed_union:
  assumes "blocks_closed nbrs cs" "x \<in> set (concat cs)"
  shows "set (nbrs x) \<subseteq> set (concat cs)"
proof -
  obtain c where "c \<in> set cs" "x \<in> set c" using assms(2) by auto
  then obtain i where "i < length cs" "x \<in> set (cs ! i)" by (metis in_set_conv_nth)
  then have "set (nbrs x) \<subseteq> \<Union> (set ` set (take (Suc i) cs))" using assms(1) by (auto simp: blocks_closed_def)
  also have "\<dots> \<subseteq> set (concat cs)" by (auto dest: in_set_takeD)
  finally show ?thesis .
qed

lemma pop_component_spec:
  assumes "v \<notin> set new"
  shows "pop_component v (new @ v # rest) os acc = Some (rest, os |-| fset_of_list (new @ [v]), acc @ new @ [v])"
  using assms
proof (induction new arbitrary: os acc)
  case (Cons m new)
  have "os |-| {|m|} |-| fset_of_list (new @ [v]) = os |-| fset_of_list ((m # new) @ [v])"
    by (auto simp: fset_eq_iff fset_of_list_elem)
  moreover have "m \<noteq> v" using Cons.prems by auto
  ultimately show ?case using Cons by (simp add: Let_def)
qed (simp add: Let_def)

lemma tj_index_lookup: "x \<in> tj_dom s \<Longrightarrow> fmlookup (tj_indices s) x = Some (tj_index s x)"
  by (auto simp: tj_dom_def tj_index_def fmlookup_dom_iff)

lemma tj_frame_index: "tj_frame s t \<Longrightarrow> x \<in> tj_dom s \<Longrightarrow> tj_index t x = tj_index s x"
  by (auto simp: tj_frame_def tj_index_def)

lemma tj_frame_trans: "tj_frame s t \<Longrightarrow> tj_frame t u \<Longrightarrow> tj_frame s u"
  unfolding tj_frame_def tj_index_def
  by (auto; (metis (no_types, lifting) Diff_iff le_trans subsetD)?)

lemma stack_suffix_index:
  assumes "tj_consistent nodes s" "tj_stack s = new @ old" "x \<in> set new" "y \<in> set old"
  shows "tj_index s y < tj_index s x"
  using assms by (auto simp: tj_consistent_def sorted_wrt_append)

lemma stack_dom: "tj_consistent nodes s \<Longrightarrow> set (tj_stack s) \<subseteq> tj_dom s"
  by (auto simp: tj_consistent_def)

section \<open>Pushing a node\<close>

lemma tarjan_push_simps [simp]:
  "tj_next_index (tarjan_push v s) = Suc (tj_next_index s)"
  "tj_stack (tarjan_push v s) = v # tj_stack s"
  "tj_on_stack (tarjan_push v s) = finsert v (tj_on_stack s)"
  "tj_indices (tarjan_push v s) = fmupd v (tj_next_index s) (tj_indices s)"
  "tj_lowlinks (tarjan_push v s) = fmupd v (tj_next_index s) (tj_lowlinks s)"
  "tj_components (tarjan_push v s) = tj_components s"
  by (simp_all add: tarjan_push_def Let_def)

lemma tj_dom_push [simp]: "tj_dom (tarjan_push v s) = insert v (tj_dom s)"
  by (auto simp: tj_dom_def)

lemma tj_index_push: "tj_index (tarjan_push v s) x = (if x = v then tj_next_index s else tj_index s x)"
  by (simp add: tj_index_def)

lemma tj_consistentD:
  assumes "tj_consistent nodes s"
  shows "tj_dom s \<subseteq> nodes" "fmdom (tj_lowlinks s) = fmdom (tj_indices s)"
    "tj_on_stack s = fset_of_list (tj_stack s)" "distinct (tj_stack s @ concat (tj_components s))"
    "set (tj_stack s) \<union> set (concat (tj_components s)) = tj_dom s"
    "x \<in> tj_dom s \<Longrightarrow> tj_index s x < tj_next_index s"
    "sorted_wrt (\<lambda>x y. tj_index s y < tj_index s x) (tj_stack s)"
  using assms unfolding tj_consistent_def by blast+

lemma push_consistent:
  assumes "tj_consistent nodes s" "v \<in> nodes" "v \<notin> tj_dom s"
  shows "tj_consistent nodes (tarjan_push v s)"
proof -
  note con = tj_consistentD [OF assms(1)] and dom = stack_dom [OF assms(1)]
  have fresh: "v \<notin> set (tj_stack s)" "v \<notin> set (concat (tj_components s))"
    using con(5) assms(3) by blast+
  have index: "tj_index (tarjan_push v s) x = tj_index s x" if "x \<in> tj_dom s" for x
    using that assms(3) by (auto simp: tj_index_push)
  have "sorted_wrt (\<lambda>x y. tj_index (tarjan_push v s) y < tj_index (tarjan_push v s) x) (tj_stack s)"
    using con(7) by (rule sorted_wrt_mono_rel [rotated]) (use dom index in \<open>simp add: subset_iff\<close>)
  moreover have "\<forall>y \<in> set (tj_stack s). tj_index (tarjan_push v s) y < tj_index (tarjan_push v s) v"
    using con(6) dom index by (simp add: tj_index_push subset_iff)
  moreover have "\<forall>x \<in> tj_dom (tarjan_push v s). tj_index (tarjan_push v s) x < Suc (tj_next_index s)"
    using con(6) by (auto simp: tj_index_push less_Suc_eq)
  moreover have "distinct (v # tj_stack s @ concat (tj_components s))" using con(4) fresh by simp
  moreover have "set (v # tj_stack s) \<union> set (concat (tj_components s)) = insert v (tj_dom s)"
    using con(5) by (metis Un_insert_left list.simps(15))
  ultimately show ?thesis
    using con(1-3) assms(2) unfolding tj_consistent_def by simp
qed

lemma push_inv:
  assumes "tj_inv nbrs nodes g s" "v \<in> nodes" "v \<notin> tj_dom s" "\<forall>x \<in> g. reaches nbrs x v"
  shows "loop_inv nbrs nodes g v s {} (tarjan_push v s)"
proof -
  let ?t = "tarjan_push v s"
  have con: "tj_consistent nodes s" and inv: "g \<subseteq> set (tj_stack s)"
    "\<forall>x \<in> tj_dom s - g. set (nbrs x) \<subseteq> tj_dom s"
    "\<forall>x \<in> g. \<forall>y \<in> set (tj_stack s). tj_index s x \<le> tj_index s y \<longrightarrow> reaches nbrs x y"
    "\<forall>y \<in> set (tj_stack s). \<exists>x \<in> g. tj_index s x \<le> tj_index s y \<and> reaches nbrs y x"
    using assms(1) unfolding tj_inv_def by blast+
  note dom = stack_dom [OF con]
  have index: "tj_index ?t x = tj_index s x" if "x \<in> tj_dom s" for x
    using that assms(3) by (auto simp: tj_index_push)
  have v: "tj_index ?t v = tj_next_index s" by (simp add: tj_index_push)
  have top: "tj_index ?t x < tj_index ?t v" if "x \<in> set (tj_stack s)" for x
    using that dom tj_consistentD(6) [OF con] index v by fastforce
  have "\<forall>x \<in> insert v g. \<forall>y \<in> set (tj_stack ?t). tj_index ?t x \<le> tj_index ?t y \<longrightarrow> reaches nbrs x y"
  proof (intro ballI impI)
    fix x y assume x: "x \<in> insert v g" and y: "y \<in> set (tj_stack ?t)" and le: "tj_index ?t x \<le> tj_index ?t y"
    show "reaches nbrs x y"
    proof (cases "y = v")
      case True
      with x assms(4) show ?thesis by auto
    next
      case False
      with y have y': "y \<in> set (tj_stack s)" by simp
      with le top have "x \<noteq> v" by (metis leD)
      with x have "x \<in> g" by simp
      with y' le index inv(1,3) dom show ?thesis by (metis subsetD)
    qed
  qed
  moreover have "\<forall>y \<in> set (tj_stack ?t). \<exists>x \<in> insert v g. tj_index ?t x \<le> tj_index ?t y \<and> reaches nbrs y x"
    using inv(1,4) index dom by (metis insertCI insertE list.simps(15) order_refl reaches_refl subsetD
        tarjan_push_simps(2))
  moreover have "\<forall>x \<in> tj_dom ?t - insert v g. set (nbrs x) \<subseteq> tj_dom ?t" using inv(2) by auto
  ultimately have "tj_inv nbrs nodes (insert v g) ?t"
    using assms(1) push_consistent [OF con assms(2,3)] inv(1) unfolding tj_inv_def by auto
  moreover have "tj_frame s ?t"
    using assms(3) by (auto simp: tj_frame_def tj_index_push tj_dom_def)
  ultimately show ?thesis unfolding loop_inv_def by (simp add: v)
qed

section \<open>Finishing a node\<close>

lemma tj_invD:
  assumes "tj_inv nbrs nodes g s"
  shows "tj_consistent nodes s" "g \<subseteq> set (tj_stack s)"
    "x \<in> tj_dom s \<Longrightarrow> x \<notin> g \<Longrightarrow> set (nbrs x) \<subseteq> tj_dom s"
    "x \<in> g \<Longrightarrow> y \<in> set (tj_stack s) \<Longrightarrow> tj_index s x \<le> tj_index s y \<Longrightarrow> reaches nbrs x y"
    "y \<in> set (tj_stack s) \<Longrightarrow> \<exists>x \<in> g. tj_index s x \<le> tj_index s y \<and> reaches nbrs y x"
    "\<forall>c \<in> set (tj_components s). sorted c" "blocks_connected nbrs (tj_components s)"
    "blocks_closed nbrs (tj_components s)"
  using assms unfolding tj_inv_def by blast+

text \<open>The root case: the popped block is a closed, strongly connected set.\<close>

lemma popped_block:
  assumes inv: "tj_inv nbrs nodes (insert v g) s"
    and stack: "tj_stack s = new @ v # old" and g: "g \<subseteq> set old"
    and nbrs: "set (nbrs v) \<subseteq> tj_dom s"
    and no_new: "\<forall>x \<in> set new. set (nbrs x) \<inter> set old = {}" and no_v: "set (nbrs v) \<inter> set old = {}"
  shows "\<forall>x \<in> set (new @ [v]). set (nbrs x) \<subseteq> set (new @ [v]) \<union> set (concat (tj_components s))"
    and "\<forall>x \<in> set (new @ [v]). \<forall>y \<in> set (new @ [v]). reaches nbrs x y"
proof -
  note con = tj_consistentD [OF tj_invD(1) [OF inv]]
  have disj: "set (new @ [v]) \<inter> set old = {}" using con(4) stack by auto
  have dom: "tj_dom s = set (new @ [v]) \<union> set old \<union> set (concat (tj_components s))"
    using con(5) stack by auto
  show closed: "\<forall>x \<in> set (new @ [v]). set (nbrs x) \<subseteq> set (new @ [v]) \<union> set (concat (tj_components s))"
  proof
    fix x assume x: "x \<in> set (new @ [v])"
    have "set (nbrs x) \<subseteq> tj_dom s"
    proof (cases "x = v")
      case False
      moreover have "x \<notin> g" "x \<in> tj_dom s" using x g disj dom by blast+
      ultimately show ?thesis using tj_invD(3) [OF inv, of x] by simp
    qed (simp add: nbrs)
    moreover have "set (nbrs x) \<inter> set old = {}" using x no_new no_v by auto
    ultimately show "set (nbrs x) \<subseteq> set (new @ [v]) \<union> set (concat (tj_components s))" using dom by blast
  qed
  have to_v: "reaches nbrs x v" if x: "x \<in> set (new @ [v])" for x
  proof -
    obtain z where z: "z \<in> insert v g" "reaches nbrs x z"
      using tj_invD(5) [OF inv, of x] x stack by auto
    let ?A = "set (new @ [v]) \<union> set (concat (tj_components s))"
    have "z \<in> ?A"
      using z(2) by (rule reaches_closed) (use x closed blocks_closed_union [OF tj_invD(8) [OF inv]] in auto)
    moreover have "z \<notin> set (concat (tj_components s))"
      using z(1) g con(4) stack by auto
    ultimately have "z = v" using z(1) g disj by auto
    with z show ?thesis by simp
  qed
  have from_v: "reaches nbrs v y" if y: "y \<in> set (new @ [v])" for y
  proof (cases "y = v")
    case False
    with y have "y \<in> set new" by simp
    then have "tj_index s v < tj_index s y"
      using stack_suffix_index [OF tj_invD(1) [OF inv] stack] by simp
    then show ?thesis using tj_invD(4) [OF inv, of v y] y stack by auto
  qed simp
  show "\<forall>x \<in> set (new @ [v]). \<forall>y \<in> set (new @ [v]). reaches nbrs x y"
    by (intro ballI) (rule reaches_trans [OF to_v from_v])
qed

lemma pop_consistent:
  assumes con: "tj_consistent nodes s" and stack: "tj_stack s = new @ v # old"
    and t: "t = s\<lparr>tj_stack := old, tj_on_stack := tj_on_stack s |-| fset_of_list (new @ [v]),
                  tj_components := tj_components s @ [sort (new @ [v])]\<rparr>"
  shows "tj_consistent nodes t" "tj_dom t = tj_dom s" "tj_index t x = tj_index s x"
proof -
  note c = tj_consistentD [OF con]
  show dom: "tj_dom t = tj_dom s" and index: "tj_index t x = tj_index s x" for x
    by (simp_all add: t tj_dom_def tj_index_def)
  have dist: "distinct (new @ v # old)" "set (new @ v # old) \<inter> set (concat (tj_components s)) = {}"
    using c(4) unfolding stack by (simp_all add: distinct_append) blast+
  have "tj_on_stack t = fset_of_list old"
    using dist c(3) stack by (auto simp: t fset_eq_iff fset_of_list_elem)
  moreover have "distinct (old @ concat (tj_components t))"
    using dist c(4) stack by (auto simp: t)
  moreover have "set old \<union> set (concat (tj_components t)) = tj_dom s"
    using c(5) stack by (auto simp: t)
  moreover have "sorted_wrt (\<lambda>x y. tj_index s y < tj_index s x) old"
    using c(7) stack by (simp add: sorted_wrt_append)
  ultimately show "tj_consistent nodes t"
    using c(1,2,6) unfolding tj_consistent_def by (simp add: dom index) (simp add: t)
qed

lemma loop_invD:
  assumes "loop_inv nbrs nodes g v s0 D s"
  obtains new L where "tj_inv nbrs nodes (insert v g) s" "tj_frame s0 s" "D \<subseteq> tj_dom s"
    "fmlookup (tj_indices s) v = Some (tj_next_index s0)"
    "tj_stack s = new @ v # tj_stack s0" "fmlookup (tj_lowlinks s) v = Some L"
    "\<exists>y \<in> set (v # tj_stack s0). reaches nbrs v y \<and> tj_index s y = L"
    "\<forall>x \<in> set new. \<forall>y \<in> set (nbrs x) \<inter> set (tj_stack s0). L \<le> tj_index s y"
    "\<forall>y \<in> D \<inter> set (tj_stack s0). L \<le> tj_index s y"
  using assms unfolding loop_inv_def by blast

lemma finish_root:
  assumes loop: "loop_inv nbrs nodes g v s0 (set (nbrs v)) s" and g: "g \<subseteq> set (tj_stack s0)"
    and v: "v \<notin> tj_dom s0" and root: "fmlookup (tj_lowlinks s) v = Some (tj_next_index s0)"
  shows "\<exists>t. tarjan_finish v s = Some t \<and> visit_post nbrs nodes g v s0 t"
  using loop
proof (cases rule: loop_invD)
  case (1 new L)
  have L: "L = tj_next_index s0" using 1(6) root by simp
  note con = tj_invD(1) [OF 1(1)]
  have vi: "tj_index s v = tj_next_index s0" using 1(4) by (simp add: tj_index_def)
  have old: "tj_index s y < L" if "y \<in> set (tj_stack s0)" for y
    using stack_suffix_index [OF con, of "new @ [v]" "tj_stack s0" v y] that 1(5) vi L by simp
  have "\<forall>x \<in> set new. set (nbrs x) \<inter> set (tj_stack s0) = {}"
    "set (nbrs v) \<inter> set (tj_stack s0) = {}"
    using 1(8,9) old leD by blast+
  note block = popped_block [OF 1(1) 1(5) g 1(3) this]
  define t where t: "t = s\<lparr>tj_stack := tj_stack s0,
      tj_on_stack := tj_on_stack s |-| fset_of_list (new @ [v]),
      tj_components := tj_components s @ [sort (new @ [v])]\<rparr>"
  note pop = pop_consistent [OF con 1(5) t]
  have "v \<notin> set new" using tj_consistentD(4) [OF con] 1(5) by auto
  then have finish: "tarjan_finish v s = Some t"
    using pop_component_spec [of v new "tj_stack s0" "tj_on_stack s" "[]"] 1(4,5,6) L
    by (simp add: tarjan_finish_def t)
  have gray: "\<exists>x \<in> g. tj_index s x \<le> tj_index s y \<and> reaches nbrs y x" if y: "y \<in> set (tj_stack s0)" for y
  proof -
    obtain x where x: "x \<in> insert v g" "tj_index s x \<le> tj_index s y" "reaches nbrs y x"
      using tj_invD(5) [OF 1(1), of y] y 1(5) by auto
    moreover have "x \<noteq> v" using x(2) old [OF y] vi L by auto
    ultimately show ?thesis by blast
  qed
  have "tj_inv nbrs nodes g t"
    unfolding tj_inv_def pop(2,3)
  proof (intro conjI)
    show "\<forall>x \<in> tj_dom s - g. set (nbrs x) \<subseteq> tj_dom s" using tj_invD(3) [OF 1(1)] 1(3) by blast
    show "\<forall>x \<in> g. \<forall>y \<in> set (tj_stack t). tj_index s x \<le> tj_index s y \<longrightarrow> reaches nbrs x y"
      using tj_invD(4) [OF 1(1)] 1(5) by (simp add: t)
    show "\<forall>y \<in> set (tj_stack t). \<exists>x \<in> g. tj_index s x \<le> tj_index s y \<and> reaches nbrs y x"
      using gray by (simp add: t)
    show "\<forall>c \<in> set (tj_components t). sorted c" using tj_invD(6) [OF 1(1)] by (auto simp: t)
    have "sort (new @ [v]) \<noteq> []" by (metis set_empty set_sort snoc_eq_iff_butlast)
    then show "blocks_connected nbrs (tj_components t)"
      using tj_invD(7) [OF 1(1)] block(2) by (auto simp: t blocks_connected_def)
    show "blocks_closed nbrs (tj_components t)"
      using tj_invD(8) [OF 1(1)] block(1) by (simp add: t blocks_closed_snoc)
  qed (use pop(1) g in \<open>simp_all add: t\<close>)
  moreover have "tj_frame s0 t"
    using 1(2) by (auto simp: tj_frame_def t tj_dom_def tj_index_def)
  moreover have "v \<in> tj_dom t" using 1(5) stack_dom [OF con] pop(2) by auto
  ultimately have "visit_post nbrs nodes g v s0 t"
    unfolding visit_post_def using 1(6) L by (simp add: t)
  with finish show ?thesis by blast
qed

lemma finish_inner:
  assumes loop: "loop_inv nbrs nodes g v s0 (set (nbrs v)) s" and g: "g \<subseteq> set (tj_stack s0)"
    and con0: "tj_consistent nodes s0"
    and L: "fmlookup (tj_lowlinks s) v = Some l" "l \<noteq> tj_next_index s0"
  shows "tarjan_finish v s = Some s \<and> visit_post nbrs nodes g v s0 s"
  using loop
proof (cases rule: loop_invD)
  case (1 new L)
  have l: "l = L" using 1(6) L by simp
  note con = tj_invD(1) [OF 1(1)] and dom0 = stack_dom [OF con0]
  have vi: "tj_index s v = tj_next_index s0" using 1(4) by (simp add: tj_index_def)
  have old: "tj_index s y < tj_index s v" if "y \<in> set (tj_stack s0)" for y
    using stack_suffix_index [OF con, of "new @ [v]" "tj_stack s0" v y] that 1(5) by simp
  obtain z where z: "z \<in> set (tj_stack s0)" "reaches nbrs v z" "tj_index s z = L"
    using 1(7) L l vi by auto
  have gray: "\<exists>x \<in> g. tj_index s x \<le> tj_index s y \<and> reaches nbrs y x" if y: "y \<in> set (tj_stack s)" for y
  proof -
    obtain x where x: "x \<in> insert v g" "tj_index s x \<le> tj_index s y" "reaches nbrs y x"
      using tj_invD(5) [OF 1(1) y] by blast
    obtain w where w: "w \<in> insert v g" "tj_index s w \<le> tj_index s z" "reaches nbrs z w"
      using tj_invD(5) [OF 1(1), of z] z 1(5) by auto
    have "w \<in> g" using w old [OF z(1)] by auto
    show ?thesis
    proof (cases "x = v")
      case True
      then have "reaches nbrs y w" using x(3) z(2) w(3) reaches_trans by metis
      moreover have "tj_index s w \<le> tj_index s y" using w(2) old [OF z(1)] x(2) True by simp
      ultimately show ?thesis using \<open>w \<in> g\<close> by blast
    qed (use x in auto)
  qed
  have "tj_inv nbrs nodes g s"
    unfolding tj_inv_def
  proof (intro conjI)
    show "\<forall>x \<in> tj_dom s - g. set (nbrs x) \<subseteq> tj_dom s" using tj_invD(3) [OF 1(1)] 1(3) by blast
    show "\<forall>x \<in> g. \<forall>y \<in> set (tj_stack s). tj_index s x \<le> tj_index s y \<longrightarrow> reaches nbrs x y"
      using tj_invD(4) [OF 1(1)] by blast
  qed (use con g 1(5) gray tj_invD(6-8) [OF 1(1)] in auto)
  moreover have "v \<in> tj_dom s" using 1(5) stack_dom [OF con] by auto
  moreover have index: "tj_index s y = tj_index s0 y" if "y \<in> set (tj_stack s0)" for y
    using tj_frame_index [OF 1(2)] that dom0 by blast
  have "\<forall>x \<in> set (new @ [v]). \<forall>y \<in> set (nbrs x) \<inter> set (tj_stack s0). L \<le> tj_index s0 y"
    using 1(8,9) index by simp
  ultimately have "visit_post nbrs nodes g v s0 s"
    unfolding visit_post_def using 1(2,5,6) z index
    by (intro conjI exI [of _ "new @ [v]"] exI [of _ L]) auto
  moreover have "tarjan_finish v s = Some s"
    using 1(4) L by (simp add: tarjan_finish_def)
  ultimately show ?thesis by blast
qed

section \<open>One neighbour\<close>

definition relink :: "'a \<Rightarrow> nat \<Rightarrow> 'a tarjan \<Rightarrow> 'a tarjan" where
  "relink v l s = s\<lparr>tj_lowlinks := fmupd v l (tj_lowlinks s)\<rparr>"

lemma relink_simps [simp]:
  "tj_next_index (relink v l s) = tj_next_index s" "tj_stack (relink v l s) = tj_stack s"
  "tj_on_stack (relink v l s) = tj_on_stack s" "tj_indices (relink v l s) = tj_indices s"
  "tj_lowlinks (relink v l s) = fmupd v l (tj_lowlinks s)" "tj_components (relink v l s) = tj_components s"
  "tj_dom (relink v l s) = tj_dom s" "tj_index (relink v l s) = tj_index s"
  by (simp_all add: relink_def tj_dom_def tj_index_def fun_eq_iff)

lemma lower_link_Some:
  "fmlookup (tj_lowlinks s) v = Some l \<Longrightarrow> lower_link v k s = Some (relink v (min l k) s)"
  by (simp add: lower_link_def relink_def)

lemma relink_inv:
  assumes "tj_inv nbrs nodes g s" "v \<in> tj_dom s"
  shows "tj_inv nbrs nodes g (relink v l s)"
proof -
  have "tj_consistent nodes (relink v l s)"
    using tj_invD(1) [OF assms(1)] assms(2) unfolding tj_consistent_def
    by (auto simp: tj_dom_def)
  then show ?thesis using assms(1) unfolding tj_inv_def by simp
qed

lemma relink_frame: "tj_frame s0 s \<Longrightarrow> v \<notin> tj_dom s0 \<Longrightarrow> tj_frame s0 (relink v l s)"
  unfolding tj_frame_def by auto

text \<open>The bound on the current low link: its witness is \<open>v\<close> or lies below it.\<close>

lemma low_link_le:
  assumes "tj_consistent nodes s" "tj_stack s = new @ v # old"
    "\<exists>y \<in> set (v # old). reaches nbrs v y \<and> tj_index s y = L"
  shows "L \<le> tj_index s v"
  using assms stack_suffix_index [of nodes s "new @ [v]" old v] by fastforce

lemma below_link:
  assumes "tj_consistent nodes s" "tj_stack s = new @ v # old" "y \<in> set (tj_stack s)"
    "tj_index s y \<le> tj_index s v"
  shows "y \<in> set (v # old)"
  using assms stack_suffix_index [of nodes s new "v # old" y v] by auto

lemma loop_visited:
  assumes loop: "loop_inv nbrs nodes g v s0 D s" and v: "v \<notin> tj_dom s0" and con0: "tj_consistent nodes s0"
    and n: "n \<in> set (nbrs v)" "n \<notin> tj_dom s" and post: "visit_post nbrs nodes (insert v g) n s t"
  shows "\<exists>ln u. fmlookup (tj_lowlinks t) n = Some ln \<and> lower_link v ln t = Some u
    \<and> loop_inv nbrs nodes g v s0 (insert n D) u"
  using loop
proof (cases rule: loop_invD)
  case (1 new L)
  obtain new2 ln where t: "tj_inv nbrs nodes (insert v g) t" "tj_frame s t" "n \<in> tj_dom t"
      "tj_stack t = new2 @ tj_stack s" "fmlookup (tj_lowlinks t) n = Some ln"
      "if new2 = [] then tj_next_index s \<le> ln else \<exists>y \<in> set (tj_stack s). reaches nbrs n y \<and> tj_index s y = ln"
      "\<forall>x \<in> set new2. \<forall>y \<in> set (nbrs x) \<inter> set (tj_stack s). ln \<le> tj_index s y"
    using post unfolding visit_post_def by blast
  note con = tj_invD(1) [OF 1(1)] and dom = stack_dom [OF tj_invD(1) [OF 1(1)]]
  have vdom: "v \<in> tj_dom s" using 1(5) dom by auto
  have index: "tj_index t x = tj_index s x" if "x \<in> tj_dom s" for x
    using tj_frame_index [OF t(2) that] .
  have dom0: "set (tj_stack s0) \<subseteq> tj_dom s" using 1(5) dom by auto
  have low: "fmlookup (tj_lowlinks t) v = Some L" using t(2) vdom 1(6) by (simp add: tj_frame_def)
  let ?u = "relink v (min L ln) t"
  have Lv: "L \<le> tj_index s v" using low_link_le [OF con 1(5,7)] .
  have witness: "\<exists>y \<in> set (v # tj_stack s0). reaches nbrs v y \<and> tj_index t y = min L ln"
  proof (cases "L \<le> ln")
    case True
    with 1(7) index vdom dom0 show ?thesis by (metis min.absorb1 set_ConsD subsetD)
  next
    case False
    then have "ln < tj_next_index s" using Lv tj_consistentD(6) [OF con vdom] by simp
    then obtain y where y: "y \<in> set (tj_stack s)" "reaches nbrs n y" "tj_index s y = ln"
      using t(6) by (metis leD)
    then have "y \<in> set (v # tj_stack s0)" using below_link [OF con 1(5), of y] False Lv by simp
    moreover have "reaches nbrs v y" using reaches_trans [OF reaches_step y(2)] n(1) .
    ultimately show ?thesis using y index dom False by (metis min.absorb2 nle_le subsetD)
  qed
  have edges: "\<forall>x \<in> set (new2 @ new). \<forall>y \<in> set (nbrs x) \<inter> set (tj_stack s0). min L ln \<le> tj_index t y"
    using 1(5,8) t(7) index dom0 by (auto simp: min_le_iff_disj subset_iff)
  have seen: "\<forall>y \<in> insert n D \<inter> set (tj_stack s0). min L ln \<le> tj_index t y"
    using 1(9) n(2) index dom0 by (auto simp: min_le_iff_disj subset_iff)
  have "v \<in> tj_dom t" using t(2) vdom by (auto simp: tj_frame_def)
  then have "tj_inv nbrs nodes (insert v g) ?u" using relink_inv t(1) by blast
  moreover have "tj_frame s0 ?u" using relink_frame [OF tj_frame_trans [OF 1(2) t(2)] v] .
  moreover have "insert n D \<subseteq> tj_dom t" using 1(3) t(2,3) by (auto simp: tj_frame_def)
  moreover have "fmlookup (tj_indices t) v = Some (tj_next_index s0)"
    using t(2) vdom 1(4) by (simp add: tj_frame_def)
  moreover have "tj_stack t = (new2 @ new) @ v # tj_stack s0" using t(4) 1(5) by simp
  ultimately have "loop_inv nbrs nodes g v s0 (insert n D) ?u"
    unfolding loop_inv_def using witness edges seen
    by (intro conjI exI [of _ "new2 @ new"] exI [of _ "min L ln"]) simp_all
  then show ?thesis using t(5) lower_link_Some [OF low] by blast
qed

lemma loop_on_stack:
  assumes loop: "loop_inv nbrs nodes g v s0 D s" and v: "v \<notin> tj_dom s0"
    and n: "n \<in> set (nbrs v)" "n \<in> set (tj_stack s)"
  shows "\<exists>u. lower_link v (tj_index s n) s = Some u \<and> loop_inv nbrs nodes g v s0 (insert n D) u"
  using loop
proof (cases rule: loop_invD)
  case (1 new L)
  note con = tj_invD(1) [OF 1(1)] and dom = stack_dom [OF tj_invD(1) [OF 1(1)]]
  let ?i = "tj_index s n"
  let ?u = "relink v (min L ?i) s"
  have Lv: "L \<le> tj_index s v" using low_link_le [OF con 1(5,7)] .
  have witness: "\<exists>y \<in> set (v # tj_stack s0). reaches nbrs v y \<and> tj_index s y = min L ?i"
  proof (cases "L \<le> ?i")
    case False
    then have "n \<in> set (v # tj_stack s0)" using below_link [OF con 1(5) n(2)] Lv by simp
    moreover have "reaches nbrs v n" using n(1) by (rule reaches_step)
    ultimately show ?thesis using False by (metis min.absorb2 nle_le)
  qed (use 1(7) in \<open>simp add: min.absorb1\<close>)
  have "v \<in> tj_dom s" using 1(5) dom by auto
  then have "tj_inv nbrs nodes (insert v g) ?u" using relink_inv 1(1) by blast
  moreover have "tj_frame s0 ?u" using relink_frame [OF 1(2) v] .
  moreover have "insert n D \<subseteq> tj_dom s" using 1(3) n(2) dom by auto
  moreover have "\<forall>y \<in> insert n D \<inter> set (tj_stack s0). min L ?i \<le> tj_index s y"
    using 1(9) by (auto simp: min_le_iff_disj)
  moreover have "\<forall>x \<in> set new. \<forall>y \<in> set (nbrs x) \<inter> set (tj_stack s0). min L ?i \<le> tj_index s y"
    using 1(8) by (auto simp: min_le_iff_disj)
  ultimately have "loop_inv nbrs nodes g v s0 (insert n D) ?u"
    unfolding loop_inv_def using witness 1(4,5)
    by (intro conjI exI [of _ new] exI [of _ "min L ?i"]) simp_all
  then show ?thesis using lower_link_Some [OF 1(6)] by blast
qed

lemma loop_finished:
  assumes loop: "loop_inv nbrs nodes g v s0 D s" and n: "n \<in> tj_dom s" "n \<notin> set (tj_stack s)"
  shows "loop_inv nbrs nodes g v s0 (insert n D) s"
  using loop
proof (cases rule: loop_invD)
  case (1 new L)
  then have "n \<notin> set (tj_stack s0)" using n(2) by simp
  then show ?thesis unfolding loop_inv_def using 1 n(1)
    by (intro conjI exI [of _ new] exI [of _ L]) auto
qed

section \<open>The search\<close>

text \<open>The interface of a client: a finite node set closed under the neighbour function.\<close>

locale digraph =
  fixes nbrs :: "'a::linorder \<Rightarrow> 'a list" and nodes :: "'a set"
  assumes finite_nodes: "finite nodes"
    and nbrs_nodes: "x \<in> nodes \<Longrightarrow> set (nbrs x) \<subseteq> nodes"
begin

lemma unvisited_less:
  assumes "tj_dom s \<subseteq> tj_dom t" "v \<in> tj_dom t" "v \<in> nodes" "v \<notin> tj_dom s"
  shows "card (nodes - tj_dom t) < card (nodes - tj_dom s)"
  using assms finite_nodes by (intro psubset_card_mono) auto

lemma unvisited_le:
  "tj_dom s \<subseteq> tj_dom t \<Longrightarrow> card (nodes - tj_dom t) \<le> card (nodes - tj_dom s)"
  using finite_nodes by (intro card_mono) auto

lemma neighbors_total:
  assumes visit: "\<And>n s g'. n \<in> nodes \<Longrightarrow> n \<notin> tj_dom s \<Longrightarrow> tj_inv nbrs nodes g' s \<Longrightarrow>
      \<forall>x \<in> g'. reaches nbrs x n \<Longrightarrow> card (nodes - tj_dom s) \<le> fuel \<Longrightarrow>
      \<exists>t. tarjan_visit nbrs fuel n s = Some t \<and> visit_post nbrs nodes g' n s t"
    and "loop_inv nbrs nodes g v s0 D s" "v \<in> nodes" "v \<notin> tj_dom s0" "tj_consistent nodes s0"
      "\<forall>x \<in> g. reaches nbrs x v" "set ns \<subseteq> set (nbrs v)" "card (nodes - tj_dom s) \<le> fuel"
  shows "\<exists>t. tarjan_neighbors nbrs fuel v ns s = Some t
    \<and> loop_inv nbrs nodes g v s0 (D \<union> set ns) t"
  using assms(2-)
proof (induction ns arbitrary: D s)
  case (Cons n ns)
  have inv: "tj_inv nbrs nodes (insert v g) s" using Cons.prems(1) by (simp add: loop_inv_def)
  note con = tj_consistentD [OF tj_invD(1) [OF inv]]
  have n: "n \<in> set (nbrs v)" "n \<in> nodes" using Cons.prems(2,6) nbrs_nodes by auto
  have n_dom: "n |\<in>| fmdom (tj_indices s) \<longleftrightarrow> n \<in> tj_dom s" by (simp add: tj_dom_def)
  have n_stack: "n |\<in>| tj_on_stack s \<longleftrightarrow> n \<in> set (tj_stack s)" by (simp add: con(3) fset_of_list_elem)
  have step: "\<exists>u. tarjan_neighbors nbrs fuel v (n # ns) s = tarjan_neighbors nbrs fuel v ns u
      \<and> loop_inv nbrs nodes g v s0 (insert n D) u \<and> tj_dom s \<subseteq> tj_dom u"
  proof (cases "n \<in> tj_dom s")
    case False
    have vn: "reaches nbrs v n" using n(1) by (rule reaches_step)
    have "\<forall>x \<in> insert v g. reaches nbrs x n"
      using Cons.prems(5) vn reaches_trans [OF _ vn] by auto
    then obtain t where t: "tarjan_visit nbrs fuel n s = Some t" "visit_post nbrs nodes (insert v g) n s t"
      using visit [OF n(2) False inv] Cons.prems(7) by blast
    from loop_visited [OF Cons.prems(1,3,4) n(1) False t(2)] obtain ln u where
      u: "fmlookup (tj_lowlinks t) n = Some ln" "lower_link v ln t = Some u"
        "loop_inv nbrs nodes g v s0 (insert n D) u" by blast
    have "tj_dom u = tj_dom t"
      using u(2) by (auto simp: lower_link_def tj_dom_def split: option.splits)
    then show ?thesis using t u False n_dom by (auto simp: visit_post_def tj_frame_def)
  next
    case True
    show ?thesis
    proof (cases "n \<in> set (tj_stack s)")
      case on: True
      from loop_on_stack [OF Cons.prems(1,3) n(1) on] obtain u where
        u: "lower_link v (tj_index s n) s = Some u" "loop_inv nbrs nodes g v s0 (insert n D) u" by blast
      have "tj_dom u = tj_dom s"
        using u(1) by (auto simp: lower_link_def tj_dom_def split: option.splits)
      then show ?thesis
        using u True on n_dom n_stack tj_index_lookup [OF True] by (intro exI [of _ u]) simp
    next
      case off: False
      then show ?thesis using loop_finished [OF Cons.prems(1) True off] True n_dom n_stack by auto
    qed
  qed
  then obtain u where u: "tarjan_neighbors nbrs fuel v (n # ns) s = tarjan_neighbors nbrs fuel v ns u"
      "loop_inv nbrs nodes g v s0 (insert n D) u" "tj_dom s \<subseteq> tj_dom u" by blast
  have "card (nodes - tj_dom u) \<le> fuel" using unvisited_le [OF u(3)] Cons.prems(7) by simp
  then show ?case
    using Cons.IH [OF u(2) Cons.prems(2-5)] Cons.prems(6) u(1) by auto
qed auto

lemma visit_total:
  assumes "v \<in> nodes" "v \<notin> tj_dom s" "tj_inv nbrs nodes g s" "\<forall>x \<in> g. reaches nbrs x v"
    and "card (nodes - tj_dom s) \<le> fuel"
  shows "\<exists>t. tarjan_visit nbrs fuel v s = Some t \<and> visit_post nbrs nodes g v s t"
  using assms
proof (induction fuel arbitrary: v s g)
  case 0
  then show ?case using finite_nodes by auto
next
  case (Suc fuel)
  note con = tj_invD(1) [OF Suc.prems(3)]
  have less: "card (nodes - tj_dom (tarjan_push v s)) \<le> fuel"
    using unvisited_less [of s "tarjan_push v s" v] Suc.prems by auto
  have "\<exists>t. tarjan_neighbors nbrs fuel v (nbrs v) (tarjan_push v s) = Some t
      \<and> loop_inv nbrs nodes g v s ({} \<union> set (nbrs v)) t"
    using Suc.IH push_inv [OF Suc.prems(3,1,2,4)] Suc.prems(1,2) con Suc.prems(4) order_refl less
    by (rule neighbors_total)
  then obtain t where t: "tarjan_neighbors nbrs fuel v (nbrs v) (tarjan_push v s) = Some t"
      "loop_inv nbrs nodes g v s (set (nbrs v)) t" by auto
  obtain l where l: "fmlookup (tj_lowlinks t) v = Some l" using t(2) by (auto simp: loop_inv_def)
  have "\<exists>u. tarjan_finish v t = Some u \<and> visit_post nbrs nodes g v s u"
    using finish_root [OF t(2) tj_invD(2) [OF Suc.prems(3)] Suc.prems(2)]
      finish_inner [OF t(2) tj_invD(2) [OF Suc.prems(3)] con l] l by (cases "l = tj_next_index s") auto
  then show ?case using t(1) by auto
qed

lemma roots_total:
  assumes "tj_inv nbrs nodes {} s" "set ns \<subseteq> nodes" "card nodes \<le> fuel"
  shows "\<exists>t. tarjan_roots nbrs fuel ns s = Some t \<and> tj_inv nbrs nodes {} t
    \<and> tj_dom s \<union> set ns \<subseteq> tj_dom t"
  using assms
proof (induction ns arbitrary: s)
  case (Cons n ns)
  have n_dom: "n |\<in>| fmdom (tj_indices s) \<longleftrightarrow> n \<in> tj_dom s" by (simp add: tj_dom_def)
  show ?case
  proof (cases "n \<in> tj_dom s")
    case True
    then show ?thesis using Cons.IH [OF Cons.prems(1)] Cons.prems n_dom by auto
  next
    case False
    have "card (nodes - tj_dom s) \<le> fuel"
      using Cons.prems(3) card_mono [OF finite_nodes Diff_subset, of "tj_dom s"] by simp
    then obtain t where t: "tarjan_visit nbrs fuel n s = Some t" "visit_post nbrs nodes {} n s t"
      using visit_total [OF _ False Cons.prems(1)] Cons.prems(2) by auto
    then have "tj_inv nbrs nodes {} t" "n \<in> tj_dom t" "tj_dom s \<subseteq> tj_dom t"
      by (auto simp: visit_post_def tj_frame_def)
    with Cons.IH [of t] Cons.prems t(1) False n_dom show ?thesis by fastforce
  qed
qed auto

lemma init_inv: "tj_inv nbrs nodes {} tarjan_init"
  by (simp add: tj_inv_def tj_consistent_def tarjan_init_def tj_dom_def blocks_connected_def blocks_closed_def)

text \<open>With as much fuel as there are nodes the search returns the components in dependency order.\<close>

lemma scc_components_correct:
  assumes "fset ns = nodes" "card nodes \<le> fuel"
  shows "\<exists>cs. scc_components nbrs fuel ns = Some cs \<and> is_scc_order nbrs nodes cs"
proof -
  obtain t where t: "tarjan_roots nbrs fuel (sorted_list_of_fset ns) tarjan_init = Some t"
      "tj_inv nbrs nodes {} t" "set (sorted_list_of_fset ns) \<subseteq> tj_dom t"
    using roots_total [OF init_inv _ assms(2), of "sorted_list_of_fset ns"] assms(1) by auto
  note con = tj_consistentD [OF tj_invD(1) [OF t(2)]]
  have "tj_stack t = []" using tj_invD(5) [OF t(2)] by (cases "tj_stack t") auto
  then have "set (concat (tj_components t)) = nodes" "distinct (concat (tj_components t))"
    using con(1,4,5) t(3) assms(1) by auto
  then have "is_scc_order nbrs nodes (tj_components t)"
    unfolding is_scc_order_def using tj_invD(6-8) [OF t(2)] by blast
  with t(1) show ?thesis by (auto simp: scc_components_def)
qed

end

end
