(* ===== verification/Kahn.thy ===== *)
theory Kahn
  imports Prelude
begin

text \<open>
  Draining a dependency graph by counting unmet prerequisites. Three places of the source write this
  loop: \<open>ordered_components\<close> of \<open>schema/src/delta_dependencies.rs\<close> over the indices of a vector
  (\<open>vec_release\<close>, \<open>vec_drain\<close>), and \<open>order_apply_subset\<close> and \<open>order_rollback_subset\<close> of
  \<open>schema-migration/src/history.rs\<close> over a map that forgets emitted nodes (\<open>map_release\<close>,
  \<open>map_drain\<close>). Decrementing a counter that is zero would panic in the source and is \<open>None\<close> here.

  The locale \<open>prerequisites\<close> is the interface of the graph; it relates the counters to the number of
  unmet prerequisites. Both loops are shown never to underflow, to emit every node after its
  prerequisites, and to emit all nodes exactly when the graph has no cycle.
\<close>

section \<open>The loop over a map\<close>

fun map_release :: "'n list \<Rightarrow> ('n, nat) fmap \<Rightarrow> 'n fset \<Rightarrow> (('n, nat) fmap \<times> 'n fset) option" where
  "map_release [] remaining ready = Some (remaining, ready)"
| "map_release (c # cs) remaining ready =
     (case fmlookup remaining c of
        None \<Rightarrow> map_release cs remaining ready
      | Some 0 \<Rightarrow> None
      | Some (Suc k) \<Rightarrow>
          map_release cs (fmupd c k remaining) (if k = 0 then finsert c ready else ready))"

definition map_weight :: "('n, nat) fmap \<Rightarrow> 'n fset \<Rightarrow> nat" where
  "map_weight remaining ready = (\<Sum>k \<in> fset (fmdom remaining). the (fmlookup remaining k)) + fcard ready"

lemma map_weight_step:
  assumes "fmlookup remaining c = Some (Suc k)"
  shows "map_weight (fmupd c k remaining) (if k = 0 then finsert c ready else ready) \<le> map_weight remaining ready"
proof -
  have c: "c |\<in>| fmdom remaining" using assms by (simp add: fmlookup_in_dom)
  let ?D = "fset (fmdom remaining) - {c}"
  have dom: "fset (fmdom remaining) = insert c ?D" using c by auto
  have "(\<Sum>x \<in> fset (fmdom remaining). the (fmlookup remaining x))
      = Suc k + (\<Sum>x \<in> ?D. the (fmlookup remaining x))"
    by (subst dom, subst sum.insert) (auto simp: assms)
  moreover have "(\<Sum>x \<in> fset (fmdom (fmupd c k remaining)). the (fmlookup (fmupd c k remaining) x))
      = k + (\<Sum>x \<in> ?D. the (fmlookup remaining x))"
  proof -
    have "fset (fmdom (fmupd c k remaining)) = insert c ?D" using c by auto
    moreover have "(\<Sum>x \<in> ?D. the (fmlookup (fmupd c k remaining) x)) = (\<Sum>x \<in> ?D. the (fmlookup remaining x))"
      by (intro sum.cong) auto
    moreover have "(\<Sum>x \<in> insert c ?D. the (fmlookup (fmupd c k remaining) x))
        = the (fmlookup (fmupd c k remaining) c) + (\<Sum>x \<in> ?D. the (fmlookup (fmupd c k remaining) x))"
      by (rule sum.insert) auto
    ultimately show ?thesis by (simp only: fmupd_lookup if_True option.sel simp_thms)
  qed
  moreover have "fcard (if k = 0 then finsert c ready else ready) \<le> Suc (fcard ready)"
    by (simp add: fcard_finsert_if)
  ultimately show ?thesis by (simp add: map_weight_def)
qed

lemma map_release_weight:
  "map_release cs remaining ready = Some (remaining', ready') \<Longrightarrow>
   map_weight remaining' ready' \<le> map_weight remaining ready"
proof (induction cs remaining ready rule: map_release.induct)
  case (2 c cs remaining ready)
  show ?case
  proof (cases "fmlookup remaining c")
    case (Some n)
    with 2 map_weight_step [of remaining c _ ready] show ?thesis
      by (cases n) (auto split: if_splits intro: order_trans)
  qed (use 2 in auto)
qed auto

lemma map_weight_drop: "map_weight (fmdrop x remaining) ready \<le> map_weight remaining ready"
proof -
  have "(\<Sum>k \<in> fset (fmdom (fmdrop x remaining)). the (fmlookup (fmdrop x remaining) k))
      = (\<Sum>k \<in> fset (fmdom remaining) - {x}. the (fmlookup remaining k))"
    by (auto intro!: sum.cong)
  also have "\<dots> \<le> (\<Sum>k \<in> fset (fmdom remaining). the (fmlookup remaining k))"
    by (intro sum_mono2) auto
  finally show ?thesis by (simp add: map_weight_def)
qed

function map_drain :: "('n::linorder \<Rightarrow> 'n list) \<Rightarrow> ('n, nat) fmap \<Rightarrow> 'n fset \<Rightarrow> 'n list \<Rightarrow>
    (('n, nat) fmap \<times> 'n list) option" where
  "map_drain succs remaining ready order =
     (case sorted_list_of_fset ready of
        [] \<Rightarrow> Some (remaining, order)
      | x # _ \<Rightarrow>
          (case map_release (succs x) remaining (ready |-| {|x|}) of
             None \<Rightarrow> None
           | Some (remaining', ready') \<Rightarrow>
               map_drain succs (fmdrop x remaining') ready' (order @ [x])))"
  by pat_completeness auto

lemma sorted_list_first:
  assumes "sorted_list_of_fset ready = x # xs"
  shows "x |\<in>| ready" "\<forall>y. y |\<in>| ready \<longrightarrow> x \<le> y"
proof -
  have "set (x # xs) = fset ready" by (metis assms set_sorted_list_of_fset)
  moreover have "sorted (x # xs)" by (metis assms sorted_sorted_list_of_fset)
  ultimately show "x |\<in>| ready" "\<forall>y. y |\<in>| ready \<longrightarrow> x \<le> y"
    by (metis list.set_intros(1), metis order_refl set_ConsD sorted_simps(2))
qed

termination map_drain
proof (relation "measure (\<lambda>(succs, remaining, ready, order). map_weight remaining ready)", simp, goal_cases)
  case (1 succs remaining ready order x xs r remaining' ready')
  have "fcard (ready |-| {|x|}) < fcard ready"
    using sorted_list_first(1) [OF 1(1)] by (rule fcard_fminus1_less)
  then have "map_weight remaining (ready |-| {|x|}) < map_weight remaining ready"
    by (simp add: map_weight_def)
  moreover have "map_weight (fmdrop x remaining') ready' \<le> map_weight remaining (ready |-| {|x|})"
    using map_weight_drop map_release_weight 1 by (metis order_trans)
  ultimately show ?case using 1 by simp
qed

declare map_drain.simps [simp del]

section \<open>The loop over vector indices\<close>

fun vec_release :: "'k list \<Rightarrow> nat list \<Rightarrow> nat list \<Rightarrow> ('k \<times> nat) fset \<Rightarrow>
    (nat list \<times> ('k \<times> nat) fset) option" where
  "vec_release keys [] remaining ready = Some (remaining, ready)"
| "vec_release keys (d # ds) remaining ready =
     (if length remaining \<le> d \<or> length keys \<le> d then None
      else
        (case remaining ! d of
           0 \<Rightarrow> None
         | Suc k \<Rightarrow>
             vec_release keys ds (remaining[d := k])
               (if k = 0 then finsert (keys ! d, d) ready else ready)))"

lemma sum_list_update_pred:
  "d < length xs \<Longrightarrow> xs ! d = Suc k \<Longrightarrow> Suc (sum_list (xs[d := k])) = sum_list xs"
  by (induction xs arbitrary: d) (auto simp: less_Suc_eq_0_disj split: nat.splits)

lemma vec_release_weight:
  "vec_release keys ds remaining ready = Some (remaining', ready') \<Longrightarrow>
   sum_list remaining' + fcard ready' \<le> sum_list remaining + fcard ready"
proof (induction keys ds remaining ready rule: vec_release.induct)
  case (2 keys d ds remaining ready)
  then obtain k where d: "d < length remaining" "d < length keys" "remaining ! d = Suc k"
    by (auto split: if_splits nat.splits)
  have "fcard (if k = 0 then finsert (keys ! d, d) ready else ready) \<le> Suc (fcard ready)"
    by (simp add: fcard_finsert_if)
  with 2 d sum_list_update_pred [OF d(1,3)] show ?case by fastforce
qed auto

function vec_drain :: "nat list list \<Rightarrow> 'k::linorder list \<Rightarrow> nat list \<Rightarrow> ('k \<times> nat) fset \<Rightarrow> nat list \<Rightarrow>
    nat list option" where
  "vec_drain dependents keys remaining ready ordered =
     (case sorted_list_of_fset ready of
        [] \<Rightarrow> Some ordered
      | entry # _ \<Rightarrow>
          if length dependents \<le> snd entry then None
          else
            (case vec_release keys (dependents ! snd entry) remaining (ready |-| {|entry|}) of
               None \<Rightarrow> None
             | Some (remaining', ready') \<Rightarrow>
                 vec_drain dependents keys remaining' ready' (ordered @ [snd entry])))"
  by pat_completeness auto

termination vec_drain
proof (relation "measure (\<lambda>(dependents, keys, remaining, ready, ordered). sum_list remaining + fcard ready)",
    simp, goal_cases)
  case (1 dependents keys remaining ready ordered entry xs r remaining' ready')
  have "fcard (ready |-| {|entry|}) < fcard ready"
    using sorted_list_first(1) [OF 1(1)] by (rule fcard_fminus1_less)
  then show ?case using vec_release_weight 1 by fastforce
qed

declare vec_drain.simps [simp del]

section \<open>Prerequisite graphs\<close>

definition topo_order :: "('n \<Rightarrow> 'n set) \<Rightarrow> 'n list \<Rightarrow> bool" where
  "topo_order pre order \<longleftrightarrow> (\<forall>i < length order. pre (order ! i) \<subseteq> set (take i order))"

lemma topo_order_snoc: "topo_order pre (xs @ [x]) \<longleftrightarrow> topo_order pre xs \<and> pre x \<subseteq> set xs"
  by (auto simp: topo_order_def less_Suc_eq nth_append)

lemma topo_order_closed: "topo_order pre xs \<Longrightarrow> y \<in> set xs \<Longrightarrow> pre y \<subseteq> set xs"
  by (fastforce simp: topo_order_def in_set_conv_nth dest: in_set_takeD)

locale prerequisites =
  fixes N :: "'n::linorder set" and pre :: "'n \<Rightarrow> 'n set"
  assumes finite_N: "finite N" and pre_N: "x \<in> N \<Longrightarrow> pre x \<subseteq> N"
begin

definition unmet :: "'n set \<Rightarrow> 'n \<Rightarrow> nat" where
  "unmet d x = card (pre x - d)"

definition available :: "'n set \<Rightarrow> 'n set" where
  "available d = {x \<in> N - d. pre x \<subseteq> d}"

lemma finite_pre: "x \<in> N \<Longrightarrow> finite (pre x)"
  using finite_N pre_N finite_subset by blast

lemma unmet_insert:
  assumes "x \<notin> d" "y \<in> N"
  shows "unmet (insert x d) y = unmet d y - (if x \<in> pre y then 1 else 0)"
    and "x \<in> pre y \<Longrightarrow> 0 < unmet d y"
proof -
  have fin: "finite (pre y - d)" using finite_pre [OF assms(2)] by simp
  have "pre y - insert x d = (pre y - d) - {x}" by auto
  then show "unmet (insert x d) y = unmet d y - (if x \<in> pre y then 1 else 0)"
    using assms fin by (simp add: unmet_def card_Diff_singleton)
  show "x \<in> pre y \<Longrightarrow> 0 < unmet d y"
    using assms fin by (auto simp: unmet_def card_gt_0_iff)
qed

lemma unmet_zero: "y \<in> N \<Longrightarrow> unmet d y = 0 \<longleftrightarrow> pre y \<subseteq> d"
  using finite_pre by (simp add: unmet_def)

lemma available_insert:
  assumes "x \<in> available d" "\<And>y. y \<in> d \<Longrightarrow> pre y \<subseteq> d"
  shows "available (insert x d) = available d - {x} \<union> {y \<in> N - insert x d. x \<in> pre y \<and> unmet d y = 1}"
proof -
  have x: "x \<notin> d" "x \<in> N" "pre x \<subseteq> d" using assms by (auto simp: available_def)
  have "pre y \<subseteq> insert x d \<longleftrightarrow> pre y \<subseteq> d \<or> (x \<in> pre y \<and> unmet d y = 1)" if "y \<in> N" for y
    using unmet_zero [OF that, of "insert x d"] unmet_zero [OF that, of d] unmet_insert [OF x(1) that]
    by (cases "x \<in> pre y") (auto split: if_splits)
  then show ?thesis by (auto simp: available_def)
qed

text \<open>When nothing is available, everything left depends on something left.\<close>

lemma stuck_predecessor:
  assumes "available d = {}" "x \<in> N - d"
  shows "\<exists>y \<in> pre x. y \<in> N - d"
  using assms pre_N by (fastforce simp: available_def)

lemma stuck_cycle:
  assumes "available d = {}" "N - d \<noteq> {}"
  shows "\<not> acyclic {(y, x). x \<in> N \<and> y \<in> pre x}"
proof
  let ?R = "{(y, x). x \<in> N \<and> y \<in> pre x}"
  assume acy: "acyclic ?R"
  have "?R \<subseteq> N \<times> N" using pre_N by auto
  then have "finite ?R" using finite_N finite_subset by blast
  then have wf: "wf ?R" using acy finite_acyclic_wf by blast
  obtain x where x: "x \<in> N - d" using assms by auto
  obtain m where m: "m \<in> N - d" "\<And>y. (y, m) \<in> ?R \<Longrightarrow> y \<notin> N - d"
    using wfE_min [OF wf x] by blast
  then show False using stuck_predecessor [OF assms(1)] by blast
qed

lemma topo_complete_acyclic:
  assumes "topo_order pre order" "set order = N" "distinct order"
  shows "acyclic {(y, x). x \<in> N \<and> y \<in> pre x}"
proof -
  define pos where "pos x = (THE i. i < length order \<and> order ! i = x)" for x
  have pos: "pos (order ! i) = i" if "i < length order" for i
    unfolding pos_def using assms(3) that by (intro the_equality) (auto simp: nth_eq_iff_index_eq)
  have "pos y < pos x" if "x \<in> N" "y \<in> pre x" for x y
  proof -
    have "x \<in> set order" using that assms(2) by simp
    then obtain i where i: "i < length order" "x = order ! i" unfolding in_set_conv_nth by blast
    then have "y \<in> set (take i order)" using that assms(1) by (auto simp: topo_order_def)
    then obtain j where "j < i" "y = order ! j" using i unfolding in_set_conv_nth by auto
    with i show ?thesis using pos by simp
  qed
  then have "{(y, x). x \<in> N \<and> y \<in> pre x} \<subseteq> measure pos" by auto
  then show ?thesis using wf_measure wf_subset wf_acyclic by blast
qed

end

section \<open>The loops are correct\<close>

lemma map_release_spec:
  assumes "distinct cs" "\<forall>c \<in> set cs. fmlookup remaining c \<noteq> Some 0"
  shows "\<exists>remaining' ready'. map_release cs remaining ready = Some (remaining', ready')
    \<and> (\<forall>x. fmlookup remaining' x =
          (if x \<in> set cs then map_option (\<lambda>k. k - 1) (fmlookup remaining x) else fmlookup remaining x))
    \<and> fset ready' = fset ready \<union> {x \<in> set cs. fmlookup remaining x = Some 1}"
  using assms
proof (induction cs arbitrary: remaining ready)
  case (Cons c cs)
  show ?case
  proof (cases "fmlookup remaining c")
    case None
    with Cons.IH [of remaining ready] Cons.prems show ?thesis by auto
  next
    case (Some n)
    then obtain k where k: "n = Suc k" using Cons.prems by (cases n) auto
    have "\<forall>x \<in> set cs. fmlookup (fmupd c k remaining) x \<noteq> Some 0" using Cons.prems by auto
    with Cons.IH [of "fmupd c k remaining" "if k = 0 then finsert c ready else ready"] Cons.prems Some k
    obtain remaining' ready' where r: "map_release (c # cs) remaining ready = Some (remaining', ready')"
      "\<forall>x. fmlookup remaining' x = (if x \<in> set cs then map_option (\<lambda>k. k - 1) (fmlookup (fmupd c k remaining) x)
          else fmlookup (fmupd c k remaining) x)"
      "fset ready' = fset (if k = 0 then finsert c ready else ready)
          \<union> {x \<in> set cs. fmlookup (fmupd c k remaining) x = Some 1}" by auto
    have "{x \<in> set (c # cs). fmlookup remaining x = Some 1}
        = (if k = 0 then {c} else {}) \<union> {x \<in> set cs. fmlookup (fmupd c k remaining) x = Some 1}"
      using Cons.prems Some k by auto
    with r Cons.prems Some k show ?thesis by auto
  qed
qed auto

lemma vec_release_spec:
  assumes "distinct ds" "\<forall>d \<in> set ds. d < length remaining \<and> 0 < remaining ! d"
    "length keys = length remaining"
  shows "\<exists>remaining' ready'. vec_release keys ds remaining ready = Some (remaining', ready')
    \<and> length remaining' = length remaining
    \<and> (\<forall>i < length remaining. remaining' ! i = (if i \<in> set ds then remaining ! i - 1 else remaining ! i))
    \<and> fset ready' = fset ready \<union> {(keys ! i, i) | i. i \<in> set ds \<and> remaining ! i = 1}"
  using assms
proof (induction ds arbitrary: remaining ready)
  case (Cons d ds)
  then obtain k where k: "d < length remaining" "remaining ! d = Suc k" by (cases "remaining ! d") auto
  let ?ready = "if k = 0 then finsert (keys ! d, d) ready else ready"
  have "\<forall>x \<in> set ds. x < length (remaining[d := k]) \<and> 0 < remaining[d := k] ! x"
    using Cons.prems by (auto simp: nth_list_update)
  with Cons.IH [of "remaining[d := k]" ?ready] Cons.prems k
  obtain remaining' ready' where r: "vec_release keys (d # ds) remaining ready = Some (remaining', ready')"
      "length remaining' = length remaining"
      "\<forall>i < length remaining. remaining' ! i = (if i \<in> set ds then remaining[d := k] ! i - 1 else remaining[d := k] ! i)"
      "fset ready' = fset ?ready \<union> {(keys ! i, i) | i. i \<in> set ds \<and> remaining[d := k] ! i = 1}"
    by auto
  have "{(keys ! i, i) | i. i \<in> set (d # ds) \<and> remaining ! i = 1}
      = (if k = 0 then {(keys ! d, d)} else {}) \<union> {(keys ! i, i) | i. i \<in> set ds \<and> remaining[d := k] ! i = 1}"
    using Cons.prems k by (auto simp: nth_list_update)
  with r Cons.prems k show ?case by (auto simp: nth_list_update)
qed auto

context prerequisites
begin

definition progress :: "'n list \<Rightarrow> bool" where
  "progress order \<longleftrightarrow> distinct order \<and> set order \<subseteq> N \<and> topo_order pre order"

lemma progress_closed: "progress order \<Longrightarrow> y \<in> set order \<Longrightarrow> pre y \<subseteq> set order"
  unfolding progress_def by (blast dest: topo_order_closed)

lemma progress_snoc: "progress order \<Longrightarrow> x \<in> available (set order) \<Longrightarrow> progress (order @ [x])"
  by (auto simp: progress_def available_def topo_order_snoc)

lemma dependent_pending:
  assumes "progress order" "x \<in> available (set order)" "x \<in> pre y" "y \<in> N"
  shows "y \<notin> set (order @ [x])" "0 < unmet (set order) y"
  using assms progress_closed [OF assms(1), of y] unmet_insert(2) [of x "set order" y]
  by (auto simp: available_def)

lemma finished_iff_acyclic:
  assumes "progress order" "available (set order) = {}"
  shows "set order = N \<longleftrightarrow> acyclic {(y, x). x \<in> N \<and> y \<in> pre x}"
  using assms stuck_cycle [of "set order"] topo_complete_acyclic [of order] by (auto simp: progress_def)

end

text \<open>What a counter map means after the nodes of \<open>order\<close> have been emitted.\<close>

definition map_counts :: "'n set \<Rightarrow> ('n \<Rightarrow> 'n set) \<Rightarrow> 'n list \<Rightarrow> ('n, nat) fmap \<Rightarrow> bool" where
  "map_counts N pre order remaining \<longleftrightarrow>
     (\<forall>x. fmlookup remaining x = (if x \<in> N - set order then Some (card (pre x - set order)) else None))"

context prerequisites
begin

lemma available_snoc:
  assumes "progress order" "x \<in> available (set order)"
  shows "available (set (order @ [x]))
    = available (set order) - {x} \<union> {y \<in> N. x \<in> pre y \<and> unmet (set order) y = 1}"
  using available_insert [OF assms(2) progress_closed [OF assms(1)]] dependent_pending [OF assms]
  by auto

lemma unmet_snoc:
  assumes "progress order" "x \<in> available (set order)" "y \<in> N"
  shows "unmet (set (order @ [x])) y = unmet (set order) y - (if x \<in> pre y then 1 else 0)"
  using unmet_insert(1) [of x "set order" y] assms by (auto simp: available_def)

lemma map_drain_correct:
  assumes "\<And>x. x \<in> N \<Longrightarrow> distinct (succs x) \<and> (\<forall>y \<in> N. y \<in> set (succs x) \<longleftrightarrow> x \<in> pre y)"
    and "progress order" "map_counts N pre order remaining" "fset ready = available (set order)"
  shows "\<exists>remaining' order'. map_drain succs remaining ready order = Some (remaining', order')
    \<and> progress order' \<and> map_counts N pre order' remaining' \<and> available (set order') = {}"
  using assms
proof (induction succs remaining ready order rule: map_drain.induct)
  case (1 succs remaining ready order)
  show ?case
  proof (cases "sorted_list_of_fset ready")
    case Nil
    then have "available (set order) = {}" using 1(5) by (metis list.set(1) set_sorted_list_of_fset)
    with Nil 1(3,4) show ?thesis by (subst map_drain.simps) simp
  next
    case (Cons x xs)
    have x: "x \<in> available (set order)" using sorted_list_first(1) [OF Cons] 1(5) by simp
    then have xN: "x \<in> N" by (simp add: available_def)
    note pending = dependent_pending [OF 1(3) x]
    have lookup: "fmlookup remaining y = (if y \<in> N - set order then Some (unmet (set order) y) else None)" for y
      using 1(4) by (simp add: map_counts_def unmet_def)
    have "\<forall>c \<in> set (succs x). fmlookup remaining c \<noteq> Some 0"
      using pending(2) 1(2) [OF xN] lookup by auto
    from map_release_spec [OF conjunct1 [OF 1(2) [OF xN]] this, of "ready |-| {|x|}"]
    obtain remaining' ready' where r: "map_release (succs x) remaining (ready |-| {|x|}) = Some (remaining', ready')"
      "\<And>y. fmlookup remaining' y = (if y \<in> set (succs x) then map_option (\<lambda>k. k - 1) (fmlookup remaining y)
          else fmlookup remaining y)"
      "fset ready' = fset (ready |-| {|x|}) \<union> {y \<in> set (succs x). fmlookup remaining y = Some 1}" by blast
    have "map_counts N pre (order @ [x]) (fmdrop x remaining')"
      unfolding map_counts_def
      using r(2) lookup 1(2) [OF xN] unmet_snoc [OF 1(3) x] by (auto simp: unmet_def)
    moreover have "fset ready' = available (set (order @ [x]))"
      unfolding available_snoc [OF 1(3) x] r(3) using 1(5) lookup 1(2) [OF xN] pending by auto
    ultimately have "\<exists>remaining'' order'. map_drain succs (fmdrop x remaining') ready' (order @ [x]) = Some (remaining'', order')
        \<and> progress order' \<and> map_counts N pre order' remaining'' \<and> available (set order') = {}"
      using 1(1) [OF Cons r(1) refl 1(2) progress_snoc [OF 1(3) x]] by blast
    then show ?thesis by (subst map_drain.simps) (simp add: Cons r(1))
  qed
qed

end

lemma vec_drain_correct:
  fixes pre :: "nat \<Rightarrow> nat set" and keys :: "'k::linorder list"
  assumes graph: "prerequisites {..<n} pre" and len: "length dependents = n" "length keys = n"
    and deps: "\<And>i. i < n \<Longrightarrow> distinct (dependents ! i) \<and> set (dependents ! i) = {j. j < n \<and> i \<in> pre j}"
    and "prerequisites.progress {..<n} pre order" "length remaining = n"
      "\<forall>i < n. remaining ! i = prerequisites.unmet pre (set order) i"
      "fset ready = (\<lambda>i. (keys ! i, i)) ` prerequisites.available {..<n} pre (set order)"
  shows "\<exists>order'. vec_drain dependents keys remaining ready order = Some order'
    \<and> prerequisites.progress {..<n} pre order' \<and> prerequisites.available {..<n} pre (set order') = {}"
  using assms
proof (induction dependents keys remaining ready order rule: vec_drain.induct)
  case (1 dependents keys remaining ready order)
  note graph = 1(2)
  note defs = prerequisites.available_def [OF graph]
  let ?av = "prerequisites.available {..<n} pre"
  show ?case
  proof (cases "sorted_list_of_fset ready")
    case Nil
    then have "?av (set order) = {}" using 1(9) by (metis image_is_empty list.set(1) set_sorted_list_of_fset)
    with Nil 1(6) show ?thesis by (subst vec_drain.simps) simp
  next
    case (Cons e es)
    obtain x where e: "e = (keys ! x, x)" and x: "x \<in> ?av (set order)"
      using sorted_list_first(1) [OF Cons] 1(9) by auto
    then have xn: "x < n" by (simp add: defs)
    note pending = prerequisites.dependent_pending [OF graph 1(6) x]
    have "\<forall>d \<in> set (dependents ! x). d < length remaining \<and> 0 < remaining ! d"
      using 1(5) [OF xn] 1(7,8) pending(2) by auto
    from vec_release_spec [OF conjunct1 [OF 1(5) [OF xn]] this, of keys "ready |-| {|e|}"] 1(4,7)
    obtain remaining' ready' where r: "vec_release keys (dependents ! x) remaining (ready |-| {|e|}) = Some (remaining', ready')"
      "length remaining' = n"
      "\<forall>i < n. remaining' ! i = (if i \<in> set (dependents ! x) then remaining ! i - 1 else remaining ! i)"
      "fset ready' = fset (ready |-| {|e|}) \<union> {(keys ! i, i) | i. i \<in> set (dependents ! x) \<and> remaining ! i = 1}"
      by auto
    have "\<forall>i < n. remaining' ! i = prerequisites.unmet pre (set (order @ [x])) i"
      using r(3) 1(8) 1(5) [OF xn] prerequisites.unmet_snoc [OF graph 1(6) x] by auto
    moreover have "fset ready' = (\<lambda>i. (keys ! i, i)) ` ?av (set (order @ [x]))"
      unfolding prerequisites.available_snoc [OF graph 1(6) x] r(4) using 1(5) [OF xn] 1(8,9) e
      by (auto simp: image_iff)
    moreover have x_eq: "snd e = x" "\<not> length dependents \<le> snd e" using e xn 1(3) by simp_all
    ultimately have "\<exists>order'. vec_drain dependents keys remaining' ready' (order @ [x]) = Some order'
        \<and> prerequisites.progress {..<n} pre order' \<and> ?av (set order') = {}"
      using 1(1) [OF Cons x_eq(2) _ refl 1(2-5), of remaining' ready'] r(1,2)
        prerequisites.progress_snoc [OF graph 1(6) x] by (simp only: x_eq(1))
    then show ?thesis using xn 1(3) by (subst vec_drain.simps) (simp add: Cons e r(1) [unfolded e])
  qed
qed

end
