(* ===== verification/Fact_Graph.thy ===== *)
theory Fact_Graph
  imports Schema_Facts
begin

text \<open>
  The fact dependency graph of \<open>schema/src/delta_dependencies.rs\<close>: \<open>FactDependencyGraph::from_facts\<close>
  with its helpers \<open>dependencies_for\<close> and \<open>find_sub_path\<close>, and \<open>validate_complete\<close>. The lookup tables
  \<open>labels\<close> and \<open>sub_by_child\<close> are functions of the inventory that return the sorted candidates, the
  empty list standing for a missing key. \<open>find_sub_path\<close> threads its visited set and takes fuel, one
  unit per nested call; running out is the outer \<open>None\<close>, and one unit more than the number of facts
  is shown to be enough.
\<close>

section \<open>Lookup tables\<close>

definition integrity :: "string \<Rightarrow> diagnostic" where
  "integrity code = Diagnostic Integrity code"

fun declared_label :: "schema_fact \<Rightarrow> label option" where
  "declared_label (FactType i) = Some (type_id_label i)"
| "declared_label (FactStruct s) = Some (struct_label (struct_fact_id_of s))"
| "declared_label _ = None"

definition label_candidates :: "schema_fact list \<Rightarrow> label \<Rightarrow> schema_fact_id list" where
  "label_candidates fs l = sort (map fact_id (filter (\<lambda>f. declared_label f = Some l) fs))"

definition sub_facts :: "schema_fact list \<Rightarrow> sub_fact_id list" where
  "sub_facts fs = List.map_filter (\<lambda>f. case f of FactSub s \<Rightarrow> Some s | _ \<Rightarrow> None) fs"

definition sub_by_child :: "schema_fact list \<Rightarrow> type_id \<Rightarrow> sub_fact_id list" where
  "sub_by_child fs t = sort (filter (\<lambda>s. sub_subtype s = t) (sub_facts fs))"

section \<open>Subtype paths\<close>

fun find_sub_path :: "(type_id \<Rightarrow> sub_fact_id list) \<Rightarrow> nat \<Rightarrow> type_id \<Rightarrow> type_id \<Rightarrow> type_id fset \<Rightarrow>
    (sub_fact_id list option \<times> type_id fset) option"
  and find_sub_path_edges :: "(type_id \<Rightarrow> sub_fact_id list) \<Rightarrow> nat \<Rightarrow> sub_fact_id list \<Rightarrow> type_id \<Rightarrow>
    type_id fset \<Rightarrow> (sub_fact_id list option \<times> type_id fset) option" where
  "find_sub_path edges 0 current target visited = None"
| "find_sub_path edges (Suc fuel) current target visited =
     (if current = target then Some (Some [], visited)
      else if current |\<in>| visited then Some (None, visited)
      else find_sub_path_edges edges fuel (edges current) target (finsert current visited))"
| "find_sub_path_edges edges fuel [] target visited = Some (None, visited)"
| "find_sub_path_edges edges fuel (e # es) target visited =
     (case find_sub_path edges fuel (sub_supertype e) target visited of
        None \<Rightarrow> None
      | Some (Some tail, visited') \<Rightarrow> Some (Some (e # tail), visited')
      | Some (None, visited') \<Rightarrow> find_sub_path_edges edges fuel es target visited')"

definition sub_path :: "schema_fact list \<Rightarrow> type_id \<Rightarrow> type_id \<Rightarrow> sub_fact_id list option" where
  "sub_path fs current target =
     Option.bind (find_sub_path (sub_by_child fs) (length fs + 2) current target {||}) fst"

section \<open>Dependencies of one fact\<close>

definition relates_id :: "role_id \<Rightarrow> relates_fact_id" where
  "relates_id r = RelatesFactId (relation_type r) r"

text \<open>The loop over the schema labels of a function signature.\<close>

fun function_dependencies :: "schema_fact list \<Rightarrow> label list \<Rightarrow> schema_fact_id fset \<Rightarrow>
    schema_fact_id fset res" where
  "function_dependencies fs [] deps = Inr deps"
| "function_dependencies fs (l # ls) deps =
     (case label_candidates fs l of
        [] \<Rightarrow> Inl (integrity ''schema_delta_missing_function_reference'')
      | [i] \<Rightarrow> function_dependencies fs ls (finsert i deps)
      | _ \<Rightarrow> Inl (integrity ''schema_delta_ambiguous_function_reference''))"

fun dependencies_for :: "schema_fact list \<Rightarrow> schema_fact \<Rightarrow> schema_fact_id fset res" where
  "dependencies_for fs (FactType _) = Inr {||}"
| "dependencies_for fs (FactStruct _) = Inr {||}"
| "dependencies_for fs (FactSub s) = Inr {|IdType (sub_subtype s), IdType (sub_supertype s)|}"
| "dependencies_for fs (FactValue v) =
     Inr {|IdType (attribute_type_id (value_attribute (value_fact_id_of v)))|}"
| "dependencies_for fs (FactOwns w) =
     (let i = owns_fact_id_of w in
      Inr {|IdType (owns_owner i), IdType (attribute_type_id (owns_attribute i)),
            IdValue (ValueFactId (owns_attribute i))|})"
| "dependencies_for fs (FactRelates r) =
     (let relation = relates_relation (relates_fact_id_of r) in
      case relates_specializes r of
        None \<Rightarrow> Inr {|IdType relation|}
      | Some parent_role \<Rightarrow>
          bind_res (ok_or (sub_path fs relation (relation_type parent_role))
                      (integrity ''schema_delta_missing_specialization_path'')) (\<lambda>path.
            Inr ({|IdType relation, IdRelates (relates_id parent_role)|}
                 |\<union>| fset_of_list (map IdSub path))))"
| "dependencies_for fs (FactPlays p) = Inr {|IdType (plays_player p), IdRelates (relates_id (plays_role p))|}"
| "dependencies_for fs (FactAnnotation a) =
     Inr {|subject_fact_id (annotation_subject (annotation_fact_id_of a))|}"
| "dependencies_for fs (FactFunction f) = function_dependencies fs (schema_references f) {||}"

section \<open>The graph\<close>

record fact_graph =
  graph_dependencies :: "(schema_fact_id, schema_fact_id fset) fmap"
  graph_dependents :: "(schema_fact_id, schema_fact_id fset) fmap"

definition add_dependent :: "schema_fact_id \<Rightarrow> schema_fact_id \<Rightarrow> (schema_fact_id, schema_fact_id fset) fmap \<Rightarrow>
    (schema_fact_id, schema_fact_id fset) fmap" where
  "add_dependent dependent prerequisite m =
     fmupd prerequisite (finsert dependent (unwrap_or (fmlookup m prerequisite) {||})) m"

definition reverse_graph :: "(schema_fact_id, schema_fact_id fset) fmap \<Rightarrow>
    (schema_fact_id, schema_fact_id fset) fmap" where
  "reverse_graph deps =
     fold (\<lambda>(dependent, prerequisites). fold (add_dependent dependent) (sorted_list_of_fset prerequisites))
       (sorted_list_of_fmap deps)
       (fold (\<lambda>i m. fmupd i (unwrap_or (fmlookup m i) {||}) m) (fm_keys deps) fmempty)"

fun collect_inventory :: "schema_fact list \<Rightarrow> fact_map \<Rightarrow> fact_map res" where
  "collect_inventory [] inventory = Inr inventory"
| "collect_inventory (f # fs) inventory =
     (if fact_id f |\<in>| fmdom inventory then Inl (integrity ''schema_delta_duplicate_fact'')
      else collect_inventory fs (fmupd (fact_id f) f inventory))"

definition graph_from_facts :: "schema_fact list \<Rightarrow> fact_graph res" where
  "graph_from_facts fs =
     bind_res (collect_inventory fs fmempty) (\<lambda>inventory.
     bind_res (map_res (\<lambda>f. bind_res (dependencies_for (facts_list inventory) f) (\<lambda>d. Inr (fact_id f, d)))
                 (facts_list inventory)) (\<lambda>entries.
       (let deps = fmap_of_list entries in
        Inr \<lparr>graph_dependencies = deps, graph_dependents = reverse_graph deps\<rparr>)))"

definition validate_complete :: "fact_graph \<Rightarrow> unit res" where
  "validate_complete g =
     (if list_all (\<lambda>(dependent, prerequisites).
           list_all (\<lambda>p. p |\<in>| fmdom (graph_dependencies g)) (sorted_list_of_fset prerequisites))
           (sorted_list_of_fmap (graph_dependencies g))
      then Inr () else Inl (integrity ''schema_delta_missing_dependency''))"

section \<open>Well-formed fact maps\<close>

definition sub_step :: "(type_id \<Rightarrow> sub_fact_id list) \<Rightarrow> type_id \<Rightarrow> type_id \<Rightarrow> bool" where
  "sub_step edges t u \<longleftrightarrow> (\<exists>s \<in> set (edges t). sub_supertype s = u)"

fun is_sub_chain :: "(type_id \<Rightarrow> sub_fact_id list) \<Rightarrow> type_id \<Rightarrow> sub_fact_id list \<Rightarrow> type_id \<Rightarrow> bool" where
  "is_sub_chain edges t [] u \<longleftrightarrow> t = u"
| "is_sub_chain edges t (s # p) u \<longleftrightarrow> s \<in> set (edges t) \<and> is_sub_chain edges (sub_supertype s) p u"

lemma set_facts_list: "f \<in> set (facts_list facts) \<longleftrightarrow> (\<exists>i. fmlookup facts i = Some f)"
  by (simp add: facts_list_def set_fm_values)

lemma facts_keyed_list:
  assumes "facts_keyed facts"
  shows "map fact_id (facts_list facts) = fm_keys facts"
proof -
  have "fact_id (the (fmlookup facts i)) = i" if "i \<in> set (fm_keys facts)" for i
    using that assms by (auto simp: facts_keyed_def fmlookup_dom_iff)
  then show ?thesis unfolding facts_list_def fm_values_conv by (auto intro!: map_idI)
qed

lemma collect_inventory_eq:
  "collect_inventory fs inventory =
     (if distinct (map fact_id fs) \<and> (\<forall>f \<in> set fs. fact_id f |\<notin>| fmdom inventory)
      then Inr (fold insert_fact fs inventory) else Inl (integrity ''schema_delta_duplicate_fact''))"
proof (induction fs arbitrary: inventory)
  case (Cons f fs)
  have "(\<forall>g \<in> set fs. fact_id g |\<notin>| fmdom (fmupd (fact_id f) f inventory)) \<longleftrightarrow>
      fact_id f \<notin> fact_id ` set fs \<and> (\<forall>g \<in> set fs. fact_id g |\<notin>| fmdom inventory)"
    by (simp add: image_iff) metis
  moreover have "insert_fact f inventory = fmupd (fact_id f) f inventory" by (simp add: insert_fact_def)
  ultimately show ?case using Cons.IH [of "fmupd (fact_id f) f inventory"] by (auto simp: image_iff)
qed simp

lemma find_facts_list:
  assumes "facts_keyed facts"
  shows "find (\<lambda>f. fact_id f = i) (facts_list facts) = fmlookup facts i"
proof (cases "fmlookup facts i")
  case None
  then show ?thesis using assms by (auto simp: find_None_iff set_facts_list facts_keyed_def)
next
  case (Some f)
  then have "find (\<lambda>f. fact_id f = i) (facts_list facts) \<noteq> None"
    using assms by (auto simp: find_None_iff set_facts_list facts_keyed_def)
  then obtain g where g: "find (\<lambda>f. fact_id f = i) (facts_list facts) = Some g" by blast
  then have "g \<in> set (facts_list facts)" "fact_id g = i" by (auto simp: find_Some_iff)
  then have "fmlookup facts i = Some g" using assms by (auto simp: set_facts_list facts_keyed_def)
  with g show ?thesis by simp
qed

lemma fold_facts_list:
  assumes "facts_keyed facts"
  shows "fold insert_fact (facts_list facts) fmempty = facts"
proof (rule fmap_ext)
  fix i
  have "distinct (map fact_id (facts_list facts))" using assms by (simp add: facts_keyed_list)
  then show "fmlookup (fold insert_fact (facts_list facts) fmempty) i = fmlookup facts i"
    by (simp add: fold_insert_fact_lookup find_facts_list [OF assms] split: option.splits)
qed

lemma collect_inventory_facts:
  "facts_keyed facts \<Longrightarrow> collect_inventory (facts_list facts) fmempty = Inr facts"
  by (simp add: collect_inventory_eq facts_keyed_list fold_facts_list)

section \<open>The subtype path search\<close>

lemma find_sub_path_sound:
  "find_sub_path edges fuel t u visited = Some (Some p, visited') \<Longrightarrow> is_sub_chain edges t p u"
  "find_sub_path_edges edges fuel es u visited = Some (Some p, visited') \<Longrightarrow>
     \<exists>e q. p = e # q \<and> e \<in> set es \<and> is_sub_chain edges (sub_supertype e) q u"
  by (induction edges fuel t u visited and edges fuel es u visited
      arbitrary: p visited' and p visited' rule: find_sub_path_find_sub_path_edges.induct)
     (fastforce split: if_splits option.splits)+

lemma find_sub_path_None:
  "find_sub_path edges fuel t u visited = Some (None, visited') \<Longrightarrow>
     finsert t visited |\<subseteq>| visited' \<and> (u |\<in>| visited' \<longrightarrow> u |\<in>| visited)
     \<and> (\<forall>x. x |\<in>| visited' \<longrightarrow> x |\<notin>| visited \<longrightarrow> (\<forall>e \<in> set (edges x). sub_supertype e |\<in>| visited'))"
  "find_sub_path_edges edges fuel es u visited = Some (None, visited') \<Longrightarrow>
     visited |\<subseteq>| visited' \<and> (\<forall>e \<in> set es. sub_supertype e |\<in>| visited') \<and> (u |\<in>| visited' \<longrightarrow> u |\<in>| visited)
     \<and> (\<forall>x. x |\<in>| visited' \<longrightarrow> x |\<notin>| visited \<longrightarrow> (\<forall>e \<in> set (edges x). sub_supertype e |\<in>| visited'))"
proof (induction edges fuel t u visited and edges fuel es u visited
    arbitrary: visited' and visited' rule: find_sub_path_find_sub_path_edges.induct)
  case (2 edges fuel t u visited)
  then show ?case by (fastforce split: if_splits)
next
  case (4 edges fuel e es u visited)
  then obtain v1 where v1: "find_sub_path edges fuel (sub_supertype e) u visited = Some (None, v1)"
      "find_sub_path_edges edges fuel es u v1 = Some (None, visited')"
    by (auto split: option.splits)
  have a: "finsert (sub_supertype e) visited |\<subseteq>| v1 \<and> (u |\<in>| v1 \<longrightarrow> u |\<in>| visited)
     \<and> (\<forall>x. x |\<in>| v1 \<longrightarrow> x |\<notin>| visited \<longrightarrow> (\<forall>e \<in> set (edges x). sub_supertype e |\<in>| v1))"
    using 4(1) v1(1) .
  have b: "v1 |\<subseteq>| visited' \<and> (\<forall>e \<in> set es. sub_supertype e |\<in>| visited') \<and> (u |\<in>| visited' \<longrightarrow> u |\<in>| v1)
     \<and> (\<forall>x. x |\<in>| visited' \<longrightarrow> x |\<notin>| v1 \<longrightarrow> (\<forall>e \<in> set (edges x). sub_supertype e |\<in>| visited'))"
    using 4(2) [OF v1(1) refl refl v1(2)] .
  have sub: "x |\<in>| visited'" if "x |\<in>| v1" for x using b that by (meson fsubsetD)
  show ?case
  proof (intro conjI allI impI)
    show "visited |\<subseteq>| visited'" using a b by (meson dual_order.trans fsubset_finsertI)
    show "\<forall>x \<in> set (e # es). sub_supertype x |\<in>| visited'" using a b sub by auto
    show "u |\<in>| visited' \<Longrightarrow> u |\<in>| visited" using a b by blast
    show "\<forall>f \<in> set (edges x). sub_supertype f |\<in>| visited'" if "x |\<in>| visited'" "x |\<notin>| visited" for x
      using a b sub that by (cases "x |\<in>| v1") blast+
  qed
qed auto

text \<open>The fuel bound: each nested call marks another type that has outgoing edges.\<close>

lemma find_sub_path_fuel:
  assumes "finite S" "\<And>t. edges t \<noteq> [] \<Longrightarrow> t \<in> S"
  shows "card (S - fset visited) < fuel \<Longrightarrow>
      \<exists>r visited'. find_sub_path edges fuel t u visited = Some (r, visited') \<and> visited |\<subseteq>| visited'"
    and "card (S - fset visited) < fuel \<or> es = [] \<Longrightarrow>
      \<exists>r visited'. find_sub_path_edges edges fuel es u visited = Some (r, visited') \<and> visited |\<subseteq>| visited'"
  using assms
proof (induction edges fuel t u visited and edges fuel es u visited rule: find_sub_path_find_sub_path_edges.induct)
  case (2 edges fuel t u visited)
  show ?case
  proof (cases "t = u \<or> t |\<in>| visited")
    case False
    have "card (S - fset (finsert t visited)) < fuel \<or> edges t = []"
    proof (cases "edges t = []")
      case ne: False
      then have "card (S - fset (finsert t visited)) < card (S - fset visited)"
        using 2(3,4) False by (intro psubset_card_mono) auto
      with 2(2) show ?thesis by simp
    qed simp
    with 2(1) False 2(3,4) obtain r v where
      "find_sub_path_edges edges fuel (edges t) u (finsert t visited) = Some (r, v)" "finsert t visited |\<subseteq>| v"
      by auto
    with False show ?thesis by auto
  qed auto
next
  case (4 edges fuel e es u visited)
  then obtain r v1 where v1: "find_sub_path edges fuel (sub_supertype e) u visited = Some (r, v1)"
      "visited |\<subseteq>| v1" by auto
  show ?case
  proof (cases r)
    case None
    have "card (S - fset v1) \<le> card (S - fset visited)"
      using v1(2) 4(4) by (intro card_mono) (auto simp: less_eq_fset.rep_eq)
    then have "card (S - fset v1) < fuel \<or> es = []" using 4(3) by simp
    with 4(2) [OF v1(1)] None 4(4,5) obtain r' v where
      "find_sub_path_edges edges fuel es u v1 = Some (r', v)" "v1 |\<subseteq>| v" by auto
    with v1 None show ?thesis by auto
  qed (use v1 in auto)
qed auto

declare find_sub_path.simps [simp del] find_sub_path_edges.simps [simp del]

lemma set_sub_facts: "s \<in> set (sub_facts fs) \<longleftrightarrow> FactSub s \<in> set fs"
  by (induction fs) (auto simp: sub_facts_def List.map_filter_simps split: schema_fact.splits)

lemma set_sub_by_child: "s \<in> set (sub_by_child fs t) \<longleftrightarrow> FactSub s \<in> set fs \<and> sub_subtype s = t"
  by (auto simp: sub_by_child_def set_sub_facts)

lemma length_sub_facts: "length (sub_facts fs) \<le> length fs"
  by (induction fs) (auto simp: sub_facts_def List.map_filter_simps split: schema_fact.splits)

lemma sub_path_search:
  "\<exists>r visited. find_sub_path (sub_by_child fs) (length fs + 2) t u {||} = Some (r, visited)"
proof -
  let ?S = "sub_subtype ` set (sub_facts fs)"
  have "card ?S \<le> length fs"
    using length_sub_facts [of fs] card_image_le [of "set (sub_facts fs)" sub_subtype]
      card_length [of "sub_facts fs"] by simp
  then have "card (?S - fset {||}) < length fs + 2" by simp
  moreover have "x \<in> ?S" if "sub_by_child fs x \<noteq> []" for x
    using hd_in_set [OF that] by (metis image_eqI set_sub_by_child set_sub_facts)
  ultimately show ?thesis using find_sub_path_fuel(1) [of ?S "sub_by_child fs" "{||}" "length fs + 2" t u]
    by auto
qed

lemma is_sub_chain_reach: "is_sub_chain edges t p u \<Longrightarrow> (sub_step edges)\<^sup>*\<^sup>* t u"
proof (induction p arbitrary: t)
  case (Cons e p)
  then have "sub_step edges t (sub_supertype e)" by (auto simp: sub_step_def)
  with Cons show ?case by (auto intro: converse_rtranclp_into_rtranclp)
qed simp

lemma sub_path_Some: "sub_path fs t u = Some p \<Longrightarrow> is_sub_chain (sub_by_child fs) t p u"
  using find_sub_path_sound(1) by (auto simp: sub_path_def Option.bind_eq_Some_conv)

lemma sub_path_None: "sub_path fs t u = None \<longleftrightarrow> \<not> (sub_step (sub_by_child fs))\<^sup>*\<^sup>* t u"
proof
  assume "sub_path fs t u = None"
  then obtain v where v: "find_sub_path (sub_by_child fs) (length fs + 2) t u {||} = Some (None, v)"
    using sub_path_search [of fs t u] by (auto simp: sub_path_def)
  note post = find_sub_path_None(1) [OF v]
  show "\<not> (sub_step (sub_by_child fs))\<^sup>*\<^sup>* t u"
  proof
    assume "(sub_step (sub_by_child fs))\<^sup>*\<^sup>* t u"
    then have "u |\<in>| v"
      by (induction rule: rtranclp_induct) (use post in \<open>auto simp: sub_step_def\<close>)
    with post show False by simp
  qed
next
  assume "\<not> (sub_step (sub_by_child fs))\<^sup>*\<^sup>* t u"
  then show "sub_path fs t u = None"
    using sub_path_Some is_sub_chain_reach by (metis not_None_eq)
qed

section \<open>The graph of an inventory\<close>

definition fact_dependencies :: "fact_map \<Rightarrow> schema_fact_id \<Rightarrow> schema_fact_id fset res option" where
  "fact_dependencies facts i = map_option (dependencies_for (facts_list facts)) (fmlookup facts i)"

lemma graph_entries_Inr:
  "map_res (\<lambda>f. bind_res (dependencies_for fs f) (\<lambda>d. Inr (fact_id f, d))) gs = Inr entries \<longleftrightarrow>
   (\<forall>f \<in> set gs. \<exists>d. dependencies_for fs f = Inr d)
   \<and> entries = map (\<lambda>f. (fact_id f, case dependencies_for fs f of Inr d \<Rightarrow> d)) gs"
proof (induction gs arbitrary: entries)
  case (Cons f gs)
  show ?case
    by (cases "dependencies_for fs f") (auto simp: res_simps Cons simp del: map_res_eq_Inr)
qed auto

lemma map_of_facts:
  assumes "facts_keyed facts"
  shows "map_of (map (\<lambda>f. (fact_id f, h f)) (facts_list facts)) i = map_option h (fmlookup facts i)"
proof -
  have "map_of (map (\<lambda>f. (fact_id f, h f)) fs) i = map_option h (find (\<lambda>f. fact_id f = i) fs)" for fs
    by (induction fs) auto
  then show ?thesis by (simp add: find_facts_list [OF assms])
qed

lemma graph_from_facts_iff:
  assumes "facts_keyed facts"
  shows "graph_from_facts (facts_list facts) = Inr g \<longleftrightarrow>
    (\<forall>f \<in> set (facts_list facts). \<exists>d. dependencies_for (facts_list facts) f = Inr d)
    \<and> (\<forall>i. fmlookup (graph_dependencies g) i =
          map_option (\<lambda>f. case dependencies_for (facts_list facts) f of Inr d \<Rightarrow> d) (fmlookup facts i))
    \<and> graph_dependents g = reverse_graph (graph_dependencies g)" (is "?l \<longleftrightarrow> ?r")
proof -
  let ?h = "\<lambda>f. case dependencies_for (facts_list facts) f of Inr d \<Rightarrow> d"
  let ?m = "fmap_of_list (map (\<lambda>f. (fact_id f, ?h f)) (facts_list facts))"
  have lookup: "fmlookup ?m i = map_option ?h (fmlookup facts i)" for i
    by (simp add: fmlookup_of_list map_of_facts [OF assms])
  have "?l \<longleftrightarrow> (\<forall>f \<in> set (facts_list facts). \<exists>d. dependencies_for (facts_list facts) f = Inr d)
      \<and> g = \<lparr>graph_dependencies = ?m, graph_dependents = reverse_graph ?m\<rparr>"
    by (auto simp: graph_from_facts_def collect_inventory_facts [OF assms] bind_res_eq_Inr graph_entries_Inr Let_def
        simp del: map_res_eq_Inr)
  moreover have "(\<forall>i. fmlookup (graph_dependencies g) i = map_option ?h (fmlookup facts i)) \<longleftrightarrow> graph_dependencies g = ?m"
    by (auto simp: lookup intro!: fmap_ext)
  ultimately show ?thesis by (cases g) auto
qed

lemma graph_dependencies_lookup:
  assumes "facts_keyed facts" "graph_from_facts (facts_list facts) = Inr g"
  shows "fmlookup (graph_dependencies g) i = Some d \<longleftrightarrow>
      (\<exists>f. fmlookup facts i = Some f \<and> dependencies_for (facts_list facts) f = Inr d)"
    and "fmdom (graph_dependencies g) = fmdom facts"
proof -
  have g: "\<forall>f \<in> set (facts_list facts). \<exists>d. dependencies_for (facts_list facts) f = Inr d"
    "\<And>i. fmlookup (graph_dependencies g) i =
          map_option (\<lambda>f. case dependencies_for (facts_list facts) f of Inr d \<Rightarrow> d) (fmlookup facts i)"
    using assms graph_from_facts_iff by blast+
  show "fmlookup (graph_dependencies g) i = Some d \<longleftrightarrow>
      (\<exists>f. fmlookup facts i = Some f \<and> dependencies_for (facts_list facts) f = Inr d)"
    using g(1) by (force simp: g(2) set_facts_list)
  show "fmdom (graph_dependencies g) = fmdom facts"
    by (rule fset_eqI) (simp add: fmlookup_in_dom g(2))
qed

section \<open>Dependents and completeness\<close>

definition dependents_of :: "(schema_fact_id, schema_fact_id fset) fmap \<Rightarrow> schema_fact_id \<Rightarrow> schema_fact_id fset" where
  "dependents_of m p = unwrap_or (fmlookup m p) {||}"

lemma dependents_of_add:
  "dependents_of (add_dependent d q m) p = (if p = q then finsert d (dependents_of m p) else dependents_of m p)"
  by (simp add: dependents_of_def add_dependent_def unwrap_or_def)

lemma dependents_of_inner:
  "x |\<in>| dependents_of (fold (add_dependent d) ps m) p \<longleftrightarrow> x |\<in>| dependents_of m p \<or> (p \<in> set ps \<and> x = d)"
  by (induction ps arbitrary: m) (auto simp: dependents_of_add)

lemma dependents_of_outer:
  "x |\<in>| dependents_of (fold (\<lambda>(d, ps). fold (add_dependent d) (sorted_list_of_fset ps)) es m) p \<longleftrightarrow>
     x |\<in>| dependents_of m p \<or> (\<exists>ps. (x, ps) \<in> set es \<and> p |\<in>| ps)"
  by (induction es arbitrary: m) (auto simp: dependents_of_inner)

lemma dependents_of_init:
  "(\<forall>p. dependents_of m p = {||}) \<Longrightarrow>
   dependents_of (fold (\<lambda>i m. fmupd i (unwrap_or (fmlookup m i) {||}) m) ks m) p = {||}"
proof (induction ks arbitrary: m)
  case (Cons k ks)
  have "\<forall>p. dependents_of (fmupd k (unwrap_or (fmlookup m k) {||}) m) p = {||}"
    using Cons.prems by (simp add: dependents_of_def unwrap_or_def)
  then show ?case using Cons.IH by simp
qed simp

lemma reverse_graph_dependents:
  "x |\<in>| dependents_of (reverse_graph deps) p \<longleftrightarrow> (\<exists>ps. fmlookup deps x = Some ps \<and> p |\<in>| ps)"
proof -
  have "dependents_of (fold (\<lambda>i m. fmupd i (unwrap_or (fmlookup m i) {||}) m) (fm_keys deps) fmempty) p = {||}"
    by (rule dependents_of_init) (simp add: dependents_of_def unwrap_or_def)
  then show ?thesis by (simp add: reverse_graph_def dependents_of_outer set_sorted_list_of_fmap)
qed

lemma validate_complete_iff:
  "validate_complete g = Inr () \<longleftrightarrow>
     (\<forall>i d. fmlookup (graph_dependencies g) i = Some d \<longrightarrow> d |\<subseteq>| fmdom (graph_dependencies g))"
proof -
  let ?D = "fmdom (graph_dependencies g)"
  have "list_all (\<lambda>(i, d). list_all (\<lambda>p. p |\<in>| ?D) (sorted_list_of_fset d)) (sorted_list_of_fmap (graph_dependencies g))
      \<longleftrightarrow> (\<forall>(i, d) \<in> set (sorted_list_of_fmap (graph_dependencies g)). d |\<subseteq>| ?D)"
    by (auto simp: list_all_iff less_eq_fset.rep_eq subset_iff)
  also have "\<dots> \<longleftrightarrow> (\<forall>i d. fmlookup (graph_dependencies g) i = Some d \<longrightarrow> d |\<subseteq>| ?D)"
    by (simp add: split_beta flip: set_sorted_list_of_fmap) (metis fst_conv snd_conv surj_pair)
  finally show ?thesis by (simp add: validate_complete_def)
qed

text \<open>An inventory whose graph builds and is complete: every fact's prerequisites are present.\<close>

definition complete_inventory :: "fact_map \<Rightarrow> bool" where
  "complete_inventory facts \<longleftrightarrow>
     (\<forall>i f. fmlookup facts i = Some f \<longrightarrow>
        (\<exists>d. dependencies_for (facts_list facts) f = Inr d \<and> d |\<subseteq>| fmdom facts))"

lemma complete_inventory_iff:
  assumes "facts_keyed facts"
  shows "(\<exists>g. graph_from_facts (facts_list facts) = Inr g \<and> validate_complete g = Inr ()) \<longleftrightarrow> complete_inventory facts"
proof
  assume "\<exists>g. graph_from_facts (facts_list facts) = Inr g \<and> validate_complete g = Inr ()"
  then obtain g where g: "graph_from_facts (facts_list facts) = Inr g" "validate_complete g = Inr ()" by blast
  show "complete_inventory facts"
    unfolding complete_inventory_def
  proof (intro allI impI)
    fix i f assume f: "fmlookup facts i = Some f"
    then obtain d where "dependencies_for (facts_list facts) f = Inr d"
      using g(1) graph_from_facts_iff [OF assms] set_facts_list by blast
    with f g graph_dependencies_lookup [OF assms g(1)] show "\<exists>d. dependencies_for (facts_list facts) f = Inr d \<and> d |\<subseteq>| fmdom facts"
      unfolding validate_complete_iff by metis
  qed
next
  assume c: "complete_inventory facts"
  let ?h = "\<lambda>f. case dependencies_for (facts_list facts) f of Inr d \<Rightarrow> d"
  let ?m = "fmmap ?h facts"
  have "graph_from_facts (facts_list facts) = Inr \<lparr>graph_dependencies = ?m, graph_dependents = reverse_graph ?m\<rparr>"
    using c unfolding graph_from_facts_iff [OF assms]
    by (simp add: complete_inventory_def) (metis set_facts_list)
  moreover have "validate_complete \<lparr>graph_dependencies = ?m, graph_dependents = reverse_graph ?m\<rparr> = Inr ()"
    unfolding validate_complete_iff using c by (force simp: complete_inventory_def)
  ultimately show "\<exists>g. graph_from_facts (facts_list facts) = Inr g \<and> validate_complete g = Inr ()" by blast
qed

end
