(* ===== verification/Fact_Order.thy ===== *)
theory Fact_Order
  imports Fact_Graph Tarjan Kahn
begin

text \<open>
  \<open>strongly_connected_components\<close> and \<open>ordered_components\<close> of \<open>schema/src/delta_dependencies.rs\<close>: the
  components of a node subset of the fact graph, ordered so that dependencies come first and ties are
  broken by the smallest member. The graph search and the counting loop are those of \<open>Tarjan\<close> and
  \<open>Kahn\<close>; this theory instantiates their interfaces with the fact graph. \<open>None\<close> stands for a panic
  or exhausted fuel and is shown not to occur.
\<close>

section \<open>Definitions\<close>

definition graph_neighbors :: "fact_graph \<Rightarrow> schema_fact_id fset \<Rightarrow> schema_fact_id \<Rightarrow> schema_fact_id list" where
  "graph_neighbors g nodes n =
     filter (\<lambda>x. x |\<in>| nodes) (sorted_list_of_fset (unwrap_or (fmlookup (graph_dependencies g) n) {||}))"

definition strongly_connected_components ::
  "fact_graph \<Rightarrow> schema_fact_id fset \<Rightarrow> schema_fact_id list list option" where
  "strongly_connected_components g nodes = scc_components (graph_neighbors g nodes) (fcard nodes) nodes"

definition component_index :: "'a list list \<Rightarrow> ('a, nat) fmap" where
  "component_index components =
     fold (\<lambda>(i, c). fold (\<lambda>n m. fmupd n i m) c) (List.enumerate 0 components) fmempty"

definition component_prerequisites ::
  "fact_graph \<Rightarrow> schema_fact_id list list \<Rightarrow> nat \<Rightarrow> nat fset" where
  "component_prerequisites g components i =
     fset_of_list (filter (\<lambda>j. j \<noteq> i)
       (List.map_filter (fmlookup (component_index components))
         (concat (map (\<lambda>n. sorted_list_of_fset (unwrap_or (fmlookup (graph_dependencies g) n) {||}))
                   (components ! i)))))"

definition ordered_components ::
  "fact_graph \<Rightarrow> schema_fact_id fset \<Rightarrow> schema_fact_id list list option" where
  "ordered_components g nodes =
     (if nodes = {||} then Some []
      else
        Option.bind (strongly_connected_components g nodes) (\<lambda>components.
          if [] \<in> set components then None
          else
            (let k = length components;
                 prerequisites = map (component_prerequisites g components) [0..<k];
                 dependents = map (\<lambda>j. filter (\<lambda>i. j |\<in>| prerequisites ! i) [0..<k]) [0..<k];
                 keys = map hd components;
                 remaining = map fcard prerequisites;
                 ready = fset_of_list (map (\<lambda>i. (keys ! i, i)) (filter (\<lambda>i. remaining ! i = 0) [0..<k]))
             in map_option (map (\<lambda>i. components ! i)) (vec_drain dependents keys remaining ready []))))"

section \<open>The interfaces instantiated\<close>

interpretation fact_digraph: digraph "graph_neighbors g nodes" "fset nodes" for g nodes
  by unfold_locales (auto simp: graph_neighbors_def)

lemma scc_correct:
  "\<exists>cs. strongly_connected_components g nodes = Some cs \<and> is_scc_order (graph_neighbors g nodes) (fset nodes) cs"
  unfolding strongly_connected_components_def
  by (rule fact_digraph.scc_components_correct) (simp_all add: fcard.rep_eq)

section \<open>The component index\<close>

lemma fold_upd_const:
  "fmlookup (fold (\<lambda>n m. fmupd n i m) c m) x = (if x \<in> set c then Some i else fmlookup m x)"
  by (induction c arbitrary: m) auto

lemma component_index_fold:
  "distinct (concat cs) \<Longrightarrow>
   fmlookup (fold (\<lambda>(i, c). fold (\<lambda>n m. fmupd n i m) c) (List.enumerate b cs) m) x = Some j \<longleftrightarrow>
   (b \<le> j \<and> j < b + length cs \<and> x \<in> set (cs ! (j - b))) \<or> (x \<notin> set (concat cs) \<and> fmlookup m x = Some j)"
proof (induction cs arbitrary: b m)
  case (Cons c cs)
  have split: "(b \<le> j \<and> j < b + length (c # cs) \<and> x \<in> set ((c # cs) ! (j - b))) \<longleftrightarrow>
      (j = b \<and> x \<in> set c) \<or> (Suc b \<le> j \<and> j < Suc b + length cs \<and> x \<in> set (cs ! (j - Suc b)))"
    by (cases "j = b") (auto simp: Suc_diff_le nth_Cons' le_less)
  have mem: "Suc b \<le> j \<Longrightarrow> j < Suc b + length cs \<Longrightarrow> x \<in> set (cs ! (j - Suc b)) \<Longrightarrow> x \<in> set (concat cs)"
    by (metis add.commute in_set_conv_nth less_diff_conv2 nth_mem set_concat UN_iff)
  from Cons show ?case
    unfolding split by (auto simp: fold_upd_const dest: mem)
qed auto

lemma component_index_lookup:
  assumes "distinct (concat cs)"
  shows "fmlookup (component_index cs) x = Some j \<longleftrightarrow> j < length cs \<and> x \<in> set (cs ! j)"
  using component_index_fold [OF assms, of 0 fmempty x j] by (simp add: component_index_def)

lemma block_unique:
  assumes "distinct (concat cs)" "i < length cs" "j < length cs" "x \<in> set (cs ! i)" "x \<in> set (cs ! j)"
  shows "i = j"
  using component_index_lookup [OF assms(1), of x i] component_index_lookup [OF assms(1), of x j] assms by simp

section \<open>The condensed graph\<close>

lemma set_component_prerequisites:
  assumes "is_scc_order (graph_neighbors g nodes) (fset nodes) cs" "i < length cs"
  shows "j |\<in>| component_prerequisites g cs i \<longleftrightarrow>
    j \<noteq> i \<and> j < length cs \<and> (\<exists>n \<in> set (cs ! i). \<exists>d \<in> set (graph_neighbors g nodes n). d \<in> set (cs ! j))"
proof -
  have dist: "distinct (concat cs)" and all: "set (concat cs) = fset nodes"
    using assms(1) by (auto simp: is_scc_order_def)
  have "j |\<in>| component_prerequisites g cs i \<longleftrightarrow> j \<noteq> i \<and>
      (\<exists>n \<in> set (cs ! i). \<exists>d. d |\<in>| unwrap_or (fmlookup (graph_dependencies g) n) {||}
         \<and> fmlookup (component_index cs) d = Some j)"
    by (auto simp: component_prerequisites_def fset_of_list_elem in_set_map_filter)
  also have "\<dots> \<longleftrightarrow> j \<noteq> i \<and> j < length cs \<and>
      (\<exists>n \<in> set (cs ! i). \<exists>d \<in> set (graph_neighbors g nodes n). d \<in> set (cs ! j))"
  proof -
    have "d |\<in>| nodes" if "j < length cs" "d \<in> set (cs ! j)" for d
      using that all nth_mem by (fastforce simp: set_concat)
    then show ?thesis by (auto simp: component_index_lookup [OF dist] graph_neighbors_def)
  qed
  finally show ?thesis .
qed

lemma component_prerequisites_earlier:
  assumes scc: "is_scc_order (graph_neighbors g nodes) (fset nodes) cs" and "i < length cs"
    and "j |\<in>| component_prerequisites g cs i"
  shows "j < i"
proof -
  obtain n d where nd: "j \<noteq> i" "j < length cs" "n \<in> set (cs ! i)" "d \<in> set (graph_neighbors g nodes n)"
      "d \<in> set (cs ! j)"
    using assms set_component_prerequisites [OF scc] by blast
  have "blocks_closed (graph_neighbors g nodes) cs" using scc by (simp add: is_scc_order_def)
  then have "d \<in> \<Union> (set ` set (take (Suc i) cs))"
    using assms(2) nd(3,4) unfolding blocks_closed_def by blast
  then obtain c where c: "c \<in> set (take (Suc i) cs)" "d \<in> set c" by blast
  then obtain m where m: "m \<le> i" "d \<in> set (cs ! m)"
    using assms(2) by (metis in_set_conv_nth length_take less_Suc_eq_le min_less_iff_conj nth_take)
  then have "m = j"
    using block_unique [of cs m j d] scc nd assms(2) by (auto simp: is_scc_order_def)
  with m nd show ?thesis by simp
qed

lemma component_index_bound:
  "fmlookup (fold (\<lambda>(i, c). fold (\<lambda>n m. fmupd n i m) c) (List.enumerate b cs) m) x = Some j \<Longrightarrow>
   j < b + length cs \<or> fmlookup m x = Some j"
  by (induction cs arbitrary: b m) (fastforce simp: fold_upd_const split: if_splits)+

interpretation condensed: prerequisites "{..<length cs}" "\<lambda>i. fset (component_prerequisites g cs i)" for g cs
proof unfold_locales
  show "fset (component_prerequisites g cs i) \<subseteq> {..<length cs}" for i
    using component_index_bound [of 0 cs fmempty]
    by (auto simp: component_prerequisites_def component_index_def fset_of_list_elem in_set_map_filter)
qed simp

lemma condensed_acyclic:
  assumes "is_scc_order (graph_neighbors g nodes) (fset nodes) cs"
  shows "acyclic {(y, x). x \<in> {..<length cs} \<and> y \<in> fset (component_prerequisites g cs x)}"
proof -
  have "{(y, x). x \<in> {..<length cs} \<and> y \<in> fset (component_prerequisites g cs x)} \<subseteq> measure (\<lambda>x. x)"
    using component_prerequisites_earlier [OF assms] by auto
  then show ?thesis
    using wf_measure wf_subset wf_acyclic by blast
qed

lemma concat_permuted:
  assumes "distinct (concat cs)" "distinct order" "set order = {..<length cs}" "[] \<notin> set cs"
  shows "distinct (concat (map ((!) cs) order))" "set (concat (map ((!) cs) order)) = set (concat cs)"
proof -
  have nth: "(!) cs ` {..<length cs} = set cs" by (metis atLeast0LessThan nth_image order_refl take_all)
  have "distinct cs" using assms(1,4) by (auto simp: distinct_concat_iff removeAll_id)
  then have "distinct (map ((!) cs) order)"
    using assms(2,3) by (auto simp: distinct_map inj_on_def nth_eq_iff_index_eq)
  moreover have "set (map ((!) cs) order) = set cs" using nth assms(3) by simp
  ultimately show "distinct (concat (map ((!) cs) order))" "set (concat (map ((!) cs) order)) = set (concat cs)"
    using assms(1) by (auto simp: distinct_concat_iff distinct_removeAll)
qed

lemma permuted_scc_order:
  assumes scc: "is_scc_order (graph_neighbors g nodes) (fset nodes) cs"
    and order: "distinct order" "set order = {..<length cs}"
      "topo_order (\<lambda>i. fset (component_prerequisites g cs i)) order"
  shows "is_scc_order (graph_neighbors g nodes) (fset nodes) (map ((!) cs) order)"
proof -
  let ?N = "graph_neighbors g nodes"
  have parts: "distinct (concat cs)" "set (concat cs) = fset nodes" "\<forall>c \<in> set cs. sorted c"
      "blocks_connected ?N cs"
    using scc by (simp_all add: is_scc_order_def)
  have ne: "[] \<notin> set cs" using parts(4) by (auto simp: blocks_connected_def)
  have members: "set (map ((!) cs) order) \<subseteq> set cs"
  proof
    fix c assume "c \<in> set (map ((!) cs) order)"
    then obtain i where "i \<in> set order" "c = cs ! i" by auto
    with order(2) show "c \<in> set cs" by simp
  qed
  have "blocks_closed ?N (map ((!) cs) order)"
    unfolding blocks_closed_def
  proof (intro allI impI ballI subsetI)
    fix p x y assume p: "p < length (map ((!) cs) order)" and x: "x \<in> set (map ((!) cs) order ! p)" and y: "y \<in> set (?N x)"
    let ?i = "order ! p"
    have i: "?i < length cs" using p order(2) nth_mem by fastforce
    have "y \<in> fset nodes" using y by (auto simp: graph_neighbors_def)
    then obtain j where j: "j < length cs" "y \<in> set (cs ! j)"
      using parts(2) by (metis UN_E in_set_conv_nth set_concat)
    have "j \<in> set (take (Suc p) order)"
    proof (cases "j = ?i")
      case True
      then show ?thesis using p by (simp add: take_Suc_conv_app_nth)
    next
      case False
      then have "j |\<in>| component_prerequisites g cs ?i"
        using set_component_prerequisites [OF scc i] j x y p by auto
      then have "j \<in> set (take p order)" using order(3) p by (auto simp: topo_order_def)
      then show ?thesis using p by (simp add: take_Suc_conv_app_nth)
    qed
    then show "y \<in> \<Union> (set ` set (take (Suc p) (map ((!) cs) order)))" using j by (auto simp: take_map)
  qed
  then show ?thesis
    using concat_permuted [OF parts(1) order(1,2) ne] parts members
    by (auto simp: is_scc_order_def blocks_connected_def subset_iff)
qed

lemma vec_ready_init:
  assumes "prerequisites {..<k} pre" "\<And>i. i < k \<Longrightarrow> remaining ! i = card (pre i)"
  shows "fset (fset_of_list (map (\<lambda>i. (keys ! i, i)) (filter (\<lambda>i. remaining ! i = 0) [0..<k])))
    = (\<lambda>i. (keys ! i, i)) ` prerequisites.available {..<k} pre (set [])"
  using assms prerequisites.finite_pre [OF assms(1)]
  by (auto simp: prerequisites.available_def [OF assms(1)] fset_of_list.rep_eq image_iff)

text \<open>The ordering never fails and yields the strongly connected components, dependencies first.\<close>

lemma ordered_components_correct:
  "\<exists>cs. ordered_components g nodes = Some cs \<and> is_scc_order (graph_neighbors g nodes) (fset nodes) cs"
proof (cases "nodes = {||}")
  case True
  then show ?thesis
    by (auto simp: ordered_components_def is_scc_order_def blocks_connected_def blocks_closed_def)
next
  case False
  obtain cs where cs: "strongly_connected_components g nodes = Some cs"
      "is_scc_order (graph_neighbors g nodes) (fset nodes) cs"
    using scc_correct by blast
  let ?k = "length cs" and ?pre = "\<lambda>i. fset (component_prerequisites g cs i)"
  let ?prereqs = "map (component_prerequisites g cs) [0..<?k]"
  let ?deps = "map (\<lambda>j. filter (\<lambda>i. j |\<in>| ?prereqs ! i) [0..<?k]) [0..<?k]"
  let ?ready = "fset_of_list (map (\<lambda>i. (map hd cs ! i, i)) (filter (\<lambda>i. map fcard ?prereqs ! i = 0) [0..<?k]))"
  note graph = condensed.prerequisites_axioms [of cs g]
  have init: "prerequisites.progress {..<?k} ?pre []"
    by (simp add: condensed.progress_def topo_order_def)
  have deps: "distinct (?deps ! i) \<and> set (?deps ! i) = {j. j < ?k \<and> i \<in> ?pre j}" if "i < ?k" for i
    using that by auto
  have ready: "fset ?ready = (\<lambda>i. (map hd cs ! i, i)) ` prerequisites.available {..<?k} ?pre (set [])"
    by (rule vec_ready_init [OF graph]) (simp add: fcard.rep_eq)
  have "\<exists>order. vec_drain ?deps (map hd cs) (map fcard ?prereqs) ?ready [] = Some order
      \<and> prerequisites.progress {..<?k} ?pre order \<and> prerequisites.available {..<?k} ?pre (set order) = {}"
    by (rule vec_drain_correct [OF graph _ _ deps init _ _ ready])
       (simp_all add: condensed.unmet_def fcard.rep_eq)
  then obtain order where order: "vec_drain ?deps (map hd cs) (map fcard ?prereqs) ?ready [] = Some order"
      "prerequisites.progress {..<?k} ?pre order" "prerequisites.available {..<?k} ?pre (set order) = {}" by blast
  have "set order = {..<?k}"
    using condensed.finished_iff_acyclic [OF order(2,3)] condensed_acyclic [OF cs(2)] by blast
  then have "is_scc_order (graph_neighbors g nodes) (fset nodes) (map ((!) cs) order)"
    using permuted_scc_order [OF cs(2)] order(2) by (simp add: condensed.progress_def)
  moreover have "[] \<notin> set cs" using cs(2) by (auto simp: is_scc_order_def blocks_connected_def)
  ultimately show ?thesis using False cs(1) order(1) by (simp add: ordered_components_def Let_def)
qed

end
