(* ===== verification/Schema_Ops.thy ===== *)
theory Schema_Ops
  imports Fact_Order
begin

text \<open>
  Schema operations and deltas (\<open>contract/src/schema_delta.rs\<close>): the validated operations with
  their exact inverses, the managed selection of fact identities, the fingerprint-bound state of a
  managed scope, and the constructor of a delta with every check it makes, in the order of the code.
\<close>

section \<open>Operations\<close>

datatype schema_operation_kind = KindDefine | KindRedefine | KindUndefine

datatype schema_operation =
    Define "schema_fact list"
  | Redefine schema_fact schema_fact
  | Undefine schema_fact

definition operation_define :: "schema_fact list \<Rightarrow> schema_operation res" where
  "operation_define facts =
     bind_res (ensure (facts \<noteq> []) (Diagnostic InvalidContract ''empty_schema_define'')) (\<lambda>_.
     bind_res (ensure (length facts \<le> MAX_CANONICAL_COLLECTION_LEN)
                 (Diagnostic ResourceLimit ''too_many_schema_define_facts'')) (\<lambda>_.
       (let sorted = sort_key fact_id facts in
        if list_all (\<lambda>(f, g). fact_id f \<noteq> fact_id g) (zip sorted (tl sorted))
        then Inr (Define sorted)
        else Inl (Diagnostic InvalidContract ''duplicate_schema_operation_fact_id''))))"

definition operation_redefine :: "schema_fact \<Rightarrow> schema_fact \<Rightarrow> schema_operation res" where
  "operation_redefine expected replacement =
     (if fact_id expected \<noteq> fact_id replacement
      then Inl (Diagnostic InvalidContract ''schema_redefine_identity_mismatch'')
      else if expected = replacement then Inl (Diagnostic InvalidContract ''schema_redefine_noop'')
      else Inr (Redefine expected replacement))"

definition operation_undefine :: "schema_fact \<Rightarrow> schema_operation" where
  "operation_undefine f = Undefine f"

fun operation_kind :: "schema_operation \<Rightarrow> schema_operation_kind" where
  "operation_kind (Define _) = KindDefine"
| "operation_kind (Redefine _ _) = KindRedefine"
| "operation_kind (Undefine _) = KindUndefine"

fun affected_ids :: "schema_operation \<Rightarrow> schema_fact_id list" where
  "affected_ids (Define facts) = map fact_id facts"
| "affected_ids (Redefine expected _) = [fact_id expected]"
| "affected_ids (Undefine f) = [fact_id f]"

text \<open>The \<open>expect\<close> of a failed inverse constructor is \<open>None\<close>.\<close>

definition expect_ok :: "'a res \<Rightarrow> 'a option" where
  "expect_ok r = (case r of Inl _ \<Rightarrow> None | Inr x \<Rightarrow> Some x)"

fun operation_inverse :: "schema_operation \<Rightarrow> schema_operation list option" where
  "operation_inverse (Define facts) = Some (map operation_undefine (rev facts))"
| "operation_inverse (Redefine expected replacement) =
     map_option (\<lambda>op. [op]) (expect_ok (operation_redefine replacement expected))"
| "operation_inverse (Undefine f) = map_option (\<lambda>op. [op]) (expect_ok (operation_define [f]))"

section \<open>Managed selections and states\<close>

fun selection_loop :: "schema_fact_id list \<Rightarrow> schema_fact_id fset \<Rightarrow> schema_fact_id fset res" where
  "selection_loop [] selection = Inr selection"
| "selection_loop (i # ids) selection =
     (if i |\<in>| selection then Inl (Diagnostic InvalidContract ''duplicate_managed_fact_id'')
      else if fcard (finsert i selection) > MAX_CANONICAL_COLLECTION_LEN
      then Inl (Diagnostic ResourceLimit ''too_many_managed_fact_ids'')
      else selection_loop ids (finsert i selection))"

definition selection_new :: "schema_fact_id list \<Rightarrow> schema_fact_id fset res" where
  "selection_new ids = selection_loop ids {||}"

record managed_scope_binding =
  binding_scope_id :: string
  binding_profile_id :: string
  binding_profile_fingerprint :: fingerprint

record managed_schema_state =
  state_declared_identity :: fingerprint
  state_format :: nat
  state_managed_declared_identity :: fingerprint
  state_semantic_profile :: string
  state_managed_semantic_schema :: fingerprint
  state_required_capabilities :: capability_set
  state_scope :: managed_scope_binding
  state_selection :: "schema_fact_id fset"

definition managed_state_new :: "nat \<Rightarrow> capability_set \<Rightarrow> managed_scope_binding \<Rightarrow> schema_fact_id fset \<Rightarrow>
    fingerprint \<Rightarrow> fingerprint \<Rightarrow> string \<Rightarrow> fingerprint \<Rightarrow> managed_schema_state res" where
  "managed_state_new format capabilities scope selection declared_identity managed_identity profile managed_semantic =
     bind_res (ensure_format_version format 1) (\<lambda>_.
       Inr \<lparr>state_declared_identity = declared_identity, state_format = format,
            state_managed_declared_identity = managed_identity, state_semantic_profile = profile,
            state_managed_semantic_schema = managed_semantic, state_required_capabilities = capabilities,
            state_scope = scope, state_selection = selection\<rparr>)"

section \<open>Deltas\<close>

record schema_delta =
  delta_format :: nat
  delta_operations :: "schema_operation list"
  delta_required_capabilities :: capability_set
  delta_source :: managed_schema_state
  delta_target :: managed_schema_state

definition SCHEMA_REDEFINE_CAPABILITY :: string where
  "SCHEMA_REDEFINE_CAPABILITY = ''schema.redefine''"

definition patch_format_from_wire :: "nat \<Rightarrow> nat res" where
  "patch_format_from_wire v =
     (if v = 1 then Inr 1 else Inl (Diagnostic InvalidContract ''unsupported_patch_format_version''))"

definition claim_affected :: "schema_fact_id \<Rightarrow> schema_fact_id fset \<Rightarrow> schema_fact_id fset res" where
  "claim_affected i affected =
     (if i |\<in>| affected then Inl (Diagnostic InvalidContract ''duplicate_schema_delta_fact_id'')
      else Inr (finsert i affected))"

definition claim_defined :: "schema_fact \<Rightarrow> schema_fact_id fset \<Rightarrow> schema_fact_id fset res" where
  "claim_defined f transitioned =
     (if fact_id f |\<in>| transitioned then Inl (Diagnostic InvalidContract ''schema_delta_define_existing_fact'')
      else Inr (finsert (fact_id f) transitioned))"

fun transition_selection :: "schema_operation \<Rightarrow> schema_fact_id fset \<Rightarrow> schema_fact_id fset res" where
  "transition_selection (Define facts) transitioned = fold_res claim_defined facts transitioned"
| "transition_selection (Redefine expected _) transitioned =
     (if fact_id expected |\<in>| transitioned then Inr transitioned
      else Inl (Diagnostic InvalidContract ''schema_delta_redefine_missing_fact''))"
| "transition_selection (Undefine f) transitioned =
     (if fact_id f |\<in>| transitioned then Inr (transitioned |-| {|fact_id f|})
      else Inl (Diagnostic InvalidContract ''schema_delta_undefine_missing_fact''))"

definition transition_step :: "schema_operation \<Rightarrow> schema_fact_id fset \<times> schema_fact_id fset \<Rightarrow>
    (schema_fact_id fset \<times> schema_fact_id fset) res" where
  "transition_step op = (\<lambda>(affected, transitioned).
     bind_res (fold_res claim_affected (affected_ids op) affected) (\<lambda>affected'.
     bind_res (transition_selection op transitioned) (\<lambda>transitioned'.
       Inr (affected', transitioned'))))"

definition delta_capabilities :: "managed_schema_state \<Rightarrow> managed_schema_state \<Rightarrow> schema_operation list \<Rightarrow>
    capability_set res" where
  "delta_capabilities source target operations =
     (let base = state_required_capabilities source |\<union>| state_required_capabilities target in
      if list_ex (\<lambda>op. operation_kind op = KindRedefine) operations
      then bind_res (capability_id_new SCHEMA_REDEFINE_CAPABILITY) (\<lambda>c. Inr (finsert c base))
      else Inr base)"

definition schema_delta_new :: "nat \<Rightarrow> managed_schema_state \<Rightarrow> managed_schema_state \<Rightarrow> schema_operation list \<Rightarrow>
    schema_delta res" where
  "schema_delta_new format source target operations =
     bind_res (patch_format_from_wire format) (\<lambda>_.
     bind_res (ensure (state_format source = state_format target)
                 (Diagnostic InvalidContract ''schema_delta_format_transition'')) (\<lambda>_.
     bind_res (ensure (state_scope source = state_scope target)
                 (Diagnostic InvalidContract ''schema_delta_scope_transition'')) (\<lambda>_.
     bind_res (ensure (state_semantic_profile source = state_semantic_profile target)
                 (Diagnostic InvalidContract ''schema_delta_semantic_profile_transition'')) (\<lambda>_.
     bind_res (ensure (source \<noteq> target) (Diagnostic InvalidContract ''schema_delta_noop'')) (\<lambda>_.
     bind_res (ensure (\<not> (operations = [] \<and>
                   (state_selection source \<noteq> state_selection target
                    \<or> state_required_capabilities source = state_required_capabilities target
                    \<or> state_managed_declared_identity source = state_managed_declared_identity target
                    \<or> state_managed_semantic_schema source = state_managed_semantic_schema target)))
                 (Diagnostic InvalidContract ''invalid_schema_delta_capability_transition'')) (\<lambda>_.
     bind_res (ensure (length operations \<le> MAX_CANONICAL_COLLECTION_LEN)
                 (Diagnostic ResourceLimit ''too_many_schema_operations'')) (\<lambda>_.
     bind_res (fold_res transition_step operations ({||}, state_selection source)) (\<lambda>(_, transitioned).
     bind_res (ensure (transitioned = state_selection target)
                 (Diagnostic InvalidContract ''schema_delta_selection_mismatch'')) (\<lambda>_.
     bind_res (delta_capabilities source target operations) (\<lambda>capabilities.
       Inr \<lparr>delta_format = format, delta_operations = operations,
            delta_required_capabilities = capabilities, delta_source = source, delta_target = target\<rparr>))))))))))"

text \<open>\<open>inverse_delta\<close> of \<open>schema/src/delta.rs\<close>; \<open>None\<close> when an inverse constructor panics.\<close>

definition inverse_operations :: "schema_operation list \<Rightarrow> schema_operation list option" where
  "inverse_operations operations = map_option concat (those (map operation_inverse (rev operations)))"

definition inverse_delta :: "schema_delta \<Rightarrow> schema_delta res option" where
  "inverse_delta d =
     map_option (schema_delta_new (delta_format d) (delta_target d) (delta_source d))
       (inverse_operations (delta_operations d))"

text \<open>Execution compares lengths with the limit as integers.\<close>

lemma operation_define_code [code]:
  "operation_define facts =
     bind_res (ensure (facts \<noteq> []) (Diagnostic InvalidContract ''empty_schema_define'')) (\<lambda>_.
     bind_res (ensure (int (length facts) \<le> 65536)
                 (Diagnostic ResourceLimit ''too_many_schema_define_facts'')) (\<lambda>_.
       (let sorted = sort_key fact_id facts in
        if list_all (\<lambda>(f, g). fact_id f \<noteq> fact_id g) (zip sorted (tl sorted))
        then Inr (Define sorted)
        else Inl (Diagnostic InvalidContract ''duplicate_schema_operation_fact_id''))))"
  by (simp add: operation_define_def MAX_CANONICAL_COLLECTION_LEN_def)

section \<open>The effect of operations on a selection\<close>

fun defined_ids :: "schema_operation \<Rightarrow> schema_fact_id list" where
  "defined_ids (Define facts) = map fact_id facts"
| "defined_ids _ = []"

fun redefined_ids :: "schema_operation \<Rightarrow> schema_fact_id list" where
  "redefined_ids (Redefine expected _) = [fact_id expected]"
| "redefined_ids _ = []"

fun undefined_ids :: "schema_operation \<Rightarrow> schema_fact_id list" where
  "undefined_ids (Undefine f) = [fact_id f]"
| "undefined_ids _ = []"

definition operation_wf :: "schema_operation \<Rightarrow> bool" where
  "operation_wf op =
     (case op of
        Define facts \<Rightarrow> facts \<noteq> [] \<and> length facts \<le> MAX_CANONICAL_COLLECTION_LEN
          \<and> sorted_wrt (<) (map fact_id facts)
      | Redefine expected replacement \<Rightarrow> fact_id expected = fact_id replacement \<and> expected \<noteq> replacement
      | Undefine _ \<Rightarrow> True)"

lemma affected_ids_split: "set (affected_ids op) = set (defined_ids op) \<union> set (redefined_ids op) \<union> set (undefined_ids op)"
  by (cases op) auto

lemma sorted_adjacent_distinct:
  "sorted (map f xs) \<Longrightarrow>
   list_all (\<lambda>(a, b). f a \<noteq> f b) (zip xs (tl xs)) \<longleftrightarrow> sorted_wrt (<) (map f xs)" for f :: "'a \<Rightarrow> 'b::linorder"
proof (induction xs)
  case (Cons x xs)
  show ?case
  proof (cases xs)
    case (Cons y ys)
    have "(\<forall>z \<in> set xs. f x < f z) \<longleftrightarrow> f x < f y" if "sorted_wrt (<) (map f xs)"
      using that Cons by fastforce
    with Cons Cons.IH Cons.prems show ?thesis by (auto simp: less_le)
  qed simp
qed simp

lemma operation_define_iff:
  "operation_define facts = Inr op \<longleftrightarrow> op = Define (sort_key fact_id facts) \<and> operation_wf op"
proof -
  let ?s = "sort_key fact_id facts"
  have s: "?s = [] \<longleftrightarrow> facts = []" "length ?s = length facts" by (metis length_0_conv length_sort, simp)
  have "list_all (\<lambda>(f, g). fact_id f \<noteq> fact_id g) (zip ?s (tl ?s)) \<longleftrightarrow> sorted_wrt (<) (map fact_id ?s)"
    by (rule sorted_adjacent_distinct) (rule sorted_sort_key)
  then show ?thesis
    unfolding operation_define_def operation_wf_def Let_def bind_res_eq_Inr ensure_eq_Inr
    by (cases op) (auto simp: s)
qed

lemma operation_redefine_iff:
  "operation_redefine expected replacement = Inr op \<longleftrightarrow> op = Redefine expected replacement \<and> operation_wf op"
  by (auto simp: operation_redefine_def operation_wf_def)

lemma MAX_CANONICAL_COLLECTION_LEN_pos [simp]: "Suc 0 \<le> MAX_CANONICAL_COLLECTION_LEN"
  by (simp add: MAX_CANONICAL_COLLECTION_LEN_def)

text \<open>The exact inverse of a validated operation exists and consists of validated operations.\<close>

lemma operation_inverse_wf:
  assumes "operation_wf op"
  obtains ops where "operation_inverse op = Some ops" and "list_all operation_wf ops"
    and "concat (map affected_ids ops) = rev (affected_ids op)"
    and "concat (map defined_ids ops) = rev (undefined_ids op)"
    and "concat (map redefined_ids ops) = rev (redefined_ids op)"
    and "concat (map undefined_ids ops) = rev (defined_ids op)"
    and "length ops = length (affected_ids op)"
    and "list_ex (\<lambda>op. operation_kind op = KindRedefine) ops \<longleftrightarrow> operation_kind op = KindRedefine"
proof (cases op)
  case (Define facts)
  let ?ops = "map operation_undefine (rev facts)"
  have "concat (map (\<lambda>f. [fact_id f]) gs) = map fact_id gs" "concat (map (\<lambda>f. []) gs) = []" for gs :: "schema_fact list"
    by (induction gs) auto
  then show ?thesis
    by (intro that [of ?ops])
       (simp_all add: Define operation_undefine_def operation_wf_def list_all_iff list_ex_iff comp_def rev_map)
next
  case (Redefine expected replacement)
  then show ?thesis using assms
    by (intro that [of "[Redefine replacement expected]"])
       (auto simp: operation_wf_def expect_ok_def operation_redefine_def)
next
  case (Undefine f)
  then show ?thesis
    by (intro that [of "[Define [f]]"])
       (auto simp: operation_wf_def expect_ok_def operation_define_def)
qed

lemma claim_affected_fold:
  "fold_res claim_affected ids A = Inr A' \<longleftrightarrow>
     distinct ids \<and> set ids \<inter> fset A = {} \<and> A' = A |\<union>| fset_of_list ids"
  by (induction ids arbitrary: A) (auto simp: claim_affected_def res_simps split: if_splits)

lemma claim_defined_fold:
  "fold_res claim_defined facts S = Inr S' \<longleftrightarrow>
     distinct (map fact_id facts) \<and> fact_id ` set facts \<inter> fset S = {} \<and> S' = S |\<union>| fset_of_list (map fact_id facts)"
  by (induction facts arbitrary: S) (auto simp: claim_defined_def res_simps split: if_splits)

lemma transition_selection_iff:
  assumes "distinct (affected_ids op)"
  shows "transition_selection op S = Inr S' \<longleftrightarrow>
     set (defined_ids op) \<inter> fset S = {} \<and> set (redefined_ids op) \<union> set (undefined_ids op) \<subseteq> fset S
     \<and> S' = (S |\<union>| fset_of_list (defined_ids op)) |-| fset_of_list (undefined_ids op)"
  using assms by (cases op) (auto simp: claim_defined_fold)

lemma transition_disjoint:
  assumes "(set d \<union> set r \<union> set u) \<inter> (set ds \<union> set rs \<union> set us) = {}"
  shows "set ds \<inter> fset ((S |\<union>| fset_of_list d) |-| fset_of_list u) = {} \<longleftrightarrow> set ds \<inter> fset S = {}"
    and "set rs \<union> set us \<subseteq> fset ((S |\<union>| fset_of_list d) |-| fset_of_list u) \<longleftrightarrow> set rs \<union> set us \<subseteq> fset S"
    and "(((S |\<union>| fset_of_list d) |-| fset_of_list u) |\<union>| fset_of_list ds) |-| fset_of_list us
         = (S |\<union>| fset_of_list (d @ ds)) |-| fset_of_list (u @ us)"
proof -
  show "set ds \<inter> fset ((S |\<union>| fset_of_list d) |-| fset_of_list u) = {} \<longleftrightarrow> set ds \<inter> fset S = {}"
    using assms by (auto simp: fset_of_list.rep_eq)
  show "set rs \<union> set us \<subseteq> fset ((S |\<union>| fset_of_list d) |-| fset_of_list u) \<longleftrightarrow> set rs \<union> set us \<subseteq> fset S"
    using assms by (auto simp: fset_of_list.rep_eq)
  show "(((S |\<union>| fset_of_list d) |-| fset_of_list u) |\<union>| fset_of_list ds) |-| fset_of_list us
         = (S |\<union>| fset_of_list (d @ ds)) |-| fset_of_list (u @ us)"
    using assms by (auto simp: fset_eq_iff fset_of_list_elem)
qed

lemma set_concat_affected:
  "set (concat (map affected_ids ops)) = set (concat (map defined_ids ops)) \<union> set (concat (map redefined_ids ops))
     \<union> set (concat (map undefined_ids ops))"
  by (induction ops) (auto simp: affected_ids_split)

lemma transition_fold_iff:
  "fold_res transition_step ops (A, S) = Inr (A', S') \<longleftrightarrow>
     distinct (concat (map affected_ids ops))
     \<and> set (concat (map affected_ids ops)) \<inter> fset A = {}
     \<and> set (concat (map defined_ids ops)) \<inter> fset S = {}
     \<and> set (concat (map redefined_ids ops)) \<union> set (concat (map undefined_ids ops)) \<subseteq> fset S
     \<and> A' = A |\<union>| fset_of_list (concat (map affected_ids ops))
     \<and> S' = (S |\<union>| fset_of_list (concat (map defined_ids ops))) |-| fset_of_list (concat (map undefined_ids ops))"
proof (induction ops arbitrary: A S)
  case (Cons op ops)
  let ?A = "A |\<union>| fset_of_list (affected_ids op)"
  let ?S = "(S |\<union>| fset_of_list (defined_ids op)) |-| fset_of_list (undefined_ids op)"
  have step: "fold_res transition_step (op # ops) (A, S) = Inr (A', S') \<longleftrightarrow>
      distinct (affected_ids op) \<and> set (affected_ids op) \<inter> fset A = {}
      \<and> set (defined_ids op) \<inter> fset S = {} \<and> set (redefined_ids op) \<union> set (undefined_ids op) \<subseteq> fset S
      \<and> fold_res transition_step ops (?A, ?S) = Inr (A', S')"
    by (cases "distinct (affected_ids op)")
       (auto simp: transition_step_def res_simps claim_affected_fold transition_selection_iff)
  show ?case
  proof (cases "set (affected_ids op) \<inter> set (concat (map affected_ids ops)) = {}")
    case True
    then have disjoint: "(set (defined_ids op) \<union> set (redefined_ids op) \<union> set (undefined_ids op))
        \<inter> (set (concat (map defined_ids ops)) \<union> set (concat (map redefined_ids ops)) \<union> set (concat (map undefined_ids ops))) = {}"
      unfolding affected_ids_split set_concat_affected .
    from True have same: "set (concat (map affected_ids ops)) \<inter> fset ?A = {} \<longleftrightarrow> set (concat (map affected_ids ops)) \<inter> fset A = {}"
      by (auto simp: fset_of_list.rep_eq)
    show ?thesis
      unfolding step Cons.IH [of ?A ?S] transition_disjoint [OF disjoint] same
      unfolding list.map concat.simps distinct_append set_append fset_of_list_append Int_Un_distrib2 Un_empty Un_subset_iff sup_assoc
      using True by argo
  next
    case False
    then show ?thesis
      unfolding step Cons.IH [of ?A ?S] list.map concat.simps distinct_append by (auto simp: fset_of_list.rep_eq)
  qed
qed (auto simp: fset_of_list_elem)

section \<open>What a delta promises\<close>

definition net_selection :: "schema_operation list \<Rightarrow> schema_fact_id fset \<Rightarrow> schema_fact_id fset" where
  "net_selection ops S =
     (S |\<union>| fset_of_list (concat (map defined_ids ops))) |-| fset_of_list (concat (map undefined_ids ops))"

definition selection_step :: "schema_operation list \<Rightarrow> schema_fact_id fset \<Rightarrow> schema_fact_id fset \<Rightarrow> bool" where
  "selection_step ops S T \<longleftrightarrow>
     distinct (concat (map affected_ids ops)) \<and> set (concat (map defined_ids ops)) \<inter> fset S = {}
     \<and> set (concat (map redefined_ids ops)) \<union> set (concat (map undefined_ids ops)) \<subseteq> fset S
     \<and> T = net_selection ops S"

definition delta_admissible :: "managed_schema_state \<Rightarrow> managed_schema_state \<Rightarrow> schema_operation list \<Rightarrow> bool" where
  "delta_admissible s t ops \<longleftrightarrow>
     state_format s = state_format t \<and> state_scope s = state_scope t
     \<and> state_semantic_profile s = state_semantic_profile t \<and> s \<noteq> t
     \<and> (ops = [] \<longrightarrow> state_required_capabilities s \<noteq> state_required_capabilities t
           \<and> state_managed_declared_identity s \<noteq> state_managed_declared_identity t
           \<and> state_managed_semantic_schema s \<noteq> state_managed_semantic_schema t)
     \<and> length ops \<le> MAX_CANONICAL_COLLECTION_LEN
     \<and> selection_step ops (state_selection s) (state_selection t)"

definition redefines :: "schema_operation list \<Rightarrow> bool" where
  "redefines ops \<longleftrightarrow> (\<exists>op \<in> set ops. operation_kind op = KindRedefine)"

definition derived_capabilities :: "managed_schema_state \<Rightarrow> managed_schema_state \<Rightarrow> schema_operation list \<Rightarrow> capability_set" where
  "derived_capabilities s t ops =
     state_required_capabilities s |\<union>| state_required_capabilities t
     |\<union>| (if redefines ops then {|SCHEMA_REDEFINE_CAPABILITY|} else {||})"

lemma redefine_capability: "capability_id_new SCHEMA_REDEFINE_CAPABILITY = Inr SCHEMA_REDEFINE_CAPABILITY"
  by code_simp

lemma delta_capabilities_eq: "delta_capabilities s t ops = Inr (derived_capabilities s t ops)"
  by (simp add: delta_capabilities_def derived_capabilities_def redefines_def list_ex_iff redefine_capability)

lemma schema_delta_new_iff:
  "schema_delta_new format s t ops = Inr d \<longleftrightarrow>
     format = 1 \<and> delta_admissible s t ops
     \<and> d = \<lparr>delta_format = format, delta_operations = ops, delta_required_capabilities = derived_capabilities s t ops,
           delta_source = s, delta_target = t\<rparr>"
proof -
  let ?d = "\<lparr>delta_format = format, delta_operations = ops, delta_required_capabilities = derived_capabilities s t ops,
           delta_source = s, delta_target = t\<rparr>"
  define rest where "rest = bind_res (fold_res transition_step ops ({||}, state_selection s)) (\<lambda>(_, transitioned).
     bind_res (ensure (transitioned = state_selection t)
                 (Diagnostic InvalidContract ''schema_delta_selection_mismatch'')) (\<lambda>_. Inr ?d))"
  have rest: "rest = Inr d \<longleftrightarrow> selection_step ops (state_selection s) (state_selection t) \<and> d = ?d"
  proof (cases "fold_res transition_step ops ({||}, state_selection s)")
    case (Inl e)
    then have "\<not> selection_step ops (state_selection s) (state_selection t)"
      using transition_fold_iff [of ops "{||}" "state_selection s"]
      by (auto simp: selection_step_def)
    with Inl show ?thesis by (simp add: rest_def)
  next
    case (Inr r)
    obtain A' S' where r: "r = (A', S')" by fastforce
    from Inr [unfolded r transition_fold_iff]
    have "selection_step ops (state_selection s) (state_selection t) \<longleftrightarrow> S' = state_selection t"
      by (auto simp: selection_step_def net_selection_def)
    with Inr r show ?thesis by (auto simp: rest_def res_simps)
  qed
  have empty: "selection_step [] S T \<longleftrightarrow> S = T" for S T
    by (auto simp: selection_step_def net_selection_def)
  have patch: "(\<exists>x. patch_format_from_wire format = Inr x \<and> P) \<longleftrightarrow> format = 1 \<and> P" for P
    by (simp add: patch_format_from_wire_def)
  show ?thesis
    unfolding schema_delta_new_def delta_capabilities_eq bind_res_Inr
    unfolding rest_def [symmetric] bind_res_eq_Inr ensure_eq_Inr rest patch delta_admissible_def
    by (cases "ops = []") (simp_all add: empty, blast+)
qed

lemma inverse_operations_wf:
  assumes "list_all operation_wf ops"
  obtains inv_ops where "inverse_operations ops = Some inv_ops" and "list_all operation_wf inv_ops"
    and "concat (map affected_ids inv_ops) = rev (concat (map affected_ids ops))"
    and "concat (map defined_ids inv_ops) = rev (concat (map undefined_ids ops))"
    and "concat (map redefined_ids inv_ops) = rev (concat (map redefined_ids ops))"
    and "concat (map undefined_ids inv_ops) = rev (concat (map defined_ids ops))"
    and "length inv_ops = length (concat (map affected_ids ops))"
    and "redefines inv_ops \<longleftrightarrow> redefines ops"
  using assms
proof (induction ops arbitrary: thesis)
  case Nil
  then show ?case by (simp add: inverse_operations_def redefines_def)
next
  case (Cons op ops)
  then obtain rest where rest: "inverse_operations ops = Some rest" "list_all operation_wf rest"
    "concat (map affected_ids rest) = rev (concat (map affected_ids ops))"
    "concat (map defined_ids rest) = rev (concat (map undefined_ids ops))"
    "concat (map redefined_ids rest) = rev (concat (map redefined_ids ops))"
    "concat (map undefined_ids rest) = rev (concat (map defined_ids ops))"
    "length rest = length (concat (map affected_ids ops))" "redefines rest \<longleftrightarrow> redefines ops"
    by auto
  from Cons.prems(2) have "operation_wf op" by simp
  then obtain mine where mine: "operation_inverse op = Some mine" "list_all operation_wf mine"
    "concat (map affected_ids mine) = rev (affected_ids op)" "concat (map defined_ids mine) = rev (undefined_ids op)"
    "concat (map redefined_ids mine) = rev (redefined_ids op)" "concat (map undefined_ids mine) = rev (defined_ids op)"
    "length mine = length (affected_ids op)"
    "list_ex (\<lambda>op. operation_kind op = KindRedefine) mine \<longleftrightarrow> operation_kind op = KindRedefine"
    by (rule operation_inverse_wf)
  have "those (xs @ [Some mine]) = map_option (\<lambda>xs. xs @ [mine]) (those xs)" for xs
    by (induction xs) (auto simp: option.map_comp comp_def split: option.splits)
  with rest(1) mine(1) have "inverse_operations (op # ops) = Some (rest @ mine)"
    by (auto simp: inverse_operations_def)
  then show ?case
    using rest(2-) mine(2-) by (intro Cons.prems(1) [of "rest @ mine"]) (auto simp: redefines_def list_ex_iff)
qed

lemma redefined_undefined_disjoint:
  assumes "distinct (concat (map affected_ids ops))"
  shows "set (concat (map redefined_ids ops)) \<inter> set (concat (map undefined_ids ops)) = {}"
  using assms
proof (induction ops)
  case (Cons op ops)
  from Cons.prems have "set (affected_ids op) \<inter> set (concat (map affected_ids ops)) = {}" by simp
  then have "(set (redefined_ids op) \<union> set (undefined_ids op))
      \<inter> (set (concat (map redefined_ids ops)) \<union> set (concat (map undefined_ids ops))) = {}"
    unfolding affected_ids_split set_concat_affected by blast
  moreover have "set (redefined_ids op) \<inter> set (undefined_ids op) = {}" by (cases op) auto
  ultimately show ?case using Cons by auto
qed simp

lemma selection_step_inverse:
  assumes "selection_step ops S T"
    and "concat (map affected_ids inv_ops) = rev (concat (map affected_ids ops))"
    and "concat (map defined_ids inv_ops) = rev (concat (map undefined_ids ops))"
    and "concat (map redefined_ids inv_ops) = rev (concat (map redefined_ids ops))"
    and "concat (map undefined_ids inv_ops) = rev (concat (map defined_ids ops))"
  shows "selection_step inv_ops T S"
proof -
  define D where "D = set (concat (map defined_ids ops))"
  define R where "R = set (concat (map redefined_ids ops))"
  define U where "U = set (concat (map undefined_ids ops))"
  from assms(1) have st: "distinct (concat (map affected_ids ops))" "D \<inter> fset S = {}" "R \<union> U \<subseteq> fset S"
    and T: "fset T = (fset S \<union> D) - U"
    by (auto simp: selection_step_def net_selection_def D_def R_def U_def fset_of_list.rep_eq)
  have "R \<inter> U = {}" "D \<inter> U = {}" using redefined_undefined_disjoint [OF st(1)] st by (auto simp: R_def U_def)
  then have "U \<inter> fset T = {}" "R \<union> D \<subseteq> fset T" "fset S = (fset T \<union> U) - D" using st T by auto
  then show ?thesis
    unfolding selection_step_def net_selection_def assms(2-) fset_inject [symmetric]
    using st(1) by (simp add: fset_of_list.rep_eq D_def R_def U_def Un_commute del: set_concat set_map)
qed

lemma delta_admissible_inverse:
  assumes "delta_admissible s t ops" "list_all operation_wf ops" "inverse_operations ops = Some inv_ops"
    and "length (concat (map affected_ids ops)) \<le> MAX_CANONICAL_COLLECTION_LEN"
  shows "delta_admissible t s inv_ops \<and> list_all operation_wf inv_ops
      \<and> derived_capabilities t s inv_ops = derived_capabilities s t ops
      \<and> length (concat (map affected_ids inv_ops)) = length (concat (map affected_ids ops))"
proof -
  obtain inv_ops' where inv: "inverse_operations ops = Some inv_ops'" "list_all operation_wf inv_ops'"
    "concat (map affected_ids inv_ops') = rev (concat (map affected_ids ops))"
    "concat (map defined_ids inv_ops') = rev (concat (map undefined_ids ops))"
    "concat (map redefined_ids inv_ops') = rev (concat (map redefined_ids ops))"
    "concat (map undefined_ids inv_ops') = rev (concat (map defined_ids ops))"
    "length inv_ops' = length (concat (map affected_ids ops))" "redefines inv_ops' \<longleftrightarrow> redefines ops"
    by (rule inverse_operations_wf [OF assms(2)])
  have same: "inv_ops' = inv_ops" using inv(1) assms(3) by simp
  note inv = inv [unfolded same]
  have "affected_ids op \<noteq> []" if "operation_wf op" for op
    using that by (cases op) (auto simp: operation_wf_def)
  with assms(2) have "inv_ops = [] \<longleftrightarrow> ops = []"
    using inv(7) by (cases ops) auto
  moreover have "selection_step inv_ops (state_selection t) (state_selection s)"
    using assms(1) by (intro selection_step_inverse [OF _ inv(3-6)]) (simp add: delta_admissible_def)
  ultimately have "delta_admissible t s inv_ops"
    using assms(1,4) inv(7) by (auto simp: delta_admissible_def)
  moreover have "derived_capabilities t s inv_ops = derived_capabilities s t ops"
    using inv(8) by (simp add: derived_capabilities_def funion_commute)
  ultimately show ?thesis using inv(2,3) by simp
qed


definition example_state :: "fingerprint \<Rightarrow> schema_fact_id fset \<Rightarrow> managed_schema_state" where
  "example_state fp selection =
     \<lparr>state_declared_identity = fp, state_format = 1, state_managed_declared_identity = fp,
      state_semantic_profile = ''typedb-3.12.1/v1'', state_managed_semantic_schema = fp,
      state_required_capabilities = {||},
      state_scope = \<lparr>binding_scope_id = ''main'', binding_profile_id = ''exclusive'', binding_profile_fingerprint = ''p''\<rparr>,
      state_selection = selection\<rparr>"


end
