(* ===== verification/Delta_Plan.thy ===== *)
theory Delta_Plan
  imports Schema_Ops
begin

text \<open>
  \<open>plan_schema_operations\<close> of \<open>schema/src/delta_dependencies.rs\<close>: the formal difference of two declared
  schemas as an ordered list of operations. New facts are defined first, one operation per strongly
  connected component of the target graph; facts with a changed payload are then redefined; removed
  facts are undefined last, dependents before their prerequisites.
\<close>

section \<open>Definitions\<close>

definition is_function_fact :: "schema_fact \<Rightarrow> bool" where
  "is_function_fact f = (case f of FactFunction _ \<Rightarrow> True | _ \<Rightarrow> False)"

definition added_ids :: "fact_map \<Rightarrow> fact_map \<Rightarrow> schema_fact_id fset" where
  "added_ids source target = fmdom target |-| fmdom source"

definition removed_ids :: "fact_map \<Rightarrow> fact_map \<Rightarrow> schema_fact_id fset" where
  "removed_ids source target = fmdom source |-| fmdom target"

definition changed_ids :: "fact_map \<Rightarrow> fact_map \<Rightarrow> schema_fact_id fset" where
  "changed_ids source target =
     ffilter (\<lambda>i. fmlookup source i \<noteq> fmlookup target i) (fmdom source |\<inter>| fmdom target)"

definition touches_function :: "fact_map \<Rightarrow> fact_map \<Rightarrow> schema_fact_id \<Rightarrow> bool" where
  "touches_function source target i =
     (case (case fmlookup source i of None \<Rightarrow> fmlookup target i | Some f \<Rightarrow> Some f) of
        None \<Rightarrow> False | Some f \<Rightarrow> is_function_fact f)"

text \<open>Indexing a map with a missing identity panics (\<open>None\<close>).\<close>

definition define_component :: "fact_map \<Rightarrow> schema_fact_id list \<Rightarrow> schema_operation panicking" where
  "define_component target c = map_option operation_define (those (map (fmlookup target) c))"

definition redefine_fact :: "fact_map \<Rightarrow> fact_map \<Rightarrow> schema_fact_id \<Rightarrow> schema_operation panicking" where
  "redefine_fact source target i =
     (case (fmlookup source i, fmlookup target i) of
        (Some f, Some g) \<Rightarrow> Some (operation_redefine f g)
      | _ \<Rightarrow> None)"

definition undefine_fact :: "fact_map \<Rightarrow> schema_fact_id \<Rightarrow> schema_operation panicking" where
  "undefine_fact source i = map_option (\<lambda>f. Inr (operation_undefine f)) (fmlookup source i)"

definition plan_schema_operations :: "declared_schema \<Rightarrow> declared_schema \<Rightarrow> schema_operation list panicking" where
  "plan_schema_operations source target =
     (let source_facts = schema_facts source; target_facts = schema_facts target;
          added = added_ids source_facts target_facts;
          removed = removed_ids source_facts target_facts;
          redefined = changed_ids source_facts target_facts
      in
      bind_panicking (Some (graph_from_facts (facts_list source_facts))) (\<lambda>source_graph.
      bind_panicking (Some (graph_from_facts (facts_list target_facts))) (\<lambda>target_graph.
      bind_panicking (Some (validate_complete source_graph)) (\<lambda>_.
      bind_panicking (Some (validate_complete target_graph)) (\<lambda>_.
      bind_panicking (Some (ensure
          (\<not> list_ex (touches_function source_facts target_facts)
               (sorted_list_of_fset added @ sorted_list_of_fset removed @ sorted_list_of_fset redefined))
          (integrity ''unsupported_function_migration''))) (\<lambda>_.
      bind_panicking (map_option Inr (ordered_components target_graph added)) (\<lambda>new_components.
      bind_panicking (map_panicking (define_component target_facts) new_components) (\<lambda>defines.
      bind_panicking (map_option Inr (ordered_components target_graph redefined)) (\<lambda>changed_components.
      bind_panicking (map_panicking (redefine_fact source_facts target_facts) (concat changed_components)) (\<lambda>redefines.
      bind_panicking (map_option Inr (ordered_components source_graph removed)) (\<lambda>old_components.
      bind_panicking (map_panicking (undefine_fact source_facts) (concat (map rev (rev old_components)))) (\<lambda>undefines.
        Some (Inr (defines @ redefines @ undefines))))))))))))))"

section \<open>The plan, written out\<close>

definition planned_operations :: "fact_map \<Rightarrow> fact_map \<Rightarrow> schema_fact_id list list \<Rightarrow> schema_fact_id list \<Rightarrow>
    schema_fact_id list \<Rightarrow> schema_operation list" where
  "planned_operations source target adds changes removals =
     map (\<lambda>c. Define (map (\<lambda>i. the (fmlookup target i)) c)) adds
     @ map (\<lambda>i. Redefine (the (fmlookup source i)) (the (fmlookup target i))) changes
     @ map (\<lambda>i. Undefine (the (fmlookup source i))) removals"

lemma those_lookup:
  "set c \<subseteq> fset (fmdom m) \<Longrightarrow> those (map (fmlookup m) c) = Some (map (\<lambda>i. the (fmlookup m i)) c)"
  by (induction c) (auto simp: fmlookup_dom_iff)

lemma keyed_the: "facts_keyed m \<Longrightarrow> i |\<in>| fmdom m \<Longrightarrow> fact_id (the (fmlookup m i)) = i"
  by (auto simp: facts_keyed_def fmlookup_dom_iff)

lemma keyed_map_the: "facts_keyed m \<Longrightarrow> set c \<subseteq> fset (fmdom m) \<Longrightarrow> map fact_id (map (\<lambda>i. the (fmlookup m i)) c) = c"
  by (induction c) (auto simp: keyed_the)

lemma define_component_eq:
  assumes "facts_keyed target" "set c \<subseteq> fset (fmdom target)" "sorted c" "distinct c" "c \<noteq> []"
  shows "define_component target c =
    (if length c \<le> MAX_CANONICAL_COLLECTION_LEN
     then Some (Inr (Define (map (\<lambda>i. the (fmlookup target i)) c)))
     else Some (Inl (Diagnostic ResourceLimit ''too_many_schema_define_facts'')))"
proof -
  let ?fs = "map (\<lambda>i. the (fmlookup target i)) c"
  have ids: "map fact_id ?fs = c" by (rule keyed_map_the [OF assms(1,2)])
  have "sort_key fact_id ?fs = ?fs" by (rule sort_key_id_if_sorted) (use assms(3) ids in simp)
  moreover have "sorted_wrt (<) (map fact_id ?fs)" using assms(3,4) by (simp only: ids strict_sorted_iff)
  ultimately have "operation_define ?fs = Inr (Define ?fs)" if "length c \<le> MAX_CANONICAL_COLLECTION_LEN"
    using that assms(5) by (simp add: operation_define_iff operation_wf_def)
  moreover have "operation_define ?fs = Inl (Diagnostic ResourceLimit ''too_many_schema_define_facts'')"
    if "\<not> length c \<le> MAX_CANONICAL_COLLECTION_LEN"
    using that assms(5) by (simp add: operation_define_def ensure_def)
  ultimately show ?thesis by (simp add: define_component_def those_lookup [OF assms(2)])
qed

lemma redefine_fact_eq:
  assumes "facts_keyed source" "facts_keyed target" "i |\<in>| changed_ids source target"
  shows "redefine_fact source target i = Some (Inr (Redefine (the (fmlookup source i)) (the (fmlookup target i))))"
  using assms
  by (auto simp: redefine_fact_def changed_ids_def fmlookup_dom_iff operation_redefine_def facts_keyed_def)

lemma undefine_fact_eq:
  "i |\<in>| fmdom source \<Longrightarrow> undefine_fact source i = Some (Inr (Undefine (the (fmlookup source i))))"
  by (auto simp: undefine_fact_def operation_undefine_def fmlookup_dom_iff)

lemma map_panicking_all:
  "(\<And>x. x \<in> set xs \<Longrightarrow> f x = Some (Inr (g x))) \<Longrightarrow> map_panicking f xs = Some (Inr (map g xs))"
  by (induction xs) auto

lemma map_panicking_defines:
  assumes "\<And>x. x \<in> set xs \<Longrightarrow> f x = (if P x then Some (Inr (g x)) else Some (Inl e))"
  shows "map_panicking f xs = (if list_all P xs then Some (Inr (map g xs)) else Some (Inl e))"
  using assms by (induction xs) auto

definition function_free_change :: "fact_map \<Rightarrow> fact_map \<Rightarrow> bool" where
  "function_free_change source target \<longleftrightarrow>
     (\<forall>i. i |\<in>| added_ids source target |\<union>| removed_ids source target |\<union>| changed_ids source target \<longrightarrow>
          \<not> touches_function source target i)"

text \<open>
  What planning does on keyed inventories: it never panics; it succeeds when both inventories are
  complete, no function changes and no component exceeds the collection limit; and a plan
  consists of the components in dependency order.
\<close>

definition is_plan :: "fact_map \<Rightarrow> fact_map \<Rightarrow> schema_operation list \<Rightarrow> bool" where
  "is_plan source target ops \<longleftrightarrow>
     (\<exists>source_graph target_graph adds changes removals.
        graph_from_facts (facts_list source) = Inr source_graph
        \<and> graph_from_facts (facts_list target) = Inr target_graph
        \<and> is_scc_order (graph_neighbors target_graph (added_ids source target)) (fset (added_ids source target)) adds
        \<and> is_scc_order (graph_neighbors target_graph (changed_ids source target)) (fset (changed_ids source target)) changes
        \<and> is_scc_order (graph_neighbors source_graph (removed_ids source target)) (fset (removed_ids source target)) removals
        \<and> (\<forall>c \<in> set adds. length c \<le> MAX_CANONICAL_COLLECTION_LEN)
        \<and> ops = planned_operations source target adds (concat changes) (rev (concat removals)))"

lemma concat_rev: "concat (map rev (rev xs)) = rev (concat xs)"
  by (simp add: rev_concat rev_map)

lemma function_free_iff:
  "\<not> list_ex (touches_function source target) (sorted_list_of_fset (added_ids source target)
      @ sorted_list_of_fset (removed_ids source target) @ sorted_list_of_fset (changed_ids source target))
   \<longleftrightarrow> function_free_change source target"
  by (auto simp: function_free_change_def list_ex_iff)

lemma plan_rejected:
  assumes keyed: "facts_keyed (schema_facts source)" "facts_keyed (schema_facts target)"
    and "\<not> (complete_inventory (schema_facts source) \<and> complete_inventory (schema_facts target)
            \<and> function_free_change (schema_facts source) (schema_facts target))"
  shows "\<exists>e. plan_schema_operations source target = Some (Inl e)"
proof (cases "graph_from_facts (facts_list (schema_facts source))")
  case sg: (Inr sg)
  show ?thesis
  proof (cases "graph_from_facts (facts_list (schema_facts target))")
    case tg: (Inr tg)
    show ?thesis
    proof (cases "validate_complete sg = Inr () \<and> validate_complete tg = Inr ()")
      case True
      then have "complete_inventory (schema_facts source)" "complete_inventory (schema_facts target)"
        using sg tg complete_inventory_iff [OF keyed(1)] complete_inventory_iff [OF keyed(2)] by blast+
      with assms(3) have "\<not> function_free_change (schema_facts source) (schema_facts target)" by blast
      with True sg tg show ?thesis
        unfolding plan_schema_operations_def Let_def function_free_iff by (simp add: ensure_def)
    next
      case False
      then show ?thesis using sg tg
        by (cases "validate_complete sg"; cases "validate_complete tg")
           (auto simp: plan_schema_operations_def Let_def)
    qed
  qed (simp add: plan_schema_operations_def Let_def sg)
qed (simp add: plan_schema_operations_def Let_def)

lemma scc_order_blocks:
  assumes "is_scc_order nbrs (fset nodes) cs" "c \<in> set cs"
  shows "set c \<subseteq> fset nodes" "sorted c" "distinct c" "c \<noteq> []" "length c \<le> fcard nodes"
proof -
  show s: "set c \<subseteq> fset nodes" "sorted c" "distinct c" "c \<noteq> []"
    using assms by (auto simp: is_scc_order_def blocks_connected_def distinct_concat_iff)
  have "length c = card (set c)" using s(3) by (simp add: distinct_card)
  also have "\<dots> \<le> card (fset nodes)" by (intro card_mono s(1)) simp
  finally show "length c \<le> fcard nodes" by (simp add: fcard.rep_eq)
qed

lemma plan_accepted:
  assumes keyed: "facts_keyed (schema_facts source)" "facts_keyed (schema_facts target)"
    and complete: "complete_inventory (schema_facts source)" "complete_inventory (schema_facts target)"
    and free: "function_free_change (schema_facts source) (schema_facts target)"
  shows "(\<exists>ops. plan_schema_operations source target = Some (Inr ops)
            \<and> is_plan (schema_facts source) (schema_facts target) ops)
       \<or> plan_schema_operations source target = Some (Inl (Diagnostic ResourceLimit ''too_many_schema_define_facts''))
         \<and> MAX_CANONICAL_COLLECTION_LEN < fcard (added_ids (schema_facts source) (schema_facts target))"
proof -
  let ?s = "schema_facts source" and ?t = "schema_facts target"
  let ?limit = "Diagnostic ResourceLimit ''too_many_schema_define_facts''"
  obtain sg where sg: "graph_from_facts (facts_list ?s) = Inr sg" "validate_complete sg = Inr ()"
    using complete(1) complete_inventory_iff [OF keyed(1)] by blast
  obtain tg where tg: "graph_from_facts (facts_list ?t) = Inr tg" "validate_complete tg = Inr ()"
    using complete(2) complete_inventory_iff [OF keyed(2)] by blast
  obtain adds where adds: "ordered_components tg (added_ids ?s ?t) = Some adds"
      "is_scc_order (graph_neighbors tg (added_ids ?s ?t)) (fset (added_ids ?s ?t)) adds"
    using ordered_components_correct by blast
  obtain changes where changes: "ordered_components tg (changed_ids ?s ?t) = Some changes"
      "is_scc_order (graph_neighbors tg (changed_ids ?s ?t)) (fset (changed_ids ?s ?t)) changes"
    using ordered_components_correct by blast
  obtain removals where removals: "ordered_components sg (removed_ids ?s ?t) = Some removals"
      "is_scc_order (graph_neighbors sg (removed_ids ?s ?t)) (fset (removed_ids ?s ?t)) removals"
    using ordered_components_correct by blast
  let ?small = "\<lambda>c. length c \<le> MAX_CANONICAL_COLLECTION_LEN"
  have define_ops: "map_panicking (define_component ?t) adds =
      (if list_all ?small adds then Some (Inr (map (\<lambda>c. Define (map (\<lambda>i. the (fmlookup ?t i)) c)) adds))
       else Some (Inl ?limit))"
    by (rule map_panicking_defines, rule define_component_eq [OF keyed(2)])
       (use scc_order_blocks [OF adds(2)] in \<open>auto simp: added_ids_def\<close>)
  have redefines: "map_panicking (redefine_fact ?s ?t) (concat changes) =
      Some (Inr (map (\<lambda>i. Redefine (the (fmlookup ?s i)) (the (fmlookup ?t i))) (concat changes)))"
    by (rule map_panicking_all, rule redefine_fact_eq [OF keyed]) (use changes(2) in \<open>auto simp: is_scc_order_def\<close>)
  have undefines: "map_panicking (undefine_fact ?s) (rev (concat removals)) =
      Some (Inr (map (\<lambda>i. Undefine (the (fmlookup ?s i))) (rev (concat removals))))"
    by (rule map_panicking_all, rule undefine_fact_eq)
       (use removals(2) in \<open>auto simp: is_scc_order_def removed_ids_def\<close>)
  have plan: "plan_schema_operations source target =
      (if list_all ?small adds then Some (Inr (planned_operations ?s ?t adds (concat changes) (rev (concat removals))))
       else Some (Inl ?limit))"
    using free sg tg adds(1) changes(1) removals(1) define_ops redefines undefines
    unfolding plan_schema_operations_def Let_def function_free_iff concat_rev
    by (simp add: planned_operations_def)
  show ?thesis
  proof (cases "list_all ?small adds")
    case True
    then have "is_plan ?s ?t (planned_operations ?s ?t adds (concat changes) (rev (concat removals)))"
      using sg(1) tg(1) adds(2) changes(2) removals(2) unfolding is_plan_def list_all_iff by blast
    with plan True show ?thesis by simp
  next
    case False
    then obtain c where "c \<in> set adds" "MAX_CANONICAL_COLLECTION_LEN < length c" by (auto simp: list_all_iff)
    with scc_order_blocks(5) [OF adds(2)] plan False show ?thesis by (simp add: order_less_le_trans)
  qed
qed

section \<open>The effect of a plan\<close>

fun apply_operation :: "schema_operation \<Rightarrow> fact_map \<Rightarrow> fact_map" where
  "apply_operation (Define facts) m = fold insert_fact facts m"
| "apply_operation (Redefine expected replacement) m = fmupd (fact_id expected) replacement m"
| "apply_operation (Undefine f) m = fmdrop (fact_id f) m"

lemma fold_insert_lookup:
  assumes "facts_keyed t" "set c \<subseteq> fset (fmdom t)"
  shows "fmlookup (fold insert_fact (map (\<lambda>i. the (fmlookup t i)) c) m) j = (if j \<in> set c then fmlookup t j else fmlookup m j)"
  using assms(2)
proof (induction c arbitrary: m)
  case (Cons i c)
  then obtain f where "fmlookup t i = Some f" "fact_id f = i"
    using assms(1) by (auto simp: facts_keyed_def fmlookup_dom_iff)
  with Cons show ?case by (auto simp: insert_fact_def)
qed simp

lemma apply_defines_lookup:
  assumes "facts_keyed t" "set (concat cs) \<subseteq> fset (fmdom t)"
  shows "fmlookup (fold apply_operation (map (\<lambda>c. Define (map (\<lambda>i. the (fmlookup t i)) c)) cs) m) j
    = (if j \<in> set (concat cs) then fmlookup t j else fmlookup m j)"
  using assms(2)
  by (induction cs arbitrary: m) (auto simp: fold_insert_lookup [OF assms(1)])

lemma apply_redefines_lookup:
  assumes "facts_keyed s" "set is \<subseteq> fset (fmdom s)" "set is \<subseteq> fset (fmdom t)"
  shows "fmlookup (fold apply_operation (map (\<lambda>i. Redefine (the (fmlookup s i)) (the (fmlookup t i))) is) m) j
    = (if j \<in> set is then fmlookup t j else fmlookup m j)"
  using assms(2,3) by (induction "is" arbitrary: m) (auto simp: keyed_the [OF assms(1)] fmlookup_dom_iff)

lemma apply_undefines_lookup:
  assumes "facts_keyed s" "set is \<subseteq> fset (fmdom s)"
  shows "fmlookup (fold apply_operation (map (\<lambda>i. Undefine (the (fmlookup s i))) is) m) j
    = (if j \<in> set is then None else fmlookup m j)"
  using assms(2) by (induction "is" arbitrary: m) (auto simp: keyed_the [OF assms(1)])

lemma plan_parts:
  assumes "is_plan s t ops"
  obtains sg tg adds changes removals where
    "graph_from_facts (facts_list s) = Inr sg" "graph_from_facts (facts_list t) = Inr tg"
    "is_scc_order (graph_neighbors tg (added_ids s t)) (fset (added_ids s t)) adds"
    "set (concat changes) = fset (changed_ids s t)" "distinct (concat changes)"
    "is_scc_order (graph_neighbors sg (removed_ids s t)) (fset (removed_ids s t)) removals"
    "\<forall>c \<in> set adds. length c \<le> MAX_CANONICAL_COLLECTION_LEN"
    "ops = planned_operations s t adds (concat changes) (rev (concat removals))"
proof -
  from assms obtain sg tg adds changes removals where p:
    "graph_from_facts (facts_list s) = Inr sg" "graph_from_facts (facts_list t) = Inr tg"
    "is_scc_order (graph_neighbors tg (added_ids s t)) (fset (added_ids s t)) adds"
    "is_scc_order (graph_neighbors tg (changed_ids s t)) (fset (changed_ids s t)) changes"
    "is_scc_order (graph_neighbors sg (removed_ids s t)) (fset (removed_ids s t)) removals"
    "\<forall>c \<in> set adds. length c \<le> MAX_CANONICAL_COLLECTION_LEN"
    "ops = planned_operations s t adds (concat changes) (rev (concat removals))"
    unfolding is_plan_def by blast
  from p(4) have "set (concat changes) = fset (changed_ids s t)" "distinct (concat changes)"
    by (simp_all add: is_scc_order_def)
  with p show thesis by (intro that)
qed

lemma plan_effect:
  assumes "facts_keyed s" "facts_keyed t" "is_plan s t ops"
  shows "fold apply_operation ops s = t"
proof (rule fmap_ext_lookup)
  fix i
  obtain sg tg adds changes removals where p:
    "is_scc_order (graph_neighbors tg (added_ids s t)) (fset (added_ids s t)) adds"
    "set (concat changes) = fset (changed_ids s t)"
    "is_scc_order (graph_neighbors sg (removed_ids s t)) (fset (removed_ids s t)) removals"
    "ops = planned_operations s t adds (concat changes) (rev (concat removals))"
    using assms(3) by (rule plan_parts)
  have sets: "set (concat adds) = fset (added_ids s t)" "set (rev (concat removals)) = fset (removed_ids s t)"
    using p(1,3) by (simp_all add: is_scc_order_def)
  have in_s: "set (concat changes) \<subseteq> fset (fmdom s)" "set (concat changes) \<subseteq> fset (fmdom t)"
    unfolding p(2) by (auto simp: changed_ids_def)
  have "set (concat adds) \<subseteq> fset (fmdom t)" "set (rev (concat removals)) \<subseteq> fset (fmdom s)"
    unfolding sets by (auto simp: added_ids_def removed_ids_def)
  then have "fmlookup (fold apply_operation ops s) i =
      (if i |\<in>| removed_ids s t then None else if i |\<in>| changed_ids s t then fmlookup t i
       else if i |\<in>| added_ids s t then fmlookup t i else fmlookup s i)"
    unfolding p(4) planned_operations_def fold_append comp_apply
    using in_s
    by (simp only: apply_undefines_lookup [OF assms(1)] apply_redefines_lookup [OF assms(1)]
        apply_defines_lookup [OF assms(2)] sets p(2))
  also have "\<dots> = fmlookup t i"
    by (auto simp: removed_ids_def changed_ids_def added_ids_def fmlookup_dom_iff)
  finally show "fmlookup (fold apply_operation ops s) i = fmlookup t i" .
qed

lemma planned_ids:
  assumes "facts_keyed s" "facts_keyed t" "set (concat adds) \<subseteq> fset (fmdom t)"
    "set changes \<subseteq> fset (fmdom s)" "set removals \<subseteq> fset (fmdom s)"
  shows "concat (map affected_ids (planned_operations s t adds changes removals)) = concat adds @ changes @ removals"
    and "concat (map defined_ids (planned_operations s t adds changes removals)) = concat adds"
    and "concat (map redefined_ids (planned_operations s t adds changes removals)) = changes"
    and "concat (map undefined_ids (planned_operations s t adds changes removals)) = removals"
proof -
  have a: "concat (map (\<lambda>c. map fact_id (map (\<lambda>i. the (fmlookup t i)) c)) adds) = concat adds"
    using assms(3) by (induction adds) (simp_all add: keyed_map_the [OF assms(2)] del: map_map)
  have single: "concat (map (\<lambda>i. [fact_id (the (fmlookup s i))]) is) = is" if "set is \<subseteq> fset (fmdom s)" for "is"
    using that by (induction "is") (auto simp: keyed_the [OF assms(1)])
  have none2: "concat (map (\<lambda>_. []) xs) = []" for xs :: "schema_fact_id list list" by (induction xs) auto
  have none3: "concat (map (\<lambda>_. []) xs) = []" for xs :: "schema_fact_id list" by (induction xs) auto
  show "concat (map affected_ids (planned_operations s t adds changes removals)) = concat adds @ changes @ removals"
    "concat (map defined_ids (planned_operations s t adds changes removals)) = concat adds"
    "concat (map redefined_ids (planned_operations s t adds changes removals)) = changes"
    "concat (map undefined_ids (planned_operations s t adds changes removals)) = removals"
    using a single [OF assms(4)] single [OF assms(5)]
    by (simp_all add: planned_operations_def comp_def none2 none3)
qed

lemma plan_admissible:
  assumes "facts_keyed s" "facts_keyed t" "is_plan s t ops"
  shows "list_all operation_wf ops" and "selection_step ops (fmdom s) (fmdom t)"
    and "length (concat (map affected_ids ops)) = fcard (added_ids s t |\<union>| removed_ids s t |\<union>| changed_ids s t)"
proof -
  obtain sg tg adds changes removals where p:
    "is_scc_order (graph_neighbors tg (added_ids s t)) (fset (added_ids s t)) adds"
    "set (concat changes) = fset (changed_ids s t)" "distinct (concat changes)"
    "is_scc_order (graph_neighbors sg (removed_ids s t)) (fset (removed_ids s t)) removals"
    "\<forall>c \<in> set adds. length c \<le> MAX_CANONICAL_COLLECTION_LEN"
    "ops = planned_operations s t adds (concat changes) (rev (concat removals))"
    using assms(3) by (rule plan_parts)
  have sets: "set (concat adds) = fset (added_ids s t)" "set (rev (concat removals)) = fset (removed_ids s t)"
    "distinct (concat adds)" "distinct (rev (concat removals))"
    using p(1,4) by (simp_all add: is_scc_order_def)
  have sub: "set (concat adds) \<subseteq> fset (fmdom t)" "set (concat changes) \<subseteq> fset (fmdom s)"
    "set (rev (concat removals)) \<subseteq> fset (fmdom s)"
    unfolding sets p(2) by (auto simp: added_ids_def removed_ids_def changed_ids_def)
  note ids = planned_ids [OF assms(1,2) sub, folded p(6)]
  have define_wf: "operation_wf (Define (map (\<lambda>i. the (fmlookup t i)) c))" if c: "c \<in> set adds" for c
  proof -
    note b = scc_order_blocks [OF p(1) c]
    have "map fact_id (map (\<lambda>i. the (fmlookup t i)) c) = c"
      by (rule keyed_map_the [OF assms(2)]) (use b(1) in \<open>auto simp: added_ids_def\<close>)
    with b(2-4) p(5) c show ?thesis
      by (simp add: operation_wf_def strict_sorted_iff del: map_map)
  qed
  have redefine_wf: "operation_wf (Redefine (the (fmlookup s i)) (the (fmlookup t i)))" if "i |\<in>| changed_ids s t" for i
    using that assms(1,2) by (auto simp: operation_wf_def changed_ids_def fmlookup_dom_iff facts_keyed_def)
  have "operation_wf (Undefine f)" for f by (simp add: operation_wf_def)
  then show "list_all operation_wf ops"
    unfolding p(6) planned_operations_def list_all_append using define_wf redefine_wf p(2)
    by (simp add: list_all_iff del: set_concat)
  have distinct: "distinct (concat (map affected_ids ops))"
    unfolding ids distinct_append set_append using sets p(2,3)
    by (auto simp: added_ids_def removed_ids_def changed_ids_def simp del: set_concat set_rev)
  show "selection_step ops (fmdom s) (fmdom t)"
    unfolding selection_step_def net_selection_def ids
  proof (intro conjI)
    show "fmdom t = (fmdom s |\<union>| fset_of_list (concat adds)) |-| fset_of_list (rev (concat removals))"
      unfolding fset_inject [symmetric] minus_fset.rep_eq sup_fset.rep_eq fset_of_list.rep_eq sets
      by (auto simp: added_ids_def removed_ids_def)
    show "distinct (concat adds @ concat changes @ rev (concat removals))" using distinct unfolding ids .
    show "set (concat adds) \<inter> fset (fmdom s) = {}" unfolding sets by (auto simp: added_ids_def)
    show "set (concat changes) \<union> set (rev (concat removals)) \<subseteq> fset (fmdom s)" using sub(2,3) by blast
  qed
  have "set (concat (map affected_ids ops)) = fset (added_ids s t |\<union>| removed_ids s t |\<union>| changed_ids s t)"
    unfolding ids set_append sets p(2) by auto
  with distinct show "length (concat (map affected_ids ops)) = fcard (added_ids s t |\<union>| removed_ids s t |\<union>| changed_ids s t)"
    by (metis distinct_card fcard.rep_eq)
qed

text \<open>
  C3. Planning is total and exact. On two declared inventories keyed by identity it never panics; it
  yields a plan when both are complete, no function changes and the new facts fit the collection
  limit, and only for complete inventories without function changes; and the operations of a plan
  are well formed, touch every identity at most once, turn the source selection into the target
  selection, and turn the source facts into exactly the target facts.
\<close>

theorem plan_schema_operations_exact:
  assumes "facts_keyed (schema_facts source)" "facts_keyed (schema_facts target)"
  shows "(\<exists>r. plan_schema_operations source target = Some r)
    \<and> (complete_inventory (schema_facts source) \<and> complete_inventory (schema_facts target)
         \<and> function_free_change (schema_facts source) (schema_facts target)
         \<and> fcard (added_ids (schema_facts source) (schema_facts target)) \<le> MAX_CANONICAL_COLLECTION_LEN
       \<longrightarrow> (\<exists>ops. plan_schema_operations source target = Some (Inr ops)))
    \<and> (\<forall>ops. plan_schema_operations source target = Some (Inr ops) \<longrightarrow>
         complete_inventory (schema_facts source) \<and> complete_inventory (schema_facts target)
         \<and> function_free_change (schema_facts source) (schema_facts target)
         \<and> list_all operation_wf ops
         \<and> selection_step ops (fmdom (schema_facts source)) (fmdom (schema_facts target))
         \<and> fold apply_operation ops (schema_facts source) = schema_facts target)"
proof (cases "complete_inventory (schema_facts source) \<and> complete_inventory (schema_facts target)
    \<and> function_free_change (schema_facts source) (schema_facts target)")
  case True
  with plan_accepted [OF assms] consider
      (ok) ops where "plan_schema_operations source target = Some (Inr ops)"
        "is_plan (schema_facts source) (schema_facts target) ops"
    | (limit) "plan_schema_operations source target = Some (Inl (Diagnostic ResourceLimit ''too_many_schema_define_facts''))"
        "MAX_CANONICAL_COLLECTION_LEN < fcard (added_ids (schema_facts source) (schema_facts target))"
    by blast
  then show ?thesis
  proof cases
    case ok
    with True plan_effect [OF assms ok(2)] plan_admissible(1,2) [OF assms ok(2)] show ?thesis by simp
  qed (use True in simp)
next
  case False
  with plan_rejected [OF assms] show ?thesis by auto
qed

definition example_span :: source_span where
  "example_span = \<lparr>span_document = ''schema.tql'', span_byte_start = 0, span_byte_end = 1, span_line = 1,
     span_column = 1, span_end_line = 1, span_end_column = 2\<rparr>"

definition example_schema :: "schema_fact list \<Rightarrow> declared_schema" where
  "example_schema facts =
     \<lparr>schema_format = 1, schema_required_capabilities = {||}, schema_facts = fold insert_fact facts fmempty,
      schema_provenance = fold insert_span (map (\<lambda>f. (f, example_span)) facts) fmempty, schema_fingerprint = []\<rparr>"

lemma example_keyed: "facts_keyed (schema_facts (example_schema facts))"
  unfolding example_schema_def by simp (rule fold_insert_keyed, simp add: facts_keyed_def)

theorem plan_schema_operations_exact_witness:
  "let person = FactType (TypeId Entity ''person''); name = FactType (TypeId Attribute ''name'');
       source = example_schema [person]; target = example_schema [person, name] in
   \<exists>ops. plan_schema_operations source target = Some (Inr ops) \<and> list_all operation_wf ops
     \<and> fold apply_operation ops (schema_facts source) = schema_facts target"
proof -
  let ?p = "FactType (TypeId Entity ''person'')" and ?n = "FactType (TypeId Attribute ''name'')"
  let ?s = "example_schema [?p]" and ?t = "example_schema [?p, ?n]"
  have look: "fmlookup (schema_facts ?s) i = (if i = fact_id ?p then Some ?p else None)"
    "fmlookup (schema_facts ?t) i = (if i = fact_id ?n then Some ?n else if i = fact_id ?p then Some ?p else None)" for i
    by (simp_all add: example_schema_def insert_fact_def)
  have dom: "fmdom (schema_facts ?s) = {|fact_id ?p|}" "fmdom (schema_facts ?t) = {|fact_id ?p, fact_id ?n|}"
    by (simp_all add: example_schema_def insert_fact_def finsert_commute)
  have "complete_inventory (schema_facts ?s)" "complete_inventory (schema_facts ?t)"
    unfolding complete_inventory_def look by (auto split: if_splits)
  moreover have "function_free_change (schema_facts ?s) (schema_facts ?t)"
    unfolding function_free_change_def touches_function_def look
    by (auto simp: dom added_ids_def removed_ids_def changed_ids_def look is_function_fact_def)
  moreover have "fcard (added_ids (schema_facts ?s) (schema_facts ?t)) \<le> MAX_CANONICAL_COLLECTION_LEN"
    unfolding added_ids_def dom by (simp add: MAX_CANONICAL_COLLECTION_LEN_def fcard.rep_eq)
  ultimately show ?thesis
    using plan_schema_operations_exact [of ?s ?t] by (simp add: Let_def example_keyed) blast
qed

end
