(* ===== verification/Delta_Replay.thy ===== *)
theory Delta_Replay
  imports Delta_Plan
begin

text \<open>
  \<open>replay\<close> of \<open>schema/src/delta.rs\<close>: the operations of a delta executed in memory, each one checked
  against the facts present at that moment. The inventory must stay complete after every definition and
  redefinition, and a fact is removed only when nothing that is still present depends on it.
\<close>

section \<open>Definitions\<close>

definition validate_inventory :: "fact_map \<Rightarrow> unit res" where
  "validate_inventory facts = bind_res (graph_from_facts (facts_list facts)) validate_complete"

definition reject_opaque_function :: "schema_operation \<Rightarrow> unit res" where
  "reject_opaque_function op =
     (let facts = (case op of Define fs \<Rightarrow> fs | Redefine e r \<Rightarrow> [e, r] | Undefine f \<Rightarrow> [f]) in
      ensure (\<not> list_ex is_function_fact facts) (integrity ''unsupported_function_migration''))"

definition synthetic_span :: "nat \<Rightarrow> nat \<Rightarrow> source_span res" where
  "synthetic_span operation_index fact_index =
     (let ordinal = operation_index * 1000 + fact_index in
      bind_res (ensure (int ordinal < 2 ^ 64) (integrity ''schema_delta_span_overflow'')) (\<lambda>_.
      bind_res (ensure (int ordinal + 1 < 2 ^ 32) (integrity ''schema_delta_span_overflow'')) (\<lambda>_.
      bind_res (document_id_new ''typebridge.schema-delta.synthetic'') (\<lambda>document.
        source_span_new document ordinal (ordinal + 1) (ordinal + 1) 1 (ordinal + 1) 2))))"

text \<open>Loading the source facts with their spans.\<close>

definition load_fact :: "declared_schema \<Rightarrow> schema_fact \<Rightarrow> fact_map \<times> span_map \<Rightarrow> (fact_map \<times> span_map) res" where
  "load_fact source f = (\<lambda>(facts, spans).
     bind_res (ok_or (fmlookup (schema_provenance source) (fact_id f)) (integrity ''schema_delta_missing_source_span''))
       (\<lambda>span. Inr (fmupd (fact_id f) f facts, fmupd (fact_id f) span spans)))"

definition store_fact :: "nat \<Rightarrow> nat \<times> schema_fact \<Rightarrow> fact_map \<times> span_map \<Rightarrow> (fact_map \<times> span_map) res" where
  "store_fact operation_index = (\<lambda>(fact_index, f) (facts, spans).
     bind_res (synthetic_span operation_index fact_index) (\<lambda>span.
       Inr (fmupd (fact_id f) f facts, fmupd (fact_id f) span spans)))"

definition survivors :: "fact_graph \<Rightarrow> fact_map \<Rightarrow> schema_fact_id \<Rightarrow> bool" where
  "survivors g facts i =
     (case fmlookup (graph_dependents g) i of
        None \<Rightarrow> False
      | Some dependents \<Rightarrow> list_ex (\<lambda>d. d |\<in>| fmdom facts) (sorted_list_of_fset dependents))"

fun replay_operation :: "nat \<Rightarrow> schema_operation \<Rightarrow> fact_map \<times> span_map \<Rightarrow> (fact_map \<times> span_map) res" where
  "replay_operation k (Define fs) (facts, spans) =
     bind_res (ensure (\<not> list_ex (\<lambda>f. fact_id f |\<in>| fmdom facts) fs) (integrity ''schema_delta_define_collision'')) (\<lambda>_.
     bind_res (fold_res (store_fact k) (List.enumerate 0 fs) (facts, spans)) (\<lambda>(facts', spans').
     bind_res (validate_inventory facts') (\<lambda>_.
       Inr (facts', spans'))))"
| "replay_operation k (Redefine expected replacement) (facts, spans) =
     bind_res (ensure (fmlookup facts (fact_id expected) = Some expected)
                 (integrity ''schema_delta_expected_fact_mismatch'')) (\<lambda>_.
     bind_res (synthetic_span k 0) (\<lambda>span.
     bind_res (validate_inventory (fmupd (fact_id expected) replacement facts)) (\<lambda>_.
       Inr (fmupd (fact_id expected) replacement facts, fmupd (fact_id expected) span spans))))"
| "replay_operation k (Undefine expected) (facts, spans) =
     bind_res (ensure (fmlookup facts (fact_id expected) = Some expected)
                 (integrity ''schema_delta_expected_fact_mismatch'')) (\<lambda>_.
     bind_res (graph_from_facts (facts_list facts)) (\<lambda>g.
     bind_res (ensure (\<not> survivors g facts (fact_id expected)) (integrity ''schema_delta_survivor_dependency'')) (\<lambda>_.
       Inr (fmdrop (fact_id expected) facts, fmdrop (fact_id expected) spans))))"

definition replay_step :: "nat \<times> schema_operation \<Rightarrow> fact_map \<times> span_map \<Rightarrow> (fact_map \<times> span_map) res" where
  "replay_step = (\<lambda>(k, op) st. bind_res (reject_opaque_function op) (\<lambda>_. replay_operation k op st))"

definition replay :: "declared_schema \<Rightarrow> schema_operation list \<Rightarrow> (fact_map \<times> span_map) res" where
  "replay source operations =
     bind_res (fold_res (load_fact source) (facts_list (schema_facts source)) (fmempty, fmempty)) (\<lambda>loaded.
     bind_res (fold_res replay_step (List.enumerate 0 operations) loaded) (\<lambda>(facts, spans).
     bind_res (validate_inventory facts) (\<lambda>_.
       Inr (facts, spans))))"

section \<open>Replay as a relation on facts\<close>

text \<open>What one accepted operation does to the facts, spans left out.\<close>

definition depends_on :: "fact_map \<Rightarrow> schema_fact_id \<Rightarrow> schema_fact_id \<Rightarrow> bool" where
  "depends_on facts j i \<longleftrightarrow>
     (\<exists>f d. fmlookup facts j = Some f \<and> dependencies_for (facts_list facts) f = Inr d \<and> i |\<in>| d)"

definition resolvable :: "fact_map \<Rightarrow> bool" where
  "resolvable facts \<longleftrightarrow> (\<forall>i f. fmlookup facts i = Some f \<longrightarrow> (\<exists>d. dependencies_for (facts_list facts) f = Inr d))"

definition operation_facts :: "schema_operation \<Rightarrow> schema_fact list" where
  "operation_facts op = (case op of Define fs \<Rightarrow> fs | Redefine e r \<Rightarrow> [e, r] | Undefine f \<Rightarrow> [f])"

inductive fact_step :: "schema_operation \<Rightarrow> fact_map \<Rightarrow> fact_map \<Rightarrow> bool" where
  define_step: "fact_step (Define fs) facts facts'"
    if "\<forall>f \<in> set fs. \<not> is_function_fact f" "\<forall>f \<in> set fs. fact_id f |\<notin>| fmdom facts"
      "facts' = fold insert_fact fs facts" "complete_inventory facts'"
| redefine_step: "fact_step (Redefine e r) facts facts'"
    if "\<not> is_function_fact e" "\<not> is_function_fact r" "fmlookup facts (fact_id e) = Some e"
      "facts' = fmupd (fact_id e) r facts" "complete_inventory facts'"
| undefine_step: "fact_step (Undefine f) facts facts'"
    if "\<not> is_function_fact f" "fmlookup facts (fact_id f) = Some f" "resolvable facts"
      "\<And>j. \<not> depends_on facts j (fact_id f)" "facts' = fmdrop (fact_id f) facts"

inductive_cases fact_stepE: "fact_step op facts facts'"

inductive fact_steps :: "schema_operation list \<Rightarrow> fact_map \<Rightarrow> fact_map \<Rightarrow> bool" where
  no_step: "fact_steps [] facts facts"
| more_steps: "fact_step op facts facts1 \<Longrightarrow> fact_steps ops facts1 facts2 \<Longrightarrow> fact_steps (op # ops) facts facts2"

inductive_cases fact_steps_ConsE: "fact_steps (op # ops) facts facts'"

lemma fact_step_apply: "fact_step op facts facts' \<Longrightarrow> facts' = apply_operation op facts"
  by (cases rule: fact_step.cases) auto

lemma fact_steps_apply: "fact_steps ops facts facts' \<Longrightarrow> facts' = fold apply_operation ops facts"
  by (induction rule: fact_steps.induct) (auto dest: fact_step_apply)

lemma fact_steps_append:
  "fact_steps ops1 facts facts1 \<Longrightarrow> fact_steps ops2 facts1 facts2 \<Longrightarrow> fact_steps (ops1 @ ops2) facts facts2"
  by (induction rule: fact_steps.induct) (auto intro: more_steps)

lemma apply_keyed:
  assumes "facts_keyed facts" "operation_wf op"
  shows "facts_keyed (apply_operation op facts)"
  using assms
proof (cases op)
  case (Define fs)
  then show ?thesis using assms(1) by (simp add: fold_insert_keyed)
qed (auto simp: operation_wf_def facts_keyed_def)

lemma validate_inventory_iff:
  assumes "facts_keyed facts"
  shows "validate_inventory facts = Inr () \<longleftrightarrow> complete_inventory facts"
  unfolding validate_inventory_def bind_res_eq_Inr complete_inventory_iff [OF assms, symmetric] ..

lemma resolvable_iff:
  assumes "facts_keyed facts"
  shows "(\<exists>g. graph_from_facts (facts_list facts) = Inr g) \<longleftrightarrow> resolvable facts"
proof
  assume "\<exists>g. graph_from_facts (facts_list facts) = Inr g"
  then show "resolvable facts"
    using graph_from_facts_iff [OF assms] by (auto simp: resolvable_def set_facts_list)
next
  assume r: "resolvable facts"
  let ?m = "fmmap (\<lambda>f. case dependencies_for (facts_list facts) f of Inr d \<Rightarrow> d) facts"
  have "graph_from_facts (facts_list facts) = Inr \<lparr>graph_dependencies = ?m, graph_dependents = reverse_graph ?m\<rparr>"
    using r unfolding graph_from_facts_iff [OF assms] by (auto simp: resolvable_def set_facts_list)
  then show "\<exists>g. graph_from_facts (facts_list facts) = Inr g" by blast
qed

lemma survivors_iff:
  assumes "facts_keyed facts" "graph_from_facts (facts_list facts) = Inr g"
  shows "survivors g facts i \<longleftrightarrow> (\<exists>j. depends_on facts j i)"
proof -
  have g: "graph_dependents g = reverse_graph (graph_dependencies g)"
    using graph_from_facts_iff [OF assms(1)] assms(2) by blast
  have "survivors g facts i \<longleftrightarrow> (\<exists>j. j |\<in>| dependents_of (graph_dependents g) i \<and> j |\<in>| fmdom facts)"
    by (auto simp: survivors_def dependents_of_def unwrap_or_def list_ex_iff split: option.splits)
  also have "\<dots> \<longleftrightarrow> (\<exists>j d. fmlookup (graph_dependencies g) j = Some d \<and> i |\<in>| d \<and> j |\<in>| fmdom facts)"
    unfolding g reverse_graph_dependents by blast
  also have "\<dots> \<longleftrightarrow> (\<exists>j. depends_on facts j i)"
    unfolding depends_on_def graph_dependencies_lookup(1) [OF assms] by (auto simp: fmlookup_dom_iff)
  finally show ?thesis .
qed

lemma synthetic_document: "document_id_new ''typebridge.schema-delta.synthetic'' = Inr ''typebridge.schema-delta.synthetic''"
  by code_simp

lemma synthetic_span_ok:
  assumes "k * 1000 + j + 1 < 2 ^ 32"
  shows "\<exists>span. synthetic_span k j = Inr span"
proof -
  have small: "int (k * 1000 + j) + 1 < 2 ^ 32" using assms by simp
  then have "int (k * 1000 + j) < 2 ^ 64" by simp
  with small show ?thesis
    by (simp add: synthetic_span_def Let_def synthetic_document source_span_new_def ensure_def del: One_nat_def)
qed

lemma store_fold:
  assumes "fold_res (store_fact k) (List.enumerate b fs) (facts, spans) = Inr (facts', spans')"
  shows "facts' = fold insert_fact fs facts" and "fmdom spans' = fset_of_list (map fact_id fs) |\<union>| fmdom spans"
  using assms
  by (induction fs arbitrary: b facts spans)
     (auto simp: store_fact_def insert_fact_def res_simps split: prod.splits)

lemma store_fold_ok:
  assumes "k * 1000 + b + length fs < 2 ^ 32"
  shows "\<exists>spans'. fold_res (store_fact k) (List.enumerate b fs) (facts, spans) = Inr (fold insert_fact fs facts, spans')"
  using assms
proof (induction fs arbitrary: b facts spans)
  case (Cons f fs)
  obtain span where "synthetic_span k b = Inr span" using synthetic_span_ok [of k b] Cons.prems by auto
  moreover have "k * 1000 + Suc b + length fs < 2 ^ 32" using Cons.prems by simp
  ultimately show ?case using Cons.IH by (simp add: store_fact_def insert_fact_def)
qed simp

lemma reject_iff: "reject_opaque_function op = Inr () \<longleftrightarrow> (\<forall>f \<in> set (operation_facts op). \<not> is_function_fact f)"
  by (cases op) (auto simp: reject_opaque_function_def operation_facts_def list_ex_iff res_simps)

lemma replay_operation_sound:
  assumes keyed: "facts_keyed facts" and wf: "operation_wf op"
    and run: "replay_step (k, op) (facts, spans) = Inr (facts', spans')"
  shows "fact_step op facts facts'" and "fmdom spans = fmdom facts \<Longrightarrow> fmdom spans' = fmdom facts'"
proof -
  from run have free: "\<forall>f \<in> set (operation_facts op). \<not> is_function_fact f"
    and op: "replay_operation k op (facts, spans) = Inr (facts', spans')"
    by (auto simp: replay_step_def res_simps reject_iff)
  note keyed' = apply_keyed [OF keyed wf]
  have "fact_step op facts facts' \<and> (fmdom spans = fmdom facts \<longrightarrow> fmdom spans' = fmdom facts')"
  proof (cases op)
    case (Define fs)
    with op have fresh: "\<forall>f \<in> set fs. fact_id f |\<notin>| fmdom facts"
      and store: "fold_res (store_fact k) (List.enumerate 0 fs) (facts, spans) = Inr (facts', spans')"
      and inventory: "validate_inventory facts' = Inr ()"
      by (auto simp: res_simps list_ex_iff split: prod.splits)
    have facts': "facts' = fold insert_fact fs facts" by (rule store_fold(1) [OF store])
    with keyed' inventory have "complete_inventory facts'"
      using validate_inventory_iff Define by auto
    with fresh facts' free Define store_fold(2) [OF store] show ?thesis
      by (auto intro: define_step simp: operation_facts_def fold_insert_fact_dom)
  next
    case (Redefine e r)
    with op keyed' show ?thesis
      using free validate_inventory_iff [of "fmupd (fact_id e) r facts"]
      by (auto simp: res_simps operation_facts_def intro!: redefine_step)
  next
    case (Undefine f)
    with op obtain g where g: "fmlookup facts (fact_id f) = Some f" "graph_from_facts (facts_list facts) = Inr g"
        "\<not> survivors g facts (fact_id f)" "facts' = fmdrop (fact_id f) facts" "spans' = fmdrop (fact_id f) spans"
      by (auto simp: res_simps)
    have "resolvable facts" using resolvable_iff [OF keyed] g(2) by blast
    with Undefine g free show ?thesis
      using survivors_iff [OF keyed g(2)] by (auto simp: operation_facts_def intro!: undefine_step)
  qed
  then show "fact_step op facts facts'" "fmdom spans = fmdom facts \<Longrightarrow> fmdom spans' = fmdom facts'" by auto
qed

lemma replay_operation_complete:
  assumes keyed: "facts_keyed facts" and wf: "operation_wf op" and small: "k \<le> MAX_CANONICAL_COLLECTION_LEN"
    and step: "fact_step op facts facts'"
  shows "\<exists>spans'. replay_step (k, op) (facts, spans) = Inr (facts', spans')"
  using step
proof (cases rule: fact_step.cases)
  case (define_step fs)
  have "length fs \<le> MAX_CANONICAL_COLLECTION_LEN" using wf define_step(1) by (simp add: operation_wf_def)
  then have "k * 1000 + 0 + length fs < 2 ^ 32" using small by (simp add: MAX_CANONICAL_COLLECTION_LEN_def)
  from store_fold_ok [OF this, of facts spans] obtain spans' where
    "fold_res (store_fact k) (List.enumerate 0 fs) (facts, spans) = Inr (fold insert_fact fs facts, spans')" by blast
  moreover have "validate_inventory facts' = Inr ()"
    using apply_keyed [OF keyed wf] define_step by (auto simp: validate_inventory_iff)
  moreover have "reject_opaque_function op = Inr ()" using define_step by (simp add: reject_iff operation_facts_def)
  ultimately show ?thesis using define_step by (auto simp: replay_step_def ensure_def list_ex_iff)
next
  case (redefine_step e r)
  have "k * 1000 + 0 + 1 < 2 ^ 32" using small by (simp add: MAX_CANONICAL_COLLECTION_LEN_def)
  from synthetic_span_ok [OF this] obtain span where "synthetic_span k 0 = Inr span" by blast
  moreover have "validate_inventory facts' = Inr ()"
    using apply_keyed [OF keyed wf] redefine_step by (auto simp: validate_inventory_iff)
  moreover have "reject_opaque_function op = Inr ()" using redefine_step by (simp add: reject_iff operation_facts_def)
  ultimately show ?thesis using redefine_step by (auto simp: replay_step_def ensure_def)
next
  case (undefine_step f)
  obtain g where g: "graph_from_facts (facts_list facts) = Inr g"
    using undefine_step resolvable_iff [OF keyed] by blast
  have "reject_opaque_function op = Inr ()" using undefine_step by (simp add: reject_iff operation_facts_def)
  with undefine_step g show ?thesis
    by (auto simp: replay_step_def ensure_def survivors_iff [OF keyed g])
qed

lemma replay_steps_sound:
  assumes "facts_keyed facts" "list_all operation_wf ops" "fmdom spans = fmdom facts"
    and "fold_res replay_step (List.enumerate k ops) (facts, spans) = Inr (facts', spans')"
  shows "fact_steps ops facts facts' \<and> fmdom spans' = fmdom facts'"
  using assms
proof (induction ops arbitrary: k facts spans)
  case (Cons op ops)
  then obtain facts1 spans1 where one: "replay_step (k, op) (facts, spans) = Inr (facts1, spans1)"
      "fold_res replay_step (List.enumerate (Suc k) ops) (facts1, spans1) = Inr (facts', spans')"
    by (auto simp: res_simps)
  have wf: "operation_wf op" using Cons.prems by simp
  note step = replay_operation_sound [OF Cons.prems(1) wf one(1)]
  have "facts_keyed facts1" using apply_keyed [OF Cons.prems(1) wf] fact_step_apply [OF step(1)] by simp
  then have "fact_steps ops facts1 facts' \<and> fmdom spans' = fmdom facts'"
    using Cons.IH [of facts1 spans1 "Suc k"] Cons.prems step(2) one(2) by simp
  with step(1) show ?case by (auto intro: more_steps)
qed (auto intro: no_step)

lemma replay_steps_complete:
  assumes "fact_steps ops facts facts'" "facts_keyed facts" "list_all operation_wf ops"
    "k + length ops \<le> MAX_CANONICAL_COLLECTION_LEN"
  shows "\<exists>spans'. fold_res replay_step (List.enumerate k ops) (facts, spans) = Inr (facts', spans')"
  using assms
proof (induction arbitrary: k spans rule: fact_steps.induct)
  case (more_steps op facts facts1 ops facts2)
  have wf: "operation_wf op" using more_steps.prems by simp
  obtain spans1 where one: "replay_step (k, op) (facts, spans) = Inr (facts1, spans1)"
    using replay_operation_complete [OF more_steps.prems(1) wf _ more_steps.hyps(1)] more_steps.prems(3) by fastforce
  have "facts_keyed facts1"
    using apply_keyed [OF more_steps.prems(1) wf] fact_step_apply [OF more_steps.hyps(1)] by simp
  then have "\<exists>spans'. fold_res replay_step (List.enumerate (Suc k) ops) (facts1, spans1) = Inr (facts2, spans')"
    using more_steps.IH [of "Suc k" spans1] more_steps.prems by simp
  with one show ?case by (simp add: res_simps)
qed simp

text \<open>A declared schema as its constructor leaves it: keyed facts, and a span for every fact.\<close>

definition declared_wf :: "declared_schema \<Rightarrow> bool" where
  "declared_wf s \<longleftrightarrow> facts_keyed (schema_facts s) \<and> fmdom (schema_provenance s) = fmdom (schema_facts s)"

lemma load_facts:
  assumes "\<forall>f \<in> set fs. fact_id f |\<in>| fmdom (schema_provenance source)"
  shows "\<exists>spans'. fold_res (load_fact source) fs (facts, spans) = Inr (fold insert_fact fs facts, spans')
      \<and> fmdom spans' = fset_of_list (map fact_id fs) |\<union>| fmdom spans"
  using assms
proof (induction fs arbitrary: facts spans)
  case (Cons f fs)
  then obtain span where span: "fmlookup (schema_provenance source) (fact_id f) = Some span"
    by (auto simp: fmlookup_dom_iff)
  from Cons obtain spans' where
    "fold_res (load_fact source) fs (insert_fact f facts, fmupd (fact_id f) span spans)
       = Inr (fold insert_fact fs (insert_fact f facts), spans')"
    "fmdom spans' = fset_of_list (map fact_id fs) |\<union>| finsert (fact_id f) (fmdom spans)"
    by (metis fmdom_fmupd list.set_intros(2))
  moreover have "load_fact source f (facts, spans) = Inr (insert_fact f facts, fmupd (fact_id f) span spans)"
    using span by (simp add: load_fact_def insert_fact_def)
  ultimately show ?case by auto
qed simp

lemma load_source:
  assumes "declared_wf source"
  shows "\<exists>spans. fold_res (load_fact source) (facts_list (schema_facts source)) (fmempty, fmempty)
      = Inr (schema_facts source, spans) \<and> fmdom spans = fmdom (schema_facts source)"
proof -
  have k: "facts_keyed (schema_facts source)" using assms by (simp add: declared_wf_def)
  have "\<forall>f \<in> set (facts_list (schema_facts source)). fact_id f |\<in>| fmdom (schema_provenance source)"
    using assms k by (auto simp: declared_wf_def set_facts_list facts_keyed_def fmlookup_dom_iff)
  from load_facts [OF this, of fmempty fmempty] show ?thesis
    by (simp add: fold_facts_list [OF k] facts_keyed_list [OF k] fm_keys_def)
qed

lemma replay_iff:
  assumes "declared_wf source" "list_all operation_wf ops" "length ops \<le> MAX_CANONICAL_COLLECTION_LEN"
  shows "(\<exists>spans. replay source ops = Inr (facts, spans)) \<longleftrightarrow>
     fact_steps ops (schema_facts source) facts \<and> complete_inventory facts"
    and "replay source ops = Inr (facts, spans) \<Longrightarrow> fmdom spans = fmdom facts"
proof -
  have k: "facts_keyed (schema_facts source)" using assms(1) by (simp add: declared_wf_def)
  obtain spans0 where load: "fold_res (load_fact source) (facts_list (schema_facts source)) (fmempty, fmempty)
      = Inr (schema_facts source, spans0)" "fmdom spans0 = fmdom (schema_facts source)"
    using load_source [OF assms(1)] by blast
  have steps_keyed: "facts_keyed facts'" if "fact_steps ops' facts0 facts'" "facts_keyed facts0" "list_all operation_wf ops'" for ops' facts0 facts'
    using that by (induction rule: fact_steps.induct) (auto dest: fact_step_apply intro: apply_keyed)
  have iff: "replay source ops = Inr (facts, spans) \<longleftrightarrow>
      fold_res replay_step (List.enumerate 0 ops) (schema_facts source, spans0) = Inr (facts, spans)
      \<and> validate_inventory facts = Inr ()" for spans
    by (auto simp: replay_def load(1) res_simps split: prod.splits)
  note sound = replay_steps_sound [OF k assms(2) load(2)]
  show "replay source ops = Inr (facts, spans) \<Longrightarrow> fmdom spans = fmdom facts"
    using sound unfolding iff by blast
  show "(\<exists>spans. replay source ops = Inr (facts, spans)) \<longleftrightarrow>
     fact_steps ops (schema_facts source) facts \<and> complete_inventory facts"
    unfolding iff
    using sound replay_steps_complete [OF _ k assms(2), of facts 0 spans0] assms(3)
      validate_inventory_iff [OF steps_keyed [OF _ k assms(2)]]
    by auto
qed

end
