(* ===== verification/Delta_Transitions.thy ===== *)
theory Delta_Transitions
  imports Delta_Replay
begin

text \<open>
  When a planned delta can be replayed. The dependencies of a fact are recomputed in every
  intermediate inventory, so they must not change along the way: this theory shows that they do not
  when no type changes its parent, no label used by a function changes its declaration and no role
  specialisation is circular, and then that every prefix of the plan is a legal sequence of steps.
\<close>

section \<open>Stable transitions\<close>

definition facts_union :: "fact_map \<Rightarrow> fact_map \<Rightarrow> schema_fact_id fset" where
  "facts_union s t = fmdom s |\<union>| fmdom t"

definition single_parents :: "schema_fact_id fset \<Rightarrow> bool" where
  "single_parents ids \<longleftrightarrow>
     (\<forall>e1 e2. IdSub e1 |\<in>| ids \<longrightarrow> IdSub e2 |\<in>| ids \<longrightarrow> sub_subtype e1 = sub_subtype e2 \<longrightarrow> e1 = e2)"

fun id_label :: "schema_fact_id \<Rightarrow> label option" where
  "id_label (IdType i) = Some (type_id_label i)"
| "id_label (IdStruct i) = Some (struct_label i)"
| "id_label _ = None"

definition stable_labels :: "schema_fact_id fset \<Rightarrow> fact_map \<Rightarrow> bool" where
  "stable_labels ids facts \<longleftrightarrow>
     (\<forall>i f l j k. fmlookup facts i = Some (FactFunction f) \<longrightarrow> l \<in> set (schema_references f) \<longrightarrow>
        j |\<in>| ids \<longrightarrow> k |\<in>| ids \<longrightarrow> id_label j = Some l \<longrightarrow> id_label k = Some l \<longrightarrow> j = k)"

definition specialization :: "fact_map \<Rightarrow> (role_id \<times> role_id) set" where
  "specialization facts =
     {(p, relates_role i) | p i f. fmlookup facts (IdRelates i) = Some (FactRelates f) \<and> relates_specializes f = Some p}"

definition stable_transition :: "fact_map \<Rightarrow> fact_map \<Rightarrow> bool" where
  "stable_transition s t \<longleftrightarrow>
     single_parents (facts_union s t) \<and> stable_labels (facts_union s t) s \<and> stable_labels (facts_union s t) t
     \<and> acyclic (specialization s)"

section \<open>Unique subtype paths\<close>

lemma find_sub_path_avoids:
  "find_sub_path edges fuel t u visited = Some (Some p, visited') \<Longrightarrow>
     \<forall>x. \<forall>e \<in> set (edges x). sub_subtype e = x \<Longrightarrow> \<forall>e \<in> set p. sub_subtype e \<noteq> u"
  "find_sub_path_edges edges fuel es u visited = Some (Some p, visited') \<Longrightarrow>
     \<forall>x. \<forall>e \<in> set (edges x). sub_subtype e = x \<Longrightarrow> \<forall>e \<in> set es. sub_subtype e \<noteq> u \<Longrightarrow> \<forall>e \<in> set p. sub_subtype e \<noteq> u"
proof (induction edges fuel t u visited and edges fuel es u visited
    arbitrary: p visited' and p visited' rule: find_sub_path_find_sub_path_edges.induct)
  case (2 edges fuel t u visited)
  then show ?case by (auto simp: find_sub_path.simps split: if_splits)
next
  case (4 edges fuel e es u visited)
  show ?case
  proof (cases "find_sub_path edges fuel (sub_supertype e) u visited")
    case (Some r)
    obtain q v where r: "r = (q, v)" by fastforce
    show ?thesis
    proof (cases q)
      case None
      then show ?thesis
        using 4(2) [of r q v p visited'] 4(3-) Some r by (simp add: find_sub_path_edges.simps)
    next
      case (Some tail)
      then show ?thesis
        using 4(1) [of tail v] 4(3-) \<open>find_sub_path edges fuel (sub_supertype e) u visited = Some r\<close> r
        by (auto simp: find_sub_path_edges.simps)
    qed
  qed (use 4(3) in \<open>simp add: find_sub_path_edges.simps\<close>)
qed (auto simp: find_sub_path.simps find_sub_path_edges.simps)

lemma sub_path_avoids: "sub_path fs t u = Some p \<Longrightarrow> e \<in> set p \<Longrightarrow> sub_subtype e \<noteq> u"
proof -
  assume "sub_path fs t u = Some p" "e \<in> set p"
  then obtain v where "find_sub_path (sub_by_child fs) (length fs + 2) t u {||} = Some (Some p, v)" "e \<in> set p"
    by (auto simp: sub_path_def Option.bind_eq_Some_conv)
  then show ?thesis using find_sub_path_avoids(1) by (fastforce simp: set_sub_by_child)
qed

lemma sub_chain_unique:
  assumes "is_sub_chain (sub_by_child fs) t p u" "is_sub_chain (sub_by_child gs) t q u"
    and "\<forall>e \<in> set p. sub_subtype e \<noteq> u" "\<forall>e \<in> set q. sub_subtype e \<noteq> u"
    and "\<And>e1 e2. FactSub e1 \<in> set fs \<Longrightarrow> FactSub e2 \<in> set gs \<Longrightarrow> sub_subtype e1 = sub_subtype e2 \<Longrightarrow> e1 = e2"
  shows "p = q"
  using assms(1-4)
proof (induction p arbitrary: t q)
  case Nil
  then show ?case by (cases q) (auto simp: set_sub_by_child)
next
  case (Cons e p)
  from Cons.prems obtain e' q' where q: "q = e' # q'" by (cases q) (auto simp: set_sub_by_child)
  have "e = e'" using Cons.prems(1,2) q assms(5) [of e e'] by (auto simp: set_sub_by_child)
  with Cons q show ?case by auto
qed

lemma keyed_sub: "facts_keyed m \<Longrightarrow> FactSub e \<in> set (facts_list m) \<longleftrightarrow> IdSub e |\<in>| fmdom m"
proof
  assume k: "facts_keyed m" and "IdSub e |\<in>| fmdom m"
  then obtain f where f: "fmlookup m (IdSub e) = Some f" "fact_id f = IdSub e" by (auto simp: facts_keyed_def fmlookup_dom_iff)
  then have "f = FactSub e" by (cases f) auto
  with f show "FactSub e \<in> set (facts_list m)" by (auto simp: set_facts_list)
qed (force simp: set_facts_list facts_keyed_def fmlookup_dom_iff)

lemma sub_path_transfer:
  assumes keyed: "facts_keyed m" "facts_keyed n"
    and path: "sub_path (facts_list m) t u = Some p"
    and present: "\<forall>e \<in> set p. IdSub e |\<in>| fmdom n"
    and single: "single_parents (fmdom m |\<union>| fmdom n)"
  shows "sub_path (facts_list n) t u = Some p"
proof -
  have chain: "is_sub_chain (sub_by_child (facts_list m)) t p u" by (rule sub_path_Some [OF path])
  have "is_sub_chain (sub_by_child (facts_list n)) t q u"
    if "is_sub_chain (sub_by_child (facts_list m)) t q u" "\<forall>e \<in> set q. IdSub e |\<in>| fmdom n" for q t
    using that by (induction q arbitrary: t) (auto simp: set_sub_by_child keyed_sub [OF keyed(2)])
  with chain present have "(sub_step (sub_by_child (facts_list n)))\<^sup>*\<^sup>* t u" by (blast intro: is_sub_chain_reach)
  then obtain q where q: "sub_path (facts_list n) t u = Some q" using sub_path_None by (metis not_None_eq)
  have "p = q"
    using chain sub_path_Some [OF q] sub_path_avoids [OF path] sub_path_avoids [OF q] single
    by (intro sub_chain_unique [of "facts_list m" t p u "facts_list n" q])
       (auto simp: single_parents_def keyed_sub [OF keyed(1)] keyed_sub [OF keyed(2)])
  with q show ?thesis by simp
qed

section \<open>Stable label references\<close>

lemma declared_label_id: "declared_label f = id_label (fact_id f)"
  by (cases f) auto

lemma label_candidates_keyed:
  assumes "facts_keyed m"
  shows "label_candidates (facts_list m) l = filter (\<lambda>i. id_label i = Some l) (fm_keys m)"
proof -
  have "map fact_id (filter (\<lambda>f. declared_label f = Some l) fs) = filter (\<lambda>i. id_label i = Some l) (map fact_id fs)" for fs
    by (induction fs) (auto simp: declared_label_id)
  then have "label_candidates (facts_list m) l = sort (filter (\<lambda>i. id_label i = Some l) (fm_keys m))"
    by (simp add: label_candidates_def facts_keyed_list [OF assms])
  moreover have "sorted (filter (\<lambda>i. id_label i = Some l) (fm_keys m))"
    using sorted_filter [of id "fm_keys m"] by simp
  ultimately show ?thesis by (simp add: sorted_sort_id)
qed

lemma distinct_singleton: "distinct xs \<Longrightarrow> set xs = {x} \<Longrightarrow> xs = [x]"
  by (cases xs; cases "tl xs") auto

lemma singleton_candidates:
  assumes "facts_keyed n" "j |\<in>| fmdom n" "id_label j = Some l"
    and "\<And>k. k |\<in>| fmdom n \<Longrightarrow> id_label k = Some l \<Longrightarrow> k = j"
  shows "label_candidates (facts_list n) l = [j]"
proof -
  let ?c = "filter (\<lambda>i. id_label i = Some l) (fm_keys n)"
  have "set ?c = {j}" unfolding set_filter set_fm_keys using assms(2-) by blast
  moreover have "distinct ?c" by simp
  ultimately have "?c = [j]" by (intro distinct_singleton)
  then show ?thesis by (simp add: label_candidates_keyed [OF assms(1)])
qed

section \<open>Dependencies carried over to another inventory\<close>

lemma function_dependencies_transfer:
  assumes "function_dependencies (facts_list m) ls deps0 = Inr d" "facts_keyed m" "facts_keyed n" "d |\<subseteq>| fmdom n"
    and "\<And>l j k. l \<in> set ls \<Longrightarrow> j |\<in>| fmdom m |\<union>| fmdom n \<Longrightarrow> k |\<in>| fmdom m |\<union>| fmdom n \<Longrightarrow>
      id_label j = Some l \<Longrightarrow> id_label k = Some l \<Longrightarrow> j = k"
  shows "function_dependencies (facts_list n) ls deps0 = Inr d \<and> deps0 |\<subseteq>| d"
  using assms(1,5)
proof (induction ls arbitrary: deps0)
  case (Cons l ls)
  then obtain j where j: "label_candidates (facts_list m) l = [j]"
      "function_dependencies (facts_list m) ls (finsert j deps0) = Inr d"
    by (auto split: list.splits)
  have ih: "function_dependencies (facts_list n) ls (finsert j deps0) = Inr d" "finsert j deps0 |\<subseteq>| d"
    using Cons.IH [OF j(2)] Cons.prems(2) by (metis list.set_intros(2))+
  have "j \<in> set (label_candidates (facts_list m) l)" by (simp add: j(1))
  then have label: "id_label j = Some l" "j |\<in>| fmdom m"
    by (auto simp: label_candidates_keyed [OF assms(2)])
  have "j |\<in>| fmdom n" using ih(2) assms(4) by blast
  then have "label_candidates (facts_list n) l = [j]"
    using label Cons.prems(2) [of l] by (intro singleton_candidates [OF assms(3)]) auto
  with ih show ?case by simp
qed simp

lemma dependencies_transfer:
  assumes keyed: "facts_keyed m" "facts_keyed n"
    and deps: "dependencies_for (facts_list m) f = Inr d" and present: "d |\<subseteq>| fmdom n"
    and single: "single_parents (fmdom m |\<union>| fmdom n)"
    and labels: "\<And>g l j k. f = FactFunction g \<Longrightarrow> l \<in> set (schema_references g) \<Longrightarrow>
      j |\<in>| fmdom m |\<union>| fmdom n \<Longrightarrow> k |\<in>| fmdom m |\<union>| fmdom n \<Longrightarrow> id_label j = Some l \<Longrightarrow> id_label k = Some l \<Longrightarrow> j = k"
  shows "dependencies_for (facts_list n) f = Inr d"
proof (cases f)
  case (FactRelates r)
  show ?thesis
  proof (cases "relates_specializes r")
    case None
    with FactRelates deps show ?thesis by (simp add: Let_def)
  next
    case (Some parent)
    let ?rel = "relates_relation (relates_fact_id_of r)"
    from FactRelates Some deps obtain p where p: "sub_path (facts_list m) ?rel (relation_type parent) = Some p"
        "d = {|IdType ?rel, IdRelates (relates_id parent)|} |\<union>| fset_of_list (map IdSub p)"
      by (auto simp: Let_def res_simps)
    have "\<forall>e \<in> set p. IdSub e |\<in>| fmdom n"
      using present p(2) by (auto simp: fset_of_list_elem)
    from sub_path_transfer [OF keyed p(1) this single]
    show ?thesis using FactRelates Some p(2) by (simp add: Let_def)
  qed
next
  case (FactFunction g)
  with deps have "function_dependencies (facts_list m) (schema_references g) {||} = Inr d" by simp
  from function_dependencies_transfer [OF this keyed present] labels [OF FactFunction]
  show ?thesis using FactFunction by auto
qed (use deps in \<open>auto simp: Let_def\<close>)

section \<open>No circular dependencies\<close>

fun id_rank :: "schema_fact_id \<Rightarrow> nat" where
  "id_rank (IdType _) = 0"
| "id_rank (IdStruct _) = 0"
| "id_rank (IdSub _) = 1"
| "id_rank (IdValue _) = 1"
| "id_rank (IdOwns _) = 2"
| "id_rank (IdRelates _) = 3"
| "id_rank (IdPlays _) = 4"
| "id_rank (IdFunction _) = 4"
| "id_rank (IdAnnotation _) = 5"

fun id_role :: "schema_fact_id \<Rightarrow> role_id" where
  "id_role (IdRelates i) = relates_role i"
| "id_role _ = RoleId [] []"

lemma function_dependencies_labels:
  "function_dependencies fs ls deps0 = Inr d \<Longrightarrow> i |\<in>| d \<Longrightarrow>
     i |\<in>| deps0 \<or> (\<exists>f \<in> set fs. declared_label f \<noteq> None \<and> i = fact_id f)"
proof (induction ls arbitrary: deps0)
  case (Cons l ls)
  then obtain j where j: "label_candidates fs l = [j]" "function_dependencies fs ls (finsert j deps0) = Inr d"
    by (auto split: list.splits)
  have "j \<in> set (label_candidates fs l)" by (simp add: j(1))
  then have "\<exists>f \<in> set fs. declared_label f \<noteq> None \<and> j = fact_id f" by (auto simp: label_candidates_def)
  with Cons.IH [OF j(2) Cons.prems(2)] show ?case by blast
qed simp

lemma depends_on_rank:
  assumes keyed: "facts_keyed m" and dep: "depends_on m i j"
  shows "id_rank j < id_rank i \<or> id_rank j = id_rank i \<and> (id_role j, id_role i) \<in> specialization m"
proof -
  from dep obtain f d where f: "fmlookup m i = Some f" "dependencies_for (facts_list m) f = Inr d" "j |\<in>| d"
    by (auto simp: depends_on_def)
  have i: "i = fact_id f" using keyed f(1) by (simp add: facts_keyed_def)
  show ?thesis
  proof (cases f)
    case (FactRelates r)
    show ?thesis
    proof (cases "relates_specializes r")
      case None
      with FactRelates f i show ?thesis by (auto simp: Let_def)
    next
      case (Some parent)
      with FactRelates f(1) i have "(parent, relates_role (relates_fact_id_of r)) \<in> specialization m"
        by (auto simp: specialization_def)
      with FactRelates Some f(2,3) i show ?thesis
        by (auto simp: Let_def res_simps fset_of_list_elem relates_id_def)
    qed
  next
    case (FactFunction g)
    with f function_dependencies_labels [of "facts_list m" "schema_references g" "{||}" d j]
    obtain h where "declared_label h \<noteq> None" "j = fact_id h" by auto
    then show ?thesis using FactFunction i by (cases h) auto
  next
    case (FactAnnotation a)
    with f have "j = subject_fact_id (annotation_subject (annotation_fact_id_of a))" by auto
    then show ?thesis using FactAnnotation i by (cases "annotation_subject (annotation_fact_id_of a)") auto
  qed (use f i in \<open>auto simp: Let_def relates_id_def\<close>)
qed

lemma finite_specialization: "finite (specialization m)"
proof (rule finite_subset)
  show "specialization m \<subseteq> (\<lambda>i. case fmlookup m i of Some (FactRelates f) \<Rightarrow> (the (relates_specializes f), id_role i)) ` fset (fmdom m)"
  proof
    fix x assume "x \<in> specialization m"
    then obtain p i f where "fmlookup m (IdRelates i) = Some (FactRelates f)" "relates_specializes f = Some p"
        "x = (p, relates_role i)" by (auto simp: specialization_def)
    then show "x \<in> (\<lambda>i. case fmlookup m i of Some (FactRelates f) \<Rightarrow> (the (relates_specializes f), id_role i)) ` fset (fmdom m)"
      by (intro image_eqI [of _ _ "IdRelates i"]) (auto simp: fmlookup_dom_iff)
  qed
qed simp

lemma depends_on_acyclic:
  assumes "facts_keyed m" "acyclic (specialization m)"
  shows "acyclic {(i, j). depends_on m i j}"
proof -
  let ?R = "inv_image (less_than <*lex*> specialization m) (\<lambda>i. (id_rank i, id_role i))"
  have "wf ?R" using finite_acyclic_wf [OF finite_specialization assms(2)] by auto
  moreover have "{(i, j). depends_on m i j}\<inverse> \<subseteq> ?R" using depends_on_rank [OF assms(1)] by auto
  ultimately have "wf ({(i, j). depends_on m i j}\<inverse>)" by (rule wf_subset)
  then show ?thesis using wf_acyclic acyclic_converse by blast
qed

section \<open>Intermediate inventories\<close>

definition mixture :: "fact_map \<Rightarrow> fact_map \<Rightarrow> fact_map \<Rightarrow> bool" where
  "mixture s t F \<longleftrightarrow> (\<forall>i f. fmlookup F i = Some f \<longrightarrow> fmlookup s i = Some f \<or> fmlookup t i = Some f)"

text \<open>Every fact of the mixture has the prerequisites it has in the inventory it comes from.\<close>

definition grounded :: "fact_map \<Rightarrow> fact_map \<Rightarrow> fact_map \<Rightarrow> bool" where
  "grounded s t F \<longleftrightarrow>
     (\<forall>i f. fmlookup F i = Some f \<longrightarrow>
        (\<exists>m d. m \<in> {s, t} \<and> fmlookup m i = Some f \<and> dependencies_for (facts_list m) f = Inr d \<and> d |\<subseteq>| fmdom F))"

lemma mixture_keyed: "facts_keyed s \<Longrightarrow> facts_keyed t \<Longrightarrow> mixture s t F \<Longrightarrow> facts_keyed F"
  by (fastforce simp: mixture_def facts_keyed_def)

lemma mixture_dom: "mixture s t F \<Longrightarrow> fmdom F |\<subseteq>| facts_union s t"
  by (fastforce simp: mixture_def facts_union_def fmlookup_dom_iff)

lemma grounded_mixture: "grounded s t F \<Longrightarrow> mixture s t F"
  by (auto simp: grounded_def mixture_def)

lemma grounded_dependencies:
  assumes keyed: "facts_keyed s" "facts_keyed t" and stable: "stable_transition s t"
    and mix: "mixture s t F" and m: "m \<in> {s, t}" "fmlookup m i = Some f"
    and deps: "dependencies_for (facts_list m) f = Inr d" "d |\<subseteq>| fmdom F"
  shows "dependencies_for (facts_list F) f = Inr d"
proof -
  have dom: "fmdom m |\<union>| fmdom F |\<subseteq>| facts_union s t"
    using m(1) mixture_dom [OF mix] by (auto simp: facts_union_def)
  have "facts_keyed m" using keyed m(1) by auto
  moreover have "single_parents (fmdom m |\<union>| fmdom F)"
    using stable dom unfolding stable_transition_def single_parents_def by (meson fsubsetD)
  moreover have "stable_labels (facts_union s t) m" using stable m(1) by (auto simp: stable_transition_def)
  then have "j = k" if "f = FactFunction g" "l \<in> set (schema_references g)" "j |\<in>| fmdom m |\<union>| fmdom F"
      "k |\<in>| fmdom m |\<union>| fmdom F" "id_label j = Some l" "id_label k = Some l" for g l j k
    using that m(2) dom unfolding stable_labels_def by (meson fsubsetD)
  ultimately show ?thesis
    using dependencies_transfer [OF _ mixture_keyed [OF keyed mix] deps] by blast
qed

lemma grounded_complete:
  assumes "facts_keyed s" "facts_keyed t" "stable_transition s t" "grounded s t F"
  shows "complete_inventory F"
  unfolding complete_inventory_def
proof (intro allI impI)
  fix i f assume "fmlookup F i = Some f"
  with assms(4) obtain m d where "m \<in> {s, t}" "fmlookup m i = Some f"
      "dependencies_for (facts_list m) f = Inr d" "d |\<subseteq>| fmdom F"
    unfolding grounded_def by blast
  with grounded_dependencies [OF assms(1-3) grounded_mixture [OF assms(4)]]
  show "\<exists>d. dependencies_for (facts_list F) f = Inr d \<and> d |\<subseteq>| fmdom F" by blast
qed

lemma fact_steps_prefixes:
  assumes "\<And>k. k < length ops \<Longrightarrow>
    fact_step (ops ! k) (fold apply_operation (take k ops) F) (fold apply_operation (take (Suc k) ops) F)"
  shows "fact_steps ops F (fold apply_operation ops F)"
  using assms
proof (induction ops arbitrary: F)
  case (Cons op ops)
  have "fact_step op F (apply_operation op F)" using Cons.prems [of 0] by simp
  moreover have "fact_steps ops (apply_operation op F) (fold apply_operation ops (apply_operation op F))"
    using Cons.prems [of "Suc k" for k] by (intro Cons.IH) simp
  ultimately show ?case by (auto intro: more_steps)
qed (auto intro: no_step)

lemma closed_prefix:
  assumes "is_scc_order (graph_neighbors g nodes) (fset nodes) cs"
    and "i \<in> set (concat (take k cs))" "fmlookup (graph_dependencies g) i = Some d" "x |\<in>| d" "x |\<in>| nodes"
  shows "x \<in> set (concat (take k cs))"
proof -
  from assms(2) obtain c where c: "c \<in> set (take k cs)" "i \<in> set c" by auto
  then obtain a where "a < length (take k cs)" "take k cs ! a = c" by (metis in_set_conv_nth)
  with c(2) have a: "a < length cs" "a < k" "i \<in> set (cs ! a)" by auto
  have "x \<in> set (graph_neighbors g nodes i)" using assms(3-5) by (simp add: graph_neighbors_def unwrap_or_def)
  then have "x \<in> \<Union> (set ` set (take (Suc a) cs))"
    using assms(1) a unfolding is_scc_order_def blocks_closed_def by blast
  moreover have "set (take (Suc a) cs) \<subseteq> set (take k cs)" using a(2) by (intro set_take_subset_set_take) simp
  ultimately show ?thesis by auto
qed

end
