(* ===== verification/Delta_Success.thy ===== *)
theory Delta_Success
  imports Delta_Transitions
begin

text \<open>
  Replaying a plan on its source: every accepted replay ends in exactly the target facts, and on
  stable transitions the replay is accepted.
\<close>

section \<open>The three phases of a plan\<close>

lemma known_dependencies:
  assumes "facts_keyed m" "complete_inventory m" "graph_from_facts (facts_list m) = Inr g" "fmlookup m i = Some f"
  obtains d where "dependencies_for (facts_list m) f = Inr d" "d |\<subseteq>| fmdom m" "fmlookup (graph_dependencies g) i = Some d"
proof -
  from assms(2,4) obtain d where d: "dependencies_for (facts_list m) f = Inr d" "d |\<subseteq>| fmdom m"
    unfolding complete_inventory_def by blast
  with assms(4) graph_dependencies_lookup(1) [OF assms(1,3)] show thesis by (intro that [of d]) blast+
qed

lemma grounded_defines:
  assumes keyed: "facts_keyed s" "facts_keyed t" and complete: "complete_inventory s" "complete_inventory t"
    and graph: "graph_from_facts (facts_list t) = Inr tg"
    and adds: "is_scc_order (graph_neighbors tg (added_ids s t)) (fset (added_ids s t)) adds"
    and F: "\<And>j. fmlookup F j = (if j \<in> set (concat (take k adds)) then fmlookup t j else fmlookup s j)"
  shows "grounded s t F"
  unfolding grounded_def
proof (intro allI impI)
  fix i f assume i: "fmlookup F i = Some f"
  have new: "j |\<in>| added_ids s t" if "j \<in> set (concat (take k adds))" for j
    using that adds by (auto simp: is_scc_order_def dest: in_set_takeD)
  have dom: "x |\<in>| fmdom F \<longleftrightarrow> x |\<in>| fmdom s \<or> x \<in> set (concat (take k adds))" for x
    using new [of x] by (auto simp: fmlookup_in_dom F added_ids_def)
  show "\<exists>m d. m \<in> {s, t} \<and> fmlookup m i = Some f \<and> dependencies_for (facts_list m) f = Inr d \<and> d |\<subseteq>| fmdom F"
  proof (cases "i \<in> set (concat (take k adds))")
    case True
    then have "fmlookup t i = Some f" using i F by simp
    then obtain d where d: "dependencies_for (facts_list t) f = Inr d" "d |\<subseteq>| fmdom t"
        "fmlookup (graph_dependencies tg) i = Some d"
      by (rule known_dependencies [OF keyed(2) complete(2) graph])
    have "x |\<in>| fmdom F" if "x |\<in>| d" for x
      using closed_prefix [OF adds True d(3) that] d(2) that dom by (auto simp: added_ids_def)
    with d \<open>fmlookup t i = Some f\<close> show ?thesis by blast
  next
    case False
    then have "fmlookup s i = Some f" using i F by simp
    moreover from this obtain d where "dependencies_for (facts_list s) f = Inr d" "d |\<subseteq>| fmdom s"
      using complete(1) unfolding complete_inventory_def by blast
    ultimately show ?thesis using dom by blast
  qed
qed

lemma grounded_union:
  assumes complete: "complete_inventory s" "complete_inventory t" and mix: "mixture s t F"
    and dom: "facts_union s t |\<subseteq>| fmdom F"
  shows "grounded s t F"
  unfolding grounded_def
proof (intro allI impI)
  fix i f assume "fmlookup F i = Some f"
  with mix obtain m where m: "m \<in> {s, t}" "fmlookup m i = Some f" by (auto simp: mixture_def)
  with complete obtain d where "dependencies_for (facts_list m) f = Inr d" "d |\<subseteq>| fmdom m"
    unfolding complete_inventory_def by blast
  with m dom show "\<exists>m d. m \<in> {s, t} \<and> fmlookup m i = Some f \<and> dependencies_for (facts_list m) f = Inr d \<and> d |\<subseteq>| fmdom F"
    unfolding facts_union_def by blast
qed

lemma grounded_undefines:
  assumes keyed: "facts_keyed s" "facts_keyed t" and complete: "complete_inventory s" "complete_inventory t"
    and graph: "graph_from_facts (facts_list s) = Inr sg"
    and removals: "is_scc_order (graph_neighbors sg (removed_ids s t)) (fset (removed_ids s t)) removals"
    and F: "\<And>j. fmlookup F j = (if j |\<in>| fmdom t then fmlookup t j
        else if j \<in> set (concat (take k removals)) then fmlookup s j else None)"
  shows "grounded s t F"
  unfolding grounded_def
proof (intro allI impI)
  fix i f assume i: "fmlookup F i = Some f"
  have old: "j |\<in>| removed_ids s t" if "j \<in> set (concat (take k removals))" for j
    using that removals by (auto simp: is_scc_order_def dest: in_set_takeD)
  have dom: "x |\<in>| fmdom F \<longleftrightarrow> x |\<in>| fmdom t \<or> x \<in> set (concat (take k removals))" for x
    using old [of x] by (auto simp: fmlookup_in_dom F removed_ids_def)
  show "\<exists>m d. m \<in> {s, t} \<and> fmlookup m i = Some f \<and> dependencies_for (facts_list m) f = Inr d \<and> d |\<subseteq>| fmdom F"
  proof (cases "i |\<in>| fmdom t")
    case True
    then have "fmlookup t i = Some f" using i F by simp
    moreover from this obtain d where "dependencies_for (facts_list t) f = Inr d" "d |\<subseteq>| fmdom t"
      using complete(2) unfolding complete_inventory_def by blast
    ultimately show ?thesis using dom by blast
  next
    case False
    then have s: "i \<in> set (concat (take k removals))" "fmlookup s i = Some f" using i F by (auto split: if_splits)
    from s(2) obtain d where d: "dependencies_for (facts_list s) f = Inr d" "d |\<subseteq>| fmdom s"
        "fmlookup (graph_dependencies sg) i = Some d"
      by (rule known_dependencies [OF keyed(1) complete(1) graph])
    have "x |\<in>| fmdom F" if "x |\<in>| d" for x
      using closed_prefix [OF removals s(1) d(3) that] d(2) that dom by (auto simp: removed_ids_def)
    with d s(2) show ?thesis by blast
  qed
qed

section \<open>Removal blocks are single facts\<close>

lemma removal_blocks_single:
  assumes keyed: "facts_keyed s" and graph: "graph_from_facts (facts_list s) = Inr sg"
    and acyclic: "acyclic (specialization s)"
    and removals: "is_scc_order (graph_neighbors sg nodes) (fset nodes) removals" and c: "c \<in> set removals"
  shows "\<exists>x. c = [x]"
proof -
  let ?D = "{(i, j). depends_on s i j}"
  have edge: "(x, y) \<in> ?D" if "y \<in> set (graph_neighbors sg nodes x)" for x y
    using that graph_dependencies_lookup(1) [OF keyed graph]
    by (auto simp: graph_neighbors_def unwrap_or_def depends_on_def split: option.splits)
  have path: "(x, y) \<in> ?D\<^sup>*" if "reaches (graph_neighbors sg nodes) x y" for x y
    using that unfolding reaches_def
  proof (induction rule: rtranclp_induct)
    case (step y z)
    show ?case by (rule rtrancl_into_rtrancl [OF step.IH edge [OF step.hyps(2)]])
  qed simp
  note b = scc_order_blocks(3,4) [OF removals c]
  have "x = y" if "x \<in> set c" "y \<in> set c" for x y
  proof (rule ccontr)
    assume "x \<noteq> y"
    have "blocks_connected (graph_neighbors sg nodes) removals" using removals by (simp add: is_scc_order_def)
    with c that have "reaches (graph_neighbors sg nodes) x y" "reaches (graph_neighbors sg nodes) y x"
      by (auto simp: blocks_connected_def)
    then have p: "(x, y) \<in> ?D\<^sup>*" "(y, x) \<in> ?D\<^sup>*" by (auto dest: path)
    then have "(x, y) \<in> ?D\<^sup>+" using \<open>x \<noteq> y\<close> rtranclD [OF p(1)] by blast
    then have "(x, x) \<in> ?D\<^sup>+" using p(2) by (rule trancl_rtrancl_trancl)
    with depends_on_acyclic [OF keyed acyclic] show False by (simp add: acyclic_def)
  qed
  then have "set c = {hd c}" using hd_in_set [OF b(2)] by auto
  then show ?thesis using distinct_singleton [OF b(1)] by blast
qed

lemma concat_take_singles: "\<forall>c \<in> set cs. \<exists>x. c = [x] \<Longrightarrow> concat (take k cs) = take k (concat cs)"
  by (induction cs arbitrary: k) (auto simp: take_Cons split: nat.splits)

section \<open>The steps of each phase\<close>

lemma planned_free:
  assumes "function_free_change s t"
  shows "i |\<in>| added_ids s t \<Longrightarrow> \<not> is_function_fact (the (fmlookup t i))"
    and "i |\<in>| removed_ids s t \<Longrightarrow> \<not> is_function_fact (the (fmlookup s i))"
    and "i |\<in>| changed_ids s t \<Longrightarrow> \<not> is_function_fact (the (fmlookup s i))"
proof -
  have free: "\<not> touches_function s t i" if "i |\<in>| added_ids s t |\<union>| removed_ids s t |\<union>| changed_ids s t"
    using assms that unfolding function_free_change_def by blast
  show "i |\<in>| added_ids s t \<Longrightarrow> \<not> is_function_fact (the (fmlookup t i))"
    using free by (auto simp: touches_function_def added_ids_def fmlookup_dom_iff fmlookup_in_dom split: option.splits)
  show "i |\<in>| removed_ids s t \<Longrightarrow> \<not> is_function_fact (the (fmlookup s i))"
    using free by (auto simp: touches_function_def removed_ids_def fmlookup_dom_iff split: option.splits)
  show "i |\<in>| changed_ids s t \<Longrightarrow> \<not> is_function_fact (the (fmlookup s i))"
    using free by (auto simp: touches_function_def changed_ids_def fmlookup_dom_iff split: option.splits)
qed

lemma same_id_function: "fact_id f = fact_id g \<Longrightarrow> is_function_fact f \<longleftrightarrow> is_function_fact g"
  by (cases f; cases g) (auto simp: is_function_fact_def)

lemma take_Suc_index:
  assumes "k < length cs" "distinct (concat cs)" "x \<in> set (cs ! k)"
  shows "x \<notin> set (concat (take k cs))"
proof -
  have "concat cs = concat (take k cs) @ cs ! k @ concat (drop (Suc k) cs)"
    by (metis append_take_drop_id concat.simps(2) concat_append Cons_nth_drop_Suc assms(1))
  with assms(2,3) show ?thesis by (auto simp del: set_concat)
qed

lemma define_phase:
  assumes keyed: "facts_keyed s" "facts_keyed t" and complete: "complete_inventory s" "complete_inventory t"
    and stable: "stable_transition s t" and free: "function_free_change s t"
    and graph: "graph_from_facts (facts_list t) = Inr tg"
    and adds: "is_scc_order (graph_neighbors tg (added_ids s t)) (fset (added_ids s t)) adds"
  defines "ops \<equiv> map (\<lambda>c. Define (map (\<lambda>i. the (fmlookup t i)) c)) adds"
  shows "fact_steps ops s (fold apply_operation ops s)"
proof (rule fact_steps_prefixes)
  fix k assume k: "k < length ops"
  let ?F = "\<lambda>k. fold apply_operation (take k ops) s"
  have new: "set (concat adds) = fset (added_ids s t)" "distinct (concat adds)" using adds by (auto simp: is_scc_order_def)
  have sub: "set (concat (take k adds)) \<subseteq> fset (fmdom t)" for k
    using new(1) by (auto simp: added_ids_def dest: in_set_takeD)
  have F: "fmlookup (?F k) j = (if j \<in> set (concat (take k adds)) then fmlookup t j else fmlookup s j)" for k j
    unfolding ops_def take_map by (rule apply_defines_lookup [OF keyed(2) sub])
  have "adds ! k \<in> set adds" using k by (simp add: ops_def)
  then have block: "set (adds ! k) \<subseteq> fset (added_ids s t)" unfolding new(1) [symmetric] by auto
  have ids: "map fact_id (map (\<lambda>i. the (fmlookup t i)) (adds ! k)) = adds ! k"
    by (rule keyed_map_the [OF keyed(2)]) (use block in \<open>auto simp: added_ids_def\<close>)
  have "complete_inventory (?F (Suc k))"
    by (rule grounded_complete [OF keyed stable], rule grounded_defines [OF keyed complete graph adds], rule F)
  moreover have "?F (Suc k) = fold insert_fact (map (\<lambda>i. the (fmlookup t i)) (adds ! k)) (?F k)"
    using k by (simp add: ops_def take_Suc_conv_app_nth)
  moreover have "fact_id f |\<notin>| fmdom (?F k)" if "f \<in> set (map (\<lambda>i. the (fmlookup t i)) (adds ! k))" for f
  proof -
    have "fact_id f \<in> set (map fact_id (map (\<lambda>i. the (fmlookup t i)) (adds ! k)))"
      unfolding set_map [of fact_id] using that by (rule imageI)
    then have "fact_id f \<in> set (adds ! k)" unfolding ids .
    then show ?thesis
      using k block take_Suc_index [OF _ new(2), of k "fact_id f"] F [of k "fact_id f"]
      by (auto simp: fmlookup_in_dom added_ids_def ops_def)
  qed
  moreover have "\<not> is_function_fact f" if "f \<in> set (map (\<lambda>i. the (fmlookup t i)) (adds ! k))" for f
    using that planned_free(1) [OF free] block by auto
  ultimately show "fact_step (ops ! k) (?F k) (?F (Suc k))"
    using k by (auto simp: ops_def intro!: define_step)
qed

lemma redefine_phase:
  assumes keyed: "facts_keyed s" "facts_keyed t" and complete: "complete_inventory s" "complete_inventory t"
    and stable: "stable_transition s t" and free: "function_free_change s t"
    and changes: "set changes = fset (changed_ids s t)" "distinct changes"
    and F0: "\<And>j. fmlookup F0 j = (if j |\<in>| added_ids s t then fmlookup t j else fmlookup s j)"
  defines "ops \<equiv> map (\<lambda>i. Redefine (the (fmlookup s i)) (the (fmlookup t i))) changes"
  shows "fact_steps ops F0 (fold apply_operation ops F0)"
proof (rule fact_steps_prefixes)
  fix k assume k: "k < length ops"
  let ?F = "\<lambda>k. fold apply_operation (take k ops) F0" and ?i = "changes ! k"
  have sub: "set (take k changes) \<subseteq> fset (fmdom s)" "set (take k changes) \<subseteq> fset (fmdom t)" for k
    using changes(1) by (auto simp: changed_ids_def dest: in_set_takeD)
  have F: "fmlookup (?F k) j = (if j \<in> set (take k changes) then fmlookup t j else fmlookup F0 j)" for k j
    unfolding ops_def take_map by (rule apply_redefines_lookup [OF keyed(1) sub])
  have "?i \<in> set changes" using k by (simp add: ops_def)
  then have i: "?i |\<in>| changed_ids s t" unfolding changes(1) .
  then obtain f g where fg: "fmlookup s ?i = Some f" "fmlookup t ?i = Some g" "fact_id f = ?i" "fact_id g = ?i"
    using keyed by (auto simp: changed_ids_def fmlookup_dom_iff facts_keyed_def)
  have mix: "mixture s t (?F k)" for k by (auto simp: mixture_def F F0)
  have "facts_union s t |\<subseteq>| fmdom (?F k)" for k
    using sub [of k] by (auto simp: facts_union_def fmlookup_in_dom F F0 added_ids_def)
  then have "complete_inventory (?F (Suc k))"
    by (intro grounded_complete [OF keyed stable] grounded_union [OF complete mix])
  moreover have "?F (Suc k) = fmupd (fact_id f) g (?F k)"
    using k fg by (simp add: ops_def take_Suc_conv_app_nth)
  moreover have "fmlookup (?F k) (fact_id f) = Some f"
  proof -
    have "?i \<notin> set (take k changes)"
      using changes(2) k by (simp add: ops_def in_set_conv_nth nth_eq_iff_index_eq)
    with fg show ?thesis by (simp add: F F0 added_ids_def fmlookup_in_dom)
  qed
  moreover have "\<not> is_function_fact f" "\<not> is_function_fact g"
    using planned_free(3) [OF free i] fg same_id_function [of f g] by auto
  ultimately show "fact_step (ops ! k) (?F k) (?F (Suc k))"
    using k fg by (auto simp: ops_def intro!: redefine_step)
qed

lemma undefine_independent:
  assumes keyed: "facts_keyed s" "facts_keyed t" and complete: "complete_inventory s" "complete_inventory t"
    and stable: "stable_transition s t"
    and graph: "graph_from_facts (facts_list s) = Inr sg"
    and removals: "is_scc_order (graph_neighbors sg (removed_ids s t)) (fset (removed_ids s t)) removals"
    and n: "n < length (concat removals)"
    and F: "\<And>j. fmlookup F j = (if j |\<in>| fmdom t then fmlookup t j
        else if j \<in> set (concat (take (Suc n) removals)) then fmlookup s j else None)"
  shows "\<not> depends_on F j (concat removals ! n)"
proof
  let ?xs = "concat removals" and ?x = "concat removals ! n"
  assume "depends_on F j ?x"
  then obtain f d where f: "fmlookup F j = Some f" "dependencies_for (facts_list F) f = Inr d" "?x |\<in>| d"
    by (auto simp: depends_on_def)
  have acyclic: "acyclic (specialization s)" using stable by (simp add: stable_transition_def)
  have singles: "concat (take m removals) = take m ?xs" for m
    by (rule concat_take_singles) (use removal_blocks_single [OF keyed(1) graph acyclic removals] in blast)
  have old: "set ?xs = fset (removed_ids s t)" "distinct ?xs" using removals by (auto simp: is_scc_order_def)
  have "?x \<in> set ?xs" using n by (rule nth_mem)
  then have rem: "?x |\<in>| removed_ids s t" unfolding old(1) .
  have ground: "grounded s t F" by (rule grounded_undefines [OF keyed complete graph removals F])
  then obtain m d' where m: "m \<in> {s, t}" "fmlookup m j = Some f" "dependencies_for (facts_list m) f = Inr d'" "d' |\<subseteq>| fmdom F"
    using f(1) unfolding grounded_def by blast
  have "dependencies_for (facts_list F) f = Inr d'"
    by (rule grounded_dependencies [OF keyed stable grounded_mixture [OF ground] m])
  with f have x: "?x |\<in>| d'" by simp
  have "fmlookup t j = None"
  proof (rule ccontr)
    assume "fmlookup t j \<noteq> None"
    then have "fmlookup t j = Some f" using f(1) F [of j] by (auto simp: fmlookup_in_dom)
    then obtain e where e: "dependencies_for (facts_list t) f = Inr e" "e |\<subseteq>| fmdom t"
      using complete(2) unfolding complete_inventory_def by blast
    have "fmdom t |\<subseteq>| fmdom F" by (auto simp: fmlookup_in_dom F)
    then have "dependencies_for (facts_list F) f = Inr e"
      using e \<open>fmlookup t j = Some f\<close>
      by (intro grounded_dependencies [OF keyed stable grounded_mixture [OF ground], of t j]) auto
    with f e(2) rem show False by (auto simp: removed_ids_def)
  qed
  with m have s: "fmlookup s j = Some f" "dependencies_for (facts_list s) f = Inr d'" by auto
  have "j \<in> set (take (Suc n) ?xs)"
    using f(1) \<open>fmlookup t j = None\<close> unfolding F singles by (auto split: if_splits)
  then obtain a where a: "a \<le> n" "j = ?xs ! a" "a < length ?xs"
    by (auto simp: in_set_conv_nth less_Suc_eq_le simp del: length_concat)
  have "j \<in> set (take (Suc a) ?xs)"
    using a(2,3) by (auto simp: in_set_conv_nth simp del: length_concat intro!: exI [of _ a])
  moreover have "fmlookup (graph_dependencies sg) j = Some d'"
    using graph_dependencies_lookup(1) [OF keyed(1) graph] s by blast
  ultimately have "?x \<in> set (take (Suc a) ?xs)"
    using closed_prefix [OF removals _ _ x rem, of j "Suc a"] unfolding singles by blast
  then obtain b where b: "b \<le> a" "?x = ?xs ! b" "b < length ?xs"
    by (auto simp: in_set_conv_nth less_Suc_eq_le simp del: length_concat)
  then have "b = n" using n old(2) by (simp add: nth_eq_iff_index_eq del: length_concat)
  with a b have "j = ?x" by simp
  then have "depends_on s ?x ?x" using s x unfolding depends_on_def by blast
  then show False using depends_on_acyclic [OF keyed(1) acyclic] by (auto simp: acyclic_def)
qed

lemma undefine_phase:
  assumes keyed: "facts_keyed s" "facts_keyed t" and complete: "complete_inventory s" "complete_inventory t"
    and stable: "stable_transition s t" and free: "function_free_change s t"
    and graph: "graph_from_facts (facts_list s) = Inr sg"
    and removals: "is_scc_order (graph_neighbors sg (removed_ids s t)) (fset (removed_ids s t)) removals"
    and F0: "\<And>j. fmlookup F0 j = (if j |\<in>| fmdom t then fmlookup t j else fmlookup s j)"
  defines "ops \<equiv> map (\<lambda>i. Undefine (the (fmlookup s i))) (rev (concat removals))"
  shows "fact_steps ops F0 (fold apply_operation ops F0)"
proof (rule fact_steps_prefixes)
  fix k assume k: "k < length ops"
  let ?F = "\<lambda>k. fold apply_operation (take k ops) F0" and ?xs = "concat removals"
  define n where "n = length ?xs - Suc k"
  have acyclic: "acyclic (specialization s)" using stable by (simp add: stable_transition_def)
  have singles: "concat (take m removals) = take m ?xs" for m
    by (rule concat_take_singles) (use removal_blocks_single [OF keyed(1) graph acyclic removals] in blast)
  have old: "set ?xs = fset (removed_ids s t)" "distinct ?xs" using removals by (auto simp: is_scc_order_def)
  have n: "n < length ?xs" "length ?xs - k = Suc n" using k by (auto simp: n_def ops_def)
  have x: "rev ?xs ! k = ?xs ! n" using k by (simp add: n_def ops_def rev_nth del: length_concat)
  have "set (take k (rev ?xs)) \<subseteq> fset (fmdom s)" for k
    using set_take_subset [of k "rev ?xs"] old(1) by (auto simp: removed_ids_def simp del: set_concat)
  then have F: "fmlookup (?F k) j = (if j \<in> set (take k (rev ?xs)) then None else fmlookup F0 j)" for k j
    unfolding ops_def take_map by (rule apply_undefines_lookup [OF keyed(1)])
  have left: "set ?xs = set (take (length ?xs - k) ?xs) \<union> set (take k (rev ?xs))"
    "set (take (length ?xs - k) ?xs) \<inter> set (take k (rev ?xs)) = {}" for k
    using set_append [of "take (length ?xs - k) ?xs" "drop (length ?xs - k) ?xs"] old(2)
      set_take_disj_set_drop_if_distinct [of ?xs "length ?xs - k" "length ?xs - k"]
    by (simp_all add: take_rev del: set_concat length_concat)
  have Fk: "fmlookup (?F k) j = (if j |\<in>| fmdom t then fmlookup t j
        else if j \<in> set (concat (take (length ?xs - k) removals)) then fmlookup s j else None)" for j
  proof -
    have "j |\<notin>| fmdom t" if "j \<in> set ?xs" using that unfolding old(1) by (simp add: removed_ids_def)
    moreover have "fmlookup s j = None" if "j \<notin> set ?xs" "j |\<notin>| fmdom t"
      using that unfolding old(1) by (simp add: removed_ids_def fmlookup_in_dom)
    ultimately show ?thesis using left [of k] unfolding F F0 singles by (cases "j \<in> set ?xs") auto
  qed
  have ground: "grounded s t (?F k)" by (rule grounded_undefines [OF keyed complete graph removals Fk])
  let ?x = "?xs ! n"
  have "?x \<in> set ?xs" using n(1) by (rule nth_mem)
  then have rem: "?x |\<in>| removed_ids s t" unfolding old(1) .
  then obtain f where f: "fmlookup s ?x = Some f" "fact_id f = ?x"
    using keyed(1) by (auto simp: removed_ids_def fmlookup_dom_iff facts_keyed_def)
  show "fact_step (ops ! k) (?F k) (?F (Suc k))"
  proof -
    have op: "ops ! k = Undefine f" using k x f by (simp add: ops_def del: length_concat)
    moreover have "?F (Suc k) = fmdrop (fact_id f) (?F k)"
      using k op by (simp add: take_Suc_conv_app_nth)
    moreover have "fmlookup (?F k) ?x = Some f"
    proof -
      have "?x \<in> set (take (length ?xs - k) ?xs)" unfolding n(2) using n(1) by (auto simp: in_set_conv_nth simp del: length_concat intro!: exI [of _ n])
      with rem f show ?thesis unfolding Fk singles by (simp add: removed_ids_def)
    qed
    moreover have "resolvable (?F k)"
      using grounded_complete [OF keyed stable ground] unfolding complete_inventory_def resolvable_def by blast
    moreover have "\<not> depends_on (?F k) j ?x" for j
      by (rule undefine_independent [OF keyed complete stable graph removals n(1)]) (rule Fk [unfolded n(2)])
    moreover have "\<not> is_function_fact f" using planned_free(2) [OF free rem] f by simp
    ultimately show ?thesis using f(2) by (auto intro!: undefine_step)
  qed
qed

section \<open>Replaying a plan\<close>

lemma plan_steps:
  assumes keyed: "facts_keyed s" "facts_keyed t" and complete: "complete_inventory s" "complete_inventory t"
    and stable: "stable_transition s t" and free: "function_free_change s t" and plan: "is_plan s t ops"
  shows "fact_steps ops s t"
proof -
  obtain sg tg adds changes removals where p:
    "graph_from_facts (facts_list s) = Inr sg" "graph_from_facts (facts_list t) = Inr tg"
    "is_scc_order (graph_neighbors tg (added_ids s t)) (fset (added_ids s t)) adds"
    "set (concat changes) = fset (changed_ids s t)" "distinct (concat changes)"
    "is_scc_order (graph_neighbors sg (removed_ids s t)) (fset (removed_ids s t)) removals"
    "ops = planned_operations s t adds (concat changes) (rev (concat removals))"
    using plan by (rule plan_parts)
  define ops1 where "ops1 = map (\<lambda>c. Define (map (\<lambda>i. the (fmlookup t i)) c)) adds"
  define ops2 where "ops2 = map (\<lambda>i. Redefine (the (fmlookup s i)) (the (fmlookup t i))) (concat changes)"
  define ops3 where "ops3 = map (\<lambda>i. Undefine (the (fmlookup s i))) (rev (concat removals))"
  define F1 where "F1 = fold apply_operation ops1 s"
  define F2 where "F2 = fold apply_operation ops2 F1"
  have new: "set (concat adds) = fset (added_ids s t)" using p(3) by (simp add: is_scc_order_def)
  have F1: "fmlookup F1 j = (if j |\<in>| added_ids s t then fmlookup t j else fmlookup s j)" for j
    unfolding F1_def ops1_def by (subst apply_defines_lookup [OF keyed(2)]) (simp_all only: new, auto simp: added_ids_def)
  have "set (concat changes) \<subseteq> fset (fmdom s)" "set (concat changes) \<subseteq> fset (fmdom t)"
    unfolding p(4) by (auto simp: changed_ids_def)
  then have "fmlookup F2 j = (if j |\<in>| changed_ids s t then fmlookup t j else fmlookup F1 j)" for j
    unfolding F2_def ops2_def by (subst apply_redefines_lookup [OF keyed(1)]) (simp_all only: p(4))
  then have F2: "fmlookup F2 j = (if j |\<in>| fmdom t then fmlookup t j else fmlookup s j)" for j
    by (auto simp: F1 changed_ids_def added_ids_def fmlookup_in_dom)
  have "fact_steps ops1 s F1"
    unfolding F1_def ops1_def by (rule define_phase [OF keyed complete stable free p(2,3)])
  moreover have "fact_steps ops2 F1 F2"
    unfolding F2_def ops2_def by (rule redefine_phase [OF keyed complete stable free p(4,5) F1])
  moreover have "fact_steps ops3 F2 (fold apply_operation ops3 F2)"
    unfolding ops3_def by (rule undefine_phase [OF keyed complete stable free p(1,6) F2])
  moreover have "ops = ops1 @ ops2 @ ops3"
    by (simp add: p(7) planned_operations_def ops1_def ops2_def ops3_def)
  ultimately have "fact_steps ops s (fold apply_operation ops3 F2)" by (auto intro: fact_steps_append)
  then show ?thesis using fact_steps_apply plan_effect [OF keyed plan] by metis
qed

text \<open>
  C1. Replaying the planned operations on their source never ends anywhere but in the target: any
  accepted replay yields exactly the target facts, each with a source span, and when no type changes
  its parent, no label used by a function changes its declaration and no role specialisation is
  circular, the replay is accepted.
\<close>

theorem replay_plan_reaches_target:
  assumes "declared_wf source" "declared_wf target"
    and "plan_schema_operations source target = Some (Inr ops)"
    and "length ops \<le> MAX_CANONICAL_COLLECTION_LEN"
  shows "(\<forall>facts spans. replay source ops = Inr (facts, spans) \<longrightarrow> facts = schema_facts target \<and> fmdom spans = fmdom facts)
    \<and> (stable_transition (schema_facts source) (schema_facts target) \<longrightarrow>
         (\<exists>spans. replay source ops = Inr (schema_facts target, spans)))"
proof -
  let ?s = "schema_facts source" and ?t = "schema_facts target"
  have keyed: "facts_keyed ?s" "facts_keyed ?t" using assms(1,2) by (simp_all add: declared_wf_def)
  have plan: "complete_inventory ?s" "complete_inventory ?t" "function_free_change ?s ?t" "is_plan ?s ?t ops"
    using plan_rejected [OF keyed] plan_accepted [OF keyed] assms(3) by fastforce+
  note wf = plan_admissible(1) [OF keyed plan(4)]
  note iff = replay_iff [OF assms(1) wf assms(4)]
  have "facts = ?t \<and> fmdom spans = fmdom facts" if "replay source ops = Inr (facts, spans)" for facts spans
    using iff that fact_steps_apply plan_effect [OF keyed plan(4)] by metis
  moreover have "\<exists>spans. replay source ops = Inr (?t, spans)" if "stable_transition ?s ?t"
    using iff(1) plan_steps [OF keyed plan(1,2) that plan(3,4)] plan(2) by blast
  ultimately show ?thesis by blast
qed

definition example_target :: "schema_fact list" where
  "example_target =
     [FactType (TypeId Entity ''person''), FactType (TypeId Attribute ''name''),
      FactValue \<lparr>value_fact_id_of = ValueFactId (AttributeId ''name''), value_fact_type = TagString\<rparr>,
      FactOwns \<lparr>owns_fact_id_of = OwnsFactId (TypeId Entity ''person'') (AttributeId ''name''),
                owns_collection_mode = Unordered\<rparr>]"

theorem replay_plan_reaches_target_witness:
  "\<exists>ops spans. plan_schema_operations (example_schema (take 1 example_target)) (example_schema example_target) = Some (Inr ops)
     \<and> length ops = 3
     \<and> replay (example_schema (take 1 example_target)) ops = Inr (schema_facts (example_schema example_target), spans)"
proof -
  let ?s = "example_schema (take 1 example_target)" and ?t = "example_schema example_target"
  let ?ops = "map (\<lambda>f. Define [f]) (drop 1 example_target)"
  have plan: "plan_schema_operations ?s ?t = Some (Inr ?ops)" by code_simp
  have wf: "declared_wf (example_schema fs)" for fs
    using example_keyed [of fs]
    by (simp add: declared_wf_def example_schema_def fold_insert_fact_dom fold_insert_span_dom comp_def)
  have look: "fmlookup (schema_facts ?s) i = (if i = IdType (TypeId Entity ''person'') then Some (example_target ! 0) else None)" for i
    by (simp add: example_schema_def example_target_def insert_fact_def)
  have ids: "facts_union (schema_facts ?s) (schema_facts ?t) = fset_of_list (map fact_id example_target)"
    by (auto simp: facts_union_def example_schema_def fold_insert_fact_dom example_target_def insert_fact_def)
  have "specialization (schema_facts ?s) = {}" unfolding specialization_def look by simp
  moreover have "fmlookup (schema_facts ?t) i \<noteq> Some (FactFunction f)" for i f
    by (simp add: example_schema_def example_target_def insert_fact_def)
  moreover have "fmlookup (schema_facts ?s) i \<noteq> Some (FactFunction f)" for i f
    unfolding look by (simp add: example_target_def)
  ultimately have "stable_transition (schema_facts ?s) (schema_facts ?t)"
    unfolding stable_transition_def ids
    by (auto simp: single_parents_def stable_labels_def acyclic_def fset_of_list_elem example_target_def)
  moreover have "length ?ops \<le> MAX_CANONICAL_COLLECTION_LEN" by (simp add: example_target_def MAX_CANONICAL_COLLECTION_LEN_def)
  ultimately have "\<exists>spans. replay ?s ?ops = Inr (schema_facts ?t, spans)"
    using replay_plan_reaches_target [OF wf wf plan] by blast
  moreover have "length ?ops = 3" by (simp add: example_target_def)
  ultimately show ?thesis using plan by blast
qed

section \<open>Transitions the replay rejects\<close>

definition reparent_facts :: "label \<Rightarrow> schema_fact list" where
  "reparent_facts parent =
     (let rel = TypeId Relation; role = (\<lambda>l r s. FactRelates \<lparr>relates_fact_id_of = RelatesFactId (TypeId Relation l) (RoleId l r),
            relates_specializes = s, relates_collection_mode = Unordered\<rparr>) in
      [FactType (rel ''r''), FactType (rel ''a''), FactType (rel ''b''), FactType (rel ''c''),
       FactSub (SubFactId (rel ''a'') (rel ''r'')), FactSub (SubFactId (rel ''b'') (rel ''r'')),
       FactSub (SubFactId (rel ''c'') (rel parent)),
       role ''r'' ''y'' None, role ''c'' ''x'' (Some (RoleId ''r'' ''y''))])"


definition inherited_value_facts :: "schema_fact list" where
  "inherited_value_facts =
     [FactType (TypeId Entity ''person''), FactType (TypeId Attribute ''name''), FactType (TypeId Attribute ''nickname''),
      FactValue \<lparr>value_fact_id_of = ValueFactId (AttributeId ''name''), value_fact_type = TagString\<rparr>,
      FactSub (SubFactId (TypeId Attribute ''nickname'') (TypeId Attribute ''name'')),
      FactOwns \<lparr>owns_fact_id_of = OwnsFactId (TypeId Entity ''person'') (AttributeId ''nickname''),
                owns_collection_mode = Unordered\<rparr>]"


end
