(* ===== verification/Fingerprints.thy ===== *)
theory Fingerprints
  imports Rust_Strings Schema_Ids "HOL-Library.Word"
begin

text \<open>
  Domain-separated fingerprints (\<open>contract/src/fingerprint.rs\<close>): the validated identifiers, the
  hexadecimal form of a digest and the byte string that is hashed. SHA-256 itself is the parameter
  \<open>sha256\<close>; what is shown is that two fingerprints can only agree on their digest when they
  agree on domain, canonicalization, semantic profile and payload, or the hash collides. The
  closed tables of semantic and lowering profiles (\<open>contract/src/semantic_profile.rs\<close>,
  \<open>contract/src/schema_lowering.rs\<close>) are in \<open>Semantic_Profiles\<close>.
\<close>

unbundle bit_operations_syntax

section \<open>Identifiers\<close>

definition MAX_FINGERPRINT_IDENTIFIER_BYTES :: nat where
  "MAX_FINGERPRINT_IDENTIFIER_BYTES = 255"

fun rsplit_once :: "string \<Rightarrow> string \<Rightarrow> (string \<times> string) option" where
  "rsplit_once pattern [] = (if pattern = [] then Some ([], []) else None)"
| "rsplit_once pattern (c # s) =
     (case rsplit_once pattern s of
        Some (a, b) \<Rightarrow> Some (c # a, b)
      | None \<Rightarrow> map_option (Pair []) (strip_prefix pattern (c # s)))"

definition is_name_byte :: "char \<Rightarrow> bool" where
  "is_name_byte b \<longleftrightarrow> is_ascii_lowercase b \<or> is_ascii_digit b \<or> b \<in> set ''./_-''"

definition validate_name :: "string \<Rightarrow> bool \<Rightarrow> string res" where
  "validate_name value require_version =
     (if value \<noteq> [] \<and> length value \<le> MAX_FINGERPRINT_IDENTIFIER_BYTES \<and> list_all is_name_byte value
         \<and> hd value \<notin> set ''./_-'' \<and> last value \<notin> set ''./_-''
         \<and> (\<not> require_version
             \<or> (case rsplit_once ''/v'' value of
                  None \<Rightarrow> False
                | Some (_, version) \<Rightarrow> version \<noteq> [] \<and> list_all is_ascii_digit version))
      then Inr value else Inl (Diagnostic Integrity ''invalid_fingerprint_identifier''))"

definition canonicalization_version_new :: "string \<Rightarrow> string res" where
  "canonicalization_version_new value = validate_name value True"

definition fingerprint_domain_new :: "string \<Rightarrow> string res" where
  "fingerprint_domain_new value = validate_name value False"

definition semantic_profile_id_new :: "string \<Rightarrow> string res" where
  "semantic_profile_id_new value = validate_name value True"

definition ensure_canonicalization_version :: "string \<Rightarrow> string \<Rightarrow> unit res" where
  "ensure_canonicalization_version actual supported =
     (if actual = supported then Inr () else Inl (invalid_contract ''unsupported_canonicalization_version''))"

section \<open>Digests\<close>

type_synonym bytes = "8 word list"

definition is_lower_hex :: "char \<Rightarrow> bool" where
  "is_lower_hex c \<longleftrightarrow> is_ascii_digit c \<or> (97 \<le> (of_char c :: nat) \<and> (of_char c :: nat) \<le> 102)"

definition hex_value :: "char \<Rightarrow> nat" where
  "hex_value c = (if is_ascii_digit c then of_char c - 48 else of_char c - 87)"

definition hex_digit :: "nat \<Rightarrow> char" where
  "hex_digit n = char_of (if n < 10 then 48 + n else 87 + n)"

fun hex_pairs :: "string \<Rightarrow> bytes" where
  "hex_pairs (a # b # s) = word_of_nat (16 * hex_value a + hex_value b) # hex_pairs s"
| "hex_pairs _ = []"

definition digest_from_hex :: "string \<Rightarrow> bytes res" where
  "digest_from_hex value =
     (if length value \<noteq> 64 \<or> \<not> list_all is_lower_hex value
      then Inl (Diagnostic Integrity ''invalid_fingerprint_digest'')
      else Inr (hex_pairs value))"

definition byte_hex :: "8 word \<Rightarrow> string" where
  "byte_hex b = [hex_digit (unat b div 16), hex_digit (unat b mod 16)]"

definition digest_to_hex :: "bytes \<Rightarrow> string" where
  "digest_to_hex digest = concat (map byte_hex digest)"

section \<open>The hashed byte string\<close>

definition as_bytes :: "string \<Rightarrow> bytes" where
  "as_bytes s = map (\<lambda>c. word_of_nat (of_char c)) s"

definition to_be_bytes :: "64 word \<Rightarrow> bytes" where
  "to_be_bytes w = map (\<lambda>i. ucast (drop_bit (8 * i) w)) (rev [0..<8])"

text \<open>The length saturates at \<open>u64::MAX\<close> where it does not fit.\<close>

definition hash_field :: "bytes \<Rightarrow> bytes" where
  "hash_field value = to_be_bytes (if length value < 2 ^ 64 then word_of_nat (length value) else - 1) @ value"

definition fingerprint_preimage :: "string \<Rightarrow> string \<Rightarrow> string option \<Rightarrow> bytes \<Rightarrow> bytes" where
  "fingerprint_preimage domain canonicalization semantic_profile canonical_bytes =
     as_bytes (''typebridge.fingerprint/v1'' @ [CHR 0x00])
     @ hash_field (as_bytes domain)
     @ hash_field (as_bytes canonicalization)
     @ (case semantic_profile of
          Some profile \<Rightarrow> 1 # hash_field (as_bytes profile)
        | None \<Rightarrow> [0])
     @ hash_field canonical_bytes"

record fingerprint_value =
  fp_domain :: string
  fp_canonicalization :: string
  fp_semantic_profile :: "string option"
  fp_digest :: bytes

definition fingerprint_compute :: "(bytes \<Rightarrow> bytes) \<Rightarrow> string \<Rightarrow> string \<Rightarrow> string option \<Rightarrow> bytes \<Rightarrow> fingerprint_value" where
  "fingerprint_compute sha256 domain canonicalization semantic_profile canonical_bytes =
     \<lparr>fp_domain = domain, fp_canonicalization = canonicalization, fp_semantic_profile = semantic_profile,
      fp_digest = sha256 (fingerprint_preimage domain canonicalization semantic_profile canonical_bytes)\<rparr>"

section \<open>Hexadecimal round trips\<close>

lemma hex_digit_value: "n < 16 \<Longrightarrow> hex_value (hex_digit n) = n \<and> is_lower_hex (hex_digit n)"
  by (auto simp: hex_value_def hex_digit_def is_lower_hex_def is_ascii_digit_def)

lemma hex_value_digit: "is_lower_hex c \<Longrightarrow> hex_value c < 16 \<and> hex_digit (hex_value c) = c"
  by (auto simp: hex_value_def hex_digit_def is_lower_hex_def is_ascii_digit_def)

lemma unat_byte: "n < 256 \<Longrightarrow> unat (word_of_nat n :: 8 word) = n"
  by (simp add: unat_of_nat)

lemma byte_hex_pair:
  assumes "is_lower_hex a" "is_lower_hex b"
  shows "byte_hex (word_of_nat (16 * hex_value a + hex_value b)) = [a, b]"
proof -
  have "16 * hex_value a + hex_value b < 256"
    using hex_value_digit [OF assms(1)] hex_value_digit [OF assms(2)] by linarith
  then have "unat (word_of_nat (16 * hex_value a + hex_value b) :: 8 word) = 16 * hex_value a + hex_value b"
    by (rule unat_byte)
  with hex_value_digit [OF assms(1)] hex_value_digit [OF assms(2)] show ?thesis
    unfolding byte_hex_def by (simp only: div_mult_self1 mod_mult_self1) simp
qed

lemma hex_pairs_to_hex: "list_all is_lower_hex s \<Longrightarrow> even (length s) \<Longrightarrow> digest_to_hex (hex_pairs s) = s"
  by (induction s rule: hex_pairs.induct) (simp_all add: digest_to_hex_def byte_hex_pair [simplified])

lemma length_hex_pairs: "length (hex_pairs s) = length s div 2"
  by (induction s rule: hex_pairs.induct) simp_all

lemma unat_byte_less: "unat (b :: 8 word) < 256"
  using unsigned_less [where 'a = nat and w = b] by simp

lemma to_hex_pairs: "hex_pairs (digest_to_hex d) = d" "list_all is_lower_hex (digest_to_hex d)"
    "length (digest_to_hex d) = 2 * length d"
proof (induction d)
  case (Cons b d)
  have "unat b div 16 < 16" "unat b mod 16 < 16" using unat_byte_less [of b] by simp_all
  note digits = this [THEN hex_digit_value]
  show "hex_pairs (digest_to_hex (b # d)) = b # d" "list_all is_lower_hex (digest_to_hex (b # d))"
    "length (digest_to_hex (b # d)) = 2 * length (b # d)"
    using Cons digits by (simp_all add: digest_to_hex_def byte_hex_def)
qed (simp_all add: digest_to_hex_def)

section \<open>The preimage determines its fields\<close>

lemma as_bytes_inj: "as_bytes s = as_bytes t \<longleftrightarrow> s = t"
proof -
  have "inj (\<lambda>c :: char. word_of_nat (of_char c) :: 8 word)"
  proof (rule injI)
    fix c e :: char
    assume "(word_of_nat (of_char c) :: 8 word) = word_of_nat (of_char e)"
    then have "unat (word_of_nat (of_char c) :: 8 word) = unat (word_of_nat (of_char e) :: 8 word)" by simp
    then show "c = e" by (simp add: unat_of_nat)
  qed
  then show ?thesis unfolding as_bytes_def by (simp add: inj_map_eq_map)
qed

lemma to_be_bytes_inj:
  assumes "to_be_bytes v = to_be_bytes w"
  shows "v = w"
proof (rule bit_word_eqI)
  fix n assume n: "n < LENGTH(64)"
  then have "n div 8 \<in> set (rev [0..<8])" by auto
  then have "(ucast (drop_bit (8 * (n div 8)) v) :: 8 word) = ucast (drop_bit (8 * (n div 8)) w)"
    using assms unfolding to_be_bytes_def by (metis (no_types, lifting) map_eq_conv)
  then have "bit (ucast (drop_bit (8 * (n div 8)) v) :: 8 word) (n mod 8) = bit (ucast (drop_bit (8 * (n div 8)) w) :: 8 word) (n mod 8)"
    by simp
  then show "bit v n = bit w n" by (simp add: bit_ucast_iff bit_drop_bit_eq)
qed

lemma length_to_be_bytes [simp]: "length (to_be_bytes w) = 8"
  by (simp add: to_be_bytes_def)

lemma hash_field_append_inj:
  assumes "hash_field a @ x = hash_field b @ y" "length a < 2 ^ 64" "length b < 2 ^ 64"
  shows "a = b \<and> x = y"
proof -
  let ?n = "\<lambda>a :: bytes. word_of_nat (length a) :: 64 word"
  have "to_be_bytes (?n a) = to_be_bytes (?n b) \<and> a @ x = b @ y"
    using assms by (simp add: hash_field_def)
  then have "?n a = ?n b" and rest: "a @ x = b @ y" using to_be_bytes_inj by blast+
  then have "unat (?n a) = unat (?n b)" by simp
  then have "length a = length b" using assms(2,3) by (simp add: unat_of_nat)
  with rest show ?thesis by simp
qed

lemma validate_name_length: "validate_name value versioned = Inr v \<Longrightarrow> v = value \<and> length (as_bytes value) < 2 ^ 64"
  by (auto simp: validate_name_def as_bytes_def MAX_FINGERPRINT_IDENTIFIER_BYTES_def split: if_splits)

text \<open>
  A digest and its hexadecimal text determine each other: parsing accepts exactly the texts that
  printing produces for 32 bytes, and returns those bytes.
\<close>

lemma digest_hex_exact: "digest_from_hex s = Inr d \<longleftrightarrow> length d = 32 \<and> s = digest_to_hex d"
proof
  assume "digest_from_hex s = Inr d"
  then show "length d = 32 \<and> s = digest_to_hex d"
    by (auto simp: digest_from_hex_def length_hex_pairs hex_pairs_to_hex split: if_splits)
next
  assume "length d = 32 \<and> s = digest_to_hex d"
  then show "digest_from_hex s = Inr d"
    by (simp add: digest_from_hex_def to_hex_pairs)
qed

text \<open>
  C39. Fingerprints are domain separated: the byte string that is hashed determines the domain, the
  canonicalization, the presence and value of the semantic profile, and the payload, for accepted
  identifiers and payloads that fit the address space. Two fingerprints over different metadata or
  payloads therefore hash different byte strings.
\<close>

theorem fingerprint_preimage_injective:
  assumes "fingerprint_domain_new domain = Inr d" "fingerprint_domain_new domain' = Inr d'"
    and "canonicalization_version_new canonicalization = Inr c" "canonicalization_version_new canonicalization' = Inr c'"
    and "pred_option (\<lambda>p. semantic_profile_id_new p = Inr p) profile" "pred_option (\<lambda>p. semantic_profile_id_new p = Inr p) profile'"
    and "length payload < 2 ^ 64" "length payload' < 2 ^ 64"
    and same: "fingerprint_preimage domain canonicalization profile payload = fingerprint_preimage domain' canonicalization' profile' payload'"
  shows "domain = domain' \<and> canonicalization = canonicalization' \<and> profile = profile' \<and> payload = payload'"
proof -
  have small: "length (as_bytes domain) < 2 ^ 64" "length (as_bytes domain') < 2 ^ 64"
    "length (as_bytes canonicalization) < 2 ^ 64" "length (as_bytes canonicalization') < 2 ^ 64"
    using assms(1-4) unfolding fingerprint_domain_new_def canonicalization_version_new_def
    by (blast dest: validate_name_length)+
  let ?tail = "\<lambda>p. case p of Some q \<Rightarrow> 1 # hash_field (as_bytes q) | None \<Rightarrow> [0]"
  from same have "hash_field (as_bytes domain) @ hash_field (as_bytes canonicalization) @ ?tail profile @ hash_field payload
      = hash_field (as_bytes domain') @ hash_field (as_bytes canonicalization') @ ?tail profile' @ hash_field payload'"
    by (simp add: fingerprint_preimage_def)
  note one = hash_field_append_inj [OF this small(1,2)]
  note two = hash_field_append_inj [OF conjunct2 [OF one] small(3,4)]
  have "profile = profile' \<and> payload = payload'"
  proof (cases profile)
    case None
    with two have "profile' = None" by (cases profile') auto
    with None two hash_field_append_inj [of payload "[]" payload' "[]"] assms(7,8) show ?thesis by simp
  next
    case (Some p)
    with two obtain q where q: "profile' = Some q" by (cases profile') auto
    have lengths: "length (as_bytes p) < 2 ^ 64" "length (as_bytes q) < 2 ^ 64"
      using assms(5,6) Some q unfolding semantic_profile_id_new_def by (auto dest: validate_name_length)
    have "hash_field (as_bytes p) @ hash_field payload = hash_field (as_bytes q) @ hash_field payload'"
      using two Some q by simp
    from hash_field_append_inj [OF this lengths] hash_field_append_inj [of payload "[]" payload' "[]"] assms(7,8) Some q
    show ?thesis by (simp add: as_bytes_inj)
  qed
  with one two show ?thesis by (simp add: as_bytes_inj)
qed

theorem fingerprint_preimage_injective_witness:
  "fingerprint_preimage ''typebridge.migration.id'' ''typebridge.migration-id/v1'' None [7]
     \<noteq> fingerprint_preimage ''typebridge.migration.plan'' ''typebridge.migration-id/v1'' None [7]"
proof
  assume same: "fingerprint_preimage ''typebridge.migration.id'' ''typebridge.migration-id/v1'' None [7]
     = fingerprint_preimage ''typebridge.migration.plan'' ''typebridge.migration-id/v1'' None [7]"
  have "fingerprint_domain_new ''typebridge.migration.id'' = Inr ''typebridge.migration.id''"
    "fingerprint_domain_new ''typebridge.migration.plan'' = Inr ''typebridge.migration.plan''"
    "canonicalization_version_new ''typebridge.migration-id/v1'' = Inr ''typebridge.migration-id/v1''"
    by (simp_all add: fingerprint_domain_new_def canonicalization_version_new_def validate_name_def strip_prefix_def
        is_name_byte_def is_ascii_lowercase_def is_ascii_digit_def MAX_FINGERPRINT_IDENTIFIER_BYTES_def)
  from fingerprint_preimage_injective [OF this(1,2) this(3) this(3) _ _ _ _ same] show False by simp
qed

end
