(* ===== verification/Semantic_Profiles.thy ===== *)
theory Semantic_Profiles
  imports Fingerprints Canonical_Values
begin

text \<open>
  The closed profile tables: the interface defaults a semantic profile fixes
  (\<open>contract/src/semantic_profile.rs\<close>), the lowering profile bound to each semantic profile
  (\<open>contract/src/schema_lowering.rs\<close>) and the TypeDB lines that own a transition registry, in release
  order (\<open>MigrationProfile\<close> of \<open>schema-migration/src/profile.rs\<close>).
\<close>

section \<open>Semantic profiles\<close>

datatype interface_kind = InterfaceOwns | InterfaceRelates | InterfacePlays

record semantic_profile =
  profile_id :: string
  profile_owns_cardinality :: cardinality
  profile_relates_cardinality :: cardinality
  profile_plays_cardinality :: cardinality
  profile_key_owns_cardinality :: cardinality

text \<open>The three \<open>expect\<close>s on frozen cardinalities are the \<open>None\<close> branch.\<close>

definition semantic_profile_resolve :: "string \<Rightarrow> semantic_profile panicking" where
  "semantic_profile_resolve i =
     (if i \<in> {''typedb-3.11.5/v1'', ''typedb-3.12.1/v1'', ''typedb-3.13.6/v1''}
      then
        (case (cardinality_new 0 (Some 1), cardinality_new 0 None, cardinality_new 1 (Some 1)) of
           (Inr bounded_to_one, Inr unconstrained, Inr exactly_one) \<Rightarrow>
             Some (Inr \<lparr>profile_id = i, profile_owns_cardinality = bounded_to_one,
               profile_relates_cardinality = bounded_to_one, profile_plays_cardinality = unconstrained,
               profile_key_owns_cardinality = exactly_one\<rparr>)
         | _ \<Rightarrow> None)
      else Some (Inl (Diagnostic UnsupportedCapability ''unsupported_semantic_profile'')))"

fun profile_default_cardinality :: "semantic_profile \<Rightarrow> interface_kind \<Rightarrow> cardinality" where
  "profile_default_cardinality p InterfaceOwns = profile_owns_cardinality p"
| "profile_default_cardinality p InterfaceRelates = profile_relates_cardinality p"
| "profile_default_cardinality p InterfacePlays = profile_plays_cardinality p"

definition profile_effective_cardinality ::
  "semantic_profile \<Rightarrow> interface_kind \<Rightarrow> cardinality option \<Rightarrow> bool \<Rightarrow> cardinality" where
  "profile_effective_cardinality p kind explicit key =
     (case (kind, key, explicit) of
        (InterfaceOwns, True, _) \<Rightarrow> profile_key_owns_cardinality p
      | (_, _, Some cardinality) \<Rightarrow> cardinality
      | _ \<Rightarrow> profile_default_cardinality p kind)"

lemma semantic_profile_resolve_eq:
  "semantic_profile_resolve i =
     (if i \<in> {''typedb-3.11.5/v1'', ''typedb-3.12.1/v1'', ''typedb-3.13.6/v1''}
      then Some (Inr \<lparr>profile_id = i, profile_owns_cardinality = \<lparr>card_min = 0, card_max = Some 1\<rparr>,
        profile_relates_cardinality = \<lparr>card_min = 0, card_max = Some 1\<rparr>,
        profile_plays_cardinality = \<lparr>card_min = 0, card_max = None\<rparr>,
        profile_key_owns_cardinality = \<lparr>card_min = 1, card_max = Some 1\<rparr>\<rparr>)
      else Some (Inl (Diagnostic UnsupportedCapability ''unsupported_semantic_profile'')))"
  by (simp add: semantic_profile_resolve_def cardinality_new_def)

section \<open>Lowering profiles\<close>

definition TYPEDB_3_12_1_SCHEMA_LOWERING_PROFILE_ID :: string where
  "TYPEDB_3_12_1_SCHEMA_LOWERING_PROFILE_ID = ''typedb-3.12.1-schema-lowering/v1''"

definition TYPEDB_3_13_6_SCHEMA_LOWERING_PROFILE_ID :: string where
  "TYPEDB_3_13_6_SCHEMA_LOWERING_PROFILE_ID = ''typedb-3.13.6-schema-lowering/v1''"

definition SCHEMA_LOWERING_PROFILES :: "(string \<times> string) list" where
  "SCHEMA_LOWERING_PROFILES =
     [(''typedb-3.11.5/v1'', TYPEDB_3_12_1_SCHEMA_LOWERING_PROFILE_ID),
      (''typedb-3.12.1/v1'', TYPEDB_3_12_1_SCHEMA_LOWERING_PROFILE_ID),
      (''typedb-3.13.6/v1'', TYPEDB_3_13_6_SCHEMA_LOWERING_PROFILE_ID)]"

text \<open>The errors of this constructor carry no code; \<open>None\<close> stands for them.\<close>

definition lowering_profile_id_new :: "string \<Rightarrow> string option" where
  "lowering_profile_id_new value =
     (case semantic_profile_id_new value of
        Inl _ \<Rightarrow> None
      | Inr _ \<Rightarrow>
          if list_ex (\<lambda>(_, lowering). lowering = value) SCHEMA_LOWERING_PROFILES then Some value else None)"

definition lowering_for_semantic_profile :: "string \<Rightarrow> string option" where
  "lowering_for_semantic_profile semantic_profile = map_of SCHEMA_LOWERING_PROFILES semantic_profile"

section \<open>Migration profiles\<close>

datatype migration_profile = Typedb3_12_1 | Typedb3_13_6

fun migration_profile_rank :: "migration_profile \<Rightarrow> nat" where
  "migration_profile_rank Typedb3_12_1 = 0"
| "migration_profile_rank Typedb3_13_6 = 1"

instantiation migration_profile :: linorder
begin

definition less_eq_migration_profile :: "migration_profile \<Rightarrow> migration_profile \<Rightarrow> bool" where
  "less_eq_migration_profile a b \<longleftrightarrow> migration_profile_rank a \<le> migration_profile_rank b"

definition less_migration_profile :: "migration_profile \<Rightarrow> migration_profile \<Rightarrow> bool" where
  "less_migration_profile a b \<longleftrightarrow> migration_profile_rank a < migration_profile_rank b"

instance
proof
  fix a b :: migration_profile
  show "a \<le> b \<Longrightarrow> b \<le> a \<Longrightarrow> a = b" by (cases a; cases b) (simp_all add: less_eq_migration_profile_def)
qed (auto simp: less_eq_migration_profile_def less_migration_profile_def)

end

definition ALL_PROFILES :: "migration_profile list" where
  "ALL_PROFILES = [Typedb3_12_1, Typedb3_13_6]"

text \<open>The identifiers are literals; the \<open>expect\<close> on their grammar is discharged below.\<close>

fun migration_semantic_profile_id :: "migration_profile \<Rightarrow> string" where
  "migration_semantic_profile_id Typedb3_12_1 = ''typedb-3.12.1/v1''"
| "migration_semantic_profile_id Typedb3_13_6 = ''typedb-3.13.6/v1''"

fun provider_version :: "migration_profile \<Rightarrow> string" where
  "provider_version Typedb3_12_1 = ''3.12.1''"
| "provider_version Typedb3_13_6 = ''3.13.6''"

definition migration_lowering_profile_id :: "migration_profile \<Rightarrow> string option" where
  "migration_lowering_profile_id p = lowering_for_semantic_profile (migration_semantic_profile_id p)"

definition profile_for_lowering_profile_id :: "string \<Rightarrow> migration_profile option" where
  "profile_for_lowering_profile_id i = List.find (\<lambda>p. migration_lowering_profile_id p = Some i) ALL_PROFILES"

definition profile_for_semantic_profile :: "string \<Rightarrow> migration_profile option" where
  "profile_for_semantic_profile semantic_profile =
     Option.bind (lowering_for_semantic_profile semantic_profile) profile_for_lowering_profile_id"

lemma migration_profile_ids_canonical:
  "semantic_profile_id_new (migration_semantic_profile_id p) = Inr (migration_semantic_profile_id p)"
  by (cases p) (simp_all add: semantic_profile_id_new_def validate_name_def strip_prefix_def
        is_name_byte_def is_ascii_lowercase_def is_ascii_digit_def MAX_FINGERPRINT_IDENTIFIER_BYTES_def)

text \<open>
  The profile tables are consistent: a semantic profile has a migration registry exactly when it
  resolves, every registry is found again from its own semantic profile and from its own lowering
  profile, and the older line 3.11.5 shares the 3.12.1 registry.
\<close>

lemma profile_tables_consistent:
  "(profile_for_semantic_profile i = None \<longleftrightarrow> semantic_profile_resolve i = Some (Inl (Diagnostic UnsupportedCapability ''unsupported_semantic_profile'')))
   \<and> profile_for_semantic_profile (migration_semantic_profile_id p) = Some p
   \<and> (\<exists>l. migration_lowering_profile_id p = Some l \<and> profile_for_lowering_profile_id l = Some p \<and> lowering_profile_id_new l = Some l)
   \<and> profile_for_semantic_profile ''typedb-3.11.5/v1'' = Some Typedb3_12_1"
proof -
  note tables = profile_for_semantic_profile_def profile_for_lowering_profile_id_def migration_lowering_profile_id_def
    lowering_for_semantic_profile_def SCHEMA_LOWERING_PROFILES_def TYPEDB_3_12_1_SCHEMA_LOWERING_PROFILE_ID_def
    TYPEDB_3_13_6_SCHEMA_LOWERING_PROFILE_ID_def ALL_PROFILES_def
  have "profile_for_semantic_profile i = None \<longleftrightarrow> i \<notin> {''typedb-3.11.5/v1'', ''typedb-3.12.1/v1'', ''typedb-3.13.6/v1''}"
    by (auto simp: tables)
  moreover have "profile_for_semantic_profile (migration_semantic_profile_id p) = Some p"
    by (cases p) (simp_all add: tables)
  moreover have "\<exists>l. migration_lowering_profile_id p = Some l \<and> profile_for_lowering_profile_id l = Some p \<and> lowering_profile_id_new l = Some l"
    by (cases p) (simp_all add: tables lowering_profile_id_new_def semantic_profile_id_new_def validate_name_def strip_prefix_def
        is_name_byte_def is_ascii_lowercase_def is_ascii_digit_def MAX_FINGERPRINT_IDENTIFIER_BYTES_def)
  moreover have "profile_for_semantic_profile ''typedb-3.11.5/v1'' = Some Typedb3_12_1"
    by (simp add: tables)
  ultimately show ?thesis by (simp add: semantic_profile_resolve_eq)
qed

end
