(* ===== verification/Delta_Safety.thy ===== *)
theory Delta_Safety
  imports Delta_Replay Semantic_Profiles
begin

text \<open>
  The provider-neutral safety classification of schema operations (\<open>schema/src/delta_safety.rs\<close>): the
  class of a defined, undefined and redefined fact, of an annotation transition, the comparison of
  cardinality intervals, and the report of a whole delta. An \<open>unreachable!\<close> is \<open>None\<close>.
\<close>

section \<open>Safety classes\<close>

datatype safety_class =
    FormalOnly | SchemaMetadata | Additive | Conditional | BackfillRequired | Destructive | Opaque | Unsupported

fun safety_rank :: "safety_class \<Rightarrow> nat" where
  "safety_rank FormalOnly = 0"
| "safety_rank SchemaMetadata = 1"
| "safety_rank Additive = 2"
| "safety_rank Conditional = 3"
| "safety_rank BackfillRequired = 4"
| "safety_rank Destructive = 5"
| "safety_rank Opaque = 6"
| "safety_rank Unsupported = 7"

lemma safety_rank_inject: "safety_rank a = safety_rank b \<Longrightarrow> a = b"
  by (cases a; cases b) simp_all

instantiation safety_class :: linorder
begin

definition less_eq_safety_class :: "safety_class \<Rightarrow> safety_class \<Rightarrow> bool" where
  "less_eq_safety_class a b \<longleftrightarrow> safety_rank a \<le> safety_rank b"

definition less_safety_class :: "safety_class \<Rightarrow> safety_class \<Rightarrow> bool" where
  "less_safety_class a b \<longleftrightarrow> safety_rank a < safety_rank b"

instance
  by standard (auto simp: less_eq_safety_class_def less_safety_class_def intro: safety_rank_inject)

end

datatype safety_classification_error = UnchangedRelatesSpecialization | RedefinitionCategoryChanged

datatype fact_transition = TransitionDefine | TransitionUndefine | TransitionRedefine

datatype annotation_transition = AnnotationAdd | AnnotationChange | AnnotationRemove

section \<open>Cardinality intervals\<close>

type_synonym interval = "nat \<times> nat option"

definition interval_contains :: "interval \<Rightarrow> interval \<Rightarrow> bool" where
  "interval_contains outer inner \<longleftrightarrow>
     fst outer \<le> fst inner
     \<and> (case (snd outer, snd inner) of
          (None, _) \<Rightarrow> True
        | (Some _, None) \<Rightarrow> False
        | (Some a, Some b) \<Rightarrow> a \<ge> b)"

definition cardinality_transition_safety :: "interval \<Rightarrow> interval \<Rightarrow> safety_class" where
  "cardinality_transition_safety source target =
     (if source = target then FormalOnly
      else if interval_contains target source then Additive
      else if interval_contains source target then BackfillRequired
      else Conditional)"

section \<open>Annotations\<close>

fun default_cardinality :: "annotation_subject_id \<Rightarrow> interval option" where
  "default_cardinality (OnOwns _) = Some (0, Some 1)"
| "default_cardinality (OnRelates _) = Some (0, Some 1)"
| "default_cardinality (OnPlays _) = Some (0, None)"
| "default_cardinality _ = None"

definition annotation_cardinality :: "annotation_fact \<Rightarrow> interval option" where
  "annotation_cardinality a =
     (case annotation_value a of PayloadCardinality c \<Rightarrow> Some (card_min c, card_max c) | _ \<Rightarrow> None)"

fun is_metadata_kind :: "annotation_kind_id \<Rightarrow> bool" where
  "is_metadata_kind Doc = True"
| "is_metadata_kind (Meta _) = True"
| "is_metadata_kind _ = False"

fun annotation_supported :: "annotation_subject_id \<Rightarrow> annotation_kind_id \<Rightarrow> bool" where
  "annotation_supported (OnType _) k \<longleftrightarrow> k = Abstract \<or> k = Independent \<or> is_metadata_kind k"
| "annotation_supported (OnSub _) k \<longleftrightarrow> is_metadata_kind k"
| "annotation_supported (OnValue _) k \<longleftrightarrow> k = Regex \<or> k = Range \<or> k = Values \<or> is_metadata_kind k"
| "annotation_supported (OnOwns _) k \<longleftrightarrow>
     k = Key \<or> k = Unique \<or> k = Distinct \<or> k = Card \<or> k = Regex \<or> k = Range \<or> k = Values \<or> is_metadata_kind k"
| "annotation_supported (OnRelates _) k \<longleftrightarrow> k = Abstract \<or> k = Distinct \<or> k = Card \<or> is_metadata_kind k"
| "annotation_supported (OnPlays _) k \<longleftrightarrow> k = Card \<or> is_metadata_kind k"
| "annotation_supported (OnFunction _) k \<longleftrightarrow> False"

fun annotation_kind_safety :: "annotation_kind_id \<Rightarrow> annotation_transition \<Rightarrow> safety_class option" where
  "annotation_kind_safety Abstract tr =
     Some (case tr of AnnotationAdd \<Rightarrow> Conditional | AnnotationRemove \<Rightarrow> Additive | AnnotationChange \<Rightarrow> Unsupported)"
| "annotation_kind_safety Independent tr =
     Some (case tr of AnnotationAdd \<Rightarrow> Additive | AnnotationRemove \<Rightarrow> Destructive | AnnotationChange \<Rightarrow> Unsupported)"
| "annotation_kind_safety Key tr =
     Some (case tr of AnnotationAdd \<Rightarrow> BackfillRequired | AnnotationRemove \<Rightarrow> Additive | AnnotationChange \<Rightarrow> Unsupported)"
| "annotation_kind_safety Unique tr =
     Some (case tr of AnnotationAdd \<Rightarrow> BackfillRequired | AnnotationRemove \<Rightarrow> Additive | AnnotationChange \<Rightarrow> Unsupported)"
| "annotation_kind_safety Distinct tr = Some Unsupported"
| "annotation_kind_safety Card tr = Some Conditional"
| "annotation_kind_safety Regex tr = Some (case tr of AnnotationRemove \<Rightarrow> Additive | _ \<Rightarrow> Conditional)"
| "annotation_kind_safety Range tr = Some (case tr of AnnotationRemove \<Rightarrow> Additive | _ \<Rightarrow> Conditional)"
| "annotation_kind_safety Values tr = Some (case tr of AnnotationRemove \<Rightarrow> Additive | _ \<Rightarrow> Conditional)"
| "annotation_kind_safety Doc tr = None"
| "annotation_kind_safety (Meta _) tr = None"

definition classify_annotation :: "annotation_fact \<Rightarrow> annotation_transition \<Rightarrow> annotation_fact option \<Rightarrow> safety_class option" where
  "classify_annotation a tr expected =
     (let subject = annotation_subject (annotation_fact_id_of a); kind = annotation_kind (annotation_fact_id_of a) in
      if \<not> annotation_supported subject kind then Some Unsupported
      else if (case subject of OnSub _ \<Rightarrow> True | _ \<Rightarrow> False) \<or> is_metadata_kind kind then Some SchemaMetadata
      else Option.bind (annotation_kind_safety kind tr) (\<lambda>safety.
        case (kind, annotation_cardinality a, default_cardinality subject) of
          (Card, Some target, Some dflt) \<Rightarrow>
            (case tr of
               AnnotationAdd \<Rightarrow> Some (cardinality_transition_safety dflt target)
             | AnnotationChange \<Rightarrow>
                 (case Option.bind expected annotation_cardinality of
                    None \<Rightarrow> Some safety
                  | Some source \<Rightarrow> Some (cardinality_transition_safety source target))
             | AnnotationRemove \<Rightarrow> Some (cardinality_transition_safety target dflt))
        | _ \<Rightarrow> Some safety))"

section \<open>Facts and operations\<close>

fun classify_fact :: "schema_fact \<Rightarrow> fact_transition \<Rightarrow> safety_class option" where
  "classify_fact (FactType _) tr =
     Some (case tr of TransitionDefine \<Rightarrow> Additive | TransitionUndefine \<Rightarrow> Destructive | TransitionRedefine \<Rightarrow> Unsupported)"
| "classify_fact (FactSub _) tr = Some (case tr of TransitionUndefine \<Rightarrow> Destructive | _ \<Rightarrow> Conditional)"
| "classify_fact (FactValue _) tr = Some (case tr of TransitionDefine \<Rightarrow> Additive | _ \<Rightarrow> Destructive)"
| "classify_fact (FactOwns _) tr =
     Some (case tr of TransitionDefine \<Rightarrow> Additive | TransitionUndefine \<Rightarrow> Destructive | TransitionRedefine \<Rightarrow> Unsupported)"
| "classify_fact (FactRelates _) tr =
     Some (case tr of TransitionDefine \<Rightarrow> Additive | TransitionUndefine \<Rightarrow> Destructive | TransitionRedefine \<Rightarrow> Unsupported)"
| "classify_fact (FactPlays _) tr =
     Some (case tr of TransitionDefine \<Rightarrow> Additive | TransitionUndefine \<Rightarrow> Destructive | TransitionRedefine \<Rightarrow> Unsupported)"
| "classify_fact (FactFunction _) tr =
     Some (case tr of TransitionDefine \<Rightarrow> Additive | TransitionUndefine \<Rightarrow> Destructive | TransitionRedefine \<Rightarrow> Opaque)"
| "classify_fact (FactStruct _) tr = Some Unsupported"
| "classify_fact (FactAnnotation _) tr = None"

fun classify_defined_fact :: "schema_fact \<Rightarrow> function_id list \<Rightarrow> safety_class option" where
  "classify_defined_fact (FactRelates r) functions =
     (if relates_specializes r \<noteq> None then Some Conditional else classify_fact (FactRelates r) TransitionDefine)"
| "classify_defined_fact (FactAnnotation a) functions =
     (case annotation_subject (annotation_fact_id_of a) of
        OnFunction f \<Rightarrow>
          if f \<in> set functions \<and> is_metadata_kind (annotation_kind (annotation_fact_id_of a)) then Some SchemaMetadata
          else classify_annotation a AnnotationAdd None
      | _ \<Rightarrow> classify_annotation a AnnotationAdd None)"
| "classify_defined_fact f functions = classify_fact f TransitionDefine"

fun classify_undefined_fact :: "schema_fact \<Rightarrow> safety_class option" where
  "classify_undefined_fact (FactAnnotation a) = classify_annotation a AnnotationRemove None"
| "classify_undefined_fact (FactRelates r) =
     (if relates_specializes r \<noteq> None then Some Conditional else classify_fact (FactRelates r) TransitionUndefine)"
| "classify_undefined_fact f = classify_fact f TransitionUndefine"

fun fact_discriminant :: "schema_fact \<Rightarrow> nat" where
  "fact_discriminant (FactType _) = 0"
| "fact_discriminant (FactSub _) = 1"
| "fact_discriminant (FactValue _) = 2"
| "fact_discriminant (FactOwns _) = 3"
| "fact_discriminant (FactRelates _) = 4"
| "fact_discriminant (FactPlays _) = 5"
| "fact_discriminant (FactAnnotation _) = 6"
| "fact_discriminant (FactFunction _) = 7"
| "fact_discriminant (FactStruct _) = 8"

definition classify_redefinition :: "schema_fact \<Rightarrow> schema_fact \<Rightarrow> (safety_classification_error + safety_class) option" where
  "classify_redefinition expected replacement =
     (case (expected, replacement) of
        (FactRelates old, FactRelates new) \<Rightarrow>
          Some (if relates_collection_mode old \<noteq> relates_collection_mode new then Inr Unsupported
                else if relates_specializes old \<noteq> relates_specializes new then Inr Conditional
                else Inl UnchangedRelatesSpecialization)
      | (FactAnnotation old, FactAnnotation new) \<Rightarrow> map_option Inr (classify_annotation new AnnotationChange (Some old))
      | (left, right) \<Rightarrow>
          if fact_discriminant left = fact_discriminant right then map_option Inr (classify_fact right TransitionRedefine)
          else Some (Inl RedefinitionCategoryChanged))"

definition defined_functions :: "schema_fact list \<Rightarrow> function_id list" where
  "defined_functions facts =
     List.map_filter (\<lambda>f. case f of FactFunction g \<Rightarrow> Some (function_fact_id_of g) | _ \<Rightarrow> None) facts"

fun classify_defined :: "schema_fact list \<Rightarrow> function_id list \<Rightarrow> safety_class \<Rightarrow> safety_class option" where
  "classify_defined [] functions safety = Some safety"
| "classify_defined (f # fs) functions safety =
     Option.bind (classify_defined_fact f functions) (\<lambda>c. classify_defined fs functions (max safety c))"

fun classify_operation_safety :: "schema_operation \<Rightarrow> (safety_classification_error + safety_class) option" where
  "classify_operation_safety (Define facts) =
     map_option Inr (classify_defined facts (defined_functions facts) FormalOnly)"
| "classify_operation_safety (Redefine expected replacement) = classify_redefinition expected replacement"
| "classify_operation_safety (Undefine f) = map_option Inr (classify_undefined_fact f)"

definition classify_schema_operation_safety :: "schema_operation \<Rightarrow> safety_class option" where
  "classify_schema_operation_safety op =
     map_option (\<lambda>r. case r of Inl _ \<Rightarrow> Unsupported | Inr c \<Rightarrow> c) (classify_operation_safety op)"

record delta_safety_reason =
  reason_operation_index :: nat
  reason_fact_id :: schema_fact_id
  reason_classification :: safety_class

record delta_safety_report =
  report_classification :: safety_class
  report_reasons :: "delta_safety_reason list"

fun operation_reasons :: "nat \<times> schema_operation \<Rightarrow> delta_safety_reason list option" where
  "operation_reasons (k, op) =
     map_option (\<lambda>c. map (\<lambda>i. \<lparr>reason_operation_index = k, reason_fact_id = i, reason_classification = c\<rparr>) (affected_ids op))
       (classify_schema_operation_safety op)"

definition classify_delta_safety :: "schema_delta \<Rightarrow> delta_safety_report option" where
  "classify_delta_safety d =
     map_option (\<lambda>groups.
        let reasons = concat groups in
        \<lparr>report_classification = (if reasons = [] then FormalOnly else Max (set (map reason_classification reasons))),
         report_reasons = reasons\<rparr>)
       (those (map operation_reasons (List.enumerate 0 (delta_operations d))))"

section \<open>Classification is total\<close>

lemma classify_annotation_total: "\<exists>c. classify_annotation a tr expected = Some c"
proof (cases "annotation_kind (annotation_fact_id_of a)")
  case Card
  then show ?thesis
    by (cases tr) (simp_all add: classify_annotation_def Let_def split: option.splits annotation_subject_id.splits)
qed (simp_all add: classify_annotation_def Let_def)

lemma classify_fact_total: "(\<nexists>a. f = FactAnnotation a) \<Longrightarrow> \<exists>c. classify_fact f tr = Some c"
  by (cases f) simp_all

lemma classify_defined_fact_total: "\<exists>c. classify_defined_fact f functions = Some c"
  by (cases f) (simp_all add: classify_annotation_total split: annotation_subject_id.splits)

lemma classify_undefined_fact_total: "\<exists>c. classify_undefined_fact f = Some c"
  by (cases f) (simp_all add: classify_annotation_total)

lemma classify_redefinition_total: "\<exists>r. classify_redefinition expected replacement = Some r"
proof (cases replacement)
  case (FactAnnotation a)
  with classify_annotation_total show ?thesis
    by (cases expected) (auto simp: classify_redefinition_def)
qed (cases expected; simp add: classify_redefinition_def)+

lemma Max_insert_max: "finite A \<Longrightarrow> Max (insert (max a b) A) = Max (insert a (insert b A))" for a :: "'a :: linorder"
  by (cases "A = {}") (simp_all add: max.assoc)

lemma classify_defined_max:
  "classify_defined fs functions safety =
     Some (Max (insert safety (set (map (\<lambda>f. the (classify_defined_fact f functions)) fs))))"
proof (induction fs arbitrary: safety)
  case (Cons f fs)
  obtain c where c: "classify_defined_fact f functions = Some c"
    using classify_defined_fact_total by blast
  then show ?case by (simp add: Cons Max_insert_max)
qed simp

lemma classify_operation_safety_total: "\<exists>r. classify_operation_safety op = Some r"
  by (cases op) (simp_all add: classify_defined_max classify_redefinition_total classify_undefined_fact_total)

lemma classify_operation_safety_wf:
  assumes "operation_wf op"
  shows "\<exists>c. classify_operation_safety op = Some (Inr c)"
proof (cases op)
  case (Redefine old new)
  with assms have wf: "fact_id old = fact_id new" "old \<noteq> new" by (simp_all add: operation_wf_def)
  show ?thesis
  proof (cases old)
    case (FactRelates r)
    with wf obtain r' where "new = FactRelates r'" "relates_fact_id_of r = relates_fact_id_of r'" "r \<noteq> r'"
      by (cases new) auto
    with FactRelates Redefine show ?thesis by (auto simp: classify_redefinition_def)
  next
    case (FactAnnotation a)
    with wf obtain a' where "new = FactAnnotation a'" by (cases new) auto
    with FactAnnotation Redefine classify_annotation_total show ?thesis by (simp add: classify_redefinition_def)
  qed (use wf Redefine in \<open>cases new; simp add: classify_redefinition_def\<close>)+
next
  case (Define fs)
  then show ?thesis by (simp add: classify_defined_max)
qed (use classify_undefined_fact_total in simp)

definition operation_class :: "schema_operation \<Rightarrow> safety_class" where
  "operation_class op = the (classify_schema_operation_safety op)"

lemma classify_schema_operation_safety_Some: "classify_schema_operation_safety op = Some (operation_class op)"
  using classify_operation_safety_total [of op] by (auto simp: operation_class_def classify_schema_operation_safety_def)

lemma operation_class_define:
  "operation_class (Define fs)
     = Max (insert FormalOnly (set (map (\<lambda>f. the (classify_defined_fact f (defined_functions fs))) fs)))"
  by (simp add: operation_class_def classify_schema_operation_safety_def classify_defined_max)

lemma operation_class_undefine: "operation_class (Undefine f) = the (classify_undefined_fact f)"
  using classify_undefined_fact_total [of f] by (auto simp: operation_class_def classify_schema_operation_safety_def)

lemma operation_class_redefine:
  "classify_redefinition old new = Some (Inr c) \<Longrightarrow> operation_class (Redefine old new) = c"
  by (simp add: operation_class_def classify_schema_operation_safety_def)

section \<open>The report of a delta\<close>

definition reasons_of :: "nat \<times> schema_operation \<Rightarrow> delta_safety_reason list" where
  "reasons_of = (\<lambda>(k, op).
     map (\<lambda>i. \<lparr>reason_operation_index = k, reason_fact_id = i, reason_classification = operation_class op\<rparr>) (affected_ids op))"

lemma those_operation_reasons: "those (map operation_reasons xs) = Some (map reasons_of xs)"
  by (induction xs) (auto simp: classify_schema_operation_safety_Some reasons_of_def)

lemma operation_wf_affected: "operation_wf op \<Longrightarrow> affected_ids op \<noteq> []"
  by (cases op) (auto simp: operation_wf_def)

lemma reason_classes:
  "list_all operation_wf ops \<Longrightarrow>
   set (map reason_classification (concat (map reasons_of (List.enumerate n ops)))) = set (map operation_class ops)"
proof (induction ops arbitrary: n)
  case (Cons op ops)
  then have "set (map reason_classification (reasons_of (n, op))) = {operation_class op}"
    using operation_wf_affected [of op] by (auto simp: reasons_of_def image_iff) (metis list.set_intros(1) neq_Nil_conv)
  with Cons show ?case by (simp add: image_Un)
qed simp

lemma classify_delta_safety_eq:
  assumes "list_all operation_wf (delta_operations d)"
  shows "classify_delta_safety d =
     Some \<lparr>report_classification = Max (insert FormalOnly (set (map operation_class (delta_operations d)))),
           report_reasons = concat (map reasons_of (List.enumerate 0 (delta_operations d)))\<rparr>"
proof -
  let ?rs = "concat (map reasons_of (List.enumerate 0 (delta_operations d)))"
  note rc = reason_classes [OF assms, of 0]
  have formal: "max FormalOnly c = c" for c :: safety_class
    by (cases c) (simp_all add: max_def less_eq_safety_class_def)
  have "(if rs = [] then FormalOnly else Max (set (map reason_classification rs)))
      = Max (insert FormalOnly (set (map reason_classification rs)))" for rs :: "delta_safety_reason list"
    by (cases rs) (simp_all add: formal del: Max_insert, simp add: formal)
  then show ?thesis unfolding classify_delta_safety_def those_operation_reasons
    by (simp only: Let_def option.map rc)
qed

section \<open>Cardinality intervals as sets of counts\<close>

definition allowed_counts :: "interval \<Rightarrow> nat set" where
  "allowed_counts i = {n. fst i \<le> n \<and> (case snd i of None \<Rightarrow> True | Some m \<Rightarrow> n \<le> m)}"

definition interval_wf :: "interval \<Rightarrow> bool" where
  "interval_wf i \<longleftrightarrow> (case snd i of None \<Rightarrow> True | Some m \<Rightarrow> fst i \<le> m)"

lemma allowed_counts_iff: "n \<in> allowed_counts (a, b) \<longleftrightarrow> a \<le> n \<and> (case b of None \<Rightarrow> True | Some m \<Rightarrow> n \<le> m)"
  by (simp add: allowed_counts_def)

lemma interval_contains_iff:
  assumes "interval_wf inner"
  shows "interval_contains outer inner \<longleftrightarrow> allowed_counts inner \<subseteq> allowed_counts outer"
proof
  obtain a b where inner: "inner = (a, b)" by (cases inner)
  obtain c e where outer: "outer = (c, e)" by (cases outer)
  assume sub: "allowed_counts inner \<subseteq> allowed_counts outer"
  have low: "a \<in> allowed_counts inner"
    using assms by (auto simp: inner allowed_counts_iff interval_wf_def split: option.splits)
  then have "c \<le> a" using sub by (auto simp: outer allowed_counts_iff)
  moreover have "case e of None \<Rightarrow> True | Some m \<Rightarrow> (case b of None \<Rightarrow> False | Some k \<Rightarrow> k \<le> m)"
  proof (cases e)
    case (Some m)
    show ?thesis
    proof (cases b)
      case None
      then have "max a (Suc m) \<in> allowed_counts inner" by (simp add: inner allowed_counts_iff)
      with sub have "max a (Suc m) \<in> allowed_counts outer" by (rule subsetD)
      then show ?thesis by (simp add: outer allowed_counts_iff Some)
    next
      case (Some k)
      then have "k \<in> allowed_counts inner" using assms by (simp add: inner allowed_counts_iff interval_wf_def)
      with sub have "k \<in> allowed_counts outer" by (rule subsetD)
      then show ?thesis by (simp add: outer allowed_counts_iff \<open>e = Some m\<close> Some)
    qed
  qed simp
  ultimately show "interval_contains outer inner"
    by (simp add: interval_contains_def inner outer split: option.splits)
qed (auto simp: interval_contains_def allowed_counts_def split: option.splits)

lemma interval_eq_iff:
  assumes "interval_wf i" "interval_wf j"
  shows "i = j \<longleftrightarrow> allowed_counts i = allowed_counts j"
proof
  assume "allowed_counts i = allowed_counts j"
  then have "interval_contains i j" "interval_contains j i" using assms by (simp_all add: interval_contains_iff)
  then show "i = j" by (cases i; cases j) (auto simp: interval_contains_def split: option.splits)
qed simp

lemma transition_additive_iff:
  assumes "interval_wf i" "interval_wf j"
  shows "cardinality_transition_safety i j \<le> Additive \<longleftrightarrow> allowed_counts i \<subseteq> allowed_counts j"
  using assms
  by (auto simp: cardinality_transition_safety_def interval_contains_iff less_eq_safety_class_def)

section \<open>Additive plans\<close>

text \<open>Every added, changed and removed fact is the subject of an operation of the plan.\<close>

lemma plan_covers:
  assumes "is_plan s t ops"
  shows "i |\<in>| removed_ids s t \<Longrightarrow> Undefine (the (fmlookup s i)) \<in> set ops"
    and "i |\<in>| changed_ids s t \<Longrightarrow> Redefine (the (fmlookup s i)) (the (fmlookup t i)) \<in> set ops"
    and "i |\<in>| added_ids s t \<Longrightarrow> \<exists>fs. Define fs \<in> set ops \<and> the (fmlookup t i) \<in> set fs"
proof -
  obtain sg tg adds changes removals where p:
    "is_scc_order (graph_neighbors tg (added_ids s t)) (fset (added_ids s t)) adds"
    "set (concat changes) = fset (changed_ids s t)"
    "is_scc_order (graph_neighbors sg (removed_ids s t)) (fset (removed_ids s t)) removals"
    "ops = planned_operations s t adds (concat changes) (rev (concat removals))"
    using assms by (rule plan_parts)
  have sets: "set (concat adds) = fset (added_ids s t)" "set (rev (concat removals)) = fset (removed_ids s t)"
    using p(1,3) by (simp_all add: is_scc_order_def)
  show "i |\<in>| removed_ids s t \<Longrightarrow> Undefine (the (fmlookup s i)) \<in> set ops"
    unfolding p(4) planned_operations_def set_append set_map sets(2) by blast
  show "i |\<in>| changed_ids s t \<Longrightarrow> Redefine (the (fmlookup s i)) (the (fmlookup t i)) \<in> set ops"
    unfolding p(4) planned_operations_def set_append set_map p(2) by blast
  show "\<exists>fs. Define fs \<in> set ops \<and> the (fmlookup t i) \<in> set fs" if added: "i |\<in>| added_ids s t"
  proof -
    from added sets(1) obtain c where "c \<in> set adds" "i \<in> set c" by auto
    then show ?thesis unfolding p(4) planned_operations_def set_append set_map by fastforce
  qed
qed

definition additive_operations :: "schema_operation list \<Rightarrow> bool" where
  "additive_operations ops \<longleftrightarrow> (\<forall>op \<in> set ops. operation_class op \<le> Additive)"

lemma additive_define:
  assumes "additive_operations ops" "Define fs \<in> set ops" "f \<in> set fs"
  shows "the (classify_defined_fact f (defined_functions fs)) \<le> Additive"
proof -
  have "the (classify_defined_fact f (defined_functions fs)) \<le> operation_class (Define fs)"
    unfolding operation_class_define using assms(3) by (intro Max_ge) auto
  also have "\<dots> \<le> Additive" using assms(1,2) by (simp add: additive_operations_def)
  finally show ?thesis .
qed

lemma additive_classes [simp]:
  "FormalOnly \<le> Additive" "SchemaMetadata \<le> Additive" "Additive \<le> Additive" "\<not> Conditional \<le> Additive"
  "\<not> BackfillRequired \<le> Additive" "\<not> Destructive \<le> Additive" "\<not> Opaque \<le> Additive" "\<not> Unsupported \<le> Additive"
  by (simp_all add: less_eq_safety_class_def)

fun is_annotation :: "schema_fact \<Rightarrow> bool" where
  "is_annotation (FactAnnotation _) = True"
| "is_annotation _ = False"

lemma additive_undefine: "the (classify_undefined_fact f) \<le> Additive \<Longrightarrow> is_annotation f"
  by (cases f) (simp_all split: if_splits)

lemma additive_redefine:
  assumes "classify_redefinition f g = Some (Inr c)" "c \<le> Additive"
  shows "is_annotation f"
  using assms by (cases f; cases g) (auto simp: classify_redefinition_def split: if_splits)

lemma redefine_class:
  assumes "operation_wf (Redefine f g)" "operation_class (Redefine f g) \<le> Additive"
  obtains c where "classify_redefinition f g = Some (Inr c)" "c \<le> Additive"
  using classify_operation_safety_wf [OF assms(1)] assms(2) operation_class_redefine by fastforce

lemma additive_plan_keeps:
  assumes "facts_keyed s" "facts_keyed t" "is_plan s t ops" "additive_operations ops"
    and f: "fmlookup s i = Some f" "\<not> is_annotation f"
  shows "fmlookup t i = Some f"
proof -
  have safe: "operation_class op \<le> Additive" if "op \<in> set ops" for op
    using assms(4) that by (simp add: additive_operations_def)
  have wf: "operation_wf op" if "op \<in> set ops" for op
    using plan_admissible(1) [OF assms(1-3)] that by (simp add: list_all_iff)
  have "i |\<notin>| removed_ids s t"
  proof
    assume "i |\<in>| removed_ids s t"
    from safe [OF plan_covers(1) [OF assms(3) this]] f additive_undefine show False
      by (simp add: operation_class_undefine)
  qed
  moreover have "i |\<notin>| changed_ids s t"
  proof
    assume "i |\<in>| changed_ids s t"
    note op = plan_covers(2) [OF assms(3) this]
    from redefine_class [OF wf [OF op] safe [OF op]] additive_redefine f show False by auto
  qed
  ultimately show ?thesis using f by (auto simp: removed_ids_def changed_ids_def fmlookup_dom_iff)
qed

definition restricting :: "annotation_kind_id \<Rightarrow> bool" where
  "restricting k \<longleftrightarrow> k \<in> {Abstract, Key, Unique, Distinct, Regex, Range, Values}"

lemma restricting_not_additive:
  assumes "restricting (annotation_kind (annotation_fact_id_of a))" "tr \<noteq> AnnotationRemove"
  shows "\<not> the (classify_annotation a tr expected) \<le> Additive"
proof -
  have "classify_annotation a tr expected = Some Unsupported
      \<or> classify_annotation a tr expected = annotation_kind_safety (annotation_kind (annotation_fact_id_of a)) tr"
    using assms(1)
    by (cases "annotation_subject (annotation_fact_id_of a)")
       (auto simp: restricting_def classify_annotation_def Let_def)
  moreover have "\<not> the (annotation_kind_safety (annotation_kind (annotation_fact_id_of a)) tr) \<le> Additive"
    using assms by (cases tr) (auto simp: restricting_def)
  ultimately show ?thesis by auto
qed

lemma fmap_change_cases:
  obtains (same) "fmlookup s i = fmlookup t i"
    | (added) "i |\<in>| added_ids s t" | (changed) "i |\<in>| changed_ids s t" | (removed) "i |\<in>| removed_ids s t"
  by (cases "fmlookup s i"; cases "fmlookup t i")
     (auto simp: added_ids_def changed_ids_def removed_ids_def fmlookup_dom_iff fmlookup_dom'_iff)

lemma classify_defined_annotation:
  "\<not> is_metadata_kind (annotation_kind (annotation_fact_id_of a)) \<Longrightarrow>
   classify_defined_fact (FactAnnotation a) functions = classify_annotation a AnnotationAdd None"
  by (simp split: annotation_subject_id.splits)

text \<open>An annotation the plan introduces or changes was classified as such.\<close>

lemma additive_plan_annotation:
  assumes "facts_keyed s" "facts_keyed t" "is_plan s t ops" "additive_operations ops"
    and i: "i = IdAnnotation (AnnotationFactId subject kind)" and k: "\<not> is_metadata_kind kind"
  obtains (same) "fmlookup s i = fmlookup t i"
    | (added) a where "fmlookup s i = None" "fmlookup t i = Some (FactAnnotation a)"
        "annotation_fact_id_of a = AnnotationFactId subject kind"
        "the (classify_annotation a AnnotationAdd None) \<le> Additive"
    | (changed) a b where "fmlookup s i = Some (FactAnnotation a)" "fmlookup t i = Some (FactAnnotation b)"
        "annotation_fact_id_of a = AnnotationFactId subject kind"
        "annotation_fact_id_of b = AnnotationFactId subject kind"
        "the (classify_annotation b AnnotationChange (Some a)) \<le> Additive"
    | (removed) a where "fmlookup s i = Some (FactAnnotation a)" "fmlookup t i = None"
        "annotation_fact_id_of a = AnnotationFactId subject kind"
        "the (classify_annotation a AnnotationRemove None) \<le> Additive"
proof -
  have fact: "\<exists>a. f = FactAnnotation a \<and> annotation_fact_id_of a = AnnotationFactId subject kind"
    if "fmlookup m i = Some f" "facts_keyed m" for m f
  proof -
    have "fact_id f = i" using that by (simp add: facts_keyed_def)
    then show ?thesis unfolding i by (cases f) simp_all
  qed
  have safe: "operation_class op \<le> Additive" if "op \<in> set ops" for op
    using assms(4) that by (simp add: additive_operations_def)
  show thesis
  proof (cases rule: fmap_change_cases [of s i t])
    case added
    then obtain a where a: "fmlookup s i = None" "fmlookup t i = Some (FactAnnotation a)"
      "annotation_fact_id_of a = AnnotationFactId subject kind"
      using fact [of t] assms(2) by (auto simp: added_ids_def fmlookup_dom_iff)
    from plan_covers(3) [OF assms(3) added] a obtain fs where "Define fs \<in> set ops" "FactAnnotation a \<in> set fs" by auto
    from additive_define [OF assms(4) this] a(3) k have "the (classify_annotation a AnnotationAdd None) \<le> Additive"
      by (simp only: classify_defined_annotation annotation_fact_id.sel not_False_eq_True)
    with a show thesis by (rule that(2))
  next
    case changed
    then obtain f g where "fmlookup s i = Some f" "fmlookup t i = Some g"
      by (auto simp: changed_ids_def fmlookup_dom_iff)
    with fact [of s f] fact [of t g] assms(1,2) obtain a b where ab: "fmlookup s i = Some (FactAnnotation a)" "fmlookup t i = Some (FactAnnotation b)"
      "annotation_fact_id_of a = AnnotationFactId subject kind" "annotation_fact_id_of b = AnnotationFactId subject kind" by blast
    note op = plan_covers(2) [OF assms(3) changed]
    obtain c where c: "classify_annotation b AnnotationChange (Some a) = Some c"
      using classify_annotation_total by blast
    then have "classify_redefinition (FactAnnotation a) (FactAnnotation b) = Some (Inr c)"
      by (simp add: classify_redefinition_def)
    from operation_class_redefine [OF this] safe [OF op] ab c
    have "the (classify_annotation b AnnotationChange (Some a)) \<le> Additive" by simp
    with ab show thesis by (rule that(3))
  next
    case removed
    then obtain a where a: "fmlookup s i = Some (FactAnnotation a)" "fmlookup t i = None"
      "annotation_fact_id_of a = AnnotationFactId subject kind"
      using fact [of s] assms(1) by (auto simp: removed_ids_def fmlookup_dom_iff)
    from safe [OF plan_covers(1) [OF assms(3) removed]] a
    have "the (classify_annotation a AnnotationRemove None) \<le> Additive" by (simp add: operation_class_undefine)
    with a show thesis by (rule that(4))
  qed (rule that(1))
qed

lemma additive_plan_restrictions:
  assumes "facts_keyed s" "facts_keyed t" "is_plan s t ops" "additive_operations ops"
    and a: "fmlookup t i = Some (FactAnnotation a)" "restricting (annotation_kind (annotation_fact_id_of a))"
  shows "fmlookup s i = Some (FactAnnotation a)"
proof -
  have i: "i = IdAnnotation (AnnotationFactId (annotation_subject (annotation_fact_id_of a)) (annotation_kind (annotation_fact_id_of a)))"
    using a(1) assms(2) by (auto simp: facts_keyed_def dest: spec [of _ i])
  have k: "\<not> is_metadata_kind (annotation_kind (annotation_fact_id_of a))"
    using a(2) by (auto simp: restricting_def)
  show ?thesis
  proof (cases rule: additive_plan_annotation [OF assms(1-4) i k, case_names same added changed removed])
    case added
    with a restricting_not_additive [of a AnnotationAdd None] show ?thesis by simp
  next
    case (changed a' b')
    with a restricting_not_additive [of a AnnotationChange "Some a'"] show ?thesis by simp
  qed (use a in simp_all)
qed

text \<open>
  The interval in force on a capability under a semantic profile: one for a key, otherwise the
  declared cardinality or the default of the profile. The constructors of cardinalities and
  annotations guarantee the shape \<open>annotations_wf\<close>.
\<close>

definition declared_interval :: "fact_map \<Rightarrow> annotation_subject_id \<Rightarrow> interval option" where
  "declared_interval facts subject =
     (case fmlookup facts (IdAnnotation (AnnotationFactId subject Card)) of
        Some (FactAnnotation a) \<Rightarrow> annotation_cardinality a
      | _ \<Rightarrow> default_cardinality subject)"

fun interface_of :: "annotation_subject_id \<Rightarrow> interface_kind option" where
  "interface_of (OnOwns _) = Some InterfaceOwns"
| "interface_of (OnRelates _) = Some InterfaceRelates"
| "interface_of (OnPlays _) = Some InterfacePlays"
| "interface_of _ = None"

definition explicit_cardinality :: "fact_map \<Rightarrow> annotation_subject_id \<Rightarrow> cardinality option" where
  "explicit_cardinality facts subject =
     (case fmlookup facts (IdAnnotation (AnnotationFactId subject Card)) of
        Some (FactAnnotation a) \<Rightarrow> (case annotation_value a of PayloadCardinality c \<Rightarrow> Some c | _ \<Rightarrow> None)
      | _ \<Rightarrow> None)"

definition effective_interval :: "semantic_profile \<Rightarrow> fact_map \<Rightarrow> annotation_subject_id \<Rightarrow> interval option" where
  "effective_interval profile facts subject =
     map_option (\<lambda>kind.
       let c = profile_effective_cardinality profile kind (explicit_cardinality facts subject)
                 (IdAnnotation (AnnotationFactId subject Key) |\<in>| fmdom facts)
       in (card_min c, card_max c)) (interface_of subject)"

definition annotation_wf :: "annotation_fact \<Rightarrow> bool" where
  "annotation_wf a \<longleftrightarrow>
     annotation_payload_matches (annotation_kind (annotation_fact_id_of a)) (annotation_value a)
     \<and> annotation_subject_matches (annotation_kind (annotation_fact_id_of a)) (annotation_subject (annotation_fact_id_of a))
     \<and> (case annotation_value a of
          PayloadCardinality c \<Rightarrow> cardinality_new (card_min c) (card_max c) = Inr c
        | _ \<Rightarrow> True)"

definition annotations_wf :: "fact_map \<Rightarrow> bool" where
  "annotations_wf facts \<longleftrightarrow> fmpred (\<lambda>_ f. case f of FactAnnotation a \<Rightarrow> annotation_wf a | _ \<Rightarrow> True) facts"

lemma annotation_wf_card:
  assumes "annotation_wf a" "annotation_fact_id_of a = AnnotationFactId subject Card"
  obtains i d where "annotation_cardinality a = Some i" "interval_wf i"
    "default_cardinality subject = Some d" "interval_wf d" "annotation_supported subject Card"
    "\<not> (case subject of OnSub _ \<Rightarrow> True | _ \<Rightarrow> False)"
proof -
  from assms obtain c where c: "annotation_value a = PayloadCardinality c"
    by (auto simp: annotation_wf_def split: schema_annotation_value.splits)
  with assms have "annotation_cardinality a = Some (card_min c, card_max c)" "interval_wf (card_min c, card_max c)"
    by (auto simp: annotation_wf_def annotation_cardinality_def interval_wf_def cardinality_new_def
        split: option.splits if_splits)
  moreover obtain d where "default_cardinality subject = Some d" "interval_wf d" "annotation_supported subject Card"
    "\<not> (case subject of OnSub _ \<Rightarrow> True | _ \<Rightarrow> False)"
    using assms by (cases subject) (auto simp: annotation_wf_def interval_wf_def)
  ultimately show thesis by (rule that)
qed

lemma additive_plan_cardinality:
  assumes "facts_keyed s" "facts_keyed t" "is_plan s t ops" "additive_operations ops"
    and wf: "annotations_wf s" "annotations_wf t"
    and old: "declared_interval s subject = Some i" and new: "declared_interval t subject = Some j"
  shows "allowed_counts i \<subseteq> allowed_counts j"
proof -
  let ?i = "IdAnnotation (AnnotationFactId subject Card)"
  have wfs: "fmlookup s ?i = Some (FactAnnotation a) \<Longrightarrow> annotation_wf a"
    and wft: "fmlookup t ?i = Some (FactAnnotation a) \<Longrightarrow> annotation_wf a" for a
    using wf by (auto simp: annotations_wf_def dest: fmpredD)
  show ?thesis
  proof (cases rule: additive_plan_annotation [OF assms(1-4) refl, of Card subject, case_names not_metadata same added changed removed])
    case same
    with old new show ?thesis by (simp add: declared_interval_def)
  next
    case (added a)
    from annotation_wf_card [OF wft [OF added(2)] added(3)] obtain k d where k:
      "annotation_cardinality a = Some k" "interval_wf k" "default_cardinality subject = Some d" "interval_wf d"
      "annotation_supported subject Card" "\<not> (case subject of OnSub _ \<Rightarrow> True | _ \<Rightarrow> False)" .
    with old new added show ?thesis
      by (auto simp: declared_interval_def classify_annotation_def transition_additive_iff)
  next
    case (changed a b)
    from annotation_wf_card [OF wft [OF changed(2)] changed(4)] obtain k d where k:
      "annotation_cardinality b = Some k" "interval_wf k" "default_cardinality subject = Some d" "interval_wf d"
      "annotation_supported subject Card" "\<not> (case subject of OnSub _ \<Rightarrow> True | _ \<Rightarrow> False)" .
    from annotation_wf_card [OF wfs [OF changed(1)] changed(3)] obtain k' where
      "annotation_cardinality a = Some k'" "interval_wf k'" .
    with k old new changed show ?thesis
      by (auto simp: declared_interval_def classify_annotation_def transition_additive_iff)
  next
    case (removed a)
    from annotation_wf_card [OF wfs [OF removed(1)] removed(3)] obtain k d where k:
      "annotation_cardinality a = Some k" "interval_wf k" "default_cardinality subject = Some d" "interval_wf d"
      "annotation_supported subject Card" "\<not> (case subject of OnSub _ \<Rightarrow> True | _ \<Rightarrow> False)" .
    with old new removed show ?thesis
      by (auto simp: declared_interval_def classify_annotation_def transition_additive_iff)
  qed simp
qed

text \<open>A valid schema declares no cardinality beside a key.\<close>

lemma annotation_id_listed:
  assumes "facts_keyed facts" "IdAnnotation i |\<in>| fmdom facts"
  shows "i \<in> set (annotation_ids facts)"
proof -
  obtain f where f: "fmlookup facts (IdAnnotation i) = Some f" using assms(2) by (auto simp: fmlookup_dom_iff)
  then have "fact_id f = IdAnnotation i" using assms(1) by (simp add: facts_keyed_def)
  then obtain a where "f = FactAnnotation a" "annotation_fact_id_of a = i" by (cases f) simp_all
  with f show ?thesis
    by (force simp: annotation_ids_def in_set_map_filter set_facts_list)
qed

lemma valid_key_card:
  assumes "facts_keyed facts" "facts_valid facts" "IdAnnotation (AnnotationFactId subject Key) |\<in>| fmdom facts"
  shows "IdAnnotation (AnnotationFactId subject Card) |\<notin>| fmdom facts"
proof
  assume card: "IdAnnotation (AnnotationFactId subject Card) |\<in>| fmdom facts"
  note ids = annotation_id_listed [OF assms(1,3)] annotation_id_listed [OF assms(1) card]
  then have "Key \<in> set (kinds_of facts subject)" "Card \<in> set (kinds_of facts subject)"
    by (force simp: kinds_of_def)+
  moreover have "subject \<in> set (remdups_adj (map annotation_subject (annotation_ids facts)))"
    using ids(1) by force
  ultimately have "validate_annotation_combinations facts \<noteq> []"
    by (auto simp: validate_annotation_combinations_def annotation_combination_errors_def Let_def)
  with assms(2) show False by (simp add: facts_valid_def)
qed

lemma effective_interval_eq:
  assumes "semantic_profile_resolve i = Some (Inr profile)" "annotations_wf facts" "facts_keyed facts"
  shows "effective_interval profile facts subject =
    (if (case subject of OnOwns _ \<Rightarrow> True | _ \<Rightarrow> False) \<and> IdAnnotation (AnnotationFactId subject Key) |\<in>| fmdom facts
     then Some (1, Some 1)
     else if interface_of subject = None then None else declared_interval facts subject)"
proof -
  let ?i = "IdAnnotation (AnnotationFactId subject Card)"
  have declared: "declared_interval facts subject =
      (case explicit_cardinality facts subject of None \<Rightarrow> default_cardinality subject | Some c \<Rightarrow> Some (card_min c, card_max c))"
  proof (cases "fmlookup facts ?i")
    case (Some f)
    then have "fact_id f = ?i" using assms(3) by (simp add: facts_keyed_def)
    then obtain a where a: "f = FactAnnotation a" "annotation_fact_id_of a = AnnotationFactId subject Card" by (cases f) simp_all
    with Some assms(2) have "annotation_wf a" by (auto simp: annotations_wf_def dest: fmpredD)
    with a have "\<exists>c. annotation_value a = PayloadCardinality c"
      by (auto simp: annotation_wf_def split: schema_annotation_value.splits)
    with Some a show ?thesis
      by (auto simp: declared_interval_def explicit_cardinality_def annotation_cardinality_def)
  qed (simp add: declared_interval_def explicit_cardinality_def)
  from assms(1) show ?thesis unfolding declared
    by (cases subject)
       (auto simp: effective_interval_def profile_effective_cardinality_def semantic_profile_resolve_eq
         split: if_splits option.splits)
qed

lemma additive_plan_effective:
  assumes plan: "facts_keyed s" "facts_keyed t" "is_plan s t ops" "additive_operations ops"
    and wf: "annotations_wf s" "annotations_wf t" and valid: "facts_valid s"
    and profile: "semantic_profile_resolve p = Some (Inr profile)"
    and old: "effective_interval profile s subject = Some i" and new: "effective_interval profile t subject = Some j"
  shows "allowed_counts i \<subseteq> allowed_counts j"
proof (cases "\<exists>w. subject = OnOwns w \<and> IdAnnotation (AnnotationFactId subject Key) |\<in>| fmdom s")
  case True
  let ?k = "IdAnnotation (AnnotationFactId subject Key)" and ?c = "IdAnnotation (AnnotationFactId subject Card)"
  obtain w where w: "subject = OnOwns w" and key: "?k |\<in>| fmdom s" using True by blast
  have i: "i = (1, Some 1)" using old key w by (simp add: effective_interval_eq [OF profile wf(1) plan(1)])
  show ?thesis
  proof (cases "?k |\<in>| fmdom t")
    case True
    with new w i show ?thesis by (simp add: effective_interval_eq [OF profile wf(2) plan(2)])
  next
    case False
    have "fmlookup s ?c = None" using valid_key_card [OF plan(1) valid key] by (simp add: fmlookup_dom_iff)
    then have "declared_interval s subject = Some (0, Some 1)" by (simp add: declared_interval_def w)
    moreover have "declared_interval t subject = Some j"
      using new False w by (simp add: effective_interval_eq [OF profile wf(2) plan(2)])
    ultimately have "allowed_counts (0, Some 1) \<subseteq> allowed_counts j"
      by (rule additive_plan_cardinality [OF plan wf])
    with i show ?thesis by (auto simp: allowed_counts_def)
  qed
next
  case False
  have t_key: "\<not> (\<exists>w. subject = OnOwns w \<and> IdAnnotation (AnnotationFactId subject Key) |\<in>| fmdom t)"
  proof
    assume "\<exists>w. subject = OnOwns w \<and> IdAnnotation (AnnotationFactId subject Key) |\<in>| fmdom t"
    then obtain f where f: "fmlookup t (IdAnnotation (AnnotationFactId subject Key)) = Some f" "\<exists>w. subject = OnOwns w"
      by (auto simp: fmlookup_dom_iff)
    then have "fact_id f = IdAnnotation (AnnotationFactId subject Key)" using plan(2) by (simp add: facts_keyed_def)
    then obtain a where a: "f = FactAnnotation a" "annotation_fact_id_of a = AnnotationFactId subject Key" by (cases f) simp_all
    with f have "fmlookup s (IdAnnotation (AnnotationFactId subject Key)) = Some (FactAnnotation a)"
      by (intro additive_plan_restrictions [OF plan]) (auto simp: restricting_def)
    with False f show False by (auto simp: fmlookup_dom_iff)
  qed
  from False old have "declared_interval s subject = Some i"
    by (cases subject) (auto simp: effective_interval_eq [OF profile wf(1) plan(1)] split: if_splits)
  moreover from t_key new have "declared_interval t subject = Some j"
    by (cases subject) (auto simp: effective_interval_eq [OF profile wf(2) plan(2)] split: if_splits)
  ultimately show ?thesis by (rule additive_plan_cardinality [OF plan wf])
qed

section \<open>The guarantees of the classification\<close>

text \<open>
  C36. The comparison of cardinality bounds is exact: for intervals built by the checked constructor
  the class of a transition says how the sets of admitted counts relate. It is formal only when
  they are equal, additive when the target admits strictly more, needs a backfill when the target
  admits strictly less, and is conditional when neither contains the other.
\<close>

theorem cardinality_transition_exact:
  assumes "cardinality_new a b = Inr source" "cardinality_new c d = Inr target"
  shows "cardinality_transition_safety (card_min source, card_max source) (card_min target, card_max target) =
    (let before = allowed_counts (card_min source, card_max source);
         after = allowed_counts (card_min target, card_max target) in
     if before = after then FormalOnly
     else if before \<subset> after then Additive
     else if after \<subset> before then BackfillRequired
     else Conditional)"
proof -
  have wf: "interval_wf (card_min x, card_max x)" if "cardinality_new k m = Inr x" for k m x
    using that by (auto simp: cardinality_new_def interval_wf_def split: option.splits if_splits)
  note wf = wf [OF assms(1)] wf [OF assms(2)]
  show ?thesis
    unfolding cardinality_transition_safety_def Let_def interval_contains_iff [OF wf(1)] interval_contains_iff [OF wf(2)]
      interval_eq_iff [OF wf] psubset_eq
    by simp
qed

theorem cardinality_transition_exact_witness:
  "cardinality_transition_safety (0, Some 1) (0, None) = Additive
   \<and> allowed_counts (0, Some 1) \<subset> allowed_counts (0, None)"
proof -
  have "cardinality_transition_safety (0, Some 1) (0, None) = Additive"
    by (simp add: cardinality_transition_safety_def interval_contains_def)
  with cardinality_transition_exact [of 0 "Some 1" "\<lparr>card_min = 0, card_max = Some 1\<rparr>" 0 None "\<lparr>card_min = 0, card_max = None\<rparr>"]
  show ?thesis by (simp add: cardinality_new_def Let_def split: if_splits)
qed

text \<open>
  C35. The safety report of a delta is total and conservative: on well-formed operations no branch of
  the classifier is reached that the code declares unreachable and no operation is malformed, the
  reported class bounds the class of every operation and is attained by one of them unless there
  are none, and the reasons list exactly the affected identities, in operation order.
\<close>

theorem classify_delta_safety_strongest:
  assumes "list_all operation_wf (delta_operations d)"
  shows "\<exists>report. classify_delta_safety d = Some report
    \<and> (\<forall>op \<in> set (delta_operations d). \<exists>c. classify_operation_safety op = Some (Inr c) \<and> c \<le> report_classification report)
    \<and> (delta_operations d = [] \<and> report_classification report = FormalOnly
       \<or> (\<exists>op \<in> set (delta_operations d). classify_operation_safety op = Some (Inr (report_classification report))))
    \<and> map (\<lambda>r. (reason_operation_index r, reason_fact_id r)) (report_reasons report)
        = concat (map (\<lambda>(k, op). map (Pair k) (affected_ids op)) (List.enumerate 0 (delta_operations d)))"
proof -
  let ?ops = "delta_operations d"
  define m where "m = Max (insert FormalOnly (set (map operation_class ?ops)))"
  have each: "classify_operation_safety op = Some (Inr (operation_class op))" if "op \<in> set ?ops" for op
    using classify_operation_safety_wf [of op] assms that
    by (auto simp: list_all_iff operation_class_def classify_schema_operation_safety_def)
  have bound: "operation_class op \<le> m" if "op \<in> set ?ops" for op
    unfolding m_def using that by (intro Max_ge) auto
  have "m \<in> insert FormalOnly (set (map operation_class ?ops))" unfolding m_def by (rule Max_in) simp_all
  then have member: "m = FormalOnly \<or> (\<exists>op \<in> set ?ops. operation_class op = m)" by auto
  have attained: "?ops = [] \<and> m = FormalOnly \<or> (\<exists>op \<in> set ?ops. operation_class op = m)"
  proof (cases ?ops)
    case (Cons op ops)
    have "operation_class op = m" if "m = FormalOnly"
      using bound [of op] that Cons by (cases "operation_class op") (simp_all add: less_eq_safety_class_def)
    with member Cons show ?thesis by auto
  qed (simp add: m_def)
  have "map (\<lambda>r. (reason_operation_index r, reason_fact_id r)) (concat (map reasons_of xs))
      = concat (map (\<lambda>(k, op). map (Pair k) (affected_ids op)) xs)" for xs
    by (induction xs) (auto simp: reasons_of_def)
  with each bound attained show ?thesis
    unfolding classify_delta_safety_eq [OF assms] m_def [symmetric]
    by simp
qed


definition ownership_facts :: "(nat \<times> nat option) option \<Rightarrow> schema_fact list" where
  "ownership_facts bounds =
     (let person = TypeId Entity ''person''; name = AttributeId ''name''; owns = OwnsFactId person name in
      [FactType person, FactType (attribute_type_id name),
       FactValue \<lparr>value_fact_id_of = ValueFactId name, value_fact_type = TagString\<rparr>,
       FactOwns \<lparr>owns_fact_id_of = owns, owns_collection_mode = Unordered\<rparr>]
      @ (case bounds of None \<Rightarrow> [] | Some (a, b) \<Rightarrow>
           [FactAnnotation \<lparr>annotation_fact_id_of = AnnotationFactId (OnOwns owns) Card,
              annotation_value = PayloadCardinality \<lparr>card_min = a, card_max = b\<rparr>\<rparr>]))"


theorem classify_delta_safety_strongest_witness:
  "\<exists>report. classify_delta_safety \<lparr>delta_format = 1, delta_operations = [Undefine (FactType (TypeId Entity ''person''))],
      delta_required_capabilities = {||}, delta_source = example_state [] {||}, delta_target = example_state [] {||}\<rparr> = Some report
    \<and> Destructive \<le> report_classification report"
proof -
  let ?d = "\<lparr>delta_format = 1, delta_operations = [Undefine (FactType (TypeId Entity ''person''))],
      delta_required_capabilities = {||}, delta_source = example_state [] {||}, delta_target = example_state [] {||}\<rparr>"
  have "list_all operation_wf (delta_operations ?d)" by (simp add: operation_wf_def)
  from classify_delta_safety_strongest [OF this] show ?thesis by auto
qed

end
