(* ===== verification/Assertion_Plans.thy ===== *)
theory Assertion_Plans
  imports Canonical_Values Schema_Ids
begin

text \<open>
  The two closed data plans a migration step may carry: the typed no-rows assertions of
  \<open>contract/src/migration_assertion.rs\<close> and the copy-attribute backfill of
  \<open>contract/src/migration_backfill.rs\<close>. Constructors are fallible and check every structural limit of
  \<open>contract/src/limits.rs\<close>; a binding ordinal (a \<open>u16\<close>) is a natural number.
\<close>

section \<open>Structural limits\<close>

record structural_limits =
  limit_selected_slots :: nat
  limit_bindings :: nat
  limit_predicate_nodes :: nat
  limit_predicate_depth :: nat
  limit_boolean_terms :: nat

definition MAX_BINDINGS :: nat where
  "MAX_BINDINGS = 256"

definition MAX_OUTPUT_NAME_BYTES :: nat where
  "MAX_OUTPUT_NAME_BYTES = 128"

definition CANONICAL_LIMITS :: structural_limits where
  "CANONICAL_LIMITS =
     \<lparr>limit_selected_slots = 16, limit_bindings = MAX_BINDINGS, limit_predicate_nodes = 4096,
      limit_predicate_depth = 64, limit_boolean_terms = 256\<rparr>"

definition allows_selected_slots :: "structural_limits \<Rightarrow> nat \<Rightarrow> bool" where
  "allows_selected_slots limits actual \<longleftrightarrow> actual \<le> limit_selected_slots limits"

definition allows_bindings :: "structural_limits \<Rightarrow> nat \<Rightarrow> bool" where
  "allows_bindings limits actual \<longleftrightarrow> actual \<le> limit_bindings limits"

definition allows_predicate_nodes :: "structural_limits \<Rightarrow> nat \<Rightarrow> bool" where
  "allows_predicate_nodes limits actual \<longleftrightarrow> actual \<le> limit_predicate_nodes limits"

definition allows_predicate_depth :: "structural_limits \<Rightarrow> nat \<Rightarrow> bool" where
  "allows_predicate_depth limits actual \<longleftrightarrow> actual \<le> limit_predicate_depth limits"

section \<open>Assertion syntax\<close>

type_synonym binding_id = nat

definition binding_id_new :: "nat \<Rightarrow> binding_id res" where
  "binding_id_new value =
     (if value < MAX_BINDINGS then Inr value
      else Inl (Diagnostic ResourceLimit ''migration_assertion_binding_id_out_of_range''))"

type_synonym query_variable = string

definition query_variable_new :: "string \<Rightarrow> query_variable res" where
  "query_variable_new value =
     (if value \<noteq> [] \<and> length value \<le> MAX_OUTPUT_NAME_BYTES \<and> is_ascii_lowercase (hd value)
         \<and> list_all (\<lambda>c. is_ascii_lowercase c \<or> is_ascii_digit c \<or> c = CHR ''_'') (tl value)
      then Inr value else Inl (invalid_contract ''migration_assertion_invalid_variable''))"

record assertion_binding =
  binding_ordinal :: binding_id
  binding_variable :: query_variable

record assertion_role_player =
  player_binding :: binding_id
  player_role :: role_id

datatype value_comparator =
    CompareEqual | CompareNotEqual | CompareLess | CompareLessOrEqual | CompareGreater | CompareGreaterOrEqual

datatype value_operand = OperandBinding binding_id | OperandLiteral canonical_value

datatype assertion_pattern =
    PatternIsa binding_id bool type_id
  | PatternHas binding_id attribute_id binding_id
  | PatternLinks "assertion_role_player list" binding_id type_id
  | PatternValue value_comparator value_operand value_operand
  | PatternNot "assertion_pattern list"

datatype assertion_expectation = NoRows

record migration_assertion_plan =
  assertion_bindings :: "assertion_binding list"
  assertion_expectation_of :: assertion_expectation
  assertion_format :: nat
  assertion_managed_semantics :: string
  assertion_outputs :: "binding_id list"
  assertion_patterns :: "assertion_pattern list"
  assertion_required_capabilities :: capability_set
  assertion_witnesses :: "binding_id list"

section \<open>Pattern inspection\<close>

definition check_binding :: "binding_id \<Rightarrow> nat \<Rightarrow> unit res" where
  "check_binding binding binding_count =
     (if binding < binding_count then Inr () else Inl (invalid_contract ''migration_assertion_unknown_binding''))"

fun check_operand :: "value_operand \<Rightarrow> nat \<Rightarrow> unit res" where
  "check_operand (OperandBinding binding) binding_count = check_binding binding binding_count"
| "check_operand (OperandLiteral _) binding_count = Inr ()"

definition check_players :: "assertion_role_player list \<Rightarrow> nat \<Rightarrow> unit res" where
  "check_players players binding_count =
     fold_res (\<lambda>player _. check_binding (player_binding player) binding_count) players ()"

text \<open>The node count of \<open>PatternStats\<close> is threaded through and returned.\<close>

fun inspect_pattern :: "assertion_pattern \<Rightarrow> nat \<Rightarrow> nat \<Rightarrow> structural_limits \<Rightarrow> nat \<Rightarrow> nat res"
  and inspect_patterns :: "assertion_pattern list \<Rightarrow> nat \<Rightarrow> nat \<Rightarrow> structural_limits \<Rightarrow> nat \<Rightarrow> nat res" where
  "inspect_pattern pattern depth binding_count limits nodes =
     (if \<not> allows_predicate_nodes limits (nodes + 1)
      then Inl (Diagnostic ResourceLimit ''migration_assertion_pattern_node_limit'')
      else if \<not> allows_predicate_depth limits depth
      then Inl (Diagnostic ResourceLimit ''migration_assertion_pattern_depth_limit'')
      else
        (case pattern of
           PatternIsa binding _ _ \<Rightarrow> bind_res (check_binding binding binding_count) (\<lambda>_. Inr (nodes + 1))
         | PatternHas attribute _ owner \<Rightarrow>
             bind_res (check_binding owner binding_count) (\<lambda>_.
             bind_res (check_binding attribute binding_count) (\<lambda>_. Inr (nodes + 1)))
         | PatternLinks players relation _ \<Rightarrow>
             bind_res (check_binding relation binding_count) (\<lambda>_.
               if players = [] \<or> limit_boolean_terms limits < length players
               then Inl (Diagnostic ResourceLimit ''migration_assertion_role_player_limit'')
               else bind_res (check_players players binding_count) (\<lambda>_. Inr (nodes + 1)))
         | PatternValue _ left right \<Rightarrow>
             bind_res (check_operand left binding_count) (\<lambda>_.
             bind_res (check_operand right binding_count) (\<lambda>_. Inr (nodes + 1)))
         | PatternNot patterns \<Rightarrow>
             if patterns = [] \<or> limit_boolean_terms limits < length patterns
             then Inl (Diagnostic ResourceLimit ''migration_assertion_negation_term_limit'')
             else inspect_patterns patterns (depth + 1) binding_count limits (nodes + 1)))"
| "inspect_patterns [] depth binding_count limits nodes = Inr nodes"
| "inspect_patterns (p # ps) depth binding_count limits nodes =
     bind_res (inspect_pattern p depth binding_count limits nodes) (\<lambda>nodes'.
       inspect_patterns ps depth binding_count limits nodes')"

section \<open>Capabilities\<close>

definition CAP_ASSERTION :: string where
  "CAP_ASSERTION = ''query.migration-assertion''"

definition CAP_ISA :: string where
  "CAP_ISA = ''query.pattern.isa''"

definition CAP_ISA_SUBTYPES :: string where
  "CAP_ISA_SUBTYPES = ''query.pattern.isa-subtypes''"

definition CAP_HAS :: string where
  "CAP_HAS = ''query.pattern.has''"

definition CAP_LINKS :: string where
  "CAP_LINKS = ''query.pattern.links''"

definition CAP_VALUE :: string where
  "CAP_VALUE = ''query.pattern.value''"

definition CAP_NEGATION :: string where
  "CAP_NEGATION = ''query.pattern.negation''"

definition insert_capability :: "capability_set \<Rightarrow> string \<Rightarrow> capability_set res" where
  "insert_capability capabilities value =
     bind_res (capability_id_new value) (\<lambda>c. Inr (finsert c capabilities))"

definition migration_assertion_capability_vocabulary :: "capability_set res" where
  "migration_assertion_capability_vocabulary =
     fold_res (\<lambda>capability capabilities. insert_capability capabilities capability)
       [CAP_ASSERTION, CAP_ISA, CAP_ISA_SUBTYPES, CAP_HAS, CAP_LINKS, CAP_VALUE, CAP_NEGATION] {||}"

fun collect_capabilities :: "assertion_pattern \<Rightarrow> capability_set \<Rightarrow> capability_set res"
  and collect_all :: "assertion_pattern list \<Rightarrow> capability_set \<Rightarrow> capability_set res" where
  "collect_capabilities (PatternIsa _ include_subtypes _) capabilities =
     bind_res (insert_capability capabilities CAP_ISA) (\<lambda>capabilities.
       if include_subtypes then insert_capability capabilities CAP_ISA_SUBTYPES else Inr capabilities)"
| "collect_capabilities (PatternHas _ _ _) capabilities = insert_capability capabilities CAP_HAS"
| "collect_capabilities (PatternLinks _ _ _) capabilities = insert_capability capabilities CAP_LINKS"
| "collect_capabilities (PatternValue _ _ _) capabilities = insert_capability capabilities CAP_VALUE"
| "collect_capabilities (PatternNot patterns) capabilities =
     bind_res (insert_capability capabilities CAP_NEGATION) (\<lambda>capabilities. collect_all patterns capabilities)"
| "collect_all [] capabilities = Inr capabilities"
| "collect_all (p # ps) capabilities =
     bind_res (collect_capabilities p capabilities) (\<lambda>capabilities. collect_all ps capabilities)"

definition derive_capabilities :: "assertion_pattern list \<Rightarrow> capability_set res" where
  "derive_capabilities patterns =
     bind_res (insert_capability {||} CAP_ASSERTION) (\<lambda>capabilities. collect_all patterns capabilities)"

section \<open>Assertion plans\<close>

definition canonical_binding_set :: "binding_id list \<Rightarrow> nat \<Rightarrow> binding_id list res" where
  "canonical_binding_set bindings binding_count =
     (let ordered = sort bindings in
      if list_ex (\<lambda>(a, b). a = b) (zip ordered (tl ordered))
      then Inl (invalid_contract ''migration_assertion_duplicate_binding_set_member'')
      else bind_res (fold_res (\<lambda>binding _. check_binding binding binding_count) ordered ()) (\<lambda>_. Inr ordered))"

fun check_bindings :: "(nat \<times> assertion_binding) list \<Rightarrow> query_variable fset \<Rightarrow> unit res" where
  "check_bindings [] variables = Inr ()"
| "check_bindings ((index, binding) # rest) variables =
     (if binding_ordinal binding \<noteq> index
      then Inl (invalid_contract ''migration_assertion_bindings_not_dense'')
      else if binding_variable binding |\<in>| variables
      then Inl (invalid_contract ''migration_assertion_duplicate_variable'')
      else check_bindings rest (finsert (binding_variable binding) variables))"

definition assertion_plan_new_with_limits ::
  "assertion_binding list \<Rightarrow> assertion_pattern list \<Rightarrow> binding_id list \<Rightarrow> binding_id list \<Rightarrow> string \<Rightarrow>
   assertion_expectation \<Rightarrow> structural_limits \<Rightarrow> migration_assertion_plan res" where
  "assertion_plan_new_with_limits bindings patterns outputs witnesses semantics expectation limits =
     bind_res (ensure (bindings \<noteq> [] \<and> allows_bindings limits (length bindings))
       (Diagnostic ResourceLimit ''migration_assertion_binding_limit'')) (\<lambda>_.
     bind_res (check_bindings (List.enumerate 0 bindings) {||}) (\<lambda>_.
     bind_res (canonical_binding_set outputs (length bindings)) (\<lambda>outputs.
     bind_res (canonical_binding_set witnesses (length bindings)) (\<lambda>witnesses.
     bind_res (ensure (allows_selected_slots limits (length outputs))
       (Diagnostic ResourceLimit ''migration_assertion_output_limit'')) (\<lambda>_.
     bind_res (ensure (\<not> list_ex (\<lambda>i. i \<in> set witnesses) outputs)
       (invalid_contract ''migration_assertion_witness_is_output'')) (\<lambda>_.
     bind_res (ensure (patterns \<noteq> [] \<and> length patterns \<le> limit_boolean_terms limits)
       (Diagnostic ResourceLimit ''migration_assertion_pattern_limit'')) (\<lambda>_.
     bind_res (inspect_patterns patterns 1 (length bindings) limits 0) (\<lambda>_.
     bind_res (derive_capabilities patterns) (\<lambda>capabilities.
       Inr \<lparr>assertion_bindings = bindings, assertion_expectation_of = expectation, assertion_format = 1,
            assertion_managed_semantics = semantics, assertion_outputs = outputs, assertion_patterns = patterns,
            assertion_required_capabilities = capabilities, assertion_witnesses = witnesses\<rparr>)))))))))"

definition assertion_plan_new ::
  "assertion_binding list \<Rightarrow> assertion_pattern list \<Rightarrow> binding_id list \<Rightarrow> binding_id list \<Rightarrow> string \<Rightarrow>
   assertion_expectation \<Rightarrow> migration_assertion_plan res" where
  "assertion_plan_new bindings patterns outputs witnesses semantics expectation =
     assertion_plan_new_with_limits bindings patterns outputs witnesses semantics expectation CANONICAL_LIMITS"

section \<open>Backfill plans\<close>

definition MAX_BACKFILL_BATCH_ROWS :: nat where
  "MAX_BACKFILL_BATCH_ROWS = 10000"

datatype backfill_value_transform = Identity
datatype backfill_conflict_policy = SkipEqualRejectDifferent
datatype backfill_postcondition = SourceValueCopiedExactly
datatype backfill_reverse_program = RemoveEqualCopiedDestination

record backfill_partition =
  partition_batch_rows :: nat
  partition_stable_attribute :: attribute_id

definition backfill_partition_new :: "nat \<Rightarrow> attribute_id \<Rightarrow> backfill_partition res" where
  "backfill_partition_new batch_rows stable_attribute =
     (if batch_rows = 0 \<or> MAX_BACKFILL_BATCH_ROWS < batch_rows
      then Inl (Diagnostic ResourceLimit ''migration_backfill_batch_rows_out_of_range'')
      else Inr \<lparr>partition_batch_rows = batch_rows, partition_stable_attribute = stable_attribute\<rparr>)"

definition COPY_ATTRIBUTE_BACKFILL_CAPABILITY :: string where
  "COPY_ATTRIBUTE_BACKFILL_CAPABILITY = ''migration.backfill.copy-attribute''"

record attribute_backfill_plan =
  backfill_conflict :: backfill_conflict_policy
  backfill_destination :: attribute_id
  backfill_format :: nat
  backfill_managed_semantics :: string
  backfill_owner :: type_id
  backfill_partition_of :: backfill_partition
  backfill_postcondition_of :: backfill_postcondition
  backfill_required_capabilities :: capability_set
  backfill_reverse :: "backfill_reverse_program option"
  backfill_source :: attribute_id
  backfill_transform :: backfill_value_transform

definition backfill_plan_new ::
  "type_id \<Rightarrow> attribute_id \<Rightarrow> attribute_id \<Rightarrow> backfill_partition \<Rightarrow> string \<Rightarrow> backfill_reverse_program option \<Rightarrow>
   attribute_backfill_plan res" where
  "backfill_plan_new owner source destination slicing semantics reverse =
     (if type_id_kind owner \<noteq> Entity \<and> type_id_kind owner \<noteq> Relation
      then Inl (invalid_contract ''migration_backfill_owner_kind_invalid'')
      else if source = destination then Inl (invalid_contract ''migration_backfill_same_attribute'')
      else Inr \<lparr>backfill_conflict = SkipEqualRejectDifferent, backfill_destination = destination, backfill_format = 1,
                backfill_managed_semantics = semantics, backfill_owner = owner, backfill_partition_of = slicing,
                backfill_postcondition_of = SourceValueCopiedExactly,
                backfill_required_capabilities = {|COPY_ATTRIBUTE_BACKFILL_CAPABILITY|}, backfill_reverse = reverse,
                backfill_source = source, backfill_transform = Identity\<rparr>)"

section \<open>Size, depth and references of patterns\<close>

fun pattern_size :: "assertion_pattern \<Rightarrow> nat" where
  "pattern_size (PatternNot ps) = Suc (sum_list (map pattern_size ps))"
| "pattern_size _ = 1"

fun pattern_depth :: "assertion_pattern \<Rightarrow> nat" where
  "pattern_depth (PatternNot ps) = Suc (Max (insert 0 (set (map pattern_depth ps))))"
| "pattern_depth _ = 1"

fun operand_bindings :: "value_operand \<Rightarrow> binding_id set" where
  "operand_bindings (OperandBinding b) = {b}"
| "operand_bindings (OperandLiteral _) = {}"

fun pattern_bindings :: "assertion_pattern \<Rightarrow> binding_id set" where
  "pattern_bindings (PatternIsa b _ _) = {b}"
| "pattern_bindings (PatternHas attribute _ owner) = {attribute, owner}"
| "pattern_bindings (PatternLinks players relation _) = insert relation (player_binding ` set players)"
| "pattern_bindings (PatternValue _ left right) = operand_bindings left \<union> operand_bindings right"
| "pattern_bindings (PatternNot ps) = (\<Union>p \<in> set ps. pattern_bindings p)"

fun pattern_terms_ok :: "nat \<Rightarrow> assertion_pattern \<Rightarrow> bool" where
  "pattern_terms_ok k (PatternLinks players _ _) \<longleftrightarrow> players \<noteq> [] \<and> length players \<le> k"
| "pattern_terms_ok k (PatternNot ps) \<longleftrightarrow> ps \<noteq> [] \<and> length ps \<le> k \<and> list_all (pattern_terms_ok k) ps"
| "pattern_terms_ok k _ \<longleftrightarrow> True"

lemma check_binding_Inr [simp]: "check_binding b n = Inr u \<longleftrightarrow> b < n"
  by (simp add: check_binding_def)

lemma check_operand_Inr [simp]: "check_operand v n = Inr u \<longleftrightarrow> operand_bindings v \<subseteq> {..<n}"
  by (cases v) simp_all

lemma check_each_Inr: "fold_res (\<lambda>x _. check_binding (f x) n) xs () = Inr u \<longleftrightarrow> f ` set xs \<subseteq> {..<n}"
  by (induction xs) (auto simp: res_simps)

lemma check_players_Inr [simp]: "check_players ps n = Inr u \<longleftrightarrow> player_binding ` set ps \<subseteq> {..<n}"
  unfolding check_players_def by (rule check_each_Inr)

lemma pattern_depth_not:
  "d + pattern_depth (PatternNot ps) \<le> Suc k \<longleftrightarrow> d \<le> k \<and> (\<forall>p \<in> set ps. d + pattern_depth p \<le> k)"
proof -
  let ?m = "Max (insert 0 (pattern_depth ` set ps))"
  have "d + ?m \<le> k \<longleftrightarrow> d \<le> k \<and> ?m \<le> k - d" by arith
  also have "\<dots> \<longleftrightarrow> d \<le> k \<and> (\<forall>p \<in> set ps. pattern_depth p \<le> k - d)" by (subst Max_le_iff) auto
  also have "\<dots> \<longleftrightarrow> d \<le> k \<and> (\<forall>p \<in> set ps. d + pattern_depth p \<le> k)" by (auto simp: le_diff_conv2 add.commute)
  finally show ?thesis by simp
qed

text \<open>Inspection accepts exactly the patterns within the limits, and counts their nodes.\<close>

lemma inspect_iff:
  "inspect_pattern p depth n limits nodes = Inr nodes' \<longleftrightarrow>
     nodes' = nodes + pattern_size p \<and> nodes' \<le> limit_predicate_nodes limits
     \<and> depth + pattern_depth p \<le> Suc (limit_predicate_depth limits)
     \<and> pattern_bindings p \<subseteq> {..<n} \<and> pattern_terms_ok (limit_boolean_terms limits) p"
  "inspect_patterns ps depth n limits nodes = Inr nodes' \<longleftrightarrow>
     nodes' = nodes + sum_list (map pattern_size ps) \<and> (ps = [] \<or> nodes' \<le> limit_predicate_nodes limits)
     \<and> (\<forall>p \<in> set ps. depth + pattern_depth p \<le> Suc (limit_predicate_depth limits)
            \<and> pattern_bindings p \<subseteq> {..<n} \<and> pattern_terms_ok (limit_boolean_terms limits) p)"
proof (induction p depth n limits nodes and ps depth n limits nodes arbitrary: nodes' and nodes'
    rule: inspect_pattern_inspect_patterns.induct)
  case (1 pattern depth n limits nodes)
  show ?case
  proof (cases pattern)
    case (PatternNot ps)
    show ?thesis
    proof (cases "allows_predicate_nodes limits (nodes + 1) \<and> allows_predicate_depth limits depth
        \<and> ps \<noteq> [] \<and> length ps \<le> limit_boolean_terms limits")
      case True
      then have "inspect_pattern pattern depth n limits nodes = inspect_patterns ps (depth + 1) n limits (nodes + 1)"
        using PatternNot by simp
      with 1 [of ps nodes'] True PatternNot show ?thesis
        by (auto simp: pattern_depth_not list_all_iff allows_predicate_depth_def simp del: pattern_depth.simps)
    next
      case False
      with PatternNot show ?thesis
        by (auto simp: pattern_depth_not allows_predicate_depth_def allows_predicate_nodes_def simp del: pattern_depth.simps)
    qed
  qed (auto simp: res_simps allows_predicate_nodes_def allows_predicate_depth_def)
next
  case (3 p ps depth n limits nodes)
  define ok where "ok p \<longleftrightarrow> depth + pattern_depth p \<le> Suc (limit_predicate_depth limits)
      \<and> pattern_bindings p \<subseteq> {..<n} \<and> pattern_terms_ok (limit_boolean_terms limits) p" for p
  note first = 3(1) [folded ok_def] and rest = 3(2) [folded ok_def]
  show ?case
  proof (cases "inspect_pattern p depth n limits nodes")
    case (Inl e)
    then show ?thesis
      using first [of "nodes + pattern_size p"] unfolding inspect_patterns.simps ok_def [symmetric] by auto
  next
    case (Inr m)
    with first [of m] rest [OF Inr, of nodes'] show ?thesis
      unfolding inspect_patterns.simps Inr ok_def [symmetric] by (auto simp: add.assoc)
  qed
qed auto

section \<open>The derived capabilities\<close>

fun pattern_capabilities :: "assertion_pattern \<Rightarrow> capability_set" where
  "pattern_capabilities (PatternIsa _ subtypes _) = (if subtypes then {|CAP_ISA, CAP_ISA_SUBTYPES|} else {|CAP_ISA|})"
| "pattern_capabilities (PatternHas _ _ _) = {|CAP_HAS|}"
| "pattern_capabilities (PatternLinks _ _ _) = {|CAP_LINKS|}"
| "pattern_capabilities (PatternValue _ _ _) = {|CAP_VALUE|}"
| "pattern_capabilities (PatternNot ps) = finsert CAP_NEGATION (ffUnion (fset_of_list (map pattern_capabilities ps)))"

lemmas CAP_defs = CAP_ASSERTION_def CAP_ISA_def CAP_ISA_SUBTYPES_def CAP_HAS_def CAP_LINKS_def CAP_VALUE_def CAP_NEGATION_def

lemma cap_canonical [simp]:
  "capability_id_new CAP_ASSERTION = Inr CAP_ASSERTION" "capability_id_new CAP_ISA = Inr CAP_ISA"
  "capability_id_new CAP_ISA_SUBTYPES = Inr CAP_ISA_SUBTYPES" "capability_id_new CAP_HAS = Inr CAP_HAS"
  "capability_id_new CAP_LINKS = Inr CAP_LINKS" "capability_id_new CAP_VALUE = Inr CAP_VALUE"
  "capability_id_new CAP_NEGATION = Inr CAP_NEGATION"
  by (simp_all add: CAP_defs capability_id_new_def capability_segment_def is_ascii_lowercase_def MAX_CAPABILITY_ID_BYTES_def)

lemma collect_capabilities_eq:
  "collect_capabilities p caps = Inr (caps |\<union>| pattern_capabilities p)"
  "collect_all ps caps = Inr (caps |\<union>| ffUnion (fset_of_list (map pattern_capabilities ps)))"
proof (induction p caps and ps caps rule: collect_capabilities_collect_all.induct)
qed (auto simp: insert_capability_def)

lemma derive_capabilities_eq:
  "derive_capabilities ps = Inr (finsert CAP_ASSERTION (ffUnion (fset_of_list (map pattern_capabilities ps))))"
  by (simp add: derive_capabilities_def insert_capability_def collect_capabilities_eq)

lemma vocabulary_eq:
  "migration_assertion_capability_vocabulary
     = Inr {|CAP_NEGATION, CAP_VALUE, CAP_LINKS, CAP_HAS, CAP_ISA_SUBTYPES, CAP_ISA, CAP_ASSERTION|}"
  by (simp add: migration_assertion_capability_vocabulary_def insert_capability_def)

lemma pattern_capabilities_vocabulary:
  "pattern_capabilities p |\<subseteq>| {|CAP_NEGATION, CAP_VALUE, CAP_LINKS, CAP_HAS, CAP_ISA_SUBTYPES, CAP_ISA, CAP_ASSERTION|}"
proof (induction p)
  case (PatternNot ps)
  then have "ffUnion (fset_of_list (map pattern_capabilities ps))
      |\<subseteq>| {|CAP_NEGATION, CAP_VALUE, CAP_LINKS, CAP_HAS, CAP_ISA_SUBTYPES, CAP_ISA, CAP_ASSERTION|}"
    unfolding ffUnion_fsubset_iff by (simp add: fset_of_list.rep_eq)
  then show ?case by simp
qed auto

section \<open>Accepted plans\<close>

lemma check_bindings_iff:
  "check_bindings (List.enumerate k bs) vs = Inr u \<longleftrightarrow>
     map binding_ordinal bs = [k..<k + length bs] \<and> distinct (map binding_variable bs)
     \<and> (\<forall>b \<in> set bs. binding_variable b |\<notin>| vs)"
proof (induction bs arbitrary: k vs)
  case (Cons b bs)
  have "[k..<k + length (b # bs)] = k # [Suc k..<Suc k + length bs]" by (simp add: upt_rec)
  with Cons [of "Suc k"] show ?case by (auto simp: image_iff)
qed simp

lemma canonical_binding_set_iff:
  "canonical_binding_set bs n = Inr ordered \<longleftrightarrow> ordered = sort bs \<and> distinct bs \<and> set bs \<subseteq> {..<n}"
proof -
  have "list_ex (\<lambda>(a, b). a = b) (zip xs (tl xs)) \<longleftrightarrow> \<not> distinct xs" if "sorted xs" for xs :: "nat list"
    using that
  proof (induction xs)
    case (Cons x xs)
    then show ?case by (cases xs) force+
  qed simp
  from this [of "sort bs"] show ?thesis
    by (auto simp: canonical_binding_set_def Let_def res_simps check_each_Inr [of "\<lambda>x. x", simplified])
qed

text \<open>
  C23. The constructor of assertion plans accepts exactly the bounded, closed programs: bindings are
  the dense ordinals with distinct variables, at most 256 of them; outputs (at most 16) and hidden
  witnesses are disjoint sets of declared bindings, stored sorted; the conjunction is non-empty and
  has at most 256 terms at every level, at most 4096 nodes and negation depth at most 64, and only
  mentions declared bindings. The capabilities it records are the ones its syntax needs.
\<close>

theorem assertion_plan_new_exact:
  "assertion_plan_new bindings patterns outputs witnesses semantics expectation = Inr plan \<longleftrightarrow>
     bindings \<noteq> [] \<and> length bindings \<le> 256
     \<and> map binding_ordinal bindings = [0..<length bindings] \<and> distinct (map binding_variable bindings)
     \<and> distinct outputs \<and> set outputs \<subseteq> {..<length bindings} \<and> length outputs \<le> 16
     \<and> distinct witnesses \<and> set witnesses \<subseteq> {..<length bindings} \<and> set outputs \<inter> set witnesses = {}
     \<and> patterns \<noteq> [] \<and> length patterns \<le> 256 \<and> sum_list (map pattern_size patterns) \<le> 4096
     \<and> list_all (\<lambda>p. pattern_depth p \<le> 64 \<and> pattern_bindings p \<subseteq> {..<length bindings} \<and> pattern_terms_ok 256 p) patterns
     \<and> plan = \<lparr>assertion_bindings = bindings, assertion_expectation_of = expectation, assertion_format = 1,
         assertion_managed_semantics = semantics, assertion_outputs = sort outputs, assertion_patterns = patterns,
         assertion_required_capabilities = finsert CAP_ASSERTION (ffUnion (fset_of_list (map pattern_capabilities patterns))),
         assertion_witnesses = sort witnesses\<rparr>"
proof -
  have disjoint: "\<not> list_ex (\<lambda>i. i \<in> set (sort witnesses)) (sort outputs) \<longleftrightarrow> set outputs \<inter> set witnesses = {}"
    by (auto simp: list_ex_iff)
  show ?thesis
    unfolding assertion_plan_new_def assertion_plan_new_with_limits_def bind_res_eq_Inr ensure_eq_Inr
      check_bindings_iff canonical_binding_set_iff inspect_iff derive_capabilities_eq
    by (simp add: CANONICAL_LIMITS_def MAX_BINDINGS_def allows_bindings_def allows_selected_slots_def
        list_all_iff disjoint [simplified]) auto
qed

lemma assertion_capabilities_vocabulary:
  assumes "assertion_plan_new bindings patterns outputs witnesses semantics expectation = Inr plan"
    and "migration_assertion_capability_vocabulary = Inr vocabulary"
  shows "assertion_required_capabilities plan |\<subseteq>| vocabulary"
proof -
  have "assertion_required_capabilities plan = finsert CAP_ASSERTION (ffUnion (fset_of_list (map pattern_capabilities patterns)))"
    using assms(1) unfolding assertion_plan_new_def assertion_plan_new_with_limits_def bind_res_eq_Inr derive_capabilities_eq by auto
  moreover have "ffUnion (fset_of_list (map pattern_capabilities patterns)) |\<subseteq>| vocabulary"
    unfolding ffUnion_fsubset_iff using assms(2) pattern_capabilities_vocabulary
    by (auto simp: fset_of_list.rep_eq vocabulary_eq simp del: finsert_iff)
  ultimately show ?thesis using assms(2) by (auto simp: vocabulary_eq)
qed

end
