(* ===== verification/Migration_Steps.thy ===== *)
theory Migration_Steps
  imports Schema_Ops Assertion_Plans
begin

text \<open>
  Migration identities and the context-free steps of \<open>contract/src/migration.rs\<close>: portable identity
  components, the compound migration id with its derived order, and the three kinds of step with
  the contracts derived from their payload. Fingerprints hash canonical JSON with SHA-256; the
  functions of \<open>step_digests\<close> stand for them.
\<close>

section \<open>Identities\<close>

definition MAX_MIGRATION_COMPONENT_BYTES :: nat where
  "MAX_MIGRATION_COMPONENT_BYTES = 255"

definition validate_component :: "string \<Rightarrow> bool \<Rightarrow> string res" where
  "validate_component value allow_leading_digit =
     (let valid_first = (case value of [] \<Rightarrow> False
            | b # _ \<Rightarrow> is_ascii_lowercase b \<or> (allow_leading_digit \<and> is_ascii_digit b));
          valid_rest = list_all (\<lambda>b. is_ascii_lowercase b \<or> is_ascii_digit b \<or> b \<in> set ''_-'') (tl value) in
      if length value \<le> MAX_MIGRATION_COMPONENT_BYTES \<and> valid_first \<and> valid_rest then Inr value
      else Inl (invalid_contract ''invalid_migration_identity_component''))"

definition migration_app_label_new :: "string \<Rightarrow> string res" where
  "migration_app_label_new value = validate_component value False"

definition migration_name_new :: "string \<Rightarrow> string res" where
  "migration_name_new value = validate_component value True"

definition migration_step_id_new :: "string \<Rightarrow> string res" where
  "migration_step_id_new value = validate_component value False"

datatype migration_id = MigrationId (migration_app_label: string) (migration_name: string)

definition migration_id_new :: "string \<Rightarrow> string \<Rightarrow> migration_id res" where
  "migration_id_new app_label name =
     bind_res (migration_app_label_new app_label) (\<lambda>a.
     bind_res (migration_name_new name) (\<lambda>n. Inr (MigrationId a n)))"

fun migration_id_key :: "migration_id \<Rightarrow> string list" where
  "migration_id_key (MigrationId a n) = [a, n]"

lemma migration_id_key_inj [simp]: "migration_id_key a = migration_id_key b \<longleftrightarrow> a = b"
  by (cases a; cases b) simp

instantiation migration_id :: linorder
begin

definition less_eq_migration_id :: "migration_id \<Rightarrow> migration_id \<Rightarrow> bool" where
  "less_eq_migration_id a b \<longleftrightarrow> migration_id_key a \<le> migration_id_key b"

definition less_migration_id :: "migration_id \<Rightarrow> migration_id \<Rightarrow> bool" where
  "less_migration_id a b \<longleftrightarrow> migration_id_key a < migration_id_key b"

instance
  by standard (auto simp: less_eq_migration_id_def less_migration_id_def less_le_not_le dest: order_antisym)

end

definition MIGRATION_FORMAT_V1 :: string where
  "MIGRATION_FORMAT_V1 = ''typebridge.migration/v1''"

definition migration_format_new :: "string \<Rightarrow> unit res" where
  "migration_format_new value =
     (if value = MIGRATION_FORMAT_V1 then Inr () else Inl (invalid_contract ''unsupported_migration_format''))"

section \<open>Step contracts\<close>

datatype retry_policy = RetryNever

datatype recovery_policy = OperatorRequired

datatype migration_step_kind = KindSchemaDelta | KindAssertion | KindBackfill

record step_digests =
  delta_digest :: "schema_delta \<Rightarrow> fingerprint res"
  assertion_digest :: "migration_assertion_plan \<Rightarrow> fingerprint res"
  backfill_digest :: "attribute_backfill_plan \<Rightarrow> fingerprint res"

record backfill_step_contract =
  backfill_step_id :: string
  backfill_step_plan_fingerprint :: fingerprint
  backfill_step_recovery :: recovery_policy
  backfill_step_capabilities :: capability_set
  backfill_step_retry :: retry_policy
  backfill_step_reverse :: "backfill_reverse_program option"
  backfill_step_source_semantics :: fingerprint
  backfill_step_target_semantics :: fingerprint

definition backfill_contract_derive :: "step_digests \<Rightarrow> string \<Rightarrow> attribute_backfill_plan \<Rightarrow> backfill_step_contract res" where
  "backfill_contract_derive digests i plan =
     bind_res (backfill_digest digests plan) (\<lambda>fp.
       Inr \<lparr>backfill_step_id = i, backfill_step_plan_fingerprint = fp, backfill_step_recovery = OperatorRequired,
            backfill_step_capabilities = backfill_required_capabilities plan, backfill_step_retry = RetryNever,
            backfill_step_reverse = backfill_reverse plan,
            backfill_step_source_semantics = backfill_managed_semantics plan,
            backfill_step_target_semantics = backfill_managed_semantics plan\<rparr>)"

record schema_delta_step_contract =
  delta_step_fingerprint :: fingerprint
  delta_step_id :: string
  delta_step_recovery :: recovery_policy
  delta_step_capabilities :: capability_set
  delta_step_retry :: retry_policy
  delta_step_reverse :: "schema_delta option"
  delta_step_source_semantics :: fingerprint
  delta_step_target_semantics :: fingerprint

definition check_reverse :: "schema_delta \<Rightarrow> schema_delta option \<Rightarrow> unit panicking" where
  "check_reverse delta reverse =
     (case reverse of
        None \<Rightarrow> Some (Inr ())
      | Some candidate \<Rightarrow>
          bind_panicking (inverse_delta delta) (\<lambda>expected.
            if candidate \<noteq> expected then Some (Inl (invalid_contract ''schema_delta_step_inverse_mismatch''))
            else Some (Inr ())))"

definition delta_contract_new :: "step_digests \<Rightarrow> string \<Rightarrow> schema_delta \<Rightarrow> schema_delta option \<Rightarrow>
    schema_delta_step_contract panicking" where
  "delta_contract_new digests i delta reverse =
     bind_panicking (check_reverse delta reverse) (\<lambda>_.
     bind_panicking (Some (delta_digest digests delta)) (\<lambda>fp.
       Some (Inr \<lparr>delta_step_fingerprint = fp, delta_step_id = i, delta_step_recovery = OperatorRequired,
            delta_step_capabilities = delta_required_capabilities delta, delta_step_retry = RetryNever,
            delta_step_reverse = reverse,
            delta_step_source_semantics = state_managed_semantic_schema (delta_source delta),
            delta_step_target_semantics = state_managed_semantic_schema (delta_target delta)\<rparr>)))"

record schema_delta_step =
  delta_step_contract :: schema_delta_step_contract
  delta_step_delta :: schema_delta
  delta_step_kind :: migration_step_kind

definition schema_delta_step_new :: "step_digests \<Rightarrow> string \<Rightarrow> schema_delta \<Rightarrow> schema_delta option \<Rightarrow>
    schema_delta_step panicking" where
  "schema_delta_step_new digests i delta reverse =
     bind_panicking (delta_contract_new digests i delta reverse) (\<lambda>contract.
       Some (Inr \<lparr>delta_step_contract = contract, delta_step_delta = delta, delta_step_kind = KindSchemaDelta\<rparr>))"

definition CONDITIONAL_RESOLUTION_CAPABILITY :: string where
  "CONDITIONAL_RESOLUTION_CAPABILITY = ''migration.conditional-resolution''"

record assertion_step_contract =
  assertion_step_id :: string
  assertion_step_plan_fingerprint :: fingerprint
  assertion_step_recovery :: recovery_policy
  assertion_step_capabilities :: capability_set
  assertion_step_retry :: retry_policy
  assertion_step_source_semantics :: fingerprint
  assertion_step_target_semantics :: fingerprint

definition assertion_contract_derive :: "step_digests \<Rightarrow> string \<Rightarrow> migration_assertion_plan \<Rightarrow> assertion_expectation \<Rightarrow>
    assertion_step_contract res" where
  "assertion_contract_derive digests i plan expected =
     (if expected \<noteq> NoRows \<or> assertion_expectation_of plan \<noteq> NoRows
      then Inl (invalid_contract ''migration_assertion_step_expectation_mismatch'')
      else bind_res (assertion_digest digests plan) (\<lambda>fp.
        Inr \<lparr>assertion_step_id = i, assertion_step_plan_fingerprint = fp, assertion_step_recovery = OperatorRequired,
             assertion_step_capabilities = finsert CONDITIONAL_RESOLUTION_CAPABILITY (assertion_required_capabilities plan),
             assertion_step_retry = RetryNever,
             assertion_step_source_semantics = assertion_managed_semantics plan,
             assertion_step_target_semantics = assertion_managed_semantics plan\<rparr>))"

section \<open>Steps\<close>

datatype migration_step =
    StepSchemaDelta schema_delta_step
  | StepAssertion assertion_step_contract migration_assertion_plan assertion_expectation
  | StepBackfill backfill_step_contract attribute_backfill_plan

definition step_backfill :: "step_digests \<Rightarrow> string \<Rightarrow> attribute_backfill_plan \<Rightarrow> migration_step res" where
  "step_backfill digests i plan =
     bind_res (backfill_contract_derive digests i plan) (\<lambda>contract. Inr (StepBackfill contract plan))"

definition step_assertion :: "step_digests \<Rightarrow> string \<Rightarrow> migration_assertion_plan \<Rightarrow> assertion_expectation \<Rightarrow> migration_step res" where
  "step_assertion digests i plan expected =
     bind_res (assertion_contract_derive digests i plan expected) (\<lambda>contract. Inr (StepAssertion contract plan expected))"

fun step_kind :: "migration_step \<Rightarrow> migration_step_kind" where
  "step_kind (StepSchemaDelta _) = KindSchemaDelta"
| "step_kind (StepAssertion _ _ _) = KindAssertion"
| "step_kind (StepBackfill _ _) = KindBackfill"

fun step_id :: "migration_step \<Rightarrow> string" where
  "step_id (StepSchemaDelta step) = delta_step_id (delta_step_contract step)"
| "step_id (StepAssertion contract _ _) = assertion_step_id contract"
| "step_id (StepBackfill contract _) = backfill_step_id contract"

fun step_required_capabilities :: "migration_step \<Rightarrow> capability_set" where
  "step_required_capabilities (StepSchemaDelta step) = delta_step_capabilities (delta_step_contract step)"
| "step_required_capabilities (StepAssertion contract _ _) = assertion_step_capabilities contract"
| "step_required_capabilities (StepBackfill contract _) = backfill_step_capabilities contract"

fun as_schema_delta :: "migration_step \<Rightarrow> schema_delta_step option" where
  "as_schema_delta (StepSchemaDelta step) = Some step"
| "as_schema_delta _ = None"

fun as_assertion :: "migration_step \<Rightarrow> (assertion_step_contract \<times> migration_assertion_plan \<times> assertion_expectation) option" where
  "as_assertion (StepAssertion contract plan expected) = Some (contract, plan, expected)"
| "as_assertion _ = None"

fun as_backfill :: "migration_step \<Rightarrow> (backfill_step_contract \<times> attribute_backfill_plan) option" where
  "as_backfill (StepBackfill contract plan) = Some (contract, plan)"
| "as_backfill _ = None"

fun rebuild_step :: "step_digests \<Rightarrow> migration_step \<Rightarrow> migration_step panicking" where
  "rebuild_step digests (StepSchemaDelta step) =
     bind_panicking (schema_delta_step_new digests (delta_step_id (delta_step_contract step)) (delta_step_delta step)
         (delta_step_reverse (delta_step_contract step)))
       (\<lambda>rebuilt. Some (Inr (StepSchemaDelta rebuilt)))"
| "rebuild_step digests (StepAssertion contract plan expected) =
     Some (step_assertion digests (assertion_step_id contract) plan expected)"
| "rebuild_step digests (StepBackfill contract plan) =
     Some (step_backfill digests (backfill_step_id contract) plan)"

definition step_validate :: "step_digests \<Rightarrow> migration_step \<Rightarrow> unit panicking" where
  "step_validate digests step =
     bind_panicking (rebuild_step digests step) (\<lambda>rebuilt.
       if rebuilt \<noteq> step then Some (Inl (Diagnostic Integrity ''migration_step_contract_mismatch''))
       else Some (Inr ()))"

section \<open>Validated steps\<close>

text \<open>
  C38. Validation accepts exactly the steps the constructors build: a step that any of the three
  constructors returns is accepted, and an accepted step is the result of its constructor on its own
  identity, payload and expectation. A step with an altered fingerprint, policy, capability or
  semantics claim is therefore refused.
\<close>

theorem step_validate_iff_constructed:
  "step_validate digests step = Some (Inr ()) \<longleftrightarrow>
     (\<exists>i delta reverse built. schema_delta_step_new digests i delta reverse = Some (Inr built) \<and> step = StepSchemaDelta built)
     \<or> (\<exists>i plan expected. step_assertion digests i plan expected = Inr step)
     \<or> (\<exists>i plan. step_backfill digests i plan = Inr step)"
proof -
  have accepted: "step_validate digests step = Some (Inr ()) \<longleftrightarrow> rebuild_step digests step = Some (Inr step)"
    by (auto simp: step_validate_def res_simps)
  have delta: "delta_step_id (delta_step_contract built) = i \<and> delta_step_delta built = delta
      \<and> delta_step_reverse (delta_step_contract built) = reverse"
    if "schema_delta_step_new digests i delta reverse = Some (Inr built)" for i delta reverse built
    using that by (auto simp: schema_delta_step_new_def delta_contract_new_def res_simps)
  have assertion: "\<exists>c. step = StepAssertion c plan expected \<and> assertion_step_id c = i"
    if "step_assertion digests i plan expected = Inr step" for i plan expected
    using that by (auto simp: step_assertion_def assertion_contract_derive_def res_simps split: if_splits)
  have backfill: "\<exists>c. step = StepBackfill c plan \<and> backfill_step_id c = i"
    if "step_backfill digests i plan = Inr step" for i plan
    using that by (auto simp: step_backfill_def backfill_contract_derive_def res_simps)
  show ?thesis unfolding accepted
  proof
    assume "rebuild_step digests step = Some (Inr step)"
    then show "(\<exists>i delta reverse built. schema_delta_step_new digests i delta reverse = Some (Inr built) \<and> step = StepSchemaDelta built)
      \<or> (\<exists>i plan expected. step_assertion digests i plan expected = Inr step)
      \<or> (\<exists>i plan. step_backfill digests i plan = Inr step)"
      by (cases step) (auto simp: res_simps)
  next
    assume "(\<exists>i delta reverse built. schema_delta_step_new digests i delta reverse = Some (Inr built) \<and> step = StepSchemaDelta built)
      \<or> (\<exists>i plan expected. step_assertion digests i plan expected = Inr step)
      \<or> (\<exists>i plan. step_backfill digests i plan = Inr step)"
    then show "rebuild_step digests step = Some (Inr step)"
      using delta assertion backfill by fastforce
  qed
qed

end
