(* ===== verification/Lowering_Profile.thy ===== *)
theory Lowering_Profile
  imports Delta_Safety
begin

text \<open>
  The transition registry of \<open>schema-migration/src/profile.rs\<close>: the mechanism, safety class and
  capabilities of every fact and annotation transition, the classification of an operation that
  lowering uses, and the safety gate of \<open>schema-migration/src/lowering.rs\<close>. The registry restates
  the classification of \<open>Delta_Safety\<close> in another form; the two are compared below.
\<close>

section \<open>Registry rules\<close>

datatype fact_kind =
    FactKindType | FactKindSub | FactKindValue | FactKindOwns | FactKindRelates | FactKindRelatesSpecialization
  | FactKindPlays | FactKindFunction | FactKindStruct

datatype annotation_subject_kind =
    SubjectType | SubjectSub | SubjectValue | SubjectOwns | SubjectRelates | SubjectPlays | SubjectFunction | SubjectStruct

datatype annotation_rule_kind =
    RuleAbstract | RuleIndependent | RuleKey | RuleUnique | RuleCard | RuleRegex | RuleRange | RuleValues | RuleDoc | RuleMeta

datatype lowering_mechanism = LowerDefine | LowerUndefine | LowerRedefine | LowerAtomicUndefineDefine | LowerUnsupported

record transition_rule =
  rule_mechanism :: lowering_mechanism
  rule_safety :: safety_class
  rule_required_capabilities :: capability_set
  rule_keyed_meta :: bool

definition SCHEMA_TRANSITION_CAPABILITY_IDS :: "string list" where
  "SCHEMA_TRANSITION_CAPABILITY_IDS =
     [''schema.transaction.atomic'', ''schema.transition.define'', ''schema.transition.undefine'',
      ''schema.transition.redefine.sub'', ''schema.transition.redefine.value'',
      ''schema.transition.redefine.relates.specialization'', ''schema.transition.redefine.annotation'',
      ''schema.transition.redefine.function'', ''schema.transition.replace.sub.annotation'']"

definition schema_transition_capability_vocabulary :: capability_set where
  "schema_transition_capability_vocabulary = fset_of_list SCHEMA_TRANSITION_CAPABILITY_IDS"

definition CAP_TRANSACTION_ATOMIC :: string where "CAP_TRANSACTION_ATOMIC = SCHEMA_TRANSITION_CAPABILITY_IDS ! 0"
definition CAP_DEFINE :: string where "CAP_DEFINE = SCHEMA_TRANSITION_CAPABILITY_IDS ! 1"
definition CAP_UNDEFINE :: string where "CAP_UNDEFINE = SCHEMA_TRANSITION_CAPABILITY_IDS ! 2"
definition CAP_REDEFINE_SUB :: string where "CAP_REDEFINE_SUB = SCHEMA_TRANSITION_CAPABILITY_IDS ! 3"
definition CAP_REDEFINE_VALUE :: string where "CAP_REDEFINE_VALUE = SCHEMA_TRANSITION_CAPABILITY_IDS ! 4"
definition CAP_REDEFINE_RELATES_SPECIALIZATION :: string where
  "CAP_REDEFINE_RELATES_SPECIALIZATION = SCHEMA_TRANSITION_CAPABILITY_IDS ! 5"
definition CAP_REDEFINE_ANNOTATION :: string where "CAP_REDEFINE_ANNOTATION = SCHEMA_TRANSITION_CAPABILITY_IDS ! 6"
definition CAP_REDEFINE_FUNCTION :: string where "CAP_REDEFINE_FUNCTION = SCHEMA_TRANSITION_CAPABILITY_IDS ! 7"
definition CAP_REPLACE_SUB_ANNOTATION :: string where "CAP_REPLACE_SUB_ANNOTATION = SCHEMA_TRANSITION_CAPABILITY_IDS ! 8"

definition transition_rule_new :: "lowering_mechanism \<Rightarrow> safety_class \<Rightarrow> string list \<Rightarrow> bool \<Rightarrow> transition_rule" where
  "transition_rule_new mechanism safety required keyed_meta =
     \<lparr>rule_mechanism = mechanism, rule_safety = safety, rule_required_capabilities = fset_of_list required,
      rule_keyed_meta = keyed_meta\<rparr>"

definition rule_unsupported :: "bool \<Rightarrow> transition_rule" where
  "rule_unsupported keyed_meta = transition_rule_new LowerUnsupported Unsupported [] keyed_meta"

definition rule_define :: "safety_class \<Rightarrow> bool \<Rightarrow> transition_rule" where
  "rule_define safety keyed_meta = transition_rule_new LowerDefine safety [CAP_DEFINE] keyed_meta"

definition rule_undefine :: "safety_class \<Rightarrow> bool \<Rightarrow> transition_rule" where
  "rule_undefine safety keyed_meta = transition_rule_new LowerUndefine safety [CAP_UNDEFINE] keyed_meta"

definition rule_redefine :: "safety_class \<Rightarrow> string \<Rightarrow> bool \<Rightarrow> transition_rule" where
  "rule_redefine safety capability keyed_meta = transition_rule_new LowerRedefine safety [capability] keyed_meta"

fun fact_transition_rule :: "fact_kind \<Rightarrow> fact_transition \<Rightarrow> transition_rule" where
  "fact_transition_rule FactKindType TransitionDefine = rule_define Additive False"
| "fact_transition_rule FactKindType TransitionUndefine = rule_undefine Destructive False"
| "fact_transition_rule FactKindType TransitionRedefine = rule_unsupported False"
| "fact_transition_rule FactKindSub TransitionDefine = rule_define Conditional False"
| "fact_transition_rule FactKindSub TransitionUndefine = rule_undefine Destructive False"
| "fact_transition_rule FactKindSub TransitionRedefine = rule_redefine Conditional CAP_REDEFINE_SUB False"
| "fact_transition_rule FactKindValue TransitionDefine = rule_define Additive False"
| "fact_transition_rule FactKindValue TransitionUndefine = rule_undefine Destructive False"
| "fact_transition_rule FactKindValue TransitionRedefine = rule_redefine Destructive CAP_REDEFINE_VALUE False"
| "fact_transition_rule FactKindOwns TransitionDefine = rule_define Additive False"
| "fact_transition_rule FactKindRelates TransitionDefine = rule_define Additive False"
| "fact_transition_rule FactKindPlays TransitionDefine = rule_define Additive False"
| "fact_transition_rule FactKindOwns TransitionUndefine = rule_undefine Destructive False"
| "fact_transition_rule FactKindRelates TransitionUndefine = rule_undefine Destructive False"
| "fact_transition_rule FactKindPlays TransitionUndefine = rule_undefine Destructive False"
| "fact_transition_rule FactKindOwns TransitionRedefine = rule_unsupported False"
| "fact_transition_rule FactKindRelates TransitionRedefine = rule_unsupported False"
| "fact_transition_rule FactKindPlays TransitionRedefine = rule_unsupported False"
| "fact_transition_rule FactKindRelatesSpecialization TransitionDefine = rule_define Conditional False"
| "fact_transition_rule FactKindRelatesSpecialization TransitionUndefine = rule_undefine Conditional False"
| "fact_transition_rule FactKindRelatesSpecialization TransitionRedefine =
     rule_redefine Conditional CAP_REDEFINE_RELATES_SPECIALIZATION False"
| "fact_transition_rule FactKindFunction TransitionDefine = rule_define Additive False"
| "fact_transition_rule FactKindFunction TransitionUndefine = rule_undefine Destructive False"
| "fact_transition_rule FactKindFunction TransitionRedefine = rule_redefine Opaque CAP_REDEFINE_FUNCTION False"
| "fact_transition_rule FactKindStruct _ = rule_unsupported False"

fun annotation_is_supported :: "annotation_subject_kind \<Rightarrow> annotation_rule_kind \<Rightarrow> bool" where
  "annotation_is_supported SubjectType k \<longleftrightarrow> k \<in> {RuleAbstract, RuleIndependent, RuleDoc, RuleMeta}"
| "annotation_is_supported SubjectSub k \<longleftrightarrow> k \<in> {RuleDoc, RuleMeta}"
| "annotation_is_supported SubjectValue k \<longleftrightarrow> k \<in> {RuleRegex, RuleRange, RuleValues, RuleDoc, RuleMeta}"
| "annotation_is_supported SubjectOwns k \<longleftrightarrow>
     k \<in> {RuleKey, RuleUnique, RuleCard, RuleRegex, RuleRange, RuleValues, RuleDoc, RuleMeta}"
| "annotation_is_supported SubjectRelates k \<longleftrightarrow> k \<in> {RuleAbstract, RuleCard, RuleDoc, RuleMeta}"
| "annotation_is_supported SubjectPlays k \<longleftrightarrow> k \<in> {RuleCard, RuleDoc, RuleMeta}"
| "annotation_is_supported SubjectFunction k \<longleftrightarrow> False"
| "annotation_is_supported SubjectStruct k \<longleftrightarrow> False"

definition annotation_transition_rule ::
  "annotation_subject_kind \<Rightarrow> annotation_rule_kind \<Rightarrow> annotation_transition \<Rightarrow> transition_rule" where
  "annotation_transition_rule subject annotation transition =
     (let keyed_meta = (annotation = RuleMeta) in
      if \<not> annotation_is_supported subject annotation then rule_unsupported keyed_meta
      else if subject = SubjectSub then
        (case transition of
           AnnotationAdd \<Rightarrow> rule_define SchemaMetadata keyed_meta
         | AnnotationChange \<Rightarrow> transition_rule_new LowerAtomicUndefineDefine SchemaMetadata
             [CAP_TRANSACTION_ATOMIC, CAP_UNDEFINE, CAP_DEFINE, CAP_REPLACE_SUB_ANNOTATION] keyed_meta
         | AnnotationRemove \<Rightarrow> rule_undefine SchemaMetadata keyed_meta)
      else if annotation \<in> {RuleDoc, RuleMeta} then
        (case transition of
           AnnotationAdd \<Rightarrow> rule_define SchemaMetadata keyed_meta
         | AnnotationChange \<Rightarrow> rule_redefine SchemaMetadata CAP_REDEFINE_ANNOTATION keyed_meta
         | AnnotationRemove \<Rightarrow> rule_undefine SchemaMetadata keyed_meta)
      else if annotation \<in> {RuleAbstract, RuleIndependent, RuleKey, RuleUnique} then
        (case transition of
           AnnotationChange \<Rightarrow> rule_unsupported keyed_meta
         | AnnotationAdd \<Rightarrow>
             rule_define (if annotation = RuleAbstract then Conditional
                          else if annotation = RuleIndependent then Additive else BackfillRequired) keyed_meta
         | AnnotationRemove \<Rightarrow>
             rule_undefine (if annotation = RuleIndependent then Destructive else Additive) keyed_meta)
      else if annotation = RuleCard then
        (case transition of
           AnnotationAdd \<Rightarrow> rule_define Conditional keyed_meta
         | AnnotationChange \<Rightarrow> rule_redefine Conditional CAP_REDEFINE_ANNOTATION keyed_meta
         | AnnotationRemove \<Rightarrow> rule_undefine Conditional keyed_meta)
      else
        (case transition of
           AnnotationAdd \<Rightarrow> rule_define Conditional keyed_meta
         | AnnotationChange \<Rightarrow> rule_redefine Conditional CAP_REDEFINE_ANNOTATION keyed_meta
         | AnnotationRemove \<Rightarrow> rule_undefine Additive keyed_meta))"

section \<open>The classification used by lowering\<close>

fun fact_kind_of :: "schema_fact \<Rightarrow> fact_kind option" where
  "fact_kind_of (FactType _) = Some FactKindType"
| "fact_kind_of (FactSub _) = Some FactKindSub"
| "fact_kind_of (FactValue _) = Some FactKindValue"
| "fact_kind_of (FactOwns _) = Some FactKindOwns"
| "fact_kind_of (FactRelates _) = Some FactKindRelates"
| "fact_kind_of (FactPlays _) = Some FactKindPlays"
| "fact_kind_of (FactAnnotation _) = None"
| "fact_kind_of (FactFunction _) = Some FactKindFunction"
| "fact_kind_of (FactStruct _) = Some FactKindStruct"

fun annotation_subject_kind_of :: "annotation_subject_id \<Rightarrow> annotation_subject_kind" where
  "annotation_subject_kind_of (OnType _) = SubjectType"
| "annotation_subject_kind_of (OnSub _) = SubjectSub"
| "annotation_subject_kind_of (OnValue _) = SubjectValue"
| "annotation_subject_kind_of (OnOwns _) = SubjectOwns"
| "annotation_subject_kind_of (OnRelates _) = SubjectRelates"
| "annotation_subject_kind_of (OnPlays _) = SubjectPlays"
| "annotation_subject_kind_of (OnFunction _) = SubjectFunction"

fun annotation_rule_kind_of :: "annotation_kind_id \<Rightarrow> annotation_rule_kind option" where
  "annotation_rule_kind_of Abstract = Some RuleAbstract"
| "annotation_rule_kind_of Independent = Some RuleIndependent"
| "annotation_rule_kind_of Key = Some RuleKey"
| "annotation_rule_kind_of Unique = Some RuleUnique"
| "annotation_rule_kind_of Distinct = None"
| "annotation_rule_kind_of Card = Some RuleCard"
| "annotation_rule_kind_of Regex = Some RuleRegex"
| "annotation_rule_kind_of Range = Some RuleRange"
| "annotation_rule_kind_of Values = Some RuleValues"
| "annotation_rule_kind_of Doc = Some RuleDoc"
| "annotation_rule_kind_of (Meta _) = Some RuleMeta"

definition INTERFACE_DEFAULTS :: "(interface_kind \<times> interval) list" where
  "INTERFACE_DEFAULTS =
     [(InterfaceOwns, (0, Some 1)), (InterfaceRelates, (0, Some 1)), (InterfacePlays, (0, None))]"

definition registry_default_cardinality :: "annotation_subject_id \<Rightarrow> interval option" where
  "registry_default_cardinality subject = Option.bind (interface_of subject) (map_of INTERFACE_DEFAULTS)"

definition rule_annotation :: "annotation_fact \<Rightarrow> annotation_transition \<Rightarrow> annotation_fact option \<Rightarrow> transition_rule option" where
  "rule_annotation a tr expected =
     (let subject = annotation_subject (annotation_fact_id_of a); kind = annotation_kind (annotation_fact_id_of a) in
      if kind = Distinct then Some (rule_unsupported False)
      else Option.bind (annotation_rule_kind_of kind) (\<lambda>k.
        let rule = annotation_transition_rule (annotation_subject_kind_of subject) k tr in
        case (k, annotation_cardinality a, registry_default_cardinality subject) of
          (RuleCard, Some target, Some dflt) \<Rightarrow>
            (case tr of
               AnnotationAdd \<Rightarrow> Some (rule\<lparr>rule_safety := cardinality_transition_safety dflt target\<rparr>)
             | AnnotationChange \<Rightarrow>
                 (case Option.bind expected annotation_cardinality of
                    None \<Rightarrow> Some rule
                  | Some source \<Rightarrow> Some (rule\<lparr>rule_safety := cardinality_transition_safety source target\<rparr>))
             | AnnotationRemove \<Rightarrow> Some (rule\<lparr>rule_safety := cardinality_transition_safety target dflt\<rparr>))
        | _ \<Rightarrow> Some rule))"

fun rule_defined_fact :: "schema_fact \<Rightarrow> function_id list \<Rightarrow> transition_rule option" where
  "rule_defined_fact (FactRelates r) functions =
     (if relates_specializes r \<noteq> None
      then Some (fact_transition_rule FactKindRelatesSpecialization TransitionDefine)
      else Some (fact_transition_rule FactKindRelates TransitionDefine))"
| "rule_defined_fact (FactAnnotation a) functions =
     (case annotation_subject (annotation_fact_id_of a) of
        OnFunction f \<Rightarrow>
          if f \<in> set functions \<and> is_metadata_kind (annotation_kind (annotation_fact_id_of a))
          then Some (rule_define SchemaMetadata False)
          else rule_annotation a AnnotationAdd None
      | _ \<Rightarrow> rule_annotation a AnnotationAdd None)"
| "rule_defined_fact f functions = map_option (\<lambda>k. fact_transition_rule k TransitionDefine) (fact_kind_of f)"

fun rule_undefined_fact :: "schema_fact \<Rightarrow> transition_rule option" where
  "rule_undefined_fact (FactAnnotation a) = rule_annotation a AnnotationRemove None"
| "rule_undefined_fact f = map_option (\<lambda>k. fact_transition_rule k TransitionUndefine) (fact_kind_of f)"

definition rule_redefinition :: "schema_fact \<Rightarrow> schema_fact \<Rightarrow> (safety_classification_error + transition_rule) option" where
  "rule_redefinition expected replacement =
     (case (expected, replacement) of
        (FactRelates old, FactRelates new) \<Rightarrow>
          Some
            (case (relates_specializes old, relates_specializes new) of
               (None, Some _) \<Rightarrow> Inr (fact_transition_rule FactKindRelatesSpecialization TransitionDefine)
             | (Some _, None) \<Rightarrow> Inr (fact_transition_rule FactKindRelatesSpecialization TransitionUndefine)
             | (Some _, Some _) \<Rightarrow> Inr (fact_transition_rule FactKindRelatesSpecialization TransitionRedefine)
             | (None, None) \<Rightarrow> Inl UnchangedRelatesSpecialization)
      | (FactAnnotation old, FactAnnotation new) \<Rightarrow> map_option Inr (rule_annotation new AnnotationChange (Some old))
      | (left, right) \<Rightarrow>
          if fact_discriminant left = fact_discriminant right
          then map_option (\<lambda>k. Inr (fact_transition_rule k TransitionRedefine)) (fact_kind_of right)
          else Some (Inl RedefinitionCategoryChanged))"

record operation_transition =
  transition_safety :: safety_class
  transition_atomic :: bool
  transition_capabilities :: capability_set

definition combine_rule :: "transition_rule \<Rightarrow> operation_transition \<Rightarrow> operation_transition" where
  "combine_rule rule acc =
     \<lparr>transition_safety = (if safety_rank (transition_safety acc) < safety_rank (rule_safety rule)
                           then rule_safety rule else transition_safety acc),
      transition_atomic = (transition_atomic acc \<or> rule_mechanism rule = LowerAtomicUndefineDefine),
      transition_capabilities = transition_capabilities acc |\<union>| rule_required_capabilities rule\<rparr>"

definition combine_rules :: "transition_rule list \<Rightarrow> operation_transition" where
  "combine_rules rules =
     fold combine_rule rules \<lparr>transition_safety = FormalOnly, transition_atomic = False, transition_capabilities = {||}\<rparr>"

fun classify_operation_transition :: "schema_operation \<Rightarrow> (safety_classification_error + operation_transition) option" where
  "classify_operation_transition (Define facts) =
     map_option (\<lambda>rules. Inr (combine_rules rules))
       (those (map (\<lambda>f. rule_defined_fact f (defined_functions facts)) facts))"
| "classify_operation_transition (Redefine expected replacement) =
     map_option (map_sum id (\<lambda>rule. combine_rules [rule])) (rule_redefinition expected replacement)"
| "classify_operation_transition (Undefine f) =
     map_option (\<lambda>rule. Inr (combine_rules [rule])) (rule_undefined_fact f)"

section \<open>The lowering gate\<close>

datatype lowering_error =
    InvalidTransition | RequiresAssertion | RequiresBackfill | DestructiveRequiresApproval | OpaqueTransition | UnsupportedTransition

definition gate_safety :: "safety_class \<Rightarrow> bool \<Rightarrow> bool \<Rightarrow> lowering_error + unit" where
  "gate_safety safety verifier_resolved destructive_approved =
     (if verifier_resolved \<and> safety \<noteq> Conditional \<and> safety \<noteq> BackfillRequired then Inl InvalidTransition
      else
        (case safety of
           FormalOnly \<Rightarrow> Inr ()
         | SchemaMetadata \<Rightarrow> Inr ()
         | Additive \<Rightarrow> Inr ()
         | Conditional \<Rightarrow> if verifier_resolved then Inr () else Inl RequiresAssertion
         | BackfillRequired \<Rightarrow> if verifier_resolved then Inr () else Inl RequiresBackfill
         | Destructive \<Rightarrow> if destructive_approved then Inr () else Inl DestructiveRequiresApproval
         | Opaque \<Rightarrow> Inl OpaqueTransition
         | Unsupported \<Rightarrow> Inl UnsupportedTransition))"

section \<open>The registry agrees with the schema classifier\<close>

lemma rule_safety_simps [simp]:
  "rule_safety (rule_unsupported b) = Unsupported" "rule_safety (rule_define c b) = c"
  "rule_safety (rule_undefine c b) = c" "rule_safety (rule_redefine c cap b) = c"
  "rule_safety (transition_rule_new m c caps b) = c"
  by (simp_all add: rule_unsupported_def rule_define_def rule_undefine_def rule_redefine_def transition_rule_new_def)

lemma registry_default_eq: "registry_default_cardinality subject = default_cardinality subject"
  by (cases subject) (simp_all add: registry_default_cardinality_def INTERFACE_DEFAULTS_def)

lemma rule_annotation_safety:
  "map_option rule_safety (rule_annotation a tr expected) = classify_annotation a tr expected"
proof (cases "annotation_kind (annotation_fact_id_of a)")
  case Card
  then show ?thesis
    by (cases "annotation_subject (annotation_fact_id_of a)"; cases tr)
       (simp_all add: rule_annotation_def classify_annotation_def annotation_transition_rule_def Let_def registry_default_eq
         split: option.splits)
qed (cases "annotation_subject (annotation_fact_id_of a)"; cases tr;
     simp add: rule_annotation_def classify_annotation_def annotation_transition_rule_def Let_def)+

lemma rule_fact_safety:
  "map_option (\<lambda>k. rule_safety (fact_transition_rule k tr)) (fact_kind_of f) = classify_fact f tr"
  by (cases f; cases tr) simp_all

lemma rule_defined_safety: "map_option rule_safety (rule_defined_fact f functions) = classify_defined_fact f functions"
proof (cases f)
  case (FactAnnotation a)
  then show ?thesis
    by (cases "annotation_subject (annotation_fact_id_of a)") (simp_all add: rule_annotation_safety)
qed (use rule_fact_safety [of TransitionDefine f] in \<open>simp_all add: option.map_comp comp_def\<close>)

lemma combine_rules_safety: "transition_safety (combine_rules rules) = Max (insert FormalOnly (set (map rule_safety rules)))"
proof -
  have one: "transition_safety (combine_rule rule acc) = max (transition_safety acc) (rule_safety rule)" for rule acc
    by (auto simp: combine_rule_def max_def less_eq_safety_class_def intro: safety_rank_inject)
  have "transition_safety (fold combine_rule rules acc) = Max (insert (transition_safety acc) (set (map rule_safety rules)))" for acc
  proof (induction rules arbitrary: acc)
    case (Cons rule rules)
    then show ?case by (simp add: one Max_insert_max [of "rule_safety ` set rules"])
  qed simp
  then show ?thesis by (simp add: combine_rules_def)
qed

lemma combine_one: "transition_safety (combine_rules [r]) = rule_safety r"
  by (cases "rule_safety r") (simp_all add: combine_rules_safety max_def less_eq_safety_class_def)

definition classifiers_differ :: "schema_operation \<Rightarrow> bool" where
  "classifiers_differ op \<longleftrightarrow>
     (case op of
        Undefine (FactRelates r) \<Rightarrow> relates_specializes r \<noteq> None
      | Redefine (FactRelates a) (FactRelates b) \<Rightarrow> relates_collection_mode a \<noteq> relates_collection_mode b
      | _ \<Rightarrow> False)"

text \<open>
  C22. The two classifiers agree: the transition registry that lowering consults assigns a well-formed
  operation the class the schema crate computes, except in two situations, the removal of a role
  that specializes another and a change of a role's collection mode.
\<close>

theorem registry_agrees_with_classifier:
  assumes "operation_wf op" "\<not> classifiers_differ op"
  shows "map_option (map_sum id transition_safety) (classify_operation_transition op) = classify_operation_safety op"
proof (cases op)
  case (Define fs)
  let ?fn = "defined_functions fs"
  have rules: "those (map (\<lambda>f. rule_defined_fact f ?fn) gs) = Some (map (\<lambda>f. the (rule_defined_fact f ?fn)) gs)" for gs
  proof (induction gs)
    case (Cons g gs)
    have "rule_defined_fact g ?fn \<noteq> None" using classify_defined_fact_total [of g ?fn] rule_defined_safety [of g ?fn] by auto
    with Cons show ?case by auto
  qed simp
  have "rule_safety (the (rule_defined_fact f ?fn)) = the (classify_defined_fact f ?fn)" for f
    using classify_defined_fact_total [of f ?fn] rule_defined_safety [of f ?fn] by auto
  then show ?thesis
    by (simp add: Define rules combine_rules_safety classify_defined_max image_image)
next
  case (Redefine old new)
  have "map_option (map_sum id rule_safety) (rule_redefinition old new) = classify_redefinition old new"
  proof (cases old)
    case (FactRelates a)
    then obtain b where b: "new = FactRelates b" "relates_fact_id_of a = relates_fact_id_of b" "a \<noteq> b"
      using assms(1) Redefine by (cases new) (auto simp: operation_wf_def)
    moreover have "relates_collection_mode a = relates_collection_mode b"
      using assms(2) b FactRelates Redefine by (simp add: classifiers_differ_def)
    ultimately have "relates_specializes a \<noteq> relates_specializes b" by auto
    then show ?thesis
      using b FactRelates \<open>relates_collection_mode a = relates_collection_mode b\<close>
      by (auto simp: rule_redefinition_def classify_redefinition_def split: option.splits)
  next
    case (FactAnnotation a)
    with assms(1) Redefine obtain b where "new = FactAnnotation b" by (cases new) (auto simp: operation_wf_def)
    with FactAnnotation rule_annotation_safety [of b AnnotationChange "Some a"] show ?thesis
      by (auto simp: rule_redefinition_def classify_redefinition_def option.map_comp comp_def
          simp flip: rule_annotation_safety)
  qed (use assms(1) Redefine in \<open>cases new; simp add: operation_wf_def rule_redefinition_def classify_redefinition_def\<close>)+
  then show ?thesis
    by (simp add: Redefine option.map_comp comp_def sum.map_comp combine_one id_def [abs_def] flip: \<open>map_option _ (rule_redefinition old new) = _\<close>)
next
  case (Undefine f)
  have "map_option rule_safety (rule_undefined_fact f) = classify_undefined_fact f"
    using assms(2) Undefine rule_fact_safety [of TransitionUndefine f]
    by (cases f) (simp_all add: classifiers_differ_def rule_annotation_safety)
  then show ?thesis
    by (simp add: Undefine option.map_comp comp_def combine_one flip: \<open>map_option _ (rule_undefined_fact f) = _\<close>)
qed

theorem registry_agrees_with_classifier_witness:
  "map_option (map_sum id transition_safety)
     (classify_operation_transition (Undefine (FactSub (SubFactId (TypeId Entity ''a'') (TypeId Entity ''b'')))))
     = Some (Inr Destructive)"
  using registry_agrees_with_classifier [of "Undefine (FactSub (SubFactId (TypeId Entity ''a'') (TypeId Entity ''b'')))"]
  by (simp add: operation_wf_def classifiers_differ_def)


end
