(* ===== verification/Safety_Policy.thy ===== *)
theory Safety_Policy
  imports Migration_Steps Delta_Safety
begin

text \<open>
  Verified manifests as records, the apply policy per safety class and the operator approvals bound to
  one transition (\<open>schema-migration/src/manifest.rs\<close> for the record, \<open>schema-migration/src/policy.rs\<close>
  for policy and approvals). The digest of a manifest hashes its canonical encoding and is the
  parameter \<open>manifest_digest\<close>; encoding may fail, so its result is fallible.
\<close>

section \<open>Verified manifests\<close>

record profile_binding =
  binding_fingerprint :: fingerprint
  binding_id :: string

record profile_bridge =
  bridge_from :: migration_profile
  bridge_from_lowering_profile :: profile_binding
  bridge_from_semantic_profile :: profile_binding

datatype legacy_migration_id = LegacyMigrationId (legacy_app_label: string) (legacy_name: string)

datatype legacy_reference = LegacyReference (legacy_id: legacy_migration_id) (legacy_checksum: string)

record verified_manifest =
  manifest_id :: migration_id
  manifest_legacy_parents :: "legacy_reference list"
  manifest_legacy_applied_set :: "string option"
  manifest_lowering_profile :: profile_binding
  manifest_managed_scope :: managed_scope_binding
  manifest_parents :: "migration_id list"
  manifest_plan_fingerprint :: fingerprint
  manifest_profile_bridge :: "profile_bridge option"
  manifest_required_capabilities :: capability_set
  manifest_reversible :: bool
  manifest_safety :: safety_class
  manifest_semantic_profile :: profile_binding
  manifest_source_schema :: declared_schema
  manifest_source_state :: managed_schema_state
  manifest_steps :: "migration_step list"
  manifest_target_schema :: declared_schema
  manifest_target_state :: managed_schema_state

definition is_legacy_bridge :: "verified_manifest \<Rightarrow> bool" where
  "is_legacy_bridge m \<longleftrightarrow> manifest_legacy_parents m \<noteq> []"

definition is_profile_bridge :: "verified_manifest \<Rightarrow> bool" where
  "is_profile_bridge m \<longleftrightarrow> manifest_profile_bridge m \<noteq> None"

type_synonym manifest_digest = "verified_manifest \<Rightarrow> fingerprint res"

section \<open>The policy\<close>

datatype policy_decision = Allow | RequireApproval | Reject

type_synonym safety_policy = "(safety_class, policy_decision) fmap"

definition default_policy :: safety_policy where
  "default_policy = fmap_of_list
     [(FormalOnly, Allow), (SchemaMetadata, Allow), (Additive, Allow), (Conditional, Allow),
      (Destructive, RequireApproval), (Opaque, RequireApproval), (BackfillRequired, RequireApproval),
      (Unsupported, Reject)]"

definition with_decision :: "safety_policy \<Rightarrow> safety_class \<Rightarrow> policy_decision \<Rightarrow> safety_policy res" where
  "with_decision policy c decision =
     (if (c = Destructive \<or> c = Opaque) \<and> decision = Allow
      then Inl (invalid_contract ''migration_policy_forbidden_allow'')
      else if c = BackfillRequired \<and> decision = Allow
      then Inl (invalid_contract ''migration_policy_forbidden_allow'')
      else if c = Unsupported \<and> decision \<noteq> Reject
      then Inl (invalid_contract ''migration_policy_unresolvable_class'')
      else Inr (fmupd c decision policy))"

definition decision_for :: "safety_policy \<Rightarrow> safety_class \<Rightarrow> policy_decision" where
  "decision_for policy c = (case fmlookup policy c of None \<Rightarrow> Reject | Some d \<Rightarrow> d)"

inductive configured_policy :: "safety_policy \<Rightarrow> bool" where
  configured_default: "configured_policy default_policy"
| configured_override: "configured_policy policy \<Longrightarrow> with_decision policy c decision = Inr policy' \<Longrightarrow> configured_policy policy'"

section \<open>Approvals\<close>

record apply_approval =
  approval_id :: migration_id
  approval_lowering_profile :: profile_binding
  approval_manifest_digest :: fingerprint
  approval_plan_fingerprint :: fingerprint
  approval_safety :: safety_class
  approval_semantic_profile :: profile_binding
  approval_source_state :: managed_schema_state
  approval_target_state :: managed_schema_state

definition approval_for_transition :: "manifest_digest \<Rightarrow> verified_manifest \<Rightarrow> safety_class \<Rightarrow> bool \<Rightarrow> apply_approval res" where
  "approval_for_transition digest manifest safety rollback =
     (let (source_state, target_state) =
        (if rollback then (manifest_target_state manifest, manifest_source_state manifest)
         else (manifest_source_state manifest, manifest_target_state manifest)) in
      bind_res (digest manifest) (\<lambda>manifest_digest.
        Inr \<lparr>approval_id = manifest_id manifest, approval_lowering_profile = manifest_lowering_profile manifest,
             approval_manifest_digest = manifest_digest, approval_plan_fingerprint = manifest_plan_fingerprint manifest,
             approval_safety = safety, approval_semantic_profile = manifest_semantic_profile manifest,
             approval_source_state = source_state, approval_target_state = target_state\<rparr>))"

definition approval_for_manifest :: "manifest_digest \<Rightarrow> verified_manifest \<Rightarrow> apply_approval res" where
  "approval_for_manifest digest manifest = approval_for_transition digest manifest (manifest_safety manifest) False"

definition approval_for_rollback :: "manifest_digest \<Rightarrow> verified_manifest \<Rightarrow> safety_class \<Rightarrow> apply_approval res" where
  "approval_for_rollback digest manifest rollback_safety = approval_for_transition digest manifest rollback_safety True"

text \<open>The conjunctions are lazy: the digest is computed only when everything before it matches.\<close>

definition binds_identity :: "manifest_digest \<Rightarrow> apply_approval \<Rightarrow> verified_manifest \<Rightarrow> bool res" where
  "binds_identity digest approval manifest =
     (if approval_id approval = manifest_id manifest
         \<and> approval_plan_fingerprint approval = manifest_plan_fingerprint manifest
         \<and> approval_semantic_profile approval = manifest_semantic_profile manifest
         \<and> approval_lowering_profile approval = manifest_lowering_profile manifest
      then bind_res (digest manifest) (\<lambda>d. Inr (approval_manifest_digest approval = d))
      else Inr False)"

definition binds :: "manifest_digest \<Rightarrow> apply_approval \<Rightarrow> verified_manifest \<Rightarrow> bool res" where
  "binds digest approval manifest =
     (if approval_safety approval = manifest_safety manifest
         \<and> approval_source_state approval = manifest_source_state manifest
         \<and> approval_target_state approval = manifest_target_state manifest
      then binds_identity digest approval manifest else Inr False)"

definition binds_rollback :: "manifest_digest \<Rightarrow> apply_approval \<Rightarrow> verified_manifest \<Rightarrow> safety_class \<Rightarrow> bool res" where
  "binds_rollback digest approval manifest rollback_safety =
     (if approval_safety approval = rollback_safety
         \<and> approval_source_state approval = manifest_target_state manifest
         \<and> approval_target_state approval = manifest_source_state manifest
      then binds_identity digest approval manifest else Inr False)"

section \<open>What policies and approvals guarantee\<close>

text \<open>
  C25. No policy reachable from the default by overrides grants a standing allowance: destructive,
  opaque and backfill work is never allowed without approval, and unsupported work is always
  rejected; every class has a decision.
\<close>

theorem configured_policy_floor:
  assumes "configured_policy policy"
  shows "decision_for policy Destructive \<noteq> Allow \<and> decision_for policy Opaque \<noteq> Allow
    \<and> decision_for policy BackfillRequired \<noteq> Allow \<and> decision_for policy Unsupported = Reject
    \<and> fset (fmdom policy) = UNIV"
  using assms
proof (induction rule: configured_policy.induct)
  case configured_default
  have "(UNIV :: safety_class set) = {FormalOnly, SchemaMetadata, Additive, Conditional, BackfillRequired, Destructive, Opaque, Unsupported}"
    using safety_class.exhaust by blast
  then show ?case by (auto simp: default_policy_def decision_for_def fset_of_list.rep_eq)
next
  case (configured_override policy c decision policy')
  then have "policy' = fmupd c decision policy" by (auto simp: with_decision_def split: if_splits)
  with configured_override show ?case
    by (auto simp: with_decision_def decision_for_def split: if_splits)
qed

theorem configured_policy_floor_witness:
  "decision_for (fmupd Conditional Reject default_policy) Destructive \<noteq> Allow"
proof -
  have "configured_policy (fmupd Conditional Reject default_policy)"
    by (rule configured_override [OF configured_default, of Conditional Reject]) (simp add: with_decision_def)
  from configured_policy_floor [OF this] show ?thesis by simp
qed


definition example_manifest :: "string \<Rightarrow> migration_id list \<Rightarrow> verified_manifest" where
  "example_manifest name parents =
     (let schema = \<lparr>schema_format = 1, schema_required_capabilities = {||}, schema_facts = fmempty,
        schema_provenance = fmempty, schema_fingerprint = []\<rparr>;
        profile = \<lparr>binding_fingerprint = ''p'', binding_id = ''typedb-3.12.1/v1''\<rparr> in
      \<lparr>manifest_id = MigrationId ''app'' name, manifest_legacy_parents = [], manifest_legacy_applied_set = None,
       manifest_lowering_profile = profile, manifest_managed_scope = state_scope (example_state [] {||}),
       manifest_parents = parents, manifest_plan_fingerprint = name, manifest_profile_bridge = None,
       manifest_required_capabilities = {||}, manifest_reversible = True, manifest_safety = Additive,
       manifest_semantic_profile = profile, manifest_source_schema = schema, manifest_source_state = example_state ''before'' {||},
       manifest_steps = [], manifest_target_schema = schema, manifest_target_state = example_state ''after'' {||}\<rparr>)"


end
