(* ===== verification/Closure.thy ===== *)
theory Closure
  imports Prelude
begin

text \<open>
  Worklist closures of a finite graph given as a map from nodes to sets of neighbours. Two variants occur
  in \<open>schema-migration/src/history.rs\<close>: \<open>reachable\<close> marks a node when it is pushed and indexes the
  map, so a missing node panics (\<open>None\<close>); the closure of \<open>plan_apply\<close> marks a node when it is
  popped and reports a missing node as a diagnostic. The stack of the source grows at its end; here
  the top is the head of the list.
\<close>

type_synonym 'n edge_map = "('n, 'n fset) fmap"

definition edge_rel :: "'n edge_map \<Rightarrow> ('n \<times> 'n) set" where
  "edge_rel edges = {(a, b). \<exists>s. fmlookup edges a = Some s \<and> b |\<in>| s}"

definition edge_targets :: "'n edge_map \<Rightarrow> 'n set" where
  "edge_targets edges = (\<Union>k \<in> fset (fmdom edges). fset (the (fmlookup edges k)))"

definition edges_closed :: "'n edge_map \<Rightarrow> bool" where
  "edges_closed edges \<longleftrightarrow> fmpred (\<lambda>_ s. s |\<subseteq>| fmdom edges) edges"

lemma finite_edge_targets [simp]: "finite (edge_targets edges)"
  by (simp add: edge_targets_def)

lemma edge_targetsI: "fmlookup edges a = Some s \<Longrightarrow> b |\<in>| s \<Longrightarrow> b \<in> edge_targets edges"
  by (force simp: edge_targets_def fmlookup_dom_iff)

lemma edges_closedD: "edges_closed edges \<Longrightarrow> (a, b) \<in> edge_rel edges \<Longrightarrow> b |\<in>| fmdom edges"
  by (auto simp: edges_closed_def edge_rel_def dest: fmpredD)

section \<open>Marking on push\<close>

fun push_unseen :: "'n list \<Rightarrow> 'n fset \<Rightarrow> 'n list \<Rightarrow> 'n fset \<times> 'n list" where
  "push_unseen [] seen stack = (seen, stack)"
| "push_unseen (x # xs) seen stack =
     (if x |\<in>| seen then push_unseen xs seen stack else push_unseen xs (finsert x seen) (x # stack))"

lemma push_unseen_spec:
  assumes "push_unseen xs seen stack = (seen', stack')"
  shows "fset seen' = fset seen \<union> set xs" "set stack' = set stack \<union> (set xs - fset seen)"
    "length stack' + fcard seen = length stack + fcard seen'"
proof -
  have "fset seen' = fset seen \<union> set xs \<and> set stack' = set stack \<union> (set xs - fset seen)
      \<and> length stack' + fcard seen = length stack + fcard seen'"
    using assms
  proof (induction xs seen stack rule: push_unseen.induct)
    case (2 x xs seen stack)
    show ?case
    proof (cases "x |\<in>| seen")
      case False
      with 2(2) [OF False] 2(3) show ?thesis by (auto simp: fcard_finsert_disjoint)
    qed (use 2 in auto)
  qed auto
  then show "fset seen' = fset seen \<union> set xs" "set stack' = set stack \<union> (set xs - fset seen)"
    "length stack' + fcard seen = length stack + fcard seen'" by blast+
qed

definition reach_measure :: "'n edge_map \<Rightarrow> 'n list \<Rightarrow> 'n fset \<Rightarrow> nat" where
  "reach_measure edges stack seen = 2 * card (edge_targets edges - fset seen) + length stack"

lemma reach_measure_decreases:
  assumes "fmlookup edges x = Some s" "push_unseen (sorted_list_of_fset s) seen stack = (seen', stack')"
  shows "reach_measure edges stack' seen' < reach_measure edges (x # stack) seen"
proof -
  note p = push_unseen_spec [OF assms(2)]
  let ?U = "edge_targets edges" and ?new = "fset seen' - fset seen"
  have new: "?new \<subseteq> ?U" using p(1) assms(1) by (auto intro: edge_targetsI)
  have "card (?U - fset seen) = card (?U - fset seen') + card ?new"
  proof -
    have "?U - fset seen = (?U - fset seen') \<union> ?new" using new p(1) by auto
    also have "card \<dots> = card (?U - fset seen') + card ?new" by (rule card_Un_disjoint) auto
    finally show ?thesis .
  qed
  moreover have "card ?new + fcard seen = fcard seen'"
    using p(1) by (simp add: fcard.rep_eq card_Diff_subset card_mono)
  ultimately show ?thesis using p(3) by (simp add: reach_measure_def)
qed

function reach_loop :: "'n::linorder edge_map \<Rightarrow> 'n list \<Rightarrow> 'n fset \<Rightarrow> 'n fset option" where
  "reach_loop edges [] seen = Some seen"
| "reach_loop edges (x # stack) seen =
     (case fmlookup edges x of
        None \<Rightarrow> None
      | Some s \<Rightarrow>
          (case push_unseen (sorted_list_of_fset s) seen stack of
             (seen', stack') \<Rightarrow> reach_loop edges stack' seen'))"
  by pat_completeness auto

termination
  by (relation "measure (\<lambda>(edges, stack, seen). reach_measure edges stack seen)")
     (auto intro: reach_measure_decreases)

definition reachable :: "'n::linorder \<Rightarrow> 'n edge_map \<Rightarrow> 'n fset option" where
  "reachable start edges = reach_loop edges [start] {||}"

lemma reach_loop_spec:
  assumes "edges_closed edges" "set stack \<subseteq> insert start (fset seen)" "start |\<in>| fmdom edges" "fset seen \<subseteq> (edge_rel edges)\<^sup>+ `` {start}"
    and "\<forall>a \<in> insert start (fset seen) - set stack. edge_rel edges `` {a} \<subseteq> fset seen"
  shows "\<exists>r. reach_loop edges stack seen = Some r \<and> fset r = (edge_rel edges)\<^sup>+ `` {start}"
  using assms
proof (induction edges stack seen rule: reach_loop.induct)
  case (1 edges seen)
  let ?R = "edge_rel edges"
  have "y |\<in>| seen" if "(start, y) \<in> ?R\<^sup>+" for y
    using that by (induction rule: trancl_induct) (use 1 in auto)
  with 1 show ?case by auto
next
  case (2 edges x stack seen)
  let ?R = "edge_rel edges"
  have trancl: "z \<in> ?R\<^sup>+ `` {start}" if "y \<in> insert start (fset seen)" "(y, z) \<in> ?R" for y z
    using that 2(5) by (auto intro: trancl_into_trancl)
  have "x |\<in>| fmdom edges" using 2(2-5) edges_closedD [OF 2(2)] by (auto dest: tranclD2)
  then obtain s where s: "fmlookup edges x = Some s" by (auto simp: fmlookup_dom_iff)
  then have succ: "?R `` {x} = fset s" by (auto simp: edge_rel_def)
  obtain seen' stack' where push: "push_unseen (sorted_list_of_fset s) seen stack = (seen', stack')" by fastforce
  note p = push_unseen_spec [OF push]
  have "set stack' \<subseteq> insert start (fset seen')" using p 2(3) by auto
  moreover have "fset seen' \<subseteq> ?R\<^sup>+ `` {start}" using p(1) 2(3,5) succ trancl [of x] by auto
  moreover have "\<forall>a \<in> insert start (fset seen') - set stack'. ?R `` {a} \<subseteq> fset seen'"
  proof
    fix a assume a: "a \<in> insert start (fset seen') - set stack'"
    then have "a \<in> insert start (fset seen)" using p(1,2) by auto
    show "?R `` {a} \<subseteq> fset seen'"
    proof (cases "a = x")
      case False
      then have "a \<in> insert start (fset seen) - set (x # stack)" using a p(2) \<open>a \<in> insert start (fset seen)\<close> by auto
      with 2(6) p(1) show ?thesis by blast
    qed (use succ p(1) in simp)
  qed
  ultimately have "\<exists>r. reach_loop edges stack' seen' = Some r \<and> fset r = ?R\<^sup>+ `` {start}"
    using 2(1) [OF s push [symmetric] 2(2) _ 2(4)] by blast
  then show ?case by (simp add: s push)
qed

lemma reachable_spec:
  assumes "edges_closed edges" "start |\<in>| fmdom edges"
  shows "\<exists>r. reachable start edges = Some r \<and> fset r = (edge_rel edges)\<^sup>+ `` {start}"
  unfolding reachable_def by (rule reach_loop_spec) (use assms in auto)

section \<open>Marking on pop\<close>

function closure_loop :: "'n::linorder edge_map \<Rightarrow> 'n list \<Rightarrow> 'n fset \<Rightarrow> 'n fset option" where
  "closure_loop edges [] closure = Some closure"
| "closure_loop edges (x # pending) closure =
     (case fmlookup edges x of
        None \<Rightarrow> None
      | Some direct \<Rightarrow>
          if x |\<in>| closure then closure_loop edges pending closure
          else closure_loop edges (rev (sorted_list_of_fset direct) @ pending) (finsert x closure))"
  by pat_completeness auto

termination
proof (relation "measures [\<lambda>(edges, pending, closure). card (fset (fmdom edges) - fset closure),
    \<lambda>(edges, pending, closure). length pending]", goal_cases)
  case (3 edges x pending closure direct)
  then have "x \<in> fset (fmdom edges) - fset closure" by (auto simp: fmlookup_dom_iff)
  then have "card (fset (fmdom edges) - fset (finsert x closure)) < card (fset (fmdom edges) - fset closure)"
    by (intro psubset_card_mono) auto
  then show ?case by simp
qed auto

lemma closure_loop_unknown:
  "x \<in> set pending \<Longrightarrow> x |\<notin>| fmdom edges \<Longrightarrow> closure_loop edges pending closure = None"
proof (induction edges pending closure rule: closure_loop.induct)
  case (2 edges y pending closure)
  show ?case
  proof (cases "fmlookup edges y")
    case (Some direct)
    then have "y \<noteq> x" using 2 by (auto simp: fmlookup_dom_iff)
    with 2 Some show ?thesis by auto
  qed simp
qed simp

lemma closure_loop_known:
  assumes "edges_closed edges" "set pending \<subseteq> fset (fmdom edges)" "set pending \<union> fset closure \<subseteq> (edge_rel edges)\<^sup>* `` T"
    and "T \<subseteq> fset closure \<union> set pending" "edge_rel edges `` fset closure \<subseteq> fset closure \<union> set pending"
  shows "\<exists>r. closure_loop edges pending closure = Some r \<and> fset r = (edge_rel edges)\<^sup>* `` T"
  using assms
proof (induction edges pending closure rule: closure_loop.induct)
  case (1 edges closure)
  then have "(edge_rel edges)\<^sup>* `` fset closure = fset closure" by (intro Image_closed_trancl) auto
  moreover have "T \<subseteq> fset closure" "fset closure \<subseteq> (edge_rel edges)\<^sup>* `` T" using 1 by auto
  ultimately have "fset closure = (edge_rel edges)\<^sup>* `` T" by blast
  then show ?case by simp
next
  case (2 edges x pending closure)
  obtain direct where d: "fmlookup edges x = Some direct" using 2(4) by (auto simp: fmlookup_dom_iff)
  have succ: "edge_rel edges `` {x} = fset direct" using d by (auto simp: edge_rel_def)
  show ?case
  proof (cases "x |\<in>| closure")
    case True
    with 2(4-7) have "\<exists>r. closure_loop edges pending closure = Some r \<and> fset r = (edge_rel edges)\<^sup>* `` T"
      by (intro 2(1) [OF d True 2(3)]) auto
    with d True show ?thesis by simp
  next
    case False
    let ?pending = "rev (sorted_list_of_fset direct) @ pending"
    have "fset direct \<subseteq> fset (fmdom edges)" using edges_closedD [OF 2(3)] succ by auto
    moreover have "fset direct \<subseteq> (edge_rel edges)\<^sup>* `` T" using 2(5) succ by (auto intro: rtrancl_into_rtrancl)
    ultimately have "\<exists>r. closure_loop edges ?pending (finsert x closure) = Some r \<and> fset r = (edge_rel edges)\<^sup>* `` T"
      using 2(4-7) succ by (intro 2(2) [OF d False 2(3)]) auto
    with d False show ?thesis by simp
  qed
qed

lemma closure_spec:
  assumes "edges_closed edges"
  shows "(\<exists>r. closure_loop edges (rev (sorted_list_of_fset targets)) {||} = Some r) \<longleftrightarrow> targets |\<subseteq>| fmdom edges"
    and "closure_loop edges (rev (sorted_list_of_fset targets)) {||} = Some r \<Longrightarrow> fset r = (edge_rel edges)\<^sup>* `` fset targets"
proof -
  let ?loop = "closure_loop edges (rev (sorted_list_of_fset targets)) {||}"
  have known: "\<exists>r. ?loop = Some r \<and> fset r = (edge_rel edges)\<^sup>* `` fset targets" if "targets |\<subseteq>| fmdom edges"
    using assms that by (intro closure_loop_known) (auto simp: less_eq_fset.rep_eq)
  have unknown: "?loop = None" if "\<not> targets |\<subseteq>| fmdom edges"
  proof -
    from that obtain x where "x |\<in>| targets" "x |\<notin>| fmdom edges" by auto
    then show ?thesis by (intro closure_loop_unknown [of x]) simp_all
  qed
  show "(\<exists>r. ?loop = Some r) \<longleftrightarrow> targets |\<subseteq>| fmdom edges" using known unknown by fastforce
  show "?loop = Some r \<Longrightarrow> fset r = (edge_rel edges)\<^sup>* `` fset targets" using known unknown by fastforce
qed

end
