(* ===== verification/Migration_History.thy ===== *)
theory Migration_History
  imports Safety_Policy Closure Kahn
begin

text \<open>
  The migration history graph of \<open>schema-migration/src/history.rs\<close>: building and validating the graph
  of verified manifests, the profile lineage, the applied set, and the planning of applications and
  rollbacks. Indexing a map at a missing key and the \<open>expect\<close> of the source are \<open>None\<close>.
  Discovery of manifest files is directory input and not modelled.
\<close>

section \<open>The graph\<close>

record history_graph =
  graph_children :: "migration_id edge_map"
  graph_heads :: "migration_id list"
  graph_manifests :: "(migration_id, verified_manifest) fmap"
  graph_parents :: "migration_id edge_map"
  graph_topological :: "migration_id list"

definition graph_failure :: "string \<Rightarrow> diagnostic" where
  "graph_failure code = Diagnostic Integrity code"

section \<open>Ordering a subset\<close>

text \<open>
  Both orderings count the unmet neighbours of every node of a subset and then drain the ready nodes
  in identity order (\<open>map_drain\<close>). The loop indexes the other direction of the graph at every
  emitted node; a node without an entry there panics.
\<close>

definition count_unmet :: "migration_id edge_map \<Rightarrow> (migration_id \<Rightarrow> bool) \<Rightarrow> migration_id \<Rightarrow> (migration_id \<times> nat) option" where
  "count_unmet edges pending i = map_option (\<lambda>s. (i, fcard (ffilter pending s))) (fmlookup edges i)"

definition drain_subset :: "migration_id edge_map \<Rightarrow> (migration_id \<times> nat) list \<Rightarrow> migration_id list panicking" where
  "drain_subset next_edges counts =
     (let succs = (\<lambda>i. case fmlookup next_edges i of Some s \<Rightarrow> sorted_list_of_fset s | None \<Rightarrow> []) in
      case map_drain succs (fmap_of_list counts) (fset_of_list (map fst (filter (\<lambda>(_, n). n = 0) counts))) [] of
        None \<Rightarrow> None
      | Some (remaining, order) \<Rightarrow>
          if \<not> list_all (\<lambda>i. i |\<in>| fmdom next_edges) order then None
          else if remaining \<noteq> fmempty then Some (Inl (graph_failure ''migration_history_cycle''))
          else Some (Inr order))"

definition order_apply_subset :: "migration_id fset \<Rightarrow> migration_id fset \<Rightarrow> migration_id edge_map \<Rightarrow>
    migration_id edge_map \<Rightarrow> migration_id list panicking" where
  "order_apply_subset required applied parents children =
     Option.bind (those (map (count_unmet parents (\<lambda>p. p |\<in>| required \<and> p |\<notin>| applied)) (sorted_list_of_fset required)))
       (drain_subset children)"

definition order_rollback_subset :: "migration_id fset \<Rightarrow> migration_id edge_map \<Rightarrow> migration_id edge_map \<Rightarrow>
    migration_id list panicking" where
  "order_rollback_subset removals parents children =
     Option.bind (those (map (count_unmet children (\<lambda>c. c |\<in>| removals)) (sorted_list_of_fset removals)))
       (drain_subset parents)"

definition topological_order :: "migration_id edge_map \<Rightarrow> migration_id edge_map \<Rightarrow> migration_id list panicking" where
  "topological_order parents children =
     bind_panicking (order_apply_subset (fmdom parents) {||} parents children) (\<lambda>order.
       if length order \<noteq> fcard (fmdom parents) then Some (Inl (graph_failure ''migration_history_cycle''))
       else Some (Inr order))"

section \<open>Profile lineage\<close>

definition check_lineage_edge :: "(migration_id, verified_manifest) fmap \<Rightarrow> verified_manifest \<Rightarrow> migration_id \<Rightarrow> unit \<Rightarrow> unit panicking" where
  "check_lineage_edge by_id manifest parent_id _ =
     (case fmlookup by_id parent_id of
        None \<Rightarrow> None
      | Some parent \<Rightarrow>
          Some
            (case manifest_profile_bridge manifest of
               Some bridge \<Rightarrow>
                 if manifest_semantic_profile parent \<noteq> bridge_from_semantic_profile bridge
                    \<or> manifest_lowering_profile parent \<noteq> bridge_from_lowering_profile bridge
                 then Inl (graph_failure ''migration_history_profile_bridge_parent_mismatch'')
                 else if manifest_target_state parent \<noteq> manifest_source_state manifest
                 then Inl (graph_failure ''migration_history_profile_bridge_state_mismatch'')
                 else Inr ()
             | None \<Rightarrow>
                 if manifest_semantic_profile parent \<noteq> manifest_semantic_profile manifest
                    \<or> manifest_lowering_profile parent \<noteq> manifest_lowering_profile manifest
                 then Inl (graph_failure ''migration_history_profile_change_without_bridge'')
                 else Inr ()))"

definition check_lineage_node :: "(migration_id, verified_manifest) fmap \<Rightarrow> migration_id edge_map \<Rightarrow>
    migration_id \<times> verified_manifest \<Rightarrow> unit \<Rightarrow> unit panicking" where
  "check_lineage_node by_id parents = (\<lambda>(i, manifest) _.
     case fmlookup parents i of
       None \<Rightarrow> None
     | Some ps \<Rightarrow> fold_panicking (check_lineage_edge by_id manifest) (sorted_list_of_fset ps) ())"

definition check_bridge_lineage :: "verified_manifest \<Rightarrow> migration_id fset \<Rightarrow> migration_id fset \<Rightarrow>
    migration_id \<times> verified_manifest \<Rightarrow> unit \<Rightarrow> unit res" where
  "check_bridge_lineage bridge ancestors descendants = (\<lambda>(i, manifest) _.
     if i = manifest_id bridge \<or> i |\<in>| ancestors \<or> i |\<in>| descendants then Inr ()
     else if manifest_semantic_profile manifest = manifest_semantic_profile bridge
     then Inl (graph_failure ''migration_history_root_beside_profile_bridge'')
     else Inl (graph_failure ''migration_history_old_profile_not_bridge_ancestor''))"

definition validate_profile_lineage :: "(migration_id, verified_manifest) fmap \<Rightarrow> migration_id edge_map \<Rightarrow>
    migration_id edge_map \<Rightarrow> unit panicking" where
  "validate_profile_lineage by_id parents children =
     (let bridges = filter is_profile_bridge (fm_values by_id) in
      if 1 < length bridges then Some (Inl (graph_failure ''migration_history_multiple_profile_bridges''))
      else bind_panicking (fold_panicking (check_lineage_node by_id parents) (sorted_list_of_fmap by_id) ()) (\<lambda>_.
        case bridges of
          [] \<Rightarrow> Some (Inr ())
        | bridge # _ \<Rightarrow>
            (case (reachable (manifest_id bridge) parents, reachable (manifest_id bridge) children) of
               (Some ancestors, Some descendants) \<Rightarrow>
                 Some (fold_res (check_bridge_lineage bridge ancestors descendants) (sorted_list_of_fmap by_id) ())
             | _ \<Rightarrow> None)))"

section \<open>Building the graph\<close>

definition insert_manifest :: "verified_manifest \<Rightarrow> (migration_id, verified_manifest) fmap \<Rightarrow>
    (migration_id, verified_manifest) fmap res" where
  "insert_manifest manifest by_id =
     (if manifest_id manifest |\<in>| fmdom by_id then Inl (graph_failure ''migration_history_duplicate_id'')
      else Inr (fmupd (manifest_id manifest) manifest by_id))"

definition validate_legacy_bridges :: "(migration_id, verified_manifest) fmap \<Rightarrow> unit res" where
  "validate_legacy_bridges by_id =
     (let bridges = map manifest_id (filter is_legacy_bridge (fm_values by_id)) in
      if 1 < length bridges then Inl (graph_failure ''migration_history_multiple_legacy_bridges'')
      else
        (case bridges of
           [] \<Rightarrow> Inr ()
         | bridge # _ \<Rightarrow>
             if list_ex (\<lambda>(i, manifest). manifest_parents manifest = [] \<and> i \<noteq> bridge) (sorted_list_of_fmap by_id)
             then Inl (graph_failure ''migration_history_root_beside_legacy_bridge'') else Inr ()))"

definition link_parent :: "(migration_id, verified_manifest) fmap \<Rightarrow> migration_id \<Rightarrow> migration_id \<Rightarrow>
    migration_id edge_map \<Rightarrow> migration_id edge_map panicking" where
  "link_parent by_id i parent children =
     (if parent |\<notin>| fmdom by_id then Some (Inl (graph_failure ''migration_history_missing_parent''))
      else map_option (\<lambda>s. Inr (fmupd parent (finsert i s) children)) (fmlookup children parent))"

definition link_node :: "(migration_id, verified_manifest) fmap \<Rightarrow> migration_id \<times> verified_manifest \<Rightarrow>
    migration_id edge_map \<times> migration_id edge_map \<Rightarrow> (migration_id edge_map \<times> migration_id edge_map) panicking" where
  "link_node by_id = (\<lambda>(i, manifest) (parents, children).
     let direct = fset_of_list (manifest_parents manifest) in
     if i |\<in>| direct then Some (Inl (graph_failure ''migration_history_self_parent''))
     else bind_panicking (fold_panicking (link_parent by_id i) (sorted_list_of_fset direct) children) (\<lambda>children'.
       Some (Inr (fmupd i direct parents, children'))))"

definition from_verified :: "verified_manifest list \<Rightarrow> history_graph panicking" where
  "from_verified manifests =
     bind_panicking (Some (fold_res insert_manifest manifests fmempty)) (\<lambda>by_id.
     bind_panicking (Some (validate_legacy_bridges by_id)) (\<lambda>_.
     bind_panicking (fold_panicking (link_node by_id) (sorted_list_of_fmap by_id)
         (fmempty, fmap_of_list (map (\<lambda>i. (i, {||})) (fm_keys by_id)))) (\<lambda>(parents, children).
     bind_panicking (topological_order parents children) (\<lambda>topological.
     bind_panicking (validate_profile_lineage by_id parents children) (\<lambda>_.
       Some (Inr \<lparr>graph_children = children,
         graph_heads = map fst (filter (\<lambda>(_, cs). cs = {||}) (sorted_list_of_fmap children)),
         graph_manifests = by_id, graph_parents = parents, graph_topological = topological\<rparr>))))))"

section \<open>Queries and planning\<close>

definition default_head :: "history_graph \<Rightarrow> migration_id option res" where
  "default_head g =
     (case graph_heads g of
        [] \<Rightarrow> Inr None
      | [head] \<Rightarrow> Inr (Some head)
      | _ \<Rightarrow> Inl (graph_failure ''migration_history_ambiguous_default_head''))"

definition validate_applied_node :: "history_graph \<Rightarrow> migration_id fset \<Rightarrow> migration_id \<Rightarrow> unit \<Rightarrow> unit res" where
  "validate_applied_node g applied i _ =
     (case fmlookup (graph_parents g) i of
        None \<Rightarrow> Inl (graph_failure ''migration_history_unknown_applied_id'')
      | Some direct \<Rightarrow>
          if \<not> direct |\<subseteq>| applied then Inl (graph_failure ''migration_history_applied_not_downward_closed'')
          else Inr ())"

definition validate_applied :: "history_graph \<Rightarrow> migration_id fset \<Rightarrow> unit res" where
  "validate_applied g applied = fold_res (validate_applied_node g applied) (sorted_list_of_fset applied) ()"

definition is_frontier :: "history_graph \<Rightarrow> migration_id fset \<Rightarrow> migration_id \<Rightarrow> bool option" where
  "is_frontier g applied i = map_option (\<lambda>cs. cs |\<inter>| applied = {||}) (fmlookup (graph_children g) i)"

definition applied_frontier :: "history_graph \<Rightarrow> migration_id fset \<Rightarrow> migration_id list panicking" where
  "applied_frontier g applied =
     bind_panicking (Some (validate_applied g applied)) (\<lambda>_.
       map_option (\<lambda>flags. Inr (map fst (filter snd (zip (sorted_list_of_fset applied) flags))))
         (those (map (is_frontier g applied) (sorted_list_of_fset applied))))"

definition plan_apply :: "history_graph \<Rightarrow> migration_id fset \<Rightarrow> migration_id fset \<Rightarrow> migration_id list panicking" where
  "plan_apply g applied targets =
     bind_panicking (Some (validate_applied g applied)) (\<lambda>_.
     bind_panicking (Some (ok_or (closure_loop (graph_parents g) (rev (sorted_list_of_fset targets)) {||})
         (graph_failure ''migration_history_unknown_apply_target''))) (\<lambda>closure.
       order_apply_subset (closure |-| applied) applied (graph_parents g) (graph_children g)))"

definition plan_apply_to_default_head :: "history_graph \<Rightarrow> migration_id fset \<Rightarrow> migration_id list panicking" where
  "plan_apply_to_default_head g applied =
     bind_panicking (Some (default_head g)) (\<lambda>head.
       case head of
         None \<Rightarrow> bind_panicking (Some (validate_applied g applied)) (\<lambda>_. Some (Inr []))
       | Some h \<Rightarrow> plan_apply g applied {|h|})"

definition check_removal :: "history_graph \<Rightarrow> migration_id fset \<Rightarrow> migration_id fset \<Rightarrow> migration_id \<Rightarrow> unit \<Rightarrow> unit panicking" where
  "check_removal g applied removals i _ =
     (if i |\<notin>| fmdom (graph_manifests g) then Some (Inl (graph_failure ''migration_history_unknown_rollback_target''))
      else if i |\<notin>| applied then Some (Inl (graph_failure ''migration_history_rollback_not_applied''))
      else map_option (\<lambda>cs.
        if cs |\<inter>| applied |\<subseteq>| removals then Inr ()
        else Inl (graph_failure ''migration_history_remaining_applied_descendant'')) (fmlookup (graph_children g) i))"

definition plan_rollback :: "history_graph \<Rightarrow> migration_id fset \<Rightarrow> migration_id fset \<Rightarrow> migration_id list panicking" where
  "plan_rollback g applied removals =
     bind_panicking (Some (validate_applied g applied)) (\<lambda>_.
     bind_panicking (fold_panicking (check_removal g applied removals) (sorted_list_of_fset removals) ()) (\<lambda>_.
       order_rollback_subset removals (graph_parents g) (graph_children g)))"

definition profile_bridge_with_ancestors :: "history_graph \<Rightarrow> (verified_manifest \<times> migration_id fset) option option" where
  "profile_bridge_with_ancestors g =
     (case find is_profile_bridge (fm_values (graph_manifests g)) of
        None \<Rightarrow> Some None
      | Some bridge \<Rightarrow> map_option (\<lambda>ancestors. Some (bridge, ancestors)) (reachable (manifest_id bridge) (graph_parents g)))"

definition require_adoption_authority_pair_state :: "bool \<Rightarrow> nat \<Rightarrow> unit res" where
  "require_adoption_authority_pair_state adopted_genesis_present legacy_bridge_count =
     (if (adopted_genesis_present \<and> legacy_bridge_count = 1) \<or> (\<not> adopted_genesis_present \<and> legacy_bridge_count = 0) then Inr ()
      else Inl (graph_failure ''migration_adoption_authority_incomplete''))"

definition require_adoption_authority_pair :: "history_graph \<Rightarrow> bool \<Rightarrow> unit res" where
  "require_adoption_authority_pair g adopted_genesis_present =
     require_adoption_authority_pair_state adopted_genesis_present (length (filter is_legacy_bridge (fm_values (graph_manifests g))))"

definition check_workspace_head :: "history_graph \<Rightarrow> string \<Rightarrow> migration_id \<Rightarrow> unit \<Rightarrow> unit panicking" where
  "check_workspace_head g workspace head _ =
     (case fmlookup (graph_manifests g) head of
        None \<Rightarrow> None
      | Some manifest \<Rightarrow>
          (let head_profile = binding_id (manifest_semantic_profile manifest);
               bridged = list_ex is_profile_bridge (fm_values (graph_manifests g));
               older = (case (profile_for_semantic_profile head_profile, profile_for_semantic_profile workspace) of
                          (Some history, Some w) \<Rightarrow> history < w | _ \<Rightarrow> False) in
           if head_profile = workspace then Some (Inr ())
           else if older \<and> \<not> bridged then Some (Inl (graph_failure ''migration_history_profile_upgrade_required''))
           else Some (Inl (graph_failure ''migration_history_profile_not_workspace''))))"

definition require_workspace_profile_heads :: "history_graph \<Rightarrow> string \<Rightarrow> unit panicking" where
  "require_workspace_profile_heads g workspace = fold_panicking (check_workspace_head g workspace) (graph_heads g) ()"

datatype migration_profile_upgrade =
  UpgradePending history_graph migration_profile migration_id
| UpgradeBridged history_graph migration_id

definition upgrade_failure :: "string \<Rightarrow> diagnostic" where
  "upgrade_failure code = Diagnostic InvalidContract code"

definition upgrade_from_head :: "history_graph \<Rightarrow> migration_profile \<Rightarrow> migration_id \<Rightarrow> migration_profile_upgrade panicking" where
  "upgrade_from_head g target parent =
     (case fmlookup (graph_manifests g) parent of
        None \<Rightarrow> None
      | Some manifest \<Rightarrow>
          Some (bind_res (ok_or (profile_for_semantic_profile (binding_id (manifest_semantic_profile manifest)))
              (upgrade_failure ''migration_upgrade_profile_unsupported_history'')) (\<lambda>from.
            if from < target then Inr (UpgradePending g from parent)
            else if from = target then Inl (upgrade_failure ''migration_upgrade_profile_same_profile'')
            else Inl (upgrade_failure ''migration_upgrade_profile_downgrade''))))"

definition history_profile_upgrade :: "history_graph \<Rightarrow> string \<Rightarrow> migration_profile_upgrade panicking" where
  "history_profile_upgrade g workspace =
     bind_panicking (Some (ok_or (profile_for_semantic_profile workspace)
         (upgrade_failure ''migration_upgrade_profile_unsupported_target''))) (\<lambda>target.
       case find (\<lambda>(_, manifest). is_profile_bridge manifest) (sorted_list_of_fmap (graph_manifests g)) of
         Some (bridge, _) \<Rightarrow>
           bind_panicking (require_workspace_profile_heads g workspace) (\<lambda>_. Some (Inr (UpgradeBridged g bridge)))
       | None \<Rightarrow>
           (case graph_heads g of
              [] \<Rightarrow> Some (Inl (upgrade_failure ''migration_upgrade_profile_empty_history''))
            | [head] \<Rightarrow> upgrade_from_head g target head
            | _ \<Rightarrow> Some (Inl (upgrade_failure ''migration_upgrade_profile_divergent_heads''))))"

definition link_header_parent :: "migration_id \<Rightarrow> migration_id \<Rightarrow> migration_id edge_map \<Rightarrow> migration_id edge_map option" where
  "link_header_parent i parent children = map_option (\<lambda>s. fmupd parent (finsert i s) children) (fmlookup children parent)"

definition link_header :: "migration_id \<times> migration_id list \<Rightarrow> migration_id edge_map \<times> migration_id edge_map \<Rightarrow>
    (migration_id edge_map \<times> migration_id edge_map) option" where
  "link_header = (\<lambda>(i, parent_ids) (parents, children).
     let parent_set = fset_of_list parent_ids in
     map_option (\<lambda>children'. (fmupd i parent_set parents, children'))
       (fold (\<lambda>p c. Option.bind c (link_header_parent i p)) (sorted_list_of_fset parent_set) (Some children)))"

definition order_candidate_headers :: "(migration_id \<times> migration_id list) list \<Rightarrow> migration_id fset \<Rightarrow> migration_id list panicking" where
  "order_candidate_headers headers index_ids =
     Option.bind (fold (\<lambda>h s. Option.bind s (link_header h)) headers
         (Some (fmempty, fmap_of_list (map (\<lambda>i. (i, {||})) (sorted_list_of_fset index_ids)))))
       (\<lambda>(parents, children). order_apply_subset (fmdom parents) {||} parents children)"

section \<open>Draining is complete and ordered\<close>

definition pending_of :: "migration_id edge_map \<Rightarrow> migration_id fset \<Rightarrow> migration_id \<Rightarrow> migration_id fset" where
  "pending_of edges nodes i =
     (case fmlookup edges i of None \<Rightarrow> {||} | Some s \<Rightarrow> ffilter (\<lambda>p. p |\<in>| nodes) s)"

interpretation subset_graph: prerequisites "fset nodes" "\<lambda>i. fset (pending_of edges nodes i)" for edges nodes
  by unfold_locales (auto simp: pending_of_def split: option.splits)

definition subset_rel :: "migration_id edge_map \<Rightarrow> migration_id fset \<Rightarrow> (migration_id \<times> migration_id) set" where
  "subset_rel edges nodes = {(y, x). x |\<in>| nodes \<and> y |\<in>| pending_of edges nodes x}"

lemma drain_subset_correct:
  assumes next_edges: "\<And>x. x |\<in>| nodes \<Longrightarrow> \<exists>s. fmlookup next_edges x = Some s
      \<and> (\<forall>y. y |\<in>| nodes \<longrightarrow> (y |\<in>| s \<longleftrightarrow> x |\<in>| pending_of edges nodes y))"
  shows "\<exists>order. drain_subset next_edges (map (\<lambda>i. (i, fcard (pending_of edges nodes i))) (sorted_list_of_fset nodes))
      = (if acyclic (subset_rel edges nodes) then Some (Inr order) else Some (Inl (graph_failure ''migration_history_cycle'')))
    \<and> (acyclic (subset_rel edges nodes) \<longrightarrow> distinct order \<and> set order = fset nodes
         \<and> topo_order (\<lambda>i. fset (pending_of edges nodes i)) order)"
proof -
  let ?pre = "\<lambda>i. fset (pending_of edges nodes i)" and ?N = "fset nodes"
  let ?counts = "map (\<lambda>i. (i, fcard (pending_of edges nodes i))) (sorted_list_of_fset nodes)"
  let ?succs = "\<lambda>i. case fmlookup next_edges i of Some s \<Rightarrow> sorted_list_of_fset s | None \<Rightarrow> []"
  let ?ready = "fset_of_list (map fst (filter (\<lambda>(_, n). n = 0) ?counts))"
  have "map_of ?counts x = (if x \<in> ?N then Some (card (?pre x)) else None)" for x
    by (simp add: map_of_map_restrict restrict_map_def fcard.rep_eq)
  then have counts: "map_counts ?N ?pre [] (fmap_of_list ?counts)" by (simp add: map_counts_def fmlookup_of_list)
  have "fset ?ready = {i \<in> ?N. pending_of edges nodes i = {||}}"
    by (simp add: fset_of_list.rep_eq filter_map comp_def image_image) auto
  then have ready: "fset ?ready = subset_graph.available nodes edges (set [])"
    by (auto simp: subset_graph.available_def)
  have succs: "distinct (?succs x) \<and> (\<forall>y \<in> ?N. y \<in> set (?succs x) \<longleftrightarrow> x \<in> ?pre y)" if "x \<in> ?N" for x
    using next_edges that by fastforce
  have start: "subset_graph.progress nodes edges []" by (simp add: subset_graph.progress_def topo_order_def)
  from subset_graph.map_drain_correct [OF succs start counts ready]
  obtain remaining order where drain: "map_drain ?succs (fmap_of_list ?counts) ?ready [] = Some (remaining, order)"
    and p: "subset_graph.progress nodes edges order" "map_counts ?N ?pre order remaining"
      "subset_graph.available nodes edges (set order) = {}" by blast
  have set: "set order = ?N \<longleftrightarrow> acyclic (subset_rel edges nodes)"
    using subset_graph.finished_iff_acyclic [OF p(1,3)] by (simp add: subset_rel_def)
  have "remaining = fmempty \<longleftrightarrow> set order = ?N"
  proof -
    have "remaining = fmempty \<longleftrightarrow> (\<forall>x. fmlookup remaining x = None)" by (auto intro: fmap_ext)
    with p(1,2) show ?thesis by (auto simp: map_counts_def subset_graph.progress_def split: if_splits)
  qed
  moreover have "list_all (\<lambda>i. i |\<in>| fmdom next_edges) order"
    unfolding list_all_iff
  proof
    fix i assume "i \<in> set order"
    then have "i |\<in>| nodes" using p(1) by (auto simp: subset_graph.progress_def)
    then show "i |\<in>| fmdom next_edges" using next_edges [of i] by (auto simp: fmlookup_dom_iff)
  qed
  ultimately have "drain_subset next_edges ?counts
      = (if acyclic (subset_rel edges nodes) then Some (Inr order) else Some (Inl (graph_failure ''migration_history_cycle'')))"
    unfolding drain_subset_def Let_def drain using set by simp
  with p(1) set show ?thesis by (auto simp: subset_graph.progress_def)
qed

definition inverse_edges :: "migration_id edge_map \<Rightarrow> migration_id edge_map \<Rightarrow> bool" where
  "inverse_edges P C \<longleftrightarrow> fmdom P = fmdom C \<and> edges_closed P \<and> edges_closed C \<and> edge_rel C = (edge_rel P)\<inverse>"

lemma inverse_edges_sym: "inverse_edges P C \<Longrightarrow> inverse_edges C P"
  by (auto simp: inverse_edges_def)

lemma edge_rel_lookup: "fmlookup P i = Some s \<Longrightarrow> (i, j) \<in> edge_rel P \<longleftrightarrow> j |\<in>| s"
  by (simp add: edge_rel_def)

lemma pending_of_iff: "y |\<in>| pending_of P nodes x \<longleftrightarrow> (x, y) \<in> edge_rel P \<and> y |\<in>| nodes"
  by (auto simp: pending_of_def edge_rel_def split: option.splits)

lemma subset_rel_eq: "subset_rel P nodes = {(y, x). (x, y) \<in> edge_rel P \<and> x |\<in>| nodes \<and> y |\<in>| nodes}"
  by (auto simp: subset_rel_def pending_of_iff)

lemma subset_rel_acyclic: "acyclic (edge_rel P) \<Longrightarrow> acyclic (subset_rel P nodes)"
proof -
  assume "acyclic (edge_rel P)"
  then have "acyclic ((edge_rel P)\<inverse>)" by simp
  moreover have "subset_rel P nodes \<subseteq> (edge_rel P)\<inverse>" by (auto simp: subset_rel_eq)
  ultimately show ?thesis by (rule acyclic_subset)
qed

lemma those_count_unmet:
  assumes "set xs \<subseteq> fset (fmdom P)" "\<And>x y. x \<in> set xs \<Longrightarrow> (x, y) \<in> edge_rel P \<Longrightarrow> pending y \<longleftrightarrow> y |\<in>| nodes"
  shows "those (map (count_unmet P pending) xs) = Some (map (\<lambda>i. (i, fcard (pending_of P nodes i))) xs)"
  using assms
proof (induction xs)
  case (Cons x xs)
  then obtain s where s: "fmlookup P x = Some s" by (auto simp: fmlookup_dom_iff)
  then have "ffilter pending s = pending_of P nodes x"
    using Cons.prems(2) [of x] by (auto simp: pending_of_def edge_rel_lookup)
  with Cons s show ?case by (auto simp: count_unmet_def)
qed simp

lemma drain_inverse_cases:
  assumes "inverse_edges P C" "nodes |\<subseteq>| fmdom P"
  shows "\<exists>order. drain_subset C (map (\<lambda>i. (i, fcard (pending_of P nodes i))) (sorted_list_of_fset nodes))
      = (if acyclic (subset_rel P nodes) then Some (Inr order) else Some (Inl (graph_failure ''migration_history_cycle'')))
    \<and> (acyclic (subset_rel P nodes) \<longrightarrow> distinct order \<and> set order = fset nodes
         \<and> topo_order (\<lambda>i. fset (pending_of P nodes i)) order)"
proof (rule drain_subset_correct)
  fix x assume x: "x |\<in>| nodes"
  have "x |\<in>| fmdom C" using assms x by (auto simp: inverse_edges_def)
  then obtain s where s: "fmlookup C x = Some s" by (auto simp: fmlookup_dom_iff)
  have "y |\<in>| s \<longleftrightarrow> (y, x) \<in> edge_rel P" for y
    using assms(1) s by (simp add: inverse_edges_def edge_rel_lookup [symmetric])
  with s x show "\<exists>s. fmlookup C x = Some s \<and> (\<forall>y. y |\<in>| nodes \<longrightarrow> (y |\<in>| s \<longleftrightarrow> x |\<in>| pending_of P nodes y))"
    by (simp add: pending_of_iff)
qed

lemma drain_inverse:
  assumes "inverse_edges P C" "nodes |\<subseteq>| fmdom P" "acyclic (edge_rel P)"
  shows "\<exists>order. drain_subset C (map (\<lambda>i. (i, fcard (pending_of P nodes i))) (sorted_list_of_fset nodes)) = Some (Inr order)
    \<and> distinct order \<and> set order = fset nodes \<and> topo_order (\<lambda>i. fset (pending_of P nodes i)) order"
  using drain_inverse_cases [OF assms(1,2)] subset_rel_acyclic [OF assms(3)] by simp

lemma order_apply_counts:
  assumes "required |\<subseteq>| fmdom P" "required |\<inter>| applied = {||}"
  shows "order_apply_subset required applied P C
    = drain_subset C (map (\<lambda>i. (i, fcard (pending_of P required i))) (sorted_list_of_fset required))"
proof -
  have "those (map (count_unmet P (\<lambda>p. p |\<in>| required \<and> p |\<notin>| applied)) (sorted_list_of_fset required))
      = Some (map (\<lambda>i. (i, fcard (pending_of P required i))) (sorted_list_of_fset required))"
    using assms by (intro those_count_unmet) (auto simp: less_eq_fset.rep_eq)
  then show ?thesis by (simp add: order_apply_subset_def)
qed

lemma order_apply_correct:
  assumes "inverse_edges P C" "required |\<subseteq>| fmdom P" "required |\<inter>| applied = {||}" "acyclic (edge_rel P)"
  shows "\<exists>order. order_apply_subset required applied P C = Some (Inr order)
    \<and> distinct order \<and> set order = fset required \<and> topo_order (\<lambda>i. fset (pending_of P required i)) order"
  using drain_inverse [OF assms(1,2,4)] by (simp add: order_apply_counts [OF assms(2,3)])

lemma topological_order_correct:
  assumes "inverse_edges P C"
  shows "if acyclic (edge_rel P)
    then \<exists>order. topological_order P C = Some (Inr order) \<and> distinct order \<and> set order = fset (fmdom P)
      \<and> topo_order (\<lambda>i. edge_rel P `` {i}) order
    else topological_order P C = Some (Inl (graph_failure ''migration_history_cycle''))"
proof -
  have closed: "a |\<in>| fmdom P \<and> b |\<in>| fmdom P" if "(a, b) \<in> edge_rel P" for a b
    using assms that by (auto simp: inverse_edges_def edge_rel_def dest: edges_closedD [unfolded edge_rel_def] intro: fmdomI)
  then have "subset_rel P (fmdom P) = (edge_rel P)\<inverse>" by (auto simp: subset_rel_eq)
  moreover have "fset (pending_of P (fmdom P) i) = edge_rel P `` {i}" for i using closed by (auto simp: pending_of_iff)
  moreover have "length order = fcard (fmdom P)" if "distinct order" "set order = fset (fmdom P)" for order
    using distinct_card [OF that(1)] that(2) by (simp add: fcard.rep_eq)
  ultimately show ?thesis
    using drain_inverse_cases [OF assms, of "fmdom P"]
    by (auto simp: topological_order_def order_apply_counts split: if_splits)
qed

lemma order_rollback_correct:
  assumes "inverse_edges P C" "removals |\<subseteq>| fmdom P" "acyclic (edge_rel P)"
  shows "\<exists>order. order_rollback_subset removals P C = Some (Inr order)
    \<and> distinct order \<and> set order = fset removals \<and> topo_order (\<lambda>i. fset (pending_of C removals i)) order"
proof -
  have C: "removals |\<subseteq>| fmdom C" "acyclic (edge_rel C)" using assms by (auto simp: inverse_edges_def)
  then have "those (map (count_unmet C (\<lambda>c. c |\<in>| removals)) (sorted_list_of_fset removals))
      = Some (map (\<lambda>i. (i, fcard (pending_of C removals i))) (sorted_list_of_fset removals))"
    by (intro those_count_unmet) (auto simp: less_eq_fset.rep_eq)
  with drain_inverse [OF inverse_edges_sym [OF assms(1)] C] show ?thesis by (simp add: order_rollback_subset_def)
qed

end
