(* ===== verification/History_Plans.thy ===== *)
theory History_Plans
  imports Migration_History
begin

text \<open>
  Correctness of the history graph: which lists of manifests form a graph, that planning an
  application or a rollback on such a graph never panics, when it succeeds, and what the plan it
  returns does to the applied set.
\<close>

section \<open>The abstract history\<close>

definition known_ids :: "verified_manifest list \<Rightarrow> migration_id set" where
  "known_ids ms = manifest_id ` set ms"

definition parent_rel :: "verified_manifest list \<Rightarrow> (migration_id \<times> migration_id) set" where
  "parent_rel ms = {(manifest_id m, p) | m p. m \<in> set ms \<and> p \<in> set (manifest_parents m)}"

definition downward_closed :: "verified_manifest list \<Rightarrow> migration_id set \<Rightarrow> bool" where
  "downward_closed ms A \<longleftrightarrow> A \<subseteq> known_ids ms \<and> parent_rel ms `` A \<subseteq> A"

section \<open>Indexing the manifests\<close>

lemma insert_manifests_Inr:
  assumes "fold_res insert_manifest ms f0 = Inr f"
  shows "distinct (map manifest_id ms) \<and> known_ids ms \<inter> fset (fmdom f0) = {} \<and>
    (\<forall>i m. fmlookup f i = Some m \<longleftrightarrow> fmlookup f0 i = Some m \<or> m \<in> set ms \<and> manifest_id m = i)"
  using assms
proof (induction ms arbitrary: f0)
  case (Cons x ms)
  let ?f1 = "fmupd (manifest_id x) x f0"
  from Cons.prems have new: "manifest_id x |\<notin>| fmdom f0" and rest: "fold_res insert_manifest ms ?f1 = Inr f"
    by (auto simp: insert_manifest_def [of x] res_simps split: if_splits)
  from new have "fmlookup f0 (manifest_id x) = None" by (simp add: fmdom_notI fmdom_notD)
  with Cons.IH [OF rest] new show ?case by (auto simp: known_ids_def)
qed (simp add: known_ids_def)

lemma insert_manifests_total:
  assumes "distinct (map manifest_id ms)" "known_ids ms \<inter> fset (fmdom f0) = {}"
  shows "\<exists>f. fold_res insert_manifest ms f0 = Inr f"
  using assms
proof (induction ms arbitrary: f0)
  case (Cons x ms)
  then show ?case by (auto simp: insert_manifest_def [of x] known_ids_def intro!: Cons.IH)
qed simp

definition indexed :: "verified_manifest list \<Rightarrow> (migration_id, verified_manifest) fmap \<Rightarrow> bool" where
  "indexed ms by_id \<longleftrightarrow> distinct (map manifest_id ms)
     \<and> (\<forall>i m. fmlookup by_id i = Some m \<longleftrightarrow> m \<in> set ms \<and> manifest_id m = i)"

lemma insert_manifests_iff:
  "fold_res insert_manifest ms fmempty = Inr by_id \<longleftrightarrow> indexed ms by_id"
proof
  assume "indexed ms by_id"
  then have d: "distinct (map manifest_id ms)" by (simp add: indexed_def)
  then obtain f where f: "fold_res insert_manifest ms fmempty = Inr f"
    using insert_manifests_total [of ms fmempty] by auto
  from insert_manifests_Inr [OF this] \<open>indexed ms by_id\<close> have "fmlookup f i = Some m \<longleftrightarrow> fmlookup by_id i = Some m" for i m
    by (simp add: indexed_def)
  then have "f = by_id" by (intro fmap_ext) (metis not_Some_eq)
  with f show "fold_res insert_manifest ms fmempty = Inr by_id" by simp
next
  assume "fold_res insert_manifest ms fmempty = Inr by_id"
  from insert_manifests_Inr [OF this] show "indexed ms by_id" by (simp add: indexed_def)
qed

lemma indexed_exists: "distinct (map manifest_id ms) \<Longrightarrow> \<exists>by_id. indexed ms by_id"
  using insert_manifests_total [of ms fmempty] by (auto simp: insert_manifests_iff)

lemma indexed_dom: "indexed ms by_id \<Longrightarrow> fset (fmdom by_id) = known_ids ms"
  by (auto simp: indexed_def known_ids_def fmlookup_dom_iff)

lemma indexed_entries: "indexed ms by_id \<Longrightarrow> (i, m) \<in> set (sorted_list_of_fmap by_id) \<longleftrightarrow> m \<in> set ms \<and> manifest_id m = i"
  by (simp add: indexed_def set_sorted_list_of_fmap)

lemma indexed_set: "indexed ms by_id \<Longrightarrow> set (sorted_list_of_fmap by_id) = (\<lambda>m. (manifest_id m, m)) ` set ms"
  by (auto simp: indexed_entries)

lemma indexed_entries_distinct: "distinct (map fst (sorted_list_of_fmap by_id))"
  by (simp add: sorted_list_of_fmap_def comp_def)

section \<open>Linking the edges\<close>

lemma link_parents_fold:
  assumes "fmdom children = fmdom by_id"
  shows "if set ps \<subseteq> fset (fmdom by_id)
    then \<exists>c. fold_panicking (link_parent by_id i) ps children = Some (Inr c) \<and> fmdom c = fmdom by_id
      \<and> edge_rel c = edge_rel children \<union> set ps \<times> {i}
    else \<exists>e. fold_panicking (link_parent by_id i) ps children = Some (Inl e)"
  using assms
proof (induction ps arbitrary: children)
  case (Cons p ps)
  show ?case
  proof (cases "p |\<in>| fmdom by_id")
    case True
    then have "p |\<in>| fmdom children" using Cons.prems by simp
    then obtain s where s: "fmlookup children p = Some s" by (auto simp: fmlookup_dom_iff)
    let ?c = "fmupd p (finsert i s) children"
    have "link_parent by_id i p children = Some (Inr ?c)" using True s by (simp add: link_parent_def)
    moreover have "fmdom ?c = fmdom by_id" using Cons.prems True by auto
    moreover have "edge_rel ?c = insert (p, i) (edge_rel children)" using s by (auto simp: edge_rel_def split: if_splits)
    ultimately show ?thesis using Cons.IH [of ?c] True by auto
  qed (simp add: link_parent_def)
qed simp

lemma link_nodes_fold:
  assumes "fmdom children = fmdom by_id" "distinct (map fst entries)" "fst ` set entries \<inter> fset (fmdom parents) = {}"
  shows "if \<forall>(i, m) \<in> set entries. i \<notin> set (manifest_parents m) \<and> set (manifest_parents m) \<subseteq> fset (fmdom by_id)
    then \<exists>p c. fold_panicking (link_node by_id) entries (parents, children) = Some (Inr (p, c)) \<and> fmdom c = fmdom by_id
      \<and> fset (fmdom p) = fset (fmdom parents) \<union> fst ` set entries
      \<and> edge_rel p = edge_rel parents \<union> {(i, q). \<exists>m. (i, m) \<in> set entries \<and> q \<in> set (manifest_parents m)}
      \<and> edge_rel c = edge_rel children \<union> {(q, i). \<exists>m. (i, m) \<in> set entries \<and> q \<in> set (manifest_parents m)}
    else \<exists>e. fold_panicking (link_node by_id) entries (parents, children) = Some (Inl e)"
  using assms
proof (induction entries arbitrary: parents children)
  case (Cons entry entries)
  obtain i m where e: "entry = (i, m)" by force
  let ?d = "fset_of_list (manifest_parents m)"
  note link = link_parents_fold [OF Cons.prems(1), of "sorted_list_of_fset ?d" i]
  show ?case
  proof (cases "i \<notin> set (manifest_parents m) \<and> set (manifest_parents m) \<subseteq> fset (fmdom by_id)")
    case True
    with link obtain c where c: "fold_panicking (link_parent by_id i) (sorted_list_of_fset ?d) children = Some (Inr c)"
      "fmdom c = fmdom by_id" "edge_rel c = edge_rel children \<union> set (manifest_parents m) \<times> {i}"
      by (auto simp: fset_of_list.rep_eq)
    let ?p = "fmupd i ?d parents"
    have step: "link_node by_id entry (parents, children) = Some (Inr (?p, c))"
      using True c(1) by (simp add: link_node_def e fset_of_list_elem)
    have "fmlookup parents i = None" using Cons.prems(3) e by (simp add: fmdom_notD)
    then have p: "edge_rel ?p = edge_rel parents \<union> {i} \<times> set (manifest_parents m)"
      by (auto simp: edge_rel_def fset_of_list_elem split: if_splits)
    have "fst ` set entries \<inter> fset (fmdom ?p) = {}" using Cons.prems(2,3) e by auto
    from Cons.IH [OF c(2) _ this] Cons.prems(2) show ?thesis
      using True unfolding fold_panicking.simps step bind_panicking_simps p c(3)
      by (auto simp: e split: if_splits)
  next
    case False
    then have "\<exists>e. link_node by_id entry (parents, children) = Some (Inl e)"
      using link by (cases "i \<in> set (manifest_parents m)") (auto simp: link_node_def Let_def e fset_of_list_elem fset_of_list.rep_eq)
    with False show ?thesis by (auto simp: e)
  qed
qed simp

lemma parent_rel_entries:
  assumes "indexed ms by_id"
  shows "{(i, q). \<exists>m. (i, m) \<in> set (sorted_list_of_fmap by_id) \<and> q \<in> set (manifest_parents m)} = parent_rel ms"
    and "{(q, i). \<exists>m. (i, m) \<in> set (sorted_list_of_fmap by_id) \<and> q \<in> set (manifest_parents m)} = (parent_rel ms)\<inverse>"
  by (auto simp: parent_rel_def indexed_entries [OF assms])

lemma edge_rel_empty_entries: "edge_rel (fmap_of_list (map (\<lambda>i. (i, {||})) xs)) = {}"
  by (auto simp: edge_rel_def fmlookup_of_list dest!: map_of_SomeD)

lemma edge_rel_fmempty [simp]: "edge_rel fmempty = {}"
  by (simp add: edge_rel_def)

lemma edges_closedI: "(\<And>a b. (a, b) \<in> edge_rel E \<Longrightarrow> b |\<in>| fmdom E) \<Longrightarrow> edges_closed E"
  by (auto simp: edges_closed_def edge_rel_def intro!: fmpredI)

lemma link_all:
  assumes ix: "indexed ms by_id"
  defines "r \<equiv> fold_panicking (link_node by_id) (sorted_list_of_fmap by_id)
         (fmempty, fmap_of_list (map (\<lambda>i. (i, {||})) (fm_keys by_id)))"
  shows "if (\<forall>i. (i, i) \<notin> parent_rel ms) \<and> snd ` parent_rel ms \<subseteq> known_ids ms
    then \<exists>P C. r = Some (Inr (P, C)) \<and> fmdom P = fmdom by_id \<and> inverse_edges P C \<and> edge_rel P = parent_rel ms
    else \<exists>e. r = Some (Inl e)"
proof -
  let ?c = "fmap_of_list (map (\<lambda>i. (i, {||})) (fm_keys by_id)) :: migration_id edge_map"
  let ?ok = "\<forall>(i, m) \<in> set (sorted_list_of_fmap by_id). i \<notin> set (manifest_parents m) \<and> set (manifest_parents m) \<subseteq> fset (fmdom by_id)"
  have dom: "fmdom ?c = fmdom by_id"
    by (simp add: fset_eq_iff fset_of_list_elem comp_def)
  have ok: "?ok \<longleftrightarrow> (\<forall>i. (i, i) \<notin> parent_rel ms) \<and> snd ` parent_rel ms \<subseteq> known_ids ms"
    unfolding indexed_dom [OF ix] indexed_set [OF ix] by (auto simp: parent_rel_def image_subset_iff)
  have keys: "fst ` set (sorted_list_of_fmap by_id) = fset (fmdom by_id)"
    by (auto simp: sorted_list_of_fmap_def image_image)
  have link: "if ?ok
    then \<exists>p c. r = Some (Inr (p, c)) \<and> fmdom c = fmdom by_id \<and> fset (fmdom p) = fset (fmdom by_id)
      \<and> edge_rel p = parent_rel ms \<and> edge_rel c = (parent_rel ms)\<inverse>
    else \<exists>e. r = Some (Inl e)"
    using link_nodes_fold [OF dom indexed_entries_distinct [of by_id], of fmempty]
    unfolding keys parent_rel_entries [OF ix] edge_rel_empty_entries r_def [symmetric] by (simp split: if_splits) blast
  show ?thesis
  proof (cases ?ok)
    case True
    with link obtain P C where r: "r = Some (Inr (P, C))" and d: "fmdom C = fmdom by_id" "fset (fmdom P) = fset (fmdom by_id)"
      and e: "edge_rel P = parent_rel ms" "edge_rel C = (parent_rel ms)\<inverse>"
      by auto
    have P: "fmdom P = fmdom by_id" using d(2) by (simp add: fset_inject)
    have known: "a |\<in>| fmdom by_id \<and> b |\<in>| fmdom by_id" if "(a, b) \<in> parent_rel ms" for a b
      using that ok True indexed_dom [OF ix] by (force simp: parent_rel_def known_ids_def)
    then have "inverse_edges P C"
      by (auto simp: inverse_edges_def P d(1) e intro!: edges_closedI)
    then show ?thesis using True r P e(1) unfolding ok by auto
  next
    case False
    then show ?thesis using link ok by auto
  qed
qed

section \<open>Bridges\<close>

lemma at_most_one: "distinct (x # xs) \<Longrightarrow> xs = [] \<longleftrightarrow> (\<forall>y \<in> set (x # xs). y = x)"
  by (cases xs) auto

lemma indexed_values: "indexed ms by_id \<Longrightarrow> set (fm_values by_id) = set ms"
  by (auto simp: set_fm_values indexed_def)

lemma indexed_values_ids: "indexed ms by_id \<Longrightarrow> map manifest_id (fm_values by_id) = fm_keys by_id"
  unfolding fm_values_conv map_map comp_def
  by (intro map_idI) (metis fmdomE indexed_def option.sel set_fm_keys)

lemma indexed_values_distinct: "indexed ms by_id \<Longrightarrow> distinct (fm_values by_id)"
  using indexed_values_ids [of ms by_id] distinct_fm_keys [of by_id] by (metis distinct_map)

lemma indexed_inj: "indexed ms by_id \<Longrightarrow> a \<in> set ms \<Longrightarrow> b \<in> set ms \<Longrightarrow> manifest_id a = manifest_id b \<Longrightarrow> a = b"
  by (auto simp: indexed_def distinct_map dest: inj_onD)

definition sole_legacy_root :: "verified_manifest list \<Rightarrow> bool" where
  "sole_legacy_root ms \<longleftrightarrow>
     (\<forall>b \<in> set ms. is_legacy_bridge b \<longrightarrow> (\<forall>m \<in> set ms. is_legacy_bridge m \<or> manifest_parents m = [] \<longrightarrow> m = b))"

lemma validate_legacy_bridges_iff:
  assumes "indexed ms by_id"
  shows "validate_legacy_bridges by_id = Inr u \<longleftrightarrow> sole_legacy_root ms"
proof -
  let ?bs = "filter is_legacy_bridge (fm_values by_id)"
  have set: "set ?bs = {m \<in> set ms. is_legacy_bridge m}" using indexed_values [OF assms] by auto
  have distinct: "distinct ?bs" by (simp add: indexed_values_distinct [OF assms])
  have roots: "list_ex (\<lambda>(i, m). manifest_parents m = [] \<and> i \<noteq> manifest_id b) (sorted_list_of_fmap by_id)
      \<longleftrightarrow> (\<exists>m \<in> set ms. manifest_parents m = [] \<and> m \<noteq> b)" if "b \<in> set ms" for b
    using indexed_inj [OF assms _ that] by (auto simp: list_ex_iff indexed_set [OF assms])
  show ?thesis
  proof (cases ?bs)
    case Nil
    then have "\<not> (\<exists>b \<in> set ms. is_legacy_bridge b)" using set by auto
    with Nil show ?thesis by (auto simp: validate_legacy_bridges_def Let_def sole_legacy_root_def)
  next
    case (Cons b bs)
    then have b: "b \<in> set ms" "is_legacy_bridge b" using set by auto
    have "bs = [] \<longleftrightarrow> (\<forall>x \<in> set ms. is_legacy_bridge x \<longrightarrow> x = b)"
      using at_most_one [OF distinct [unfolded Cons]] unfolding set [unfolded Cons] by auto
    moreover have "validate_legacy_bridges by_id = Inr u \<longleftrightarrow> bs = [] \<and> \<not> (\<exists>m \<in> set ms. manifest_parents m = [] \<and> m \<noteq> b)"
      by (simp add: validate_legacy_bridges_def Let_def Cons roots [OF b(1)])
    moreover have "sole_legacy_root ms \<longleftrightarrow> (\<forall>m \<in> set ms. is_legacy_bridge m \<or> manifest_parents m = [] \<longrightarrow> m = b)"
      unfolding sole_legacy_root_def using b by blast
    ultimately show ?thesis by (simp only:) blast
  qed
qed

definition on_profile :: "verified_manifest \<Rightarrow> profile_binding \<times> profile_binding" where
  "on_profile m = (manifest_semantic_profile m, manifest_lowering_profile m)"

definition profile_before :: "profile_bridge \<Rightarrow> profile_binding \<times> profile_binding" where
  "profile_before b = (bridge_from_semantic_profile b, bridge_from_lowering_profile b)"

definition lineage_edge :: "verified_manifest \<Rightarrow> verified_manifest \<Rightarrow> bool" where
  "lineage_edge m parent \<longleftrightarrow>
     (case manifest_profile_bridge m of
        Some bridge \<Rightarrow> on_profile parent = profile_before bridge \<and> manifest_target_state parent = manifest_source_state m
      | None \<Rightarrow> on_profile parent = on_profile m)"

definition profile_lineage :: "verified_manifest list \<Rightarrow> bool" where
  "profile_lineage ms \<longleftrightarrow>
     (\<forall>m \<in> set ms. \<forall>p \<in> set ms. (manifest_id m, manifest_id p) \<in> parent_rel ms \<longrightarrow> lineage_edge m p)
     \<and> (\<forall>b \<in> set ms. is_profile_bridge b \<longrightarrow> (\<forall>m \<in> set ms. is_profile_bridge m \<longrightarrow> m = b)
          \<and> (\<forall>m \<in> set ms. m = b \<or> (manifest_id b, manifest_id m) \<in> (parent_rel ms)\<^sup>+ \<or> (manifest_id m, manifest_id b) \<in> (parent_rel ms)\<^sup>+))"

lemma check_lineage_edge_eq:
  assumes "fmlookup by_id q = Some parent"
  shows "check_lineage_edge by_id m q () \<noteq> None" "check_lineage_edge by_id m q () = Some (Inr ()) \<longleftrightarrow> lineage_edge m parent"
  using assms
  by (auto simp: check_lineage_edge_def lineage_edge_def on_profile_def profile_before_def split: option.splits)

lemma check_lineage_node_eq:
  assumes ix: "indexed ms by_id" and P: "fmdom P = fmdom by_id" "edge_rel P = parent_rel ms" "edges_closed P" and m: "m \<in> set ms"
  shows "check_lineage_node by_id P (manifest_id m, m) () \<noteq> None"
    and "check_lineage_node by_id P (manifest_id m, m) () = Some (Inr ()) \<longleftrightarrow>
      (\<forall>p \<in> set ms. (manifest_id m, manifest_id p) \<in> parent_rel ms \<longrightarrow> lineage_edge m p)"
proof -
  have "manifest_id m |\<in>| fmdom P" using m P(1) indexed_dom [OF ix] by (simp add: known_ids_def)
  then obtain ps where ps: "fmlookup P (manifest_id m) = Some ps" by (auto simp: fmlookup_dom_iff)
  then have rel: "q |\<in>| ps \<longleftrightarrow> (manifest_id m, q) \<in> parent_rel ms" for q by (simp add: P(2) [symmetric] edge_rel_lookup)
  have lookup: "\<exists>parent. fmlookup by_id q = Some parent \<and> parent \<in> set ms \<and> manifest_id parent = q" if "q |\<in>| ps" for q
    using edges_closedD [OF P(3), of "manifest_id m" q] ps that P(1) ix
    by (auto simp: edge_rel_lookup fmlookup_dom_iff indexed_def)
  show "check_lineage_node by_id P (manifest_id m, m) () \<noteq> None"
    unfolding check_lineage_node_def prod.case ps option.case
  proof (rule fold_panicking_checks(2))
    show "check_lineage_edge by_id m q () \<noteq> None" if "q \<in> set (sorted_list_of_fset ps)" for q
      using lookup [of q] that check_lineage_edge_eq(1) by auto
  qed
  have edge: "check_lineage_edge by_id m (manifest_id p) () = Some (Inr ()) \<longleftrightarrow> lineage_edge m p" if "p \<in> set ms" for p
    using ix that by (intro check_lineage_edge_eq(2)) (simp add: indexed_def)
  have ps_eq: "fset ps = manifest_id ` {p \<in> set ms. (manifest_id m, manifest_id p) \<in> parent_rel ms}"
    using lookup rel by fastforce
  show "check_lineage_node by_id P (manifest_id m, m) () = Some (Inr ()) \<longleftrightarrow>
      (\<forall>p \<in> set ms. (manifest_id m, manifest_id p) \<in> parent_rel ms \<longrightarrow> lineage_edge m p)"
    unfolding check_lineage_node_def prod.case ps option.case fold_panicking_checks(1) set_sorted_list_of_fset ps_eq
    by (auto simp: edge)
qed

lemma check_bridge_lineage_iff:
  "check_bridge_lineage b A D (i, m) () = Inr () \<longleftrightarrow> i = manifest_id b \<or> i |\<in>| A \<or> i |\<in>| D"
  by (auto simp: check_bridge_lineage_def)

lemma bridge_fold_iff:
  assumes ix: "indexed ms by_id" and b: "b \<in> set ms"
    and A: "fset A = (parent_rel ms)\<^sup>+ `` {manifest_id b}" and D: "fset D = ((parent_rel ms)\<inverse>)\<^sup>+ `` {manifest_id b}"
  shows "fold_res (check_bridge_lineage b A D) (sorted_list_of_fmap by_id) () = Inr u \<longleftrightarrow>
    (\<forall>m \<in> set ms. m = b \<or> (manifest_id b, manifest_id m) \<in> (parent_rel ms)\<^sup>+ \<or> (manifest_id m, manifest_id b) \<in> (parent_rel ms)\<^sup>+)"
proof -
  have "i |\<in>| A \<longleftrightarrow> (manifest_id b, i) \<in> (parent_rel ms)\<^sup>+" "i |\<in>| D \<longleftrightarrow> (i, manifest_id b) \<in> (parent_rel ms)\<^sup>+" for i
    using A D by (auto simp: trancl_converse)
  moreover have "manifest_id m = manifest_id b \<longleftrightarrow> m = b" if "m \<in> set ms" for m
    using indexed_inj [OF ix that b] by auto
  ultimately show ?thesis by (simp add: fold_res_checks indexed_set [OF ix] check_bridge_lineage_iff)
qed

lemma fold_panicking_decides:
  fixes f :: "'a \<Rightarrow> unit \<Rightarrow> ('e + unit) option"
  assumes "\<And>x. x \<in> set xs \<Longrightarrow> f x () \<noteq> None"
  shows "if \<forall>x \<in> set xs. f x () = Some (Inr ()) then fold_panicking f xs () = Some (Inr ()) else \<exists>e. fold_panicking f xs () = Some (Inl e)"
proof (cases "fold_panicking f xs ()")
  case None
  then show ?thesis using fold_panicking_checks(2) [of xs f] assms by blast
next
  case (Some r)
  then show ?thesis using fold_panicking_checks(1) [of f xs "()"] by (cases r) simp_all
qed

lemma lineage_nodes:
  assumes ix: "indexed ms by_id" and P: "fmdom P = fmdom by_id" "edge_rel P = parent_rel ms" "edges_closed P"
  shows "if \<forall>m \<in> set ms. \<forall>p \<in> set ms. (manifest_id m, manifest_id p) \<in> parent_rel ms \<longrightarrow> lineage_edge m p
    then fold_panicking (check_lineage_node by_id P) (sorted_list_of_fmap by_id) () = Some (Inr ())
    else \<exists>e. fold_panicking (check_lineage_node by_id P) (sorted_list_of_fmap by_id) () = Some (Inl e)"
proof -
  note node = check_lineage_node_eq [OF assms]
  have "check_lineage_node by_id P x () \<noteq> None" if "x \<in> set (sorted_list_of_fmap by_id)" for x
    using that node(1) by (auto simp: indexed_set [OF ix])
  from fold_panicking_decides [of "sorted_list_of_fmap by_id" "check_lineage_node by_id P", OF this] show ?thesis by (simp add: indexed_set [OF ix] node(2))
qed

lemma validate_profile_lineage_correct:
  assumes ix: "indexed ms by_id" and inv: "inverse_edges P C" and P: "fmdom P = fmdom by_id" "edge_rel P = parent_rel ms"
  shows "if profile_lineage ms then validate_profile_lineage by_id P C = Some (Inr ())
    else \<exists>e. validate_profile_lineage by_id P C = Some (Inl e)"
proof -
  let ?bs = "filter is_profile_bridge (fm_values by_id)"
  define edges where "edges \<longleftrightarrow> (\<forall>m \<in> set ms. \<forall>p \<in> set ms. (manifest_id m, manifest_id p) \<in> parent_rel ms \<longrightarrow> lineage_edge m p)"
  have bs: "set ?bs = {m \<in> set ms. is_profile_bridge m}" "distinct ?bs"
    using indexed_values [OF ix] indexed_values_distinct [OF ix] by auto
  have closed: "edges_closed P" "edges_closed C" and C: "fmdom C = fmdom by_id" "edge_rel C = (parent_rel ms)\<inverse>"
    using inv P by (auto simp: inverse_edges_def)
  note nodes = lineage_nodes [OF ix P closed(1), folded edges_def]
  show ?thesis
  proof (cases ?bs)
    case Nil
    then have "profile_lineage ms \<longleftrightarrow> edges" using bs(1) by (auto simp: profile_lineage_def edges_def)
    with nodes Nil show ?thesis by (cases edges) (auto simp: validate_profile_lineage_def Let_def)
  next
    case (Cons b bs')
    then have b: "b \<in> set ms" "is_profile_bridge b" using bs by auto
    then have "manifest_id b |\<in>| fmdom P" "manifest_id b |\<in>| fmdom C" using P(1) C(1) indexed_dom [OF ix] by (simp_all add: known_ids_def)
    with closed obtain A D where AD: "reachable (manifest_id b) P = Some A" "reachable (manifest_id b) C = Some D"
      and "fset A = (parent_rel ms)\<^sup>+ `` {manifest_id b}" "fset D = ((parent_rel ms)\<inverse>)\<^sup>+ `` {manifest_id b}"
      using reachable_spec P(2) C(2) by metis
    note fold = bridge_fold_iff [OF ix b(1) this(3,4)]
    let ?comparable = "\<forall>m \<in> set ms. m = b \<or> (manifest_id b, manifest_id m) \<in> (parent_rel ms)\<^sup>+ \<or> (manifest_id m, manifest_id b) \<in> (parent_rel ms)\<^sup>+"
    have one: "bs' = [] \<longleftrightarrow> (\<forall>x \<in> set ms. is_profile_bridge x \<longrightarrow> x = b)"
      using at_most_one [OF bs(2) [unfolded Cons]] unfolding bs(1) [unfolded Cons] by auto
    have spec: "profile_lineage ms \<longleftrightarrow> edges \<and> bs' = [] \<and> ?comparable"
      unfolding profile_lineage_def one edges_def using b by blast
    let ?fold = "fold_res (check_bridge_lineage b A D) (sorted_list_of_fmap by_id) ()"
    have result: "?fold = Inr () \<longleftrightarrow> ?comparable" by (rule fold)
    have "validate_profile_lineage by_id P C = (if bs' \<noteq> [] then Some (Inl (graph_failure ''migration_history_multiple_profile_bridges''))
       else bind_panicking (fold_panicking (check_lineage_node by_id P) (sorted_list_of_fmap by_id) ()) (\<lambda>_. Some ?fold))"
      by (simp add: validate_profile_lineage_def Let_def Cons AD)
    with nodes spec result show ?thesis
      by (cases edges; cases ?fold) (simp_all only: if_True if_False bind_panicking_simps, auto)
  qed
qed

section \<open>Building the graph\<close>

definition valid_history :: "verified_manifest list \<Rightarrow> bool" where
  "valid_history ms \<longleftrightarrow> distinct (map manifest_id ms) \<and> snd ` parent_rel ms \<subseteq> known_ids ms
     \<and> acyclic (parent_rel ms) \<and> sole_legacy_root ms \<and> profile_lineage ms"

definition graph_of :: "verified_manifest list \<Rightarrow> history_graph \<Rightarrow> bool" where
  "graph_of ms g \<longleftrightarrow> indexed ms (graph_manifests g)
     \<and> fmdom (graph_parents g) = fmdom (graph_manifests g) \<and> edge_rel (graph_parents g) = parent_rel ms
     \<and> inverse_edges (graph_parents g) (graph_children g)
     \<and> distinct (graph_topological g) \<and> set (graph_topological g) = known_ids ms
     \<and> topo_order (\<lambda>i. parent_rel ms `` {i}) (graph_topological g)
     \<and> graph_heads g = sorted_list_of_set (known_ids ms - snd ` parent_rel ms)"

lemma heads_eq:
  assumes "fset (fmdom C) = N" "edge_rel C = R\<inverse>"
  shows "map fst (filter (\<lambda>(_, cs). cs = {||}) (sorted_list_of_fmap C)) = sorted_list_of_set (N - snd ` R)"
proof -
  let ?xs = "map fst (filter (\<lambda>(_, cs). cs = {||}) (sorted_list_of_fmap C))"
  have "sorted_list_of_fmap C = map (\<lambda>k. (k, the (fmlookup C k))) (sorted_list_of_fset (fmdom C))"
    by (simp add: sorted_list_of_fmap_def)
  then have xs: "?xs = filter (\<lambda>k. the (fmlookup C k) = {||}) (sorted_list_of_fset (fmdom C))"
    by (simp add: filter_map comp_def)
  have "the (fmlookup C k) = {||} \<longleftrightarrow> k \<notin> snd ` R" if k: "k \<in> N" for k
  proof -
    obtain s where s: "fmlookup C k = Some s" using k assms(1) by (auto simp: fmlookup_dom_iff)
    have "i |\<in>| s \<longleftrightarrow> (i, k) \<in> R" for i using edge_rel_lookup [OF s] assms(2) by auto
    then show ?thesis using s by (force simp: fset_eq_iff)
  qed
  then have "set ?xs = N - snd ` R" unfolding xs using assms(1) by auto
  moreover have "sorted ?xs" "distinct ?xs" unfolding xs by (simp_all add: sorted_wrt_filter)
  ultimately show ?thesis by (metis sorted_list_of_set.idem_if_sorted_distinct)
qed

lemma build_outcome:
  assumes ix: "indexed ms by_id" and legacy: "validate_legacy_bridges by_id = Inr ()" "sole_legacy_root ms"
    and linked: "fold_panicking (link_node by_id) (sorted_list_of_fmap by_id) (fmempty, fmap_of_list (map (\<lambda>i. (i, {||})) (fm_keys by_id)))
        = Some (Inr (P, C))"
    and P: "fmdom P = fmdom by_id" "inverse_edges P C" "edge_rel P = parent_rel ms" "snd ` parent_rel ms \<subseteq> known_ids ms"
  shows "if valid_history ms then \<exists>g. from_verified ms = Some (Inr g) \<and> graph_of ms g
    else \<exists>e. from_verified ms = Some (Inl e)"
proof -
  note simps = from_verified_def insert_manifests_iff [THEN iffD2, OF ix] bind_panicking_simps prod.case
  note topo = topological_order_correct [OF P(2), unfolded P(3)]
    and lineage = validate_profile_lineage_correct [OF ix P(2,1,3)]
  have heads: "map fst (filter (\<lambda>(_, cs). cs = {||}) (sorted_list_of_fmap C)) = sorted_list_of_set (known_ids ms - snd ` parent_rel ms)"
    using P(1-3) indexed_dom [OF ix] by (intro heads_eq) (auto simp: inverse_edges_def)
  have valid: "valid_history ms \<longleftrightarrow> acyclic (parent_rel ms) \<and> profile_lineage ms"
    using ix legacy(2) P(4) by (simp add: valid_history_def indexed_def)
  show ?thesis
  proof (cases "acyclic (parent_rel ms)")
    case acyclic: True
    with topo obtain order where order: "topological_order P C = Some (Inr order)" "distinct order" "set order = fset (fmdom P)"
      "topo_order (\<lambda>i. parent_rel ms `` {i}) order" by auto
    then show ?thesis using acyclic lineage ix legacy linked P indexed_dom [OF ix]
      by (cases "profile_lineage ms") (auto simp: simps valid graph_of_def heads)
  qed (use topo legacy(1) linked in \<open>simp add: simps valid\<close>)
qed

lemma from_verified_decides:
  "if valid_history ms then \<exists>g. from_verified ms = Some (Inr g) \<and> graph_of ms g
   else \<exists>e. from_verified ms = Some (Inl e)"
proof (cases "distinct (map manifest_id ms)")
  case False
  then have "\<not> (\<exists>by_id. fold_res insert_manifest ms fmempty = Inr by_id)" by (simp add: insert_manifests_iff indexed_def)
  then obtain e where "fold_res insert_manifest ms fmempty = Inl e" by (metis sum.exhaust)
  with False show ?thesis by (simp add: from_verified_def valid_history_def)
next
  case True
  then obtain by_id where ix: "indexed ms by_id" using indexed_exists by blast
  have linked: "(\<forall>i. (i, i) \<notin> parent_rel ms) \<and> snd ` parent_rel ms \<subseteq> known_ids ms" if "valid_history ms"
    using that by (auto simp: valid_history_def acyclic_def)
  let ?r = "fold_panicking (link_node by_id) (sorted_list_of_fmap by_id) (fmempty, fmap_of_list (map (\<lambda>i. (i, {||})) (fm_keys by_id)))"
  note simps = from_verified_def insert_manifests_iff [THEN iffD2, OF ix] bind_panicking_simps prod.case
  consider (legacy) e where "validate_legacy_bridges by_id = Inl e" "\<not> sole_legacy_root ms"
    | (edges) e where "validate_legacy_bridges by_id = Inr ()" "?r = Some (Inl e)" "\<not> valid_history ms"
    | (built) P C where "validate_legacy_bridges by_id = Inr ()" "sole_legacy_root ms" "?r = Some (Inr (P, C))" "fmdom P = fmdom by_id"
        "inverse_edges P C" "edge_rel P = parent_rel ms" "snd ` parent_rel ms \<subseteq> known_ids ms"
  proof (cases "validate_legacy_bridges by_id")
    case (Inl e)
    then show thesis using validate_legacy_bridges_iff [OF ix] legacy by auto
  next
    case (Inr u)
    then show thesis using validate_legacy_bridges_iff [OF ix] link_all [OF ix] linked edges built by (auto split: if_splits)
  qed
  then show ?thesis
  proof cases
    case legacy
    then show ?thesis by (simp add: simps valid_history_def)
  next
    case edges
    then show ?thesis unfolding simps by (simp only: bind_panicking_simps if_False) blast
  next
    case built
    with ix show ?thesis by (intro build_outcome)
  qed
qed

text \<open>
  C11. Building the history graph never panics, and it succeeds exactly on the lists of manifests that
  form a valid history: distinct identities, every parent known, no cycle of parents, a legacy bridge
  that is the only bridge of its kind and the only root, and one profile lineage. The graph it returns
  indexes those manifests, holds their parent relation and its inverse, orders them parents first and
  lists exactly the identities without a child as heads.
\<close>

theorem from_verified_exact:
  "if valid_history ms then \<exists>g. from_verified ms = Some (Inr g) \<and> graph_of ms g
   else \<exists>e. from_verified ms = Some (Inl e)"
  by (rule from_verified_decides)

lemma from_verified_graph: "from_verified ms = Some (Inr g) \<Longrightarrow> valid_history ms \<and> graph_of ms g"
  using from_verified_decides [of ms] by (auto split: if_splits)

section \<open>Planning\<close>

lemma validate_applied_iff:
  assumes "graph_of ms g"
  shows "validate_applied g applied = Inr u \<longleftrightarrow> downward_closed ms (fset applied)"
proof -
  have node: "validate_applied_node g applied i () = Inr () \<longleftrightarrow> i \<in> known_ids ms \<and> parent_rel ms `` {i} \<subseteq> fset applied" for i
  proof -
    have "i \<in> known_ids ms \<longleftrightarrow> (\<exists>s. fmlookup (graph_parents g) i = Some s)"
      using assms indexed_dom [of ms "graph_manifests g"] by (auto simp: graph_of_def fmlookup_dom_iff set_eq_iff)
    moreover have "fset s = parent_rel ms `` {i}" if "fmlookup (graph_parents g) i = Some s" for s
      using assms edge_rel_lookup [OF that] by (auto simp: graph_of_def)
    ultimately show ?thesis by (auto simp: validate_applied_node_def less_eq_fset.rep_eq split: option.splits)
  qed
  show ?thesis unfolding validate_applied_def fold_res_checks downward_closed_def by (auto simp: node)
qed

lemma applied_prefix_closed:
  assumes "topo_order pre order" "\<And>i. i \<in> set order \<Longrightarrow> R `` {i} \<subseteq> pre i \<union> A" "R `` A \<subseteq> A"
  shows "R `` (A \<union> set (take k order)) \<subseteq> A \<union> set (take k order)"
proof -
  have "R `` {x} \<subseteq> A \<union> set (take k order)" if x: "x \<in> set (take k order)" for x
  proof -
    from x obtain j where j: "j < length order" "j < k" "x = order ! j" by (auto simp: in_set_conv_nth)
    then have "pre x \<subseteq> set (take j order)" using assms(1) by (simp add: topo_order_def)
    moreover have "set (take j order) \<subseteq> set (take k order)" using j(2) by (simp add: set_take_subset_set_take)
    moreover have "x \<in> set order" using j by simp
    ultimately show ?thesis using assms(2) [of x] by blast
  qed
  then show ?thesis using assms(3) by blast
qed

lemma graph_facts:
  assumes "from_verified ms = Some (Inr g)"
  shows "graph_of ms g" "acyclic (edge_rel (graph_parents g))" "edges_closed (graph_parents g)"
    and "inverse_edges (graph_parents g) (graph_children g)"
    and "edge_rel (graph_parents g) = parent_rel ms" "edge_rel (graph_children g) = (parent_rel ms)\<inverse>"
    and "fset (fmdom (graph_parents g)) = known_ids ms" "(parent_rel ms)\<^sup>* `` known_ids ms \<subseteq> known_ids ms"
proof -
  from from_verified_graph [OF assms] have g: "valid_history ms" "graph_of ms g" by simp_all
  then show "graph_of ms g" "acyclic (edge_rel (graph_parents g))" "edges_closed (graph_parents g)"
    "inverse_edges (graph_parents g) (graph_children g)" "edge_rel (graph_parents g) = parent_rel ms"
    "edge_rel (graph_children g) = (parent_rel ms)\<inverse>" "fset (fmdom (graph_parents g)) = known_ids ms"
    using indexed_dom [of ms "graph_manifests g"] by (auto simp: valid_history_def graph_of_def inverse_edges_def)
  have "parent_rel ms `` known_ids ms \<subseteq> known_ids ms" using g(1) by (force simp: valid_history_def)
  then show "(parent_rel ms)\<^sup>* `` known_ids ms \<subseteq> known_ids ms" by (simp add: Image_closed_trancl)
qed

lemma validate_applied_rejects:
  assumes "graph_of ms g" "\<not> downward_closed ms (fset applied)"
  obtains e where "validate_applied g applied = Inl e"
  using validate_applied_iff [OF assms(1), of applied] assms(2) by (cases "validate_applied g applied") auto

lemma plan_apply_decides:
  assumes built: "from_verified ms = Some (Inr g)"
  shows "if downward_closed ms (fset applied) \<and> fset targets \<subseteq> known_ids ms
    then \<exists>order. plan_apply g applied targets = Some (Inr order) \<and> distinct order
      \<and> set order = (parent_rel ms)\<^sup>* `` fset targets - fset applied
      \<and> (\<forall>k. validate_applied g (applied |\<union>| fset_of_list (take k order)) = Inr ())
    else \<exists>e. plan_apply g applied targets = Some (Inl e)"
proof -
  let ?P = "graph_parents g" and ?C = "graph_children g"
  let ?closure = "closure_loop ?P (rev (sorted_list_of_fset targets)) {||}"
  note g = graph_facts [OF built] and valid = validate_applied_iff [OF graph_facts(1) [OF built]]
  consider (bad) "\<not> downward_closed ms (fset applied)"
    | (unknown) "downward_closed ms (fset applied)" "\<not> fset targets \<subseteq> known_ids ms"
    | (good) "downward_closed ms (fset applied)" "fset targets \<subseteq> known_ids ms" by blast
  then show ?thesis
  proof cases
    case bad
    then show ?thesis by (auto simp: plan_apply_def intro: validate_applied_rejects [OF g(1)])
  next
    case unknown
    then have "?closure = None" using closure_spec(1) [OF g(3), of targets] g(7) by (auto simp: less_eq_fset.rep_eq)
    with unknown show ?thesis using valid [of applied "()"] by (simp add: plan_apply_def ok_or_def)
  next
    case good
    obtain closure where c: "?closure = Some closure"
      using closure_spec(1) [OF g(3), of targets] good g(7) by (auto simp: less_eq_fset.rep_eq)
    note cs = closure_spec(2) [OF g(3) c, unfolded g(5)]
    let ?req = "closure |-| applied"
    have req: "?req |\<subseteq>| fmdom ?P" using good g(7,8) cs unfolding less_eq_fset.rep_eq by auto
    from order_apply_correct [OF g(4) this _ g(2), of applied]
    obtain order where o: "order_apply_subset ?req applied ?P ?C = Some (Inr order)" "distinct order" "set order = fset ?req"
      "topo_order (\<lambda>i. fset (pending_of ?P ?req i)) order" by auto
    have ups: "parent_rel ms `` {i} \<subseteq> fset (pending_of ?P ?req i) \<union> fset applied" if "i \<in> set order" for i
      using that o(3) cs by (auto simp: pending_of_iff g(5)) (meson Image_iff rtrancl.rtrancl_into_rtrancl)
    have "validate_applied g (applied |\<union>| fset_of_list (take k order)) = Inr ()" for k
      using applied_prefix_closed [OF o(4) ups, where k = k] good(1) set_take_subset [of k order] req g(7) o(3)
      unfolding valid downward_closed_def less_eq_fset.rep_eq by (auto simp: fset_of_list.rep_eq)
    then show ?thesis using good valid [of applied "()"] c o cs by (simp add: plan_apply_def)
  qed
qed

lemma check_removal_cases:
  assumes g: "graph_of ms g" and apps: "fset applied \<subseteq> known_ids ms"
  shows "check_removal g applied removals i () \<noteq> None"
    and "check_removal g applied removals i () = Some (Inr ()) \<longleftrightarrow>
      i |\<in>| applied \<and> ((parent_rel ms)\<inverse> `` {i}) \<inter> fset applied \<subseteq> fset removals"
proof -
  have dom: "fset (fmdom (graph_manifests g)) = known_ids ms" "fmdom (graph_children g) = fmdom (graph_manifests g)"
    and rel: "edge_rel (graph_children g) = (parent_rel ms)\<inverse>"
    using g indexed_dom [of ms "graph_manifests g"] by (auto simp: graph_of_def inverse_edges_def)
  consider "i |\<notin>| fmdom (graph_manifests g)" | cs where "i |\<in>| fmdom (graph_manifests g)" "fmlookup (graph_children g) i = Some cs"
    using dom(2) by (metis fmlookup_dom_iff)
  then show "check_removal g applied removals i () \<noteq> None"
    "check_removal g applied removals i () = Some (Inr ()) \<longleftrightarrow>
      i |\<in>| applied \<and> ((parent_rel ms)\<inverse> `` {i}) \<inter> fset applied \<subseteq> fset removals"
  proof (atomize (full), cases)
    case 1
    then have "i |\<notin>| applied" using dom apps by auto
    with 1 show "check_removal g applied removals i () \<noteq> None \<and> (check_removal g applied removals i () = Some (Inr ()) \<longleftrightarrow>
      i |\<in>| applied \<and> ((parent_rel ms)\<inverse> `` {i}) \<inter> fset applied \<subseteq> fset removals)" by (simp add: check_removal_def)
  next
    case (2 cs)
    have "fset cs = (parent_rel ms)\<inverse> `` {i}" using edge_rel_lookup [OF 2(2)] rel by auto
    with 2 show "check_removal g applied removals i () \<noteq> None \<and> (check_removal g applied removals i () = Some (Inr ()) \<longleftrightarrow>
      i |\<in>| applied \<and> ((parent_rel ms)\<inverse> `` {i}) \<inter> fset applied \<subseteq> fset removals)"
      by (auto simp: check_removal_def less_eq_fset.rep_eq)
  qed
qed

lemma removals_closed_iff:
  assumes "downward_closed ms A"
  shows "(\<forall>i \<in> R. i \<in> A \<and> ((parent_rel ms)\<inverse> `` {i}) \<inter> A \<subseteq> R) \<longleftrightarrow> R \<subseteq> A \<and> downward_closed ms (A - R)"
  using assms unfolding downward_closed_def by blast

lemma removal_prefix_closed:
  assumes A: "downward_closed ms A" and R: "R \<subseteq> A" "downward_closed ms (A - R)"
    and o: "topo_order (\<lambda>i. (parent_rel ms)\<inverse> `` {i} \<inter> R) order" "set order = R"
  shows "downward_closed ms (A - set (take k order))"
proof -
  have "y \<notin> set (take k order)" if x: "x \<in> A - set (take k order)" "(x, y) \<in> parent_rel ms" for x y
  proof
    assume "y \<in> set (take k order)"
    then obtain j where j: "j < length order" "j < k" "y = order ! j" by (auto simp: in_set_conv_nth)
    then have "(parent_rel ms)\<inverse> `` {y} \<inter> R \<subseteq> set (take j order)" using o(1) by (simp add: topo_order_def)
    moreover have "set (take j order) \<subseteq> set (take k order)" using j(2) by (simp add: set_take_subset_set_take)
    moreover have "y \<in> R" using j o(2) by auto
    then have "x \<in> R" using x R unfolding downward_closed_def by blast
    ultimately show False using x by blast
  qed
  then show ?thesis using A unfolding downward_closed_def by blast
qed

lemma plan_rollback_decides:
  assumes built: "from_verified ms = Some (Inr g)"
  shows "if downward_closed ms (fset applied) \<and> removals |\<subseteq>| applied \<and> downward_closed ms (fset applied - fset removals)
    then \<exists>order. plan_rollback g applied removals = Some (Inr order) \<and> distinct order \<and> set order = fset removals
      \<and> (\<forall>k. validate_applied g (applied |-| fset_of_list (take k order)) = Inr ())
    else \<exists>e. plan_rollback g applied removals = Some (Inl e)"
proof (cases "downward_closed ms (fset applied)")
  case False
  then show ?thesis by (auto simp: plan_rollback_def intro: validate_applied_rejects [OF graph_facts(1) [OF built]])
next
  case True
  let ?P = "graph_parents g" and ?C = "graph_children g"
  let ?check = "fold_panicking (check_removal g applied removals) (sorted_list_of_fset removals) ()"
  note g = graph_facts [OF built] and valid = validate_applied_iff [OF graph_facts(1) [OF built]]
  have known: "fset applied \<subseteq> known_ids ms" using True by (simp add: downward_closed_def)
  note removal = check_removal_cases [OF g(1) known, of removals]
  have "check_removal g applied removals x () \<noteq> None" for x by (rule removal(1))
  from fold_panicking_decides [of "sorted_list_of_fset removals" "check_removal g applied removals", OF this]
  have check: "if removals |\<subseteq>| applied \<and> downward_closed ms (fset applied - fset removals) then ?check = Some (Inr ()) else \<exists>e. ?check = Some (Inl e)"
    unfolding removal(2) set_sorted_list_of_fset removals_closed_iff [OF True] less_eq_fset.rep_eq .
  show ?thesis
  proof (cases "removals |\<subseteq>| applied \<and> downward_closed ms (fset applied - fset removals)")
    case ok: True
    then have "removals |\<subseteq>| fmdom ?P" using known g(7) by (auto simp: less_eq_fset.rep_eq)
    from order_rollback_correct [OF g(4) this g(2)] obtain order where o: "order_rollback_subset removals ?P ?C = Some (Inr order)"
      "distinct order" "set order = fset removals" "topo_order (\<lambda>i. fset (pending_of ?C removals i)) order" by auto
    have "fset (pending_of ?C removals i) = (parent_rel ms)\<inverse> `` {i} \<inter> fset removals" for i
      by (auto simp: pending_of_iff g(6))
    with o(4) have "downward_closed ms (fset applied - set (take k order))" for k
      using True ok o(3) by (intro removal_prefix_closed [of ms _ "fset removals"]) (auto simp: less_eq_fset.rep_eq)
    then have "validate_applied g (applied |-| fset_of_list (take k order)) = Inr ()" for k
      by (simp add: valid fset_of_list.rep_eq)
    then show ?thesis using True ok check o valid [of applied "()"] by (simp add: plan_rollback_def)
  next
    case False
    then obtain e where "?check = Some (Inl e)" using check by (simp only: if_False) blast
    with False show ?thesis using True valid [of applied "()"] by (simp add: plan_rollback_def)
  qed
qed

text \<open>
  C12. On a graph built from verified manifests, planning an application never panics. It succeeds
  exactly when the applied set is known and contains the ancestors of its members and every target is
  known. The plan lists each missing migration once, these are the targets and their ancestors that
  are not applied, and after every prefix of the plan the applied set still contains every ancestor
  of every applied migration.
\<close>

theorem plan_apply_exact:
  assumes "from_verified ms = Some (Inr g)"
  shows "if downward_closed ms (fset applied) \<and> fset targets \<subseteq> known_ids ms
    then \<exists>order. plan_apply g applied targets = Some (Inr order) \<and> distinct order
      \<and> set order = (parent_rel ms)\<^sup>* `` fset targets - fset applied
      \<and> (\<forall>k. validate_applied g (applied |\<union>| fset_of_list (take k order)) = Inr ())
    else \<exists>e. plan_apply g applied targets = Some (Inl e)"
  by (rule plan_apply_decides [OF assms])

text \<open>
  C13. Planning a rollback never panics and succeeds exactly when the applied set is valid, the
  migrations to remove are applied, and what remains is again a valid applied set. The plan lists each
  removal once, and after every prefix of it the remaining applied set is valid: no migration is
  removed while an applied descendant of it remains.
\<close>

theorem plan_rollback_exact:
  assumes "from_verified ms = Some (Inr g)"
  shows "if downward_closed ms (fset applied) \<and> removals |\<subseteq>| applied \<and> downward_closed ms (fset applied - fset removals)
    then \<exists>order. plan_rollback g applied removals = Some (Inr order) \<and> distinct order \<and> set order = fset removals
      \<and> (\<forall>k. validate_applied g (applied |-| fset_of_list (take k order)) = Inr ())
    else \<exists>e. plan_rollback g applied removals = Some (Inl e)"
  by (rule plan_rollback_decides [OF assms])


section \<open>Lineage\<close>

lemma parent_rel_source: "(i, j) \<in> parent_rel ms \<Longrightarrow> \<exists>m \<in> set ms. manifest_id m = i"
  by (auto simp: parent_rel_def)

lemma valid_history_target: "valid_history ms \<Longrightarrow> (i, j) \<in> parent_rel ms \<Longrightarrow> \<exists>m \<in> set ms. manifest_id m = j"
  by (force simp: valid_history_def known_ids_def)

lemma lineage_kept:
  assumes "valid_history ms" "is_profile_bridge b" "b \<in> set ms" "m \<in> set ms" "m \<noteq> b" "p \<in> set ms" "(manifest_id m, manifest_id p) \<in> parent_rel ms"
  shows "on_profile p = on_profile m"
proof -
  have lineage: "profile_lineage ms" using assms(1) by (simp add: valid_history_def)
  have "\<not> is_profile_bridge m" using lineage assms(2-5) by (auto simp: profile_lineage_def)
  moreover have "lineage_edge m p" using lineage assms by (auto simp: profile_lineage_def)
  ultimately show ?thesis by (simp add: is_profile_bridge_def lineage_edge_def)
qed

lemma acyclic_neq: "acyclic R \<Longrightarrow> (a, b) \<in> R\<^sup>+ \<Longrightarrow> a \<noteq> b"
  by (auto simp: acyclic_def)

lemma bridge_ancestor_profile:
  assumes v: "valid_history ms" and b: "b \<in> set ms" "manifest_profile_bridge b = Some bridge"
    and "(manifest_id b, i) \<in> (parent_rel ms)\<^sup>+" "m \<in> set ms" "manifest_id m = i"
  shows "on_profile m = profile_before bridge"
  using assms(4-6)
proof (induction arbitrary: m rule: trancl_induct)
  case (base i)
  then have "lineage_edge b m" using v b(1) by (auto simp: valid_history_def profile_lineage_def)
  then show ?case by (simp add: lineage_edge_def b(2))
next
  case (step i j)
  obtain n where n: "n \<in> set ms" "manifest_id n = i" using parent_rel_source [OF step(2)] by blast
  have "n \<noteq> b" using acyclic_neq [OF _ step(1)] v n(2) by (auto simp: valid_history_def)
  then have "on_profile m = on_profile n" using lineage_kept [OF v _ b(1) n(1) _ step.prems(1)] n step b(2) by (simp add: is_profile_bridge_def)
  then show ?case using step.IH [OF n] by simp
qed

lemma bridge_descendant_profile:
  assumes v: "valid_history ms" and b: "b \<in> set ms" "is_profile_bridge b"
    and "(i, manifest_id b) \<in> (parent_rel ms)\<^sup>+" "m \<in> set ms" "manifest_id m = i"
  shows "on_profile m = on_profile b"
  using assms(4-6)
proof (induction arbitrary: m rule: converse_trancl_induct)
  case (base i)
  then have "m \<noteq> b" using acyclic_neq [of "parent_rel ms" i "manifest_id b"] v by (auto simp: valid_history_def)
  from lineage_kept [OF v b(2,1) base(2) this b(1)] base show ?case by simp
next
  case (step i j)
  obtain n where n: "n \<in> set ms" "manifest_id n = j" using valid_history_target [OF v step(1)] by blast
  have "m \<noteq> b" using acyclic_neq [of "parent_rel ms" i "manifest_id b"] step v by (auto simp: valid_history_def dest: trancl_into_trancl2)
  from lineage_kept [OF v b(2,1) step.prems(1) this n(1)] n step have "on_profile n = on_profile m" by simp
  then show ?case using step.IH [OF n] by simp
qed

text \<open>
  A profile upgrade splits a history in two: in a graph with a profile bridge every other migration
  is either an ancestor of the bridge, on exactly the profile the bridge moves from, or a descendant
  of it, on exactly the profile of the bridge, and no migration is both.
\<close>

lemma profile_bridge_splits:
  assumes built: "from_verified ms = Some (Inr g)" and b: "b \<in> set ms" "manifest_profile_bridge b = Some bridge"
    and m: "m \<in> set ms" "m \<noteq> b"
  shows "if (manifest_id b, manifest_id m) \<in> (parent_rel ms)\<^sup>+
    then on_profile m = profile_before bridge \<and> (manifest_id m, manifest_id b) \<notin> (parent_rel ms)\<^sup>+
    else on_profile m = on_profile b \<and> (manifest_id m, manifest_id b) \<in> (parent_rel ms)\<^sup>+"
proof -
  from from_verified_graph [OF built] have v: "valid_history ms" by simp
  have bridge: "is_profile_bridge b" using b(2) by (simp add: is_profile_bridge_def)
  show ?thesis
  proof (cases "(manifest_id b, manifest_id m) \<in> (parent_rel ms)\<^sup>+")
    case True
    moreover from True v have "(manifest_id m, manifest_id b) \<notin> (parent_rel ms)\<^sup>+"
      using trancl_trans by (fastforce simp: valid_history_def acyclic_def)
    ultimately show ?thesis using bridge_ancestor_profile [OF v b True m(1)] by simp
  next
    case False
    with v b(1) bridge m have "(manifest_id m, manifest_id b) \<in> (parent_rel ms)\<^sup>+"
      unfolding valid_history_def profile_lineage_def by blast
    with False show ?thesis using bridge_descendant_profile [OF v b(1) bridge _ m(1)] by simp
  qed
qed

lemma parent_rel_wf:
  assumes "valid_history ms"
  shows "wf ((parent_rel ms)\<inverse>)" "wf (parent_rel ms)"
proof -
  have fin: "finite (parent_rel ms)"
  proof (rule finite_subset)
    show "parent_rel ms \<subseteq> known_ids ms \<times> known_ids ms" using assms by (force simp: valid_history_def parent_rel_def known_ids_def)
  qed (simp add: known_ids_def)
  then show "wf ((parent_rel ms)\<inverse>)" "wf (parent_rel ms)"
    using assms by (auto simp: valid_history_def intro: finite_acyclic_wf_converse finite_acyclic_wf)
qed

lemma below_maximal:
  assumes "wf R" "i \<in> A"
  shows "\<exists>h \<in> A. R\<inverse> `` {h} \<inter> A = {} \<and> (h, i) \<in> R\<^sup>*"
  using assms
proof (induction i rule: wf_induct_rule)
  case (less i)
  show ?case
  proof (cases "R\<inverse> `` {i} \<inter> A = {}")
    case False
    then obtain c where "(c, i) \<in> R" "c \<in> A" by blast
    then show ?thesis using less.IH [of c] by (meson rtrancl.rtrancl_into_rtrancl)
  qed (use less.prems in blast)
qed

lemma descends_from_root:
  assumes v: "valid_history ms" and root: "\<And>m. m \<in> set ms \<Longrightarrow> manifest_parents m = [] \<Longrightarrow> m = b"
  shows "m \<in> set ms \<Longrightarrow> manifest_id m = i \<Longrightarrow> (i, manifest_id b) \<in> (parent_rel ms)\<^sup>*"
proof (induction i arbitrary: m rule: wf_induct_rule [OF parent_rel_wf(1) [OF v]])
  case (1 i)
  show ?case
  proof (cases "manifest_parents m")
    case Nil
    then show ?thesis using root [OF 1(2)] 1(3) by simp
  next
    case (Cons q qs)
    then have q: "(i, q) \<in> parent_rel ms" using 1(2,3) by (auto simp: parent_rel_def)
    then obtain n where "n \<in> set ms" "manifest_id n = q" using valid_history_target [OF v] by blast
    then have "(q, manifest_id b) \<in> (parent_rel ms)\<^sup>*" using 1(1) [of q] q by simp
    then show ?thesis using q by (rule converse_rtrancl_into_rtrancl [rotated])
  qed
qed

text \<open>
  An adopted history has one origin: in a graph with a legacy bridge every migration is the bridge
  or descends from it, and the bridge has no parents.
\<close>

lemma legacy_bridge_is_sole_root:
  assumes built: "from_verified ms = Some (Inr g)" and b: "b \<in> set ms" "is_legacy_bridge b" and m: "m \<in> set ms"
  shows "(manifest_id m, manifest_id b) \<in> (parent_rel ms)\<^sup>* \<and> manifest_parents b = []"
proof -
  from from_verified_graph [OF built] have v: "valid_history ms" by simp
  have root: "m = b" if "m \<in> set ms" "manifest_parents m = []" for m
    using v b that by (auto simp: valid_history_def sole_legacy_root_def)
  have descends: "(manifest_id n, manifest_id b) \<in> (parent_rel ms)\<^sup>*" if "n \<in> set ms" for n
    by (rule descends_from_root [OF v _ that refl]) (rule root)
  have "manifest_parents b = []"
  proof (rule ccontr)
    assume "manifest_parents b \<noteq> []"
    then have q: "(manifest_id b, hd (manifest_parents b)) \<in> parent_rel ms" using b(1) by (auto simp: parent_rel_def)
    then obtain n where "n \<in> set ms" "manifest_id n = hd (manifest_parents b)" using valid_history_target [OF v] by blast
    then have "(manifest_id b, manifest_id b) \<in> (parent_rel ms)\<^sup>+" using descends [of n] q by (simp add: rtrancl_into_trancl2)
    then show False using v by (simp add: valid_history_def acyclic_def)
  qed
  then show ?thesis using descends [OF m] by simp
qed

lemma below_some_head:
  assumes g: "graph_of ms g" and v: "valid_history ms" and i: "i \<in> known_ids ms"
  shows "\<exists>h \<in> set (graph_heads g). (h, i) \<in> (parent_rel ms)\<^sup>*"
proof -
  obtain h where h: "h \<in> known_ids ms" "(parent_rel ms)\<inverse> `` {h} \<inter> known_ids ms = {}" "(h, i) \<in> (parent_rel ms)\<^sup>*"
    using below_maximal [OF parent_rel_wf(2) [OF v] i] by blast
  then have "h \<notin> snd ` parent_rel ms" using parent_rel_source by (fastforce simp: known_ids_def)
  then show ?thesis using g h by (auto simp: graph_of_def known_ids_def)
qed

text \<open>
  C19. Applying to the default head finishes the history: on a history with at most one head and a
  valid applied set, the planned application to the default head always exists, and it is exactly
  the migrations that are not applied yet. With several heads the request is refused.
\<close>

theorem default_head_completes:
  assumes built: "from_verified ms = Some (Inr g)" and applied: "downward_closed ms (fset applied)"
  shows "if length (graph_heads g) \<le> 1
    then \<exists>order. plan_apply_to_default_head g applied = Some (Inr order) \<and> set order = known_ids ms - fset applied
    else plan_apply_to_default_head g applied = Some (Inl (graph_failure ''migration_history_ambiguous_default_head''))"
proof -
  from from_verified_graph [OF built] have v: "valid_history ms" and g: "graph_of ms g" by simp_all
  have heads: "set (graph_heads g) \<subseteq> known_ids ms" using g by (auto simp: graph_of_def known_ids_def)
  have ok: "validate_applied g applied = Inr ()" using applied by (simp add: validate_applied_iff [OF g])
  consider (none) "graph_heads g = []" | (one) h where "graph_heads g = [h]" | (more) a b hs where "graph_heads g = a # b # hs"
    by (cases "graph_heads g"; cases "tl (graph_heads g)") auto
  then show ?thesis
  proof cases
    case none
    then have "known_ids ms = {}" using below_some_head [OF g v] by auto
    with none ok show ?thesis by (simp add: plan_apply_to_default_head_def default_head_def)
  next
    case (one h)
    then have "known_ids ms \<subseteq> (parent_rel ms)\<^sup>* `` {h}" using below_some_head [OF g v] by auto
    moreover have "(parent_rel ms)\<^sup>* `` {h} \<subseteq> known_ids ms" using graph_facts(8) [OF built] heads one by auto
    ultimately have "(parent_rel ms)\<^sup>* `` {h} = known_ids ms" by blast
    with plan_apply_decides [OF built, of applied "{|h|}"] applied heads one show ?thesis
      by (auto simp: plan_apply_to_default_head_def default_head_def)
  qed (simp add: plan_apply_to_default_head_def default_head_def)
qed

lemma frontier_flags:
  assumes g: "graph_of ms g" and known: "set xs \<subseteq> known_ids ms"
  shows "those (map (is_frontier g applied) xs) = Some (map (\<lambda>i. (parent_rel ms)\<inverse> `` {i} \<inter> fset applied = {}) xs)"
  using known
proof (induction xs)
  case (Cons i xs)
  have "i |\<in>| fmdom (graph_children g)" using Cons.prems g indexed_dom [of ms "graph_manifests g"] by (auto simp: graph_of_def inverse_edges_def)
  then obtain cs where cs: "fmlookup (graph_children g) i = Some cs" by (auto simp: fmlookup_dom_iff)
  have "fset cs = (parent_rel ms)\<inverse> `` {i}" using edge_rel_lookup [OF cs] g by (auto simp: graph_of_def inverse_edges_def)
  then have "cs |\<inter>| applied = {||} \<longleftrightarrow> (parent_rel ms)\<inverse> `` {i} \<inter> fset applied = {}"
    by (metis fset_inject inf_fset.rep_eq bot_fset.rep_eq)
  then show ?case using Cons cs by (simp add: is_frontier_def)
qed simp

text \<open>
  The applied frontier determines the applied set: of a valid applied set it returns, without
  panicking, the applied migrations with no applied child, and the applied set is exactly the frontier
  together with all of its ancestors.
\<close>

lemma applied_frontier_generates:
  assumes built: "from_verified ms = Some (Inr g)" and applied: "downward_closed ms (fset applied)"
  shows "\<exists>frontier. applied_frontier g applied = Some (Inr frontier) \<and> sorted frontier \<and> distinct frontier
    \<and> set frontier = {i \<in> fset applied. (parent_rel ms)\<inverse> `` {i} \<inter> fset applied = {}}
    \<and> (parent_rel ms)\<^sup>* `` set frontier = fset applied"
proof -
  from from_verified_graph [OF built] have v: "valid_history ms" and g: "graph_of ms g" by simp_all
  have ok: "validate_applied g applied = Inr ()" using applied by (simp add: validate_applied_iff [OF g])
  let ?R = "parent_rel ms" and ?A = "fset applied"
  let ?leaf = "\<lambda>i. ?R\<inverse> `` {i} \<inter> ?A = {}"
  let ?f = "filter ?leaf (sorted_list_of_fset applied)"
  have zip: "map fst (filter snd (zip xs (map P xs))) = filter P xs" for P :: "migration_id \<Rightarrow> bool" and xs
    by (induction xs) auto
  have "applied_frontier g applied = Some (Inr ?f)"
    using frontier_flags [OF g, of "sorted_list_of_fset applied" applied] applied ok
    by (simp add: applied_frontier_def downward_closed_def zip)
  moreover have "sorted ?f" "distinct ?f" by (simp_all add: sorted_wrt_filter)
  moreover have "?R\<^sup>* `` set ?f \<subseteq> ?A"
  proof -
    have "?R\<^sup>* `` ?A = ?A" using applied by (intro Image_closed_trancl) (simp add: downward_closed_def)
    then show ?thesis by auto
  qed
  moreover have "?A \<subseteq> ?R\<^sup>* `` set ?f"
    using below_maximal [OF parent_rel_wf(2) [OF v], of _ ?A] by fastforce
  ultimately show ?thesis by auto
qed

section \<open>Examples\<close>

definition example_history :: "verified_manifest list" where
  "example_history = [example_manifest ''m2'' [MigrationId ''app'' ''m1''], example_manifest ''m1'' []]"

definition builds :: "verified_manifest list \<Rightarrow> bool" where
  "builds ms \<longleftrightarrow> (case from_verified ms of Some (Inr _) \<Rightarrow> True | _ \<Rightarrow> False)"

lemma builds_graph: "builds ms \<Longrightarrow> \<exists>g. from_verified ms = Some (Inr g)"
  by (auto simp: builds_def split: option.splits sum.splits)

lemma example_builds: "builds example_history"
  by code_simp

lemma parent_rel_Cons:
  "parent_rel [] = {}" "parent_rel (m # ms) = {manifest_id m} \<times> set (manifest_parents m) \<union> parent_rel ms"
  by (auto simp: parent_rel_def)

lemma example_manifest_simps [simp]:
  "manifest_id (example_manifest n ps) = MigrationId ''app'' n" "manifest_parents (example_manifest n ps) = ps"
  by (simp_all add: example_manifest_def Let_def)

lemma example_relation:
  "parent_rel example_history = {(MigrationId ''app'' ''m2'', MigrationId ''app'' ''m1'')}"
  "known_ids example_history = {MigrationId ''app'' ''m1'', MigrationId ''app'' ''m2''}"
  by (simp_all add: parent_rel_Cons known_ids_def example_history_def insert_commute)

lemma single_edge_closure: "{(a, b)}\<^sup>* `` {a} = {a, b}"
  by (auto elim: rtranclE)

lemma example_graph: obtains g where "from_verified example_history = Some (Inr g)"
  using builds_graph [OF example_builds] by blast

theorem plan_apply_exact_witness:
  "\<exists>g order. from_verified example_history = Some (Inr g) \<and> plan_apply g {||} {|MigrationId ''app'' ''m2''|} = Some (Inr order)
     \<and> set order = {MigrationId ''app'' ''m1'', MigrationId ''app'' ''m2''}"
proof -
  obtain g where g: "from_verified example_history = Some (Inr g)" by (rule example_graph)
  from plan_apply_exact [OF g, of "{||}" "{|MigrationId ''app'' ''m2''|}"] g show ?thesis
    by (auto simp: downward_closed_def example_relation single_edge_closure)
qed

theorem plan_rollback_exact_witness:
  "\<exists>g order. from_verified example_history = Some (Inr g)
     \<and> plan_rollback g {|MigrationId ''app'' ''m1'', MigrationId ''app'' ''m2''|} {|MigrationId ''app'' ''m2''|} = Some (Inr order)
     \<and> set order = {MigrationId ''app'' ''m2''}"
proof -
  obtain g where g: "from_verified example_history = Some (Inr g)" by (rule example_graph)
  have "downward_closed example_history {MigrationId ''app'' ''m1'', MigrationId ''app'' ''m2''}"
    "downward_closed example_history ({MigrationId ''app'' ''m1'', MigrationId ''app'' ''m2''} - {MigrationId ''app'' ''m2''})"
    by (auto simp: downward_closed_def example_relation)
  with plan_rollback_exact [OF g, of "{|MigrationId ''app'' ''m1'', MigrationId ''app'' ''m2''|}" "{|MigrationId ''app'' ''m2''|}"] g
  show ?thesis by auto
qed


theorem default_head_completes_witness:
  "\<exists>g order. from_verified example_history = Some (Inr g) \<and> plan_apply_to_default_head g {||} = Some (Inr order)
     \<and> set order = {MigrationId ''app'' ''m1'', MigrationId ''app'' ''m2''}"
proof -
  obtain g where g: "from_verified example_history = Some (Inr g)" by (rule example_graph)
  have "known_ids example_history - snd ` parent_rel example_history = {MigrationId ''app'' ''m2''}"
    by (auto simp: example_relation)
  then have "graph_heads g = [MigrationId ''app'' ''m2'']" using from_verified_graph [OF g] by (simp add: graph_of_def)
  with default_head_completes [OF g, of "{||}"] g show ?thesis by (auto simp: downward_closed_def example_relation)
qed



end
