(* ===== verification/Value_Order.thy ===== *)
theory Value_Order
  imports Canonical_Values
begin

text \<open>
  The derived \<open>Ord\<close> of \<open>CanonicalValue\<close>, in which a \<open>BTreeSet\<close> of values is iterated: by
  variant, then field by field.
\<close>

definition date_time_key :: "canonical_date_time \<Rightarrow> int list" where
  "date_time_key x =
     [date_year (dt_date x), int (date_month (dt_date x)), int (date_day (dt_date x)), int (time_hour (dt_time x)),
      int (time_minute (dt_time x)), int (time_second (dt_time x)), int (time_nanosecond (dt_time x))]"

fun zone_key :: "time_zone_designator \<Rightarrow> int list \<times> string" where
  "zone_key Utc = ([0], [])"
| "zone_key (OffsetSeconds s) = ([1, s], [])"
| "zone_key (Named name) = ([2], name)"

fun canonical_value_key :: "canonical_value \<Rightarrow> nat \<times> string \<times> int list \<times> string \<times> int" where
  "canonical_value_key (VString s) = (0, string_text s, [], [], 0)"
| "canonical_value_key (VLong i) = (1, [], [i], [], 0)"
| "canonical_value_key (VDouble d) = (2, [], [uint (double_bits d)], [], 0)"
| "canonical_value_key (VBoolean b) = (3, [], [of_bool b], [], 0)"
| "canonical_value_key (VDate d) = (4, [], [date_year d, int (date_month d), int (date_day d)], [], 0)"
| "canonical_value_key (VDateTime x) = (5, [], date_time_key x, [], 0)"
| "canonical_value_key (VDateTimeTz z) =
     (6, [], date_time_key (tz_local z) @ fst (zone_key (tz_zone z)), snd (zone_key (tz_zone z)), tz_effective_offset_seconds z)"
| "canonical_value_key (VDecimal d) = (7, decimal_text_of d, [], [], 0)"
| "canonical_value_key (VDuration d) =
     (8, [], [of_bool (dur_negative d), int (dur_months d), int (dur_days d), int (dur_seconds d), int (dur_nanosecond d)],
      [], 0)"

lemma date_time_key_inj [simp]: "date_time_key a = date_time_key b \<longleftrightarrow> a = b"
  by (cases a; cases b; cases "dt_date a"; cases "dt_date b"; cases "dt_time a"; cases "dt_time b") (auto simp: date_time_key_def)

lemma date_time_key_append [simp]: "date_time_key a @ xs = date_time_key b @ ys \<longleftrightarrow> a = b \<and> xs = ys"
  by (metis append_eq_append_conv date_time_key_def date_time_key_inj length_Cons)

lemma zone_key_inj: "zone_key a = zone_key b \<longleftrightarrow> a = b"
  by (cases a; cases b) auto

lemma canonical_value_key_inj [simp]: "canonical_value_key a = canonical_value_key b \<longleftrightarrow> a = b"
proof (cases a; cases b)
  fix x y assume "a = VDateTimeTz x" "b = VDateTimeTz y"
  then show ?thesis
    using zone_key_inj [of "tz_zone x" "tz_zone y"]
    by (cases x; cases y) (auto simp: prod_eq_iff)
qed (auto simp flip: word_uint_eq_iff intro: canonical_string_value.expand canonical_double.expand decimal_value.expand)

instantiation canonical_value :: linorder
begin
definition less_eq_canonical_value :: "canonical_value \<Rightarrow> canonical_value \<Rightarrow> bool" where
  "less_eq_canonical_value a b \<longleftrightarrow> canonical_value_key a \<le> canonical_value_key b"
definition less_canonical_value :: "canonical_value \<Rightarrow> canonical_value \<Rightarrow> bool" where
  "less_canonical_value a b \<longleftrightarrow> canonical_value_key a < canonical_value_key b"
instance
  by standard (auto simp: less_eq_canonical_value_def less_canonical_value_def less_le_not_le dest: order_antisym)
end

end
