(* ===== verification/Typeql_Nodes.thy ===== *)
theory Typeql_Nodes
  imports Value_Order Schema_Facts
begin

text \<open>
  The schema builders of \<open>core/src/tql/schema_builders.rs\<close> and the part of \<open>core/src/tql/mod.rs\<close>,
  \<open>builders.rs\<close> and \<open>render_guard.rs\<close> they use. The syntax tree, its parser and its printer belong to
  the \<open>typeql\<close> package: the tree is kept as the data the builders construct and read, the parser, the
  printer and the tables of token names are the fields of the parameter \<open>typeql\<close>, and so are
  \<open>serde_json::to_string\<close> and the two spellings of a double. The block of a parsed function is
  opaque, with its span.
\<close>

section \<open>Syntax nodes\<close>

datatype unsupported_construct = StructDestructuring | ExplicitEnd | SchemaRename | RedefineSequence

datatype tql_error =
    InvalidSyntax | InvalidIdentifier | InvalidLiteral | InvalidSchemaShape | UnsupportedNode unsupported_construct

text \<open>A zoned date-time literal keeps its IANA zone, which the render guard rewrites; any other literal
  is its token.\<close>

datatype tql_literal = LitDateTimeTzIana string string | LitToken string

datatype tql_variable = VarAnonymous | VarNamed string

datatype type_ref = RefVariable tql_variable | RefScoped string string | RefLabel string

datatype type_ref_any = RefType type_ref | RefList type_ref

datatype named_type = BuiltinValueType string | NamedLabel string

datatype named_type_any = SimpleType named_type | OptionalType named_type

datatype tql_annotation =
    NodeAbstract | NodeIndependent | NodeKey | NodeUnique | NodeDistinct | NodeCascade
  | NodeDoc string
  | NodeMeta string string
  | NodeCardinality string "string option"
  | NodeRegex string
  | NodeValues "tql_literal list"
  | NodeRange "tql_literal option" "tql_literal option"

datatype capability_base =
    BaseSub string
  | BaseValueType named_type
  | BaseOwns type_ref_any
  | BasePlays string string
  | BaseRelates type_ref_any "type_ref_any option"

record tql_capability =
  capability_base :: capability_base
  capability_annotations :: "tql_annotation list"

record type_declaration =
  declaration_kind :: "string option"
  declaration_label :: string
  declaration_annotations :: "tql_annotation list"
  declaration_capabilities :: "tql_capability list"

text \<open>A parsed function: its signature and block as the parser read them, the span of the block.\<close>

record function_node =
  function_source :: string
  function_block_span :: "(nat \<times> nat) option"
  function_annotations :: "tql_annotation list"

text \<open>A struct keeps its annotations and those of its fields; the two forms of renaming are one node.\<close>

datatype definable =
    TypeDeclaration type_declaration
  | FunctionDefinition function_node
  | StructDefinition string "tql_annotation list" "(string \<times> tql_annotation list) list"
  | RenameDefinition string

datatype annotation_category =
    CatAbstract | CatCardinality | CatCascade | CatDistinct | CatDoc | CatIndependent | CatKey | CatMeta string
  | CatRange | CatRegex | CatSubkey | CatUnique | CatValues

datatype undefinable =
    UndefineType string
  | UndefineFunction string
  | UndefineCapability capability_base string
  | UndefineSpecialise string string capability_base
  | UndefineAnnotationType annotation_category string
  | UndefineAnnotationCapability annotation_category string capability_base

text \<open>A data query is opaque here: the schema builders never construct one.\<close>

datatype schema_query =
    QueryDefine "definable list" | QueryRedefine "definable list" | QueryUndefine "undefinable list" | QueryPipeline string

record tql_query =
  query_inner :: schema_query
  render_problem :: "unsupported_construct option"
  query_function_bodies :: "(nat \<times> string) list"

record schema_definition =
  definition_inner :: definable
  caller_body :: "string option"

record tql_argument =
  argument_variable :: tql_variable
  argument_type :: named_type_any

record tql_signature =
  signature_ident :: string
  signature_args :: "tql_argument list"
  signature_stream :: bool
  signature_types :: "named_type_any list"

text \<open>What the builders use of the \<open>typeql\<close> package, of \<open>serde_json\<close> and of the printing of doubles.
  \<open>parse_query\<close> also tells whether the query ended explicitly; \<open>prepare_block\<close> and
  \<open>prepare_pipeline\<close> are the guard's walks over the stages of a function block and of a data query.\<close>

record typeql =
  parse_label :: "string \<Rightarrow> string option"
  is_valid_var_identifier :: "string \<Rightarrow> bool"
  parse_value :: "string \<Rightarrow> tql_literal option"
  parse_query :: "string \<Rightarrow> (schema_query \<times> bool) option"
  display_query :: "schema_query \<Rightarrow> string"
  display_signature :: "tql_signature \<Rightarrow> string"
  display_annotation :: "tql_annotation \<Rightarrow> string"
  prepare_block :: "function_node \<Rightarrow> function_node \<times> unsupported_construct option"
  prepare_pipeline :: "string \<Rightarrow> string \<times> unsupported_construct option"
  kind_names :: "string list"
  json_string :: "string \<Rightarrow> string option"
  double_display :: "canonical_double \<Rightarrow> string"
  double_debug :: "canonical_double \<Rightarrow> string"

section \<open>Identifiers, references and literals\<close>

type_synonym 'a tql = "tql_error + 'a"

definition tql_label :: "typeql \<Rightarrow> string \<Rightarrow> string tql" where
  "tql_label tq name = ok_or (parse_label tq name) InvalidIdentifier"

definition quoted :: "typeql \<Rightarrow> string \<Rightarrow> string tql" where
  "quoted tq s = ok_or (json_string tq s) InvalidLiteral"

definition variable :: "typeql \<Rightarrow> string \<Rightarrow> tql_variable tql" where
  "variable tq s =
     (let name = unwrap_or (strip_prefix ''$'' s) s in
      if name = ''_'' then Inr VarAnonymous
      else if \<not> is_valid_var_identifier tq name then Inl InvalidIdentifier
      else Inr (VarNamed name))"

definition tql_type_ref :: "typeql \<Rightarrow> string \<Rightarrow> type_ref tql" where
  "tql_type_ref tq s =
     (if strip_prefix ''$'' s \<noteq> None then map_sum id RefVariable (variable tq s)
      else
        (case split_once CHR '':'' s of
           Some (scope, name) \<Rightarrow>
             bind_res (tql_label tq scope) (\<lambda>l. bind_res (tql_label tq name) (\<lambda>m. Inr (RefScoped l m)))
         | None \<Rightarrow> map_sum id RefLabel (tql_label tq s)))"

definition reference :: "typeql \<Rightarrow> string \<Rightarrow> bool \<Rightarrow> type_ref_any tql" where
  "reference tq name is_list = bind_res (tql_type_ref tq name) (\<lambda>r. Inr (if is_list then RefList r else RefType r))"

fun value_type_spelling :: "value_type_tag \<Rightarrow> string" where
  "value_type_spelling TagString = ''string''"
| "value_type_spelling TagLong = ''long''"
| "value_type_spelling TagDouble = ''double''"
| "value_type_spelling TagBoolean = ''boolean''"
| "value_type_spelling TagDate = ''date''"
| "value_type_spelling TagDateTime = ''datetime''"
| "value_type_spelling TagDateTimeTz = ''datetime_tz''"
| "value_type_spelling TagDecimal = ''decimal''"
| "value_type_spelling TagDuration = ''duration''"

definition builtin_named_type :: "value_type_tag \<Rightarrow> named_type" where
  "builtin_named_type domain =
     BuiltinValueType
       (case domain of TagLong \<Rightarrow> ''integer'' | TagDateTimeTz \<Rightarrow> ''datetime-tz'' | other \<Rightarrow> value_type_spelling other)"

definition literal_source :: "typeql \<Rightarrow> string \<Rightarrow> tql_literal tql" where
  "literal_source tq s = ok_or (parse_value tq s) InvalidLiteral"

definition double_source :: "typeql \<Rightarrow> canonical_double \<Rightarrow> string" where
  "double_source tq d =
     (let source = double_display tq d in
      if list_ex (\<lambda>c. c \<in> {CHR ''.'', CHR ''e'', CHR ''E''}) source then source else source @ ''.0'')"

fun literal_text :: "typeql \<Rightarrow> canonical_value \<Rightarrow> string tql" where
  "literal_text tq (VString s) = quoted tq (string_text s)"
| "literal_text tq (VLong i) = Inr (show_int i)"
| "literal_text tq (VDouble d) = Inr (double_source tq d)"
| "literal_text tq (VBoolean b) = Inr (if b then ''true'' else ''false'')"
| "literal_text tq (VDate d) = Inr (show_date d)"
| "literal_text tq (VDateTime x) = Inr (show_date_time x)"
| "literal_text tq (VDateTimeTz z) =
     Inr (case tz_zone z of Named name \<Rightarrow> show_date_time (tz_local z) @ '' '' @ name | _ \<Rightarrow> show_date_time_tz z)"
| "literal_text tq (VDecimal d) = Inr (decimal_text_of d @ ''dec'')"
| "literal_text tq (VDuration d) = Inr (show_duration d)"

definition tql_literal_of :: "typeql \<Rightarrow> canonical_value \<Rightarrow> tql_literal tql" where
  "tql_literal_of tq v = bind_res (literal_text tq v) (literal_source tq)"

fun canonical_literal :: "typeql \<Rightarrow> canonical_value \<Rightarrow> tql_literal tql" where
  "canonical_literal tq (VDouble d) = literal_source tq (double_debug tq d)"
| "canonical_literal tq v = tql_literal_of tq v"

section \<open>Annotations and capabilities\<close>

definition schema_flag :: "string \<Rightarrow> tql_annotation tql" where
  "schema_flag name =
     (if name = ''abstract'' then Inr NodeAbstract
      else if name = ''independent'' then Inr NodeIndependent
      else if name = ''key'' then Inr NodeKey
      else if name = ''unique'' then Inr NodeUnique
      else if name = ''distinct'' then Inr NodeDistinct
      else if name = ''cascade'' then Inr NodeCascade
      else Inl InvalidSchemaShape)"

definition schema_doc :: "typeql \<Rightarrow> string \<Rightarrow> tql_annotation tql" where
  "schema_doc tq s = bind_res (quoted tq s) (\<lambda>q. Inr (NodeDoc q))"

definition schema_meta :: "typeql \<Rightarrow> string \<Rightarrow> string \<Rightarrow> tql_annotation tql" where
  "schema_meta tq key v = bind_res (quoted tq key) (\<lambda>k. bind_res (quoted tq v) (\<lambda>q. Inr (NodeMeta k q)))"

definition schema_card :: "nat \<Rightarrow> nat option \<Rightarrow> tql_annotation tql" where
  "schema_card lower upper =
     (if (case upper of None \<Rightarrow> False | Some m \<Rightarrow> m < lower) then Inl InvalidSchemaShape
      else Inr (NodeCardinality (show_nat lower) (map_option show_nat upper)))"

definition schema_regex :: "typeql \<Rightarrow> string \<Rightarrow> tql_annotation tql" where
  "schema_regex tq pattern = bind_res (quoted tq pattern) (\<lambda>q. Inr (NodeRegex q))"

definition schema_canonical_values :: "typeql \<Rightarrow> canonical_value list \<Rightarrow> tql_annotation tql" where
  "schema_canonical_values tq vs =
     (if vs = [] then Inl InvalidSchemaShape
      else bind_res (map_res (canonical_literal tq) vs) (\<lambda>ls. Inr (NodeValues ls)))"

fun option_res :: "('a \<Rightarrow> 'e + 'b) \<Rightarrow> 'a option \<Rightarrow> 'e + 'b option" where
  "option_res f None = Inr None"
| "option_res f (Some x) = map_sum id Some (f x)"

definition schema_canonical_range ::
  "typeql \<Rightarrow> canonical_value option \<Rightarrow> canonical_value option \<Rightarrow> tql_annotation tql" where
  "schema_canonical_range tq lower upper =
     (if lower = None \<and> upper = None then Inl InvalidSchemaShape
      else bind_res (option_res (canonical_literal tq) lower) (\<lambda>l.
           bind_res (option_res (canonical_literal tq) upper) (\<lambda>u. Inr (NodeRange l u))))"

definition tql_capability_new :: "capability_base \<Rightarrow> tql_annotation list \<Rightarrow> tql_capability" where
  "tql_capability_new base values = \<lparr>capability_base = base, capability_annotations = values\<rparr>"

definition annotated :: "tql_capability \<Rightarrow> tql_annotation list \<Rightarrow> tql_capability" where
  "annotated c values = c\<lparr>capability_annotations := capability_annotations c @ values\<rparr>"

definition schema_sub :: "typeql \<Rightarrow> string \<Rightarrow> tql_capability tql" where
  "schema_sub tq parent = bind_res (tql_label tq parent) (\<lambda>l. Inr (tql_capability_new (BaseSub l) []))"

definition schema_value_domain :: "value_type_tag \<Rightarrow> tql_annotation list \<Rightarrow> tql_capability" where
  "schema_value_domain domain values = tql_capability_new (BaseValueType (builtin_named_type domain)) values"

definition schema_owns :: "typeql \<Rightarrow> string \<Rightarrow> bool \<Rightarrow> tql_annotation list \<Rightarrow> tql_capability tql" where
  "schema_owns tq name is_list values =
     bind_res (reference tq name is_list) (\<lambda>r. Inr (tql_capability_new (BaseOwns r) values))"

definition schema_plays :: "typeql \<Rightarrow> string \<Rightarrow> string \<Rightarrow> tql_annotation list \<Rightarrow> tql_capability tql" where
  "schema_plays tq scope name values =
     bind_res (tql_label tq scope) (\<lambda>s. bind_res (tql_label tq name) (\<lambda>n. Inr (tql_capability_new (BasePlays s n) values)))"

definition schema_relates ::
  "typeql \<Rightarrow> string \<Rightarrow> bool \<Rightarrow> string option \<Rightarrow> tql_annotation list \<Rightarrow> tql_capability tql" where
  "schema_relates tq name is_list specialised values =
     bind_res (reference tq name is_list) (\<lambda>r.
     bind_res (option_res (\<lambda>parent. reference tq parent is_list) specialised) (\<lambda>p.
       Inr (tql_capability_new (BaseRelates r p) values)))"

section \<open>The render guard\<close>

fun prepare_literal :: "tql_literal \<Rightarrow> tql_literal" where
  "prepare_literal (LitDateTimeTzIana local zone) =
     LitDateTimeTzIana local (if strip_prefix '' '' zone \<noteq> None then zone else '' '' @ zone)"
| "prepare_literal (LitToken t) = LitToken t"

fun prepare_annotation :: "tql_annotation \<Rightarrow> tql_annotation" where
  "prepare_annotation (NodeRange l u) = NodeRange (map_option prepare_literal l) (map_option prepare_literal u)"
| "prepare_annotation (NodeValues vs) = NodeValues (map prepare_literal vs)"
| "prepare_annotation a = a"

definition prepare_capability :: "tql_capability \<Rightarrow> tql_capability" where
  "prepare_capability c = c\<lparr>capability_annotations := map prepare_annotation (capability_annotations c)\<rparr>"

text \<open>The visitor keeps the first problem it meets (\<open>get_or_insert\<close>).\<close>

definition first_problem :: "unsupported_construct option \<Rightarrow> unsupported_construct option \<Rightarrow> unsupported_construct option" where
  "first_problem p q = (case p of Some c \<Rightarrow> Some c | None \<Rightarrow> q)"

fun prepare_definable :: "typeql \<Rightarrow> definable \<Rightarrow> definable \<times> unsupported_construct option" where
  "prepare_definable tq (TypeDeclaration d) =
     (TypeDeclaration (d\<lparr>declaration_annotations := map prepare_annotation (declaration_annotations d),
        declaration_capabilities := map prepare_capability (declaration_capabilities d)\<rparr>), None)"
| "prepare_definable tq (FunctionDefinition f) =
     (let (g, problem) = prepare_block tq (f\<lparr>function_annotations := map prepare_annotation (function_annotations f)\<rparr>) in
      (FunctionDefinition g, problem))"
| "prepare_definable tq (StructDefinition name values members) =
     (StructDefinition name (map prepare_annotation values) (map (map_prod id (map prepare_annotation)) members), None)"
| "prepare_definable tq (RenameDefinition t) = (RenameDefinition t, Some SchemaRename)"

definition prepare_definables :: "typeql \<Rightarrow> definable list \<Rightarrow> unsupported_construct option \<Rightarrow>
    definable list \<times> unsupported_construct option" where
  "prepare_definables tq ds problem =
     (map (fst \<circ> prepare_definable tq) ds, fold (\<lambda>d p. first_problem p (snd (prepare_definable tq d))) ds problem)"

fun prepare_query :: "typeql \<Rightarrow> schema_query \<Rightarrow> bool \<Rightarrow> schema_query \<times> unsupported_construct option" where
  "prepare_query tq (QueryDefine ds) explicit_end =
     (let (es, problem) = prepare_definables tq ds (if explicit_end then Some ExplicitEnd else None) in (QueryDefine es, problem))"
| "prepare_query tq (QueryRedefine ds) explicit_end =
     (let (es, problem) =
        prepare_definables tq ds
          (first_problem (if explicit_end then Some ExplicitEnd else None) (if length ds > 1 then Some RedefineSequence else None))
      in (QueryRedefine es, problem))"
| "prepare_query tq (QueryUndefine us) explicit_end = (QueryUndefine us, if explicit_end then Some ExplicitEnd else None)"
| "prepare_query tq (QueryPipeline t) explicit_end =
     (let (u, problem) = prepare_pipeline tq t in
      (QueryPipeline u, first_problem (if explicit_end then Some ExplicitEnd else None) problem))"

definition query_from_ast :: "typeql \<Rightarrow> schema_query \<Rightarrow> bool \<Rightarrow> tql_query" where
  "query_from_ast tq q explicit_end =
     (let (inner, problem) = prepare_query tq q explicit_end in
      \<lparr>query_inner = inner, render_problem = problem, query_function_bodies = []\<rparr>)"

section \<open>Rendering\<close>

definition tql_parse :: "typeql \<Rightarrow> string \<Rightarrow> tql_query tql" where
  "tql_parse tq source =
     (case parse_query tq source of
        None \<Rightarrow> Inl InvalidSyntax
      | Some (q, explicit_end) \<Rightarrow> Inr (query_from_ast tq q explicit_end))"

text \<open>Rendering a query without function bodies.\<close>

definition render_plain :: "typeql \<Rightarrow> tql_query \<Rightarrow> string tql" where
  "render_plain tq q =
     (case render_problem q of
        Some construct \<Rightarrow> Inl (UnsupportedNode construct)
      | None \<Rightarrow> Inr (display_query tq (query_inner q)))"

definition tql_equivalent :: "typeql \<Rightarrow> string \<Rightarrow> string \<Rightarrow> bool tql" where
  "tql_equivalent tq left right =
     bind_res (bind_res (tql_parse tq left) (render_plain tq)) (\<lambda>l.
     bind_res (bind_res (tql_parse tq right) (render_plain tq)) (\<lambda>r.
     bind_res (tql_parse tq l) (\<lambda>p. bind_res (tql_parse tq r) (\<lambda>q. Inr (query_inner p = query_inner q)))))"

definition replace_range :: "nat \<Rightarrow> nat \<Rightarrow> string \<Rightarrow> string \<Rightarrow> string" where
  "replace_range start stop replacement source = take start source @ replacement @ drop stop source"

definition restore_body :: "definable list \<Rightarrow> nat \<times> string \<Rightarrow> string \<Rightarrow> string tql" where
  "restore_body definitions entry source =
     (if fst entry < length definitions then
        (case definitions ! fst entry of
           FunctionDefinition f \<Rightarrow>
             bind_res (ok_or (function_block_span f) InvalidSchemaShape) (\<lambda>(start, stop).
               Inr (replace_range start stop (snd entry @ [CHR 0x0A]) source))
         | _ \<Rightarrow> Inl InvalidSchemaShape)
      else Inl InvalidSchemaShape)"

definition restore_function_bodies :: "typeql \<Rightarrow> string \<Rightarrow> (nat \<times> string) list \<Rightarrow> string tql" where
  "restore_function_bodies tq source bodies =
     (if bodies = [] then Inr source
      else
        bind_res (ok_or (parse_query tq source) InvalidSchemaShape) (\<lambda>parsed.
        bind_res (case fst parsed of QueryDefine ds \<Rightarrow> Inr ds | QueryRedefine ds \<Rightarrow> Inr ds | _ \<Rightarrow> Inl InvalidSchemaShape) (\<lambda>definitions.
        bind_res (fold_res (restore_body definitions) (rev bodies) source) (\<lambda>restored.
        bind_res (tql_equivalent tq source restored) (\<lambda>same.
          if same then Inr restored else Inl InvalidSchemaShape)))))"

definition tql_render :: "typeql \<Rightarrow> tql_query \<Rightarrow> string tql" where
  "tql_render tq q = bind_res (render_plain tq q) (\<lambda>source. restore_function_bodies tq source (query_function_bodies q))"

section \<open>Definitions and undefinitions\<close>

definition schema_type ::
  "typeql \<Rightarrow> string option \<Rightarrow> string \<Rightarrow> tql_annotation list \<Rightarrow> tql_capability list \<Rightarrow> schema_definition tql" where
  "schema_type tq kind name values capabilities =
     (if (case kind of None \<Rightarrow> False | Some k \<Rightarrow> k \<notin> set (kind_names tq)) then Inl InvalidSchemaShape
      else bind_res (tql_label tq name) (\<lambda>l.
        Inr \<lparr>definition_inner =
               TypeDeclaration \<lparr>declaration_kind = kind, declaration_label = l, declaration_annotations = values,
                 declaration_capabilities = capabilities\<rparr>,
             caller_body = None\<rparr>))"

definition caller_bodies :: "schema_definition list \<Rightarrow> (nat \<times> string) list" where
  "caller_bodies ds =
     List.map_filter (\<lambda>(i, d). map_option (Pair i) (caller_body d)) (zip [0..<length ds] ds)"

definition tql_schema_query :: "typeql \<Rightarrow> schema_definition list \<Rightarrow> bool \<Rightarrow> tql_query" where
  "tql_schema_query tq ds redefine =
     (let inner = map definition_inner ds in
      (query_from_ast tq (if redefine then QueryRedefine inner else QueryDefine inner) False)
        \<lparr>query_function_bodies := caller_bodies ds\<rparr>)"

definition schema_define :: "typeql \<Rightarrow> schema_definition list \<Rightarrow> tql_query" where
  "schema_define tq ds = tql_schema_query tq ds False"

definition schema_redefine :: "typeql \<Rightarrow> schema_definition list \<Rightarrow> tql_query" where
  "schema_redefine tq ds = tql_schema_query tq ds True"

definition schema_undefine :: "typeql \<Rightarrow> undefinable list \<Rightarrow> tql_query" where
  "schema_undefine tq us = query_from_ast tq (QueryUndefine us) False"

definition schema_undefine_type :: "typeql \<Rightarrow> string \<Rightarrow> undefinable tql" where
  "schema_undefine_type tq name = bind_res (tql_label tq name) (\<lambda>l. Inr (UndefineType l))"

definition schema_undefine_function :: "typeql \<Rightarrow> string \<Rightarrow> undefinable tql" where
  "schema_undefine_function tq name = bind_res (tql_label tq name) (\<lambda>_. Inr (UndefineFunction name))"

definition schema_undefine_capability :: "typeql \<Rightarrow> string \<Rightarrow> tql_capability \<Rightarrow> undefinable tql" where
  "schema_undefine_capability tq name c =
     (if capability_annotations c \<noteq> [] then Inl InvalidSchemaShape
      else bind_res (tql_label tq name) (\<lambda>l. Inr (UndefineCapability (capability_base c) l)))"

definition schema_undefine_specialisation_with_ordering ::
  "typeql \<Rightarrow> string \<Rightarrow> string \<Rightarrow> string \<Rightarrow> bool \<Rightarrow> undefinable tql" where
  "schema_undefine_specialisation_with_ordering tq relation role parent is_list =
     bind_res (tql_label tq parent) (\<lambda>p.
     bind_res (tql_label tq relation) (\<lambda>l.
     bind_res (reference tq role is_list) (\<lambda>r. Inr (UndefineSpecialise p l (BaseRelates r None)))))"

definition annotation_category_of :: "typeql \<Rightarrow> string \<Rightarrow> string option \<Rightarrow> annotation_category tql" where
  "annotation_category_of tq name key =
     (if name = ''abstract'' then Inr CatAbstract
      else if name = ''card'' then Inr CatCardinality
      else if name = ''cascade'' then Inr CatCascade
      else if name = ''distinct'' then Inr CatDistinct
      else if name = ''doc'' then Inr CatDoc
      else if name = ''independent'' then Inr CatIndependent
      else if name = ''key'' then Inr CatKey
      else if name = ''meta'' then
        bind_res (ok_or key InvalidSchemaShape) (\<lambda>k. bind_res (quoted tq k) (\<lambda>q. Inr (CatMeta q)))
      else if name = ''range'' then Inr CatRange
      else if name = ''regex'' then Inr CatRegex
      else if name = ''subkey'' then Inr CatSubkey
      else if name = ''unique'' then Inr CatUnique
      else if name = ''values'' then Inr CatValues
      else Inl InvalidSchemaShape)"

definition schema_undefine_annotation ::
  "typeql \<Rightarrow> string \<Rightarrow> string option \<Rightarrow> string \<Rightarrow> tql_capability option \<Rightarrow> undefinable tql" where
  "schema_undefine_annotation tq name key subject capability =
     (if name \<noteq> ''meta'' \<and> key \<noteq> None then Inl InvalidSchemaShape
      else
        bind_res (annotation_category_of tq name key) (\<lambda>category.
        bind_res (tql_label tq subject) (\<lambda>s.
          case capability of
            None \<Rightarrow> Inr (UndefineAnnotationType category s)
          | Some c \<Rightarrow>
              if capability_annotations c \<noteq> [] then Inl InvalidSchemaShape
              else Inr (UndefineAnnotationCapability category s (capability_base c)))))"

section \<open>Functions\<close>

definition schema_function :: "typeql \<Rightarrow> string \<Rightarrow> string \<Rightarrow> schema_definition tql" where
  "schema_function tq signature body =
     bind_res (ok_or (parse_query tq (''define '' @ signature @ '':'' @ [CHR 0x0A] @ body)) InvalidSchemaShape) (\<lambda>parsed.
       case fst parsed of
         QueryDefine [FunctionDefinition f] \<Rightarrow>
           Inr \<lparr>definition_inner = FunctionDefinition f, caller_body = Some body\<rparr>
       | _ \<Rightarrow> Inl InvalidSchemaShape)"

fun named_reference :: "typeql \<Rightarrow> type_reference \<Rightarrow> named_type tql" where
  "named_reference tq (RefValue domain) = Inr (builtin_named_type domain)"
| "named_reference tq (RefSchema name) = bind_res (tql_label tq name) (\<lambda>l. Inr (NamedLabel l))"

definition function_argument :: "typeql \<Rightarrow> function_parameter \<Rightarrow> tql_argument tql" where
  "function_argument tq p =
     bind_res (variable tq (parameter_name p)) (\<lambda>v.
     bind_res (named_reference tq (parameter_type_ref p)) (\<lambda>t.
       Inr \<lparr>argument_variable = v, argument_type = SimpleType t\<rparr>))"

definition function_element :: "typeql \<Rightarrow> function_return_element \<Rightarrow> named_type_any tql" where
  "function_element tq e =
     bind_res (named_reference tq (return_type_ref e)) (\<lambda>t. Inr (if return_optional e then OptionalType t else SimpleType t))"

definition schema_function_fact :: "typeql \<Rightarrow> function_fact \<Rightarrow> tql_annotation list \<Rightarrow> schema_definition tql" where
  "schema_function_fact tq f values =
     (let name = function_label (function_fact_id_of f); sig = function_signature_of f in
      bind_res (tql_label tq name) (\<lambda>_.
      bind_res (map_res (function_argument tq) (signature_parameters sig)) (\<lambda>args.
      bind_res (map_res (function_element tq) (return_elements (signature_returns sig))) (\<lambda>types.
      bind_res (schema_function tq
          (''fun '' @ display_signature tq
             \<lparr>signature_ident = name, signature_args = args,
              signature_stream = (case signature_returns sig of ReturnStream _ \<Rightarrow> True | _ \<Rightarrow> False),
              signature_types = types\<rparr>)
          (function_body f)) (\<lambda>d.
        case definition_inner d of
          FunctionDefinition node \<Rightarrow>
            Inr (d\<lparr>definition_inner := FunctionDefinition (node\<lparr>function_annotations := values\<rparr>)\<rparr>)
        | _ \<Rightarrow> Inl InvalidSchemaShape)))))"

end
