(* ===== verification/Schema_Lowering.thy ===== *)
theory Schema_Lowering
  imports Lowering_Profile Typeql_Nodes
begin

text \<open>
  The offline lowering of a delta to TypeQL statements, \<open>schema-migration/src/lowering.rs\<close>: fact
  catalogs, the profile binding, the rendering of every operation through the builders of
  \<open>Typeql_Nodes\<close>, and the gated, index-preserving list of statement units. A diagnostic keeps its
  code, the operation index, the safety class and the missing capabilities. \<open>Distinct\<close> is refused
  wherever it would be rendered.
\<close>

section \<open>Diagnostics\<close>

record lowering_diagnostic =
  lowering_code :: string
  lowering_operation_index :: "nat option"
  lowering_safety :: "safety_class option"
  lowering_missing_capabilities :: "capability_id list"

type_synonym 'a lowering = "lowering_diagnostic + 'a"

definition CODE_PROFILE_MISMATCH :: string where "CODE_PROFILE_MISMATCH = ''schema_lowering_profile_mismatch''"
definition CODE_SEMANTIC_PROFILE_UNSUPPORTED :: string where
  "CODE_SEMANTIC_PROFILE_UNSUPPORTED = ''schema_lowering_semantic_profile_unsupported''"
definition CODE_CAPABILITY_MISMATCH :: string where "CODE_CAPABILITY_MISMATCH = ''schema_lowering_capability_mismatch''"
definition CODE_CONTEXT_MISMATCH :: string where "CODE_CONTEXT_MISMATCH = ''schema_lowering_fact_context_mismatch''"
definition CODE_REQUIRES_ASSERTION :: string where "CODE_REQUIRES_ASSERTION = ''schema_lowering_requires_assertion''"
definition CODE_REQUIRES_BACKFILL :: string where "CODE_REQUIRES_BACKFILL = ''schema_lowering_requires_backfill''"
definition CODE_DESTRUCTIVE :: string where "CODE_DESTRUCTIVE = ''schema_lowering_destructive''"
definition CODE_OPAQUE :: string where "CODE_OPAQUE = ''schema_lowering_opaque''"
definition CODE_UNSUPPORTED :: string where "CODE_UNSUPPORTED = ''schema_lowering_unsupported''"
definition CODE_INVALID_TRANSITION :: string where "CODE_INVALID_TRANSITION = ''schema_lowering_invalid_transition''"
definition CODE_RENDER_CONTEXT :: string where "CODE_RENDER_CONTEXT = ''schema_lowering_render_context_missing''"

definition lowering_diagnostic_new :: "string \<Rightarrow> lowering_diagnostic" where
  "lowering_diagnostic_new code =
     \<lparr>lowering_code = code, lowering_operation_index = None, lowering_safety = None, lowering_missing_capabilities = []\<rparr>"

definition at_operation :: "nat \<Rightarrow> lowering_diagnostic \<Rightarrow> lowering_diagnostic" where
  "at_operation i d = d\<lparr>lowering_operation_index := Some i\<rparr>"

definition with_safety :: "safety_class \<Rightarrow> lowering_diagnostic \<Rightarrow> lowering_diagnostic" where
  "with_safety safety d = d\<lparr>lowering_safety := Some safety\<rparr>"

definition with_missing_capabilities :: "capability_id list \<Rightarrow> lowering_diagnostic \<Rightarrow> lowering_diagnostic" where
  "with_missing_capabilities missing d = d\<lparr>lowering_missing_capabilities := missing\<rparr>"

fun gate_code :: "lowering_error \<Rightarrow> string" where
  "gate_code InvalidTransition = CODE_INVALID_TRANSITION"
| "gate_code RequiresAssertion = CODE_REQUIRES_ASSERTION"
| "gate_code RequiresBackfill = CODE_REQUIRES_BACKFILL"
| "gate_code DestructiveRequiresApproval = CODE_DESTRUCTIVE"
| "gate_code OpaqueTransition = CODE_OPAQUE"
| "gate_code UnsupportedTransition = CODE_UNSUPPORTED"

definition gate_operation :: "nat \<Rightarrow> safety_class \<Rightarrow> bool \<Rightarrow> bool \<Rightarrow> unit lowering" where
  "gate_operation i safety verifier_resolved destructive_approved =
     map_sum (\<lambda>e. with_safety safety (at_operation i (lowering_diagnostic_new (gate_code e)))) id
       (gate_safety safety verifier_resolved destructive_approved)"

section \<open>Catalogs and bindings\<close>

fun catalog_loop :: "schema_fact list \<Rightarrow> fact_map \<Rightarrow> fact_map lowering" where
  "catalog_loop [] catalog = Inr catalog"
| "catalog_loop (f # fs) catalog =
     (if fact_id f |\<in>| fmdom catalog then Inl (lowering_diagnostic_new CODE_CONTEXT_MISMATCH)
      else catalog_loop fs (fmupd (fact_id f) f catalog))"

definition fact_catalog_new :: "schema_fact list \<Rightarrow> fact_map lowering" where
  "fact_catalog_new facts = catalog_loop facts fmempty"

definition matches_selection :: "fact_map \<Rightarrow> schema_fact_id fset \<Rightarrow> bool" where
  "matches_selection catalog selection \<longleftrightarrow>
     length (fm_keys catalog) = length (sorted_list_of_fset selection)
     \<and> list_all (\<lambda>(left, right). left = right) (zip (fm_keys catalog) (sorted_list_of_fset selection))"

record lowering_binding =
  binding_lowering_profile :: string
  binding_lowering_fingerprint :: fingerprint
  binding_capabilities :: capability_set

text \<open>The content fingerprint of a compiled registry hashes its canonical JSON; it is a parameter.\<close>

definition lowering_binding_new ::
  "(migration_profile \<Rightarrow> fingerprint) \<Rightarrow> string \<Rightarrow> fingerprint \<Rightarrow> capability_set \<Rightarrow> lowering_binding lowering" where
  "lowering_binding_new registry_fingerprint profile fp available =
     (if (case profile_for_lowering_profile_id profile of None \<Rightarrow> True | Some registry \<Rightarrow> fp \<noteq> registry_fingerprint registry)
      then Inl (lowering_diagnostic_new CODE_PROFILE_MISMATCH)
      else Inr \<lparr>binding_lowering_profile = profile, binding_lowering_fingerprint = fp, binding_capabilities = available\<rparr>)"

text \<open>\<open>None\<close> is the \<open>expect\<close> of \<open>lowering_profile_id\<close>, which the profile tables exclude.\<close>

definition binding_for_semantic_profile ::
  "(migration_profile \<Rightarrow> fingerprint) \<Rightarrow> string \<Rightarrow> capability_set \<Rightarrow> lowering_binding lowering option" where
  "binding_for_semantic_profile registry_fingerprint semantic available =
     (case profile_for_semantic_profile semantic of
        None \<Rightarrow> Some (Inl (lowering_diagnostic_new CODE_SEMANTIC_PROFILE_UNSUPPORTED))
      | Some registry \<Rightarrow>
          map_option (\<lambda>profile. lowering_binding_new registry_fingerprint profile (registry_fingerprint registry) available)
            (migration_lowering_profile_id registry))"

section \<open>Annotation nodes\<close>

text \<open>A rendering failure is its code; any failure of the builders is \<open>unsupported\<close>.\<close>

type_synonym 'a rendering = "string + 'a"

definition rendered :: "'a tql \<Rightarrow> 'a rendering" where
  "rendered r = map_sum (\<lambda>_. CODE_UNSUPPORTED) id r"

fun kind_text :: "type_kind \<Rightarrow> string" where
  "kind_text Entity = ''entity''"
| "kind_text Relation = ''relation''"
| "kind_text Attribute = ''attribute''"
| "kind_text Struct = ''struct''"

definition reject_distinct_lowering :: "annotation_kind_id \<Rightarrow> unit rendering" where
  "reject_distinct_lowering kind = ensure (kind \<noteq> Distinct) CODE_UNSUPPORTED"

definition annotation_node :: "typeql \<Rightarrow> annotation_fact \<Rightarrow> tql_annotation rendering" where
  "annotation_node tq a =
     (let kind = annotation_kind (annotation_fact_id_of a) in
      bind_res (reject_distinct_lowering kind) (\<lambda>_.
        case (kind, annotation_value a) of
          (Abstract, PayloadPresence) \<Rightarrow> rendered (schema_flag ''abstract'')
        | (Independent, PayloadPresence) \<Rightarrow> rendered (schema_flag ''independent'')
        | (Key, PayloadPresence) \<Rightarrow> rendered (schema_flag ''key'')
        | (Unique, PayloadPresence) \<Rightarrow> rendered (schema_flag ''unique'')
        | (Card, PayloadCardinality c) \<Rightarrow> rendered (schema_card (card_min c) (card_max c))
        | (Regex, PayloadRegex r) \<Rightarrow> rendered (schema_regex tq (regex_text r))
        | (Range, PayloadRange r) \<Rightarrow> rendered (schema_canonical_range tq (range_lower r) (range_upper r))
        | (Values, PayloadValues vs) \<Rightarrow> rendered (schema_canonical_values tq (sorted_list_of_fset vs))
        | (Doc, PayloadDoc d) \<Rightarrow> rendered (schema_doc tq (doc_text_of d))
        | (Meta key, PayloadMeta (VString s)) \<Rightarrow> rendered (schema_meta tq key (string_text s))
        | _ \<Rightarrow> Inl CODE_UNSUPPORTED))"

definition is_ordered :: "collection_mode \<Rightarrow> bool" where
  "is_ordered mode \<longleftrightarrow> mode = OrderedList"

fun annotation_subject_node ::
  "typeql \<Rightarrow> annotation_subject_id \<Rightarrow> fact_map \<Rightarrow> (string \<times> tql_capability option) rendering" where
  "annotation_subject_node tq (OnType t) catalog = Inr (type_id_label t, None)"
| "annotation_subject_node tq (OnSub s) catalog =
     bind_res (rendered (schema_sub tq (type_id_label (sub_supertype s)))) (\<lambda>c. Inr (type_id_label (sub_subtype s), Some c))"
| "annotation_subject_node tq (OnValue v) catalog =
     (case fmlookup catalog (IdValue v) of
        Some (FactValue f) \<Rightarrow>
          Inr (attribute_label (value_attribute v), Some (schema_value_domain (value_fact_type f) []))
      | _ \<Rightarrow> Inl CODE_RENDER_CONTEXT)"
| "annotation_subject_node tq (OnOwns w) catalog =
     bind_res (rendered (schema_owns tq (attribute_label (owns_attribute w))
         (case fmlookup catalog (IdOwns w) of Some (FactOwns f) \<Rightarrow> is_ordered (owns_collection_mode f) | _ \<Rightarrow> False) []))
       (\<lambda>c. Inr (type_id_label (owns_owner w), Some c))"
| "annotation_subject_node tq (OnRelates r) catalog =
     bind_res (rendered (schema_relates tq (role_label (relates_role r))
         (case fmlookup catalog (IdRelates r) of Some (FactRelates f) \<Rightarrow> is_ordered (relates_collection_mode f) | _ \<Rightarrow> False)
         None []))
       (\<lambda>c. Inr (type_id_label (relates_relation r), Some c))"
| "annotation_subject_node tq (OnPlays p) catalog =
     bind_res (rendered (schema_plays tq (declaring_relation (plays_role p)) (role_label (plays_role p)) []))
       (\<lambda>c. Inr (type_id_label (plays_player p), Some c))"
| "annotation_subject_node tq (OnFunction _) catalog = Inl CODE_UNSUPPORTED"

definition annotation_definition :: "typeql \<Rightarrow> annotation_fact \<Rightarrow> fact_map \<Rightarrow> bool \<Rightarrow> schema_definition rendering" where
  "annotation_definition tq a catalog defining =
     (let subject = annotation_subject (annotation_fact_id_of a) in
      bind_res (annotation_node tq a) (\<lambda>v.
      bind_res (annotation_subject_node tq subject catalog) (\<lambda>(name, capability).
        let head = (case capability of None \<Rightarrow> [v] | Some _ \<Rightarrow> []);
            capabilities = (case capability of None \<Rightarrow> [] | Some c \<Rightarrow> [annotated c [v]]);
            kind = (if defining then (case subject of OnType t \<Rightarrow> Some (kind_text (type_id_kind t)) | _ \<Rightarrow> None) else None)
        in rendered (schema_type tq kind name head capabilities))))"

fun undefined_category :: "annotation_kind_id \<Rightarrow> string \<times> string option" where
  "undefined_category Abstract = (''abstract'', None)"
| "undefined_category Independent = (''independent'', None)"
| "undefined_category Key = (''key'', None)"
| "undefined_category Unique = (''unique'', None)"
| "undefined_category Distinct = (''distinct'', None)"
| "undefined_category Card = (''card'', None)"
| "undefined_category Regex = (''regex'', None)"
| "undefined_category Range = (''range'', None)"
| "undefined_category Values = (''values'', None)"
| "undefined_category Doc = (''doc'', None)"
| "undefined_category (Meta key) = (''meta'', Some key)"

definition annotation_undefinition :: "typeql \<Rightarrow> annotation_fact \<Rightarrow> fact_map \<Rightarrow> undefinable rendering" where
  "annotation_undefinition tq a catalog =
     (let kind = annotation_kind (annotation_fact_id_of a) in
      bind_res (reject_distinct_lowering kind) (\<lambda>_.
      bind_res (annotation_subject_node tq (annotation_subject (annotation_fact_id_of a)) catalog) (\<lambda>(name, capability).
        let (category, key) = undefined_category kind in
        rendered (schema_undefine_annotation tq category key name capability))))"

section \<open>Fact nodes\<close>

text \<open>The identity of the specialized role is rebuilt from its declaring relation, whose label is
  already valid.\<close>

definition specialized_mode_conflict :: "relates_fact \<Rightarrow> fact_map \<Rightarrow> bool" where
  "specialized_mode_conflict r catalog \<longleftrightarrow>
     (case relates_specializes r of
        None \<Rightarrow> False
      | Some parent \<Rightarrow>
          (case relates_fact_id_new (TypeId Relation (declaring_relation parent)) parent of
             Inl _ \<Rightarrow> True
           | Inr i \<Rightarrow>
               (case fmlookup catalog (IdRelates i) of
                  Some (FactRelates p) \<Rightarrow> relates_collection_mode p \<noteq> relates_collection_mode r
                | _ \<Rightarrow> False)))"

definition relates_definition :: "typeql \<Rightarrow> relates_fact \<Rightarrow> fact_map \<Rightarrow> schema_definition rendering" where
  "relates_definition tq r catalog =
     (if specialized_mode_conflict r catalog then Inl CODE_INVALID_TRANSITION
      else
        rendered
          (bind_res (schema_relates tq (role_label (relates_role (relates_fact_id_of r))) (is_ordered (relates_collection_mode r))
             (map_option role_label (relates_specializes r)) []) (\<lambda>c.
           schema_type tq None (type_id_label (relates_relation (relates_fact_id_of r))) [] [c])))"

fun definition_node :: "typeql \<Rightarrow> schema_fact \<Rightarrow> fact_map \<Rightarrow> bool \<Rightarrow> schema_definition rendering" where
  "definition_node tq (FactType t) catalog defining =
     rendered (schema_type tq (Some (kind_text (type_id_kind t))) (type_id_label t) [] [])"
| "definition_node tq (FactSub s) catalog defining =
     rendered (bind_res (schema_sub tq (type_id_label (sub_supertype s))) (\<lambda>c.
       schema_type tq None (type_id_label (sub_subtype s)) [] [c]))"
| "definition_node tq (FactValue v) catalog defining =
     rendered (schema_type tq None (attribute_label (value_attribute (value_fact_id_of v))) []
       [schema_value_domain (value_fact_type v) []])"
| "definition_node tq (FactOwns w) catalog defining =
     rendered (bind_res (schema_owns tq (attribute_label (owns_attribute (owns_fact_id_of w))) (is_ordered (owns_collection_mode w)) [])
       (\<lambda>c. schema_type tq None (type_id_label (owns_owner (owns_fact_id_of w))) [] [c]))"
| "definition_node tq (FactRelates r) catalog defining = relates_definition tq r catalog"
| "definition_node tq (FactPlays p) catalog defining =
     rendered (bind_res (schema_plays tq (declaring_relation (plays_role p)) (role_label (plays_role p)) []) (\<lambda>c.
       schema_type tq None (type_id_label (plays_player p)) [] [c]))"
| "definition_node tq (FactAnnotation a) catalog defining = annotation_definition tq a catalog defining"
| "definition_node tq (FactFunction f) catalog defining = rendered (schema_function_fact tq f [])"
| "definition_node tq (FactStruct _) catalog defining = Inl CODE_UNSUPPORTED"

fun undefinition_node :: "typeql \<Rightarrow> schema_fact \<Rightarrow> fact_map \<Rightarrow> undefinable rendering" where
  "undefinition_node tq (FactType t) catalog = rendered (schema_undefine_type tq (type_id_label t))"
| "undefinition_node tq (FactSub s) catalog =
     rendered (bind_res (schema_sub tq (type_id_label (sub_supertype s)))
       (schema_undefine_capability tq (type_id_label (sub_subtype s))))"
| "undefinition_node tq (FactValue v) catalog =
     rendered (schema_undefine_capability tq (attribute_label (value_attribute (value_fact_id_of v)))
       (schema_value_domain (value_fact_type v) []))"
| "undefinition_node tq (FactOwns w) catalog =
     rendered (bind_res (schema_owns tq (attribute_label (owns_attribute (owns_fact_id_of w))) (is_ordered (owns_collection_mode w)) [])
       (schema_undefine_capability tq (type_id_label (owns_owner (owns_fact_id_of w)))))"
| "undefinition_node tq (FactRelates r) catalog =
     rendered (bind_res (schema_relates tq (role_label (relates_role (relates_fact_id_of r))) (is_ordered (relates_collection_mode r)) None [])
       (schema_undefine_capability tq (type_id_label (relates_relation (relates_fact_id_of r)))))"
| "undefinition_node tq (FactPlays p) catalog =
     rendered (bind_res (schema_plays tq (declaring_relation (plays_role p)) (role_label (plays_role p)) [])
       (schema_undefine_capability tq (type_id_label (plays_player p))))"
| "undefinition_node tq (FactAnnotation a) catalog = annotation_undefinition tq a catalog"
| "undefinition_node tq (FactFunction f) catalog = rendered (schema_undefine_function tq (function_label (function_fact_id_of f)))"
| "undefinition_node tq (FactStruct _) catalog = Inl CODE_UNSUPPORTED"

section \<open>Statements\<close>

datatype typeql_verb = VerbDefine | VerbUndefine | VerbRedefine

record typeql_statement =
  statement_verb :: typeql_verb
  statement_query :: string

definition statement_new :: "typeql \<Rightarrow> typeql_verb \<Rightarrow> tql_query \<Rightarrow> typeql_statement rendering" where
  "statement_new tq verb query =
     bind_res (rendered (tql_render tq query)) (\<lambda>text. Inr \<lparr>statement_verb = verb, statement_query = text\<rparr>)"

text \<open>A one-node statement of each verb.\<close>

definition define_statement :: "typeql \<Rightarrow> schema_definition list \<Rightarrow> typeql_statement list rendering" where
  "define_statement tq ds = bind_res (statement_new tq VerbDefine (schema_define tq ds)) (\<lambda>s. Inr [s])"

definition redefine_statement :: "typeql \<Rightarrow> schema_definition \<Rightarrow> typeql_statement list rendering" where
  "redefine_statement tq d = bind_res (statement_new tq VerbRedefine (schema_redefine tq [d])) (\<lambda>s. Inr [s])"

definition undefine_statement :: "typeql \<Rightarrow> undefinable \<Rightarrow> typeql_statement list rendering" where
  "undefine_statement tq u = bind_res (statement_new tq VerbUndefine (schema_undefine tq [u])) (\<lambda>s. Inr [s])"

text \<open>The annotations of a function defined by the same operation are folded into its definition.\<close>

type_synonym function_metadata = "(function_id, tql_annotation list) fmap"

definition folded_into_function :: "function_id list \<Rightarrow> schema_fact \<Rightarrow> function_id option" where
  "folded_into_function functions f =
     (case f of
        FactAnnotation a \<Rightarrow>
          (case annotation_subject (annotation_fact_id_of a) of
             OnFunction function \<Rightarrow> if function \<in> set functions then Some function else None
           | _ \<Rightarrow> None)
      | _ \<Rightarrow> None)"

definition collect_metadata :: "typeql \<Rightarrow> function_id list \<Rightarrow> schema_fact \<Rightarrow> function_metadata \<Rightarrow> function_metadata rendering" where
  "collect_metadata tq functions f metadata =
     (case (f, folded_into_function functions f) of
        (FactAnnotation a, Some function) \<Rightarrow>
          bind_res (annotation_node tq a) (\<lambda>v.
            Inr (fmupd function (unwrap_or (fmlookup metadata function) [] @ [v]) metadata))
      | _ \<Rightarrow> Inr metadata)"

definition define_fact :: "typeql \<Rightarrow> function_id list \<Rightarrow> fact_map \<Rightarrow> schema_fact \<Rightarrow> function_metadata \<times> schema_definition list \<Rightarrow>
    (function_metadata \<times> schema_definition list) rendering" where
  "define_fact tq functions target f state =
     (let (metadata, definitions) = state in
      if folded_into_function functions f \<noteq> None then Inr state
      else
        (case f of
           FactFunction function \<Rightarrow>
             (let i = function_fact_id_of function in
              bind_res (rendered (schema_function_fact tq function (unwrap_or (fmlookup metadata i) []))) (\<lambda>d.
                Inr (fmdrop i metadata, definitions @ [d])))
         | _ \<Rightarrow> bind_res (definition_node tq f target True) (\<lambda>d. Inr (metadata, definitions @ [d]))))"

definition render_define :: "typeql \<Rightarrow> schema_fact list \<Rightarrow> fact_map \<Rightarrow> typeql_statement list rendering" where
  "render_define tq facts target =
     (let functions = defined_functions facts in
      bind_res (fold_res (collect_metadata tq functions) facts fmempty) (\<lambda>metadata.
      bind_res (fold_res (define_fact tq functions target) facts (fmmap (sort_key (display_annotation tq)) metadata, [])) (\<lambda>state.
        define_statement tq (snd state))))"

definition render_redefine :: "typeql \<Rightarrow> schema_fact \<Rightarrow> schema_fact \<Rightarrow> fact_map \<Rightarrow> fact_map \<Rightarrow> typeql_statement list rendering" where
  "render_redefine tq expected replacement source target =
     (let redefined = bind_res (definition_node tq replacement target False) (redefine_statement tq) in
      case (expected, replacement) of
        (FactAnnotation old, FactAnnotation new) \<Rightarrow>
          (case annotation_subject (annotation_fact_id_of old) of
             OnSub _ \<Rightarrow>
               if is_metadata_kind (annotation_kind (annotation_fact_id_of old)) then
                 bind_res (bind_res (annotation_undefinition tq old source) (undefine_statement tq)) (\<lambda>removed.
                 bind_res (bind_res (annotation_definition tq new target False) (\<lambda>d. define_statement tq [d])) (\<lambda>added.
                   Inr (removed @ added)))
               else redefined
           | _ \<Rightarrow> redefined)
      | (FactRelates old, FactRelates new) \<Rightarrow>
          (case (relates_specializes old, relates_specializes new) of
             (None, Some _) \<Rightarrow> bind_res (relates_definition tq new target) (\<lambda>d. define_statement tq [d])
           | (Some parent, None) \<Rightarrow>
               bind_res (rendered (schema_undefine_specialisation_with_ordering tq
                   (type_id_label (relates_relation (relates_fact_id_of old))) (role_label (relates_role (relates_fact_id_of old)))
                   (role_label parent) (is_ordered (relates_collection_mode old))))
                 (undefine_statement tq)
           | (Some _, Some _) \<Rightarrow> bind_res (relates_definition tq new target) (redefine_statement tq)
           | (None, None) \<Rightarrow> Inl CODE_INVALID_TRANSITION)
      | _ \<Rightarrow> redefined)"

fun render_operation_inner :: "typeql \<Rightarrow> schema_operation \<Rightarrow> fact_map \<Rightarrow> fact_map \<Rightarrow> typeql_statement list rendering" where
  "render_operation_inner tq (Define facts) source target = render_define tq facts target"
| "render_operation_inner tq (Undefine f) source target = bind_res (undefinition_node tq f source) (undefine_statement tq)"
| "render_operation_inner tq (Redefine expected replacement) source target = render_redefine tq expected replacement source target"

definition render_operation ::
  "typeql \<Rightarrow> nat \<Rightarrow> schema_operation \<Rightarrow> fact_map \<Rightarrow> fact_map \<Rightarrow> typeql_statement list lowering" where
  "render_operation tq i op source target =
     map_sum (\<lambda>code. at_operation i (lowering_diagnostic_new code)) id (render_operation_inner tq op source target)"

section \<open>Units and plans\<close>

datatype statement_operation_kind = StatementDefine | StatementRedefine | StatementUndefine

fun statement_kind :: "schema_operation_kind \<Rightarrow> statement_operation_kind" where
  "statement_kind KindDefine = StatementDefine"
| "statement_kind KindRedefine = StatementRedefine"
| "statement_kind KindUndefine = StatementUndefine"

record statement_unit =
  unit_operation_index :: nat
  unit_operation_kind :: statement_operation_kind
  unit_safety :: safety_class
  unit_atomic :: bool
  unit_affected_ids :: "schema_fact_id list"
  unit_required_capabilities :: capability_set
  unit_statements :: "typeql_statement list"

record schema_lowering_plan =
  lowering_delta :: schema_delta
  lowering_profile :: string
  lowering_fingerprint :: fingerprint
  lowering_units :: "statement_unit list"

definition lower_operation :: "typeql \<Rightarrow> nat \<Rightarrow> schema_operation \<Rightarrow> fact_map \<Rightarrow> fact_map \<Rightarrow> lowering_binding \<Rightarrow> bool \<Rightarrow> bool \<Rightarrow>
    statement_unit lowering option" where
  "lower_operation tq i op source target binding verifier_resolved destructive_approved =
     (case classify_operation_transition op of
        None \<Rightarrow> None
      | Some (Inl _) \<Rightarrow> Some (Inl (at_operation i (lowering_diagnostic_new CODE_INVALID_TRANSITION)))
      | Some (Inr classification) \<Rightarrow>
          (let missing = filter (\<lambda>c. c |\<notin>| binding_capabilities binding)
                 (sorted_list_of_fset (transition_capabilities classification)) in
           Some
             (if missing \<noteq> []
              then Inl (with_missing_capabilities missing (at_operation i (lowering_diagnostic_new CODE_CAPABILITY_MISMATCH)))
              else
                bind_res (gate_operation i (transition_safety classification) verifier_resolved destructive_approved) (\<lambda>_.
                bind_res (render_operation tq i op source target) (\<lambda>statements.
                  Inr \<lparr>unit_operation_index = i, unit_operation_kind = statement_kind (operation_kind op),
                       unit_safety = transition_safety classification, unit_atomic = transition_atomic classification,
                       unit_affected_ids = affected_ids op,
                       unit_required_capabilities = transition_capabilities classification,
                       unit_statements = statements\<rparr>)))))"

definition deleted_attributes :: "schema_operation list \<Rightarrow> label fset" where
  "deleted_attributes ops =
     fset_of_list (List.map_filter
       (\<lambda>op. case op of
               Undefine (FactType t) \<Rightarrow> if type_id_kind t = Attribute then Some (type_id_label t) else None
             | _ \<Rightarrow> None) ops)"

text \<open>The deletion of an attribute type also deletes its value declaration.\<close>

definition cascaded :: "schema_operation list \<Rightarrow> schema_operation \<Rightarrow> bool" where
  "cascaded ops op \<longleftrightarrow>
     (case op of
        Undefine (FactValue v) \<Rightarrow> attribute_label (value_attribute (value_fact_id_of v)) |\<in>| deleted_attributes ops
      | _ \<Rightarrow> False)"

text \<open>The binary search in the strictly increasing index list is membership.\<close>

definition lower_unit :: "typeql \<Rightarrow> schema_operation list \<Rightarrow> fact_map \<Rightarrow> fact_map \<Rightarrow> lowering_binding \<Rightarrow> nat list \<Rightarrow> bool \<Rightarrow>
    nat \<times> schema_operation \<Rightarrow> statement_unit lowering option" where
  "lower_unit tq ops source target binding discharged approved entry =
     bind_panicking (lower_operation tq (fst entry) (snd entry) source target binding (fst entry \<in> set discharged) approved)
       (\<lambda>unit. Some (Inr (if cascaded ops (snd entry) then unit\<lparr>unit_statements := []\<rparr> else unit)))"

definition lower_schema_delta_with_verified_assertions :: "typeql \<Rightarrow> schema_delta \<Rightarrow> fact_map \<Rightarrow> fact_map \<Rightarrow> lowering_binding \<Rightarrow>
    nat list \<Rightarrow> bool \<Rightarrow> schema_lowering_plan lowering option" where
  "lower_schema_delta_with_verified_assertions tq delta source target binding discharged approved =
     (let ops = delta_operations delta in
      if \<not> matches_selection source (state_selection (delta_source delta))
         \<or> \<not> matches_selection target (state_selection (delta_target delta))
      then Some (Inl (lowering_diagnostic_new CODE_CONTEXT_MISMATCH))
      else if list_ex (\<lambda>(a, b). b \<le> a) (zip discharged (tl discharged))
              \<or> (discharged \<noteq> [] \<and> length ops \<le> last discharged)
      then Some (Inl (lowering_diagnostic_new CODE_CONTEXT_MISMATCH))
      else
        bind_panicking
          (map_panicking (lower_unit tq ops source target binding discharged approved) (zip [0..<length ops] ops)) (\<lambda>units.
            Some (Inr \<lparr>lowering_delta = delta, lowering_profile = binding_lowering_profile binding,
              lowering_fingerprint = binding_lowering_fingerprint binding, lowering_units = units\<rparr>)))"

definition lower_schema_delta :: "typeql \<Rightarrow> schema_delta \<Rightarrow> fact_map \<Rightarrow> fact_map \<Rightarrow> lowering_binding \<Rightarrow>
    schema_lowering_plan lowering option" where
  "lower_schema_delta tq delta source target binding =
     lower_schema_delta_with_verified_assertions tq delta source target binding [] False"

end
