(* ===== verification/Apply_Groups.thy ===== *)
theory Apply_Groups
  imports Migration_History Schema_Lowering
begin

text \<open>
  Apply plans and their transaction groups (\<open>schema-migration/src/apply_plan.rs\<close>): the verified steps
  of a manifest, the partition of the steps into groups that each end in one schema delta, and the
  single schema state an applied frontier stands for. The canonical bytes of an assertion plan are a
  parameter. The validated assertion of the query crate is kept as a record; validating it is not part
  of this theory.
\<close>

section \<open>Steps\<close>

record validated_assertion_plan =
  validated_plan :: migration_assertion_plan
  validated_source_state :: managed_schema_state

datatype apply_step =
    ApplyAssertion migration_step validated_assertion_plan
  | ApplySchemaDelta migration_step schema_lowering_plan
  | ApplyBackfill migration_step

fun apply_step_of :: "apply_step \<Rightarrow> migration_step" where
  "apply_step_of (ApplyAssertion step _) = step"
| "apply_step_of (ApplySchemaDelta step _) = step"
| "apply_step_of (ApplyBackfill step) = step"

fun validated_assertion :: "apply_step \<Rightarrow> validated_assertion_plan option" where
  "validated_assertion (ApplyAssertion _ validated) = Some validated"
| "validated_assertion _ = None"

fun apply_lowering :: "apply_step \<Rightarrow> schema_lowering_plan option" where
  "apply_lowering (ApplySchemaDelta _ lowering) = Some lowering"
| "apply_lowering _ = None"

section \<open>Transaction groups\<close>

record transaction_group =
  group_ordinal :: nat
  group_first_step_index :: nat
  group_delta_step_index :: nat

definition assertion_count :: "transaction_group \<Rightarrow> nat" where
  "assertion_count g = group_delta_step_index g - group_first_step_index g"

definition end_step_index :: "transaction_group \<Rightarrow> nat" where
  "end_step_index g = group_delta_step_index g + 1"

type_synonym plan_bytes = "migration_assertion_plan \<Rightarrow> string res"

definition contract_integrity :: "string \<Rightarrow> diagnostic" where
  "contract_integrity code = Diagnostic Integrity code"

definition check_group_assertion :: "step_digests \<Rightarrow> plan_bytes \<Rightarrow> schema_delta_step \<Rightarrow> apply_step \<Rightarrow> unit \<Rightarrow> unit res" where
  "check_group_assertion digests canonical schema_step assertion _ =
     bind_res (ok_or (validated_assertion assertion) (contract_integrity ''migration_apply_group_step_kind_mismatch'')) (\<lambda>validated.
     bind_res (ok_or (as_assertion (apply_step_of assertion)) (contract_integrity ''migration_apply_group_step_kind_mismatch''))
       (\<lambda>(contract, persisted, expectation).
     bind_res
       (if expectation \<noteq> NoRows then Inr True
        else bind_res (canonical (validated_plan validated)) (\<lambda>left. bind_res (canonical persisted) (\<lambda>right.
          if left \<noteq> right then Inr True
          else bind_res (assertion_digest digests (validated_plan validated)) (\<lambda>fp.
            Inr (fp \<noteq> assertion_step_plan_fingerprint contract))))) (\<lambda>differs.
     if differs then Inl (contract_integrity ''migration_apply_group_assertion_mismatch'')
     else if validated_source_state validated \<noteq> delta_source (delta_step_delta schema_step)
     then Inl (contract_integrity ''migration_apply_group_source_state_mismatch'')
     else Inr ())))"

definition partition_step :: "step_digests \<Rightarrow> plan_bytes \<Rightarrow> apply_step list \<Rightarrow> nat \<times> apply_step \<Rightarrow>
    transaction_group list \<times> nat \<Rightarrow> (transaction_group list \<times> nat) res" where
  "partition_step digests canonical steps = (\<lambda>(step_index, step) (groups, first).
     case step of
       ApplyAssertion _ _ \<Rightarrow> Inr (groups, first)
     | ApplyBackfill _ \<Rightarrow>
         if first \<noteq> step_index then Inl (invalid_contract ''migration_apply_assertion_before_backfill'')
         else Inr (groups, step_index + 1)
     | ApplySchemaDelta _ _ \<Rightarrow>
         bind_res (ok_or (as_schema_delta (apply_step_of step)) (contract_integrity ''migration_apply_group_step_kind_mismatch'')) (\<lambda>schema_step.
         bind_res (fold_res (check_group_assertion digests canonical schema_step) (take (step_index - first) (drop first steps)) ()) (\<lambda>_.
           Inr (groups @ [\<lparr>group_ordinal = length groups, group_first_step_index = first, group_delta_step_index = step_index\<rparr>],
                step_index + 1))))"

definition partition_transaction_groups :: "step_digests \<Rightarrow> plan_bytes \<Rightarrow> apply_step list \<Rightarrow> transaction_group list res" where
  "partition_transaction_groups digests canonical steps =
     bind_res (fold_res (partition_step digests canonical steps) (zip [0..<length steps] steps) ([], 0)) (\<lambda>(groups, first).
       if first \<noteq> length steps then Inl (invalid_contract ''migration_apply_group_orphan_assertion'')
       else Inr groups)"

section \<open>Apply manifests and plans\<close>

record apply_manifest =
  apply_digest :: fingerprint
  apply_manifest_of :: verified_manifest
  apply_steps :: "apply_step list"
  apply_groups :: "transaction_group list"
  apply_backfill_indices :: "nat list"

record apply_plan =
  plan_applied :: "migration_id list"
  plan_applied_frontier :: "migration_id list"
  plan_migrations :: "apply_manifest list"
  plan_required_capabilities :: capability_set
  plan_source_schema :: "declared_schema option"
  plan_source_state :: "managed_schema_state option"
  plan_target_frontier :: "migration_id list"
  plan_target_schema :: "declared_schema option"
  plan_target_state :: "managed_schema_state option"
  plan_execution_authorized :: bool

definition is_backfill_step :: "apply_step \<Rightarrow> bool" where
  "is_backfill_step step = (case step of ApplyBackfill _ \<Rightarrow> True | _ \<Rightarrow> False)"

definition backfill_step_indices :: "apply_step list \<Rightarrow> nat list" where
  "backfill_step_indices steps = map fst (filter (\<lambda>(_, step). is_backfill_step step) (zip [0..<length steps] steps))"

definition verified_apply_manifest :: "step_digests \<Rightarrow> plan_bytes \<Rightarrow> manifest_digest \<Rightarrow> verified_manifest \<Rightarrow> apply_step list \<Rightarrow>
    apply_manifest res" where
  "verified_apply_manifest digests canonical digest manifest steps =
     bind_res (partition_transaction_groups digests canonical steps) (\<lambda>groups.
     bind_res (digest manifest) (\<lambda>d.
       Inr \<lparr>apply_digest = d, apply_manifest_of = manifest, apply_steps = steps, apply_groups = groups,
            apply_backfill_indices = backfill_step_indices steps\<rparr>))"

definition frontier_step :: "history_graph \<Rightarrow> migration_id \<Rightarrow> declared_schema option \<times> managed_schema_state option \<Rightarrow>
    (declared_schema option \<times> managed_schema_state option) res" where
  "frontier_step g i = (\<lambda>(schema, state).
     bind_res (ok_or (fmlookup (graph_manifests g) i) (contract_integrity ''migration_apply_missing_frontier_manifest'')) (\<lambda>manifest.
       if (case schema of None \<Rightarrow> False | Some s \<Rightarrow> schema_fingerprint s \<noteq> schema_fingerprint (manifest_target_schema manifest))
          \<or> (case state of None \<Rightarrow> False | Some s \<Rightarrow> s \<noteq> manifest_target_state manifest)
       then Inl (contract_integrity ''migration_apply_divergent_frontier'')
       else Inr (Some (manifest_target_schema manifest), Some (manifest_target_state manifest))))"

definition coherent_frontier_state :: "history_graph \<Rightarrow> migration_id list \<Rightarrow> (declared_schema option \<times> managed_schema_state option) res" where
  "coherent_frontier_state g frontier = fold_res (frontier_step g) frontier (None, None)"

section \<open>The partition\<close>

definition group_range :: "transaction_group \<Rightarrow> nat list" where
  "group_range g = [group_first_step_index g..<end_step_index g]"

definition group_shape :: "apply_step list \<Rightarrow> transaction_group \<Rightarrow> bool" where
  "group_shape steps g \<longleftrightarrow> group_first_step_index g \<le> group_delta_step_index g \<and> group_delta_step_index g < length steps
     \<and> (\<forall>i \<in> {group_first_step_index g..<group_delta_step_index g}. \<exists>step v. steps ! i = ApplyAssertion step v
          \<and> validated_source_state v = delta_source (delta_step_delta (the (as_schema_delta (apply_step_of (steps ! group_delta_step_index g))))))
     \<and> (\<exists>delta l. steps ! group_delta_step_index g = ApplySchemaDelta (StepSchemaDelta delta) l)"

definition partition_inv :: "apply_step list \<Rightarrow> nat \<Rightarrow> transaction_group list \<times> nat \<Rightarrow> bool" where
  "partition_inv steps n = (\<lambda>(groups, first). first \<le> n
     \<and> concat (map group_range groups) = filter (\<lambda>i. \<not> is_backfill_step (steps ! i)) [0..<first]
     \<and> (\<forall>i \<in> {first..<n}. \<exists>step v. steps ! i = ApplyAssertion step v)
     \<and> map group_ordinal groups = [0..<length groups] \<and> (\<forall>g \<in> set groups. group_shape steps g))"

lemma check_group_assertion_Inr:
  "check_group_assertion digests canonical schema_step assertion u = Inr w \<Longrightarrow>
     \<exists>step v. assertion = ApplyAssertion step v \<and> validated_source_state v = delta_source (delta_step_delta schema_step)"
  by (cases assertion) (auto simp: check_group_assertion_def res_simps ok_or_def split: if_splits option.splits)

lemma partition_step_inv:
  assumes inv: "partition_inv steps n (groups, first)" and n: "n < length steps"
    and step: "partition_step digests canonical steps (n, steps ! n) (groups, first) = Inr st"
  shows "partition_inv steps (Suc n) st"
proof (cases "steps ! n")
  case (ApplyAssertion a v)
  then show ?thesis using inv step by (auto simp: partition_step_def partition_inv_def less_Suc_eq)
next
  case (ApplyBackfill b)
  then show ?thesis using inv step by (auto simp: partition_step_def partition_inv_def is_backfill_step_def split: if_splits)
next
  case (ApplySchemaDelta d l)
  let ?g = "\<lparr>group_ordinal = length groups, group_first_step_index = first, group_delta_step_index = n\<rparr>"
  from step obtain delta where d: "d = StepSchemaDelta delta" and st: "st = (groups @ [?g], Suc n)"
    and checks: "fold_res (check_group_assertion digests canonical delta) (take (n - first) (drop first steps)) () = Inr ()"
    by (cases d) (auto simp: ApplySchemaDelta partition_step_def res_simps ok_or_def)
  have before: "\<exists>a v. steps ! i = ApplyAssertion a v \<and> validated_source_state v = delta_source (delta_step_delta delta)"
    if i: "first \<le> i" "i < n" for i
  proof -
    have "steps ! i = take (n - first) (drop first steps) ! (i - first)" using i n by simp
    then have "steps ! i \<in> set (take (n - first) (drop first steps))" using i n by (auto simp: in_set_conv_nth intro!: exI [of _ "i - first"])
    then show ?thesis using checks check_group_assertion_Inr by (fastforce simp: fold_res_checks)
  qed
  have first: "first \<le> n" using inv by (simp add: partition_inv_def)
  have "group_shape steps ?g" using before first n ApplySchemaDelta d by (auto simp: group_shape_def)
  moreover have "filter (\<lambda>i. \<not> is_backfill_step (steps ! i)) [first..<Suc n] = [first..<Suc n]"
    using before ApplySchemaDelta by (intro filter_True) (force simp: is_backfill_step_def less_Suc_eq)
  then have "concat (map group_range (groups @ [?g])) = filter (\<lambda>i. \<not> is_backfill_step (steps ! i)) [0..<Suc n]"
    using inv first upt_add_eq_append [of 0 first "Suc n - first"] by (simp add: partition_inv_def group_range_def end_step_index_def)
  ultimately show ?thesis using inv by (auto simp: st partition_inv_def)
qed

lemma partition_fold_inv:
  assumes "n \<le> length steps"
    and "fold_res (partition_step digests canonical steps) (zip [0..<n] (take n steps)) ([], 0) = Inr st"
  shows "partition_inv steps n st"
  using assms
proof (induction n arbitrary: st)
  case 0
  then show ?case by (auto simp: partition_inv_def)
next
  case (Suc n)
  then have "zip [0..<Suc n] (take (Suc n) steps) = zip [0..<n] (take n steps) @ [(n, steps ! n)]"
    by (simp add: take_Suc_conv_app_nth)
  with Suc.prems obtain groups first where mid: "fold_res (partition_step digests canonical steps) (zip [0..<n] (take n steps)) ([], 0) = Inr (groups, first)"
    and last: "partition_step digests canonical steps (n, steps ! n) (groups, first) = Inr st"
    by (auto simp: fold_res_append res_simps)
  from Suc.IH [OF _ mid] Suc.prems(1) last show ?case by (intro partition_step_inv) auto
qed

lemma partition_groups_sound:
  assumes "partition_transaction_groups digests canonical steps = Inr groups"
  shows "map group_ordinal groups = [0..<length groups]"
    and "concat (map group_range groups) = filter (\<lambda>i. \<not> is_backfill_step (steps ! i)) [0..<length steps]"
    and "g \<in> set groups \<Longrightarrow> group_shape steps g"
proof -
  from assms have "fold_res (partition_step digests canonical steps) (zip [0..<length steps] (take (length steps) steps)) ([], 0) = Inr (groups, length steps)"
    by (auto simp: partition_transaction_groups_def res_simps split: if_splits)
  from partition_fold_inv [OF _ this]
  show "map group_ordinal groups = [0..<length groups]"
    "concat (map group_range groups) = filter (\<lambda>i. \<not> is_backfill_step (steps ! i)) [0..<length steps]"
    "g \<in> set groups \<Longrightarrow> group_shape steps g"
    by (auto simp: partition_inv_def)
qed

text \<open>
  C21. An accepted partition numbers its groups consecutively, covers every step that is not a backfill
  exactly once and in order, and each of its groups consists of assertions that were validated on the
  source state of the one schema delta the group ends in.
\<close>

theorem partition_groups_exact:
  assumes "partition_transaction_groups digests canonical steps = Inr groups"
  shows "map group_ordinal groups = [0..<length groups]
     \<and> concat (map group_range groups) = filter (\<lambda>i. \<not> is_backfill_step (steps ! i)) [0..<length steps]
     \<and> list_all (group_shape steps) groups"
  using partition_groups_sound [OF assms] by (simp add: list_all_iff)

end
