(* ===== verification/Execution_Journal.thy ===== *)
theory Execution_Journal
  imports Apply_Groups "HOL-Library.Word"
begin

text \<open>
  The execution journal of \<open>schema-migration/src/execution.rs\<close>: fences, leases, journal events and
  records, the recovery decisions after an interrupted execution, the reconstruction of an open plan
  from stored entries, and the active part of the append-only applied ledger. Fences and sequence
  numbers are 64-bit words, event positions are checked against the 32-bit range. The process-local
  binding token of a lease is a number standing for the identity of its allocation.
\<close>

section \<open>Limits, fences and leases\<close>

definition execution_failure :: "string \<Rightarrow> diagnostic" where
  "execution_failure code = Diagnostic Integrity code"

definition execution_limit :: "string \<Rightarrow> diagnostic" where
  "execution_limit code = Diagnostic ResourceLimit code"

definition MAX_MIGRATION_EXECUTION_GROUPS :: int where
  "MAX_MIGRATION_EXECUTION_GROUPS = 65536"

definition MAX_MIGRATION_BACKFILL_OBSERVATIONS :: int where
  "MAX_MIGRATION_BACKFILL_OBSERVATIONS = 65536"

record execution_resource_limits =
  limit_transaction_groups :: int
  limit_backfill_observations :: int

definition tightened :: "int \<Rightarrow> int \<Rightarrow> execution_resource_limits" where
  "tightened transaction_groups backfill_observations =
     \<lparr>limit_transaction_groups =
        (if transaction_groups < MAX_MIGRATION_EXECUTION_GROUPS then transaction_groups else MAX_MIGRATION_EXECUTION_GROUPS),
      limit_backfill_observations =
        (if backfill_observations < MAX_MIGRATION_BACKFILL_OBSERVATIONS then backfill_observations
         else MAX_MIGRATION_BACKFILL_OBSERVATIONS)\<rparr>"

type_synonym execution_fence = "64 word"

type_synonym journal_sequence = "64 word"

definition fence_new :: "64 word \<Rightarrow> execution_fence res" where
  "fence_new value = (if value = 0 then Inl (invalid_contract ''migration_execution_zero_fence'') else Inr value)"

definition checked_successor :: "execution_fence \<Rightarrow> execution_fence res" where
  "checked_successor fence =
     (if fence = - 1 then Inl (execution_limit ''migration_execution_fence_exhausted'') else fence_new (fence + 1))"

definition sequence_new :: "64 word \<Rightarrow> journal_sequence res" where
  "sequence_new value = (if value = 0 then Inl (invalid_contract ''migration_execution_zero_sequence'') else Inr value)"

definition is_holder_byte :: "char \<Rightarrow> bool" where
  "is_holder_byte c \<longleftrightarrow> is_ascii_alphanumeric c \<or> c = CHR ''.'' \<or> c = CHR ''_'' \<or> c = CHR ''-''"

definition lease_holder_new :: "string \<Rightarrow> string res" where
  "lease_holder_new value =
     (if value = [] \<or> 128 < length value \<or> \<not> list_all is_holder_byte value
      then Inl (invalid_contract ''migration_execution_invalid_holder'') else Inr value)"

record migration_lease =
  lease_scope :: string
  lease_holder :: string
  lease_fence :: execution_fence
  lease_binding :: "nat option"

definition lease_new :: "string \<Rightarrow> string \<Rightarrow> execution_fence \<Rightarrow> migration_lease" where
  "lease_new scope holder fence = \<lparr>lease_scope = scope, lease_holder = holder, lease_fence = fence, lease_binding = None\<rparr>"

definition lease_new_bound :: "string \<Rightarrow> string \<Rightarrow> execution_fence \<Rightarrow> nat \<Rightarrow> migration_lease" where
  "lease_new_bound scope holder fence token =
     \<lparr>lease_scope = scope, lease_holder = holder, lease_fence = fence, lease_binding = Some token\<rparr>"

definition is_bound_to :: "migration_lease \<Rightarrow> nat \<Rightarrow> bool" where
  "is_bound_to lease expected \<longleftrightarrow> lease_binding lease = Some expected"

section \<open>Commit boundary events\<close>

datatype commit_certainty = DefinitelyAborted | UnknownOutcome

datatype journal_event_kind =
  EventBeforeCommit | EventCommitted | EventCommitOutcomeUnknown | EventDefinitelyAborted | EventFormalOnlyAdvanced

fun journal_event :: "commit_certainty \<Rightarrow> journal_event_kind" where
  "journal_event DefinitelyAborted = EventDefinitelyAborted"
| "journal_event UnknownOutcome = EventCommitOutcomeUnknown"

fun is_completion_event :: "journal_event_kind \<Rightarrow> bool" where
  "is_completion_event EventCommitted = True"
| "is_completion_event EventFormalOnlyAdvanced = True"
| "is_completion_event _ = False"

datatype recovery_observation = ObservationUnavailable | ObservedSemantics fingerprint

datatype recovery_decision = ExecuteNormally | RepairCheckpoint | RequiresExplicitRecovery

datatype execution_direction = Forward | Reverse

record execution_counts =
  counts_matched :: "64 word"
  counts_changed :: "64 word"
  counts_skipped :: "64 word"
  counts_transaction_groups :: "32 word"

definition checked_add :: "64 word \<Rightarrow> 64 word \<Rightarrow> 64 word option" where
  "checked_add a b = (if uint a + uint b < 2 ^ 64 then Some (a + b) else None)"

definition execution_counts_new :: "64 word \<Rightarrow> 64 word \<Rightarrow> 64 word \<Rightarrow> 32 word \<Rightarrow> execution_counts res" where
  "execution_counts_new matched changed skipped transaction_groups =
     (if transaction_groups = 0 then Inl (invalid_contract ''migration_backfill_zero_transaction_groups'')
      else if checked_add changed skipped \<noteq> Some matched then Inl (invalid_contract ''migration_backfill_count_mismatch'')
      else Inr \<lparr>counts_matched = matched, counts_changed = changed, counts_skipped = skipped,
                counts_transaction_groups = transaction_groups\<rparr>)"

record completion_evidence =
  evidence_plan_fingerprint :: fingerprint
  evidence_direction :: execution_direction
  evidence_counts :: execution_counts

datatype backfill_observation = BackfillUnavailable | BackfillIncomplete | BackfillComplete completion_evidence

section \<open>Recovery decisions\<close>

definition backfill_proven :: "backfill_observation \<Rightarrow> fingerprint \<Rightarrow> execution_direction \<Rightarrow> bool" where
  "backfill_proven observation expected_plan expected_direction \<longleftrightarrow>
     (case observation of
        BackfillComplete evidence \<Rightarrow>
          evidence_plan_fingerprint evidence = expected_plan \<and> evidence_direction evidence = expected_direction
      | _ \<Rightarrow> False)"

fun decide_backfill_recovery :: "journal_event_kind option \<Rightarrow> backfill_observation \<Rightarrow> fingerprint \<Rightarrow> execution_direction \<Rightarrow>
    recovery_decision" where
  "decide_backfill_recovery None observation expected_plan expected_direction =
     (case observation of BackfillUnavailable \<Rightarrow> RequiresExplicitRecovery | _ \<Rightarrow> ExecuteNormally)"
| "decide_backfill_recovery (Some EventDefinitelyAborted) observation expected_plan expected_direction =
     (if observation = BackfillIncomplete then ExecuteNormally else RequiresExplicitRecovery)"
| "decide_backfill_recovery (Some EventFormalOnlyAdvanced) observation expected_plan expected_direction =
     RequiresExplicitRecovery"
| "decide_backfill_recovery (Some kind) observation expected_plan expected_direction =
     (if backfill_proven observation expected_plan expected_direction then RepairCheckpoint else RequiresExplicitRecovery)"

datatype observed_relation = RelationSource | RelationTarget | RelationBoth | RelationNeither | RelationUnavailable

definition observed_relation_of :: "recovery_observation \<Rightarrow> fingerprint \<Rightarrow> fingerprint \<Rightarrow> observed_relation" where
  "observed_relation_of observation source target =
     (case observation of
        ObservationUnavailable \<Rightarrow> RelationUnavailable
      | ObservedSemantics v \<Rightarrow>
          if v = source \<and> v = target then RelationBoth
          else if v = source then RelationSource
          else if v = target then RelationTarget
          else RelationNeither)"

definition decide_group_recovery :: "journal_event_kind option \<Rightarrow> recovery_observation \<Rightarrow> fingerprint \<Rightarrow> fingerprint \<Rightarrow>
    recovery_decision" where
  "decide_group_recovery last_event observation source target =
     (case (last_event, source \<noteq> target, observed_relation_of observation source target) of
        (None, True, RelationSource) \<Rightarrow> ExecuteNormally
      | (Some EventDefinitelyAborted, True, RelationSource) \<Rightarrow> ExecuteNormally
      | (None, False, RelationBoth) \<Rightarrow> ExecuteNormally
      | (Some EventDefinitelyAborted, False, RelationBoth) \<Rightarrow> ExecuteNormally
      | (Some EventBeforeCommit, True, RelationSource) \<Rightarrow> ExecuteNormally
      | (Some EventCommitOutcomeUnknown, True, RelationSource) \<Rightarrow> ExecuteNormally
      | (Some EventBeforeCommit, True, RelationTarget) \<Rightarrow> RepairCheckpoint
      | (Some EventCommitOutcomeUnknown, True, RelationTarget) \<Rightarrow> RepairCheckpoint
      | (Some EventCommitted, True, RelationTarget) \<Rightarrow> RepairCheckpoint
      | (Some EventCommitted, False, RelationBoth) \<Rightarrow> RepairCheckpoint
      | (Some EventFormalOnlyAdvanced, False, RelationBoth) \<Rightarrow> RepairCheckpoint
      | _ \<Rightarrow> RequiresExplicitRecovery)"

section \<open>Journal records\<close>

datatype 'r journal_entry = JournalEntry (entry_sequence: journal_sequence) (entry_record: 'r)

definition position :: "nat \<Rightarrow> nat res" where
  "position value = (if int value < 4294967296 then Inr value else Inl (execution_limit ''migration_execution_position_limit''))"

record plan_record =
  plan_record_scope :: string
  plan_record_fence :: execution_fence
  plan_record_source_applied :: "migration_id list"
  plan_record_source_frontier :: "migration_id list"
  plan_record_target_frontier :: "migration_id list"
  plan_record_ids :: "migration_id list"
  plan_record_digests :: "fingerprint list"
  plan_record_plan_fingerprints :: "fingerprint list"
  plan_record_source_declared :: fingerprint
  plan_record_target_declared :: fingerprint
  plan_record_source_semantics :: fingerprint
  plan_record_target_semantics :: fingerprint
  plan_record_semantic_profile :: fingerprint
  plan_record_lowering_profile :: fingerprint
  plan_record_live_source :: fingerprint

definition profile_fingerprints :: "verified_manifest \<Rightarrow> fingerprint \<times> fingerprint" where
  "profile_fingerprints m = (binding_fingerprint (manifest_semantic_profile m), binding_fingerprint (manifest_lowering_profile m))"

definition check_plan_binding :: "string \<Rightarrow> apply_manifest \<Rightarrow> fingerprint \<times> fingerprint \<Rightarrow> (fingerprint \<times> fingerprint) res" where
  "check_plan_binding scope migration current =
     (let manifest = apply_manifest_of migration;
          moved = (case manifest_profile_bridge manifest of
             Some bridge \<Rightarrow>
               if (binding_fingerprint (bridge_from_semantic_profile bridge), binding_fingerprint (bridge_from_lowering_profile bridge)) = current
               then profile_fingerprints manifest else current
           | None \<Rightarrow> current) in
      if binding_scope_id (manifest_managed_scope manifest) \<noteq> scope \<or> profile_fingerprints manifest \<noteq> moved
      then Inl (execution_failure ''migration_execution_plan_binding_mismatch'') else Inr moved)"

definition plan_record_from_verified :: "migration_lease \<Rightarrow> apply_plan \<Rightarrow> migration_id list \<Rightarrow> managed_schema_state \<Rightarrow> plan_record res" where
  "plan_record_from_verified lease plan observed_applied live =
     bind_res (ok_or (plan_source_state plan) (invalid_contract ''migration_execution_empty_plan'')) (\<lambda>source.
     bind_res (ok_or (plan_target_state plan) (invalid_contract ''migration_execution_empty_plan'')) (\<lambda>target.
     case plan_migrations plan of
       [] \<Rightarrow> Inl (invalid_contract ''migration_execution_empty_plan'')
     | first # _ \<Rightarrow>
         if observed_applied \<noteq> plan_applied plan then Inl (execution_failure ''migration_execution_stale_applied_set'')
         else if live \<noteq> source then Inl (execution_failure ''migration_execution_stale_source_state'')
         else if lease_scope lease \<noteq> binding_scope_id (state_scope source) \<or> state_scope target \<noteq> state_scope source
         then Inl (execution_failure ''migration_execution_scope_mismatch'')
         else
           bind_res (fold_res (check_plan_binding (binding_scope_id (state_scope source))) (plan_migrations plan)
             (profile_fingerprints (apply_manifest_of first))) (\<lambda>_.
             Inr \<lparr>plan_record_scope = binding_scope_id (state_scope source), plan_record_fence = lease_fence lease,
               plan_record_source_applied = plan_applied plan, plan_record_source_frontier = plan_applied_frontier plan,
               plan_record_target_frontier = plan_target_frontier plan,
               plan_record_ids = map (\<lambda>m. manifest_id (apply_manifest_of m)) (plan_migrations plan),
               plan_record_digests = map apply_digest (plan_migrations plan),
               plan_record_plan_fingerprints = map (\<lambda>m. manifest_plan_fingerprint (apply_manifest_of m)) (plan_migrations plan),
               plan_record_source_declared = state_managed_declared_identity source,
               plan_record_target_declared = state_managed_declared_identity target,
               plan_record_source_semantics = state_managed_semantic_schema source,
               plan_record_target_semantics = state_managed_semantic_schema target,
               plan_record_semantic_profile = fst (profile_fingerprints (apply_manifest_of first)),
               plan_record_lowering_profile = snd (profile_fingerprints (apply_manifest_of first)),
               plan_record_live_source = state_managed_semantic_schema live\<rparr>)))"

record group_event_record =
  group_event_scope :: string
  group_event_fence :: execution_fence
  group_event_digest :: fingerprint
  group_event_id :: migration_id
  group_event_ordinal :: nat
  group_event_first_step :: nat
  group_event_delta_step :: nat
  group_event_end_step :: nat
  group_event_kind :: journal_event_kind
  group_event_observed_target :: "fingerprint option"

definition nth_opt :: "'a list \<Rightarrow> nat \<Rightarrow> 'a option" where
  "nth_opt xs i = (if i < length xs then Some (xs ! i) else None)"

definition group_delta :: "apply_manifest \<Rightarrow> transaction_group \<Rightarrow> string \<Rightarrow> (schema_delta \<times> schema_lowering_plan) res" where
  "group_delta migration grp kind_code =
     bind_res (ok_or (nth_opt (apply_steps migration) (group_delta_step_index grp))
         (execution_failure ''migration_execution_group_position_mismatch'')) (\<lambda>step.
     bind_res (ok_or (as_schema_delta (apply_step_of step)) (execution_failure kind_code)) (\<lambda>delta.
     bind_res (ok_or (apply_lowering step) (execution_failure ''migration_execution_group_lowering_missing'')) (\<lambda>lowering.
       Inr (delta_step_delta delta, lowering))))"

definition check_group_evidence :: "transaction_group \<Rightarrow> schema_delta \<Rightarrow> schema_lowering_plan \<Rightarrow> journal_event_kind \<Rightarrow>
    fingerprint option \<Rightarrow> unit res" where
  "check_group_evidence grp delta lowering kind observed =
     (case kind of
        EventCommitted \<Rightarrow>
          if observed = Some (state_managed_semantic_schema (delta_target delta)) then Inr ()
          else Inl (execution_failure ''migration_execution_commit_evidence_mismatch'')
      | EventFormalOnlyAdvanced \<Rightarrow>
          if observed = None \<and> assertion_count grp = 0 \<and> lowering_units lowering = []
             \<and> state_managed_semantic_schema (delta_source delta) = state_managed_semantic_schema (delta_target delta)
          then Inr () else Inl (invalid_contract ''migration_execution_invalid_formal_advance'')
      | _ \<Rightarrow>
          if observed = None then Inr () else Inl (invalid_contract ''migration_execution_unexpected_observation''))"

definition group_event_new :: "migration_lease \<Rightarrow> apply_manifest \<Rightarrow> transaction_group \<Rightarrow> journal_event_kind \<Rightarrow> fingerprint option \<Rightarrow>
    group_event_record res" where
  "group_event_new lease migration grp kind observed =
     (if nth_opt (apply_groups migration) (group_ordinal grp) \<noteq> Some grp
      then Inl (execution_failure ''migration_execution_foreign_group'')
      else bind_res (group_delta migration grp ''migration_execution_group_position_mismatch'') (\<lambda>(delta, lowering).
        let scope = binding_scope_id (manifest_managed_scope (apply_manifest_of migration)) in
        if lease_scope lease \<noteq> scope then Inl (execution_failure ''migration_execution_scope_mismatch'')
        else bind_res (check_group_evidence grp delta lowering kind observed) (\<lambda>_.
        bind_res (position (group_ordinal grp)) (\<lambda>ordinal.
        bind_res (position (group_first_step_index grp)) (\<lambda>first.
        bind_res (position (group_delta_step_index grp)) (\<lambda>delta_step.
        bind_res (position (end_step_index grp)) (\<lambda>end_step.
          Inr \<lparr>group_event_scope = scope, group_event_fence = lease_fence lease, group_event_digest = apply_digest migration,
               group_event_id = manifest_id (apply_manifest_of migration), group_event_ordinal = ordinal,
               group_event_first_step = first, group_event_delta_step = delta_step, group_event_end_step = end_step,
               group_event_kind = kind, group_event_observed_target = observed\<rparr>)))))))"

record backfill_event_record =
  backfill_event_scope :: string
  backfill_event_fence :: execution_fence
  backfill_event_digest :: fingerprint
  backfill_event_id :: migration_id
  backfill_event_ordinal :: nat
  backfill_event_step :: nat
  backfill_event_plan :: fingerprint
  backfill_event_direction :: execution_direction
  backfill_event_kind :: journal_event_kind
  backfill_event_completion :: "completion_evidence option"

definition check_backfill_evidence :: "fingerprint \<Rightarrow> execution_direction \<Rightarrow> journal_event_kind \<Rightarrow> completion_evidence option \<Rightarrow> unit res" where
  "check_backfill_evidence plan direction kind completion =
     (case kind of
        EventCommitted \<Rightarrow>
          (case completion of
             Some evidence \<Rightarrow>
               if evidence_plan_fingerprint evidence = plan \<and> evidence_direction evidence = direction then Inr ()
               else Inl (execution_failure ''migration_execution_backfill_completion_mismatch'')
           | None \<Rightarrow> Inl (execution_failure ''migration_execution_backfill_completion_mismatch''))
      | EventFormalOnlyAdvanced \<Rightarrow> Inl (invalid_contract ''migration_execution_backfill_formal_advance'')
      | _ \<Rightarrow>
          if completion = None then Inr ()
          else Inl (invalid_contract ''migration_execution_unexpected_backfill_completion''))"

definition backfill_event_checked :: "migration_lease \<Rightarrow> fingerprint \<Rightarrow> migration_id \<Rightarrow> nat \<Rightarrow> nat \<Rightarrow> fingerprint \<Rightarrow>
    execution_direction \<Rightarrow> journal_event_kind \<Rightarrow> completion_evidence option \<Rightarrow> backfill_event_record res" where
  "backfill_event_checked lease digest i operation_ordinal step_index plan direction kind completion =
     bind_res (check_backfill_evidence plan direction kind completion) (\<lambda>_.
     bind_res (position operation_ordinal) (\<lambda>ordinal.
     bind_res (position step_index) (\<lambda>step.
       Inr \<lparr>backfill_event_scope = lease_scope lease, backfill_event_fence = lease_fence lease, backfill_event_digest = digest,
            backfill_event_id = i, backfill_event_ordinal = ordinal, backfill_event_step = step, backfill_event_plan = plan,
            backfill_event_direction = direction, backfill_event_kind = kind, backfill_event_completion = completion\<rparr>)))"

definition backfill_event_apply :: "migration_lease \<Rightarrow> apply_manifest \<Rightarrow> nat \<Rightarrow> journal_event_kind \<Rightarrow> completion_evidence option \<Rightarrow>
    backfill_event_record res" where
  "backfill_event_apply lease migration step_index kind completion =
     (let wrong_step = execution_failure ''migration_execution_backfill_step_position'' in
      if lease_scope lease \<noteq> binding_scope_id (manifest_managed_scope (apply_manifest_of migration))
      then Inl (execution_failure ''migration_execution_scope_mismatch'')
      else if step_index \<notin> set (apply_backfill_indices migration) then Inl wrong_step
      else
        bind_res (ok_or (nth_opt (apply_steps migration) step_index) wrong_step) (\<lambda>step.
        bind_res (ok_or (as_backfill (apply_step_of step)) wrong_step) (\<lambda>(contract, _).
          backfill_event_checked lease (apply_digest migration) (manifest_id (apply_manifest_of migration)) step_index step_index
            (backfill_step_plan_fingerprint contract) Forward kind completion)))"

record ledger_record =
  ledger_scope :: string
  ledger_fence :: execution_fence
  ledger_id :: migration_id
  ledger_digest :: fingerprint
  ledger_source_declared :: fingerprint
  ledger_target_declared :: fingerprint
  ledger_source_semantics :: fingerprint
  ledger_target_semantics :: fingerprint

definition ledger_record_of :: "manifest_digest \<Rightarrow> migration_lease \<Rightarrow> verified_manifest \<Rightarrow> managed_schema_state \<Rightarrow> managed_schema_state \<Rightarrow>
    ledger_record res" where
  "ledger_record_of digest lease manifest source target =
     (let scope = binding_scope_id (state_scope source) in
      if lease_scope lease \<noteq> scope \<or> state_scope target \<noteq> state_scope source
      then Inl (execution_failure ''migration_execution_scope_mismatch'')
      else bind_res (digest manifest) (\<lambda>d.
        Inr \<lparr>ledger_scope = scope, ledger_fence = lease_fence lease, ledger_id = manifest_id manifest, ledger_digest = d,
             ledger_source_declared = state_managed_declared_identity source,
             ledger_target_declared = state_managed_declared_identity target,
             ledger_source_semantics = state_managed_semantic_schema source,
             ledger_target_semantics = state_managed_semantic_schema target\<rparr>))"

definition applied_record_of :: "manifest_digest \<Rightarrow> migration_lease \<Rightarrow> verified_manifest \<Rightarrow> ledger_record res" where
  "applied_record_of digest lease manifest =
     ledger_record_of digest lease manifest (manifest_source_state manifest) (manifest_target_state manifest)"

definition rolled_back_record_of :: "manifest_digest \<Rightarrow> migration_lease \<Rightarrow> verified_manifest \<Rightarrow> ledger_record res" where
  "rolled_back_record_of digest lease manifest =
     ledger_record_of digest lease manifest (manifest_target_state manifest) (manifest_source_state manifest)"

section \<open>Open plans\<close>

record open_plan =
  open_plan_entry :: "plan_record journal_entry"
  open_plan_events :: "group_event_record journal_entry list"
  open_plan_backfills :: "backfill_event_record journal_entry list"

type_synonym event_key = "journal_sequence \<times> execution_fence \<times> migration_id \<times> fingerprint"

definition group_event_key :: "group_event_record journal_entry \<Rightarrow> event_key" where
  "group_event_key e = (entry_sequence e, group_event_fence (entry_record e), group_event_id (entry_record e), group_event_digest (entry_record e))"

definition backfill_event_key :: "backfill_event_record journal_entry \<Rightarrow> event_key" where
  "backfill_event_key e =
     (entry_sequence e, backfill_event_fence (entry_record e), backfill_event_id (entry_record e), backfill_event_digest (entry_record e))"

fun index_of :: "('a \<Rightarrow> bool) \<Rightarrow> 'a list \<Rightarrow> nat option" where
  "index_of P [] = None"
| "index_of P (x # xs) = (if P x then Some 0 else map_option Suc (index_of P xs))"

definition check_event_key :: "fingerprint list \<Rightarrow> migration_id list \<Rightarrow> event_key \<Rightarrow> journal_sequence \<times> execution_fence \<Rightarrow>
    (journal_sequence \<times> execution_fence) res" where
  "check_event_key digests ids = (\<lambda>(sequence, fence, i, digest) (previous, previous_fence).
     if sequence \<le> previous \<or> fence < previous_fence
        \<or> (case index_of (\<lambda>d. d = digest) digests of None \<Rightarrow> True | Some k \<Rightarrow> nth_opt ids k \<noteq> Some i)
     then Inl (execution_failure ''migration_execution_invalid_open_plan'')
     else Inr (sequence, fence))"

definition open_plan_from_store :: "plan_record journal_entry \<Rightarrow> group_event_record journal_entry list \<Rightarrow>
    backfill_event_record journal_entry list \<Rightarrow> open_plan res" where
  "open_plan_from_store entry events backfills =
     (let plan = entry_record entry;
          ordered = sort_key fst (map group_event_key events @ map backfill_event_key backfills) in
      bind_res (fold_res (check_event_key (plan_record_digests plan) (plan_record_ids plan)) ordered
          (entry_sequence entry, plan_record_fence plan)) (\<lambda>_.
        if list_ex (\<lambda>e. group_event_scope (entry_record e) \<noteq> plan_record_scope plan) events
           \<or> list_ex (\<lambda>e. backfill_event_scope (entry_record e) \<noteq> plan_record_scope plan) backfills
        then Inl (execution_failure ''migration_execution_invalid_open_plan'')
        else Inr \<lparr>open_plan_entry = entry, open_plan_events = events, open_plan_backfills = backfills\<rparr>))"

section \<open>Rollback records\<close>

record rollback_plan_record =
  rollback_plan_scope :: string
  rollback_plan_fence :: execution_fence
  rollback_plan_source_applied :: "migration_id list"
  rollback_plan_ids :: "migration_id list"
  rollback_plan_digests :: "fingerprint list"
  rollback_plan_fingerprints :: "fingerprint list"
  rollback_plan_remaining :: "migration_id list"
  rollback_plan_source_declared :: fingerprint
  rollback_plan_target_declared :: fingerprint
  rollback_plan_source_semantics :: fingerprint
  rollback_plan_target_semantics :: fingerprint
  rollback_plan_semantic_profile :: fingerprint
  rollback_plan_lowering_profile :: fingerprint
  rollback_plan_live_source :: fingerprint

record rollback_event_record =
  rollback_event_scope :: string
  rollback_event_fence :: execution_fence
  rollback_event_digest :: fingerprint
  rollback_event_id :: migration_id
  rollback_event_ordinal :: nat
  rollback_event_kind :: journal_event_kind
  rollback_event_observed_target :: "fingerprint option"

record open_rollback_plan =
  open_rollback_entry :: "rollback_plan_record journal_entry"
  open_rollback_events :: "rollback_event_record journal_entry list"
  open_rollback_backfills :: "backfill_event_record journal_entry list"

definition rollback_event_key :: "rollback_event_record journal_entry \<Rightarrow> event_key" where
  "rollback_event_key e =
     (entry_sequence e, rollback_event_fence (entry_record e), rollback_event_id (entry_record e), rollback_event_digest (entry_record e))"

definition open_rollback_from_store :: "rollback_plan_record journal_entry \<Rightarrow> rollback_event_record journal_entry list \<Rightarrow>
    backfill_event_record journal_entry list \<Rightarrow> open_rollback_plan res" where
  "open_rollback_from_store entry events backfills =
     (let plan = entry_record entry;
          ordered = sort_key fst (map rollback_event_key events @ map backfill_event_key backfills) in
      bind_res (fold_res (check_event_key (rollback_plan_digests plan) (rollback_plan_ids plan)) ordered
          (entry_sequence entry, rollback_plan_fence plan)) (\<lambda>_.
        if list_ex (\<lambda>e. rollback_event_scope (entry_record e) \<noteq> rollback_plan_scope plan) events
           \<or> list_ex (\<lambda>e. backfill_event_scope (entry_record e) \<noteq> rollback_plan_scope plan) backfills
        then Inl (execution_failure ''migration_execution_invalid_open_plan'')
        else Inr \<lparr>open_rollback_entry = entry, open_rollback_events = events, open_rollback_backfills = backfills\<rparr>))"

section \<open>The active ledger\<close>

fun max_by_key :: "('a \<Rightarrow> 'k::linorder) \<Rightarrow> 'a list \<Rightarrow> 'a option" where
  "max_by_key key [] = None"
| "max_by_key key (x # xs) =
     (case max_by_key key xs of None \<Rightarrow> Some x | Some y \<Rightarrow> if key y < key x then Some x else Some y)"

definition retirement_matches :: "bool list \<Rightarrow> ledger_record journal_entry \<Rightarrow> nat \<times> ledger_record journal_entry \<Rightarrow> bool" where
  "retirement_matches retired retirement = (\<lambda>(index, entry).
     \<not> retired ! index \<and> entry_sequence entry < entry_sequence retirement
     \<and> ledger_id (entry_record entry) = ledger_id (entry_record retirement)
     \<and> ledger_digest (entry_record entry) = ledger_digest (entry_record retirement))"

definition retire :: "ledger_record journal_entry list \<Rightarrow> ledger_record journal_entry \<Rightarrow> bool list \<Rightarrow> bool list res" where
  "retire applied retirement retired =
     (case max_by_key (\<lambda>(_, entry). entry_sequence entry)
         (filter (retirement_matches retired retirement) (zip [0..<length applied] applied)) of
        None \<Rightarrow> Inl (execution_failure ''migration_execution_unmatched_retirement'')
      | Some (index, _) \<Rightarrow> Inr (retired[index := True]))"

definition active_applied_entries :: "ledger_record journal_entry list \<Rightarrow> ledger_record journal_entry list \<Rightarrow>
    ledger_record journal_entry list res" where
  "active_applied_entries applied rolled_back =
     bind_res (fold_res (retire applied) rolled_back (replicate (length applied) False)) (\<lambda>retired.
       Inr (map fst (filter (\<lambda>(_, r). \<not> r) (zip applied retired))))"

end
