(* ===== verification/Coordinator.thy ===== *)
theory Coordinator
  imports Execution_Journal
begin

text \<open>
  The apply direction of the migration coordinator (\<open>schema-migration/src/coordinator.rs\<close>). The
  lease store, the journal and the provider are traits of the source; their operations are the
  fields of an environment over a world \<open>'w\<close>. An operation returns \<open>None\<close> when the invocation
  never resumes from it, as when the process dies or its future is dropped; otherwise it returns the
  result of the awaited call. Checking the controls and losing the race against cancellation or the
  deadline are operations of the environment too.
\<close>

section \<open>Effects\<close>

type_synonym ('w, 'a) io = "'w \<Rightarrow> 'a option \<times> 'w"

definition return_io :: "'a \<Rightarrow> ('w, 'a) io" where
  "return_io x w = (Some x, w)"

definition bind_io :: "('w, 'a) io \<Rightarrow> ('a \<Rightarrow> ('w, 'b) io) \<Rightarrow> ('w, 'b) io" where
  "bind_io m f w = (case m w of (None, w') \<Rightarrow> (None, w') | (Some x, w') \<Rightarrow> f x w')"

definition try_io :: "('w, 'a res) io \<Rightarrow> ('a \<Rightarrow> ('w, 'b res) io) \<Rightarrow> ('w, 'b res) io" where
  "try_io m f = bind_io m (\<lambda>r. case r of Inl e \<Rightarrow> return_io (Inl e) | Inr x \<Rightarrow> f x)"

definition lift_res :: "'a res \<Rightarrow> ('w, 'a res) io" where
  "lift_res r = return_io r"

section \<open>The environment\<close>

type_synonym commit_failure = "commit_certainty \<times> diagnostic"

record 'w execution_env =
  env_check :: "('w, unit res) io"
  env_interrupt :: "('w, diagnostic option) io"
  env_acquire :: "string \<Rightarrow> string \<Rightarrow> ('w, migration_lease res) io"
  env_release :: "migration_lease \<Rightarrow> ('w, unit res) io"
  env_load_applied :: "migration_lease \<Rightarrow> ('w, ledger_record journal_entry list res) io"
  env_load_open_plan :: "migration_lease \<Rightarrow> ('w, open_plan option res) io"
  env_begin_plan :: "migration_lease \<Rightarrow> plan_record \<Rightarrow> ('w, unit res) io"
  env_record_group_event :: "migration_lease \<Rightarrow> group_event_record \<Rightarrow> ('w, unit res) io"
  env_record_backfill_event :: "migration_lease \<Rightarrow> backfill_event_record \<Rightarrow> ('w, unit res) io"
  env_record_applied :: "migration_lease \<Rightarrow> ledger_record \<Rightarrow> ('w, unit res) io"
  env_begin_rollback_plan :: "migration_lease \<Rightarrow> rollback_plan_record \<Rightarrow> ('w, unit res) io"
  env_record_rollback_event :: "migration_lease \<Rightarrow> rollback_event_record \<Rightarrow> ('w, unit res) io"
  env_record_rolled_back :: "migration_lease \<Rightarrow> ledger_record \<Rightarrow> ('w, unit res) io"
  env_load_rolled_back :: "migration_lease \<Rightarrow> ('w, ledger_record journal_entry list res) io"
  env_load_open_rollback_plan :: "migration_lease \<Rightarrow> ('w, open_rollback_plan option res) io"
  env_capabilities :: capability_set
  env_observe :: "migration_lease \<Rightarrow> managed_schema_state \<Rightarrow> managed_schema_state \<Rightarrow> ('w, managed_schema_state res) io"
  env_prepare :: "migration_lease \<Rightarrow> managed_schema_state \<Rightarrow> managed_schema_state \<Rightarrow> ('w, unit res) io"
  env_execute_assertion :: "validated_assertion_plan \<Rightarrow> ('w, unit res) io"
  env_execute_unit :: "statement_unit \<Rightarrow> ('w, unit res) io"
  env_commit :: "migration_lease \<Rightarrow> ('w, commit_failure + unit) io"
  env_rollback :: "('w, unit res) io"
  env_supports_backfill :: bool
  env_observe_backfill :: "migration_lease \<Rightarrow> attribute_backfill_plan \<Rightarrow> execution_direction \<Rightarrow> ('w, backfill_observation res) io"
  env_execute_backfill :: "migration_lease \<Rightarrow> attribute_backfill_plan \<Rightarrow> execution_direction \<Rightarrow>
      ('w, commit_failure + completion_evidence) io"

definition await_interruptible :: "'w execution_env \<Rightarrow> ('w, 'a res) io \<Rightarrow> ('w, 'a res) io" where
  "await_interruptible env operation =
     try_io (env_check env) (\<lambda>_.
     bind_io (env_interrupt env) (\<lambda>interruption.
       case interruption of Some e \<Rightarrow> return_io (Inl e) | None \<Rightarrow> operation))"

section \<open>Outcomes\<close>

datatype execution_position = PositionGroup nat | PositionBackfill nat | PositionCheckpoint

record observed_backfill =
  observed_backfill_migration :: migration_id
  observed_backfill_ordinal :: nat
  observed_backfill_step :: nat
  observed_backfill_evidence :: completion_evidence

datatype execution_outcome =
    OutcomeApplied "observed_backfill list"
  | OutcomeRetrySafe migration_id execution_position diagnostic
  | OutcomeExplicitRecovery migration_id execution_position diagnostic

definition apply_id :: "apply_manifest \<Rightarrow> migration_id" where
  "apply_id migration = manifest_id (apply_manifest_of migration)"

definition retry_safe :: "apply_manifest \<Rightarrow> transaction_group \<Rightarrow> diagnostic \<Rightarrow> execution_outcome" where
  "retry_safe migration grp e = OutcomeRetrySafe (apply_id migration) (PositionGroup (group_ordinal grp)) e"

definition explicit_recovery :: "apply_manifest \<Rightarrow> transaction_group \<Rightarrow> diagnostic \<Rightarrow> execution_outcome" where
  "explicit_recovery migration grp e = OutcomeExplicitRecovery (apply_id migration) (PositionGroup (group_ordinal grp)) e"

definition backfill_retry_safe :: "apply_manifest \<Rightarrow> nat \<Rightarrow> diagnostic \<Rightarrow> execution_outcome" where
  "backfill_retry_safe migration step_index e = OutcomeRetrySafe (apply_id migration) (PositionBackfill step_index) e"

definition backfill_explicit_recovery :: "apply_manifest \<Rightarrow> nat \<Rightarrow> diagnostic \<Rightarrow> execution_outcome" where
  "backfill_explicit_recovery migration step_index e = OutcomeExplicitRecovery (apply_id migration) (PositionBackfill step_index) e"

section \<open>Evidence of a group\<close>

definition group_evidence :: "apply_manifest \<Rightarrow> transaction_group \<Rightarrow>
    (managed_schema_state \<times> managed_schema_state \<times> schema_lowering_plan) res" where
  "group_evidence migration grp =
     bind_res (group_delta migration grp ''migration_execution_group_step_kind_mismatch'') (\<lambda>(delta, lowering).
       Inr (delta_source delta, delta_target delta, lowering))"

definition exact_observation :: "managed_schema_state \<Rightarrow> managed_schema_state \<Rightarrow> managed_schema_state \<Rightarrow> recovery_observation" where
  "exact_observation observed source target =
     (if observed = source \<or> observed = target then ObservedSemantics (state_managed_semantic_schema observed)
      else ObservationUnavailable)"

definition group_events :: "open_plan \<Rightarrow> apply_manifest \<Rightarrow> transaction_group \<Rightarrow> group_event_record list" where
  "group_events plan migration grp =
     filter (\<lambda>e. group_event_digest e = apply_digest migration \<and> group_event_ordinal e = group_ordinal grp)
       (map entry_record (open_plan_events plan))"

definition last_opt :: "'a list \<Rightarrow> 'a option" where
  "last_opt xs = (if xs = [] then None else Some (last xs))"

definition last_group_event :: "open_plan \<Rightarrow> apply_manifest \<Rightarrow> transaction_group \<Rightarrow> journal_event_kind option" where
  "last_group_event plan migration grp = map_option group_event_kind (last_opt (group_events plan migration grp))"

definition apply_backfill_events :: "open_plan \<Rightarrow> apply_manifest \<Rightarrow> nat \<Rightarrow> backfill_event_record list" where
  "apply_backfill_events plan migration step_index =
     filter (\<lambda>e. backfill_event_digest e = apply_digest migration \<and> backfill_event_ordinal e = step_index
        \<and> backfill_event_step e = step_index \<and> backfill_event_direction e = Forward)
       (map entry_record (open_plan_backfills plan))"

section \<open>Executing a group\<close>

datatype group_progress = GroupDone "managed_schema_state option" | GroupStopped execution_outcome

definition record_event :: "'w execution_env \<Rightarrow> migration_lease \<Rightarrow> apply_manifest \<Rightarrow> transaction_group \<Rightarrow> journal_event_kind \<Rightarrow>
    fingerprint option \<Rightarrow> (diagnostic \<Rightarrow> ('w, group_progress res) io) \<Rightarrow> ('w, group_progress res) io \<Rightarrow> ('w, group_progress res) io" where
  "record_event env lease migration grp kind observed failed next =
     try_io (lift_res (group_event_new lease migration grp kind observed)) (\<lambda>event.
     bind_io (env_record_group_event env lease event) (\<lambda>r. case r of Inl e \<Rightarrow> failed e | Inr _ \<Rightarrow> next))"

definition finish_prepared_group_rollback :: "diagnostic \<Rightarrow> unit res \<Rightarrow> diagnostic" where
  "finish_prepared_group_rollback primary cleanup =
     (case cleanup of Inr _ \<Rightarrow> primary | Inl _ \<Rightarrow> execution_failure ''migration_execution_rollback_cleanup_uncertain'')"

definition rollback_prepared_group_error :: "'w execution_env \<Rightarrow> diagnostic \<Rightarrow> ('w, 'a res) io" where
  "rollback_prepared_group_error env primary =
     bind_io (env_rollback env) (\<lambda>cleanup. return_io (Inl (finish_prepared_group_rollback primary cleanup)))"

definition guarded :: "'w execution_env \<Rightarrow> ('w, unit res) io \<Rightarrow> ('w, unit res) io" where
  "guarded env operation =
     bind_io (await_interruptible env operation) (\<lambda>r.
       case r of Inl e \<Rightarrow> rollback_prepared_group_error env e | Inr _ \<Rightarrow> return_io (Inr ()))"

fun run_assertions :: "'w execution_env \<Rightarrow> apply_step list \<Rightarrow> ('w, unit res) io" where
  "run_assertions env [] = return_io (Inr ())"
| "run_assertions env (step # steps) =
     try_io (lift_res (ok_or (validated_assertion step) (execution_failure ''migration_execution_group_assertion_missing''))) (\<lambda>validated.
     try_io (guarded env (env_execute_assertion env validated)) (\<lambda>_. run_assertions env steps))"

fun run_units :: "'w execution_env \<Rightarrow> statement_unit list \<Rightarrow> ('w, unit res) io" where
  "run_units env [] = return_io (Inr ())"
| "run_units env (u # us) = try_io (guarded env (env_execute_unit env u)) (\<lambda>_. run_units env us)"

definition record_committed :: "'w execution_env \<Rightarrow> migration_lease \<Rightarrow> apply_manifest \<Rightarrow> transaction_group \<Rightarrow> managed_schema_state \<Rightarrow>
    managed_schema_state \<Rightarrow> ('w, group_progress res) io" where
  "record_committed env lease migration grp target observed =
     record_event env lease migration grp EventCommitted (Some (state_managed_semantic_schema target))
       (\<lambda>e. return_io (Inr (GroupStopped (retry_safe migration grp e))))
       (return_io (Inr (GroupDone (Some observed))))"

definition commit_succeeded :: "'w execution_env \<Rightarrow> migration_lease \<Rightarrow> apply_manifest \<Rightarrow> transaction_group \<Rightarrow> managed_schema_state \<Rightarrow>
    managed_schema_state \<Rightarrow> ('w, group_progress res) io" where
  "commit_succeeded env lease migration grp source target =
     bind_io (env_observe env lease source target) (\<lambda>r.
       case r of
         Inl e \<Rightarrow> return_io (Inr (GroupStopped (retry_safe migration grp e)))
       | Inr observed \<Rightarrow>
           if observed = target then record_committed env lease migration grp target observed
           else return_io (Inr (GroupStopped (explicit_recovery migration grp
             (execution_failure ''migration_execution_commit_target_mismatch'')))))"

definition commit_failed :: "'w execution_env \<Rightarrow> migration_lease \<Rightarrow> apply_manifest \<Rightarrow> transaction_group \<Rightarrow> managed_schema_state \<Rightarrow>
    managed_schema_state \<Rightarrow> commit_failure \<Rightarrow> ('w, group_progress res) io" where
  "commit_failed env lease migration grp source target = (\<lambda>(certainty, e).
     record_event env lease migration grp (journal_event certainty) None
       (\<lambda>e'. return_io (Inr (GroupStopped
          (case certainty of DefinitelyAborted \<Rightarrow> retry_safe migration grp e' | UnknownOutcome \<Rightarrow> explicit_recovery migration grp e'))))
       (if certainty = DefinitelyAborted then return_io (Inr (GroupStopped (retry_safe migration grp e)))
        else bind_io (env_observe env lease source target) (\<lambda>r.
          case r of
            Inl e' \<Rightarrow> return_io (Inr (GroupStopped (explicit_recovery migration grp e')))
          | Inr after \<Rightarrow>
              (case decide_group_recovery (Some EventCommitOutcomeUnknown) (exact_observation after source target)
                  (state_managed_semantic_schema source) (state_managed_semantic_schema target) of
                 ExecuteNormally \<Rightarrow> return_io (Inr (GroupStopped (retry_safe migration grp e)))
               | RequiresExplicitRecovery \<Rightarrow> return_io (Inr (GroupStopped (explicit_recovery migration grp e)))
               | RepairCheckpoint \<Rightarrow> record_committed env lease migration grp target target))))"

definition run_transaction :: "'w execution_env \<Rightarrow> migration_lease \<Rightarrow> apply_manifest \<Rightarrow> transaction_group \<Rightarrow> managed_schema_state \<Rightarrow>
    managed_schema_state \<Rightarrow> schema_lowering_plan \<Rightarrow> ('w, group_progress res) io" where
  "run_transaction env lease migration grp source target lowering =
     try_io (await_interruptible env (env_prepare env lease source target)) (\<lambda>_.
     try_io (run_assertions env (take (assertion_count grp) (drop (group_first_step_index grp) (apply_steps migration)))) (\<lambda>_.
     try_io (run_units env (lowering_units lowering)) (\<lambda>_.
       record_event env lease migration grp EventBeforeCommit None
         (rollback_prepared_group_error env)
         (bind_io (env_commit env lease) (\<lambda>r.
            case r of
              Inr _ \<Rightarrow> commit_succeeded env lease migration grp source target
            | Inl failed \<Rightarrow> commit_failed env lease migration grp source target failed)))))"

definition execute_group :: "'w execution_env \<Rightarrow> migration_lease \<Rightarrow> apply_manifest \<Rightarrow> journal_event_kind option \<Rightarrow> transaction_group \<Rightarrow>
    managed_schema_state option \<Rightarrow> ('w, group_progress res) io" where
  "execute_group env lease migration last_event grp observed =
     (if (case last_event of Some kind \<Rightarrow> is_completion_event kind | None \<Rightarrow> False) then return_io (Inr (GroupDone observed))
      else
        try_io (lift_res (group_evidence migration grp)) (\<lambda>(source, target, lowering).
        try_io (case observed of Some live \<Rightarrow> return_io (Inr live) | None \<Rightarrow> await_interruptible env (env_observe env lease source target)) (\<lambda>live.
          case decide_group_recovery last_event (exact_observation live source target)
              (state_managed_semantic_schema source) (state_managed_semantic_schema target) of
            RequiresExplicitRecovery \<Rightarrow>
              return_io (Inr (GroupStopped (explicit_recovery migration grp (execution_failure ''migration_execution_ambiguous_group_state''))))
          | RepairCheckpoint \<Rightarrow> record_committed env lease migration grp target target
          | ExecuteNormally \<Rightarrow>
              if assertion_count grp = 0 \<and> lowering_units lowering = []
                 \<and> state_managed_semantic_schema source = state_managed_semantic_schema target
              then record_event env lease migration grp EventFormalOnlyAdvanced None
                (\<lambda>e. return_io (Inr (GroupStopped (retry_safe migration grp e))))
                (return_io (Inr (GroupDone (Some target))))
              else run_transaction env lease migration grp source target lowering)))"

section \<open>Executing a backfill\<close>

datatype backfill_progress = BackfillDone observed_backfill | BackfillStopped execution_outcome

definition backfill_result :: "apply_manifest \<Rightarrow> nat \<Rightarrow> completion_evidence \<Rightarrow> backfill_progress" where
  "backfill_result migration step_index completion =
     BackfillDone \<lparr>observed_backfill_migration = apply_id migration, observed_backfill_ordinal = step_index,
       observed_backfill_step = step_index, observed_backfill_evidence = completion\<rparr>"

definition record_backfill_completed :: "'w execution_env \<Rightarrow> migration_lease \<Rightarrow> apply_manifest \<Rightarrow> nat \<Rightarrow> completion_evidence \<Rightarrow>
    ('w, backfill_progress res) io" where
  "record_backfill_completed env lease migration step_index completion =
     try_io (lift_res (backfill_event_apply lease migration step_index EventCommitted (Some completion))) (\<lambda>event.
     bind_io (env_record_backfill_event env lease event) (\<lambda>r.
       case r of
         Inl e \<Rightarrow> return_io (Inr (BackfillStopped (backfill_retry_safe migration step_index e)))
       | Inr _ \<Rightarrow> return_io (Inr (backfill_result migration step_index completion))))"

definition backfill_failed :: "'w execution_env \<Rightarrow> migration_lease \<Rightarrow> apply_manifest \<Rightarrow> nat \<Rightarrow> backfill_step_contract \<Rightarrow>
    attribute_backfill_plan \<Rightarrow> commit_failure \<Rightarrow> ('w, backfill_progress res) io" where
  "backfill_failed env lease migration step_index contract plan = (\<lambda>(certainty, e).
     try_io (lift_res (backfill_event_apply lease migration step_index (journal_event certainty) None)) (\<lambda>event.
     bind_io (env_record_backfill_event env lease event) (\<lambda>r.
       case r of
         Inl e' \<Rightarrow> return_io (Inr (BackfillStopped
           (case certainty of
              DefinitelyAborted \<Rightarrow> backfill_retry_safe migration step_index e'
            | UnknownOutcome \<Rightarrow> backfill_explicit_recovery migration step_index e')))
       | Inr _ \<Rightarrow>
           if certainty = DefinitelyAborted then return_io (Inr (BackfillStopped (backfill_retry_safe migration step_index e)))
           else try_io (env_observe_backfill env lease plan Forward) (\<lambda>after.
             if decide_backfill_recovery (Some EventCommitOutcomeUnknown) after (backfill_step_plan_fingerprint contract) Forward
                \<noteq> RepairCheckpoint
             then return_io (Inr (BackfillStopped (backfill_explicit_recovery migration step_index e)))
             else
               (case after of
                  BackfillComplete completion \<Rightarrow> record_backfill_completed env lease migration step_index completion
                | _ \<Rightarrow> (\<lambda>w. (None, w)))))))"

definition run_backfill :: "'w execution_env \<Rightarrow> migration_lease \<Rightarrow> apply_manifest \<Rightarrow> nat \<Rightarrow> backfill_step_contract \<Rightarrow>
    attribute_backfill_plan \<Rightarrow> ('w, backfill_progress res) io" where
  "run_backfill env lease migration step_index contract plan =
     try_io (lift_res (backfill_event_apply lease migration step_index EventBeforeCommit None)) (\<lambda>before.
     try_io (env_record_backfill_event env lease before) (\<lambda>_.
     bind_io (env_execute_backfill env lease plan Forward) (\<lambda>r.
       case r of
         Inr completion \<Rightarrow> record_backfill_completed env lease migration step_index completion
       | Inl failed \<Rightarrow> backfill_failed env lease migration step_index contract plan failed)))"

definition saturated_position :: "nat \<Rightarrow> nat" where
  "saturated_position i = (if int i < 4294967296 then i else nat 4294967295)"

definition recorded_backfill_events :: "open_plan \<Rightarrow> apply_manifest \<Rightarrow> nat \<Rightarrow> backfill_event_record list" where
  "recorded_backfill_events plan migration step_index =
     filter (\<lambda>e. backfill_event_id e = apply_id migration \<and> backfill_event_digest e = apply_digest migration
        \<and> backfill_event_ordinal e = saturated_position step_index \<and> backfill_event_step e = saturated_position step_index
        \<and> backfill_event_direction e = Forward)
       (map entry_record (open_plan_backfills plan))"

definition execute_apply_backfill :: "'w execution_env \<Rightarrow> migration_lease \<Rightarrow> apply_manifest \<Rightarrow> open_plan option \<Rightarrow> nat \<Rightarrow>
    ('w, backfill_progress res) io" where
  "execute_apply_backfill env lease migration snapshot step_index =
     try_io (lift_res (ok_or (Option.bind (nth_opt (apply_steps migration) step_index) (\<lambda>step. as_backfill (apply_step_of step)))
         (execution_failure ''migration_execution_backfill_step_position''))) (\<lambda>(contract, plan).
     let events = (case snapshot of
           None \<Rightarrow> []
         | Some open_record \<Rightarrow> recorded_backfill_events open_record migration step_index);
         last_event = map_option backfill_event_kind (last_opt events) in
     if (case last_event of Some kind \<Rightarrow> is_completion_event kind | None \<Rightarrow> False)
     then try_io (lift_res (ok_or (Option.bind (last_opt events) backfill_event_completion)
         (execution_failure ''migration_execution_backfill_completion_missing''))) (\<lambda>completion.
       return_io (Inr (backfill_result migration step_index completion)))
     else try_io (await_interruptible env (env_observe_backfill env lease plan Forward)) (\<lambda>observation.
       case decide_backfill_recovery last_event observation (backfill_step_plan_fingerprint contract) Forward of
         RequiresExplicitRecovery \<Rightarrow>
           return_io (Inr (BackfillStopped (backfill_explicit_recovery migration step_index
             (execution_failure ''migration_execution_ambiguous_backfill_state''))))
       | RepairCheckpoint \<Rightarrow>
           (case observation of
              BackfillComplete completion \<Rightarrow> record_backfill_completed env lease migration step_index completion
            | _ \<Rightarrow> return_io (Inl (execution_failure ''migration_execution_backfill_observation_mismatch'')))
       | ExecuteNormally \<Rightarrow> run_backfill env lease migration step_index contract plan))"

section \<open>Executing a manifest\<close>

datatype 'a stoppable = Continue 'a | Stop execution_outcome

definition retain_backfill_observation :: "execution_resource_limits \<Rightarrow> observed_backfill list \<Rightarrow> observed_backfill \<Rightarrow>
    observed_backfill list res" where
  "retain_backfill_observation limits observations observation =
     (if limit_backfill_observations limits \<le> int (length observations)
      then Inl (execution_limit ''migration_execution_backfill_observation_limit'')
      else Inr (observations @ [observation]))"

definition execute_and_retain :: "'w execution_env \<Rightarrow> execution_resource_limits \<Rightarrow> migration_lease \<Rightarrow> apply_manifest \<Rightarrow> open_plan option \<Rightarrow>
    nat \<Rightarrow> observed_backfill list \<Rightarrow> ('w, observed_backfill list stoppable res) io" where
  "execute_and_retain env limits lease migration snapshot step_index observations =
     try_io (execute_apply_backfill env lease migration snapshot step_index) (\<lambda>progress.
       case progress of
         BackfillStopped outcome \<Rightarrow> return_io (Inr (Stop outcome))
       | BackfillDone observation \<Rightarrow>
           lift_res (bind_res (retain_backfill_observation limits observations observation) (\<lambda>kept. Inr (Continue kept))))"

fun execute_backfills :: "'w execution_env \<Rightarrow> execution_resource_limits \<Rightarrow> migration_lease \<Rightarrow> apply_manifest \<Rightarrow> open_plan option \<Rightarrow> bool \<Rightarrow>
    nat list \<Rightarrow> observed_backfill list \<Rightarrow> ('w, observed_backfill list stoppable res) io" where
  "execute_backfills env limits lease migration snapshot check_each [] observations = return_io (Inr (Continue observations))"
| "execute_backfills env limits lease migration snapshot check_each (step_index # rest) observations =
     try_io (if check_each then env_check env else return_io (Inr ())) (\<lambda>_.
     try_io (execute_and_retain env limits lease migration snapshot step_index observations) (\<lambda>progress.
       case progress of
         Stop outcome \<Rightarrow> return_io (Inr (Stop outcome))
       | Continue kept \<Rightarrow> execute_backfills env limits lease migration snapshot check_each rest kept))"

type_synonym execution_progress = "managed_schema_state option \<times> observed_backfill list"

fun execute_groups :: "'w execution_env \<Rightarrow> execution_resource_limits \<Rightarrow> migration_lease \<Rightarrow> apply_manifest \<Rightarrow> open_plan option \<Rightarrow>
    transaction_group list \<Rightarrow> nat list \<Rightarrow> execution_progress \<Rightarrow> ('w, (nat list \<times> execution_progress) stoppable res) io" where
  "execute_groups env limits lease migration snapshot [] backfills progress = return_io (Inr (Continue (backfills, progress)))"
| "execute_groups env limits lease migration snapshot (grp # groups) backfills (observed, observations) =
     try_io (env_check env) (\<lambda>_.
     try_io (execute_backfills env limits lease migration snapshot False
         (takeWhile (\<lambda>i. i < group_first_step_index grp) backfills) observations) (\<lambda>before.
       case before of
         Stop outcome \<Rightarrow> return_io (Inr (Stop outcome))
       | Continue kept \<Rightarrow>
           try_io (execute_group env lease migration (Option.bind snapshot (\<lambda>open_record. last_group_event open_record migration grp)) grp observed)
             (\<lambda>step.
               case step of
                 GroupStopped outcome \<Rightarrow> return_io (Inr (Stop outcome))
               | GroupDone observed' \<Rightarrow>
                   execute_groups env limits lease migration snapshot groups
                     (dropWhile (\<lambda>i. i < group_first_step_index grp) backfills) (observed', kept))))"

definition checkpoint_manifest :: "'w execution_env \<Rightarrow> manifest_digest \<Rightarrow> migration_lease \<Rightarrow> apply_manifest \<Rightarrow> execution_progress \<Rightarrow>
    ('w, execution_progress stoppable res) io" where
  "checkpoint_manifest env digest lease migration = (\<lambda>(observed, observations).
     let manifest = apply_manifest_of migration; target = manifest_target_state manifest in
     try_io (if observed = None \<or> (is_profile_bridge manifest \<and> observed \<noteq> Some target)
         then try_io (env_observe env lease target target) (\<lambda>s. return_io (Inr (Some s)))
         else return_io (Inr observed)) (\<lambda>final.
       if final \<noteq> Some target
       then return_io (Inr (Stop (OutcomeExplicitRecovery (manifest_id manifest) PositionCheckpoint
         (execution_failure ''migration_execution_manifest_target_mismatch''))))
       else try_io (lift_res (applied_record_of digest lease manifest)) (\<lambda>applied.
         bind_io (env_record_applied env lease applied) (\<lambda>r.
           case r of
             Inl e \<Rightarrow> return_io (Inr (Stop (OutcomeRetrySafe (manifest_id manifest) PositionCheckpoint e)))
           | Inr _ \<Rightarrow> return_io (Inr (Continue (final, observations)))))))"

definition execute_manifest :: "'w execution_env \<Rightarrow> execution_resource_limits \<Rightarrow> manifest_digest \<Rightarrow> migration_lease \<Rightarrow> open_plan option \<Rightarrow>
    apply_manifest \<Rightarrow> execution_progress \<Rightarrow> ('w, execution_progress stoppable res) io" where
  "execute_manifest env limits digest lease snapshot migration progress =
     try_io (execute_groups env limits lease migration snapshot (apply_groups migration) (apply_backfill_indices migration) progress) (\<lambda>step.
       case step of
         Stop outcome \<Rightarrow> return_io (Inr (Stop outcome))
       | Continue (backfills, observed, observations) \<Rightarrow>
           try_io (execute_backfills env limits lease migration snapshot True backfills observations) (\<lambda>rest.
             case rest of
               Stop outcome \<Rightarrow> return_io (Inr (Stop outcome))
             | Continue kept \<Rightarrow> checkpoint_manifest env digest lease migration (observed, kept)))"

fun execute_manifests :: "'w execution_env \<Rightarrow> execution_resource_limits \<Rightarrow> manifest_digest \<Rightarrow> migration_lease \<Rightarrow> open_plan option \<Rightarrow>
    apply_manifest list \<Rightarrow> execution_progress \<Rightarrow> ('w, execution_outcome res) io" where
  "execute_manifests env limits digest lease snapshot [] (observed, observations) = return_io (Inr (OutcomeApplied observations))"
| "execute_manifests env limits digest lease snapshot (migration # rest) progress =
     try_io (execute_manifest env limits digest lease snapshot migration progress) (\<lambda>step.
       case step of
         Stop outcome \<Rightarrow> return_io (Inr outcome)
       | Continue progress' \<Rightarrow> execute_manifests env limits digest lease snapshot rest progress')"

section \<open>Validating an open plan\<close>

fun valid_transition :: "(journal_event_kind \<times> execution_fence) option \<Rightarrow> journal_event_kind \<times> execution_fence \<Rightarrow> bool" where
  "valid_transition None (kind, fence) \<longleftrightarrow> kind = EventBeforeCommit \<or> kind = EventFormalOnlyAdvanced"
| "valid_transition (Some (prior_kind, prior_fence)) (kind, fence) \<longleftrightarrow>
     (case (prior_kind, kind) of
        (EventBeforeCommit, EventCommitted) \<Rightarrow> True
      | (EventBeforeCommit, EventCommitOutcomeUnknown) \<Rightarrow> True
      | (EventBeforeCommit, EventDefinitelyAborted) \<Rightarrow> True
      | (EventBeforeCommit, EventBeforeCommit) \<Rightarrow> prior_fence < fence
      | (EventCommitOutcomeUnknown, EventBeforeCommit) \<Rightarrow> prior_fence < fence
      | (EventDefinitelyAborted, EventBeforeCommit) \<Rightarrow> prior_fence < fence
      | (EventCommitOutcomeUnknown, EventCommitted) \<Rightarrow> prior_fence \<le> fence
      | _ \<Rightarrow> False)"

definition check_transition :: "journal_event_kind \<times> execution_fence \<Rightarrow> (journal_event_kind \<times> execution_fence) option \<Rightarrow>
    (journal_event_kind \<times> execution_fence) option res" where
  "check_transition event previous =
     (if valid_transition previous event then Inr (Some event)
      else Inl (execution_failure ''migration_execution_invalid_event_transition''))"

definition validate_commit_transitions :: "(journal_event_kind \<times> execution_fence) list \<Rightarrow> unit res" where
  "validate_commit_transitions events = bind_res (fold_res check_transition events None) (\<lambda>_. Inr ())"

definition validate_plan_identity :: "plan_record \<Rightarrow> apply_plan \<Rightarrow> unit res" where
  "validate_plan_identity r plan =
     bind_res (ok_or (plan_source_state plan) (invalid_contract ''migration_execution_empty_plan'')) (\<lambda>source.
     bind_res (ok_or (plan_target_state plan) (invalid_contract ''migration_execution_empty_plan'')) (\<lambda>target.
     case plan_migrations plan of
       [] \<Rightarrow> Inl (invalid_contract ''migration_execution_empty_plan'')
     | first # _ \<Rightarrow>
         if plan_record_source_frontier r = plan_applied_frontier plan
            \<and> plan_record_source_applied r = plan_applied plan
            \<and> plan_record_target_frontier r = plan_target_frontier plan
            \<and> plan_record_ids r = map apply_id (plan_migrations plan)
            \<and> plan_record_digests r = map apply_digest (plan_migrations plan)
            \<and> plan_record_plan_fingerprints r = map (\<lambda>m. manifest_plan_fingerprint (apply_manifest_of m)) (plan_migrations plan)
            \<and> plan_record_scope r = binding_scope_id (state_scope source)
            \<and> state_scope source = state_scope target
            \<and> plan_record_source_declared r = state_managed_declared_identity source
            \<and> plan_record_target_declared r = state_managed_declared_identity target
            \<and> plan_record_source_semantics r = state_managed_semantic_schema source
            \<and> plan_record_target_semantics r = state_managed_semantic_schema target
            \<and> plan_record_live_source r = state_managed_semantic_schema source
            \<and> plan_record_semantic_profile r = binding_fingerprint (manifest_semantic_profile (apply_manifest_of first))
            \<and> plan_record_lowering_profile r = binding_fingerprint (manifest_lowering_profile (apply_manifest_of first))
         then Inr () else Inl (execution_failure ''migration_execution_open_plan_identity_mismatch'')))"

definition applied_matches :: "ledger_record \<Rightarrow> apply_manifest \<Rightarrow> bool" where
  "applied_matches r migration \<longleftrightarrow>
     (let source = manifest_source_state (apply_manifest_of migration); target = manifest_target_state (apply_manifest_of migration) in
      ledger_scope r = binding_scope_id (state_scope source) \<and> ledger_id r = apply_id migration
      \<and> ledger_digest r = apply_digest migration
      \<and> ledger_source_declared r = state_managed_declared_identity source
      \<and> ledger_target_declared r = state_managed_declared_identity target
      \<and> ledger_source_semantics r = state_managed_semantic_schema source
      \<and> ledger_target_semantics r = state_managed_semantic_schema target)"

definition check_applied_entry :: "apply_manifest list \<Rightarrow> journal_sequence \<Rightarrow> ledger_record journal_entry \<Rightarrow>
    bool list \<times> journal_sequence option \<Rightarrow> (bool list \<times> journal_sequence option) res" where
  "check_applied_entry migrations plan_sequence entry = (\<lambda>(flags, previous).
     let sequence = entry_sequence entry in
     if (case previous of None \<Rightarrow> False | Some p \<Rightarrow> sequence \<le> p)
     then Inl (execution_failure ''migration_execution_applied_order_mismatch'')
     else
       (case index_of (\<lambda>m. apply_id m = ledger_id (entry_record entry)) migrations of
          None \<Rightarrow>
            if plan_sequence < sequence then Inl (execution_failure ''migration_execution_foreign_applied_progress'')
            else Inr (flags, Some sequence)
        | Some i \<Rightarrow>
            if sequence \<le> plan_sequence \<or> flags ! i \<or> \<not> applied_matches (entry_record entry) (migrations ! i)
            then Inl (execution_failure ''migration_execution_applied_evidence_mismatch'')
            else Inr (flags[i := True], Some sequence)))"

definition exact_manifest :: "apply_manifest list \<Rightarrow> fingerprint \<Rightarrow> migration_id \<Rightarrow> apply_manifest res" where
  "exact_manifest migrations digest i =
     bind_res (ok_or (index_of (\<lambda>m. apply_digest m = digest \<and> apply_id m = i) migrations)
       (execution_failure ''migration_execution_foreign_group_event'')) (\<lambda>k. Inr (migrations ! k))"

definition check_group_event :: "apply_manifest list \<Rightarrow> migration_lease \<Rightarrow> group_event_record \<Rightarrow> unit \<Rightarrow> unit res" where
  "check_group_event migrations lease r _ =
     bind_res (exact_manifest migrations (group_event_digest r) (group_event_id r)) (\<lambda>migration.
     bind_res (ok_or (nth_opt (apply_groups migration) (group_event_ordinal r))
         (execution_failure ''migration_execution_group_position_mismatch'')) (\<lambda>grp.
     bind_res (group_event_new (lease_new (lease_scope lease) (lease_holder lease) (group_event_fence r)) migration grp
         (group_event_kind r) (group_event_observed_target r)) (\<lambda>expected.
       if expected \<noteq> r then Inl (execution_failure ''migration_execution_group_event_mismatch'') else Inr ())))"

definition check_backfill_event :: "apply_manifest list \<Rightarrow> migration_lease \<Rightarrow> backfill_event_record \<Rightarrow> unit \<Rightarrow> unit res" where
  "check_backfill_event migrations lease r _ =
     bind_res (exact_manifest migrations (backfill_event_digest r) (backfill_event_id r)) (\<lambda>migration.
     bind_res (backfill_event_apply (lease_new (lease_scope lease) (lease_holder lease) (backfill_event_fence r)) migration
         (backfill_event_ordinal r) (backfill_event_kind r) (backfill_event_completion r)) (\<lambda>expected.
       if expected \<noteq> r then Inl (execution_failure ''migration_execution_group_event_mismatch'') else Inr ()))"

type_synonym operation_transitions = "nat \<times> (journal_event_kind \<times> execution_fence) list"

definition operation_transitions_of :: "open_plan \<Rightarrow> apply_manifest \<Rightarrow> operation_transitions list" where
  "operation_transitions_of plan migration =
     sort_key fst
       (map (\<lambda>grp. (group_first_step_index grp, map (\<lambda>e. (group_event_kind e, group_event_fence e)) (group_events plan migration grp)))
          (apply_groups migration)
        @ map (\<lambda>i. (i, map (\<lambda>e. (backfill_event_kind e, backfill_event_fence e)) (apply_backfill_events plan migration i)))
          (apply_backfill_indices migration))"

definition check_operation :: "operation_transitions \<Rightarrow> bool \<times> bool \<Rightarrow> (bool \<times> bool) res" where
  "check_operation = (\<lambda>(_, transitions) (progress_closed, all_complete).
     bind_res (validate_commit_transitions transitions) (\<lambda>_.
       if transitions = [] then Inr (True, False)
       else if progress_closed then Inl (execution_failure ''migration_execution_non_prefix_group_progress'')
       else if is_completion_event (fst (last transitions)) then Inr (progress_closed, all_complete)
       else Inr (True, False)))"

definition check_manifest_progress :: "open_plan \<Rightarrow> bool list \<Rightarrow> nat \<Rightarrow> nat \<times> apply_manifest \<Rightarrow> unit \<Rightarrow> unit res" where
  "check_manifest_progress plan flags completed = (\<lambda>(i, migration) _.
     bind_res (fold_res check_operation (operation_transitions_of plan migration) (False, True)) (\<lambda>(_, all_complete).
       if flags ! i \<noteq> all_complete \<and> (flags ! i \<or> i < completed)
       then Inl (execution_failure ''migration_execution_applied_group_mismatch'')
       else if completed < i
            \<and> (list_ex (\<lambda>grp. group_events plan migration grp \<noteq> []) (apply_groups migration)
               \<or> list_ex (\<lambda>k. apply_backfill_events plan migration k \<noteq> []) (apply_backfill_indices migration))
       then Inl (execution_failure ''migration_execution_future_manifest_progress'')
       else Inr ()))"

definition validate_open_plan :: "apply_plan \<Rightarrow> migration_lease \<Rightarrow> open_plan \<Rightarrow> ledger_record journal_entry list \<Rightarrow> nat res" where
  "validate_open_plan plan lease open_record applied =
     (let migrations = plan_migrations plan; r = entry_record (open_plan_entry open_record) in
      bind_res (validate_plan_identity r plan) (\<lambda>_.
      if plan_record_scope r \<noteq> lease_scope lease \<or> lease_fence lease < plan_record_fence r
      then Inl (execution_failure ''migration_execution_open_plan_fence_mismatch'')
      else bind_res (fold_res (check_applied_entry migrations (entry_sequence (open_plan_entry open_record))) applied
          (replicate (length migrations) False, None)) (\<lambda>(flags, _).
        let completed = length (takeWhile id flags) in
        if list_ex id (drop completed flags) then Inl (execution_failure ''migration_execution_non_prefix_applied_progress'')
        else
          bind_res (fold_res (\<lambda>e. check_group_event migrations lease (entry_record e)) (open_plan_events open_record) ()) (\<lambda>_.
          bind_res (fold_res (\<lambda>e. check_backfill_event migrations lease (entry_record e)) (open_plan_backfills open_record) ()) (\<lambda>_.
          bind_res (fold_res (check_manifest_progress open_record flags completed) (zip [0..<length migrations] migrations) ()) (\<lambda>_.
            Inr completed))))))"

definition check_ledger_entry :: "ledger_record journal_entry \<Rightarrow> journal_sequence option \<times> migration_id fset \<Rightarrow>
    (journal_sequence option \<times> migration_id fset) res" where
  "check_ledger_entry entry = (\<lambda>(previous, identities).
     if (case previous of None \<Rightarrow> False | Some p \<Rightarrow> entry_sequence entry \<le> p) \<or> ledger_id (entry_record entry) |\<in>| identities
     then Inl (execution_failure ''migration_execution_applied_ledger_mismatch'')
     else Inr (Some (entry_sequence entry), finsert (ledger_id (entry_record entry)) identities))"

definition loaded_applied_migrations :: "ledger_record journal_entry list \<Rightarrow> migration_id list res" where
  "loaded_applied_migrations applied =
     bind_res (fold_res check_ledger_entry applied (None, {||})) (\<lambda>(_, identities). Inr (sorted_list_of_fset identities))"

section \<open>Executing a plan\<close>

definition begin_fresh_plan :: "'w execution_env \<Rightarrow> migration_lease \<Rightarrow> apply_plan \<Rightarrow> ledger_record journal_entry list \<Rightarrow>
    ('w, managed_schema_state res) io" where
  "begin_fresh_plan env lease plan applied =
     (case plan_source_state plan of
        None \<Rightarrow> (\<lambda>w. (None, w))
      | Some source \<Rightarrow>
          try_io (await_interruptible env (env_observe env lease source source)) (\<lambda>live.
          try_io (lift_res (loaded_applied_migrations applied)) (\<lambda>ids.
          try_io (lift_res (plan_record_from_verified lease plan ids live)) (\<lambda>r.
          try_io (env_begin_plan env lease r) (\<lambda>_. return_io (Inr live))))))"

definition execute_under_lease :: "'w execution_env \<Rightarrow> execution_resource_limits \<Rightarrow> manifest_digest \<Rightarrow> migration_lease \<Rightarrow> apply_plan \<Rightarrow>
    ('w, execution_outcome res) io" where
  "execute_under_lease env limits digest lease plan =
     try_io (env_check env) (\<lambda>_.
     try_io (env_load_applied env lease) (\<lambda>applied.
     try_io (env_load_open_plan env lease) (\<lambda>snapshot.
     case snapshot of
       Some open_record \<Rightarrow>
         try_io (lift_res (validate_open_plan plan lease open_record applied)) (\<lambda>completed.
           execute_manifests env limits digest lease (Some open_record) (drop completed (plan_migrations plan)) (None, []))
     | None \<Rightarrow>
         try_io (begin_fresh_plan env lease plan applied) (\<lambda>live.
           execute_manifests env limits digest lease None (plan_migrations plan) (Some live, [])))))"

definition lease_release_uncertainty :: diagnostic where
  "lease_release_uncertainty = execution_failure ''migration_execution_lease_release_uncertain''"

definition finish_apply_lease_release :: "execution_outcome res \<Rightarrow> unit res \<Rightarrow> execution_outcome res" where
  "finish_apply_lease_release result release =
     (case release of
        Inr _ \<Rightarrow> result
      | Inl _ \<Rightarrow>
          (case result of
             Inr (OutcomeRetrySafe i p _) \<Rightarrow> Inr (OutcomeRetrySafe i p lease_release_uncertainty)
           | Inr (OutcomeExplicitRecovery i p _) \<Rightarrow> Inr (OutcomeExplicitRecovery i p lease_release_uncertainty)
           | _ \<Rightarrow> Inl lease_release_uncertainty))"

definition execution_group_limit :: diagnostic where
  "execution_group_limit = execution_limit ''migration_execution_group_limit''"

definition require_authorized_apply_plan :: "apply_plan \<Rightarrow> unit res" where
  "require_authorized_apply_plan plan =
     (if plan_execution_authorized plan then Inr () else Inl (invalid_contract ''migration_apply_preview_not_executable''))"

definition check_apply_plan :: "capability_set \<Rightarrow> bool \<Rightarrow> execution_resource_limits \<Rightarrow> apply_plan \<Rightarrow> managed_schema_state res" where
  "check_apply_plan available supports_backfill limits plan =
     bind_res (require_authorized_apply_plan plan) (\<lambda>_.
     bind_res (ensure_supported_by (plan_required_capabilities plan) available) (\<lambda>_.
     bind_res (ok_or (plan_source_state plan) (invalid_contract ''migration_execution_empty_plan'')) (\<lambda>source.
       if plan_migrations plan = [] then Inl (invalid_contract ''migration_execution_empty_plan'')
       else if \<not> supports_backfill \<and> list_ex (\<lambda>m. apply_backfill_indices m \<noteq> []) (plan_migrations plan)
       then Inl (invalid_contract ''migration_execution_backfill_provider_required'')
       else if limit_transaction_groups limits < int (sum_list (map (\<lambda>m. length (apply_groups m)) (plan_migrations plan)))
       then Inl execution_group_limit
       else Inr source)))"

definition execute_apply_plan_controlled :: "'w execution_env \<Rightarrow> execution_resource_limits \<Rightarrow> manifest_digest \<Rightarrow> string \<Rightarrow> apply_plan \<Rightarrow>
    ('w, execution_outcome res) io" where
  "execute_apply_plan_controlled env limits digest holder plan =
     try_io (env_check env) (\<lambda>_.
     try_io (lift_res (check_apply_plan (env_capabilities env) (env_supports_backfill env) limits plan)) (\<lambda>source.
     try_io (env_acquire env (binding_scope_id (state_scope source)) holder) (\<lambda>lease.
     bind_io (execute_under_lease env limits digest lease plan) (\<lambda>result.
     bind_io (env_release env lease) (\<lambda>release. return_io (finish_apply_lease_release result release))))))"

end
