(* ===== verification/Applied_Ledger.thy ===== *)
theory Applied_Ledger
  imports Execution_Journal
begin

text \<open>
  The applied ledger as an abstract machine. A store appends application and retirement records to
  one history; the abstract ledger processes that history in time order and keeps the list of active
  records, a retirement removing the latest active record of the same migration and digest. The
  function \<open>active_applied_entries\<close> of \<open>schema-migration/src/execution.rs\<close> gets the two kinds of
  record as two separate lists and works on flags; it implements the abstract ledger.
\<close>

section \<open>The abstract ledger\<close>

datatype ledger_event = LedgerApplied "ledger_record journal_entry" | LedgerRetired "ledger_record journal_entry"

fun ledger_event_sequence :: "ledger_event \<Rightarrow> journal_sequence" where
  "ledger_event_sequence (LedgerApplied e) = entry_sequence e"
| "ledger_event_sequence (LedgerRetired e) = entry_sequence e"

fun applied_of :: "ledger_event list \<Rightarrow> ledger_record journal_entry list" where
  "applied_of [] = []"
| "applied_of (LedgerApplied e # log) = e # applied_of log"
| "applied_of (LedgerRetired e # log) = applied_of log"

fun retired_of :: "ledger_event list \<Rightarrow> ledger_record journal_entry list" where
  "retired_of [] = []"
| "retired_of (LedgerApplied e # log) = retired_of log"
| "retired_of (LedgerRetired e # log) = e # retired_of log"

definition same_migration :: "ledger_record journal_entry \<Rightarrow> ledger_record journal_entry \<Rightarrow> bool" where
  "same_migration retirement entry \<longleftrightarrow> ledger_id (entry_record entry) = ledger_id (entry_record retirement)
     \<and> ledger_digest (entry_record entry) = ledger_digest (entry_record retirement)"

fun remove_first :: "('a \<Rightarrow> bool) \<Rightarrow> 'a list \<Rightarrow> 'a list option" where
  "remove_first P [] = None"
| "remove_first P (x # xs) = (if P x then Some xs else map_option (Cons x) (remove_first P xs))"

definition remove_last :: "('a \<Rightarrow> bool) \<Rightarrow> 'a list \<Rightarrow> 'a list option" where
  "remove_last P xs = map_option rev (remove_first P (rev xs))"

fun ledger_step :: "ledger_event \<Rightarrow> ledger_record journal_entry list \<Rightarrow> ledger_record journal_entry list option" where
  "ledger_step (LedgerApplied e) active = Some (active @ [e])"
| "ledger_step (LedgerRetired e) active = remove_last (same_migration e) active"

fun ledger_run :: "ledger_event list \<Rightarrow> ledger_record journal_entry list \<Rightarrow> ledger_record journal_entry list option" where
  "ledger_run [] active = Some active"
| "ledger_run (event # log) active = Option.bind (ledger_step event active) (ledger_run log)"

definition surviving :: "'a list \<Rightarrow> bool list \<Rightarrow> 'a list" where
  "surviving applied retired = map fst (filter (\<lambda>(_, r). \<not> r) (zip applied retired))"

section \<open>The implementation\<close>

lemma ledger_run_append: "ledger_run (xs @ ys) active = Option.bind (ledger_run xs active) (ledger_run ys)"
  by (induction xs arbitrary: active) (auto split: bind_splits)

lemma applied_of_append [simp]: "applied_of (xs @ ys) = applied_of xs @ applied_of ys"
  by (induction xs rule: applied_of.induct) auto

lemma retired_of_append [simp]: "retired_of (xs @ ys) = retired_of xs @ retired_of ys"
  by (induction xs rule: retired_of.induct) auto

lemma applied_of_sequences: "entry_sequence ` set (applied_of log) \<subseteq> ledger_event_sequence ` set log"
  by (induction log rule: applied_of.induct) auto

lemma retired_of_sequences: "entry_sequence ` set (retired_of log) \<subseteq> ledger_event_sequence ` set log"
  by (induction log rule: retired_of.induct) auto

lemma applied_of_sorted: "sorted_wrt (<) (map ledger_event_sequence log) \<Longrightarrow> sorted_wrt (<) (map entry_sequence (applied_of log))"
  using applied_of_sequences by (induction log rule: applied_of.induct) fastforce+

lemma remove_last_snoc:
  "remove_last P (xs @ [x]) = (if P x then Some xs else map_option (\<lambda>ys. ys @ [x]) (remove_last P xs))"
  by (auto simp: remove_last_def option.map_comp comp_def)

lemma surviving_snoc: "length retired = length applied \<Longrightarrow>
    surviving (applied @ [a]) (retired @ [r]) = surviving applied retired @ (if r then [] else [a])"
  by (simp add: surviving_def)

lemma surviving_none [simp]: "surviving applied (replicate (length applied) False) = applied"
  by (induction applied) (auto simp: surviving_def)

lemma max_by_key_last: "sorted_wrt (\<lambda>x y. key x < key y) xs \<Longrightarrow> max_by_key key xs = (if xs = [] then None else Some (last xs))"
  by (induction xs) (auto split: option.splits dest: less_asym' last_in_set)

lemma zip_index_sorted:
  assumes "sorted_wrt (<) (map entry_sequence xs)"
  shows "sorted_wrt (\<lambda>x y. (\<lambda>(_, e). entry_sequence e) x < (\<lambda>(_, e). entry_sequence e) y) (zip [0..<length xs] xs)"
  using assms by (auto simp: sorted_wrt_iff_nth_less)

definition retire_index :: "ledger_record journal_entry list \<Rightarrow> ledger_record journal_entry \<Rightarrow> bool list \<Rightarrow> nat option" where
  "retire_index applied retirement retired =
     (let hits = filter (retirement_matches retired retirement) (zip [0..<length applied] applied) in
      if hits = [] then None else Some (fst (last hits)))"

lemma retire_by_index:
  assumes "sorted_wrt (<) (map entry_sequence applied)"
  shows "retire applied retirement retired =
     (case retire_index applied retirement retired of
        None \<Rightarrow> Inl (execution_failure ''migration_execution_unmatched_retirement'')
      | Some i \<Rightarrow> Inr (retired[i := True]))"
proof -
  let ?key = "\<lambda>(_ :: nat, e). entry_sequence e"
  have "sorted_wrt (\<lambda>x y. ?key x < ?key y) (filter (retirement_matches retired retirement) (zip [0..<length applied] applied))"
    by (rule sorted_wrt_filter) (rule zip_index_sorted [OF assms])
  from max_by_key_last [OF this] show ?thesis
    by (auto simp: retire_def retire_index_def Let_def split: prod.splits)
qed

lemma retire_index_snoc:
  assumes "length retired = length applied"
  shows "retire_index (applied @ [a]) r (retired @ [b]) =
     (if \<not> b \<and> entry_sequence a < entry_sequence r \<and> same_migration r a then Some (length applied) else retire_index applied r retired)"
proof -
  have "filter (retirement_matches (retired @ [b]) r) (zip [0..<length applied] applied)
      = filter (retirement_matches retired r) (zip [0..<length applied] applied)"
    by (rule filter_cong) (auto simp: retirement_matches_def nth_append assms dest: set_zip_leftD)
  then show ?thesis
    by (auto simp: retire_index_def retirement_matches_def same_migration_def nth_append assms Let_def)
qed

lemma retire_index_bound:
  assumes "retire_index applied r retired = Some i"
  shows "i < length applied"
proof -
  let ?hits = "filter (retirement_matches retired r) (zip [0..<length applied] applied)"
  from assms have "?hits \<noteq> []" and i: "i = fst (last ?hits)" by (auto simp: retire_index_def Let_def split: if_splits)
  then have "last ?hits \<in> set (zip [0..<length applied] applied)" by (metis filter_is_subset last_in_set subsetD)
  then show ?thesis unfolding i by (metis atLeastLessThan_iff prod.collapse set_upt set_zip_leftD)
qed

lemma retire_index_removes:
  assumes "length retired = length applied" and "\<forall>e \<in> set applied. entry_sequence e < entry_sequence r"
  shows "remove_last (same_migration r) (surviving applied retired) =
     map_option (\<lambda>i. surviving applied (retired[i := True])) (retire_index applied r retired)"
  using assms
proof (induction applied arbitrary: retired rule: rev_induct)
  case Nil
  then show ?case by (simp add: surviving_def remove_last_def retire_index_def)
next
  case (snoc a applied)
  from snoc.prems(1) obtain b rest where retired: "retired = rest @ [b]" and len: "length rest = length applied"
    by (cases retired rule: rev_cases) auto
  have IH: "remove_last (same_migration r) (surviving applied rest) =
      map_option (\<lambda>i. surviving applied (rest[i := True])) (retire_index applied r rest)"
    using snoc.IH [OF len] snoc.prems(2) by auto
  show ?case
    using IH snoc.prems(2) len retire_index_bound [of applied r rest]
    by (cases "retire_index applied r rest")
      (auto simp: retired retire_index_snoc surviving_snoc remove_last_snoc list_update_append)
qed

lemma retire_ignores_later:
  assumes "sorted_wrt (<) (map entry_sequence (applied @ [a]))" and "length retired = length applied"
    and "entry_sequence r < entry_sequence a"
  shows "retire (applied @ [a]) r (retired @ [b]) = (case retire applied r retired of Inl e \<Rightarrow> Inl e | Inr f \<Rightarrow> Inr (f @ [b]))"
proof -
  have "sorted_wrt (<) (map entry_sequence applied)" using assms(1) by (simp add: sorted_wrt_append)
  moreover have "retire_index applied r retired = Some i \<Longrightarrow> i < length retired" for i
    using retire_index_bound assms(2) by fastforce
  ultimately show ?thesis
    using assms by (auto simp: retire_by_index retire_index_snoc list_update_append split: option.split)
qed

lemma retirements_ignore_later:
  assumes "sorted_wrt (<) (map entry_sequence (applied @ [a]))" and "length retired = length applied"
    and "\<forall>r \<in> set rs. entry_sequence r < entry_sequence a"
  shows "fold_res (retire (applied @ [a])) rs (retired @ [b])
     = (case fold_res (retire applied) rs retired of Inl e \<Rightarrow> Inl e | Inr f \<Rightarrow> Inr (f @ [b]))"
  using assms(2,3)
proof (induction rs arbitrary: retired)
  case (Cons r rs)
  have "length f = length applied" if "retire applied r retired = Inr f" for f
    using that Cons.prems(1) by (auto simp: retire_def split: option.splits)
  then show ?case
    using retire_ignores_later [OF assms(1) Cons.prems(1), of r b] Cons
    by (cases "retire applied r retired") (auto simp: res_simps)
qed (simp add: res_simps)

lemma retirements_length:
  "fold_res (retire applied) rs retired = Inr f \<Longrightarrow> length f = length retired"
  by (induction rs arbitrary: retired) (auto simp: res_simps retire_def split: option.splits)

definition ledger_outcome :: "ledger_record journal_entry list option \<Rightarrow> ledger_record journal_entry list res" where
  "ledger_outcome active =
     (case active of Some entries \<Rightarrow> Inr entries
      | None \<Rightarrow> Inl (execution_failure ''migration_execution_unmatched_retirement''))"

definition ledger_flags :: "ledger_event list \<Rightarrow> bool list res" where
  "ledger_flags log = fold_res (retire (applied_of log)) (retired_of log) (replicate (length (applied_of log)) False)"

definition ledger_agrees :: "ledger_event list \<Rightarrow> bool" where
  "ledger_agrees log \<longleftrightarrow>
     (case ledger_flags log of Inl e \<Rightarrow> Inl e | Inr f \<Rightarrow> Inr (surviving (applied_of log) f)) = ledger_outcome (ledger_run log [])"

lemma ledger_agrees_applied:
  assumes "sorted_wrt (<) (map ledger_event_sequence (log @ [LedgerApplied a]))" and "ledger_agrees log"
  shows "ledger_agrees (log @ [LedgerApplied a])"
proof -
  have "\<forall>r \<in> set (retired_of log). entry_sequence r < entry_sequence a"
    using assms(1) retired_of_sequences [of log] by (auto simp: sorted_wrt_append)
  then have "ledger_flags (log @ [LedgerApplied a]) = (case ledger_flags log of Inl e \<Rightarrow> Inl e | Inr f \<Rightarrow> Inr (f @ [False]))"
    using retirements_ignore_later [of "applied_of log" a "replicate (length (applied_of log)) False" "retired_of log" False]
      applied_of_sorted [OF assms(1)]
    by (simp add: ledger_flags_def replicate_append_same)
  moreover have "length f = length (applied_of log)" if "ledger_flags log = Inr f" for f
    using that by (auto simp: ledger_flags_def dest!: retirements_length)
  ultimately show ?thesis
    using assms(2) by (cases "ledger_flags log"; cases "ledger_run log []")
      (auto simp: ledger_agrees_def ledger_run_append ledger_outcome_def surviving_snoc)
qed

lemma ledger_agrees_retired:
  assumes "sorted_wrt (<) (map ledger_event_sequence (log @ [LedgerRetired r]))" and "ledger_agrees log"
  shows "ledger_agrees (log @ [LedgerRetired r])"
proof -
  have flags: "ledger_flags (log @ [LedgerRetired r]) = bind_res (ledger_flags log) (retire (applied_of log) r)"
    by (cases "ledger_flags log"; cases "retire (applied_of log) r (projr (ledger_flags log))")
      (simp_all add: ledger_flags_def fold_res_append res_simps)
  show ?thesis
  proof (cases "ledger_flags log")
    case (Inl d)
    then show ?thesis using assms(2) by (cases "ledger_run log []")
        (auto simp: ledger_agrees_def flags res_simps ledger_run_append ledger_outcome_def)
  next
    case (Inr f)
    then have len: "length f = length (applied_of log)" by (auto simp: ledger_flags_def dest!: retirements_length)
    have applied: "\<forall>e \<in> set (applied_of log). entry_sequence e < entry_sequence r"
      using assms(1) applied_of_sequences [of log] by (auto simp: sorted_wrt_append)
    have "sorted_wrt (<) (map entry_sequence (applied_of log))" using applied_of_sorted [OF assms(1)] by simp
    note step = retire_by_index [OF this, of r f]
    show ?thesis
      using assms(2) Inr retire_index_removes [OF len applied] step
      by (cases "ledger_run log []"; cases "retire_index (applied_of log) r f")
        (auto simp: ledger_agrees_def flags res_simps ledger_run_append ledger_outcome_def)
  qed
qed

lemma ledger_agrees_sorted: "sorted_wrt (<) (map ledger_event_sequence log) \<Longrightarrow> ledger_agrees log"
proof (induction log rule: rev_induct)
  case Nil
  then show ?case by (simp add: ledger_agrees_def ledger_flags_def surviving_def ledger_outcome_def)
next
  case (snoc event log)
  then have "ledger_agrees log" by (simp add: sorted_wrt_append)
  with snoc.prems show ?case by (cases event) (auto intro: ledger_agrees_applied ledger_agrees_retired)
qed

text \<open>
  C10. On every history whose records carry strictly increasing sequence numbers, splitting the
  history into applications and retirements and filtering the applications gives what the abstract
  ledger computes by processing the records in order: the active records in application order, or the
  rejection of a retirement that has no active record to retire.
\<close>

theorem active_ledger_refines:
  assumes "sorted_wrt (<) (map ledger_event_sequence log)"
  shows "active_applied_entries (applied_of log) (retired_of log) = ledger_outcome (ledger_run log [])"
  using ledger_agrees_sorted [OF assms]
  by (cases "ledger_flags log") (simp_all add: ledger_agrees_def ledger_flags_def active_applied_entries_def res_simps surviving_def)

definition example_ledger_entry :: "nat \<Rightarrow> string \<Rightarrow> ledger_record journal_entry" where
  "example_ledger_entry n name = JournalEntry (of_nat n)
     \<lparr>ledger_scope = ''main'', ledger_fence = 1, ledger_id = MigrationId ''app'' name, ledger_digest = name,
      ledger_source_declared = ''a'', ledger_target_declared = ''b'', ledger_source_semantics = ''a'', ledger_target_semantics = ''b''\<rparr>"

theorem active_ledger_refines_witness:
  "active_applied_entries [example_ledger_entry 1 ''m1'', example_ledger_entry 2 ''m2'', example_ledger_entry 4 ''m2'']
     [example_ledger_entry 3 ''m2''] = Inr [example_ledger_entry 1 ''m1'', example_ledger_entry 4 ''m2'']"
proof -
  let ?log = "[LedgerApplied (example_ledger_entry 1 ''m1''), LedgerApplied (example_ledger_entry 2 ''m2''),
      LedgerRetired (example_ledger_entry 3 ''m2''), LedgerApplied (example_ledger_entry 4 ''m2'')]"
  have "sorted_wrt (<) (map ledger_event_sequence ?log)" by (simp add: example_ledger_entry_def)
  from active_ledger_refines [OF this] show ?thesis
    by (simp add: ledger_outcome_def remove_last_def same_migration_def example_ledger_entry_def)
qed

end
