(* ===== verification/Memory_Store.thy ===== *)
theory Memory_Store
  imports Applied_Ledger Coordinator
begin

text \<open>
  The reference store of \<open>schema-migration/src/execution.rs\<close>: an in-memory implementation of the lease
  and journal traits with which the repository tests the execution contract. Every operation takes the
  store and returns its result together with the store it leaves, also when it fails.
\<close>

section \<open>State\<close>

record scope_state =
  highest_fence :: execution_fence
  active_lease :: "migration_lease option"
  next_sequence :: journal_sequence
  store_applied :: "ledger_record journal_entry list"
  store_rolled_back :: "ledger_record journal_entry list"
  store_open_plan :: "plan_record journal_entry option"
  store_events :: "group_event_record journal_entry list"
  store_backfill_events :: "backfill_event_record journal_entry list"
  store_open_rollback :: "rollback_plan_record journal_entry option"
  store_rollback_events :: "rollback_event_record journal_entry list"

type_synonym memory_store = "(string, scope_state) fmap"

definition initial_scope :: scope_state where
  "initial_scope = \<lparr>highest_fence = 0, active_lease = None, next_sequence = 0, store_applied = [], store_rolled_back = [],
     store_open_plan = None, store_events = [], store_backfill_events = [], store_open_rollback = None, store_rollback_events = []\<rparr>"

definition stale_fence :: diagnostic where
  "stale_fence = execution_failure ''migration_execution_stale_fence''"

definition check_lease :: "scope_state \<Rightarrow> migration_lease \<Rightarrow> unit res" where
  "check_lease state lease = (if active_lease state \<noteq> Some lease then Inl stale_fence else Inr ())"

definition under_lease :: "migration_lease \<Rightarrow> (scope_state \<Rightarrow> 'a res \<times> scope_state) \<Rightarrow> memory_store \<Rightarrow> 'a res \<times> memory_store" where
  "under_lease lease operation scopes =
     (case fmlookup scopes (lease_scope lease) of
        None \<Rightarrow> (Inl stale_fence, scopes)
      | Some state \<Rightarrow>
          (case check_lease state lease of
             Inl e \<Rightarrow> (Inl e, scopes)
           | Inr _ \<Rightarrow>
               (let (r, state') = operation state in (r, fmupd (lease_scope lease) state' scopes))))"

definition take_sequence :: "(journal_sequence \<Rightarrow> scope_state \<Rightarrow> 'a res \<times> scope_state) \<Rightarrow> scope_state \<Rightarrow> 'a res \<times> scope_state" where
  "take_sequence store_entry state =
     (case checked_add (next_sequence state) 1 of
        None \<Rightarrow> (Inl (execution_limit ''migration_execution_sequence_exhausted''), state)
      | Some next \<Rightarrow>
          (case sequence_new next of
             Inl e \<Rightarrow> (Inl e, state\<lparr>next_sequence := next\<rparr>)
           | Inr sequence \<Rightarrow> store_entry sequence (state\<lparr>next_sequence := next\<rparr>)))"

section \<open>Leases\<close>

definition next_fence :: "scope_state \<Rightarrow> execution_fence res" where
  "next_fence state =
     (if highest_fence state = 0 then fence_new 1
      else bind_res (fence_new (highest_fence state)) checked_successor)"

definition store_acquire :: "string \<Rightarrow> string \<Rightarrow> memory_store \<Rightarrow> migration_lease res \<times> memory_store" where
  "store_acquire scope holder scopes =
     (let state = (case fmlookup scopes scope of Some s \<Rightarrow> s | None \<Rightarrow> initial_scope); entered = fmupd scope state scopes in
      if active_lease state \<noteq> None then (Inl (invalid_contract ''migration_execution_lease_contended''), entered)
      else
        (case next_fence state of
           Inl e \<Rightarrow> (Inl e, entered)
         | Inr fence \<Rightarrow>
             (let lease = lease_new scope holder fence in
              (Inr lease, fmupd scope (state\<lparr>highest_fence := fence, active_lease := Some lease\<rparr>) scopes))))"

definition store_release :: "migration_lease \<Rightarrow> memory_store \<Rightarrow> unit res \<times> memory_store" where
  "store_release lease = under_lease lease (\<lambda>state. (Inr (), state\<lparr>active_lease := None\<rparr>))"

section \<open>The journal\<close>

definition bound_record :: "migration_lease \<Rightarrow> string \<Rightarrow> execution_fence \<Rightarrow> (scope_state \<Rightarrow> 'a res \<times> scope_state) \<Rightarrow>
    memory_store \<Rightarrow> 'a res \<times> memory_store" where
  "bound_record lease scope fence operation =
     under_lease lease (\<lambda>state.
       if scope \<noteq> lease_scope lease \<or> fence \<noteq> lease_fence lease then (Inl stale_fence, state) else operation state)"

definition plan_open :: "scope_state \<Rightarrow> bool" where
  "plan_open state \<longleftrightarrow> store_open_plan state \<noteq> None \<or> store_open_rollback state \<noteq> None"

definition store_begin_plan :: "migration_lease \<Rightarrow> plan_record \<Rightarrow> memory_store \<Rightarrow> plan_record journal_entry res \<times> memory_store" where
  "store_begin_plan lease r =
     bound_record lease (plan_record_scope r) (plan_record_fence r) (\<lambda>state.
       if plan_open state then (Inl (invalid_contract ''migration_execution_plan_already_open''), state)
       else take_sequence (\<lambda>sequence state.
         (Inr (JournalEntry sequence r), state\<lparr>store_open_plan := Some (JournalEntry sequence r)\<rparr>)) state)"

definition store_record_group_event :: "migration_lease \<Rightarrow> group_event_record \<Rightarrow> memory_store \<Rightarrow>
    group_event_record journal_entry res \<times> memory_store" where
  "store_record_group_event lease r =
     bound_record lease (group_event_scope r) (group_event_fence r) (\<lambda>state.
       case store_open_plan state of
         None \<Rightarrow> (Inl (invalid_contract ''migration_execution_no_open_plan''), state)
       | Some plan \<Rightarrow>
           if group_event_digest r \<notin> set (plan_record_digests (entry_record plan))
           then (Inl (execution_failure ''migration_execution_foreign_event''), state)
           else take_sequence (\<lambda>sequence state.
             (Inr (JournalEntry sequence r), state\<lparr>store_events := store_events state @ [JournalEntry sequence r]\<rparr>)) state)"

definition store_record_backfill_event :: "migration_lease \<Rightarrow> backfill_event_record \<Rightarrow> memory_store \<Rightarrow>
    backfill_event_record journal_entry res \<times> memory_store" where
  "store_record_backfill_event lease r =
     bound_record lease (backfill_event_scope r) (backfill_event_fence r) (\<lambda>state.
       let digest = backfill_event_digest r;
           member = (case store_open_plan state of None \<Rightarrow> False | Some plan \<Rightarrow> digest \<in> set (plan_record_digests (entry_record plan)))
             \<or> (case store_open_rollback state of None \<Rightarrow> False | Some plan \<Rightarrow> digest \<in> set (rollback_plan_digests (entry_record plan))) in
       if \<not> member then (Inl (execution_failure ''migration_execution_foreign_event''), state)
       else take_sequence (\<lambda>sequence state.
         (Inr (JournalEntry sequence r), state\<lparr>store_backfill_events := store_backfill_events state @ [JournalEntry sequence r]\<rparr>)) state)"

definition plan_names :: "migration_id list \<Rightarrow> fingerprint list \<Rightarrow> ledger_record \<Rightarrow> bool" where
  "plan_names ids digests r \<longleftrightarrow>
     (case index_of (\<lambda>i. i = ledger_id r) ids of None \<Rightarrow> False | Some k \<Rightarrow> nth_opt digests k = Some (ledger_digest r))"

definition active_ids :: "ledger_record journal_entry list \<Rightarrow> migration_id list" where
  "active_ids active = map (\<lambda>e. ledger_id (entry_record e)) active"

definition append_applied :: "plan_record journal_entry \<Rightarrow> ledger_record \<Rightarrow> journal_sequence \<Rightarrow> scope_state \<Rightarrow>
    ledger_record journal_entry res \<times> scope_state" where
  "append_applied plan r sequence state =
     (let entry = JournalEntry sequence r; state' = state\<lparr>store_applied := store_applied state @ [entry]\<rparr> in
      case active_applied_entries (store_applied state') (store_rolled_back state') of
        Inl e \<Rightarrow> (Inl e, state')
      | Inr active \<Rightarrow>
          (Inr entry,
           if list_all (\<lambda>i. i \<in> set (active_ids active)) (plan_record_ids (entry_record plan))
           then state'\<lparr>store_open_plan := None, store_events := [], store_backfill_events := []\<rparr> else state'))"

definition store_record_applied :: "migration_lease \<Rightarrow> ledger_record \<Rightarrow> memory_store \<Rightarrow> ledger_record journal_entry res \<times> memory_store" where
  "store_record_applied lease r =
     bound_record lease (ledger_scope r) (ledger_fence r) (\<lambda>state.
       case active_applied_entries (store_applied state) (store_rolled_back state) of
         Inl e \<Rightarrow> (Inl e, state)
       | Inr active \<Rightarrow>
           (case find (\<lambda>e. ledger_id (entry_record e) = ledger_id r) active of
              Some existing \<Rightarrow>
                if entry_record existing = r then (Inr existing, state)
                else (Inl (execution_failure ''migration_execution_applied_identity_conflict''), state)
            | None \<Rightarrow>
                (case store_open_plan state of
                   None \<Rightarrow> (Inl (invalid_contract ''migration_execution_no_open_plan''), state)
                 | Some plan \<Rightarrow>
                     if \<not> plan_names (plan_record_ids (entry_record plan)) (plan_record_digests (entry_record plan)) r
                     then (Inl (execution_failure ''migration_execution_foreign_applied_record''), state)
                     else take_sequence (append_applied plan r) state)))"

definition store_load_applied :: "migration_lease \<Rightarrow> memory_store \<Rightarrow> ledger_record journal_entry list res \<times> memory_store" where
  "store_load_applied lease = under_lease lease (\<lambda>state. (active_applied_entries (store_applied state) (store_rolled_back state), state))"

definition store_load_open_plan :: "migration_lease \<Rightarrow> memory_store \<Rightarrow> open_plan option res \<times> memory_store" where
  "store_load_open_plan lease =
     under_lease lease (\<lambda>state.
       (case store_open_plan state of
          None \<Rightarrow> Inr None
        | Some plan \<Rightarrow>
            bind_res (open_plan_from_store plan (store_events state)
                (filter (\<lambda>e. backfill_event_direction (entry_record e) = Forward) (store_backfill_events state))) (\<lambda>open_record.
              Inr (Some open_record)), state))"

section \<open>Retirement\<close>

definition store_begin_rollback_plan :: "migration_lease \<Rightarrow> rollback_plan_record \<Rightarrow> memory_store \<Rightarrow>
    rollback_plan_record journal_entry res \<times> memory_store" where
  "store_begin_rollback_plan lease r =
     bound_record lease (rollback_plan_scope r) (rollback_plan_fence r) (\<lambda>state.
       if plan_open state then (Inl (invalid_contract ''migration_execution_plan_already_open''), state)
       else take_sequence (\<lambda>sequence state.
         (Inr (JournalEntry sequence r), state\<lparr>store_open_rollback := Some (JournalEntry sequence r)\<rparr>)) state)"

definition store_record_rollback_event :: "migration_lease \<Rightarrow> rollback_event_record \<Rightarrow> memory_store \<Rightarrow>
    rollback_event_record journal_entry res \<times> memory_store" where
  "store_record_rollback_event lease r =
     bound_record lease (rollback_event_scope r) (rollback_event_fence r) (\<lambda>state.
       case store_open_rollback state of
         None \<Rightarrow> (Inl (invalid_contract ''migration_execution_no_open_plan''), state)
       | Some plan \<Rightarrow>
           if rollback_event_digest r \<notin> set (rollback_plan_digests (entry_record plan))
           then (Inl (execution_failure ''migration_execution_foreign_event''), state)
           else take_sequence (\<lambda>sequence state.
             (Inr (JournalEntry sequence r), state\<lparr>store_rollback_events := store_rollback_events state @ [JournalEntry sequence r]\<rparr>)) state)"

definition append_rolled_back :: "rollback_plan_record journal_entry \<Rightarrow> ledger_record \<Rightarrow> journal_sequence \<Rightarrow> scope_state \<Rightarrow>
    ledger_record journal_entry res \<times> scope_state" where
  "append_rolled_back plan r sequence state =
     (let entry = JournalEntry sequence r; state' = state\<lparr>store_rolled_back := store_rolled_back state @ [entry]\<rparr> in
      case active_applied_entries (store_applied state') (store_rolled_back state') of
        Inl e \<Rightarrow> (Inl e, state')
      | Inr active \<Rightarrow>
          (Inr entry,
           if list_all (\<lambda>i. i \<notin> set (active_ids active)) (rollback_plan_ids (entry_record plan))
           then state'\<lparr>store_open_rollback := None, store_rollback_events := [], store_backfill_events := []\<rparr> else state'))"

definition store_record_rolled_back :: "migration_lease \<Rightarrow> ledger_record \<Rightarrow> memory_store \<Rightarrow> ledger_record journal_entry res \<times> memory_store" where
  "store_record_rolled_back lease r =
     bound_record lease (ledger_scope r) (ledger_fence r) (\<lambda>state.
       case active_applied_entries (store_applied state) (store_rolled_back state) of
         Inl e \<Rightarrow> (Inl e, state)
       | Inr active \<Rightarrow>
           if \<not> list_ex (\<lambda>e. ledger_id (entry_record e) = ledger_id r \<and> ledger_digest (entry_record e) = ledger_digest r) active
           then
             (case find (\<lambda>e. entry_record e = r \<and> ledger_fence (entry_record e) = lease_fence lease) (store_rolled_back state) of
                Some existing \<Rightarrow> (Inr existing, state)
              | None \<Rightarrow> (Inl (execution_failure ''migration_execution_retirement_conflict''), state))
           else
             (case store_open_rollback state of
                None \<Rightarrow> (Inl (invalid_contract ''migration_execution_no_open_plan''), state)
              | Some plan \<Rightarrow>
                  if \<not> plan_names (rollback_plan_ids (entry_record plan)) (rollback_plan_digests (entry_record plan)) r
                  then (Inl (execution_failure ''migration_execution_foreign_applied_record''), state)
                  else take_sequence (append_rolled_back plan r) state))"

definition store_load_rolled_back :: "migration_lease \<Rightarrow> memory_store \<Rightarrow> ledger_record journal_entry list res \<times> memory_store" where
  "store_load_rolled_back lease = under_lease lease (\<lambda>state. (Inr (store_rolled_back state), state))"

definition store_load_open_rollback_plan :: "migration_lease \<Rightarrow> memory_store \<Rightarrow> open_rollback_plan option res \<times> memory_store" where
  "store_load_open_rollback_plan lease =
     under_lease lease (\<lambda>state.
       (case store_open_rollback state of
          None \<Rightarrow> Inr None
        | Some plan \<Rightarrow>
            bind_res (open_rollback_from_store plan (store_rollback_events state)
                (filter (\<lambda>e. backfill_event_direction (entry_record e) = Reverse) (store_backfill_events state))) (\<lambda>open_record.
              Inr (Some open_record)), state))"

section \<open>Reachable stores\<close>

inductive store_reaches :: "memory_store \<Rightarrow> bool" where
  start: "store_reaches fmempty"
| acquired: "store_reaches m \<Longrightarrow> store_acquire scope holder m = (r, m') \<Longrightarrow> store_reaches m'"
| released: "store_reaches m \<Longrightarrow> store_release lease m = (r, m') \<Longrightarrow> store_reaches m'"
| began: "store_reaches m \<Longrightarrow> store_begin_plan lease plan m = (r, m') \<Longrightarrow> store_reaches m'"
| group_event: "store_reaches m \<Longrightarrow> store_record_group_event lease event m = (r, m') \<Longrightarrow> store_reaches m'"
| backfill_event: "store_reaches m \<Longrightarrow> store_record_backfill_event lease backfill m = (r, m') \<Longrightarrow> store_reaches m'"
| applied: "store_reaches m \<Longrightarrow> store_record_applied lease entry m = (r, m') \<Longrightarrow> store_reaches m'"
| began_rollback: "store_reaches m \<Longrightarrow> store_begin_rollback_plan lease rollback m = (r, m') \<Longrightarrow> store_reaches m'"
| rollback_event: "store_reaches m \<Longrightarrow> store_record_rollback_event lease step m = (r, m') \<Longrightarrow> store_reaches m'"
| rolled_back: "store_reaches m \<Longrightarrow> store_record_rolled_back lease entry m = (r, m') \<Longrightarrow> store_reaches m'"

definition ledger_history :: "scope_state \<Rightarrow> ledger_event list \<Rightarrow> ledger_record journal_entry list \<Rightarrow> bool" where
  "ledger_history s log active \<longleftrightarrow> sorted_wrt (<) (map ledger_event_sequence log)
     \<and> (\<forall>e \<in> set log. ledger_event_sequence e \<le> next_sequence s)
     \<and> applied_of log = store_applied s \<and> retired_of log = store_rolled_back s
     \<and> ledger_run log [] = Some active \<and> distinct (active_ids active)"

definition scope_invariant :: "string \<Rightarrow> scope_state \<Rightarrow> bool" where
  "scope_invariant scope s \<longleftrightarrow> (\<exists>log active. ledger_history s log active)
     \<and> (store_open_plan s = None \<or> store_open_rollback s = None)
     \<and> (\<forall>lease. active_lease s = Some lease \<longrightarrow> lease_scope lease = scope \<and> lease_fence lease = highest_fence s)"

definition store_invariant :: "memory_store \<Rightarrow> bool" where
  "store_invariant m \<longleftrightarrow> (\<forall>scope s. fmlookup m scope = Some s \<longrightarrow> scope_invariant scope s)"

lemma ledger_history_active:
  assumes "ledger_history s log active"
  shows "active_applied_entries (store_applied s) (store_rolled_back s) = Inr active"
proof -
  from assms have "ledger_agrees log" by (simp add: ledger_history_def ledger_agrees_sorted)
  then show ?thesis using assms by (cases "ledger_flags log")
      (auto simp: ledger_history_def ledger_agrees_def ledger_outcome_def ledger_flags_def active_applied_entries_def surviving_def res_simps)
qed

lemma ledger_history_applied:
  assumes "ledger_history s log active" and "next_sequence s < n" and "ledger_id r \<notin> set (active_ids active)"
  shows "ledger_history (s\<lparr>next_sequence := n, store_applied := store_applied s @ [JournalEntry n r]\<rparr>)
    (log @ [LedgerApplied (JournalEntry n r)]) (active @ [JournalEntry n r])"
  using assms by (fastforce simp: ledger_history_def sorted_wrt_append ledger_run_append active_ids_def)

lemma remove_last_sub: "remove_last P xs = Some ys \<Longrightarrow> distinct (map f xs) \<Longrightarrow> distinct (map f ys) \<and> set ys \<subseteq> set xs"
  by (induction xs arbitrary: ys rule: rev_induct) (auto simp: remove_last_snoc split: if_splits, auto simp: remove_last_def)

lemma remove_last_some: "x \<in> set xs \<Longrightarrow> P x \<Longrightarrow> \<exists>ys. remove_last P xs = Some ys"
  by (induction xs rule: rev_induct) (auto simp: remove_last_snoc)

lemma ledger_history_retired:
  assumes "ledger_history s log active" and "next_sequence s < n" and "remove_last (same_migration (JournalEntry n r)) active = Some rest"
  shows "ledger_history (s\<lparr>next_sequence := n, store_rolled_back := store_rolled_back s @ [JournalEntry n r]\<rparr>)
    (log @ [LedgerRetired (JournalEntry n r)]) rest"
  using assms remove_last_sub [OF assms(3), of "\<lambda>e. ledger_id (entry_record e)"]
  by (fastforce simp: ledger_history_def sorted_wrt_append ledger_run_append active_ids_def)

lemma take_sequence_cases:
  assumes "take_sequence store_entry s = (r, s')"
  obtains "s' = s" | n where "next_sequence s < n" "store_entry n (s\<lparr>next_sequence := n\<rparr>) = (r, s')"
proof (cases "checked_add (next_sequence s) 1")
  case None
  then show ?thesis using assms that by (simp add: take_sequence_def)
next
  case (Some n)
  then have "uint (next_sequence s) + 1 < 2 ^ 64" and n: "n = next_sequence s + 1" by (auto simp: checked_add_def split: if_splits)
  then have "uint n = uint (next_sequence s) + 1" by (simp add: uint_word_ariths)
  then have less: "next_sequence s < n" by (simp add: word_less_def)
  then have "n \<noteq> 0" by auto
  then show ?thesis using assms that(2) less Some by (simp add: take_sequence_def sequence_new_def)
qed

lemma scope_invariantI:
  assumes "ledger_history s log active" and "next_sequence s \<le> next_sequence t"
    and "store_applied t = store_applied s" "store_rolled_back t = store_rolled_back s"
    and "store_open_plan t = None \<or> store_open_rollback t = None"
    and "\<And>lease. active_lease t = Some lease \<Longrightarrow> lease_scope lease = scope \<and> lease_fence lease = highest_fence t"
  shows "scope_invariant scope t"
proof -
  have "ledger_history t log active" using assms(1-4) unfolding ledger_history_def by (auto intro: order_trans)
  with assms(5,6) show ?thesis by (auto simp: scope_invariant_def)
qed

lemma under_lease_invariant:
  assumes "store_invariant m" and "under_lease lease operation m = (r, m')"
    and "\<And>s q s'. scope_invariant (lease_scope lease) s \<Longrightarrow> operation s = (q, s') \<Longrightarrow> scope_invariant (lease_scope lease) s'"
  shows "store_invariant m'"
  using assms(1,2) by (auto simp: under_lease_def store_invariant_def Let_def split: option.splits sum.splits prod.splits if_splits)
    (blast intro: assms(3))

lemma bound_record_invariant:
  assumes "store_invariant m" and "bound_record lease scope fence operation m = (r, m')"
    and "\<And>s q s'. scope_invariant (lease_scope lease) s \<Longrightarrow> operation s = (q, s') \<Longrightarrow> scope_invariant (lease_scope lease) s'"
  shows "store_invariant m'"
  using assms(1,2) unfolding bound_record_def
  by (rule under_lease_invariant) (auto split: if_splits intro: assms(3))

lemma append_applied_invariant:
  assumes inv: "scope_invariant scope s" and active: "active_applied_entries (store_applied s) (store_rolled_back s) = Inr active"
    and new: "find (\<lambda>e. ledger_id (entry_record e) = ledger_id r) active = None"
    and less: "next_sequence s < n" and step: "append_applied plan r n (s\<lparr>next_sequence := n\<rparr>) = (q, s')"
  shows "scope_invariant scope s'"
proof -
  from inv obtain log where log: "ledger_history s log active"
    using ledger_history_active active by (fastforce simp: scope_invariant_def)
  have "ledger_id r \<notin> set (active_ids active)" using new by (auto simp: find_None_iff active_ids_def)
  note history = ledger_history_applied [OF log less this]
  have "next_sequence s' = n" "store_applied s' = store_applied s @ [JournalEntry n r]" "store_rolled_back s' = store_rolled_back s"
    "active_lease s' = active_lease s" "highest_fence s' = highest_fence s" "store_open_rollback s' = store_open_rollback s"
    "store_open_plan s' = store_open_plan s \<or> store_open_plan s' = None"
    using step by (auto simp: append_applied_def Let_def split: sum.splits if_splits)
  then show ?thesis using inv by (intro scope_invariantI [OF history]) (auto simp: scope_invariant_def)
qed

lemma append_rolled_back_invariant:
  assumes inv: "scope_invariant scope s" and active: "active_applied_entries (store_applied s) (store_rolled_back s) = Inr active"
    and hit: "list_ex (\<lambda>e. ledger_id (entry_record e) = ledger_id r \<and> ledger_digest (entry_record e) = ledger_digest r) active"
    and less: "next_sequence s < n" and step: "append_rolled_back plan r n (s\<lparr>next_sequence := n\<rparr>) = (q, s')"
  shows "scope_invariant scope s'"
proof -
  from inv obtain log where log: "ledger_history s log active"
    using ledger_history_active active by (fastforce simp: scope_invariant_def)
  from hit obtain rest where "remove_last (same_migration (JournalEntry n r)) active = Some rest"
    by (auto simp: list_ex_iff same_migration_def dest: remove_last_some [where P = "same_migration (JournalEntry n r)"])
  note history = ledger_history_retired [OF log less this]
  have "next_sequence s' = n" "store_rolled_back s' = store_rolled_back s @ [JournalEntry n r]" "store_applied s' = store_applied s"
    "active_lease s' = active_lease s" "highest_fence s' = highest_fence s" "store_open_plan s' = store_open_plan s"
    "store_open_rollback s' = store_open_rollback s \<or> store_open_rollback s' = None"
    using step by (auto simp: append_rolled_back_def Let_def split: sum.splits if_splits)
  then show ?thesis using inv by (intro scope_invariantI [OF history]) (auto simp: scope_invariant_def)
qed

lemma store_record_applied_invariant:
  assumes "store_invariant m" and "store_record_applied lease r m = (q, m')"
  shows "store_invariant m'"
  using assms unfolding store_record_applied_def
proof (rule bound_record_invariant, goal_cases)
  case (1 s q s')
  then show ?case
    by (auto split: sum.splits option.splits if_splits elim!: take_sequence_cases intro: append_applied_invariant)
qed

lemma store_record_rolled_back_invariant:
  assumes "store_invariant m" and "store_record_rolled_back lease r m = (q, m')"
  shows "store_invariant m'"
  using assms unfolding store_record_rolled_back_def
proof (rule bound_record_invariant, goal_cases)
  case (1 s q s')
  then show ?case
    by (auto split: sum.splits option.splits if_splits elim!: take_sequence_cases intro: append_rolled_back_invariant)
qed

lemma scope_invariant_keeps_ledger:
  assumes "scope_invariant scope s" and "next_sequence s \<le> next_sequence t"
    and "store_applied t = store_applied s" "store_rolled_back t = store_rolled_back s"
    and "active_lease t = active_lease s" "highest_fence t = highest_fence s"
    and "store_open_plan t = None \<or> store_open_rollback t = None"
  shows "scope_invariant scope t"
proof -
  from assms(1) obtain log active where "ledger_history s log active" by (auto simp: scope_invariant_def)
  then show ?thesis by (rule scope_invariantI) (use assms in \<open>auto simp: scope_invariant_def\<close>)
qed

lemma scope_invariant_lease:
  assumes "scope_invariant scope s" and "\<And>l. lease = Some l \<Longrightarrow> lease_scope l = scope \<and> lease_fence l = fence"
  shows "scope_invariant scope (s\<lparr>highest_fence := fence, active_lease := lease\<rparr>)"
proof -
  from assms(1) obtain log active where "ledger_history s log active" by (auto simp: scope_invariant_def)
  then show ?thesis by (rule scope_invariantI) (use assms in \<open>auto simp: scope_invariant_def\<close>)
qed

lemma store_acquire_invariant:
  assumes "store_invariant m" and "store_acquire scope holder m = (r, m')"
  shows "store_invariant m'"
proof -
  let ?s = "case fmlookup m scope of Some s \<Rightarrow> s | None \<Rightarrow> initial_scope"
  have initial: "scope_invariant scope initial_scope"
    unfolding scope_invariant_def ledger_history_def by (force simp: initial_scope_def active_ids_def intro!: exI [of _ "[]"])
  then have s: "scope_invariant scope ?s" using assms(1) by (auto simp: store_invariant_def split: option.split)
  then have "scope_invariant scope (?s\<lparr>highest_fence := fence, active_lease := Some (lease_new scope holder fence)\<rparr>)" for fence
    by (rule scope_invariant_lease) (auto simp: lease_new_def)
  with s assms show ?thesis
    by (auto simp: store_acquire_def Let_def store_invariant_def split: if_splits sum.splits)
qed

lemma store_release_invariant:
  assumes "store_invariant m" and "store_release lease m = (r, m')"
  shows "store_invariant m'"
  using assms unfolding store_release_def
proof (rule under_lease_invariant, goal_cases)
  case (1 s q s')
  then show ?case using scope_invariant_lease [of "lease_scope lease" s None "highest_fence s"] by auto
qed

lemma appended_invariant:
  assumes "scope_invariant scope s" and "take_sequence store_entry s = (q, s')"
    and "\<And>n. \<exists>q'. store_entry n (s\<lparr>next_sequence := n\<rparr>) = (q', change n)"
    and "\<And>n. next_sequence (change n) = n \<and> store_applied (change n) = store_applied s \<and> store_rolled_back (change n) = store_rolled_back s
      \<and> active_lease (change n) = active_lease s \<and> highest_fence (change n) = highest_fence s
      \<and> (store_open_plan (change n) = None \<or> store_open_rollback (change n) = None)"
  shows "scope_invariant scope s'"
  using assms(2)
proof (cases rule: take_sequence_cases)
  case (2 n)
  with assms(3) [of n] have "s' = change n" by auto
  then show ?thesis using scope_invariant_keeps_ledger [OF assms(1), of "change n"] assms(4) [of n] 2(1) by auto
qed (use assms(1) in simp)

lemma store_begin_plan_invariant:
  assumes "store_invariant m" and "store_begin_plan lease plan m = (r, m')"
  shows "store_invariant m'"
  using assms unfolding store_begin_plan_def
  by (rule bound_record_invariant) (auto simp: plan_open_def split: if_splits elim!: appended_invariant)

lemma store_begin_rollback_plan_invariant:
  assumes "store_invariant m" and "store_begin_rollback_plan lease plan m = (r, m')"
  shows "store_invariant m'"
  using assms unfolding store_begin_rollback_plan_def
  by (rule bound_record_invariant) (auto simp: plan_open_def split: if_splits elim!: appended_invariant)

lemma scope_invariant_exclusive: "scope_invariant scope s \<Longrightarrow> store_open_plan s = None \<or> store_open_rollback s = None"
  by (simp add: scope_invariant_def)

lemma store_record_group_event_invariant:
  assumes "store_invariant m" and "store_record_group_event lease event m = (r, m')"
  shows "store_invariant m'"
  using assms unfolding store_record_group_event_def
proof (rule bound_record_invariant, goal_cases)
  case (1 s q s')
  then show ?case using scope_invariant_exclusive [OF 1(1)]
    by (auto split: if_splits option.splits elim!: appended_invariant [OF 1(1)])
qed

lemma store_record_rollback_event_invariant:
  assumes "store_invariant m" and "store_record_rollback_event lease event m = (r, m')"
  shows "store_invariant m'"
  using assms unfolding store_record_rollback_event_def
proof (rule bound_record_invariant, goal_cases)
  case (1 s q s')
  then show ?case using scope_invariant_exclusive [OF 1(1)]
    by (auto split: if_splits option.splits elim!: appended_invariant [OF 1(1)])
qed

lemma store_record_backfill_event_invariant:
  assumes "store_invariant m" and "store_record_backfill_event lease event m = (r, m')"
  shows "store_invariant m'"
  using assms unfolding store_record_backfill_event_def
proof (rule bound_record_invariant, goal_cases)
  case (1 s q s')
  then show ?case using scope_invariant_exclusive [OF 1(1)]
    by (auto simp: Let_def split: if_splits elim!: appended_invariant [OF 1(1)])
qed

lemma store_reaches_invariant: "store_reaches m \<Longrightarrow> store_invariant m"
proof (induction rule: store_reaches.induct)
  case start
  then show ?case by (simp add: store_invariant_def)
qed (auto intro: store_acquire_invariant store_release_invariant store_begin_plan_invariant store_record_group_event_invariant
    store_record_backfill_event_invariant store_record_applied_invariant store_begin_rollback_plan_invariant
    store_record_rollback_event_invariant store_record_rolled_back_invariant)

section \<open>The loaded ledger\<close>

lemma surviving_Cons: "surviving (x # xs) (r # rs) = (if r then [] else [x]) @ surviving xs rs"
  by (simp add: surviving_def)

lemma surviving_subset: "set (surviving xs f) \<subseteq> set xs"
  by (auto simp: surviving_def dest: set_zip_leftD)

lemma surviving_sorted: "sorted_wrt R xs \<Longrightarrow> sorted_wrt R (surviving xs f)"
proof (induction xs arbitrary: f)
  case (Cons x xs)
  then show ?case using surviving_subset [of xs "tl f"] by (cases f) (auto simp: surviving_Cons, auto simp: surviving_def)
qed (simp add: surviving_def)

lemma ledger_history_sorted:
  assumes "ledger_history s log active"
  shows "sorted_wrt (<) (map entry_sequence active)"
proof -
  from assms have log: "sorted_wrt (<) (map ledger_event_sequence log)" by (simp add: ledger_history_def)
  note ledger_agrees_sorted [OF log] applied_of_sorted [OF log]
  then show ?thesis using assms surviving_sorted [of "\<lambda>x y. entry_sequence x < entry_sequence y" "applied_of log"]
    by (cases "ledger_flags log") (auto simp: ledger_history_def ledger_agrees_def ledger_outcome_def sorted_wrt_map)
qed

lemma check_ledger_fold:
  assumes "sorted_wrt (<) (map entry_sequence xs)" and "distinct (active_ids xs)"
    and "\<forall>p e. previous = Some p \<longrightarrow> e \<in> set xs \<longrightarrow> p < entry_sequence e" and "set (active_ids xs) \<inter> fset identities = {}"
  shows "\<exists>last. fold_res check_ledger_entry xs (previous, identities) = Inr (last, identities |\<union>| fset_of_list (active_ids xs))"
  using assms
proof (induction xs arbitrary: previous identities)
  case (Cons x xs)
  then have "check_ledger_entry x (previous, identities) = Inr (Some (entry_sequence x), finsert (ledger_id (entry_record x)) identities)"
    by (auto simp: check_ledger_entry_def active_ids_def not_le split: option.split)
  then show ?case
    using Cons.IH [of "Some (entry_sequence x)" "finsert (ledger_id (entry_record x)) identities"] Cons.prems
    by (auto simp: res_simps active_ids_def)
qed (simp add: active_ids_def)

lemma loaded_applied_sorted:
  assumes "sorted_wrt (<) (map entry_sequence xs)" and "distinct (active_ids xs)"
  shows "loaded_applied_migrations xs = Inr (sorted_list_of_fset (fset_of_list (active_ids xs)))"
  using check_ledger_fold [OF assms, of None "{||}"] by (auto simp: loaded_applied_migrations_def res_simps)

text \<open>
  C20. In every store that any sequence of lease and journal operations can reach, succeeding or
  failing, the histories of a scope filter to an active ledger without conflict, the coordinator accepts
  that ledger and reads from it the sorted set of its migrations, no two open plans of opposite
  directions coexist, and an active lease holds the highest fence ever issued for its scope.
\<close>

theorem store_ledger_consistent:
  assumes "store_reaches m" and "fmlookup m scope = Some s"
  shows "(\<exists>active. active_applied_entries (store_applied s) (store_rolled_back s) = Inr active \<and> distinct (active_ids active)
        \<and> loaded_applied_migrations active = Inr (sorted_list_of_fset (fset_of_list (active_ids active))))
     \<and> (store_open_plan s = None \<or> store_open_rollback s = None)
     \<and> (\<forall>lease. active_lease s = Some lease \<longrightarrow> lease_scope lease = scope \<and> lease_fence lease = highest_fence s)"
proof -
  from store_reaches_invariant [OF assms(1)] assms(2) have inv: "scope_invariant scope s" by (auto simp: store_invariant_def)
  then obtain log active where history: "ledger_history s log active" by (auto simp: scope_invariant_def)
  then have "distinct (active_ids active)" by (simp add: ledger_history_def)
  with ledger_history_active [OF history] loaded_applied_sorted [OF ledger_history_sorted [OF history]] inv
  show ?thesis by (intro conjI exI [of _ active]) (simp_all add: scope_invariant_def)
qed

theorem store_ledger_consistent_witness:
  "\<exists>s. fmlookup (snd (store_acquire ''main'' ''holder'' fmempty)) ''main'' = Some s
     \<and> loaded_applied_migrations [] = Inr [] \<and> highest_fence s = 1 \<and> active_lease s = Some (lease_new ''main'' ''holder'' 1)"
proof -
  let ?m = "snd (store_acquire ''main'' ''holder'' fmempty)"
  obtain r where acquired: "store_acquire ''main'' ''holder'' fmempty = (r, ?m)" by (metis prod.collapse)
  have reached: "store_reaches ?m" by (rule store_reaches.acquired [OF store_reaches.start acquired])
  have m: "fmlookup ?m ''main'' = Some (initial_scope\<lparr>highest_fence := 1, active_lease := Some (lease_new ''main'' ''holder'' 1)\<rparr>)"
    by (simp add: store_acquire_def initial_scope_def next_fence_def fence_new_def Let_def)
  from store_ledger_consistent [OF reached m] m show ?thesis
    by (auto simp: initial_scope_def active_applied_entries_def active_ids_def loaded_applied_migrations_def res_simps)
qed

end
