(* ===== verification/Crash_Safety.thy ===== *)
theory Crash_Safety
  imports Coordinator
begin

text \<open>
  Crash safety of transaction groups. A contract collects what the coordinator relies on of the
  journal and the provider traits of \<open>coordinator.rs\<close> and \<open>execution.rs\<close>, over a view of the world:
  the live schema state, the stored group events of each scope, the target of the prepared transaction and the
  number of commits that took effect. Under this contract every way an attempt at a group can end,
  death at any awaited call included, keeps an invariant of the journal and the live state, so that any
  sequence of attempts under increasing fences commits the group at most once.
\<close>

section \<open>Triples over effects\<close>

definition triple :: "('w \<Rightarrow> bool) \<Rightarrow> ('w, 'a) io \<Rightarrow> ('a option \<Rightarrow> 'w \<Rightarrow> bool) \<Rightarrow> bool" where
  "triple P m Q \<longleftrightarrow> (\<forall>w r w'. P w \<longrightarrow> m w = (r, w') \<longrightarrow> Q r w')"

lemma tripleI: "(\<And>w r w'. P w \<Longrightarrow> m w = (r, w') \<Longrightarrow> Q r w') \<Longrightarrow> triple P m Q"
  by (simp add: triple_def)

lemma tripleD: "triple P m Q \<Longrightarrow> P w \<Longrightarrow> m w = (r, w') \<Longrightarrow> Q r w'"
  by (simp add: triple_def)

lemma triple_weaken: "triple P m R \<Longrightarrow> (\<And>w. P' w \<Longrightarrow> P w) \<Longrightarrow> (\<And>r w. R r w \<Longrightarrow> Q r w) \<Longrightarrow> triple P' m Q"
  unfolding triple_def by blast

lemma triple_any: "(\<And>p. triple (\<lambda>w. P w \<and> g w = p) m Q) \<Longrightarrow> triple P m Q"
  unfolding triple_def by blast

lemma triple_return: "(\<And>w. P w \<Longrightarrow> Q (Some x) w) \<Longrightarrow> triple P (return_io x) Q"
  by (simp add: triple_def return_io_def)

lemma triple_lift: "(\<And>w. P w \<Longrightarrow> Q (Some r) w) \<Longrightarrow> triple P (lift_res r) Q"
  by (simp add: triple_def lift_res_def return_io_def)

lemma triple_bind:
  assumes "triple P m R" and "\<And>x. triple (R (Some x)) (f x) Q" and "\<And>w. R None w \<Longrightarrow> Q None w"
  shows "triple P (bind_io m f) Q"
proof (rule tripleI)
  fix w r w'
  assume P: "P w" and run: "bind_io m f w = (r, w')"
  obtain s v where m: "m w = (s, v)" by force
  then have R: "R s v" using assms(1) P by (simp add: triple_def)
  show "Q r w'"
  proof (cases s)
    case None
    then show ?thesis using run m R assms(3) by (simp add: bind_io_def)
  next
    case (Some x)
    then show ?thesis using run m R assms(2) [of x] by (simp add: bind_io_def triple_def)
  qed
qed

lemma triple_try:
  assumes "triple P m R" and "\<And>x. triple (R (Some (Inr x))) (f x) Q"
    and "\<And>w. R None w \<Longrightarrow> Q None w" and "\<And>e w. R (Some (Inl e)) w \<Longrightarrow> Q (Some (Inl e)) w"
  shows "triple P (try_io m f) Q"
  unfolding try_io_def
  by (rule triple_bind [OF assms(1)]) (auto split: sum.split intro: assms triple_return)

lemma triple_try_lift: "triple P (f x) Q \<Longrightarrow> triple P (try_io (lift_res (Inr x)) f) Q"
  by (simp add: triple_def try_io_def bind_io_def lift_res_def return_io_def)

lemma triple_look:
  assumes "triple P m (\<lambda>r w. P w \<and> (\<forall>y. r = Some (Inr y) \<longrightarrow> y = x))" and "triple P (f x) Q"
    and "\<And>w. P w \<Longrightarrow> Q None w" and "\<And>e w. P w \<Longrightarrow> Q (Some (Inl e)) w"
  shows "triple P (try_io m f) Q"
proof (rule triple_try [OF assms(1)])
  fix y
  show "triple (\<lambda>w. P w \<and> (\<forall>z. Some (Inr y) = Some (Inr z) \<longrightarrow> z = x)) (f y) Q"
    using assms(2) by (cases "y = x") (simp_all add: triple_def)
qed (use assms(3,4) in auto)

section \<open>The contract\<close>

locale provider_world =
  fixes env :: "'w execution_env" and live :: "'w \<Rightarrow> managed_schema_state" and journal :: "'w \<Rightarrow> string \<Rightarrow> 'e list"
    and prepared :: "'w \<Rightarrow> managed_schema_state option" and commits :: "'w \<Rightarrow> nat"
  assumes check_quiet: "env_check env w = (r, w') \<Longrightarrow>
      live w' = live w \<and> journal w' = journal w \<and> prepared w' = prepared w \<and> commits w' = commits w"
    and interrupt_quiet: "env_interrupt env w = (r1, w') \<Longrightarrow>
      live w' = live w \<and> journal w' = journal w \<and> prepared w' = prepared w \<and> commits w' = commits w"
    and assertion_quiet: "env_execute_assertion env v w = (r, w') \<Longrightarrow>
      live w' = live w \<and> journal w' = journal w \<and> prepared w' = prepared w \<and> commits w' = commits w"
    and unit_quiet: "env_execute_unit env u w = (r, w') \<Longrightarrow>
      live w' = live w \<and> journal w' = journal w \<and> prepared w' = prepared w \<and> commits w' = commits w"
    and rollback_quiet: "env_rollback env w = (r, w') \<Longrightarrow>
      live w' = live w \<and> journal w' = journal w \<and> commits w' = commits w"
    and observe_live: "env_observe env lease s t w = (r2, w') \<Longrightarrow>
      live w' = live w \<and> journal w' = journal w \<and> commits w' = commits w \<and> (\<forall>x. r2 = Some (Inr x) \<longrightarrow> x = live w)"
    and prepare_binds: "env_prepare env lease s t w = (r, w') \<Longrightarrow>
      live w' = live w \<and> journal w' = journal w \<and> commits w' = commits w \<and> (r = Some (Inr ()) \<longrightarrow> prepared w' = Some t)"
    and commit_once: "env_commit env lease w = (r3, w') \<Longrightarrow>
      journal w' = journal w
      \<and> (live w' = live w \<and> commits w' = commits w \<and> r3 \<noteq> Some (Inr ())
         \<or> (\<exists>t. prepared w = Some t \<and> live w' = t \<and> commits w' = Suc (commits w) \<and> (\<forall>d. r3 \<noteq> Some (Inl (DefinitelyAborted, d)))))"

locale execution_world = provider_world env live journal prepared commits
  for env :: "'w execution_env" and live and journal :: "'w \<Rightarrow> string \<Rightarrow> group_event_record list" and prepared and commits +
  assumes record_appends: "env_record_group_event env lease e w = (r, w') \<Longrightarrow>
      live w' = live w \<and> prepared w' = prepared w \<and> commits w' = commits w
      \<and> (journal w' = (journal w)(group_event_scope e := journal w (group_event_scope e) @ [e])
         \<or> journal w' = journal w \<and> r \<noteq> Some (Inr ()))"

section \<open>The invariant of a group\<close>

definition event_of_group :: "apply_manifest \<Rightarrow> transaction_group \<Rightarrow> group_event_record \<Rightarrow> bool" where
  "event_of_group migration grp e \<longleftrightarrow> group_event_digest e = apply_digest migration \<and> group_event_ordinal e = group_ordinal grp"

definition apply_scope :: "apply_manifest \<Rightarrow> string" where
  "apply_scope migration = binding_scope_id (manifest_managed_scope (apply_manifest_of migration))"

definition group_trail :: "apply_manifest \<Rightarrow> transaction_group \<Rightarrow> group_event_record list \<Rightarrow> (journal_event_kind \<times> execution_fence) list" where
  "group_trail migration grp events = map (\<lambda>e. (group_event_kind e, group_event_fence e)) (filter (event_of_group migration grp) events)"

definition trail_kind :: "(journal_event_kind \<times> execution_fence) list \<Rightarrow> journal_event_kind option" where
  "trail_kind trail = map_option fst (last_opt trail)"

definition formal_only :: "transaction_group \<Rightarrow> managed_schema_state \<Rightarrow> managed_schema_state \<Rightarrow> schema_lowering_plan \<Rightarrow> bool" where
  "formal_only grp source target lowering \<longleftrightarrow> assertion_count grp = 0 \<and> lowering_units lowering = []
     \<and> state_managed_semantic_schema source = state_managed_semantic_schema target"

definition trail_live :: "managed_schema_state \<Rightarrow> managed_schema_state \<Rightarrow> journal_event_kind option \<Rightarrow> managed_schema_state \<Rightarrow> nat \<Rightarrow> bool" where
  "trail_live source target kind live_state commit_count \<longleftrightarrow>
     (case kind of
        None \<Rightarrow> live_state = source \<and> commit_count = 0
      | Some EventDefinitelyAborted \<Rightarrow> live_state = source \<and> commit_count = 0
      | Some EventFormalOnlyAdvanced \<Rightarrow> live_state = source \<and> commit_count = 0
      | Some EventCommitted \<Rightarrow> live_state = target \<and> commit_count = 1
      | Some _ \<Rightarrow> live_state = source \<and> commit_count = 0 \<or> live_state = target \<and> commit_count = 1)"

definition accepted_trail :: "bool \<Rightarrow> (journal_event_kind \<times> execution_fence) list \<Rightarrow> bool" where
  "accepted_trail formal trail \<longleftrightarrow> validate_commit_transitions trail = Inr () \<and>
     (\<forall>(kind, fence) \<in> set trail. (kind = EventFormalOnlyAdvanced) = formal)"

lemma trail_live_simps [simp]:
  "trail_live source target None s c \<longleftrightarrow> s = source \<and> c = 0"
  "trail_live source target (Some EventDefinitelyAborted) s c \<longleftrightarrow> s = source \<and> c = 0"
  "trail_live source target (Some EventFormalOnlyAdvanced) s c \<longleftrightarrow> s = source \<and> c = 0"
  "trail_live source target (Some EventCommitted) s c \<longleftrightarrow> s = target \<and> c = 1"
  "trail_live source target (Some EventBeforeCommit) s c \<longleftrightarrow> s = source \<and> c = 0 \<or> s = target \<and> c = 1"
  "trail_live source target (Some EventCommitOutcomeUnknown) s c \<longleftrightarrow> s = source \<and> c = 0 \<or> s = target \<and> c = 1"
  by (simp_all add: trail_live_def)

lemma fold_transitions:
  "fold_res check_transition xs p = Inr q \<Longrightarrow> q = (if xs = [] then p else Some (last xs))"
  by (induction xs arbitrary: p) (auto simp: res_simps check_transition_def split: if_splits)

lemma validate_snoc:
  "validate_commit_transitions (xs @ [x]) = Inr () \<longleftrightarrow> validate_commit_transitions xs = Inr () \<and> valid_transition (last_opt xs) x"
proof (cases "fold_res check_transition xs None")
  case (Inl e)
  then show ?thesis by (simp add: validate_commit_transitions_def fold_res_append res_simps)
next
  case (Inr q)
  then have "q = last_opt xs" using fold_transitions [of xs None q] by (simp add: last_opt_def)
  then show ?thesis using Inr by (simp add: validate_commit_transitions_def fold_res_append res_simps check_transition_def)
qed

lemma last_opt_snoc [simp]: "last_opt (xs @ [x]) = Some x"
  by (simp add: last_opt_def)

lemma trail_kind_snoc [simp]: "trail_kind (xs @ [x]) = Some (fst x)"
  by (simp add: trail_kind_def)

lemma accepted_snoc:
  "accepted_trail formal (xs @ [(k, f)]) \<longleftrightarrow>
     accepted_trail formal xs \<and> valid_transition (last_opt xs) (k, f) \<and> (k = EventFormalOnlyAdvanced) = formal"
  by (auto simp: accepted_trail_def validate_snoc)

lemma group_event_new_Inr:
  assumes "group_event_new lease migration grp kind observed = Inr e"
  shows "group_event_kind e = kind \<and> group_event_fence e = lease_fence lease \<and> event_of_group migration grp e
    \<and> group_event_scope e = apply_scope migration"
  using assms by (auto simp: group_event_new_def apply_scope_def event_of_group_def position_def res_simps Let_def split: if_splits prod.splits)

lemma group_trail_snoc:
  "group_trail migration grp (events @ [e]) =
     group_trail migration grp events @ (if event_of_group migration grp e then [(group_event_kind e, group_event_fence e)] else [])"
  by (simp add: group_trail_def)

lemma decide_repair:
  assumes "decide_group_recovery kind (exact_observation x source target) (state_managed_semantic_schema source)
      (state_managed_semantic_schema target) = RepairCheckpoint"
    and "\<And>k. kind = Some k \<Longrightarrow> \<not> is_completion_event k"
  shows "x = target \<and> x \<noteq> source \<and> (kind = Some EventBeforeCommit \<or> kind = Some EventCommitOutcomeUnknown)"
  using assms by (auto simp: decide_group_recovery_def exact_observation_def observed_relation_of_def
      split: if_splits option.splits journal_event_kind.splits bool.splits)

lemma decide_execute:
  assumes "decide_group_recovery kind (exact_observation x source target) (state_managed_semantic_schema source)
      (state_managed_semantic_schema target) = ExecuteNormally"
  shows "kind = None \<or> kind = Some EventDefinitelyAborted
    \<or> x = source \<and> x \<noteq> target \<and> (kind = Some EventBeforeCommit \<or> kind = Some EventCommitOutcomeUnknown)"
  using assms by (auto simp: decide_group_recovery_def exact_observation_def observed_relation_of_def
      split: if_splits option.splits journal_event_kind.splits bool.splits)

definition group_view :: "('w \<Rightarrow> managed_schema_state) \<Rightarrow> ('w \<Rightarrow> string \<Rightarrow> group_event_record list) \<Rightarrow> ('w \<Rightarrow> nat) \<Rightarrow> apply_manifest \<Rightarrow> transaction_group \<Rightarrow>
    (journal_event_kind \<times> execution_fence) list \<Rightarrow> managed_schema_state \<Rightarrow> nat \<Rightarrow> 'w \<Rightarrow> bool" where
  "group_view live journal commits migration grp trail state count w \<longleftrightarrow>
     group_trail migration grp (journal w (apply_scope migration)) = trail \<and> live w = state \<and> commits w = count"

definition group_invariant :: "('w \<Rightarrow> managed_schema_state) \<Rightarrow> ('w \<Rightarrow> string \<Rightarrow> group_event_record list) \<Rightarrow> ('w \<Rightarrow> nat) \<Rightarrow> apply_manifest \<Rightarrow>
    transaction_group \<Rightarrow> managed_schema_state \<Rightarrow> managed_schema_state \<Rightarrow> bool \<Rightarrow> 'w \<Rightarrow> bool" where
  "group_invariant live journal commits migration grp source target formal w \<longleftrightarrow>
     (let trail = group_trail migration grp (journal w (apply_scope migration)) in
      accepted_trail formal trail \<and> trail_live source target (trail_kind trail) (live w) (commits w))"

definition group_finished :: "('w \<Rightarrow> managed_schema_state) \<Rightarrow> ('w \<Rightarrow> string \<Rightarrow> group_event_record list) \<Rightarrow> ('w \<Rightarrow> nat) \<Rightarrow> apply_manifest \<Rightarrow>
    transaction_group \<Rightarrow> managed_schema_state \<Rightarrow> managed_schema_state \<Rightarrow> bool \<Rightarrow> group_progress res option \<Rightarrow> 'w \<Rightarrow> bool" where
  "group_finished live journal commits migration grp source target formal r w \<longleftrightarrow>
     group_invariant live journal commits migration grp source target formal w
     \<and> (\<forall>ob. r = Some (Inr (GroupDone ob)) \<longrightarrow> (\<exists>k. trail_kind (group_trail migration grp (journal w (apply_scope migration))) = Some k \<and> is_completion_event k))"

context execution_world
begin

lemma await_triple:
  assumes "triple (\<lambda>w. group_view live journal commits migration grp T s c w \<and> prepared w = p) m R"
    and "\<And>e w. group_view live journal commits migration grp T s c w \<Longrightarrow> prepared w = p \<Longrightarrow> R (Some (Inl e)) w"
    and "\<And>w. group_view live journal commits migration grp T s c w \<Longrightarrow> prepared w = p \<Longrightarrow> R None w"
  shows "triple (\<lambda>w. group_view live journal commits migration grp T s c w \<and> prepared w = p) (await_interruptible env m) R"
  unfolding await_interruptible_def
proof (rule triple_try)
  let ?P = "\<lambda>w. group_view live journal commits migration grp T s c w \<and> prepared w = p"
  show "triple ?P (env_check env) (\<lambda>_. ?P)" by (rule tripleI) (auto simp: group_view_def dest: check_quiet)
  show "triple ?P (bind_io (env_interrupt env) (\<lambda>i. case i of Some e \<Rightarrow> return_io (Inl e) | None \<Rightarrow> m)) R"
  proof (rule triple_bind [where R = "\<lambda>_. ?P"])
    show "triple ?P (env_interrupt env) (\<lambda>_. ?P)" by (rule tripleI) (auto simp: group_view_def dest: interrupt_quiet)
  qed (auto intro!: triple_return assms split: option.splits)
qed (use assms in auto)

lemma record_event_triple:
  assumes "\<And>e. triple (\<lambda>w. group_view live journal commits migration grp T s c w
        \<or> group_view live journal commits migration grp (T @ [(kind, lease_fence lease)]) s c w) (failed e) Q"
    and "triple (\<lambda>w. group_view live journal commits migration grp (T @ [(kind, lease_fence lease)]) s c w \<and> prepared w = p) next Q"
    and "\<And>w. group_view live journal commits migration grp T s c w
        \<or> group_view live journal commits migration grp (T @ [(kind, lease_fence lease)]) s c w \<Longrightarrow> Q None w"
    and "\<And>e w. group_view live journal commits migration grp T s c w \<Longrightarrow> Q (Some (Inl e)) w"
  shows "triple (\<lambda>w. group_view live journal commits migration grp T s c w \<and> prepared w = p)
      (record_event env lease migration grp kind observed failed next) Q"
proof -
  let ?P = "\<lambda>w. group_view live journal commits migration grp T s c w \<and> prepared w = p"
  let ?V = "\<lambda>w. group_view live journal commits migration grp (T @ [(kind, lease_fence lease)]) s c w"
  show ?thesis
    unfolding record_event_def
  proof (rule triple_try [where R = "\<lambda>r w. r = Some (group_event_new lease migration grp kind observed) \<and> ?P w"])
    fix e
    show "triple (\<lambda>w. Some (Inr e) = Some (group_event_new lease migration grp kind observed) \<and> ?P w)
        (bind_io (env_record_group_event env lease e) (\<lambda>r. case r of Inl e \<Rightarrow> failed e | Inr _ \<Rightarrow> next)) Q"
    proof (rule triple_bind [where R = "\<lambda>r w. (?V w \<and> prepared w = p) \<or> (r \<noteq> Some (Inr ()) \<and> group_view live journal commits migration grp T s c w)"])
      show "triple (\<lambda>w. Some (Inr e) = Some (group_event_new lease migration grp kind observed) \<and> ?P w) (env_record_group_event env lease e)
          (\<lambda>r w. (?V w \<and> prepared w = p) \<or> (r \<noteq> Some (Inr ()) \<and> group_view live journal commits migration grp T s c w))"
        by (rule tripleI) (auto simp: group_view_def group_trail_snoc dest!: record_appends dest: group_event_new_Inr [OF sym])
    next
      fix r :: "unit res"
      show "triple (\<lambda>w. (?V w \<and> prepared w = p) \<or> (Some r \<noteq> Some (Inr ()) \<and> group_view live journal commits migration grp T s c w))
          (case r of Inl e \<Rightarrow> failed e | Inr _ \<Rightarrow> next) Q"
      proof (cases r)
        case (Inl d)
        then show ?thesis using assms(1) [of d] by (auto elim!: triple_weaken)
      next
        case (Inr u)
        then show ?thesis using assms(2) by (auto elim!: triple_weaken)
      qed
    qed (use assms(3) in blast)
  qed (use assms(3,4) in \<open>auto intro: triple_lift\<close>)
qed

abbreviation view where
  "view \<equiv> group_view live journal commits"

abbreviation finished where
  "finished \<equiv> group_finished live journal commits"

lemma finished_view:
  assumes "view migration grp T s c w" and "accepted_trail formal T" and "trail_live source target (trail_kind T) s c"
    and "\<And>ob. r = Some (Inr (GroupDone ob)) \<Longrightarrow> \<exists>k. trail_kind T = Some k \<and> is_completion_event k"
  shows "finished migration grp source target formal r w"
  using assms by (auto simp: group_view_def group_finished_def group_invariant_def Let_def)

lemma guarded_triple:
  assumes "\<And>w r w'. m w = (r, w') \<Longrightarrow> live w' = live w \<and> journal w' = journal w \<and> prepared w' = prepared w \<and> commits w' = commits w"
  shows "triple (\<lambda>w. view migration grp T s c w \<and> prepared w = p) (guarded env m)
    (\<lambda>r w. view migration grp T s c w \<and> (r = Some (Inr ()) \<longrightarrow> prepared w = p))"
  unfolding guarded_def
proof (rule triple_bind)
  let ?P = "\<lambda>w. view migration grp T s c w \<and> prepared w = p"
  show "triple ?P (await_interruptible env m) (\<lambda>_. ?P)"
    by (rule await_triple) (auto intro!: tripleI simp: group_view_def dest: assms)
  fix r :: "unit res"
  have "triple ?P (rollback_prepared_group_error env d) (\<lambda>r w. view migration grp T s c w \<and> (r = Some (Inr ()) \<longrightarrow> prepared w = p))" for d
    unfolding rollback_prepared_group_error_def
    by (rule triple_bind [where R = "\<lambda>_ w. view migration grp T s c w"])
      (auto intro!: tripleI triple_return simp: group_view_def dest: rollback_quiet)
  then show "triple ?P (case r of Inl d \<Rightarrow> rollback_prepared_group_error env d | Inr _ \<Rightarrow> return_io (Inr ()))
      (\<lambda>r w. view migration grp T s c w \<and> (r = Some (Inr ()) \<longrightarrow> prepared w = p))"
    by (auto split: sum.split intro: triple_return)
qed auto

lemma run_assertions_triple:
  "triple (\<lambda>w. view migration grp T s c w \<and> prepared w = p) (run_assertions env steps)
    (\<lambda>r w. view migration grp T s c w \<and> (r = Some (Inr ()) \<longrightarrow> prepared w = p))"
proof (induction steps)
  case Nil
  then show ?case by (auto intro: triple_return)
next
  case (Cons step steps)
  show ?case
    unfolding run_assertions.simps
  proof (rule triple_try [where R = "\<lambda>_ w. view migration grp T s c w \<and> prepared w = p"])
    fix v
    show "triple (\<lambda>w. view migration grp T s c w \<and> prepared w = p)
        (try_io (guarded env (env_execute_assertion env v)) (\<lambda>_. run_assertions env steps))
        (\<lambda>r w. view migration grp T s c w \<and> (r = Some (Inr ()) \<longrightarrow> prepared w = p))"
      by (rule triple_try [OF guarded_triple]) (use Cons.IH in \<open>auto dest: assertion_quiet\<close>)
  qed (auto intro: triple_lift)
qed

lemma run_units_triple:
  "triple (\<lambda>w. view migration grp T s c w \<and> prepared w = p) (run_units env us)
    (\<lambda>r w. view migration grp T s c w \<and> (r = Some (Inr ()) \<longrightarrow> prepared w = p))"
proof (induction us)
  case Nil
  then show ?case by (auto intro: triple_return)
next
  case (Cons u us)
  show ?case
    unfolding run_units.simps
    by (rule triple_try [OF guarded_triple]) (use Cons.IH in \<open>auto dest: unit_quiet\<close>)
qed

lemma record_committed_triple:
  assumes T: "accepted_trail False T" "trail_live source target (trail_kind T) target (Suc 0)"
    and ok: "valid_transition (last_opt T) (EventCommitted, lease_fence lease)"
  shows "triple (\<lambda>w. view migration grp T target (Suc 0) w) (record_committed env lease migration grp target observed)
      (finished migration grp source target False)"
proof -
  have finish: "accepted_trail False (T @ [(EventCommitted, lease_fence lease)])" using T ok by (simp add: accepted_snoc)
  have "triple (\<lambda>w. view migration grp T target (Suc 0) w \<and> prepared w = p) (record_committed env lease migration grp target observed)
      (finished migration grp source target False)" for p
    unfolding record_committed_def
    by (rule record_event_triple)
      (auto intro!: triple_return elim!: finished_view simp: T [simplified] finish)
  then show ?thesis by (rule triple_any)
qed

lemma record_view_triple:
  assumes "\<And>e. triple (\<lambda>w. view migration grp T s c w \<or> view migration grp (T @ [(kind, lease_fence lease)]) s c w) (failed e) Q"
    and "triple (\<lambda>w. view migration grp (T @ [(kind, lease_fence lease)]) s c w) next Q"
    and "\<And>w. view migration grp T s c w \<or> view migration grp (T @ [(kind, lease_fence lease)]) s c w \<Longrightarrow> Q None w"
    and "\<And>e w. view migration grp T s c w \<Longrightarrow> Q (Some (Inl e)) w"
  shows "triple (\<lambda>w. view migration grp T s c w) (record_event env lease migration grp kind observed failed next) Q"
proof -
  have "triple (\<lambda>w. view migration grp T s c w \<and> prepared w = p) (record_event env lease migration grp kind observed failed next) Q" for p
    by (rule record_event_triple) (use assms in \<open>auto elim: triple_weaken\<close>)
  then show ?thesis by (rule triple_any)
qed

lemma observe_triple:
  "triple (\<lambda>w. view migration grp T s c w) (env_observe env lease a b)
     (\<lambda>r w. view migration grp T s c w \<and> (\<forall>x. r = Some (Inr x) \<longrightarrow> x = s))"
  by (rule tripleI) (auto simp: group_view_def dest: observe_live)

lemma commit_succeeded_triple:
  assumes "accepted_trail False (T @ [(EventBeforeCommit, lease_fence lease)])"
  shows "triple (\<lambda>w. view migration grp (T @ [(EventBeforeCommit, lease_fence lease)]) target (Suc 0) w)
      (commit_succeeded env lease migration grp source target) (finished migration grp source target False)"
  unfolding commit_succeeded_def
proof (rule triple_bind [OF observe_triple])
  fix r :: "managed_schema_state res"
  let ?V = "\<lambda>w. view migration grp (T @ [(EventBeforeCommit, lease_fence lease)]) target (Suc 0) w"
  have fin: "?V w \<Longrightarrow> (\<And>ob. r' \<noteq> Some (Inr (GroupDone ob))) \<Longrightarrow> finished migration grp source target False r' w" for r' w
    by (rule finished_view, assumption, rule assms) auto
  have commit: "triple ?V (record_committed env lease migration grp target observed) (finished migration grp source target False)" for observed
    by (rule record_committed_triple) (use assms in auto)
  show "triple (\<lambda>w. ?V w \<and> (\<forall>x. Some r = Some (Inr x) \<longrightarrow> x = target))
      (case r of Inl e \<Rightarrow> return_io (Inr (GroupStopped (retry_safe migration grp e)))
       | Inr observed \<Rightarrow> if observed = target then record_committed env lease migration grp target observed
           else return_io (Inr (GroupStopped (explicit_recovery migration grp (execution_failure ''migration_execution_commit_target_mismatch'')))))
      (finished migration grp source target False)"
    by (cases r) (auto intro!: triple_return fin intro!: triple_weaken [OF commit])
  show "?V w \<and> (\<forall>x. None = Some (Inr x) \<longrightarrow> x = target) \<Longrightarrow> finished migration grp source target False None w" for w
    by (auto intro: fin)
qed

lemma unknown_outcome_triple:
  assumes U: "accepted_trail False (U @ [(EventCommitOutcomeUnknown, lease_fence lease)])"
    and sc: "s = source \<and> c = 0 \<or> s = target \<and> c = Suc 0"
  shows "triple (\<lambda>w. view migration grp (U @ [(EventCommitOutcomeUnknown, lease_fence lease)]) s c w)
      (bind_io (env_observe env lease source target) (\<lambda>r.
          case r of
            Inl e' \<Rightarrow> return_io (Inr (GroupStopped (explicit_recovery migration grp e')))
          | Inr after \<Rightarrow>
              (case decide_group_recovery (Some EventCommitOutcomeUnknown) (exact_observation after source target)
                  (state_managed_semantic_schema source) (state_managed_semantic_schema target) of
                 ExecuteNormally \<Rightarrow> return_io (Inr (GroupStopped (retry_safe migration grp e)))
               | RequiresExplicitRecovery \<Rightarrow> return_io (Inr (GroupStopped (explicit_recovery migration grp e)))
               | RepairCheckpoint \<Rightarrow> record_committed env lease migration grp target target)))
      (finished migration grp source target False)"
proof (rule triple_bind [OF observe_triple])
  fix r :: "managed_schema_state res"
  let ?T = "U @ [(EventCommitOutcomeUnknown, lease_fence lease)]"
  have fin: "view migration grp ?T s c w \<Longrightarrow> (\<And>ob. r' \<noteq> Some (Inr (GroupDone ob))) \<Longrightarrow> finished migration grp source target False r' w" for r' w
    by (rule finished_view, assumption, rule U) (use sc in auto)
  have repair: "triple (view migration grp ?T s c) (record_committed env lease migration grp target target) (finished migration grp source target False)"
    if "decide_group_recovery (Some EventCommitOutcomeUnknown) (exact_observation s source target)
        (state_managed_semantic_schema source) (state_managed_semantic_schema target) = RepairCheckpoint"
  proof -
    have "s = target \<and> c = Suc 0" using decide_repair [OF that] sc by auto
    then show ?thesis using record_committed_triple [OF U, of source target lease migration grp target] by simp
  qed
  show "view migration grp ?T s c w \<and> (\<forall>x. None = Some (Inr x) \<longrightarrow> x = s) \<Longrightarrow> finished migration grp source target False None w" for w
    by (auto intro: fin)
  show "triple (\<lambda>w. view migration grp ?T s c w \<and> (\<forall>x. Some r = Some (Inr x) \<longrightarrow> x = s))
      (case r of
         Inl e' \<Rightarrow> return_io (Inr (GroupStopped (explicit_recovery migration grp e')))
       | Inr after \<Rightarrow>
           (case decide_group_recovery (Some EventCommitOutcomeUnknown) (exact_observation after source target)
               (state_managed_semantic_schema source) (state_managed_semantic_schema target) of
              ExecuteNormally \<Rightarrow> return_io (Inr (GroupStopped (retry_safe migration grp e)))
            | RequiresExplicitRecovery \<Rightarrow> return_io (Inr (GroupStopped (explicit_recovery migration grp e)))
            | RepairCheckpoint \<Rightarrow> record_committed env lease migration grp target target))
      (finished migration grp source target False)"
  proof (cases r)
    case (Inl d)
    then show ?thesis by (auto intro!: triple_return fin)
  next
    case (Inr x)
    show ?thesis
    proof (cases "x = s")
      case True
      then show ?thesis using Inr
        by (auto split: recovery_decision.split intro!: triple_return fin intro: triple_weaken [OF repair])
    next
      case False
      then show ?thesis using Inr by (simp add: triple_def)
    qed
  qed
qed

lemma commit_failed_triple:
  assumes U: "accepted_trail False U" and last: "last_opt U = Some (EventBeforeCommit, lease_fence lease)"
    and sc: "s = source \<and> c = 0 \<or> certainty = UnknownOutcome \<and> s = target \<and> c = Suc 0"
  shows "triple (\<lambda>w. view migration grp U s c w) (commit_failed env lease migration grp source target (certainty, e))
      (finished migration grp source target False)"
proof -
  let ?U' = "U @ [(journal_event certainty, lease_fence lease)]"
  have next_ok: "accepted_trail False ?U'" using U last by (cases certainty) (auto simp: accepted_snoc)
  have before_live: "trail_live source target (trail_kind U) s c" using last sc by (auto simp: trail_kind_def)
  have after_live: "trail_live source target (trail_kind ?U') s c" using sc by (cases certainty) auto
  have fin: "view migration grp U s c w \<or> view migration grp ?U' s c w \<Longrightarrow> (\<And>ob. r' \<noteq> Some (Inr (GroupDone ob))) \<Longrightarrow>
      finished migration grp source target False r' w" for r' w
    using finished_view [OF _ U before_live] finished_view [OF _ next_ok after_live] by blast
  show ?thesis
    unfolding commit_failed_def prod.case
  proof (rule record_view_triple)
    show "triple (\<lambda>w. view migration grp ?U' s c w) (if certainty = DefinitelyAborted then return_io (Inr (GroupStopped (retry_safe migration grp e)))
        else bind_io (env_observe env lease source target) (\<lambda>r.
          case r of
            Inl e' \<Rightarrow> return_io (Inr (GroupStopped (explicit_recovery migration grp e')))
          | Inr after \<Rightarrow>
              (case decide_group_recovery (Some EventCommitOutcomeUnknown) (exact_observation after source target)
                  (state_managed_semantic_schema source) (state_managed_semantic_schema target) of
                 ExecuteNormally \<Rightarrow> return_io (Inr (GroupStopped (retry_safe migration grp e)))
               | RepairCheckpoint \<Rightarrow> record_committed env lease migration grp target target
               | RequiresExplicitRecovery \<Rightarrow> return_io (Inr (GroupStopped (explicit_recovery migration grp e))))))
        (finished migration grp source target False)"
      using unknown_outcome_triple [of U lease s source c target] next_ok sc
      by (cases certainty) (auto intro!: triple_return fin)
  qed (auto intro!: triple_return fin)
qed

lemma rollback_triple:
  assumes "\<And>w. P w \<Longrightarrow> (view migration grp T s c w \<or> view migration grp T' s c w)"
    and "\<And>r w. view migration grp T s c w \<or> view migration grp T' s c w \<Longrightarrow> (\<And>x. r \<noteq> Some (Inr x)) \<Longrightarrow> Q r w"
  shows "triple P (rollback_prepared_group_error env e) Q"
  unfolding rollback_prepared_group_error_def
proof (rule triple_bind [where R = "\<lambda>_ w. view migration grp T s c w \<or> view migration grp T' s c w"])
  show "triple P (env_rollback env) (\<lambda>_ w. view migration grp T s c w \<or> view migration grp T' s c w)"
    by (rule tripleI) (use assms(1) in \<open>fastforce simp: group_view_def dest: rollback_quiet\<close>)
qed (auto intro!: triple_return assms(2))

lemma commit_triple:
  assumes U: "accepted_trail False (T @ [(EventBeforeCommit, lease_fence lease)])"
  shows "triple (\<lambda>w. view migration grp (T @ [(EventBeforeCommit, lease_fence lease)]) source 0 w \<and> prepared w = Some target)
      (bind_io (env_commit env lease) (\<lambda>r.
         case r of
           Inr _ \<Rightarrow> commit_succeeded env lease migration grp source target
         | Inl failed \<Rightarrow> commit_failed env lease migration grp source target failed))
      (finished migration grp source target False)"
proof (rule triple_bind)
  let ?U = "T @ [(EventBeforeCommit, lease_fence lease)]"
  let ?R = "\<lambda>r w. (view migration grp ?U source 0 w \<and> r \<noteq> Some (Inr ()))
      \<or> (view migration grp ?U target (Suc 0) w \<and> (\<forall>d. r \<noteq> Some (Inl (DefinitelyAborted, d))))"
  show "triple (\<lambda>w. view migration grp ?U source 0 w \<and> prepared w = Some target) (env_commit env lease) ?R"
    by (rule tripleI) (auto simp: group_view_def dest!: commit_once)
  show "?R None w \<Longrightarrow> finished migration grp source target False None w" for w
    by (elim disjE conjE; rule finished_view, assumption, rule U) auto
  fix r :: "commit_failure + unit"
  show "triple (?R (Some r)) (case r of Inr _ \<Rightarrow> commit_succeeded env lease migration grp source target
      | Inl failed \<Rightarrow> commit_failed env lease migration grp source target failed) (finished migration grp source target False)"
  proof (cases r)
    case (Inl failed)
    obtain certainty d where f: "failed = (certainty, d)" by force
    have step: "triple (view migration grp ?U s c) (commit_failed env lease migration grp source target failed) (finished migration grp source target False)"
      if "s = source \<and> c = 0 \<or> certainty = UnknownOutcome \<and> s = target \<and> c = Suc 0" for s c
      unfolding f by (rule commit_failed_triple) (use U that in auto)
    show ?thesis unfolding Inl sum.case
      by (cases certainty) (use step [of source 0] step [of target "Suc 0"] f in \<open>auto simp: triple_def\<close>)
  next
    case (Inr u)
    then show ?thesis using commit_succeeded_triple [OF U] by (auto intro: triple_weaken)
  qed
qed

lemma run_transaction_triple:
  assumes T: "accepted_trail False T" "trail_live source target (trail_kind T) source 0"
    and ok: "valid_transition (last_opt T) (EventBeforeCommit, lease_fence lease)"
  shows "triple (\<lambda>w. view migration grp T source 0 w) (run_transaction env lease migration grp source target lowering)
      (finished migration grp source target False)"
proof -
  let ?U = "T @ [(EventBeforeCommit, lease_fence lease)]"
  let ?V = "\<lambda>w. view migration grp T source 0 w"
  let ?fin = "finished migration grp source target False"
  have U: "accepted_trail False ?U" using T ok by (simp add: accepted_snoc)
  have fin: "?fin r w" if "?V w \<or> view migration grp ?U source 0 w" "\<And>x. r \<noteq> Some (Inr x)" for r w
    using that by (elim disjE) (rule finished_view, assumption, rule T U, use T in auto)+
  have boundary: "triple (\<lambda>w. ?V w \<and> prepared w = Some target) (record_event env lease migration grp EventBeforeCommit None
         (rollback_prepared_group_error env)
         (bind_io (env_commit env lease) (\<lambda>r.
            case r of
              Inr _ \<Rightarrow> commit_succeeded env lease migration grp source target
            | Inl failed \<Rightarrow> commit_failed env lease migration grp source target failed))) ?fin"
    by (rule record_event_triple) (auto intro: rollback_triple fin commit_triple [OF U])
  have prepare: "triple ?V (await_interruptible env (env_prepare env lease source target)) (\<lambda>r w. ?V w \<and> (r = Some (Inr ()) \<longrightarrow> prepared w = Some target))"
  proof -
    have "triple (\<lambda>w. ?V w \<and> prepared w = p) (await_interruptible env (env_prepare env lease source target))
        (\<lambda>r w. ?V w \<and> (r = Some (Inr ()) \<longrightarrow> prepared w = Some target))" for p
      by (rule await_triple) (auto intro!: tripleI simp: group_view_def dest: prepare_binds)
    then show ?thesis by (rule triple_any)
  qed
  have stop: "?fin r w" if "?V w" "\<And>x. r \<noteq> Some (Inr x)" for r w by (rule fin) (use that in auto)
  have units: "triple (\<lambda>w. ?V w \<and> prepared w = Some target)
      (try_io (run_units env (lowering_units lowering)) (\<lambda>_. record_event env lease migration grp EventBeforeCommit None
         (rollback_prepared_group_error env)
         (bind_io (env_commit env lease) (\<lambda>r.
            case r of
              Inr _ \<Rightarrow> commit_succeeded env lease migration grp source target
            | Inl failed \<Rightarrow> commit_failed env lease migration grp source target failed)))) ?fin"
    by (rule triple_try [OF run_units_triple]) (simp_all add: boundary stop)
  show ?thesis
    unfolding run_transaction_def
  proof (rule triple_try [OF prepare], goal_cases)
    case (1 x)
    show ?case by (simp, rule triple_try [OF run_assertions_triple]) (simp_all add: units stop)
  qed (simp_all add: stop)
qed

lemma retry_transition:
  assumes "\<forall>(k, g) \<in> set T. g < f" and "trail_kind T = None \<or> trail_kind T = Some EventDefinitelyAborted
      \<or> trail_kind T = Some EventBeforeCommit \<or> trail_kind T = Some EventCommitOutcomeUnknown"
  shows "valid_transition (last_opt T) (EventBeforeCommit, f)"
  using assms by (cases T rule: rev_cases) (auto simp: trail_kind_def last_opt_def)

lemma formal_trail:
  assumes "accepted_trail True T" and "\<And>k. trail_kind T = Some k \<Longrightarrow> \<not> is_completion_event k"
  shows "T = []"
  using assms by (cases T rule: rev_cases) (auto simp: accepted_snoc)

lemma formal_advance_triple:
  "triple (\<lambda>w. view migration grp [] source 0 w) (record_event env lease migration grp EventFormalOnlyAdvanced None
      (\<lambda>e. return_io (Inr (GroupStopped (retry_safe migration grp e)))) (return_io (Inr (GroupDone (Some target)))))
    (finished migration grp source target True)"
proof -
  have none: "accepted_trail True []" by (simp add: accepted_trail_def validate_commit_transitions_def res_simps)
  then have one: "accepted_trail True ([] @ [(EventFormalOnlyAdvanced, lease_fence lease)])" by (simp only: accepted_snoc) (simp add: last_opt_def)
  have still: "trail_live source target (trail_kind []) source 0" by (simp add: trail_kind_def last_opt_def)
  have advanced: "trail_live source target (trail_kind ([] @ [(EventFormalOnlyAdvanced, lease_fence lease)])) source 0"
    by (simp add: trail_kind_def last_opt_def)
  have fin: "finished migration grp source target True r w"
    if "view migration grp [] source 0 w \<or> view migration grp ([] @ [(EventFormalOnlyAdvanced, lease_fence lease)]) source 0 w"
      "\<And>x. r \<noteq> Some (Inr (GroupDone x))" for r w
    using that finished_view [OF _ none still] finished_view [OF _ one advanced] by blast
  show ?thesis
  proof (rule record_view_triple)
    show "triple (\<lambda>w. view migration grp ([] @ [(EventFormalOnlyAdvanced, lease_fence lease)]) source 0 w)
        (return_io (Inr (GroupDone (Some target)))) (finished migration grp source target True)"
      by (rule triple_return, rule finished_view [OF _ one advanced]) (simp_all add: trail_kind_def last_opt_def)
  qed (auto intro!: triple_return fin)
qed

lemma group_lookup_triple:
  assumes "observed = None \<or> observed = Some s"
  shows "triple (\<lambda>w. view migration grp T s c w)
      (case observed of Some x \<Rightarrow> return_io (Inr x) | None \<Rightarrow> await_interruptible env (env_observe env lease source target))
      (\<lambda>r w. view migration grp T s c w \<and> (\<forall>x. r = Some (Inr x) \<longrightarrow> x = s))"
proof -
  have "triple (\<lambda>w. view migration grp T s c w \<and> prepared w = p) (await_interruptible env (env_observe env lease source target))
      (\<lambda>r w. view migration grp T s c w \<and> (\<forall>x. r = Some (Inr x) \<longrightarrow> x = s))" for p
    by (rule await_triple) (auto intro: triple_weaken [OF observe_triple])
  then have "triple (\<lambda>w. view migration grp T s c w) (await_interruptible env (env_observe env lease source target))
      (\<lambda>r w. view migration grp T s c w \<and> (\<forall>x. r = Some (Inr x) \<longrightarrow> x = s))"
    by (rule triple_any)
  then show ?thesis using assms by (auto intro: triple_return)
qed

lemma group_repair_triple:
  assumes T: "accepted_trail formal T" "trail_live source target (trail_kind T) s c"
    and fresh: "\<forall>(k, f) \<in> set T. f < lease_fence lease" and incomplete: "\<And>k. trail_kind T = Some k \<Longrightarrow> \<not> is_completion_event k"
    and decision: "decide_group_recovery (trail_kind T) (exact_observation s source target) (state_managed_semantic_schema source)
        (state_managed_semantic_schema target) = RepairCheckpoint"
  shows "triple (\<lambda>w. view migration grp T s c w) (record_committed env lease migration grp target target)
      (finished migration grp source target formal)"
proof -
  have d: "s = target" "s \<noteq> source" "trail_kind T = Some EventBeforeCommit \<or> trail_kind T = Some EventCommitOutcomeUnknown"
    using decide_repair [OF decision incomplete] by auto
  then have c: "c = Suc 0" "T \<noteq> []" using T(2) by (auto simp: trail_kind_def last_opt_def)
  then obtain T0 k f where snoc: "T = T0 @ [(k, f)]" by (metis rev_exhaust surj_pair)
  then have not_formal: "formal = False" using T(1) d(3) by (auto simp: accepted_snoc)
  have "valid_transition (last_opt T) (EventCommitted, lease_fence lease)" using snoc d(3) fresh by auto
  then show ?thesis using record_committed_triple [of T source target lease migration grp target] T d(1) c not_formal by simp
qed

lemma execute_group_triple:
  assumes evidence: "group_evidence migration grp = Inr (source, target, lowering)"
    and T: "accepted_trail (formal_only grp source target lowering) T" "trail_live source target (trail_kind T) s c"
    and fresh: "\<forall>(k, f) \<in> set T. f < lease_fence lease" and observed: "observed = None \<or> observed = Some s"
  shows "triple (\<lambda>w. view migration grp T s c w) (execute_group env lease migration (trail_kind T) grp observed)
      (finished migration grp source target (formal_only grp source target lowering))"
proof (cases "\<exists>k. trail_kind T = Some k \<and> is_completion_event k")
  case True
  then show ?thesis by (auto simp: execute_group_def intro!: triple_return finished_view [OF _ T])
next
  case False
  let ?fin = "finished migration grp source target (formal_only grp source target lowering)"
  let ?V = "\<lambda>w. view migration grp T s c w"
  let ?decision = "decide_group_recovery (trail_kind T) (exact_observation s source target) (state_managed_semantic_schema source) (state_managed_semantic_schema target)"
  have fin: "?fin r w" if "?V w" "\<And>x. r \<noteq> Some (Inr (GroupDone x))" for r w
    using that(1) by (rule finished_view [OF _ T]) (use that(2) in auto)
  have repair: "triple ?V (record_committed env lease migration grp target target) ?fin" if "?decision = RepairCheckpoint"
    by (rule group_repair_triple [OF T fresh _ that]) (use False in auto)
  have execute: "s = source \<and> c = 0 \<and> valid_transition (last_opt T) (EventBeforeCommit, lease_fence lease)" if "?decision = ExecuteNormally"
    using decide_execute [OF that] T(2) retry_transition [OF fresh] by auto
  have normal: "triple ?V (if formal_only grp source target lowering then record_event env lease migration grp EventFormalOnlyAdvanced None
        (\<lambda>e. return_io (Inr (GroupStopped (retry_safe migration grp e)))) (return_io (Inr (GroupDone (Some target))))
      else run_transaction env lease migration grp source target lowering) ?fin" if "?decision = ExecuteNormally"
    using execute [OF that] formal_trail [of T] False T formal_advance_triple [of migration grp source lease target]
      run_transaction_triple [of T source target lease migration grp lowering] by auto
  have body: "triple ?V (case ?decision of
      RequiresExplicitRecovery \<Rightarrow>
        return_io (Inr (GroupStopped (explicit_recovery migration grp (execution_failure ''migration_execution_ambiguous_group_state''))))
    | RepairCheckpoint \<Rightarrow> record_committed env lease migration grp target target
    | ExecuteNormally \<Rightarrow>
        if formal_only grp source target lowering then record_event env lease migration grp EventFormalOnlyAdvanced None
          (\<lambda>e. return_io (Inr (GroupStopped (retry_safe migration grp e)))) (return_io (Inr (GroupDone (Some target))))
        else run_transaction env lease migration grp source target lowering) ?fin"
    using repair normal by (cases ?decision) (auto intro!: triple_return fin)
  have start: "(case trail_kind T of Some kind \<Rightarrow> is_completion_event kind | None \<Rightarrow> False) = False" using False by (auto split: option.split)
  show ?thesis
    unfolding execute_group_def start if_False evidence formal_only_def [symmetric]
    by (rule triple_try_lift, unfold prod.case, rule triple_look [OF group_lookup_triple [OF observed]], rule body) (auto intro: fin)
qed

end

section \<open>Sequences of attempts\<close>

text \<open>
  Attempts at one group, in any number and however each of them ends. An attempt runs under a fence
  greater than that of every stored event of the group, reads the last stored event as
  \<open>last_group_event\<close> does, and either observes the live state itself or inherits it from the step before.
  Between attempts anything may happen that touches neither the live state, the events of the group nor
  the commits.
\<close>

inductive group_attempts :: "'w execution_env \<Rightarrow> ('w \<Rightarrow> managed_schema_state) \<Rightarrow> ('w \<Rightarrow> string \<Rightarrow> group_event_record list) \<Rightarrow> ('w \<Rightarrow> nat) \<Rightarrow>
    apply_manifest \<Rightarrow> transaction_group \<Rightarrow> 'w \<Rightarrow> 'w \<Rightarrow> bool"
  for env live journal commits migration grp w0 where
  untouched: "group_attempts env live journal commits migration grp w0 w0"
| elsewhere: "group_attempts env live journal commits migration grp w0 w \<Longrightarrow>
    live w' = live w \<Longrightarrow> commits w' = commits w \<Longrightarrow>
    group_trail migration grp (journal w' (apply_scope migration)) = group_trail migration grp (journal w (apply_scope migration)) \<Longrightarrow>
    group_attempts env live journal commits migration grp w0 w'"
| attempt: "group_attempts env live journal commits migration grp w0 w \<Longrightarrow>
    \<forall>(kind, fence) \<in> set (group_trail migration grp (journal w (apply_scope migration))). fence < lease_fence lease \<Longrightarrow>
    observed = None \<or> observed = Some (live w) \<Longrightarrow>
    execute_group env lease migration (trail_kind (group_trail migration grp (journal w (apply_scope migration)))) grp observed w = (r, w') \<Longrightarrow>
    group_attempts env live journal commits migration grp w0 w'"

lemma last_group_event_trail:
  "last_group_event plan migration grp = trail_kind (group_trail migration grp (map entry_record (open_plan_events plan)))"
proof -
  have "event_of_group migration grp = (\<lambda>e. group_event_digest e = apply_digest migration \<and> group_event_ordinal e = group_ordinal grp)"
    by (simp add: event_of_group_def fun_eq_iff)
  then show ?thesis by (simp add: last_group_event_def trail_kind_def group_trail_def group_events_def last_opt_def last_map)
qed

lemma attempts_invariant:
  assumes world: "execution_world env live journal prepared commits"
    and evidence: "group_evidence migration grp = Inr (source, target, lowering)"
    and attempts: "group_attempts env live journal commits migration grp w0 w"
    and start: "group_invariant live journal commits migration grp source target (formal_only grp source target lowering) w0"
  shows "group_invariant live journal commits migration grp source target (formal_only grp source target lowering) w"
  using attempts
proof (induction rule: group_attempts.induct)
  case (attempt w lease observed r w')
  let ?T = "group_trail migration grp (journal w (apply_scope migration))"
  have T: "accepted_trail (formal_only grp source target lowering) ?T" "trail_live source target (trail_kind ?T) (live w) (commits w)"
    using attempt.IH by (simp_all add: group_invariant_def Let_def)
  have "group_view live journal commits migration grp ?T (live w) (commits w) w" by (simp add: group_view_def)
  from tripleD [OF execution_world.execute_group_triple [OF world evidence T attempt.hyps(2,3)] this attempt.hyps(4)]
  show ?case by (simp add: group_finished_def)
qed (use start in \<open>simp_all add: group_invariant_def Let_def\<close>)

lemma group_invariant_start:
  assumes "live w = source" and "commits w = 0" and "group_trail migration grp (journal w (apply_scope migration)) = []"
  shows "group_invariant live journal commits migration grp source target formal w"
  using assms by (simp add: group_invariant_def accepted_trail_def validate_commit_transitions_def trail_kind_def last_opt_def res_simps)

lemma group_invariant_outcome:
  assumes "group_invariant live journal commits migration grp source target (formal_only grp source target lowering) w"
  shows "(live w = source \<and> commits w = 0 \<or> live w = target \<and> commits w = 1)
     \<and> validate_commit_transitions (group_trail migration grp (journal w (apply_scope migration))) = Inr ()
     \<and> (\<forall>kind. trail_kind (group_trail migration grp (journal w (apply_scope migration))) = Some kind \<and> is_completion_event kind \<longrightarrow>
          state_managed_semantic_schema (live w) = state_managed_semantic_schema target)"
proof -
  let ?T = "group_trail migration grp (journal w (apply_scope migration))"
  from assms
  have T: "accepted_trail (formal_only grp source target lowering) ?T" and live: "trail_live source target (trail_kind ?T) (live w) (commits w)"
    by (simp_all add: group_invariant_def Let_def)
  have state: "live w = source \<and> commits w = 0 \<or> live w = target \<and> commits w = 1"
    using live by (auto simp: trail_live_def split: option.splits journal_event_kind.splits)
  have "state_managed_semantic_schema (live w) = state_managed_semantic_schema target"
    if "trail_kind ?T = Some kind" "is_completion_event kind" for kind
  proof (cases kind)
    case EventFormalOnlyAdvanced
    from that(1) obtain T0 f where "?T = T0 @ [(kind, f)]" by (cases ?T rule: rev_cases) (auto simp: trail_kind_def last_opt_def)
    with T EventFormalOnlyAdvanced have "formal_only grp source target lowering" by (simp add: accepted_snoc)
    then show ?thesis using live that EventFormalOnlyAdvanced by (simp add: formal_only_def)
  qed (use live that in auto)
  with state T show ?thesis by (auto simp: accepted_trail_def)
qed

text \<open>
  C2. However many attempts at a group are made under increasing fences, and wherever each of them fails
  or dies, the group commits at most once, the database holds its source state before that commit and its
  target state after it, the stored events form a sequence the coordinator accepts when it resumes, and a
  stored completion event means that the live schema has the target semantics.
\<close>

theorem group_commit_once:
  assumes "execution_world env live journal prepared commits"
    and "group_evidence migration grp = Inr (source, target, lowering)"
    and "live w0 = source" and "commits w0 = 0" and "group_trail migration grp (journal w0 (apply_scope migration)) = []"
    and "group_attempts env live journal commits migration grp w0 w"
  shows "(live w = source \<and> commits w = 0 \<or> live w = target \<and> commits w = 1)
     \<and> validate_commit_transitions (group_trail migration grp (journal w (apply_scope migration))) = Inr ()
     \<and> (\<forall>kind. trail_kind (group_trail migration grp (journal w (apply_scope migration))) = Some kind \<and> is_completion_event kind \<longrightarrow>
          state_managed_semantic_schema (live w) = state_managed_semantic_schema target)"
  using group_invariant_outcome [OF attempts_invariant [OF assms(1,2,6) group_invariant_start [of live w0 source commits migration grp journal target, OF assms(3-5)]]] .

end
