(* ===== verification/Reference_World.thy ===== *)
theory Reference_World
  imports Crash_Safety Memory_Store
begin

text \<open>
  The reference world of the execution tests: the in-memory store together with the provider of
  \<open>schema-migration/tests/common/mod.rs\<close>, which holds one observed schema state, logs every call and
  makes the target of a prepared transaction the observed state when it commits. It satisfies the contract
  of the crash-safety theory. The fingerprint of a backfill plan is a parameter.
\<close>

section \<open>The provider\<close>

record reference_world =
  world_store :: memory_store
  world_observed :: managed_schema_state
  world_calls :: "string list"
  world_transaction :: "managed_schema_state option"

definition provider_call :: "string \<Rightarrow> reference_world \<Rightarrow> reference_world" where
  "provider_call name w = w\<lparr>world_calls := world_calls w @ [name]\<rparr>"

definition observe_managed_state :: "migration_lease \<Rightarrow> managed_schema_state \<Rightarrow> managed_schema_state \<Rightarrow>
    (reference_world, managed_schema_state res) io" where
  "observe_managed_state lease source_candidate target_candidate w = (Some (Inr (world_observed w)), provider_call ''observe'' w)"

definition prepare_group :: "migration_lease \<Rightarrow> managed_schema_state \<Rightarrow> managed_schema_state \<Rightarrow> (reference_world, unit res) io" where
  "prepare_group lease source target w = (Some (Inr ()), (provider_call ''prepare'' w)\<lparr>world_transaction := Some target\<rparr>)"

definition execute_assertion :: "validated_assertion_plan \<Rightarrow> (reference_world, unit res) io" where
  "execute_assertion plan w = (Some (Inr ()), provider_call ''assertion'' w)"

definition execute_statement_unit :: "statement_unit \<Rightarrow> (reference_world, unit res) io" where
  "execute_statement_unit u w = (Some (Inr ()), provider_call ''statement'' w)"

definition transaction_commit :: "migration_lease \<Rightarrow> (reference_world, commit_failure + unit) io" where
  "transaction_commit lease w =
     (case world_transaction w of
        None \<Rightarrow> (None, w)
      | Some target \<Rightarrow> (Some (Inr ()), (provider_call ''commit'' w)\<lparr>world_observed := target, world_transaction := None\<rparr>))"

definition transaction_rollback :: "(reference_world, unit res) io" where
  "transaction_rollback w = (Some (Inr ()), (provider_call ''rollback'' w)\<lparr>world_transaction := None\<rparr>)"

fun observe_call :: "execution_direction \<Rightarrow> string" where
  "observe_call Forward = ''observe-backfill-forward''"
| "observe_call Reverse = ''observe-backfill-reverse''"

fun execute_call :: "execution_direction \<Rightarrow> string" where
  "execute_call Forward = ''execute-backfill-forward''"
| "execute_call Reverse = ''execute-backfill-reverse''"

definition terminal_evidence :: "(attribute_backfill_plan \<Rightarrow> fingerprint res) \<Rightarrow> attribute_backfill_plan \<Rightarrow> execution_direction \<Rightarrow>
    completion_evidence res" where
  "terminal_evidence fp plan direction =
     bind_res (fp plan) (\<lambda>f. bind_res (execution_counts_new 0 0 0 1) (\<lambda>counts.
       Inr \<lparr>evidence_plan_fingerprint = f, evidence_direction = direction, evidence_counts = counts\<rparr>))"

definition observe_backfill :: "(attribute_backfill_plan \<Rightarrow> fingerprint res) \<Rightarrow> migration_lease \<Rightarrow> attribute_backfill_plan \<Rightarrow>
    execution_direction \<Rightarrow> (reference_world, backfill_observation res) io" where
  "observe_backfill fp lease plan direction w =
     (Some (if execute_call direction \<in> set (world_calls w)
            then bind_res (terminal_evidence fp plan direction) (\<lambda>evidence. Inr (BackfillComplete evidence))
            else Inr BackfillIncomplete),
      provider_call (observe_call direction) w)"

definition execute_backfill :: "(attribute_backfill_plan \<Rightarrow> fingerprint res) \<Rightarrow> migration_lease \<Rightarrow> attribute_backfill_plan \<Rightarrow>
    execution_direction \<Rightarrow> (reference_world, commit_failure + completion_evidence) io" where
  "execute_backfill fp lease plan direction w =
     (Some (case terminal_evidence fp plan direction of Inl e \<Rightarrow> Inl (DefinitelyAborted, e) | Inr evidence \<Rightarrow> Inr evidence),
      provider_call (execute_call direction) w)"

section \<open>The environment\<close>

definition with_store :: "(memory_store \<Rightarrow> 'a res \<times> memory_store) \<Rightarrow> (reference_world, 'a res) io" where
  "with_store operation w = (let (r, store) = operation (world_store w) in (Some r, w\<lparr>world_store := store\<rparr>))"

definition acknowledged :: "(memory_store \<Rightarrow> 'a res \<times> memory_store) \<Rightarrow> memory_store \<Rightarrow> unit res \<times> memory_store" where
  "acknowledged operation m = (let (r, m') = operation m in (bind_res r (\<lambda>_. Inr ()), m'))"

definition reference_env :: "capability_set \<Rightarrow> (attribute_backfill_plan \<Rightarrow> fingerprint res) \<Rightarrow> reference_world execution_env" where
  "reference_env available fp =
     \<lparr>env_check = return_io (Inr ()), env_interrupt = return_io None,
      env_acquire = (\<lambda>scope holder. with_store (store_acquire scope holder)),
      env_release = (\<lambda>lease. with_store (store_release lease)),
      env_load_applied = (\<lambda>lease. with_store (store_load_applied lease)),
      env_load_open_plan = (\<lambda>lease. with_store (store_load_open_plan lease)),
      env_begin_plan = (\<lambda>lease r. with_store (acknowledged (store_begin_plan lease r))),
      env_record_group_event = (\<lambda>lease r. with_store (acknowledged (store_record_group_event lease r))),
      env_record_backfill_event = (\<lambda>lease r. with_store (acknowledged (store_record_backfill_event lease r))),
      env_record_applied = (\<lambda>lease r. with_store (acknowledged (store_record_applied lease r))),
      env_begin_rollback_plan = (\<lambda>lease r. with_store (acknowledged (store_begin_rollback_plan lease r))),
      env_record_rollback_event = (\<lambda>lease r. with_store (acknowledged (store_record_rollback_event lease r))),
      env_record_rolled_back = (\<lambda>lease r. with_store (acknowledged (store_record_rolled_back lease r))),
      env_load_rolled_back = (\<lambda>lease. with_store (store_load_rolled_back lease)),
      env_load_open_rollback_plan = (\<lambda>lease. with_store (store_load_open_rollback_plan lease)),
      env_capabilities = available, env_observe = observe_managed_state, env_prepare = prepare_group,
      env_execute_assertion = execute_assertion, env_execute_unit = execute_statement_unit,
      env_commit = transaction_commit, env_rollback = transaction_rollback, env_supports_backfill = True,
      env_observe_backfill = observe_backfill fp, env_execute_backfill = execute_backfill fp\<rparr>"

definition scope_view :: "(scope_state \<Rightarrow> 'e list) \<Rightarrow> reference_world \<Rightarrow> string \<Rightarrow> 'e list" where
  "scope_view view w scope = (case fmlookup (world_store w) scope of None \<Rightarrow> [] | Some state \<Rightarrow> view state)"

definition stored_events :: "reference_world \<Rightarrow> string \<Rightarrow> group_event_record list" where
  "stored_events = scope_view (\<lambda>state. map entry_record (store_events state))"

definition commit_count :: "reference_world \<Rightarrow> nat" where
  "commit_count w = length (filter (\<lambda>call. call = ''commit'') (world_calls w))"

lemmas provider_simps = provider_call_def observe_managed_state_def prepare_group_def execute_assertion_def execute_statement_unit_def
  transaction_commit_def transaction_rollback_def return_io_def

lemma scope_view_same:
  "world_store w' = world_store w \<Longrightarrow> scope_view view w' = scope_view view w"
  by (simp add: scope_view_def fun_eq_iff)

lemma scope_view_update:
  "fmlookup (world_store w) scope = Some s \<Longrightarrow>
    scope_view view (w\<lparr>world_store := fmupd scope s' (world_store w)\<rparr>) = (scope_view view w)(scope := view s')"
  by (simp add: scope_view_def fun_eq_iff)

lemma bound_record_cases:
  assumes "bound_record lease scope fence operation m = (r, m')"
  obtains (failed) e where "r = Inl e" "m' = m"
  | (ran) s s' where "fmlookup m scope = Some s" "operation s = (r, s')" "m' = fmupd scope s' m"
proof (cases "fmlookup m (lease_scope lease)")
  case None
  then have "r = Inl stale_fence" "m' = m" using assms by (simp_all add: bound_record_def under_lease_def)
  then show ?thesis by (rule failed)
next
  case (Some s)
  obtain q s' where step: "operation s = (q, s')" by force
  show ?thesis
  proof (cases "active_lease s = Some lease \<and> scope = lease_scope lease \<and> fence = lease_fence lease")
    case True
    then have "(q, fmupd scope s' m) = (r, m')" using assms Some step by (simp add: bound_record_def under_lease_def check_lease_def)
    then show ?thesis using Some True step by (intro ran [of s s']) simp_all
  next
    case False
    have "fmupd (lease_scope lease) s m = m" using Some by (intro fmap_ext) auto
    then have "(Inl stale_fence, m) = (r, m')" using False assms Some by (simp add: bound_record_def under_lease_def check_lease_def split: if_splits)
    then show ?thesis by (intro failed [of stale_fence]) simp_all
  qed
qed

lemma scope_view_records:
  assumes "with_store (acknowledged (bound_record lease scope fence operation)) w = (r, w')"
    and appends: "\<And>s q s'. operation s = (q, s') \<Longrightarrow> (case q of Inl _ \<Rightarrow> view s' = view s | Inr _ \<Rightarrow> view s' = view s @ [e])"
  shows "scope_view view w' = (scope_view view w)(scope := scope_view view w scope @ [e])
    \<or> scope_view view w' = scope_view view w \<and> r \<noteq> Some (Inr ())"
proof -
  obtain q m' where step: "bound_record lease scope fence operation (world_store w) = (q, m')" by force
  with assms(1) have r: "r = Some (bind_res q (\<lambda>_. Inr ()))" and w': "w' = w\<lparr>world_store := m'\<rparr>"
    by (auto simp: with_store_def acknowledged_def)
  from step show ?thesis
  proof (cases rule: bound_record_cases)
    case (failed d)
    then have "scope_view view w' = scope_view view w" by (intro scope_view_same) (simp add: w')
    then show ?thesis using failed by (simp add: r bind_res_def)
  next
    case (ran s s')
    then have "scope_view view w' = (scope_view view w)(scope := view s')" and "view s = scope_view view w scope"
      by (simp_all add: w' scope_view_update, simp add: scope_view_def)
    then show ?thesis using appends [OF ran(2)] by (cases q) (auto simp: r bind_res_def)
  qed
qed

lemma stored_events_record:
  assumes "with_store (acknowledged (store_record_group_event lease e)) w = (r, w')"
  shows "stored_events w' = (stored_events w)(group_event_scope e := stored_events w (group_event_scope e) @ [e])
    \<or> stored_events w' = stored_events w \<and> r \<noteq> Some (Inr ())"
  unfolding stored_events_def
  by (rule scope_view_records [OF assms [unfolded store_record_group_event_def]])
    (auto simp: take_sequence_def sequence_new_def split: option.splits if_splits sum.splits)

interpretation reference: execution_world "reference_env available fp" world_observed stored_events world_transaction commit_count
proof
  fix w r w' lease e
  assume "env_record_group_event (reference_env available fp) lease e w = (r, w')"
  then have step: "with_store (acknowledged (store_record_group_event lease e)) w = (r, w')" by (simp add: reference_env_def)
  then have "world_observed w' = world_observed w" "world_transaction w' = world_transaction w" "commit_count w' = commit_count w"
    by (auto simp: with_store_def acknowledged_def commit_count_def split: prod.splits)
  with stored_events_record [OF step]
  show "world_observed w' = world_observed w \<and> world_transaction w' = world_transaction w \<and> commit_count w' = commit_count w
    \<and> (stored_events w' = (stored_events w)(group_event_scope e := stored_events w (group_event_scope e) @ [e])
       \<or> stored_events w' = stored_events w \<and> r \<noteq> Some (Inr ()))" by blast
qed (auto simp: reference_env_def provider_simps stored_events_def scope_view_def commit_count_def fun_eq_iff split: option.splits)

section \<open>An example\<close>

definition example_delta_step :: "managed_schema_state \<Rightarrow> managed_schema_state \<Rightarrow> migration_step" where
  "example_delta_step source target = StepSchemaDelta
     \<lparr>delta_step_contract = \<lparr>delta_step_fingerprint = ''d'', delta_step_id = ''step'', delta_step_recovery = OperatorRequired,
        delta_step_capabilities = {||}, delta_step_retry = RetryNever, delta_step_reverse = None,
        delta_step_source_semantics = state_managed_semantic_schema source, delta_step_target_semantics = state_managed_semantic_schema target\<rparr>,
      delta_step_delta = \<lparr>delta_format = 1, delta_operations = [Define [FactType (TypeId Entity ''person'')]],
        delta_required_capabilities = {||}, delta_source = source, delta_target = target\<rparr>,
      delta_step_kind = KindSchemaDelta\<rparr>"

definition example_lowering :: "managed_schema_state \<Rightarrow> managed_schema_state \<Rightarrow> schema_lowering_plan" where
  "example_lowering source target =
     \<lparr>lowering_delta = \<lparr>delta_format = 1, delta_operations = [Define [FactType (TypeId Entity ''person'')]],
        delta_required_capabilities = {||}, delta_source = source, delta_target = target\<rparr>,
      lowering_profile = ''typedb-3.12.1/v1'', lowering_fingerprint = ''l'',
      lowering_units = [\<lparr>unit_operation_index = 0, unit_operation_kind = StatementDefine, unit_safety = Additive, unit_atomic = True,
        unit_affected_ids = [], unit_required_capabilities = {||},
        unit_statements = [\<lparr>statement_verb = VerbDefine, statement_query = ''define entity person;''\<rparr>]\<rparr>]\<rparr>"

definition example_apply_manifest :: apply_manifest where
  "example_apply_manifest =
     (let source = example_state ''before'' {||}; target = example_state ''after'' {||} in
      \<lparr>apply_digest = ''m1'', apply_manifest_of = example_manifest ''m1'' [],
       apply_steps = [ApplySchemaDelta (example_delta_step source target) (example_lowering source target)],
       apply_groups = [\<lparr>group_ordinal = 0, group_first_step_index = 0, group_delta_step_index = 0\<rparr>], apply_backfill_indices = []\<rparr>)"

definition example_group :: transaction_group where
  "example_group = \<lparr>group_ordinal = 0, group_first_step_index = 0, group_delta_step_index = 0\<rparr>"

definition example_open_plan :: plan_record where
  "example_open_plan = \<lparr>plan_record_scope = ''main'', plan_record_fence = 1, plan_record_source_applied = [], plan_record_source_frontier = [],
     plan_record_target_frontier = [MigrationId ''app'' ''m1''], plan_record_ids = [MigrationId ''app'' ''m1''],
     plan_record_digests = [''m1''], plan_record_plan_fingerprints = [''m1''], plan_record_source_declared = ''before'',
     plan_record_target_declared = ''after'', plan_record_source_semantics = ''before'', plan_record_target_semantics = ''after'',
     plan_record_semantic_profile = ''p'', plan_record_lowering_profile = ''p'', plan_record_live_source = ''before''\<rparr>"

definition example_world :: reference_world where
  "example_world =
     \<lparr>world_store = snd (store_begin_plan (lease_new ''main'' ''holder'' 1) example_open_plan (snd (store_acquire ''main'' ''holder'' fmempty))),
      world_observed = example_state ''before'' {||}, world_calls = [], world_transaction = None\<rparr>"

definition example_attempt :: "(group_progress res) option \<times> reference_world" where
  "example_attempt = execute_group (reference_env {||} (\<lambda>_. Inr ''b'')) (lease_new ''main'' ''holder'' 1) example_apply_manifest None example_group None example_world"

lemma example_attempt_commits: "commit_count (snd example_attempt) = 1"
  by code_simp

lemma example_world_fresh: "stored_events example_world ''main'' = []"
  by code_simp

theorem group_commit_once_witness:
  "group_attempts (reference_env {||} (\<lambda>_. Inr ''b'')) world_observed stored_events commit_count example_apply_manifest example_group
     example_world (snd example_attempt) \<and> world_observed (snd example_attempt) = example_state ''after'' {||}"
proof -
  let ?env = "reference_env {||} (\<lambda>_. Inr ''b'')"
  let ?source = "example_state ''before'' {||}" and ?target = "example_state ''after'' {||}"
  have scope: "apply_scope example_apply_manifest = ''main''"
    by (simp add: apply_scope_def example_apply_manifest_def example_manifest_def example_state_def Let_def)
  have evidence: "group_evidence example_apply_manifest example_group = Inr (?source, ?target, example_lowering ?source ?target)"
    by (simp add: group_evidence_def group_delta_def example_group_def example_apply_manifest_def nth_opt_def example_delta_step_def Let_def ok_or_def res_simps)
  have trail: "group_trail example_apply_manifest example_group (stored_events example_world (apply_scope example_apply_manifest)) = []"
    by (simp add: scope example_world_fresh group_trail_def)
  obtain r where run: "execute_group ?env (lease_new ''main'' ''holder'' 1) example_apply_manifest None example_group None example_world = (r, snd example_attempt)"
    by (metis example_attempt_def prod.collapse)
  have attempts: "group_attempts ?env world_observed stored_events commit_count example_apply_manifest example_group example_world (snd example_attempt)"
    by (rule group_attempts.attempt [OF group_attempts.untouched])
      (use run in \<open>simp_all add: trail trail_kind_def last_opt_def\<close>)
  have start: "world_observed example_world = ?source" "commit_count example_world = 0" by (simp_all add: example_world_def commit_count_def)
  from group_commit_once [OF reference.execution_world_axioms evidence start trail attempts] attempts example_attempt_commits
  show ?thesis by simp
qed

definition example_steps :: "apply_step list" where
  "example_steps =
     (let s0 = example_state ''before'' {||}; s1 = example_state ''between'' {||}; s2 = example_state ''after'' {||} in
      [ApplySchemaDelta (example_delta_step s0 s1) (example_lowering s0 s1), ApplySchemaDelta (example_delta_step s1 s2) (example_lowering s1 s2)])"

theorem partition_groups_exact_witness:
  "\<exists>groups. partition_transaction_groups \<lparr>delta_digest = (\<lambda>_. Inr ''d''), assertion_digest = (\<lambda>_. Inr ''a''), backfill_digest = (\<lambda>_. Inr ''b'')\<rparr>
       (\<lambda>_. Inr []) example_steps = Inr groups \<and> concat (map group_range groups) = [0, 1]"
proof -
  let ?digests = "\<lparr>delta_digest = (\<lambda>_. Inr ''d''), assertion_digest = (\<lambda>_. Inr ''a''), backfill_digest = (\<lambda>_. Inr ''b'')\<rparr>"
  obtain groups where groups: "partition_transaction_groups ?digests (\<lambda>_. Inr []) example_steps = Inr groups"
    by (simp add: partition_transaction_groups_def example_steps_def partition_step_def example_delta_step_def bind_res_def ok_or_def Let_def
        upt_conv_Cons)
  have "filter (\<lambda>i. \<not> is_backfill_step (example_steps ! i)) [0..<length example_steps] = [0, 1]"
    by (simp add: example_steps_def is_backfill_step_def Let_def upt_conv_Cons)
  with partition_groups_exact [OF groups] groups show ?thesis by auto
qed

end
