(* ===== verification/Group_Run.thy ===== *)
theory Group_Run
  imports Reference_World
begin

text \<open>
  A transaction group that meets no failure. A contract describes an environment whose provider is that of
  the reference world and whose journal accepts every event of a group while a budget of records lasts;
  under it a fresh group runs to its end and leaves its target semantics live. Both directions of the
  coordinator meet this contract, the rollback direction through the mirrored environment.
\<close>

section \<open>Running effects\<close>

lemma io_run:
  "m w = (Some x, w') \<Longrightarrow> bind_io m f w = f x w'"
  "k w = (Some (Inr y), w') \<Longrightarrow> try_io k g w = g y w'"
  "try_io (lift_res (Inr z)) g w = g z w"
  by (simp_all add: bind_io_def try_io_def lift_res_def return_io_def)

definition world_keeps :: "reference_world \<Rightarrow> reference_world \<Rightarrow> bool" where
  "world_keeps w w' \<longleftrightarrow> world_store w' = world_store w \<and> world_observed w' = world_observed w \<and> world_transaction w' = world_transaction w"

section \<open>Ready groups\<close>

definition group_ready :: "string \<Rightarrow> apply_manifest \<Rightarrow> transaction_group \<Rightarrow> bool" where
  "group_ready scope m grp \<longleftrightarrow> nth_opt (apply_groups m) (group_ordinal grp) = Some grp
     \<and> position (group_ordinal grp) = Inr (group_ordinal grp) \<and> position (group_first_step_index grp) = Inr (group_first_step_index grp)
     \<and> position (group_delta_step_index grp) = Inr (group_delta_step_index grp) \<and> position (end_step_index grp) = Inr (end_step_index grp)
     \<and> binding_scope_id (manifest_managed_scope (apply_manifest_of m)) = scope
     \<and> list_all (\<lambda>step. validated_assertion step \<noteq> None) (take (assertion_count grp) (drop (group_first_step_index grp) (apply_steps m)))"

lemma group_event_ready:
  assumes "group_ready (lease_scope lease) m grp" and "group_delta m grp code = Inr (delta, lowering)"
    and "check_group_evidence grp delta lowering kind observed = Inr ()"
  shows "\<exists>e. group_event_new lease m grp kind observed = Inr e \<and> group_event_scope e = lease_scope lease
    \<and> group_event_fence e = lease_fence lease \<and> group_event_digest e = apply_digest m"
proof -
  have "group_delta m grp ''migration_execution_group_position_mismatch'' = Inr (delta, lowering)"
    using assms(2) by (auto simp: group_delta_def ok_or_def res_simps split: option.splits)
  then show ?thesis using assms(1,3) by (simp add: group_event_new_def group_ready_def Let_def res_simps)
qed

lemma group_evidence_delta:
  assumes "group_evidence m grp = Inr (source, target, lowering)"
  obtains delta where "group_delta m grp ''migration_execution_group_step_kind_mismatch'' = Inr (delta, lowering)"
    "delta_source delta = source" "delta_target delta = target"
  using assms by (auto simp: group_evidence_def res_simps)

lemma decide_fresh:
  "decide_group_recovery None (exact_observation source source target) (state_managed_semantic_schema source)
     (state_managed_semantic_schema target) = ExecuteNormally"
  by (simp add: decide_group_recovery_def exact_observation_def observed_relation_of_def)

lemma execute_group_fresh:
  assumes "group_evidence m grp = Inr (source, target, lowering)"
  shows "execute_group env lease m None grp (Some source) w =
    (if formal_only grp source target lowering
     then record_event env lease m grp EventFormalOnlyAdvanced None
       (\<lambda>e. return_io (Inr (GroupStopped (retry_safe m grp e)))) (return_io (Inr (GroupDone (Some target)))) w
     else run_transaction env lease m grp source target lowering w)"
  unfolding execute_group_def assms formal_only_def by (simp add: io_run decide_fresh return_io_def del: split_paired_All)

section \<open>The contract\<close>

locale reliable_world =
  fixes env :: "reference_world execution_env" and lease :: migration_lease and digests :: "fingerprint list"
    and recordable :: "group_event_record \<Rightarrow> bool" and budget :: "nat \<Rightarrow> reference_world \<Rightarrow> bool"
  assumes quiet: "env_check env = return_io (Inr ())" "env_interrupt env = return_io None"
    and provider: "env_observe env = observe_managed_state" "env_prepare env = prepare_group" "env_execute_assertion env = execute_assertion"
      "env_execute_unit env = execute_statement_unit" "env_commit env = transaction_commit"
    and budget_mono: "budget b w \<Longrightarrow> c \<le> b \<Longrightarrow> budget c w"
    and budget_store: "budget b w \<Longrightarrow> world_store w' = world_store w \<Longrightarrow> budget b w'"
    and records: "budget (Suc b) w \<Longrightarrow> group_event_scope e = lease_scope lease \<Longrightarrow> group_event_fence e = lease_fence lease \<Longrightarrow>
      group_event_digest e \<in> set digests \<Longrightarrow> recordable e \<Longrightarrow>
      \<exists>w'. env_record_group_event env lease e w = (Some (Inr ()), w') \<and> budget b w' \<and> world_observed w' = world_observed w
        \<and> world_transaction w' = world_transaction w"
begin

definition group_recordable :: "apply_manifest \<Rightarrow> transaction_group \<Rightarrow> bool" where
  "group_recordable m grp \<longleftrightarrow> apply_digest m \<in> set digests \<and> group_ready (lease_scope lease) m grp
     \<and> (\<forall>kind observed e. group_event_new lease m grp kind observed = Inr e \<longrightarrow> recordable e)"

lemma await_runs [simp]: "await_interruptible env m w = m w"
  by (simp add: await_interruptible_def quiet try_io_def bind_io_def return_io_def)

lemma guarded_runs:
  assumes "m w = (Some (Inr ()), w')"
  shows "guarded env m w = (Some (Inr ()), w')"
  using assms by (simp add: guarded_def bind_io_def return_io_def)

lemma run_assertions_runs:
  assumes "list_all (\<lambda>step. validated_assertion step \<noteq> None) steps"
  shows "\<exists>w'. run_assertions env steps w = (Some (Inr ()), w') \<and> world_keeps w w'"
  using assms
proof (induction steps arbitrary: w)
  case (Cons step steps)
  then obtain v where v: "validated_assertion step = Some v" by auto
  have "guarded env (env_execute_assertion env v) w = (Some (Inr ()), provider_call ''assertion'' w)"
    by (rule guarded_runs) (simp add: provider execute_assertion_def)
  then have "run_assertions env (step # steps) w = run_assertions env steps (provider_call ''assertion'' w)"
    by (simp add: v ok_or_def io_run)
  with Cons.IH [of "provider_call ''assertion'' w"] Cons.prems show ?case by (auto simp: world_keeps_def provider_call_def)
qed (simp add: return_io_def world_keeps_def)

lemma run_units_runs:
  "\<exists>w'. run_units env us w = (Some (Inr ()), w') \<and> world_keeps w w'"
proof (induction us arbitrary: w)
  case (Cons u us)
  have "guarded env (env_execute_unit env u) w = (Some (Inr ()), provider_call ''statement'' w)"
    by (rule guarded_runs) (simp add: provider execute_statement_unit_def)
  with Cons.IH [of "provider_call ''statement'' w"] show ?case by (auto simp: io_run world_keeps_def provider_call_def)
qed (simp add: return_io_def world_keeps_def)

lemma record_event_runs:
  assumes "budget (Suc b) w" and "group_recordable m grp" and "group_delta m grp code = Inr (delta, lowering)"
    and "check_group_evidence grp delta lowering kind observed = Inr ()"
  shows "\<exists>w'. (\<forall>failed next. record_event env lease m grp kind observed failed next w = next w')
    \<and> budget b w' \<and> world_observed w' = world_observed w \<and> world_transaction w' = world_transaction w"
proof -
  have ready: "group_ready (lease_scope lease) m grp" using assms(2) by (simp add: group_recordable_def)
  from group_event_ready [OF ready assms(3,4)] obtain e where e: "group_event_new lease m grp kind observed = Inr e"
    "group_event_scope e = lease_scope lease" "group_event_fence e = lease_fence lease" "group_event_digest e = apply_digest m" by blast
  then have "group_event_digest e \<in> set digests" "recordable e" using assms(2) by (auto simp: group_recordable_def)
  from records [OF assms(1) e(2,3) this] show ?thesis by (auto simp: record_event_def e(1) io_run)
qed

lemma commit_runs:
  assumes "budget (Suc b) w" and "group_recordable m grp" and "group_evidence m grp = Inr (source, target, lowering)"
    and "world_transaction w = Some target"
  shows "\<exists>w'. bind_io (env_commit env lease) (\<lambda>r.
        case r of
          Inr _ \<Rightarrow> commit_succeeded env lease m grp source target
        | Inl failed \<Rightarrow> commit_failed env lease m grp source target failed) w
      = (Some (Inr (GroupDone (Some target))), w') \<and> budget b w' \<and> world_observed w' = target"
proof -
  from group_evidence_delta [OF assms(3)] obtain delta where delta: "group_delta m grp ''migration_execution_group_step_kind_mismatch'' = Inr (delta, lowering)"
    "delta_source delta = source" "delta_target delta = target" by blast
  let ?w = "provider_call ''observe'' ((provider_call ''commit'' w)\<lparr>world_observed := target, world_transaction := None\<rparr>)"
  have "budget (Suc b) ?w" by (rule budget_store [OF assms(1)]) (simp add: provider_call_def)
  from record_event_runs [OF this assms(2) delta(1), of EventCommitted "Some (state_managed_semantic_schema target)"] delta(3)
  obtain w' where step: "\<And>failed next. record_event env lease m grp EventCommitted (Some (state_managed_semantic_schema target)) failed next ?w = next w'"
    and "budget b w'" "world_observed w' = world_observed ?w"
    by (fastforce simp: check_group_evidence_def)
  moreover have "env_commit env lease w = (Some (Inr ()), (provider_call ''commit'' w)\<lparr>world_observed := target, world_transaction := None\<rparr>)"
    by (simp add: provider transaction_commit_def assms(4))
  moreover have "env_observe env lease source target v = (Some (Inr (world_observed v)), provider_call ''observe'' v)" for v
    by (simp add: provider observe_managed_state_def)
  ultimately show ?thesis
    by (simp add: io_run commit_succeeded_def record_committed_def return_io_def) (simp add: provider_call_def)
qed

lemma run_transaction_runs:
  assumes "budget (Suc (Suc b)) w" and "group_recordable m grp" and "group_evidence m grp = Inr (source, target, lowering)"
  shows "\<exists>w'. run_transaction env lease m grp source target lowering w = (Some (Inr (GroupDone (Some target))), w')
    \<and> budget b w' \<and> world_observed w' = target"
proof -
  from group_evidence_delta [OF assms(3)] obtain delta where delta: "group_delta m grp ''migration_execution_group_step_kind_mismatch'' = Inr (delta, lowering)"
    by blast
  let ?w1 = "(provider_call ''prepare'' w)\<lparr>world_transaction := Some target\<rparr>"
  have prepare: "env_prepare env lease source target w = (Some (Inr ()), ?w1)" by (simp add: provider prepare_group_def)
  obtain w2 where assertions: "run_assertions env (take (assertion_count grp) (drop (group_first_step_index grp) (apply_steps m))) ?w1 = (Some (Inr ()), w2)"
    and w2: "world_keeps ?w1 w2"
    using run_assertions_runs assms(2) unfolding group_recordable_def group_ready_def by blast
  obtain w3 where units: "run_units env (lowering_units lowering) w2 = (Some (Inr ()), w3)" and w3: "world_keeps w2 w3"
    using run_units_runs by blast
  have "budget (Suc (Suc b)) w3" by (rule budget_store [OF assms(1)]) (use w2 w3 in \<open>simp add: world_keeps_def provider_call_def\<close>)
  from record_event_runs [OF this assms(2) delta, of EventBeforeCommit None]
  obtain w4 where before: "\<And>failed next. record_event env lease m grp EventBeforeCommit None failed next w3 = next w4"
    and run: "budget (Suc b) w4" and "world_transaction w4 = world_transaction w3"
    by (fastforce simp: check_group_evidence_def)
  then have "world_transaction w4 = Some target" using w2 w3 by (simp add: world_keeps_def provider_call_def)
  from commit_runs [OF run assms(2,3) this] show ?thesis
    by (simp add: run_transaction_def io_run prepare assertions units before)
qed

lemma execute_group_runs:
  assumes "budget (Suc (Suc b)) w" and "group_recordable m grp" and "group_evidence m grp = Inr (source, target, lowering)"
    and "state_managed_semantic_schema (world_observed w) = state_managed_semantic_schema source"
  shows "\<exists>w'. execute_group env lease m None grp (Some source) w = (Some (Inr (GroupDone (Some target))), w') \<and> budget b w'
    \<and> state_managed_semantic_schema (world_observed w') = state_managed_semantic_schema target"
proof (cases "formal_only grp source target lowering")
  case True
  from group_evidence_delta [OF assms(3)] obtain delta where delta: "group_delta m grp ''migration_execution_group_step_kind_mismatch'' = Inr (delta, lowering)"
    "delta_source delta = source" "delta_target delta = target" by blast
  from record_event_runs [OF assms(1,2) delta(1), of EventFormalOnlyAdvanced None] True delta(2,3)
  obtain w' where "\<And>failed next. record_event env lease m grp EventFormalOnlyAdvanced None failed next w = next w'"
    and "budget (Suc b) w'" and "world_observed w' = world_observed w"
    by (fastforce simp: check_group_evidence_def formal_only_def)
  then show ?thesis using True assms(4)
    by (auto simp: execute_group_fresh [OF assms(3)] return_io_def formal_only_def intro: budget_mono)
next
  case False
  with run_transaction_runs [OF assms(1-3)] show ?thesis by (fastforce simp: execute_group_fresh [OF assms(3)])
qed

end

end
