(* ===== verification/Apply_Run.thy ===== *)
theory Apply_Run
  imports Group_Run
begin

text \<open>
  A complete run. In the reference world, where no operation fails, executing a ready apply plan takes
  every group, backfill and checkpoint of every manifest in order and ends with the plan applied. The
  premises on the plan are what planning establishes; the shape of the transaction groups is derived from
  their partition.
\<close>

section \<open>Ready plans\<close>

fun group_chain :: "apply_manifest \<Rightarrow> managed_schema_state \<Rightarrow> transaction_group list \<Rightarrow> managed_schema_state \<Rightarrow> bool" where
  "group_chain m current [] final \<longleftrightarrow> current = final"
| "group_chain m current (grp # groups) final \<longleftrightarrow>
     (case group_evidence m grp of Inl _ \<Rightarrow> False | Inr (source, target, _) \<Rightarrow> source = current \<and> group_chain m target groups final)"

definition backfill_ready :: "(attribute_backfill_plan \<Rightarrow> fingerprint res) \<Rightarrow> apply_manifest \<Rightarrow> nat \<Rightarrow> bool" where
  "backfill_ready fp m i \<longleftrightarrow>
     (case Option.bind (nth_opt (apply_steps m) i) (\<lambda>step. as_backfill (apply_step_of step)) of
        None \<Rightarrow> False | Some (contract, plan) \<Rightarrow> fp plan = Inr (backfill_step_plan_fingerprint contract))"

definition manifest_ready :: "step_digests \<Rightarrow> plan_bytes \<Rightarrow> manifest_digest \<Rightarrow> (attribute_backfill_plan \<Rightarrow> fingerprint res) \<Rightarrow> string \<Rightarrow> apply_manifest \<Rightarrow> bool" where
  "manifest_ready digests canonical digest fp scope m \<longleftrightarrow>
     (let manifest = apply_manifest_of m; source = manifest_source_state manifest; target = manifest_target_state manifest in
      verified_apply_manifest digests canonical digest manifest (apply_steps m) = Inr m
      \<and> int (length (apply_steps m)) < 4294967296
      \<and> binding_scope_id (manifest_managed_scope manifest) = scope \<and> binding_scope_id (state_scope source) = scope
      \<and> state_scope target = state_scope source \<and> manifest_profile_bridge manifest = None
      \<and> group_chain m source (apply_groups m) target \<and> list_all (backfill_ready fp m) (apply_backfill_indices m))"

fun manifest_chain :: "managed_schema_state \<Rightarrow> apply_manifest list \<Rightarrow> managed_schema_state \<Rightarrow> bool" where
  "manifest_chain current [] final \<longleftrightarrow> current = final"
| "manifest_chain current (m # ms) final \<longleftrightarrow>
     manifest_source_state (apply_manifest_of m) = current \<and> manifest_chain (manifest_target_state (apply_manifest_of m)) ms final"

definition manifest_records :: "apply_manifest \<Rightarrow> nat" where
  "manifest_records m = 2 * length (apply_groups m) + 2 * length (apply_backfill_indices m) + 1"

section \<open>Store steps\<close>

definition running :: "migration_lease \<Rightarrow> migration_id list \<Rightarrow> fingerprint list \<Rightarrow> nat \<Rightarrow> ledger_record journal_entry list \<Rightarrow> memory_store \<Rightarrow> bool" where
  "running lease ids digests budget active m \<longleftrightarrow>
     (\<exists>s plan log. fmlookup m (lease_scope lease) = Some s \<and> active_lease s = Some lease \<and> store_open_plan s = Some plan
        \<and> plan_record_ids (entry_record plan) = ids \<and> plan_record_digests (entry_record plan) = digests
        \<and> unat (next_sequence s) + budget < 2 ^ 64 \<and> ledger_history s log active)"

definition closed :: "migration_lease \<Rightarrow> ledger_record journal_entry list \<Rightarrow> memory_store \<Rightarrow> bool" where
  "closed lease active m \<longleftrightarrow>
     (\<exists>s log. fmlookup m (lease_scope lease) = Some s \<and> active_lease s = Some lease \<and> store_open_plan s = None \<and> ledger_history s log active)"

lemma running_mono: "running lease ids digests b active m \<Longrightarrow> b' \<le> b \<Longrightarrow> running lease ids digests b' active m"
  by (fastforce simp: running_def)

lemma word_successor:
  fixes x :: "64 word"
  assumes "unat x + 1 < 2 ^ 64"
  shows "unat (x + 1) = unat x + 1" and "x < x + 1" and "checked_add x 1 = Some (x + 1)"
proof -
  have "unat (x + 1) = (unat x + unat (1 :: 64 word)) mod 2 ^ LENGTH(64)" by (rule unat_word_ariths(1))
  then show *: "unat (x + 1) = unat x + 1" using assms by simp
  then show "x < x + 1" unfolding word_less_nat_alt by simp
  have "uint x + 1 = int (unat x + 1)" by simp
  also have "\<dots> < int (2 ^ 64)" using assms by (simp only: of_nat_less_iff)
  finally show "checked_add x 1 = Some (x + 1)" by (simp add: checked_add_def)
qed

lemma take_sequence_succeeds:
  assumes "unat (next_sequence s) + Suc b < 2 ^ 64"
  shows "take_sequence store_entry s = store_entry (next_sequence s + 1) (s\<lparr>next_sequence := next_sequence s + 1\<rparr>)"
    and "next_sequence s < next_sequence s + 1" and "unat (next_sequence s + 1) + b < 2 ^ 64"
proof -
  from assms have bound: "unat (next_sequence s) + 1 < 2 ^ 64" by linarith
  note successor = word_successor [OF bound]
  show "unat (next_sequence s + 1) + b < 2 ^ 64" unfolding successor(1) using assms by linarith
  show less: "next_sequence s < next_sequence s + 1" by (rule successor(2))
  then have "next_sequence s + 1 \<noteq> 0" by (metis word_not_simps(1))
  then show "take_sequence store_entry s = store_entry (next_sequence s + 1) (s\<lparr>next_sequence := next_sequence s + 1\<rparr>)"
    by (simp add: take_sequence_def successor(3) sequence_new_def)
qed

lemma ledger_history_bump:
  "ledger_history s log active \<Longrightarrow> next_sequence s \<le> next_sequence t \<Longrightarrow> store_applied t = store_applied s \<Longrightarrow>
     store_rolled_back t = store_rolled_back s \<Longrightarrow> ledger_history t log active"
  unfolding ledger_history_def by (auto intro: order_trans)

lemma record_group_event_runs:
  assumes "running lease ids digests (Suc b) active m"
    and "group_event_scope e = lease_scope lease" "group_event_fence e = lease_fence lease" "group_event_digest e \<in> set digests"
  shows "\<exists>entry m'. store_record_group_event lease e m = (Inr entry, m') \<and> running lease ids digests b active m'"
proof -
  from assms(1) obtain s plan log where s: "fmlookup m (lease_scope lease) = Some s" "active_lease s = Some lease" "store_open_plan s = Some plan"
      "plan_record_ids (entry_record plan) = ids" "plan_record_digests (entry_record plan) = digests"
    and budget: "unat (next_sequence s) + Suc b < 2 ^ 64" and history: "ledger_history s log active"
    by (auto simp: running_def)
  note take = take_sequence_succeeds [OF budget]
  have "ledger_history (s\<lparr>next_sequence := next_sequence s + 1, store_events := es\<rparr>) log active" for es
    by (rule ledger_history_bump [OF history]) (use take(2) in auto)
  then show ?thesis using s take(3) assms(2-4)
    by (simp add: store_record_group_event_def bound_record_def under_lease_def check_lease_def take(1) running_def) blast
qed

lemma record_backfill_event_runs:
  assumes "running lease ids digests (Suc b) active m"
    and "backfill_event_scope e = lease_scope lease" "backfill_event_fence e = lease_fence lease" "backfill_event_digest e \<in> set digests"
  shows "\<exists>entry m'. store_record_backfill_event lease e m = (Inr entry, m') \<and> running lease ids digests b active m'"
proof -
  from assms(1) obtain s plan log where s: "fmlookup m (lease_scope lease) = Some s" "active_lease s = Some lease" "store_open_plan s = Some plan"
      "plan_record_ids (entry_record plan) = ids" "plan_record_digests (entry_record plan) = digests"
    and budget: "unat (next_sequence s) + Suc b < 2 ^ 64" and history: "ledger_history s log active"
    by (auto simp: running_def)
  note take = take_sequence_succeeds [OF budget]
  have "ledger_history (s\<lparr>next_sequence := next_sequence s + 1, store_backfill_events := es\<rparr>) log active" for es
    by (rule ledger_history_bump [OF history]) (use take(2) in auto)
  then show ?thesis using s take(3) assms(2-4)
    by (simp add: store_record_backfill_event_def bound_record_def under_lease_def check_lease_def take(1) running_def Let_def) blast
qed

lemma record_applied_runs:
  assumes running: "running lease ids digests (Suc b) active m"
    and r: "ledger_scope r = lease_scope lease" "ledger_fence r = lease_fence lease" "plan_names ids digests r"
    and new: "ledger_id r \<notin> set (active_ids active)"
  shows "\<exists>entry m'. store_record_applied lease r m = (Inr entry, m') \<and> entry_record entry = r
    \<and> (if list_all (\<lambda>i. i \<in> set (active_ids (active @ [entry]))) ids then closed lease (active @ [entry]) m'
       else running lease ids digests b (active @ [entry]) m')"
proof -
  from running obtain s plan log where s: "fmlookup m (lease_scope lease) = Some s" "active_lease s = Some lease" "store_open_plan s = Some plan"
      "plan_record_ids (entry_record plan) = ids" "plan_record_digests (entry_record plan) = digests"
    and budget: "unat (next_sequence s) + Suc b < 2 ^ 64" and history: "ledger_history s log active"
    by (auto simp: running_def)
  note take = take_sequence_succeeds [OF budget]
  let ?entry = "JournalEntry (next_sequence s + 1) r"
  let ?s = "s\<lparr>next_sequence := next_sequence s + 1, store_applied := store_applied s @ [?entry]\<rparr>"
  have find: "find (\<lambda>e. ledger_id (entry_record e) = ledger_id r) active = None" using new by (force simp: find_None_iff active_ids_def)
  note history' = ledger_history_applied [OF history take(2) new]
  have "ledger_history (?s\<lparr>store_open_plan := None, store_events := [], store_backfill_events := []\<rparr>) (log @ [LedgerApplied ?entry]) (active @ [?entry])"
    by (rule ledger_history_bump [OF history']) auto
  moreover have "active_applied_entries (store_applied s @ [?entry]) (store_rolled_back s) = Inr (active @ [?entry])"
    using ledger_history_active [OF history'] by simp
  moreover have "store_record_applied lease r m = (let (q, t) = append_applied plan r (next_sequence s + 1) (s\<lparr>next_sequence := next_sequence s + 1\<rparr>) in
      (q, fmupd (lease_scope lease) t m))"
    using s r find ledger_history_active [OF history]
    by (simp add: store_record_applied_def bound_record_def under_lease_def check_lease_def take(1))
  ultimately show ?thesis using s history' take(3)
    by (auto simp: append_applied_def Let_def closed_def running_def)
qed

section \<open>World steps\<close>

lemma reference_await [simp]: "await_interruptible (reference_env available fp) m w = m w"
  by (simp add: await_interruptible_def reference_env_def try_io_def bind_io_def return_io_def)

lemma reference_check [simp]: "try_io (env_check (reference_env available fp)) f w = f () w"
  by (simp add: reference_env_def try_io_def bind_io_def return_io_def)

interpretation applying: reliable_world "reference_env available fp" lease digests "\<lambda>_. True"
  "\<lambda>b w. running lease ids digests b active (world_store w)"
proof
  fix b and w :: reference_world and e :: group_event_record
  assume running: "running lease ids digests (Suc b) active (world_store w)"
    and e: "group_event_scope e = lease_scope lease" "group_event_fence e = lease_fence lease" "group_event_digest e \<in> set digests"
  from record_group_event_runs [OF running e] obtain entry m' where
    step: "store_record_group_event lease e (world_store w) = (Inr entry, m')" and run: "running lease ids digests b active m'" by blast
  have "env_record_group_event (reference_env available fp) lease e w = (Some (Inr ()), w\<lparr>world_store := m'\<rparr>)"
    by (simp add: reference_env_def with_store_def acknowledged_def step res_simps)
  then show "\<exists>w'. env_record_group_event (reference_env available fp) lease e w = (Some (Inr ()), w')
      \<and> running lease ids digests b active (world_store w') \<and> world_observed w' = world_observed w \<and> world_transaction w' = world_transaction w"
    using run by simp
qed (auto simp: reference_env_def intro: running_mono)

section \<open>Groups\<close>

lemma concat_length_ge: "(\<And>x. x \<in> set xs \<Longrightarrow> f x \<noteq> []) \<Longrightarrow> length xs \<le> length (concat (map f xs))"
proof (induction xs)
  case (Cons x xs)
  obtain y ys where "f x = y # ys" using Cons.prems [of x] by (cases "f x") auto
  then show ?case using Cons by simp
qed simp

lemma group_shape_assertions:
  assumes "group_shape steps grp"
  shows "list_all (\<lambda>step. validated_assertion step \<noteq> None) (take (assertion_count grp) (drop (group_first_step_index grp) steps))"
proof -
  have "validated_assertion (steps ! i) \<noteq> None" if "group_first_step_index grp \<le> i" "i < group_delta_step_index grp" for i
    using assms that by (force simp: group_shape_def)
  moreover have "group_delta_step_index grp < length steps" using assms by (simp add: group_shape_def)
  ultimately show ?thesis unfolding list_all_length by (simp add: assertion_count_def)
qed

lemma verified_apply_manifest_parts:
  assumes "verified_apply_manifest digests canonical digest manifest steps = Inr m"
  shows "partition_transaction_groups digests canonical steps = Inr (apply_groups m) \<and> digest manifest = Inr (apply_digest m)
    \<and> apply_backfill_indices m = backfill_step_indices steps"
  using assms by (auto simp: verified_apply_manifest_def res_simps)

lemma ready_groups:
  assumes "manifest_ready digests canonical digest fp scope m" and "grp \<in> set (apply_groups m)"
  shows "group_ready scope m grp"
proof -
  let ?steps = "apply_steps m" and ?groups = "apply_groups m"
  have verified: "verified_apply_manifest digests canonical digest (apply_manifest_of m) ?steps = Inr m"
    and small: "int (length ?steps) < 4294967296" and scope: "binding_scope_id (manifest_managed_scope (apply_manifest_of m)) = scope"
    using assms(1) by (simp_all add: manifest_ready_def Let_def)
  from verified have "partition_transaction_groups digests canonical ?steps = Inr ?groups"
    using verified_apply_manifest_parts by blast
  note partition = partition_groups_sound [OF this]
  have shape: "group_shape ?steps grp" by (rule partition(3) [OF assms(2)])
  have "length ?groups \<le> length (concat (map group_range ?groups))"
    by (rule concat_length_ge) (use partition(3) in \<open>auto simp: group_range_def end_step_index_def group_shape_def\<close>)
  also have "\<dots> \<le> length ?steps" unfolding partition(2) by (rule order_trans [OF length_filter_le]) simp
  finally have few: "length ?groups \<le> length ?steps" .
  obtain i where i: "i < length ?groups" "?groups ! i = grp" using assms(2) by (auto simp: in_set_conv_nth)
  then have ordinal: "group_ordinal grp = i" using partition(1) by (metis add_0 nth_map nth_upt length_map length_upt minus_nat.diff_0)
  have "group_delta_step_index grp < length ?steps" "group_first_step_index grp \<le> group_delta_step_index grp" using shape by (simp_all add: group_shape_def)
  then show ?thesis using small few i ordinal scope group_shape_assertions [OF shape]
    by (simp add: group_ready_def nth_opt_def position_def end_step_index_def)
qed

section \<open>Backfills\<close>

lemma execute_backfill_runs:
  assumes "running lease ids digests (Suc (Suc b)) active (world_store w)" and "apply_digest m \<in> set digests"
    and "binding_scope_id (manifest_managed_scope (apply_manifest_of m)) = lease_scope lease"
    and "backfill_ready fp m i" and "i \<in> set (apply_backfill_indices m)" and "position i = Inr i"
  shows "\<exists>w' observation. execute_apply_backfill (reference_env available fp) lease m None i w = (Some (Inr (BackfillDone observation)), w')
    \<and> running lease ids digests b active (world_store w') \<and> world_observed w' = world_observed w"
proof -
  let ?env = "reference_env available fp"
  from assms(4) obtain step contract plan where step: "nth_opt (apply_steps m) i = Some step" "as_backfill (apply_step_of step) = Some (contract, plan)"
    and fp: "fp plan = Inr (backfill_step_plan_fingerprint contract)"
    by (auto simp: backfill_ready_def split: option.splits bind_splits)
  let ?evidence = "\<lparr>evidence_plan_fingerprint = backfill_step_plan_fingerprint contract, evidence_direction = Forward,
      evidence_counts = \<lparr>counts_matched = 0, counts_changed = 0, counts_skipped = 0, counts_transaction_groups = 1\<rparr>\<rparr>"
  have evidence: "terminal_evidence fp plan Forward = Inr ?evidence"
    by (simp add: terminal_evidence_def fp execution_counts_new_def checked_add_def res_simps)
  have event: "\<exists>e. backfill_event_apply lease m i kind completion = Inr e \<and> backfill_event_scope e = lease_scope lease
      \<and> backfill_event_fence e = lease_fence lease \<and> backfill_event_digest e = apply_digest m"
    if "check_backfill_evidence (backfill_step_plan_fingerprint contract) Forward kind completion = Inr ()" for kind completion
    using that assms(3,5,6) step by (simp add: backfill_event_apply_def backfill_event_checked_def ok_or_def res_simps Let_def)
  have append: "\<exists>v'. env_record_backfill_event ?env lease e v = (Some (Inr ()), v') \<and> running lease ids digests c active (world_store v')
      \<and> world_observed v' = world_observed v"
    if "running lease ids digests (Suc c) active (world_store v)" "backfill_event_scope e = lease_scope lease"
      "backfill_event_fence e = lease_fence lease" "backfill_event_digest e = apply_digest m" for e v c
    using record_backfill_event_runs [OF that(1-3)] that(4) assms(2)
    by (fastforce simp: reference_env_def with_store_def acknowledged_def res_simps)
  obtain before where before: "backfill_event_apply lease m i EventBeforeCommit None = Inr before" "backfill_event_scope before = lease_scope lease"
      "backfill_event_fence before = lease_fence lease" "backfill_event_digest before = apply_digest m"
    using event [of EventBeforeCommit None] by (auto simp: check_backfill_evidence_def)
  obtain committed where committed: "backfill_event_apply lease m i EventCommitted (Some ?evidence) = Inr committed"
      "backfill_event_scope committed = lease_scope lease" "backfill_event_fence committed = lease_fence lease"
      "backfill_event_digest committed = apply_digest m"
    using event [of EventCommitted "Some ?evidence"] by (auto simp: check_backfill_evidence_def)
  let ?w1 = "provider_call (observe_call Forward) w"
  have "running lease ids digests (Suc (Suc b)) active (world_store ?w1)" using assms(1) by (simp add: provider_call_def)
  from append [OF this before(2-4)] obtain w2 where w2: "env_record_backfill_event ?env lease before ?w1 = (Some (Inr ()), w2)"
    "running lease ids digests (Suc b) active (world_store w2)" "world_observed w2 = world_observed ?w1" by blast
  let ?w3 = "provider_call (execute_call Forward) w2"
  have "running lease ids digests (Suc b) active (world_store ?w3)" using w2(2) by (simp add: provider_call_def)
  from append [OF this committed(2-4)] obtain w4 where w4: "env_record_backfill_event ?env lease committed ?w3 = (Some (Inr ()), w4)"
    "running lease ids digests b active (world_store w4)" "world_observed w4 = world_observed ?w3" by blast
  have observe: "env_observe_backfill ?env lease plan Forward w = (Some (Inr obs), ?w1) \<Longrightarrow> obs \<noteq> BackfillUnavailable \<Longrightarrow>
      execute_apply_backfill ?env lease m None i w = run_backfill ?env lease m i contract plan ?w1" for obs
    by (cases obs) (simp_all add: execute_apply_backfill_def step ok_or_def io_run last_opt_def Let_def)
  have normal: "execute_apply_backfill ?env lease m None i w = run_backfill ?env lease m i contract plan ?w1"
    by (rule observe [of "if execute_call Forward \<in> set (world_calls w) then BackfillComplete ?evidence else BackfillIncomplete"])
      (simp_all add: reference_env_def observe_backfill_def evidence res_simps)
  have execute: "env_execute_backfill ?env lease plan Forward w2 = (Some (Inr ?evidence), ?w3)"
    by (simp add: reference_env_def execute_backfill_def evidence)
  have "run_backfill ?env lease m i contract plan ?w1 = (Some (Inr (backfill_result m i ?evidence)), w4)"
    unfolding run_backfill_def before(1) io_run(3) io_run(2) [of "env_record_backfill_event ?env lease before", OF w2(1)]
      io_run(1) [of "env_execute_backfill ?env lease plan Forward", OF execute] record_backfill_completed_def committed(1)
    by (simp only: sum.case io_run(3) io_run(1) [of "env_record_backfill_event ?env lease committed", OF w4(1)] return_io_def committed(1))
  then show ?thesis using normal w2(3) w4(2,3) by (auto simp: backfill_result_def provider_call_def)
qed

section \<open>Manifests\<close>

definition manifest_bound :: "migration_lease \<Rightarrow> fingerprint list \<Rightarrow> (attribute_backfill_plan \<Rightarrow> fingerprint res) \<Rightarrow> apply_manifest \<Rightarrow> bool" where
  "manifest_bound lease digests fp m \<longleftrightarrow> apply_digest m \<in> set digests
     \<and> binding_scope_id (manifest_managed_scope (apply_manifest_of m)) = lease_scope lease
     \<and> (\<forall>grp \<in> set (apply_groups m). group_ready (lease_scope lease) m grp)
     \<and> (\<forall>i \<in> set (apply_backfill_indices m). backfill_ready fp m i \<and> position i = Inr i)"

lemma execute_backfills_runs:
  assumes "manifest_bound lease digests fp m" and "running lease ids digests (2 * length indices + b) active (world_store w)"
    and "set indices \<subseteq> set (apply_backfill_indices m)" and "int (length observations + length indices) \<le> limit_backfill_observations limits"
  shows "\<exists>w' kept. execute_backfills (reference_env available fp) limits lease m None check_each indices observations w = (Some (Inr (Continue kept)), w')
    \<and> running lease ids digests b active (world_store w') \<and> world_observed w' = world_observed w
    \<and> length kept = length observations + length indices"
  using assms(2-4)
proof (induction indices arbitrary: observations w)
  case Nil
  then show ?case by (simp add: return_io_def)
next
  case (Cons i indices)
  let ?env = "reference_env available fp"
  have "running lease ids digests (Suc (Suc (2 * length indices + b))) active (world_store w)" using Cons.prems(1) by simp
  moreover have "backfill_ready fp m i" "i \<in> set (apply_backfill_indices m)" "position i = Inr i"
    using assms(1) Cons.prems(2) by (auto simp: manifest_bound_def)
  ultimately obtain w1 observation where run: "execute_apply_backfill ?env lease m None i w = (Some (Inr (BackfillDone observation)), w1)"
    and w1: "running lease ids digests (2 * length indices + b) active (world_store w1)" "world_observed w1 = world_observed w"
    using execute_backfill_runs [of lease ids digests "2 * length indices + b" active w m fp i available] assms(1) by (auto simp: manifest_bound_def)
  have retain: "retain_backfill_observation limits observations observation = Inr (observations @ [observation])"
    using Cons.prems(3) by (simp add: retain_backfill_observation_def)
  have "execute_and_retain ?env limits lease m None i observations w = (Some (Inr (Continue (observations @ [observation]))), w1)"
    unfolding execute_and_retain_def io_run(2) [of "execute_apply_backfill ?env lease m None i", OF run] retain
    by (simp add: res_simps lift_res_def return_io_def retain)
  then have "execute_backfills ?env limits lease m None check_each (i # indices) observations w
      = execute_backfills ?env limits lease m None check_each indices (observations @ [observation]) w1"
    by (simp add: io_run try_io_def bind_io_def return_io_def reference_env_def)
  with Cons.IH [of w1 "observations @ [observation]"] w1 Cons.prems(2,3) show ?case by (auto simp: algebra_simps)
qed

lemma execute_groups_runs:
  assumes "manifest_bound lease digests fp m"
    and "running lease ids digests (2 * length groups + 2 * length backfills + b) active (world_store w)"
    and "set groups \<subseteq> set (apply_groups m)" and "set backfills \<subseteq> set (apply_backfill_indices m)"
    and "group_chain m current groups final" and "state_managed_semantic_schema (world_observed w) = state_managed_semantic_schema current"
    and "int (length observations + length backfills) \<le> limit_backfill_observations limits"
  shows "\<exists>w' rest kept. execute_groups (reference_env available fp) limits lease m None groups backfills (Some current, observations) w
      = (Some (Inr (Continue (rest, Some final, kept))), w')
    \<and> running lease ids digests (2 * length rest + b) active (world_store w') \<and> set rest \<subseteq> set (apply_backfill_indices m)
    \<and> state_managed_semantic_schema (world_observed w') = state_managed_semantic_schema final
    \<and> length kept + length rest = length observations + length backfills"
  using assms(2-)
proof (induction groups arbitrary: backfills current observations w)
  case Nil
  then show ?case by (simp add: return_io_def)
next
  case (Cons grp groups)
  let ?env = "reference_env available fp"
  let ?now = "takeWhile (\<lambda>i. i < group_first_step_index grp) backfills" and ?later = "dropWhile (\<lambda>i. i < group_first_step_index grp) backfills"
  have split: "length backfills = length ?now + length ?later" by (metis length_append takeWhile_dropWhile_id)
  from Cons.prems(4) obtain target lowering where evidence: "group_evidence m grp = Inr (current, target, lowering)" and chain: "group_chain m target groups final"
    by (auto split: sum.splits prod.splits)
  let ?rest = "Suc (Suc (2 * length groups + 2 * length ?later + b))"
  have now: "running lease ids digests (2 * length ?now + ?rest) active (world_store w)" using Cons.prems(1) split by (simp add: algebra_simps)
  have subset: "set ?now \<subseteq> set (apply_backfill_indices m)" "set ?later \<subseteq> set (apply_backfill_indices m)"
    by (rule subset_trans [OF _ Cons.prems(3)], blast dest: set_takeWhileD set_dropWhileD)+
  have room: "int (length observations + length ?now) \<le> limit_backfill_observations limits" using Cons.prems(6) split by simp
  from execute_backfills_runs [OF assms(1) now subset(1) room] obtain w1 kept where
      before: "execute_backfills ?env limits lease m None False ?now observations w = (Some (Inr (Continue kept)), w1)"
    and w1: "running lease ids digests ?rest active (world_store w1)" "world_observed w1 = world_observed w"
      "length kept = length observations + length ?now" by blast
  obtain w2 where run: "execute_group ?env lease m None grp (Some current) w1 = (Some (Inr (GroupDone (Some target))), w2)"
    and w2: "running lease ids digests (2 * length groups + 2 * length ?later + b) active (world_store w2)"
      "state_managed_semantic_schema (world_observed w2) = state_managed_semantic_schema target"
    using applying.execute_group_runs [OF w1(1) _ evidence, of available fp] assms(1) Cons.prems(2,5) w1(2)
    by (auto simp: manifest_bound_def applying.group_recordable_def)
  have step: "execute_groups ?env limits lease m None (grp # groups) backfills (Some current, observations) w
      = execute_groups ?env limits lease m None groups ?later (Some target, kept) w2"
    unfolding execute_groups.simps reference_check io_run(2) [of "execute_backfills ?env limits lease m None False ?now observations", OF before]
    by (simp add: io_run(2) [of "execute_group ?env lease m None grp (Some current)", OF run])
  have groups: "set groups \<subseteq> set (apply_groups m)" using Cons.prems(2) by simp
  have later: "int (length kept + length ?later) \<le> limit_backfill_observations limits" using Cons.prems(6) split w1(3) by simp
  have "length kept + length ?later = length observations + length backfills" using split w1(3) by simp
  then show ?case unfolding step using Cons.IH [OF w2(1) groups subset(2) chain w2(2) later] by simp
qed

lemma ready_bound:
  assumes "manifest_ready digests canonical digest fp (lease_scope lease) m" and "apply_digest m \<in> set ds"
  shows "manifest_bound lease ds fp m"
proof -
  have verified: "verified_apply_manifest digests canonical digest (apply_manifest_of m) (apply_steps m) = Inr m"
    and small: "int (length (apply_steps m)) < 4294967296"
    and scope: "binding_scope_id (manifest_managed_scope (apply_manifest_of m)) = lease_scope lease"
    and ready: "list_all (backfill_ready fp m) (apply_backfill_indices m)"
    using assms(1) by (simp_all add: manifest_ready_def Let_def)
  have "i < length (apply_steps m)" if "i \<in> set (apply_backfill_indices m)" for i
    using that verified_apply_manifest_parts [OF verified] by (auto simp: backfill_step_indices_def dest: set_zip_leftD)
  then show ?thesis using assms(2) scope ready small ready_groups [OF assms(1)]
    by (fastforce simp: manifest_bound_def list_all_iff position_def)
qed

lemma index_of_distinct: "distinct xs \<Longrightarrow> k < length xs \<Longrightarrow> index_of (\<lambda>x. x = xs ! k) xs = Some k"
proof (induction xs arbitrary: k)
  case (Cons x xs)
  then show ?case by (cases k) (auto simp: in_set_conv_nth)
qed simp

lemma applied_record_ready:
  assumes "manifest_ready digests canonical digest fp (lease_scope lease) m"
  shows "\<exists>r. applied_record_of digest lease (apply_manifest_of m) = Inr r \<and> ledger_scope r = lease_scope lease
    \<and> ledger_fence r = lease_fence lease \<and> ledger_id r = apply_id m \<and> ledger_digest r = apply_digest m"
proof -
  have "digest (apply_manifest_of m) = Inr (apply_digest m)"
    using assms verified_apply_manifest_parts by (fastforce simp: manifest_ready_def Let_def)
  then show ?thesis using assms
    by (simp add: manifest_ready_def Let_def applied_record_of_def ledger_record_of_def apply_id_def res_simps)
qed

lemma execute_manifest_runs:
  assumes ready: "manifest_ready digests canonical digest fp (lease_scope lease) m" and member: "apply_digest m \<in> set ds"
    and run: "running lease ids ds (manifest_records m + b) active (world_store w)"
    and new: "apply_id m \<notin> set (active_ids active)"
    and names: "\<And>r. ledger_id r = apply_id m \<Longrightarrow> ledger_digest r = apply_digest m \<Longrightarrow> plan_names ids ds r"
    and live: "state_managed_semantic_schema (world_observed w) = state_managed_semantic_schema (manifest_source_state (apply_manifest_of m))"
    and room: "int (length observations + length (apply_backfill_indices m)) \<le> limit_backfill_observations limits"
  shows "\<exists>w' kept entry. execute_manifest (reference_env available fp) limits digest lease None m
        (Some (manifest_source_state (apply_manifest_of m)), observations) w
      = (Some (Inr (Continue (Some (manifest_target_state (apply_manifest_of m)), kept))), w')
    \<and> ledger_id (entry_record entry) = apply_id m
    \<and> (if list_all (\<lambda>i. i \<in> set (active_ids (active @ [entry]))) ids then closed lease (active @ [entry]) (world_store w')
       else running lease ids ds b (active @ [entry]) (world_store w'))
    \<and> state_managed_semantic_schema (world_observed w') = state_managed_semantic_schema (manifest_target_state (apply_manifest_of m))
    \<and> length kept = length observations + length (apply_backfill_indices m)"
proof -
  let ?env = "reference_env available fp" and ?source = "manifest_source_state (apply_manifest_of m)" and ?target = "manifest_target_state (apply_manifest_of m)"
  note bound = ready_bound [OF ready member]
  have chain: "group_chain m ?source (apply_groups m) ?target" and no_bridge: "\<not> is_profile_bridge (apply_manifest_of m)"
    using ready by (simp_all add: manifest_ready_def Let_def is_profile_bridge_def)
  have run1: "running lease ids ds (2 * length (apply_groups m) + 2 * length (apply_backfill_indices m) + Suc b) active (world_store w)"
    using run by (simp add: manifest_records_def)
  from execute_groups_runs [OF bound run1 subset_refl subset_refl chain live room]
  obtain w1 rest kept1 where groups: "execute_groups ?env limits lease m None (apply_groups m) (apply_backfill_indices m) (Some ?source, observations) w
      = (Some (Inr (Continue (rest, Some ?target, kept1))), w1)"
    and w1: "running lease ids ds (2 * length rest + Suc b) active (world_store w1)" "set rest \<subseteq> set (apply_backfill_indices m)"
      "state_managed_semantic_schema (world_observed w1) = state_managed_semantic_schema ?target"
      "length kept1 + length rest = length observations + length (apply_backfill_indices m)" by blast
  have room1: "int (length kept1 + length rest) \<le> limit_backfill_observations limits" using room w1(4) by simp
  from execute_backfills_runs [OF bound w1(1,2) room1]
  obtain w2 kept where backfills: "execute_backfills ?env limits lease m None True rest kept1 w1 = (Some (Inr (Continue kept)), w2)"
    and w2: "running lease ids ds (Suc b) active (world_store w2)" "world_observed w2 = world_observed w1" "length kept = length kept1 + length rest" by blast
  from applied_record_ready [OF ready] obtain r where r: "applied_record_of digest lease (apply_manifest_of m) = Inr r" "ledger_scope r = lease_scope lease"
    "ledger_fence r = lease_fence lease" "ledger_id r = apply_id m" "ledger_digest r = apply_digest m" by blast
  from record_applied_runs [OF w2(1) r(2,3) names [OF r(4,5)]] new r(4)
  obtain entry m' where store: "store_record_applied lease r (world_store w2) = (Inr entry, m')" "entry_record entry = r"
    "if list_all (\<lambda>i. i \<in> set (active_ids (active @ [entry]))) ids then closed lease (active @ [entry]) m' else running lease ids ds b (active @ [entry]) m'"
    by auto
  have applied: "env_record_applied ?env lease r w2 = (Some (Inr ()), w2\<lparr>world_store := m'\<rparr>)"
    by (simp add: reference_env_def with_store_def acknowledged_def store(1) res_simps)
  have "checkpoint_manifest ?env digest lease m (Some ?target, kept) w2 = (Some (Inr (Continue (Some ?target, kept))), w2\<lparr>world_store := m'\<rparr>)"
    using no_bridge by (simp add: checkpoint_manifest_def Let_def r(1) io_run(1) [of "env_record_applied ?env lease r", OF applied] io_run return_io_def)
  then have "execute_manifest ?env limits digest lease None m (Some ?source, observations) w = (Some (Inr (Continue (Some ?target, kept))), w2\<lparr>world_store := m'\<rparr>)"
    unfolding execute_manifest_def io_run(2) [of "execute_groups ?env limits lease m None (apply_groups m) (apply_backfill_indices m) (Some ?source, observations)", OF groups]
    by (simp add: io_run(2) [of "execute_backfills ?env limits lease m None True rest kept1", OF backfills])
  then show ?thesis using store w1(3,4) w2(2,3) r(4) by auto
qed

lemma execute_manifests_runs:
  assumes "all = finished @ rest" and "rest \<noteq> []" and "distinct (map apply_id all)"
    and "list_all (manifest_ready digests canonical digest fp (lease_scope lease)) all"
    and "running lease (map apply_id all) (map apply_digest all) (sum_list (map manifest_records rest)) active (world_store w)"
    and "set (active_ids active) \<inter> set (map apply_id rest) = {}" and "set (map apply_id finished) \<subseteq> set (active_ids active)"
    and "manifest_chain current rest final" and "state_managed_semantic_schema (world_observed w) = state_managed_semantic_schema current"
    and "int (length observations + sum_list (map (\<lambda>m. length (apply_backfill_indices m)) rest)) \<le> limit_backfill_observations limits"
  shows "\<exists>w' kept active'. execute_manifests (reference_env available fp) limits digest lease None rest (Some current, observations) w
      = (Some (Inr (OutcomeApplied kept)), w')
    \<and> closed lease active' (world_store w') \<and> active_ids active' = active_ids active @ map apply_id rest
    \<and> state_managed_semantic_schema (world_observed w') = state_managed_semantic_schema final
    \<and> length kept = length observations + sum_list (map (\<lambda>m. length (apply_backfill_indices m)) rest)"
  using assms
proof (induction rest arbitrary: finished active current observations w)
  case (Cons m rest)
  let ?env = "reference_env available fp" and ?ids = "map apply_id all" and ?ds = "map apply_digest all"
  have ready: "manifest_ready digests canonical digest fp (lease_scope lease) m" and member: "apply_digest m \<in> set ?ds"
    using Cons.prems(1,4) by auto
  have current: "current = manifest_source_state (apply_manifest_of m)" and chain: "manifest_chain (manifest_target_state (apply_manifest_of m)) rest final"
    using Cons.prems(8) by auto
  have run: "running lease ?ids ?ds (manifest_records m + sum_list (map manifest_records rest)) active (world_store w)" using Cons.prems(5) by simp
  have new: "apply_id m \<notin> set (active_ids active)" using Cons.prems(6) by auto
  have names: "plan_names ?ids ?ds r" if "ledger_id r = apply_id m" "ledger_digest r = apply_digest m" for r
  proof -
    have "index_of (\<lambda>i. i = ?ids ! length finished) ?ids = Some (length finished)"
      by (rule index_of_distinct [OF Cons.prems(3)]) (simp add: Cons.prems(1))
    then show ?thesis using that by (simp add: plan_names_def Cons.prems(1) nth_opt_def nth_append)
  qed
  have room: "int (length observations + length (apply_backfill_indices m)) \<le> limit_backfill_observations limits" using Cons.prems(10) by simp
  from execute_manifest_runs [OF ready member run new names Cons.prems(9) [unfolded current] room]
  obtain w1 kept1 entry where step: "execute_manifest ?env limits digest lease None m (Some current, observations) w
        = (Some (Inr (Continue (Some (manifest_target_state (apply_manifest_of m)), kept1))), w1)"
    and entry: "ledger_id (entry_record entry) = apply_id m"
    and store: "if list_all (\<lambda>i. i \<in> set (active_ids (active @ [entry]))) ?ids then closed lease (active @ [entry]) (world_store w1)
       else running lease ?ids ?ds (sum_list (map manifest_records rest)) (active @ [entry]) (world_store w1)"
    and w1: "state_managed_semantic_schema (world_observed w1) = state_managed_semantic_schema (manifest_target_state (apply_manifest_of m))"
      "length kept1 = length observations + length (apply_backfill_indices m)" unfolding current by blast
  have active: "active_ids (active @ [entry]) = active_ids active @ [apply_id m]" by (simp add: active_ids_def entry)
  have next_manifest: "execute_manifests ?env limits digest lease None (m # rest) (Some current, observations) w
      = execute_manifests ?env limits digest lease None rest (Some (manifest_target_state (apply_manifest_of m)), kept1) w1"
    unfolding execute_manifests.simps io_run(2) [of "execute_manifest ?env limits digest lease None m (Some current, observations)", OF step] by simp
  show ?case
  proof (cases "rest = []")
    case True
    then have "list_all (\<lambda>i. i \<in> set (active_ids (active @ [entry]))) ?ids" using Cons.prems(1,7) active by (auto simp: list_all_iff)
    with store have "closed lease (active @ [entry]) (world_store w1)" by simp
    then show ?thesis unfolding next_manifest using True chain active w1 by (auto simp: return_io_def)
  next
    case False
    have disjoint: "set (active_ids (active @ [entry])) \<inter> set (map apply_id rest) = {}"
      unfolding active using Cons.prems(1,3,6) by auto
    moreover have "set (map apply_id rest) \<subseteq> set ?ids" using Cons.prems(1) by auto
    ultimately have "\<not> list_all (\<lambda>i. i \<in> set (active_ids (active @ [entry]))) ?ids" using False by (cases rest) (auto simp: list_all_iff)
    with store have run1: "running lease ?ids ?ds (sum_list (map manifest_records rest)) (active @ [entry]) (world_store w1)" by simp
    have all: "all = (finished @ [m]) @ rest" using Cons.prems(1) by simp
    have covered: "set (map apply_id (finished @ [m])) \<subseteq> set (active_ids (active @ [entry]))" using Cons.prems(7) by (auto simp: active)
    have room1: "int (length kept1 + sum_list (map (\<lambda>m. length (apply_backfill_indices m)) rest)) \<le> limit_backfill_observations limits"
      using Cons.prems(10) w1(2) by simp
    from Cons.IH [OF all False Cons.prems(3,4) run1 disjoint covered chain w1(1) room1] show ?thesis
      unfolding next_manifest active using w1(2) by auto
  qed
qed simp

section \<open>Plans\<close>

definition plan_ready :: "step_digests \<Rightarrow> plan_bytes \<Rightarrow> manifest_digest \<Rightarrow> (attribute_backfill_plan \<Rightarrow> fingerprint res) \<Rightarrow> capability_set \<Rightarrow>
    execution_resource_limits \<Rightarrow> apply_plan \<Rightarrow> managed_schema_state \<Rightarrow> managed_schema_state \<Rightarrow> bool" where
  "plan_ready digests canonical digest fp available limits plan source target \<longleftrightarrow>
     (let migrations = plan_migrations plan in
      plan_execution_authorized plan \<and> plan_required_capabilities plan |\<subseteq>| available
      \<and> plan_source_state plan = Some source \<and> plan_target_state plan = Some target \<and> migrations \<noteq> []
      \<and> int (sum_list (map (\<lambda>m. length (apply_groups m)) migrations)) \<le> limit_transaction_groups limits
      \<and> int (sum_list (map (\<lambda>m. length (apply_backfill_indices m)) migrations)) \<le> limit_backfill_observations limits
      \<and> distinct (map apply_id migrations)
      \<and> list_all (manifest_ready digests canonical digest fp (binding_scope_id (state_scope source))) migrations
      \<and> manifest_chain source migrations target \<and> state_scope target = state_scope source
      \<and> list_all (\<lambda>m. profile_fingerprints (apply_manifest_of m) = profile_fingerprints (apply_manifest_of (hd migrations))) migrations)"

definition scope_of :: "memory_store \<Rightarrow> string \<Rightarrow> scope_state" where
  "scope_of m scope = (case fmlookup m scope of None \<Rightarrow> initial_scope | Some s \<Rightarrow> s)"

definition scope_free :: "scope_state \<Rightarrow> nat \<Rightarrow> ledger_record journal_entry list \<Rightarrow> bool" where
  "scope_free s budget active \<longleftrightarrow> active_lease s = None \<and> highest_fence s \<noteq> - 1 \<and> \<not> plan_open s
     \<and> unat (next_sequence s) + Suc budget < 2 ^ 64
     \<and> active_applied_entries (store_applied s) (store_rolled_back s) = Inr active"

definition scope_ready :: "scope_state \<Rightarrow> apply_plan \<Rightarrow> ledger_record journal_entry list \<Rightarrow> bool" where
  "scope_ready s plan active \<longleftrightarrow> scope_free s (sum_list (map manifest_records (plan_migrations plan))) active
     \<and> sorted_list_of_fset (fset_of_list (active_ids active)) = plan_applied plan
     \<and> set (active_ids active) \<inter> set (map apply_id (plan_migrations plan)) = {}"

lemma binding_fold:
  assumes "list_all (\<lambda>m. profile_fingerprints (apply_manifest_of m) = fps \<and> manifest_profile_bridge (apply_manifest_of m) = None
      \<and> binding_scope_id (manifest_managed_scope (apply_manifest_of m)) = scope) ms"
  shows "fold_res (check_plan_binding scope) ms fps = Inr fps"
  using assms by (induction ms) (auto simp: check_plan_binding_def Let_def res_simps)

lemma plan_record_ready:
  assumes "plan_ready digests canonical digest fp available limits plan source target" and "lease_scope lease = binding_scope_id (state_scope source)"
  shows "\<exists>r. plan_record_from_verified lease plan (plan_applied plan) source = Inr r \<and> plan_record_scope r = lease_scope lease
    \<and> plan_record_fence r = lease_fence lease \<and> plan_record_ids r = map apply_id (plan_migrations plan)
    \<and> plan_record_digests r = map apply_digest (plan_migrations plan)"
proof -
  obtain m ms where migrations: "plan_migrations plan = m # ms" using assms(1) by (cases "plan_migrations plan") (auto simp: plan_ready_def Let_def)
  have fold: "fold_res (check_plan_binding (binding_scope_id (state_scope source))) (m # ms) (profile_fingerprints (apply_manifest_of m))
      = Inr (profile_fingerprints (apply_manifest_of m))"
    by (rule binding_fold) (use assms(1) migrations in \<open>auto simp: plan_ready_def manifest_ready_def Let_def list_all_iff\<close>)
  have ends: "plan_source_state plan = Some source" "plan_target_state plan = Some target" "state_scope target = state_scope source"
    using assms(1) by (simp_all add: plan_ready_def Let_def)
  show ?thesis unfolding plan_record_from_verified_def migrations ends ok_or_def option.case bind_res_def sum.case list.case assms(2) fold
    by (simp add: apply_id_def assms(2))
qed

lemma acquire_runs:
  assumes "store_reaches m" and "scope_free (scope_of m scope) budget active"
  shows "\<exists>lease m' s log. store_acquire scope holder m = (Inr lease, m') \<and> lease_scope lease = scope \<and> fmlookup m' scope = Some s
    \<and> active_lease s = Some lease \<and> \<not> plan_open s \<and> ledger_history s log active
    \<and> unat (next_sequence s) + Suc budget < 2 ^ 64"
proof -
  let ?s = "scope_of m scope"
  have "scope_invariant scope ?s"
  proof (cases "fmlookup m scope")
    case None
    then show ?thesis unfolding scope_invariant_def ledger_history_def
      by (force simp: scope_of_def initial_scope_def active_ids_def intro!: exI [of _ "[]"])
  next
    case (Some t)
    then show ?thesis using store_reaches_invariant [OF assms(1)] by (simp add: scope_of_def store_invariant_def)
  qed
  then obtain log active' where history: "ledger_history ?s log active'" by (auto simp: scope_invariant_def)
  then have "active' = active" using ledger_history_active assms(2) by (fastforce simp: scope_free_def)
  have "highest_fence ?s + 1 \<noteq> 0" using assms(2) unfolding scope_free_def eq_neg_iff_add_eq_0 by blast
  then obtain fence where fence: "next_fence ?s = Inr fence"
    using assms(2) by (cases "highest_fence ?s = 0") (auto simp: next_fence_def fence_new_def checked_successor_def scope_free_def res_simps)
  let ?lease = "lease_new scope holder fence"
  let ?t = "?s\<lparr>highest_fence := fence, active_lease := Some ?lease\<rparr>"
  have "ledger_history ?t log active" using history \<open>active' = active\<close> by (simp add: ledger_history_def)
  moreover have "store_acquire scope holder m = (Inr ?lease, fmupd scope ?t m)"
    using assms(2) fence by (simp add: store_acquire_def scope_of_def scope_free_def Let_def split: option.splits)
  ultimately show ?thesis using assms(2) by (auto simp: scope_free_def plan_open_def lease_new_def)
qed

lemma begin_plan_runs:
  assumes "fmlookup m (lease_scope lease) = Some s" "active_lease s = Some lease" "\<not> plan_open s" "ledger_history s log active"
    and "unat (next_sequence s) + Suc b < 2 ^ 64" and "plan_record_scope r = lease_scope lease" "plan_record_fence r = lease_fence lease"
  shows "\<exists>entry m'. store_begin_plan lease r m = (Inr entry, m') \<and> running lease (plan_record_ids r) (plan_record_digests r) b active m'"
proof -
  note take = take_sequence_succeeds [OF assms(5)]
  have "ledger_history (s\<lparr>next_sequence := next_sequence s + 1, store_open_plan := p\<rparr>) log active" for p
    by (rule ledger_history_bump [OF assms(4)]) (use take(2) in auto)
  then show ?thesis using assms take(3)
    by (simp add: store_begin_plan_def bound_record_def under_lease_def check_lease_def take(1) running_def) blast
qed

lemma under_lease_same:
  assumes "fmlookup m (lease_scope lease) = Some s" "active_lease s = Some lease"
  shows "under_lease lease (\<lambda>state. (f state, state)) m = (f s, m)"
proof -
  have "fmupd (lease_scope lease) s m = m" using assms(1) by (intro fmap_ext) auto
  then show ?thesis using assms by (simp add: under_lease_def check_lease_def)
qed

lemma execute_under_lease_runs:
  assumes plan: "plan_ready digests canonical digest fp available limits plan source target"
    and lease: "lease_scope lease = binding_scope_id (state_scope source)" and live: "world_observed w = source"
    and s: "fmlookup (world_store w) (lease_scope lease) = Some s" "active_lease s = Some lease" "\<not> plan_open s" "ledger_history s log active"
    and budget: "unat (next_sequence s) + Suc (sum_list (map manifest_records (plan_migrations plan))) < 2 ^ 64"
    and applied: "sorted_list_of_fset (fset_of_list (active_ids active)) = plan_applied plan"
    and fresh: "set (active_ids active) \<inter> set (map apply_id (plan_migrations plan)) = {}"
  shows "\<exists>w' kept active'. execute_under_lease (reference_env available fp) limits digest lease plan w = (Some (Inr (OutcomeApplied kept)), w')
    \<and> closed lease active' (world_store w') \<and> active_ids active' = active_ids active @ map apply_id (plan_migrations plan)
    \<and> state_managed_semantic_schema (world_observed w') = state_managed_semantic_schema target
    \<and> length kept = sum_list (map (\<lambda>m. length (apply_backfill_indices m)) (plan_migrations plan))"
proof -
  let ?env = "reference_env available fp"
  from plan_record_ready [OF plan lease] obtain r where r: "plan_record_from_verified lease plan (plan_applied plan) source = Inr r"
    "plan_record_scope r = lease_scope lease" "plan_record_fence r = lease_fence lease" "plan_record_ids r = map apply_id (plan_migrations plan)"
    "plan_record_digests r = map apply_digest (plan_migrations plan)" by blast
  have load: "env_load_applied ?env lease w = (Some (Inr active), w)" "env_load_open_plan ?env lease w = (Some (Inr None), w)"
    using s(3) ledger_history_active [OF s(4)]
    by (simp_all add: reference_env_def with_store_def store_load_applied_def store_load_open_plan_def under_lease_same [OF s(1,2)] plan_open_def)
  let ?w1 = "provider_call ''observe'' w"
  have observe: "env_observe ?env lease source source w = (Some (Inr source), ?w1)" by (simp add: reference_env_def observe_managed_state_def live)
  have loaded: "loaded_applied_migrations active = Inr (plan_applied plan)"
    using loaded_applied_sorted [OF ledger_history_sorted [OF s(4)]] s(4) applied by (simp add: ledger_history_def)
  from begin_plan_runs [OF s budget r(2,3)] obtain entry m' where begin_plan: "store_begin_plan lease r (world_store w) = (Inr entry, m')"
    and run: "running lease (map apply_id (plan_migrations plan)) (map apply_digest (plan_migrations plan))
        (sum_list (map manifest_records (plan_migrations plan))) active m'" unfolding r(4,5) by blast
  let ?w2 = "?w1\<lparr>world_store := m'\<rparr>"
  have begun: "env_begin_plan ?env lease r ?w1 = (Some (Inr ()), ?w2)"
    by (simp add: reference_env_def with_store_def acknowledged_def provider_call_def begin_plan res_simps)
  have source: "plan_source_state plan = Some source" and nonempty: "plan_migrations plan \<noteq> []" and distinct: "distinct (map apply_id (plan_migrations plan))"
    and ready: "list_all (manifest_ready digests canonical digest fp (lease_scope lease)) (plan_migrations plan)"
    and chain: "manifest_chain source (plan_migrations plan) target"
    and room: "int (length ([] :: observed_backfill list) + sum_list (map (\<lambda>m. length (apply_backfill_indices m)) (plan_migrations plan)))
        \<le> limit_backfill_observations limits"
    using plan lease by (simp_all add: plan_ready_def Let_def)
  have "begin_fresh_plan ?env lease plan active w = (Some (Inr source), ?w2)"
    by (simp add: begin_fresh_plan_def source io_run(2) [of "env_observe ?env lease source source", OF observe] loaded r(1) io_run(3)
        io_run(2) [of "env_begin_plan ?env lease r", OF begun] return_io_def try_io_def bind_io_def observe lift_res_def begun)
  then have "execute_under_lease ?env limits digest lease plan w
      = execute_manifests ?env limits digest lease None (plan_migrations plan) (Some source, []) ?w2"
    by (simp add: execute_under_lease_def io_run(2) [of "env_load_applied ?env lease", OF load(1)]
        io_run(2) [of "env_load_open_plan ?env lease", OF load(2)] io_run(2))
  moreover have "running lease (map apply_id (plan_migrations plan)) (map apply_digest (plan_migrations plan))
      (sum_list (map manifest_records (plan_migrations plan))) active (world_store ?w2)" using run by simp
  from execute_manifests_runs [OF append_Nil [symmetric] nonempty distinct ready this fresh _ chain _ room, of available]
  have "\<exists>w' kept active'. execute_manifests ?env limits digest lease None (plan_migrations plan) (Some source, []) ?w2 = (Some (Inr (OutcomeApplied kept)), w')
    \<and> closed lease active' (world_store w') \<and> active_ids active' = active_ids active @ map apply_id (plan_migrations plan)
    \<and> state_managed_semantic_schema (world_observed w') = state_managed_semantic_schema target
    \<and> length kept = sum_list (map (\<lambda>m. length (apply_backfill_indices m)) (plan_migrations plan))"
    by (simp add: provider_call_def live)
  ultimately show ?thesis by simp
qed

lemma release_runs:
  assumes "closed lease active m"
  shows "\<exists>m' s. store_release lease m = (Inr (), m') \<and> fmlookup m' (lease_scope lease) = Some s \<and> active_lease s = None
    \<and> store_open_plan s = None \<and> active_applied_entries (store_applied s) (store_rolled_back s) = Inr active"
proof -
  from assms obtain s log where s: "fmlookup m (lease_scope lease) = Some s" "active_lease s = Some lease" "store_open_plan s = None"
    and history: "ledger_history s log active" by (auto simp: closed_def)
  then show ?thesis using ledger_history_active [OF history] by (simp add: store_release_def under_lease_def check_lease_def)
qed

lemma check_apply_plan_ready:
  assumes "plan_ready digests canonical digest fp available limits plan source target"
  shows "check_apply_plan available True limits plan = Inr source"
proof -
  have "missing_from (plan_required_capabilities plan) available = {||}" using assms by (auto simp: plan_ready_def Let_def missing_from_def)
  then show ?thesis using assms
    by (simp add: check_apply_plan_def require_authorized_apply_plan_def ensure_supported_by_def plan_ready_def Let_def ok_or_def bind_res_def)
qed

text \<open>
  C4. Executing a ready plan in the reference world always returns, and returns that the plan is applied:
  the live schema ends with the semantics of the plan target, every migration of the plan is appended to
  the active ledger in plan order, one observation is reported for each backfill, and neither an open plan
  nor the lease is left behind.
\<close>

theorem apply_plan_completes:
  assumes "plan_ready digests canonical digest fp available limits plan source target"
    and "store_reaches (world_store w)" and "world_observed w = source"
    and "scope_ready (scope_of (world_store w) (binding_scope_id (state_scope source))) plan active"
  shows "\<exists>w' kept s active'. execute_apply_plan_controlled (reference_env available fp) limits digest holder plan w
      = (Some (Inr (OutcomeApplied kept)), w')
    \<and> state_managed_semantic_schema (world_observed w') = state_managed_semantic_schema target
    \<and> fmlookup (world_store w') (binding_scope_id (state_scope source)) = Some s \<and> active_lease s = None \<and> store_open_plan s = None
    \<and> active_applied_entries (store_applied s) (store_rolled_back s) = Inr active'
    \<and> active_ids active' = active_ids active @ map apply_id (plan_migrations plan)
    \<and> length kept = sum_list (map (\<lambda>m. length (apply_backfill_indices m)) (plan_migrations plan))"
proof -
  let ?env = "reference_env available fp" and ?scope = "binding_scope_id (state_scope source)"
  have free: "scope_free (scope_of (world_store w) ?scope) (sum_list (map manifest_records (plan_migrations plan))) active"
    using assms(4) by (simp add: scope_ready_def)
  from acquire_runs [OF assms(2) free, of holder] obtain lease m1 s1 log where acquire: "store_acquire ?scope holder (world_store w) = (Inr lease, m1)"
    and lease: "lease_scope lease = ?scope" and s1: "fmlookup m1 (lease_scope lease) = Some s1" "active_lease s1 = Some lease" "\<not> plan_open s1"
      "ledger_history s1 log active"
    and budget: "unat (next_sequence s1) + Suc (sum_list (map manifest_records (plan_migrations plan))) < 2 ^ 64" by metis
  let ?w1 = "w\<lparr>world_store := m1\<rparr>"
  have acquired: "env_acquire ?env ?scope holder w = (Some (Inr lease), ?w1)" by (simp add: reference_env_def with_store_def acquire)
  have live: "world_observed ?w1 = source" and store: "fmlookup (world_store ?w1) (lease_scope lease) = Some s1" using assms(3) s1(1) by simp_all
  have ledger: "sorted_list_of_fset (fset_of_list (active_ids active)) = plan_applied plan"
    "set (active_ids active) \<inter> set (map apply_id (plan_migrations plan)) = {}" using assms(4) by (simp_all add: scope_ready_def)
  from execute_under_lease_runs [OF assms(1) lease live store s1(2-4) budget ledger]
  obtain w2 kept active' where run: "execute_under_lease ?env limits digest lease plan ?w1 = (Some (Inr (OutcomeApplied kept)), w2)"
    and w2: "closed lease active' (world_store w2)" "active_ids active' = active_ids active @ map apply_id (plan_migrations plan)"
      "state_managed_semantic_schema (world_observed w2) = state_managed_semantic_schema target"
      "length kept = sum_list (map (\<lambda>m. length (apply_backfill_indices m)) (plan_migrations plan))" by blast
  from release_runs [OF w2(1)] obtain m3 s3 where release: "store_release lease (world_store w2) = (Inr (), m3)"
    and s3: "fmlookup m3 (lease_scope lease) = Some s3" "active_lease s3 = None" "store_open_plan s3 = None"
      "active_applied_entries (store_applied s3) (store_rolled_back s3) = Inr active'" by blast
  have released: "env_release ?env lease w2 = (Some (Inr ()), w2\<lparr>world_store := m3\<rparr>)" by (simp add: reference_env_def with_store_def release)
  have check: "check_apply_plan (env_capabilities ?env) (env_supports_backfill ?env) limits plan = Inr source"
    using check_apply_plan_ready [OF assms(1)] by (simp add: reference_env_def)
  have "execute_apply_plan_controlled ?env limits digest holder plan w = (Some (Inr (OutcomeApplied kept)), w2\<lparr>world_store := m3\<rparr>)"
    unfolding execute_apply_plan_controlled_def reference_check check io_run(3) io_run(2) [of "env_acquire ?env ?scope holder", OF acquired]
      io_run(1) [of "execute_under_lease ?env limits digest lease plan", OF run] io_run(1) [of "env_release ?env lease", OF released]
    by (simp add: return_io_def finish_apply_lease_release_def)
  then show ?thesis using w2 s3 unfolding lease by auto
qed

definition example_plan :: apply_plan where
  "example_plan =
     \<lparr>plan_applied = [], plan_applied_frontier = [], plan_migrations = [example_apply_manifest], plan_required_capabilities = {||},
      plan_source_schema = None, plan_source_state = Some (example_state ''before'' {||}), plan_target_frontier = [MigrationId ''app'' ''m1''],
      plan_target_schema = None, plan_target_state = Some (example_state ''after'' {||}), plan_execution_authorized = True\<rparr>"

definition empty_world :: reference_world where
  "empty_world = \<lparr>world_store = fmempty, world_observed = example_state ''before'' {||}, world_calls = [], world_transaction = None\<rparr>"

definition example_digests :: step_digests where
  "example_digests = \<lparr>delta_digest = (\<lambda>_. Inr ''d''), assertion_digest = (\<lambda>_. Inr ''a''), backfill_digest = (\<lambda>_. Inr ''b'')\<rparr>"

lemma example_plan_ready:
  "plan_ready example_digests (\<lambda>_. Inr []) (\<lambda>m. Inr (manifest_plan_fingerprint m)) (\<lambda>_. Inr ''b'') {||} (tightened 10 10) example_plan
     (example_state ''before'' {||}) (example_state ''after'' {||})"
  by code_simp

theorem apply_plan_completes_witness:
  "\<exists>w' kept s. execute_apply_plan_controlled (reference_env {||} (\<lambda>_. Inr ''b'')) (tightened 10 10) (\<lambda>m. Inr (manifest_plan_fingerprint m)) ''holder''
       example_plan empty_world = (Some (Inr (OutcomeApplied kept)), w')
     \<and> state_managed_semantic_schema (world_observed w') = ''after'' \<and> fmlookup (world_store w') ''main'' = Some s \<and> active_lease s = None"
proof -
  have "scope_ready (scope_of (world_store empty_world) (binding_scope_id (state_scope (example_state ''before'' {||})))) example_plan []"
    by (simp add: scope_ready_def scope_free_def scope_of_def empty_world_def initial_scope_def plan_open_def example_plan_def manifest_records_def
        example_apply_manifest_def active_applied_entries_def active_ids_def Let_def bind_res_def)
  moreover have "store_reaches (world_store empty_world)" "world_observed empty_world = example_state ''before'' {||}"
    by (simp_all add: empty_world_def store_reaches.start)
  ultimately show ?thesis
    using apply_plan_completes [OF example_plan_ready, of empty_world "[]" "''holder''"] by (fastforce simp: example_state_def)
qed

end
