(* ===== verification/Rollback_Coordinator.thy ===== *)
theory Rollback_Coordinator
  imports Coordinator
begin

text \<open>
  The rollback direction of the migration coordinator. The verified rollback plans of
  \<open>schema-migration/src/rollback_plan.rs\<close> are data here: manifests in execution order, each with its
  lowered reverse steps, its reverse backfills and the order of both. The records that
  \<open>schema-migration/src/execution.rs\<close> derives from them follow, then the reverse execution of
  \<open>schema-migration/src/coordinator.rs\<close> over the environment of the apply direction.
\<close>

section \<open>Rollback plans\<close>

record rollback_step =
  rollback_forward_id :: string
  rollback_lowering :: schema_lowering_plan

datatype rollback_operation = RollbackSchemaDelta nat | RollbackBackfill nat

record rollback_manifest =
  rollback_digest :: fingerprint
  rollback_manifest_of :: verified_manifest
  rollback_safety :: safety_class
  rollback_steps :: "rollback_step list"
  rollback_backfills :: "migration_step list"
  rollback_operations :: "rollback_operation list"

definition reverse_delta :: "rollback_manifest \<Rightarrow> rollback_step \<Rightarrow> schema_delta res" where
  "reverse_delta rollback step =
     ok_or (Option.bind
         (find (\<lambda>candidate. delta_step_id (delta_step_contract candidate) = rollback_forward_id step)
           (List.map_filter as_schema_delta (manifest_steps (rollback_manifest_of rollback))))
         (\<lambda>candidate. delta_step_reverse (delta_step_contract candidate)))
       (contract_integrity ''migration_rollback_missing_reverse_step'')"

record rollback_plan =
  rollback_rollbacks :: "rollback_manifest list"
  rollback_remaining_applied :: "migration_id list"
  rollback_source_state :: managed_schema_state
  rollback_target_schema :: declared_schema
  rollback_target_state :: managed_schema_state
  rollback_execution_authorized :: bool

definition rollback_id :: "rollback_manifest \<Rightarrow> migration_id" where
  "rollback_id rollback = manifest_id (rollback_manifest_of rollback)"

definition rollback_scope :: "rollback_manifest \<Rightarrow> string" where
  "rollback_scope rollback = binding_scope_id (manifest_managed_scope (rollback_manifest_of rollback))"

definition applied_basis :: "rollback_plan \<Rightarrow> migration_id list" where
  "applied_basis plan = sorted_list_of_fset (fset_of_list (map rollback_id (rollback_rollbacks plan) @ rollback_remaining_applied plan))"

section \<open>Journal records\<close>

definition rollback_binding_matches :: "string \<Rightarrow> fingerprint \<times> fingerprint \<Rightarrow> rollback_manifest \<Rightarrow> bool" where
  "rollback_binding_matches scope profiles rollback \<longleftrightarrow>
     rollback_scope rollback = scope \<and> profile_fingerprints (rollback_manifest_of rollback) = profiles"

definition rollback_plan_record_from_verified :: "migration_lease \<Rightarrow> rollback_plan \<Rightarrow> migration_id list \<Rightarrow> managed_schema_state \<Rightarrow>
    rollback_plan_record res" where
  "rollback_plan_record_from_verified lease plan observed_applied live =
     (case rollback_rollbacks plan of
        [] \<Rightarrow> Inl (invalid_contract ''migration_execution_empty_plan'')
      | first # _ \<Rightarrow>
          (let source = rollback_source_state plan; target = rollback_target_state plan; scope = binding_scope_id (state_scope source);
               profiles = profile_fingerprints (rollback_manifest_of first) in
           if observed_applied \<noteq> applied_basis plan then Inl (execution_failure ''migration_execution_stale_applied_set'')
           else if live \<noteq> source then Inl (execution_failure ''migration_execution_stale_source_state'')
           else if lease_scope lease \<noteq> scope \<or> state_scope target \<noteq> state_scope source
           then Inl (execution_failure ''migration_execution_scope_mismatch'')
           else if \<not> list_all (rollback_binding_matches scope profiles) (rollback_rollbacks plan)
           then Inl (execution_failure ''migration_execution_plan_binding_mismatch'')
           else Inr \<lparr>rollback_plan_scope = scope, rollback_plan_fence = lease_fence lease,
             rollback_plan_source_applied = applied_basis plan,
             rollback_plan_ids = map rollback_id (rollback_rollbacks plan),
             rollback_plan_digests = map rollback_digest (rollback_rollbacks plan),
             rollback_plan_fingerprints = map (\<lambda>r. manifest_plan_fingerprint (rollback_manifest_of r)) (rollback_rollbacks plan),
             rollback_plan_remaining = rollback_remaining_applied plan,
             rollback_plan_source_declared = state_managed_declared_identity source,
             rollback_plan_target_declared = state_managed_declared_identity target,
             rollback_plan_source_semantics = state_managed_semantic_schema source,
             rollback_plan_target_semantics = state_managed_semantic_schema target,
             rollback_plan_semantic_profile = fst profiles, rollback_plan_lowering_profile = snd profiles,
             rollback_plan_live_source = state_managed_semantic_schema live\<rparr>))"

definition check_reverse_evidence :: "schema_delta \<Rightarrow> schema_lowering_plan \<Rightarrow> journal_event_kind \<Rightarrow> fingerprint option \<Rightarrow> unit res" where
  "check_reverse_evidence reverse lowering kind observed =
     (case kind of
        EventCommitted \<Rightarrow>
          if observed = Some (state_managed_semantic_schema (delta_target reverse)) then Inr ()
          else Inl (execution_failure ''migration_execution_commit_evidence_mismatch'')
      | EventFormalOnlyAdvanced \<Rightarrow>
          if observed = None \<and> lowering_units lowering = []
             \<and> state_managed_semantic_schema (delta_source reverse) = state_managed_semantic_schema (delta_target reverse)
          then Inr () else Inl (invalid_contract ''migration_execution_invalid_formal_advance'')
      | _ \<Rightarrow>
          if observed = None then Inr () else Inl (invalid_contract ''migration_execution_unexpected_observation''))"

definition rollback_event_new :: "migration_lease \<Rightarrow> rollback_manifest \<Rightarrow> nat \<Rightarrow> journal_event_kind \<Rightarrow> fingerprint option \<Rightarrow>
    rollback_event_record res" where
  "rollback_event_new lease rollback step_index kind observed =
     bind_res (ok_or (nth_opt (rollback_steps rollback) step_index)
         (execution_failure ''migration_execution_rollback_step_position'')) (\<lambda>step.
     bind_res (reverse_delta rollback step) (\<lambda>reverse.
       if lease_scope lease \<noteq> rollback_scope rollback then Inl (execution_failure ''migration_execution_scope_mismatch'')
       else bind_res (check_reverse_evidence reverse (rollback_lowering step) kind observed) (\<lambda>_.
       bind_res (position step_index) (\<lambda>ordinal.
         Inr \<lparr>rollback_event_scope = rollback_scope rollback, rollback_event_fence = lease_fence lease,
              rollback_event_digest = rollback_digest rollback, rollback_event_id = rollback_id rollback,
              rollback_event_ordinal = ordinal, rollback_event_kind = kind, rollback_event_observed_target = observed\<rparr>))))"

definition backfill_operation :: "rollback_manifest \<Rightarrow> nat \<Rightarrow> nat res" where
  "backfill_operation rollback operation_index =
     (case nth_opt (rollback_operations rollback) operation_index of
        Some (RollbackBackfill index) \<Rightarrow> Inr index
      | _ \<Rightarrow> Inl (execution_failure ''migration_execution_backfill_step_position''))"

definition backfill_event_rollback :: "migration_lease \<Rightarrow> rollback_manifest \<Rightarrow> nat \<Rightarrow> journal_event_kind \<Rightarrow> completion_evidence option \<Rightarrow>
    backfill_event_record res" where
  "backfill_event_rollback lease rollback operation_index kind completion =
     (let wrong_step = execution_failure ''migration_execution_backfill_step_position'' in
      if lease_scope lease \<noteq> rollback_scope rollback then Inl (execution_failure ''migration_execution_scope_mismatch'')
      else
        bind_res (backfill_operation rollback operation_index) (\<lambda>backfill_index.
        bind_res (ok_or (nth_opt (rollback_backfills rollback) backfill_index) wrong_step) (\<lambda>step.
        bind_res (ok_or (as_backfill step) wrong_step) (\<lambda>(contract, _).
        bind_res (ok_or (index_of (\<lambda>candidate. candidate = step) (manifest_steps (rollback_manifest_of rollback))) wrong_step) (\<lambda>step_index.
          backfill_event_checked lease (rollback_digest rollback) (rollback_id rollback) operation_index step_index
            (backfill_step_plan_fingerprint contract) Reverse kind completion)))))"

section \<open>Outcomes\<close>

datatype rollback_outcome =
    RolledBack "observed_backfill list"
  | RollbackRetrySafe migration_id nat diagnostic
  | RollbackExplicitRecovery migration_id nat diagnostic

datatype rollback_progress = RollbackStepDone "managed_schema_state option" | RollbackStepStopped rollback_outcome

definition rollback_retry_safe :: "rollback_manifest \<Rightarrow> nat \<Rightarrow> diagnostic \<Rightarrow> rollback_outcome" where
  "rollback_retry_safe rollback step_index e = RollbackRetrySafe (rollback_id rollback) step_index e"

definition rollback_explicit_recovery :: "rollback_manifest \<Rightarrow> nat \<Rightarrow> diagnostic \<Rightarrow> rollback_outcome" where
  "rollback_explicit_recovery rollback step_index e = RollbackExplicitRecovery (rollback_id rollback) step_index e"

definition rollback_backfill_retry_safe :: "rollback_manifest \<Rightarrow> nat \<Rightarrow> diagnostic \<Rightarrow> rollback_outcome" where
  "rollback_backfill_retry_safe rollback operation_index e = RollbackRetrySafe (rollback_id rollback) operation_index e"

definition rollback_backfill_explicit_recovery :: "rollback_manifest \<Rightarrow> nat \<Rightarrow> diagnostic \<Rightarrow> rollback_outcome" where
  "rollback_backfill_explicit_recovery rollback operation_index e = RollbackExplicitRecovery (rollback_id rollback) operation_index e"

section \<open>Recorded progress\<close>

definition rollback_step_events :: "open_rollback_plan \<Rightarrow> rollback_manifest \<Rightarrow> nat \<Rightarrow> rollback_event_record list" where
  "rollback_step_events plan rollback step_index =
     filter (\<lambda>e. rollback_event_digest e = rollback_digest rollback \<and> rollback_event_ordinal e = step_index)
       (map entry_record (open_rollback_events plan))"

definition last_rollback_step_event :: "open_rollback_plan \<Rightarrow> rollback_manifest \<Rightarrow> nat \<Rightarrow> journal_event_kind option" where
  "last_rollback_step_event plan rollback step_index =
     map_option rollback_event_kind (last_opt (rollback_step_events plan rollback step_index))"

definition rollback_backfill_events :: "open_rollback_plan \<Rightarrow> rollback_manifest \<Rightarrow> nat \<Rightarrow> backfill_event_record list" where
  "rollback_backfill_events plan rollback operation_index =
     filter (\<lambda>e. backfill_event_digest e = rollback_digest rollback \<and> backfill_event_ordinal e = operation_index
        \<and> backfill_event_direction e = Reverse)
       (map entry_record (open_rollback_backfills plan))"

definition recorded_rollback_backfill_events :: "open_rollback_plan \<Rightarrow> rollback_manifest \<Rightarrow> nat \<Rightarrow> backfill_event_record list" where
  "recorded_rollback_backfill_events plan rollback operation_index =
     filter (\<lambda>e. backfill_event_id e = rollback_id rollback \<and> backfill_event_digest e = rollback_digest rollback
        \<and> backfill_event_ordinal e = saturated_position operation_index \<and> backfill_event_direction e = Reverse)
       (map entry_record (open_rollback_backfills plan))"

section \<open>Executing a reverse step\<close>

definition record_rollback_event :: "'w execution_env \<Rightarrow> migration_lease \<Rightarrow> rollback_manifest \<Rightarrow> nat \<Rightarrow> journal_event_kind \<Rightarrow>
    fingerprint option \<Rightarrow> (diagnostic \<Rightarrow> ('w, rollback_progress res) io) \<Rightarrow> ('w, rollback_progress res) io \<Rightarrow>
    ('w, rollback_progress res) io" where
  "record_rollback_event env lease rollback step_index kind observed failed next =
     try_io (lift_res (rollback_event_new lease rollback step_index kind observed)) (\<lambda>event.
     bind_io (env_record_rollback_event env lease event) (\<lambda>r. case r of Inl e \<Rightarrow> failed e | Inr _ \<Rightarrow> next))"

definition record_rollback_committed :: "'w execution_env \<Rightarrow> migration_lease \<Rightarrow> rollback_manifest \<Rightarrow> nat \<Rightarrow> managed_schema_state \<Rightarrow>
    managed_schema_state \<Rightarrow> ('w, rollback_progress res) io" where
  "record_rollback_committed env lease rollback step_index target observed =
     record_rollback_event env lease rollback step_index EventCommitted (Some (state_managed_semantic_schema target))
       (\<lambda>e. return_io (Inr (RollbackStepStopped (rollback_retry_safe rollback step_index e))))
       (return_io (Inr (RollbackStepDone (Some observed))))"

definition rollback_commit_succeeded :: "'w execution_env \<Rightarrow> migration_lease \<Rightarrow> rollback_manifest \<Rightarrow> nat \<Rightarrow> managed_schema_state \<Rightarrow>
    managed_schema_state \<Rightarrow> ('w, rollback_progress res) io" where
  "rollback_commit_succeeded env lease rollback step_index source target =
     bind_io (env_observe env lease source target) (\<lambda>r.
       case r of
         Inl e \<Rightarrow> return_io (Inr (RollbackStepStopped (rollback_retry_safe rollback step_index e)))
       | Inr observed \<Rightarrow>
           if observed = target then record_rollback_committed env lease rollback step_index target observed
           else return_io (Inr (RollbackStepStopped (rollback_explicit_recovery rollback step_index
             (execution_failure ''migration_execution_commit_target_mismatch'')))))"

definition rollback_commit_failed :: "'w execution_env \<Rightarrow> migration_lease \<Rightarrow> rollback_manifest \<Rightarrow> nat \<Rightarrow> managed_schema_state \<Rightarrow>
    managed_schema_state \<Rightarrow> commit_failure \<Rightarrow> ('w, rollback_progress res) io" where
  "rollback_commit_failed env lease rollback step_index source target = (\<lambda>(certainty, e).
     record_rollback_event env lease rollback step_index (journal_event certainty) None
       (\<lambda>e'. return_io (Inr (RollbackStepStopped
          (case certainty of
             DefinitelyAborted \<Rightarrow> rollback_retry_safe rollback step_index e'
           | UnknownOutcome \<Rightarrow> rollback_explicit_recovery rollback step_index e'))))
       (if certainty = DefinitelyAborted then return_io (Inr (RollbackStepStopped (rollback_retry_safe rollback step_index e)))
        else bind_io (env_observe env lease source target) (\<lambda>r.
          case r of
            Inl e' \<Rightarrow> return_io (Inr (RollbackStepStopped (rollback_explicit_recovery rollback step_index e')))
          | Inr after \<Rightarrow>
              (case decide_group_recovery (Some EventCommitOutcomeUnknown) (exact_observation after source target)
                  (state_managed_semantic_schema source) (state_managed_semantic_schema target) of
                 ExecuteNormally \<Rightarrow> return_io (Inr (RollbackStepStopped (rollback_retry_safe rollback step_index e)))
               | RequiresExplicitRecovery \<Rightarrow> return_io (Inr (RollbackStepStopped (rollback_explicit_recovery rollback step_index e)))
               | RepairCheckpoint \<Rightarrow> record_rollback_committed env lease rollback step_index target target))))"

definition run_rollback_transaction :: "'w execution_env \<Rightarrow> migration_lease \<Rightarrow> rollback_manifest \<Rightarrow> nat \<Rightarrow> managed_schema_state \<Rightarrow>
    managed_schema_state \<Rightarrow> schema_lowering_plan \<Rightarrow> ('w, rollback_progress res) io" where
  "run_rollback_transaction env lease rollback step_index source target lowering =
     try_io (await_interruptible env (env_prepare env lease source target)) (\<lambda>_.
     try_io (run_units env (lowering_units lowering)) (\<lambda>_.
       record_rollback_event env lease rollback step_index EventBeforeCommit None
         (rollback_prepared_group_error env)
         (bind_io (env_commit env lease) (\<lambda>r.
            case r of
              Inr _ \<Rightarrow> rollback_commit_succeeded env lease rollback step_index source target
            | Inl failed \<Rightarrow> rollback_commit_failed env lease rollback step_index source target failed))))"

definition execute_rollback_step :: "'w execution_env \<Rightarrow> migration_lease \<Rightarrow> rollback_manifest \<Rightarrow> journal_event_kind option \<Rightarrow> nat \<Rightarrow>
    managed_schema_state option \<Rightarrow> ('w, rollback_progress res) io" where
  "execute_rollback_step env lease rollback last_event step_index observed =
     try_io (lift_res (ok_or (nth_opt (rollback_steps rollback) step_index)
         (execution_failure ''migration_execution_rollback_step_position''))) (\<lambda>step.
     if (case last_event of Some kind \<Rightarrow> is_completion_event kind | None \<Rightarrow> False) then return_io (Inr (RollbackStepDone observed))
     else
       try_io (lift_res (reverse_delta rollback step)) (\<lambda>reverse.
       let source = delta_source reverse; target = delta_target reverse; lowering = rollback_lowering step in
       try_io (case observed of Some live \<Rightarrow> return_io (Inr live) | None \<Rightarrow> await_interruptible env (env_observe env lease source target)) (\<lambda>live.
         case decide_group_recovery last_event (exact_observation live source target)
             (state_managed_semantic_schema source) (state_managed_semantic_schema target) of
           RequiresExplicitRecovery \<Rightarrow>
             return_io (Inr (RollbackStepStopped (rollback_explicit_recovery rollback step_index
               (execution_failure ''migration_execution_ambiguous_group_state''))))
         | RepairCheckpoint \<Rightarrow> record_rollback_committed env lease rollback step_index target target
         | ExecuteNormally \<Rightarrow>
             if lowering_units lowering = [] \<and> state_managed_semantic_schema source = state_managed_semantic_schema target
             then record_rollback_event env lease rollback step_index EventFormalOnlyAdvanced None
               (\<lambda>e. return_io (Inr (RollbackStepStopped (rollback_retry_safe rollback step_index e))))
               (return_io (Inr (RollbackStepDone (Some target))))
             else run_rollback_transaction env lease rollback step_index source target lowering)))"

section \<open>Executing a reverse backfill\<close>

datatype rollback_backfill_progress = RollbackBackfillDone observed_backfill | RollbackBackfillStopped rollback_outcome

definition rollback_backfill_result :: "rollback_manifest \<Rightarrow> nat \<Rightarrow> nat \<Rightarrow> completion_evidence \<Rightarrow> rollback_backfill_progress" where
  "rollback_backfill_result rollback operation_index backfill_index completion =
     RollbackBackfillDone \<lparr>observed_backfill_migration = rollback_id rollback, observed_backfill_ordinal = operation_index,
       observed_backfill_step = backfill_index, observed_backfill_evidence = completion\<rparr>"

definition record_rollback_backfill_completed :: "'w execution_env \<Rightarrow> migration_lease \<Rightarrow> rollback_manifest \<Rightarrow> nat \<Rightarrow> nat \<Rightarrow>
    completion_evidence \<Rightarrow> ('w, rollback_backfill_progress res) io" where
  "record_rollback_backfill_completed env lease rollback operation_index backfill_index completion =
     try_io (lift_res (backfill_event_rollback lease rollback operation_index EventCommitted (Some completion))) (\<lambda>event.
     bind_io (env_record_backfill_event env lease event) (\<lambda>r.
       case r of
         Inl e \<Rightarrow> return_io (Inr (RollbackBackfillStopped (rollback_backfill_retry_safe rollback operation_index e)))
       | Inr _ \<Rightarrow> return_io (Inr (rollback_backfill_result rollback operation_index backfill_index completion))))"

definition rollback_backfill_failed :: "'w execution_env \<Rightarrow> migration_lease \<Rightarrow> rollback_manifest \<Rightarrow> nat \<Rightarrow> nat \<Rightarrow> backfill_step_contract \<Rightarrow>
    attribute_backfill_plan \<Rightarrow> commit_failure \<Rightarrow> ('w, rollback_backfill_progress res) io" where
  "rollback_backfill_failed env lease rollback operation_index backfill_index contract plan = (\<lambda>(certainty, e).
     try_io (lift_res (backfill_event_rollback lease rollback operation_index (journal_event certainty) None)) (\<lambda>event.
     bind_io (env_record_backfill_event env lease event) (\<lambda>r.
       case r of
         Inl e' \<Rightarrow> return_io (Inr (RollbackBackfillStopped
           (case certainty of
              DefinitelyAborted \<Rightarrow> rollback_backfill_retry_safe rollback operation_index e'
            | UnknownOutcome \<Rightarrow> rollback_backfill_explicit_recovery rollback operation_index e')))
       | Inr _ \<Rightarrow>
           if certainty = DefinitelyAborted
           then return_io (Inr (RollbackBackfillStopped (rollback_backfill_retry_safe rollback operation_index e)))
           else try_io (env_observe_backfill env lease plan Reverse) (\<lambda>after.
             if decide_backfill_recovery (Some EventCommitOutcomeUnknown) after (backfill_step_plan_fingerprint contract) Reverse
                \<noteq> RepairCheckpoint
             then return_io (Inr (RollbackBackfillStopped (rollback_backfill_explicit_recovery rollback operation_index e)))
             else
               (case after of
                  BackfillComplete completion \<Rightarrow>
                    record_rollback_backfill_completed env lease rollback operation_index backfill_index completion
                | _ \<Rightarrow> (\<lambda>w. (None, w)))))))"

definition run_rollback_backfill :: "'w execution_env \<Rightarrow> migration_lease \<Rightarrow> rollback_manifest \<Rightarrow> nat \<Rightarrow> nat \<Rightarrow> backfill_step_contract \<Rightarrow>
    attribute_backfill_plan \<Rightarrow> ('w, rollback_backfill_progress res) io" where
  "run_rollback_backfill env lease rollback operation_index backfill_index contract plan =
     try_io (lift_res (backfill_event_rollback lease rollback operation_index EventBeforeCommit None)) (\<lambda>before.
     try_io (env_record_backfill_event env lease before) (\<lambda>_.
     bind_io (env_execute_backfill env lease plan Reverse) (\<lambda>r.
       case r of
         Inr completion \<Rightarrow> record_rollback_backfill_completed env lease rollback operation_index backfill_index completion
       | Inl failed \<Rightarrow> rollback_backfill_failed env lease rollback operation_index backfill_index contract plan failed)))"

definition execute_rollback_backfill :: "'w execution_env \<Rightarrow> migration_lease \<Rightarrow> rollback_manifest \<Rightarrow> open_rollback_plan option \<Rightarrow> nat \<Rightarrow>
    ('w, rollback_backfill_progress res) io" where
  "execute_rollback_backfill env lease rollback snapshot operation_index =
     try_io (lift_res (backfill_operation rollback operation_index)) (\<lambda>backfill_index.
     try_io (lift_res (ok_or (Option.bind (nth_opt (rollback_backfills rollback) backfill_index) as_backfill)
         (execution_failure ''migration_execution_backfill_step_position''))) (\<lambda>(contract, plan).
     let events = (case snapshot of
           None \<Rightarrow> []
         | Some open_record \<Rightarrow> recorded_rollback_backfill_events open_record rollback operation_index);
         last_event = map_option backfill_event_kind (last_opt events) in
     if (case last_event of Some kind \<Rightarrow> is_completion_event kind | None \<Rightarrow> False)
     then try_io (lift_res (ok_or (Option.bind (last_opt events) backfill_event_completion)
         (execution_failure ''migration_execution_backfill_completion_missing''))) (\<lambda>completion.
       return_io (Inr (rollback_backfill_result rollback operation_index backfill_index completion)))
     else try_io (await_interruptible env (env_observe_backfill env lease plan Reverse)) (\<lambda>observation.
       case decide_backfill_recovery last_event observation (backfill_step_plan_fingerprint contract) Reverse of
         RequiresExplicitRecovery \<Rightarrow>
           return_io (Inr (RollbackBackfillStopped (rollback_backfill_explicit_recovery rollback operation_index
             (execution_failure ''migration_execution_ambiguous_backfill_state''))))
       | RepairCheckpoint \<Rightarrow>
           (case observation of
              BackfillComplete completion \<Rightarrow>
                record_rollback_backfill_completed env lease rollback operation_index backfill_index completion
            | _ \<Rightarrow> return_io (Inl (execution_failure ''migration_execution_backfill_observation_mismatch'')))
       | ExecuteNormally \<Rightarrow> run_rollback_backfill env lease rollback operation_index backfill_index contract plan)))"

section \<open>Executing a rollback\<close>

datatype 'a rollback_flow = RollbackContinue 'a | RollbackStop rollback_outcome

definition execute_rollback_operation :: "'w execution_env \<Rightarrow> execution_resource_limits \<Rightarrow> migration_lease \<Rightarrow> rollback_manifest \<Rightarrow>
    open_rollback_plan option \<Rightarrow> nat \<times> rollback_operation \<Rightarrow> execution_progress \<Rightarrow> ('w, execution_progress rollback_flow res) io" where
  "execute_rollback_operation env limits lease rollback snapshot = (\<lambda>(operation_index, operation) (observed, observations).
     case operation of
       RollbackBackfill _ \<Rightarrow>
         try_io (execute_rollback_backfill env lease rollback snapshot operation_index) (\<lambda>progress.
           case progress of
             RollbackBackfillStopped outcome \<Rightarrow> return_io (Inr (RollbackStop outcome))
           | RollbackBackfillDone observation \<Rightarrow>
               lift_res (bind_res (retain_backfill_observation limits observations observation) (\<lambda>kept.
                 Inr (RollbackContinue (observed, kept)))))
     | RollbackSchemaDelta step_index \<Rightarrow>
         try_io (execute_rollback_step env lease rollback
             (Option.bind snapshot (\<lambda>open_record. last_rollback_step_event open_record rollback step_index)) step_index observed) (\<lambda>progress.
           case progress of
             RollbackStepStopped outcome \<Rightarrow> return_io (Inr (RollbackStop outcome))
           | RollbackStepDone observed' \<Rightarrow> return_io (Inr (RollbackContinue (observed', observations)))))"

fun execute_rollback_operations :: "'w execution_env \<Rightarrow> execution_resource_limits \<Rightarrow> migration_lease \<Rightarrow> rollback_manifest \<Rightarrow>
    open_rollback_plan option \<Rightarrow> (nat \<times> rollback_operation) list \<Rightarrow> execution_progress \<Rightarrow> ('w, execution_progress rollback_flow res) io" where
  "execute_rollback_operations env limits lease rollback snapshot [] progress = return_io (Inr (RollbackContinue progress))"
| "execute_rollback_operations env limits lease rollback snapshot (operation # rest) progress =
     try_io (env_check env) (\<lambda>_.
     try_io (execute_rollback_operation env limits lease rollback snapshot operation progress) (\<lambda>flow.
       case flow of
         RollbackStop outcome \<Rightarrow> return_io (Inr (RollbackStop outcome))
       | RollbackContinue progress' \<Rightarrow> execute_rollback_operations env limits lease rollback snapshot rest progress'))"

definition retire_manifest :: "'w execution_env \<Rightarrow> manifest_digest \<Rightarrow> migration_lease \<Rightarrow> rollback_manifest \<Rightarrow> execution_progress \<Rightarrow>
    ('w, execution_progress rollback_flow res) io" where
  "retire_manifest env digest lease rollback = (\<lambda>(observed, observations).
     let restored = manifest_source_state (rollback_manifest_of rollback); last_step = length (rollback_operations rollback) - 1 in
     try_io (case observed of Some live \<Rightarrow> return_io (Inr live) | None \<Rightarrow> env_observe env lease restored restored) (\<lambda>final.
       if final \<noteq> restored
       then return_io (Inr (RollbackStop (RollbackExplicitRecovery (rollback_id rollback) last_step
         (execution_failure ''migration_execution_manifest_target_mismatch''))))
       else try_io (lift_res (rolled_back_record_of digest lease (rollback_manifest_of rollback))) (\<lambda>retired.
         bind_io (env_record_rolled_back env lease retired) (\<lambda>r.
           case r of
             Inl e \<Rightarrow> return_io (Inr (RollbackStop (RollbackRetrySafe (rollback_id rollback) last_step e)))
           | Inr _ \<Rightarrow> return_io (Inr (RollbackContinue (Some final, observations)))))))"

definition execute_rollback_manifest :: "'w execution_env \<Rightarrow> execution_resource_limits \<Rightarrow> manifest_digest \<Rightarrow> migration_lease \<Rightarrow>
    open_rollback_plan option \<Rightarrow> rollback_manifest \<Rightarrow> execution_progress \<Rightarrow> ('w, execution_progress rollback_flow res) io" where
  "execute_rollback_manifest env limits digest lease snapshot rollback progress =
     try_io (execute_rollback_operations env limits lease rollback snapshot
         (zip [0..<length (rollback_operations rollback)] (rollback_operations rollback)) progress) (\<lambda>flow.
       case flow of
         RollbackStop outcome \<Rightarrow> return_io (Inr (RollbackStop outcome))
       | RollbackContinue progress' \<Rightarrow> retire_manifest env digest lease rollback progress')"

fun execute_rollback_manifests :: "'w execution_env \<Rightarrow> execution_resource_limits \<Rightarrow> manifest_digest \<Rightarrow> migration_lease \<Rightarrow>
    open_rollback_plan option \<Rightarrow> rollback_manifest list \<Rightarrow> execution_progress \<Rightarrow> ('w, rollback_outcome res) io" where
  "execute_rollback_manifests env limits digest lease snapshot [] (observed, observations) = return_io (Inr (RolledBack observations))"
| "execute_rollback_manifests env limits digest lease snapshot (rollback # rest) progress =
     try_io (execute_rollback_manifest env limits digest lease snapshot rollback progress) (\<lambda>flow.
       case flow of
         RollbackStop outcome \<Rightarrow> return_io (Inr outcome)
       | RollbackContinue progress' \<Rightarrow> execute_rollback_manifests env limits digest lease snapshot rest progress')"

section \<open>Validating an open rollback plan\<close>

definition check_retirement :: "manifest_digest \<Rightarrow> rollback_manifest list \<Rightarrow> migration_lease \<Rightarrow> journal_sequence \<Rightarrow>
    ledger_record journal_entry \<Rightarrow> bool list \<times> journal_sequence option \<Rightarrow> (bool list \<times> journal_sequence option) res" where
  "check_retirement digest rollbacks lease plan_sequence entry = (\<lambda>(flags, previous).
     let sequence = entry_sequence entry; r = entry_record entry in
     if (case previous of None \<Rightarrow> False | Some p \<Rightarrow> sequence \<le> p)
     then Inl (execution_failure ''migration_execution_applied_order_mismatch'')
     else if sequence \<le> plan_sequence then Inr (flags, Some sequence)
     else
       (case index_of (\<lambda>m. rollback_id m = ledger_id r \<and> rollback_digest m = ledger_digest r) rollbacks of
          None \<Rightarrow> Inl (execution_failure ''migration_execution_foreign_applied_progress'')
        | Some i \<Rightarrow>
            bind_res (rolled_back_record_of digest (lease_new (lease_scope lease) (lease_holder lease) (ledger_fence r))
                (rollback_manifest_of (rollbacks ! i))) (\<lambda>expected.
              if flags ! i \<or> expected \<noteq> r then Inl (execution_failure ''migration_execution_applied_evidence_mismatch'')
              else Inr (flags[i := True], Some sequence))))"

definition exact_rollback :: "rollback_manifest list \<Rightarrow> fingerprint \<Rightarrow> migration_id \<Rightarrow> rollback_manifest res" where
  "exact_rollback rollbacks digest i =
     bind_res (ok_or (index_of (\<lambda>m. rollback_digest m = digest \<and> rollback_id m = i) rollbacks)
       (execution_failure ''migration_execution_foreign_group_event'')) (\<lambda>k. Inr (rollbacks ! k))"

definition check_rollback_event :: "rollback_manifest list \<Rightarrow> migration_lease \<Rightarrow> rollback_event_record \<Rightarrow> unit \<Rightarrow> unit res" where
  "check_rollback_event rollbacks lease r _ =
     bind_res (exact_rollback rollbacks (rollback_event_digest r) (rollback_event_id r)) (\<lambda>rollback.
     bind_res (rollback_event_new (lease_new (lease_scope lease) (lease_holder lease) (rollback_event_fence r)) rollback
         (rollback_event_ordinal r) (rollback_event_kind r) (rollback_event_observed_target r)) (\<lambda>expected.
       if expected \<noteq> r then Inl (execution_failure ''migration_execution_group_event_mismatch'') else Inr ()))"

definition check_rollback_backfill_event :: "rollback_manifest list \<Rightarrow> migration_lease \<Rightarrow> backfill_event_record \<Rightarrow> unit \<Rightarrow> unit res" where
  "check_rollback_backfill_event rollbacks lease r _ =
     bind_res (exact_rollback rollbacks (backfill_event_digest r) (backfill_event_id r)) (\<lambda>rollback.
     bind_res (backfill_event_rollback (lease_new (lease_scope lease) (lease_holder lease) (backfill_event_fence r)) rollback
         (backfill_event_ordinal r) (backfill_event_kind r) (backfill_event_completion r)) (\<lambda>expected.
       if expected \<noteq> r then Inl (execution_failure ''migration_execution_group_event_mismatch'') else Inr ()))"

definition rollback_transitions_of :: "open_rollback_plan \<Rightarrow> rollback_manifest \<Rightarrow> operation_transitions list" where
  "rollback_transitions_of plan rollback =
     map (\<lambda>(i, operation). (i,
         case operation of
           RollbackSchemaDelta step_index \<Rightarrow>
             map (\<lambda>e. (rollback_event_kind e, rollback_event_fence e)) (rollback_step_events plan rollback step_index)
         | RollbackBackfill _ \<Rightarrow>
             map (\<lambda>e. (backfill_event_kind e, backfill_event_fence e)) (rollback_backfill_events plan rollback i)))
       (zip [0..<length (rollback_operations rollback)] (rollback_operations rollback))"

definition check_rollback_progress :: "open_rollback_plan \<Rightarrow> bool list \<Rightarrow> nat \<Rightarrow> nat \<times> rollback_manifest \<Rightarrow> unit \<Rightarrow> unit res" where
  "check_rollback_progress plan flags completed = (\<lambda>(i, rollback) _.
     bind_res (fold_res check_operation (rollback_transitions_of plan rollback) (False, True)) (\<lambda>(_, all_complete).
       if flags ! i \<and> \<not> all_complete then Inl (execution_failure ''migration_execution_applied_group_mismatch'')
       else if completed < i \<and> list_ex (\<lambda>(_, transitions). transitions \<noteq> []) (rollback_transitions_of plan rollback)
       then Inl (execution_failure ''migration_execution_future_manifest_progress'')
       else Inr ()))"

definition validate_open_rollback_plan :: "manifest_digest \<Rightarrow> rollback_plan \<Rightarrow> migration_lease \<Rightarrow> open_rollback_plan \<Rightarrow>
    ledger_record journal_entry list \<Rightarrow> nat res" where
  "validate_open_rollback_plan digest plan lease open_record rolled_back =
     (let rollbacks = rollback_rollbacks plan; r = entry_record (open_rollback_entry open_record) in
      bind_res (rollback_plan_record_from_verified (lease_new (lease_scope lease) (lease_holder lease) (rollback_plan_fence r)) plan
          (applied_basis plan) (rollback_source_state plan)) (\<lambda>expected.
      if expected \<noteq> r then Inl (execution_failure ''migration_execution_open_plan_identity_mismatch'')
      else if rollback_plan_scope r \<noteq> lease_scope lease \<or> lease_fence lease < rollback_plan_fence r
      then Inl (execution_failure ''migration_execution_open_plan_fence_mismatch'')
      else bind_res (fold_res (check_retirement digest rollbacks lease (entry_sequence (open_rollback_entry open_record))) rolled_back
          (replicate (length rollbacks) False, None)) (\<lambda>(flags, _).
        let completed = length (takeWhile id flags) in
        if list_ex id (drop completed flags) then Inl (execution_failure ''migration_execution_non_prefix_applied_progress'')
        else
          bind_res (fold_res (\<lambda>e. check_rollback_event rollbacks lease (entry_record e)) (open_rollback_events open_record) ()) (\<lambda>_.
          bind_res (fold_res (\<lambda>e. check_rollback_backfill_event rollbacks lease (entry_record e)) (open_rollback_backfills open_record) ()) (\<lambda>_.
          bind_res (fold_res (check_rollback_progress open_record flags completed) (zip [0..<length rollbacks] rollbacks) ()) (\<lambda>_.
            Inr completed))))))"

section \<open>Executing a rollback plan\<close>

definition begin_fresh_rollback :: "'w execution_env \<Rightarrow> migration_lease \<Rightarrow> rollback_plan \<Rightarrow> ledger_record journal_entry list \<Rightarrow>
    ('w, managed_schema_state res) io" where
  "begin_fresh_rollback env lease plan applied =
     try_io (await_interruptible env (env_observe env lease (rollback_source_state plan) (rollback_source_state plan))) (\<lambda>live.
     try_io (lift_res (loaded_applied_migrations applied)) (\<lambda>ids.
     try_io (lift_res (rollback_plan_record_from_verified lease plan ids live)) (\<lambda>r.
     try_io (env_begin_rollback_plan env lease r) (\<lambda>_. return_io (Inr live)))))"

definition execute_rollback_under_lease :: "'w execution_env \<Rightarrow> execution_resource_limits \<Rightarrow> manifest_digest \<Rightarrow> migration_lease \<Rightarrow>
    rollback_plan \<Rightarrow> ('w, rollback_outcome res) io" where
  "execute_rollback_under_lease env limits digest lease plan =
     try_io (env_check env) (\<lambda>_.
     try_io (env_load_applied env lease) (\<lambda>applied.
     try_io (env_load_rolled_back env lease) (\<lambda>rolled_back.
     try_io (env_load_open_rollback_plan env lease) (\<lambda>snapshot.
     case snapshot of
       Some open_record \<Rightarrow>
         try_io (lift_res (validate_open_rollback_plan digest plan lease open_record rolled_back)) (\<lambda>completed.
           execute_rollback_manifests env limits digest lease (Some open_record) (drop completed (rollback_rollbacks plan)) (None, []))
     | None \<Rightarrow>
         try_io (begin_fresh_rollback env lease plan applied) (\<lambda>live.
           execute_rollback_manifests env limits digest lease None (rollback_rollbacks plan) (Some live, []))))))"

definition finish_rollback_lease_release :: "rollback_outcome res \<Rightarrow> unit res \<Rightarrow> rollback_outcome res" where
  "finish_rollback_lease_release result release =
     (case release of
        Inr _ \<Rightarrow> result
      | Inl _ \<Rightarrow>
          (case result of
             Inr (RollbackRetrySafe i p _) \<Rightarrow> Inr (RollbackRetrySafe i p lease_release_uncertainty)
           | Inr (RollbackExplicitRecovery i p _) \<Rightarrow> Inr (RollbackExplicitRecovery i p lease_release_uncertainty)
           | _ \<Rightarrow> Inl lease_release_uncertainty))"

definition require_authorized_rollback_plan :: "rollback_plan \<Rightarrow> unit res" where
  "require_authorized_rollback_plan plan =
     (if rollback_execution_authorized plan then Inr () else Inl (invalid_contract ''migration_rollback_preview_not_executable''))"

definition check_rollback_capabilities :: "capability_set \<Rightarrow> rollback_manifest \<Rightarrow> unit \<Rightarrow> unit res" where
  "check_rollback_capabilities available rollback _ =
     bind_res (fold_res (\<lambda>step _. bind_res (reverse_delta rollback step) (\<lambda>reverse.
         ensure_supported_by (delta_required_capabilities reverse) available)) (rollback_steps rollback) ()) (\<lambda>_.
       fold_res (\<lambda>step _. bind_res (ok_or (as_backfill step) (execution_failure ''migration_execution_backfill_step_position''))
         (\<lambda>(_, plan). ensure_supported_by (backfill_required_capabilities plan) available)) (rollback_backfills rollback) ())"

definition check_rollback_plan :: "capability_set \<Rightarrow> bool \<Rightarrow> execution_resource_limits \<Rightarrow> rollback_plan \<Rightarrow> unit res" where
  "check_rollback_plan available supports_backfill limits plan =
     bind_res (require_authorized_rollback_plan plan) (\<lambda>_.
       if rollback_rollbacks plan = [] then Inl (invalid_contract ''migration_execution_empty_plan'')
       else if \<not> supports_backfill \<and> list_ex (\<lambda>m. rollback_backfills m \<noteq> []) (rollback_rollbacks plan)
       then Inl (invalid_contract ''migration_execution_backfill_provider_required'')
       else bind_res (fold_res (check_rollback_capabilities available) (rollback_rollbacks plan) ()) (\<lambda>_.
         if limit_transaction_groups limits < int (sum_list (map (\<lambda>m. length (rollback_operations m)) (rollback_rollbacks plan)))
         then Inl execution_group_limit else Inr ()))"

definition execute_rollback_plan_controlled :: "'w execution_env \<Rightarrow> execution_resource_limits \<Rightarrow> manifest_digest \<Rightarrow> string \<Rightarrow>
    rollback_plan \<Rightarrow> ('w, rollback_outcome res) io" where
  "execute_rollback_plan_controlled env limits digest holder plan =
     try_io (env_check env) (\<lambda>_.
     try_io (lift_res (check_rollback_plan (env_capabilities env) (env_supports_backfill env) limits plan)) (\<lambda>_.
     try_io (env_acquire env (binding_scope_id (state_scope (rollback_source_state plan))) holder) (\<lambda>lease.
     bind_io (execute_rollback_under_lease env limits digest lease plan) (\<lambda>result.
     bind_io (env_release env lease) (\<lambda>release. return_io (finish_rollback_lease_release result release))))))"

end
