(* ===== verification/Rollback_Safety.thy ===== *)
theory Rollback_Safety
  imports Crash_Safety Rollback_Coordinator
begin

text \<open>
  Crash safety of rollback steps. The coordinator documents that a reverse step runs with the same
  commit-boundary journaling and the same recovery table as a forward group. The reverse program of a
  rollback step is therefore read as a transaction group of its own, and executing the step is shown to
  be executing that group with the events stored as rollback events. The crash safety of groups carries
  over to rollback steps through this equivalence.
\<close>

section \<open>Mapping results\<close>

definition map_io :: "('a \<Rightarrow> 'b) \<Rightarrow> ('w, 'a) io \<Rightarrow> ('w, 'b) io" where
  "map_io f m w = (case m w of (r, w') \<Rightarrow> (map_option f r, w'))"

lemma map_io_return [simp]: "map_io f (return_io x) = return_io (f x)"
  by (simp add: map_io_def return_io_def fun_eq_iff)

lemma map_io_bind: "map_io f (bind_io m g) = bind_io m (\<lambda>x. map_io f (g x))"
  by (simp add: map_io_def bind_io_def fun_eq_iff split: prod.split option.split)

lemma map_io_try: "map_io (map_sum id h) (try_io m g) = try_io m (\<lambda>x. map_io (map_sum id h) (g x))"
  by (auto simp: map_io_def try_io_def bind_io_def return_io_def fun_eq_iff split: prod.split option.split sum.split)

lemma try_io_lift [simp]: "try_io (lift_res (Inr x)) f = f x" "try_io (lift_res (Inl e)) f = return_io (Inl e)"
  by (simp_all add: try_io_def lift_res_def bind_io_def return_io_def fun_eq_iff)

lemma try_io_return [simp]: "try_io (return_io (Inr x)) f = f x"
  by (simp add: try_io_def bind_io_def return_io_def fun_eq_iff)

section \<open>The group of a reverse step\<close>

fun position_ordinal :: "execution_position \<Rightarrow> nat" where
  "position_ordinal (PositionGroup n) = n"
| "position_ordinal (PositionBackfill n) = n"
| "position_ordinal PositionCheckpoint = 0"

fun mirror_outcome :: "execution_outcome \<Rightarrow> rollback_outcome" where
  "mirror_outcome (OutcomeApplied backfills) = RolledBack backfills"
| "mirror_outcome (OutcomeRetrySafe i p e) = RollbackRetrySafe i (position_ordinal p) e"
| "mirror_outcome (OutcomeExplicitRecovery i p e) = RollbackExplicitRecovery i (position_ordinal p) e"

fun mirror_progress :: "group_progress \<Rightarrow> rollback_progress" where
  "mirror_progress (GroupDone observed) = RollbackStepDone observed"
| "mirror_progress (GroupStopped outcome) = RollbackStepStopped (mirror_outcome outcome)"

abbreviation mirrored :: "('w, group_progress res) io \<Rightarrow> ('w, rollback_progress res) io" where
  "mirrored \<equiv> map_io (map_sum id mirror_progress)"

definition reverse_group :: "nat \<Rightarrow> transaction_group" where
  "reverse_group k = \<lparr>group_ordinal = k, group_first_step_index = k, group_delta_step_index = k\<rparr>"

definition reverse_program :: "rollback_manifest \<Rightarrow> rollback_step \<Rightarrow> schema_delta" where
  "reverse_program rollback step =
     (case reverse_delta rollback step of Inr reverse \<Rightarrow> reverse | Inl _ \<Rightarrow> lowering_delta (rollback_lowering step))"

definition reverse_apply_step :: "rollback_manifest \<Rightarrow> rollback_step \<Rightarrow> apply_step" where
  "reverse_apply_step rollback step =
     (let reverse = reverse_program rollback step in
      ApplySchemaDelta (StepSchemaDelta
        \<lparr>delta_step_contract = \<lparr>delta_step_fingerprint = lowering_fingerprint (rollback_lowering step), delta_step_id = rollback_forward_id step,
           delta_step_recovery = OperatorRequired, delta_step_capabilities = delta_required_capabilities reverse,
           delta_step_retry = RetryNever, delta_step_reverse = None,
           delta_step_source_semantics = state_managed_semantic_schema (delta_source reverse),
           delta_step_target_semantics = state_managed_semantic_schema (delta_target reverse)\<rparr>,
         delta_step_delta = reverse, delta_step_kind = KindSchemaDelta\<rparr>) (rollback_lowering step))"

definition reverse_apply :: "rollback_manifest \<Rightarrow> apply_manifest" where
  "reverse_apply rollback =
     \<lparr>apply_digest = rollback_digest rollback, apply_manifest_of = rollback_manifest_of rollback,
      apply_steps = map (reverse_apply_step rollback) (rollback_steps rollback),
      apply_groups = map reverse_group [0..<length (rollback_steps rollback)], apply_backfill_indices = []\<rparr>"

definition forward_event :: "rollback_event_record \<Rightarrow> group_event_record" where
  "forward_event e = \<lparr>group_event_scope = rollback_event_scope e, group_event_fence = rollback_event_fence e,
     group_event_digest = rollback_event_digest e, group_event_id = rollback_event_id e, group_event_ordinal = rollback_event_ordinal e,
     group_event_first_step = rollback_event_ordinal e, group_event_delta_step = rollback_event_ordinal e,
     group_event_end_step = rollback_event_ordinal e + 1, group_event_kind = rollback_event_kind e,
     group_event_observed_target = rollback_event_observed_target e\<rparr>"

definition reverse_event :: "group_event_record \<Rightarrow> rollback_event_record" where
  "reverse_event e = \<lparr>rollback_event_scope = group_event_scope e, rollback_event_fence = group_event_fence e,
     rollback_event_digest = group_event_digest e, rollback_event_id = group_event_id e, rollback_event_ordinal = group_event_ordinal e,
     rollback_event_kind = group_event_kind e, rollback_event_observed_target = group_event_observed_target e\<rparr>"

lemma reverse_forward_event [simp]: "reverse_event (forward_event e) = e"
  by (simp add: reverse_event_def forward_event_def)

definition reversed_env :: "'w execution_env \<Rightarrow> 'w execution_env" where
  "reversed_env env = env\<lparr>env_record_group_event := (\<lambda>lease e.
     if forward_event (reverse_event e) = e then env_record_rollback_event env lease (reverse_event e) else return_io (Inl (execution_failure ''migration_execution_foreign_event'')))\<rparr>"

section \<open>A reverse step is a group\<close>

lemma reverse_selectors [simp]:
  "group_ordinal (reverse_group k) = k" "group_first_step_index (reverse_group k) = k" "group_delta_step_index (reverse_group k) = k"
  "assertion_count (reverse_group k) = 0" "end_step_index (reverse_group k) = Suc k"
  "apply_digest (reverse_apply rollback) = rollback_digest rollback"
  "apply_manifest_of (reverse_apply rollback) = rollback_manifest_of rollback"
  "apply_id (reverse_apply rollback) = rollback_id rollback"
  by (simp_all add: reverse_group_def reverse_apply_def assertion_count_def end_step_index_def apply_id_def rollback_id_def)

definition reverse_step :: "rollback_manifest \<Rightarrow> nat \<Rightarrow> rollback_step \<Rightarrow> schema_delta \<Rightarrow> bool" where
  "reverse_step rollback k step reverse \<longleftrightarrow> nth_opt (rollback_steps rollback) k = Some step
     \<and> reverse_delta rollback step = Inr reverse \<and> int k + 1 < 4294967296"

lemma reverse_step_nth:
  assumes "reverse_step rollback k step reverse"
  shows "nth_opt (apply_groups (reverse_apply rollback)) k = Some (reverse_group k)"
    and "nth_opt (apply_steps (reverse_apply rollback)) k = Some (reverse_apply_step rollback step)"
    and "reverse_program rollback step = reverse"
  using assms by (auto simp: reverse_step_def reverse_apply_def nth_opt_def reverse_program_def split: if_splits)

lemma group_delta_reverse:
  assumes "reverse_step rollback k step reverse"
  shows "group_delta (reverse_apply rollback) (reverse_group k) code = Inr (reverse, rollback_lowering step)"
  using reverse_step_nth [OF assms]
  by (simp add: group_delta_def reverse_apply_step_def Let_def ok_or_def res_simps)

lemma group_event_reverse:
  assumes "reverse_step rollback k step reverse"
  shows "group_event_new lease (reverse_apply rollback) (reverse_group k) kind observed
    = map_sum id forward_event (rollback_event_new lease rollback k kind observed)"
proof -
  have k: "nth_opt (rollback_steps rollback) k = Some step" "reverse_delta rollback step = Inr reverse" "int k + 1 < 4294967296"
    using assms by (simp_all add: reverse_step_def)
  have position: "position k = Inr k" "position (Suc k) = Inr (Suc k)" using k(3) by (simp_all add: position_def)
  have evidence: "check_group_evidence (reverse_group k) reverse (rollback_lowering step) kind observed
      = check_reverse_evidence reverse (rollback_lowering step) kind observed"
    by (cases kind) (simp_all add: check_group_evidence_def check_reverse_evidence_def)
  show ?thesis
    using reverse_step_nth(1) [OF assms] k
    by (auto simp: group_event_new_def rollback_event_new_def group_delta_reverse [OF assms] evidence position rollback_scope_def
        forward_event_def rollback_id_def ok_or_def Let_def bind_res_def
        split: sum.split)
qed

lemma reversed_env_simps [simp]:
  "env_check (reversed_env env) = env_check env" "env_interrupt (reversed_env env) = env_interrupt env"
  "env_observe (reversed_env env) = env_observe env" "env_prepare (reversed_env env) = env_prepare env"
  "env_execute_assertion (reversed_env env) = env_execute_assertion env" "env_execute_unit (reversed_env env) = env_execute_unit env"
  "env_commit (reversed_env env) = env_commit env" "env_rollback (reversed_env env) = env_rollback env"
  "env_record_group_event (reversed_env env) lease (forward_event e) = env_record_rollback_event env lease e"
  by (simp_all add: reversed_env_def)

lemma reversed_await [simp]: "await_interruptible (reversed_env env) m = await_interruptible env m"
  by (simp add: await_interruptible_def)

lemma reversed_cleanup [simp]: "rollback_prepared_group_error (reversed_env env) e = rollback_prepared_group_error env e"
  by (simp add: rollback_prepared_group_error_def)

lemma reversed_guarded [simp]: "guarded (reversed_env env) m = guarded env m"
  by (simp add: guarded_def cong: sum.case_cong if_cong)

lemma reversed_units [simp]: "run_units (reversed_env env) us = run_units env us"
  by (induction us) simp_all

lemma mirrored_cases:
  "mirrored (case r of Inl e \<Rightarrow> f e | Inr x \<Rightarrow> g x) = (case r of Inl e \<Rightarrow> mirrored (f e) | Inr x \<Rightarrow> mirrored (g x))"
  "mirrored (case d of ExecuteNormally \<Rightarrow> a | RepairCheckpoint \<Rightarrow> b | RequiresExplicitRecovery \<Rightarrow> c)
    = (case d of ExecuteNormally \<Rightarrow> mirrored a | RepairCheckpoint \<Rightarrow> mirrored b | RequiresExplicitRecovery \<Rightarrow> mirrored c)"
  "mirrored (if q then a else b) = (if q then mirrored a else mirrored b)"
  by (auto split: sum.split recovery_decision.split)

lemmas outcome_defs = retry_safe_def rollback_retry_safe_def explicit_recovery_def rollback_explicit_recovery_def

lemma mirrored_cleanup: "mirrored (rollback_prepared_group_error env e) = rollback_prepared_group_error env e"
  by (simp add: rollback_prepared_group_error_def map_io_bind)

lemma mirrored_record:
  assumes "reverse_step rollback k step reverse"
  shows "mirrored (record_event (reversed_env env) lease (reverse_apply rollback) (reverse_group k) kind observed failed next)
    = record_rollback_event env lease rollback k kind observed (\<lambda>e. mirrored (failed e)) (mirrored next)"
  unfolding record_event_def record_rollback_event_def group_event_reverse [OF assms]
  by (cases "rollback_event_new lease rollback k kind observed") (auto simp: map_io_bind intro!: arg_cong2 [where f = bind_io] split: sum.split)

lemma mirrored_committed:
  assumes "reverse_step rollback k step reverse"
  shows "mirrored (record_committed (reversed_env env) lease (reverse_apply rollback) (reverse_group k) target observed)
    = record_rollback_committed env lease rollback k target observed"
  by (simp add: record_committed_def record_rollback_committed_def mirrored_record [OF assms] retry_safe_def rollback_retry_safe_def)

lemma mirrored_succeeded:
  assumes "reverse_step rollback k step reverse"
  shows "mirrored (commit_succeeded (reversed_env env) lease (reverse_apply rollback) (reverse_group k) source target)
    = rollback_commit_succeeded env lease rollback k source target"
  by (simp add: commit_succeeded_def rollback_commit_succeeded_def map_io_bind mirrored_cases mirrored_committed [OF assms] outcome_defs
      cong: sum.case_cong if_cong)

lemma mirrored_failed:
  assumes "reverse_step rollback k step reverse"
  shows "mirrored (commit_failed (reversed_env env) lease (reverse_apply rollback) (reverse_group k) source target failed)
    = rollback_commit_failed env lease rollback k source target failed"
proof (cases failed)
  case (Pair certainty e)
  then show ?thesis
    by (cases certainty) (simp_all add: commit_failed_def rollback_commit_failed_def mirrored_record [OF assms] map_io_bind mirrored_cases
        mirrored_committed [OF assms] outcome_defs cong: sum.case_cong recovery_decision.case_cong if_cong)
qed

lemma mirrored_transaction:
  assumes "reverse_step rollback k step reverse"
  shows "mirrored (run_transaction (reversed_env env) lease (reverse_apply rollback) (reverse_group k) source target lowering)
    = run_rollback_transaction env lease rollback k source target lowering"
  by (simp add: run_transaction_def run_rollback_transaction_def map_io_try mirrored_record [OF assms] map_io_bind mirrored_cases
      mirrored_cleanup mirrored_succeeded [OF assms] mirrored_failed [OF assms] cong: sum.case_cong if_cong)

text \<open>
  A rollback step executes exactly as the transaction group of its reverse program: with the same provider
  calls in the same order, the same events, stored as rollback events of the step, and the same outcome.
\<close>

lemma rollback_step_is_group:
  assumes "reverse_step rollback k step reverse"
  shows "execute_rollback_step env lease rollback last_event k observed
    = mirrored (execute_group (reversed_env env) lease (reverse_apply rollback) last_event (reverse_group k) observed)"
proof -
  have k: "nth_opt (rollback_steps rollback) k = Some step" "reverse_delta rollback step = Inr reverse"
    using assms by (simp_all add: reverse_step_def)
  show ?thesis
    by (simp add: execute_rollback_step_def execute_group_def group_evidence_def group_delta_reverse [OF assms] k ok_or_def bind_res_def
        map_io_try mirrored_cases mirrored_record [OF assms] mirrored_committed [OF assms] mirrored_transaction [OF assms] outcome_defs
        Let_def cong: recovery_decision.case_cong if_cong option.case_cong)
qed

section \<open>The contract of the rollback journal\<close>

locale rollback_world = provider_world env live journal prepared commits
  for env :: "'w execution_env" and live and journal :: "'w \<Rightarrow> string \<Rightarrow> rollback_event_record list" and prepared and commits +
  assumes rollback_appends: "env_record_rollback_event env lease e w = (r, w') \<Longrightarrow>
      live w' = live w \<and> prepared w' = prepared w \<and> commits w' = commits w
      \<and> (journal w' = (journal w)(rollback_event_scope e := journal w (rollback_event_scope e) @ [e])
         \<or> journal w' = journal w \<and> r \<noteq> Some (Inr ()))"

definition forward_journal :: "('w \<Rightarrow> string \<Rightarrow> rollback_event_record list) \<Rightarrow> 'w \<Rightarrow> string \<Rightarrow> group_event_record list" where
  "forward_journal journal w scope = map forward_event (journal w scope)"

lemma forward_journal_update:
  assumes "journal w' = (journal w)(rollback_event_scope e := journal w (rollback_event_scope e) @ [e])"
  shows "forward_journal journal w' = (forward_journal journal w)
    (rollback_event_scope e := forward_journal journal w (rollback_event_scope e) @ [forward_event e])"
  using assms by (simp add: forward_journal_def fun_eq_iff)

lemma forward_journal_same: "journal w' = journal w \<Longrightarrow> forward_journal journal w' = forward_journal journal w"
  by (simp add: forward_journal_def fun_eq_iff)

sublocale rollback_world \<subseteq> reversed: execution_world "reversed_env env" live "forward_journal journal" prepared commits
proof
  fix w r w' lease e
  assume run: "env_record_group_event (reversed_env env) lease e w = (r, w')"
  show "live w' = live w \<and> prepared w' = prepared w \<and> commits w' = commits w
      \<and> (forward_journal journal w' = (forward_journal journal w)(group_event_scope e := forward_journal journal w (group_event_scope e) @ [e])
         \<or> forward_journal journal w' = forward_journal journal w \<and> r \<noteq> Some (Inr ()))"
  proof (cases "forward_event (reverse_event e) = e")
    case True
    then have step: "env_record_rollback_event env lease (reverse_event e) w = (r, w')" using run by (simp add: reversed_env_def)
    have "rollback_event_scope (reverse_event e) = group_event_scope e" by (simp add: reverse_event_def)
    with rollback_appends [OF step] forward_journal_update [of journal w' w "reverse_event e"] forward_journal_same [of journal w' w] True
    show ?thesis by auto
  next
    case False
    then show ?thesis using run by (auto simp: reversed_env_def return_io_def)
  qed
qed (auto dest: check_quiet interrupt_quiet assertion_quiet unit_quiet rollback_quiet observe_live prepare_binds commit_once
    intro: forward_journal_same)

context rollback_world
begin

lemma reversed_execution: "execution_world (reversed_env env) live (forward_journal journal) prepared commits"
  by (rule reversed.execution_world_axioms)

end

section \<open>Sequences of attempts\<close>

text \<open>
  Attempts at one rollback step, as for a group: each under a fence greater than that of every stored event
  of the step, from the last stored event, ending in any way; between them anything may happen that touches
  neither the live state, the events of the step nor the commits.
\<close>

definition rollback_trail :: "rollback_manifest \<Rightarrow> nat \<Rightarrow> rollback_event_record list \<Rightarrow> (journal_event_kind \<times> execution_fence) list" where
  "rollback_trail rollback k events = map (\<lambda>e. (rollback_event_kind e, rollback_event_fence e))
     (filter (\<lambda>e. rollback_event_digest e = rollback_digest rollback \<and> rollback_event_ordinal e = k) events)"

inductive rollback_attempts :: "'w execution_env \<Rightarrow> ('w \<Rightarrow> managed_schema_state) \<Rightarrow> ('w \<Rightarrow> string \<Rightarrow> rollback_event_record list) \<Rightarrow>
    ('w \<Rightarrow> nat) \<Rightarrow> rollback_manifest \<Rightarrow> nat \<Rightarrow> 'w \<Rightarrow> 'w \<Rightarrow> bool"
  for env live journal commits rollback k w0 where
  untouched: "rollback_attempts env live journal commits rollback k w0 w0"
| elsewhere: "rollback_attempts env live journal commits rollback k w0 w \<Longrightarrow>
    live w' = live w \<Longrightarrow> commits w' = commits w \<Longrightarrow>
    rollback_trail rollback k (journal w' (rollback_scope rollback)) = rollback_trail rollback k (journal w (rollback_scope rollback)) \<Longrightarrow>
    rollback_attempts env live journal commits rollback k w0 w'"
| attempt: "rollback_attempts env live journal commits rollback k w0 w \<Longrightarrow>
    \<forall>(kind, fence) \<in> set (rollback_trail rollback k (journal w (rollback_scope rollback))). fence < lease_fence lease \<Longrightarrow>
    observed = None \<or> observed = Some (live w) \<Longrightarrow>
    execute_rollback_step env lease rollback (trail_kind (rollback_trail rollback k (journal w (rollback_scope rollback)))) k observed w = (r, w') \<Longrightarrow>
    rollback_attempts env live journal commits rollback k w0 w'"

lemma last_rollback_step_event_trail:
  "last_rollback_step_event plan rollback k = trail_kind (rollback_trail rollback k (map entry_record (open_rollback_events plan)))"
  by (simp add: last_rollback_step_event_def rollback_step_events_def trail_kind_def rollback_trail_def last_opt_def last_map)

lemma rollback_trail_forward:
  "group_trail (reverse_apply rollback) (reverse_group k) (forward_journal journal w (apply_scope (reverse_apply rollback)))
    = rollback_trail rollback k (journal w (rollback_scope rollback))"
  by (simp add: group_trail_def rollback_trail_def forward_journal_def apply_scope_def rollback_scope_def event_of_group_def filter_map
      forward_event_def comp_def)

lemma rollback_attempts_group:
  assumes step: "reverse_step rollback k step reverse" and "rollback_attempts env live journal commits rollback k w0 w"
  shows "group_attempts (reversed_env env) live (forward_journal journal) commits (reverse_apply rollback) (reverse_group k) w0 w"
  using assms(2)
proof (induction rule: rollback_attempts.induct)
  case (elsewhere w w')
  then show ?case by (auto intro: group_attempts.elsewhere simp: rollback_trail_forward)
next
  case (attempt w lease observed r w')
  let ?T = "rollback_trail rollback k (journal w (rollback_scope rollback))"
  obtain r' v where run: "execute_group (reversed_env env) lease (reverse_apply rollback) (trail_kind ?T) (reverse_group k) observed w = (r', v)"
    by force
  with attempt.hyps(4) have "v = w'" by (simp add: rollback_step_is_group [OF step] map_io_def)
  with run attempt.IH attempt.hyps(2,3) show ?case
    by (auto intro!: group_attempts.attempt [of _ _ _ _ _ _ _ w lease observed r'] simp: rollback_trail_forward)
qed (rule group_attempts.untouched)

text \<open>
  C8. However many attempts at a rollback step are made under increasing fences, and wherever each of them
  fails or dies, its reverse program commits at most once, the database holds the state before the rollback
  until then and the restored state afterwards, the stored events form a sequence the coordinator accepts when
  it resumes, and a stored completion event means that the live schema has the restored semantics.
\<close>

theorem rollback_step_commit_once:
  assumes "rollback_world env live journal prepared commits" and "reverse_step rollback k step reverse"
    and "live w0 = delta_source reverse" and "commits w0 = 0" and "rollback_trail rollback k (journal w0 (rollback_scope rollback)) = []"
    and "rollback_attempts env live journal commits rollback k w0 w"
  shows "(live w = delta_source reverse \<and> commits w = 0 \<or> live w = delta_target reverse \<and> commits w = 1)
     \<and> validate_commit_transitions (rollback_trail rollback k (journal w (rollback_scope rollback))) = Inr ()
     \<and> (\<forall>kind. trail_kind (rollback_trail rollback k (journal w (rollback_scope rollback))) = Some kind \<and> is_completion_event kind \<longrightarrow>
          state_managed_semantic_schema (live w) = state_managed_semantic_schema (delta_target reverse))"
proof -
  let ?journal = "forward_journal journal" and ?migration = "reverse_apply rollback" and ?grp = "reverse_group k"
  have world: "execution_world (reversed_env env) live ?journal prepared commits"
    using assms(1) by (rule rollback_world.reversed_execution)
  have evidence: "group_evidence ?migration ?grp = Inr (delta_source reverse, delta_target reverse, rollback_lowering step)"
    by (simp add: group_evidence_def group_delta_reverse [OF assms(2)] bind_res_def)
  have start: "group_trail ?migration ?grp (?journal w0 (apply_scope ?migration)) = []" using assms(5) by (simp add: rollback_trail_forward)
  from group_invariant_outcome [OF attempts_invariant [OF world evidence rollback_attempts_group [OF assms(2,6)]
      group_invariant_start [of live w0 "delta_source reverse" commits ?migration ?grp ?journal "delta_target reverse", OF assms(3,4) start]]]
  show ?thesis by (simp add: rollback_trail_forward)
qed

end
