(* ===== verification/Rollback_Run.thy ===== *)
theory Rollback_Run
  imports Apply_Run Rollback_Safety
begin

text \<open>
  Rollbacks in the reference world: its store and provider satisfy the contract of the rollback crash-safety
  theory, and a ready rollback plan runs to its end. The reverse steps run as groups of the mirrored
  environment; the premises on the plan are what planning establishes.
\<close>

section \<open>The contract\<close>

definition stored_rollback_events :: "reference_world \<Rightarrow> string \<Rightarrow> rollback_event_record list" where
  "stored_rollback_events = scope_view (\<lambda>state. map entry_record (store_rollback_events state))"

lemma stored_rollback_events_record:
  assumes "with_store (acknowledged (store_record_rollback_event lease e)) w = (r, w')"
  shows "stored_rollback_events w' = (stored_rollback_events w)(rollback_event_scope e := stored_rollback_events w (rollback_event_scope e) @ [e])
    \<or> stored_rollback_events w' = stored_rollback_events w \<and> r \<noteq> Some (Inr ())"
  unfolding stored_rollback_events_def
  by (rule scope_view_records [OF assms [unfolded store_record_rollback_event_def]])
    (auto simp: take_sequence_def sequence_new_def split: option.splits if_splits sum.splits)

interpretation reference_rollback: rollback_world "reference_env available fp" world_observed stored_rollback_events world_transaction commit_count
proof
  fix w r w' lease e
  assume "env_record_rollback_event (reference_env available fp) lease e w = (r, w')"
  then have step: "with_store (acknowledged (store_record_rollback_event lease e)) w = (r, w')" by (simp add: reference_env_def)
  then have "world_observed w' = world_observed w" "world_transaction w' = world_transaction w" "commit_count w' = commit_count w"
    by (auto simp: with_store_def acknowledged_def commit_count_def split: prod.splits)
  with stored_rollback_events_record [OF step]
  show "world_observed w' = world_observed w \<and> world_transaction w' = world_transaction w \<and> commit_count w' = commit_count w
    \<and> (stored_rollback_events w' = (stored_rollback_events w)(rollback_event_scope e := stored_rollback_events w (rollback_event_scope e) @ [e])
       \<or> stored_rollback_events w' = stored_rollback_events w \<and> r \<noteq> Some (Inr ()))" by blast
qed (auto simp: reference_env_def provider_simps stored_rollback_events_def scope_view_def commit_count_def fun_eq_iff split: option.splits)

section \<open>Ready rollbacks\<close>

fun operation_chain :: "rollback_manifest \<Rightarrow> managed_schema_state \<Rightarrow> rollback_operation list \<Rightarrow> managed_schema_state \<Rightarrow> bool" where
  "operation_chain rollback current [] final \<longleftrightarrow> current = final"
| "operation_chain rollback current (RollbackSchemaDelta k # operations) final \<longleftrightarrow>
     (case nth_opt (rollback_steps rollback) k of
        None \<Rightarrow> False
      | Some step \<Rightarrow>
          (case reverse_delta rollback step of
             Inl _ \<Rightarrow> False
           | Inr reverse \<Rightarrow> delta_source reverse = current \<and> operation_chain rollback (delta_target reverse) operations final))"
| "operation_chain rollback current (RollbackBackfill k # operations) final \<longleftrightarrow> operation_chain rollback current operations final"

definition reverse_backfill_ready :: "(attribute_backfill_plan \<Rightarrow> fingerprint res) \<Rightarrow> rollback_manifest \<Rightarrow> nat \<Rightarrow> bool" where
  "reverse_backfill_ready fp rollback k \<longleftrightarrow>
     (case nth_opt (rollback_backfills rollback) k of
        None \<Rightarrow> False
      | Some step \<Rightarrow>
          (case as_backfill step of
             None \<Rightarrow> False
           | Some (contract, plan) \<Rightarrow> fp plan = Inr (backfill_step_plan_fingerprint contract) \<and> step \<in> set (manifest_steps (rollback_manifest_of rollback))))"

fun operation_ready :: "(attribute_backfill_plan \<Rightarrow> fingerprint res) \<Rightarrow> rollback_manifest \<Rightarrow> rollback_operation \<Rightarrow> bool" where
  "operation_ready fp rollback (RollbackBackfill k) \<longleftrightarrow> reverse_backfill_ready fp rollback k"
| "operation_ready fp rollback (RollbackSchemaDelta k) \<longleftrightarrow> True"

definition rollback_ready :: "manifest_digest \<Rightarrow> (attribute_backfill_plan \<Rightarrow> fingerprint res) \<Rightarrow> string \<Rightarrow> rollback_manifest \<Rightarrow> bool" where
  "rollback_ready digest fp scope rollback \<longleftrightarrow>
     (let manifest = rollback_manifest_of rollback; source = manifest_source_state manifest; target = manifest_target_state manifest in
      digest manifest = Inr (rollback_digest rollback)
      \<and> int (length (rollback_steps rollback)) < 4294967296 \<and> int (length (rollback_operations rollback)) < 4294967296
      \<and> int (length (manifest_steps manifest)) < 4294967296
      \<and> rollback_scope rollback = scope \<and> binding_scope_id (state_scope target) = scope \<and> state_scope source = state_scope target
      \<and> operation_chain rollback target (rollback_operations rollback) source
      \<and> list_all (operation_ready fp rollback) (rollback_operations rollback))"

definition rollback_records :: "rollback_manifest \<Rightarrow> nat" where
  "rollback_records rollback = 2 * length (rollback_operations rollback) + 1"

section \<open>Store steps\<close>

definition retiring :: "migration_lease \<Rightarrow> migration_id list \<Rightarrow> fingerprint list \<Rightarrow> nat \<Rightarrow> ledger_record journal_entry list \<Rightarrow> memory_store \<Rightarrow> bool" where
  "retiring lease ids digests budget active m \<longleftrightarrow>
     (\<exists>s plan log. fmlookup m (lease_scope lease) = Some s \<and> active_lease s = Some lease \<and> store_open_rollback s = Some plan
        \<and> store_open_plan s = None
        \<and> rollback_plan_ids (entry_record plan) = ids \<and> rollback_plan_digests (entry_record plan) = digests
        \<and> unat (next_sequence s) + budget < 2 ^ 64 \<and> ledger_history s log active)"

definition retired :: "migration_lease \<Rightarrow> ledger_record journal_entry list \<Rightarrow> memory_store \<Rightarrow> bool" where
  "retired lease active m \<longleftrightarrow>
     (\<exists>s log. fmlookup m (lease_scope lease) = Some s \<and> active_lease s = Some lease \<and> \<not> plan_open s \<and> ledger_history s log active)"

lemma retiring_mono: "retiring lease ids digests b active m \<Longrightarrow> b' \<le> b \<Longrightarrow> retiring lease ids digests b' active m"
  by (fastforce simp: retiring_def)

lemma record_rollback_event_runs:
  assumes "retiring lease ids digests (Suc b) active m"
    and "rollback_event_scope e = lease_scope lease" "rollback_event_fence e = lease_fence lease" "rollback_event_digest e \<in> set digests"
  shows "\<exists>entry m'. store_record_rollback_event lease e m = (Inr entry, m') \<and> retiring lease ids digests b active m'"
proof -
  from assms(1) obtain s plan log where s: "fmlookup m (lease_scope lease) = Some s" "active_lease s = Some lease" "store_open_rollback s = Some plan"
      "store_open_plan s = None" "rollback_plan_ids (entry_record plan) = ids" "rollback_plan_digests (entry_record plan) = digests"
    and budget: "unat (next_sequence s) + Suc b < 2 ^ 64" and history: "ledger_history s log active"
    by (auto simp: retiring_def)
  note take = take_sequence_succeeds [OF budget]
  have "ledger_history (s\<lparr>next_sequence := next_sequence s + 1, store_rollback_events := es\<rparr>) log active" for es
    by (rule ledger_history_bump [OF history]) (use take(2) in auto)
  then show ?thesis using s take(3) assms(2-4)
    by (simp add: store_record_rollback_event_def bound_record_def under_lease_def check_lease_def take(1) retiring_def) blast
qed

lemma record_reverse_backfill_runs:
  assumes "retiring lease ids digests (Suc b) active m"
    and "backfill_event_scope e = lease_scope lease" "backfill_event_fence e = lease_fence lease" "backfill_event_digest e \<in> set digests"
  shows "\<exists>entry m'. store_record_backfill_event lease e m = (Inr entry, m') \<and> retiring lease ids digests b active m'"
proof -
  from assms(1) obtain s plan log where s: "fmlookup m (lease_scope lease) = Some s" "active_lease s = Some lease" "store_open_rollback s = Some plan"
      "store_open_plan s = None" "rollback_plan_ids (entry_record plan) = ids" "rollback_plan_digests (entry_record plan) = digests"
    and budget: "unat (next_sequence s) + Suc b < 2 ^ 64" and history: "ledger_history s log active"
    by (auto simp: retiring_def)
  note take = take_sequence_succeeds [OF budget]
  have "ledger_history (s\<lparr>next_sequence := next_sequence s + 1, store_backfill_events := es\<rparr>) log active" for es
    by (rule ledger_history_bump [OF history]) (use take(2) in auto)
  then show ?thesis using s take(3) assms(2-4)
    by (simp add: store_record_backfill_event_def bound_record_def under_lease_def check_lease_def take(1) retiring_def Let_def) blast
qed

lemma remove_last_hit: "remove_last P xs = Some ys \<Longrightarrow> \<exists>x \<in> set xs. P x"
  by (induction xs arbitrary: ys rule: rev_induct) (auto simp: remove_last_snoc split: if_splits, simp add: remove_last_def)

lemma remove_last_filter:
  assumes "remove_last P xs = Some ys" and "distinct (map f xs)" and "\<And>x. P x \<Longrightarrow> f x = k"
  shows "ys = filter (\<lambda>x. f x \<noteq> k) xs"
  using assms(1,2)
proof (induction xs arbitrary: ys rule: rev_induct)
  case Nil
  then show ?case by (simp add: remove_last_def)
next
  case (snoc x xs)
  show ?case
  proof (cases "P x")
    case True
    then have "ys = xs" and "\<forall>y \<in> set xs. f y \<noteq> k" using snoc.prems assms(3) by (force simp: remove_last_snoc)+
    then show ?thesis using assms(3) [OF True] by simp
  next
    case False
    then obtain zs where zs: "remove_last P xs = Some zs" "ys = zs @ [x]" using snoc.prems(1) by (auto simp: remove_last_snoc)
    then obtain y where "y \<in> set xs" "f y = k" using remove_last_hit assms(3) by blast
    then have "f x \<noteq> k" using snoc.prems(2) by auto
    then show ?thesis using zs snoc.IH [OF zs(1)] snoc.prems(2) by simp
  qed
qed

definition ledger_has :: "ledger_record journal_entry list \<Rightarrow> rollback_manifest \<Rightarrow> bool" where
  "ledger_has active rollback \<longleftrightarrow>
     list_ex (\<lambda>e. ledger_id (entry_record e) = rollback_id rollback \<and> ledger_digest (entry_record e) = rollback_digest rollback) active"

definition without :: "migration_id \<Rightarrow> ledger_record journal_entry list \<Rightarrow> ledger_record journal_entry list" where
  "without i active = filter (\<lambda>e. ledger_id (entry_record e) \<noteq> i) active"

lemma record_rolled_back_runs:
  assumes running: "retiring lease ids digests (Suc b) active m"
    and r: "ledger_scope r = lease_scope lease" "ledger_fence r = lease_fence lease" "plan_names ids digests r"
    and hit: "ledger_has active rollback" "ledger_id r = rollback_id rollback" "ledger_digest r = rollback_digest rollback"
  shows "\<exists>entry m'. store_record_rolled_back lease r m = (Inr entry, m')
    \<and> (if list_all (\<lambda>i. i \<notin> set (active_ids (without (ledger_id r) active))) ids then retired lease (without (ledger_id r) active) m'
       else retiring lease ids digests b (without (ledger_id r) active) m')"
proof -
  from running obtain s plan log where s: "fmlookup m (lease_scope lease) = Some s" "active_lease s = Some lease" "store_open_rollback s = Some plan"
      "store_open_plan s = None" "rollback_plan_ids (entry_record plan) = ids" "rollback_plan_digests (entry_record plan) = digests"
    and budget: "unat (next_sequence s) + Suc b < 2 ^ 64" and history: "ledger_history s log active"
    by (auto simp: retiring_def)
  note take = take_sequence_succeeds [OF budget]
  let ?entry = "JournalEntry (next_sequence s + 1) r" and ?rest = "without (ledger_id r) active"
  let ?s = "s\<lparr>next_sequence := next_sequence s + 1, store_rolled_back := store_rolled_back s @ [?entry]\<rparr>"
  have found: "list_ex (\<lambda>e. ledger_id (entry_record e) = ledger_id r \<and> ledger_digest (entry_record e) = ledger_digest r) active"
    using hit by (simp add: ledger_has_def)
  then obtain rest where rest: "remove_last (same_migration ?entry) active = Some rest"
    by (auto simp: list_ex_iff same_migration_def dest: remove_last_some [where P = "same_migration ?entry"])
  moreover have "rest = ?rest" unfolding without_def
    by (rule remove_last_filter [OF rest]) (use history in \<open>auto simp: ledger_history_def active_ids_def same_migration_def\<close>)
  ultimately have history': "ledger_history ?s (log @ [LedgerRetired ?entry]) ?rest" using ledger_history_retired [OF history take(2)] by simp
  have "ledger_history (?s\<lparr>store_open_rollback := None, store_rollback_events := [], store_backfill_events := []\<rparr>) (log @ [LedgerRetired ?entry]) ?rest"
    by (rule ledger_history_bump [OF history']) auto
  moreover have "active_applied_entries (store_applied s) (store_rolled_back s @ [?entry]) = Inr ?rest"
    using ledger_history_active [OF history'] by simp
  moreover have "store_record_rolled_back lease r m = (let (q, t) = append_rolled_back plan r (next_sequence s + 1) (s\<lparr>next_sequence := next_sequence s + 1\<rparr>) in
      (q, fmupd (lease_scope lease) t m))"
    using s r found ledger_history_active [OF history]
    by (simp add: store_record_rolled_back_def bound_record_def under_lease_def check_lease_def take(1))
  ultimately show ?thesis using s history' take(3)
    by (auto simp: append_rolled_back_def Let_def retired_def retiring_def plan_open_def)
qed

section \<open>Reverse steps\<close>

interpretation retiring_world: reliable_world "reversed_env (reference_env available fp)" lease digests "\<lambda>e. forward_event (reverse_event e) = e"
  "\<lambda>b w. retiring lease ids digests b active (world_store w)"
proof
  fix b and w :: reference_world and e :: group_event_record
  assume running: "retiring lease ids digests (Suc b) active (world_store w)"
    and e: "group_event_scope e = lease_scope lease" "group_event_fence e = lease_fence lease" "group_event_digest e \<in> set digests"
    and mirror: "forward_event (reverse_event e) = e"
  have "rollback_event_scope (reverse_event e) = lease_scope lease" "rollback_event_fence (reverse_event e) = lease_fence lease"
    "rollback_event_digest (reverse_event e) \<in> set digests" using e by (simp_all add: reverse_event_def)
  from record_rollback_event_runs [OF running this] obtain entry m' where
    step: "store_record_rollback_event lease (reverse_event e) (world_store w) = (Inr entry, m')" and run: "retiring lease ids digests b active m'"
    by blast
  have "env_record_group_event (reversed_env (reference_env available fp)) lease e w = (Some (Inr ()), w\<lparr>world_store := m'\<rparr>)"
    using mirror by (simp add: reversed_env_def reference_env_def with_store_def acknowledged_def step res_simps)
  then show "\<exists>w'. env_record_group_event (reversed_env (reference_env available fp)) lease e w = (Some (Inr ()), w')
      \<and> retiring lease ids digests b active (world_store w') \<and> world_observed w' = world_observed w \<and> world_transaction w' = world_transaction w"
    using run by simp
qed (auto simp: reference_env_def intro: retiring_mono)

lemma reverse_group_ready:
  assumes "reverse_step rollback k step reverse" and "rollback_scope rollback = scope"
  shows "group_ready scope (reverse_apply rollback) (reverse_group k)"
  using assms reverse_step_nth(1) [OF assms(1)] by (simp add: group_ready_def position_def reverse_step_def rollback_scope_def)

lemma reverse_group_recordable:
  assumes "reverse_step rollback k step reverse" and "rollback_scope rollback = lease_scope lease" and "rollback_digest rollback \<in> set digests"
  shows "retiring_world.group_recordable lease digests (reverse_apply rollback) (reverse_group k)"
proof -
  have "forward_event (reverse_event e) = e" if "group_event_new lease (reverse_apply rollback) (reverse_group k) kind observed = Inr e" for kind observed e
    using that unfolding group_event_reverse [OF assms(1)] by (cases "rollback_event_new lease rollback k kind observed") auto
  then show ?thesis using assms(3) reverse_group_ready [OF assms(1,2)] by (simp add: retiring_world.group_recordable_def)
qed

lemma execute_rollback_step_runs:
  assumes run: "retiring lease ids digests (Suc (Suc b)) active (world_store w)" and step: "reverse_step rollback k step reverse"
    and bound: "rollback_scope rollback = lease_scope lease" "rollback_digest rollback \<in> set digests"
    and live: "state_managed_semantic_schema (world_observed w) = state_managed_semantic_schema (delta_source reverse)"
  shows "\<exists>w'. execute_rollback_step (reference_env available fp) lease rollback None k (Some (delta_source reverse)) w
      = (Some (Inr (RollbackStepDone (Some (delta_target reverse)))), w')
    \<and> retiring lease ids digests b active (world_store w')
    \<and> state_managed_semantic_schema (world_observed w') = state_managed_semantic_schema (delta_target reverse)"
proof -
  have evidence: "group_evidence (reverse_apply rollback) (reverse_group k) = Inr (delta_source reverse, delta_target reverse, rollback_lowering step)"
    by (simp add: group_evidence_def group_delta_reverse [OF step] bind_res_def)
  from retiring_world.execute_group_runs [OF run reverse_group_recordable [OF step bound] evidence live, of available fp] obtain w' where
    "execute_group (reversed_env (reference_env available fp)) lease (reverse_apply rollback) None (reverse_group k) (Some (delta_source reverse)) w
      = (Some (Inr (GroupDone (Some (delta_target reverse)))), w')"
    and "retiring lease ids digests b active (world_store w')"
    and "state_managed_semantic_schema (world_observed w') = state_managed_semantic_schema (delta_target reverse)" by blast
  then show ?thesis by (simp add: rollback_step_is_group [OF step] map_io_def)
qed

section \<open>Reverse backfills\<close>

definition reverse_evidence :: "backfill_step_contract \<Rightarrow> completion_evidence" where
  "reverse_evidence contract = \<lparr>evidence_plan_fingerprint = backfill_step_plan_fingerprint contract, evidence_direction = Reverse,
     evidence_counts = \<lparr>counts_matched = 0, counts_changed = 0, counts_skipped = 0, counts_transaction_groups = 1\<rparr>\<rparr>"

lemma reverse_terminal_evidence:
  "fp plan = Inr (backfill_step_plan_fingerprint contract) \<Longrightarrow> terminal_evidence fp plan Reverse = Inr (reverse_evidence contract)"
  by (simp add: terminal_evidence_def execution_counts_new_def checked_add_def reverse_evidence_def res_simps)

lemma index_of_some: "x \<in> set xs \<Longrightarrow> \<exists>i. index_of (\<lambda>y. y = x) xs = Some i \<and> i < length xs"
  by (induction xs) auto

lemma reverse_backfill_event_ready:
  assumes "nth_opt (rollback_operations rollback) i = Some (RollbackBackfill k)" and "nth_opt (rollback_backfills rollback) k = Some step"
    and "as_backfill step = Some (contract, plan)" and "step \<in> set (manifest_steps (rollback_manifest_of rollback))"
    and "int (length (manifest_steps (rollback_manifest_of rollback))) < 4294967296" and "int i < 4294967296"
    and "rollback_scope rollback = lease_scope lease"
    and "check_backfill_evidence (backfill_step_plan_fingerprint contract) Reverse kind completion = Inr ()"
  shows "\<exists>e. backfill_event_rollback lease rollback i kind completion = Inr e \<and> backfill_event_scope e = lease_scope lease
    \<and> backfill_event_fence e = lease_fence lease \<and> backfill_event_digest e = rollback_digest rollback"
proof -
  obtain j where j: "index_of (\<lambda>y. y = step) (manifest_steps (rollback_manifest_of rollback)) = Some j"
      "j < length (manifest_steps (rollback_manifest_of rollback))"
    using index_of_some [OF assms(4)] by blast
  then have "position j = Inr j" "position i = Inr i" using assms(5,6) by (simp_all add: position_def)
  then show ?thesis using assms(1-3,7,8) j(1)
    by (simp add: backfill_event_rollback_def backfill_operation_def backfill_event_checked_def ok_or_def res_simps Let_def)
qed

lemma reverse_backfill_appends:
  assumes "retiring lease ids digests (Suc b) active (world_store w)" "backfill_event_scope e = lease_scope lease"
    "backfill_event_fence e = lease_fence lease" "backfill_event_digest e \<in> set digests"
  shows "\<exists>w'. env_record_backfill_event (reference_env available fp) lease e w = (Some (Inr ()), w')
    \<and> retiring lease ids digests b active (world_store w') \<and> world_observed w' = world_observed w"
  using record_reverse_backfill_runs [OF assms] by (fastforce simp: reference_env_def with_store_def acknowledged_def res_simps)

lemma run_rollback_backfill_runs:
  assumes "retiring lease ids digests (Suc (Suc b)) active (world_store w)" and "rollback_digest rollback \<in> set digests"
    and "fp plan = Inr (backfill_step_plan_fingerprint contract)"
    and event: "\<And>kind completion. check_backfill_evidence (backfill_step_plan_fingerprint contract) Reverse kind completion = Inr () \<Longrightarrow>
      \<exists>e. backfill_event_rollback lease rollback i kind completion = Inr e \<and> backfill_event_scope e = lease_scope lease
        \<and> backfill_event_fence e = lease_fence lease \<and> backfill_event_digest e = rollback_digest rollback"
  shows "\<exists>w'. run_rollback_backfill (reference_env available fp) lease rollback i k contract plan w
      = (Some (Inr (rollback_backfill_result rollback i k (reverse_evidence contract))), w')
    \<and> retiring lease ids digests b active (world_store w') \<and> world_observed w' = world_observed w"
proof -
  let ?env = "reference_env available fp"
  obtain before where before: "backfill_event_rollback lease rollback i EventBeforeCommit None = Inr before" "backfill_event_scope before = lease_scope lease"
      "backfill_event_fence before = lease_fence lease" "backfill_event_digest before \<in> set digests"
    using event [of EventBeforeCommit None] assms(2) by (auto simp: check_backfill_evidence_def)
  obtain committed where committed: "backfill_event_rollback lease rollback i EventCommitted (Some (reverse_evidence contract)) = Inr committed"
      "backfill_event_scope committed = lease_scope lease" "backfill_event_fence committed = lease_fence lease"
      "backfill_event_digest committed \<in> set digests"
    using event [of EventCommitted "Some (reverse_evidence contract)"] assms(2) by (auto simp: check_backfill_evidence_def reverse_evidence_def)
  from reverse_backfill_appends [OF assms(1) before(2-4)] obtain w2 where w2: "env_record_backfill_event ?env lease before w = (Some (Inr ()), w2)"
    "retiring lease ids digests (Suc b) active (world_store w2)" "world_observed w2 = world_observed w" by blast
  let ?w3 = "provider_call (execute_call Reverse) w2"
  have "retiring lease ids digests (Suc b) active (world_store ?w3)" using w2(2) by (simp add: provider_call_def)
  from reverse_backfill_appends [OF this committed(2-4)] obtain w4 where w4: "env_record_backfill_event ?env lease committed ?w3 = (Some (Inr ()), w4)"
    "retiring lease ids digests b active (world_store w4)" "world_observed w4 = world_observed ?w3" by blast
  have execute: "env_execute_backfill ?env lease plan Reverse w2 = (Some (Inr (reverse_evidence contract)), ?w3)"
    by (simp add: reference_env_def execute_backfill_def reverse_terminal_evidence [of fp plan contract, OF assms(3)])
  have "run_rollback_backfill ?env lease rollback i k contract plan w
      = (Some (Inr (rollback_backfill_result rollback i k (reverse_evidence contract))), w4)"
    unfolding run_rollback_backfill_def before(1) io_run(3) io_run(2) [of "env_record_backfill_event ?env lease before", OF w2(1)]
      io_run(1) [of "env_execute_backfill ?env lease plan Reverse", OF execute] record_rollback_backfill_completed_def committed(1)
    by (simp only: sum.case io_run(3) io_run(1) [of "env_record_backfill_event ?env lease committed", OF w4(1)] return_io_def committed(1))
  then show ?thesis using w2(3) w4(2,3) by (auto simp: provider_call_def)
qed

lemma execute_rollback_backfill_runs:
  assumes run: "retiring lease ids digests (Suc (Suc b)) active (world_store w)" and ready: "rollback_ready digest fp (lease_scope lease) rollback"
    and member: "rollback_digest rollback \<in> set digests" and operation: "nth_opt (rollback_operations rollback) i = Some (RollbackBackfill k)"
  shows "\<exists>w' observation. execute_rollback_backfill (reference_env available fp) lease rollback None i w
      = (Some (Inr (RollbackBackfillDone observation)), w')
    \<and> retiring lease ids digests b active (world_store w') \<and> world_observed w' = world_observed w"
proof -
  let ?env = "reference_env available fp"
  have i: "i < length (rollback_operations rollback)" "rollback_operations rollback ! i = RollbackBackfill k"
    using operation by (auto simp: nth_opt_def split: if_splits)
  then have "operation_ready fp rollback (RollbackBackfill k)" using ready unfolding rollback_ready_def Let_def list_all_length by metis
  then obtain step contract plan where step: "nth_opt (rollback_backfills rollback) k = Some step" "as_backfill step = Some (contract, plan)"
    and fp: "fp plan = Inr (backfill_step_plan_fingerprint contract)" and member': "step \<in> set (manifest_steps (rollback_manifest_of rollback))"
    by (auto simp: reverse_backfill_ready_def split: option.splits)
  have sizes: "int (length (manifest_steps (rollback_manifest_of rollback))) < 4294967296" "int i < 4294967296"
    and scope: "rollback_scope rollback = lease_scope lease"
    using ready i(1) by (auto simp: rollback_ready_def Let_def)
  let ?w1 = "provider_call (observe_call Reverse) w"
  have "retiring lease ids digests (Suc (Suc b)) active (world_store ?w1)" using run by (simp add: provider_call_def)
  from run_rollback_backfill_runs [of lease ids digests b active ?w1 rollback fp plan contract, OF this member fp
      reverse_backfill_event_ready [OF operation step member' sizes scope], of available k]
  obtain w' where finished: "run_rollback_backfill ?env lease rollback i k contract plan ?w1
      = (Some (Inr (rollback_backfill_result rollback i k (reverse_evidence contract))), w')"
    and w': "retiring lease ids digests b active (world_store w')" "world_observed w' = world_observed ?w1" by blast
  have observe: "env_observe_backfill ?env lease plan Reverse w = (Some (Inr obs), ?w1) \<Longrightarrow> obs \<noteq> BackfillUnavailable \<Longrightarrow>
      execute_rollback_backfill ?env lease rollback None i w = run_rollback_backfill ?env lease rollback i k contract plan ?w1" for obs
    by (cases obs) (simp_all add: execute_rollback_backfill_def backfill_operation_def operation step ok_or_def io_run last_opt_def Let_def)
  have "execute_rollback_backfill ?env lease rollback None i w = run_rollback_backfill ?env lease rollback i k contract plan ?w1"
    by (rule observe [of "if execute_call Reverse \<in> set (world_calls w) then BackfillComplete (reverse_evidence contract) else BackfillIncomplete"])
      (simp_all add: reference_env_def observe_backfill_def reverse_terminal_evidence [of fp plan contract, OF fp] res_simps)
  then show ?thesis using finished w' by (auto simp: rollback_backfill_result_def provider_call_def)
qed

section \<open>Manifests\<close>

fun is_reverse_backfill :: "rollback_operation \<Rightarrow> bool" where
  "is_reverse_backfill (RollbackBackfill _) \<longleftrightarrow> True"
| "is_reverse_backfill (RollbackSchemaDelta _) \<longleftrightarrow> False"

definition reverse_backfill_count :: "rollback_operation list \<Rightarrow> nat" where
  "reverse_backfill_count operations = length (filter is_reverse_backfill operations)"

lemma execute_rollback_operation_runs:
  assumes ready: "rollback_ready digest fp (lease_scope lease) rollback" and member: "rollback_digest rollback \<in> set digests"
    and run: "retiring lease ids digests (Suc (Suc b)) active (world_store w)"
    and operation: "nth_opt (rollback_operations rollback) i = Some operation"
    and chain: "operation_chain rollback current (operation # operations) final"
    and live: "state_managed_semantic_schema (world_observed w) = state_managed_semantic_schema current"
    and room: "int (length observations + reverse_backfill_count [operation]) \<le> limit_backfill_observations limits"
  shows "\<exists>w' next kept. execute_rollback_operation (reference_env available fp) limits lease rollback None (i, operation) (Some current, observations) w
      = (Some (Inr (RollbackContinue (Some next, kept))), w')
    \<and> retiring lease ids digests b active (world_store w') \<and> operation_chain rollback next operations final
    \<and> state_managed_semantic_schema (world_observed w') = state_managed_semantic_schema next
    \<and> length kept = length observations + reverse_backfill_count [operation]"
proof (cases operation)
  case (RollbackBackfill k)
  let ?env = "reference_env available fp"
  from execute_rollback_backfill_runs [OF run ready member, of i k available] operation RollbackBackfill obtain w' observation where
    step: "execute_rollback_backfill ?env lease rollback None i w = (Some (Inr (RollbackBackfillDone observation)), w')"
    and w': "retiring lease ids digests b active (world_store w')" "world_observed w' = world_observed w" by blast
  have "retain_backfill_observation limits observations observation = Inr (observations @ [observation])"
    using room RollbackBackfill by (simp add: retain_backfill_observation_def reverse_backfill_count_def)
  then have "execute_rollback_operation ?env limits lease rollback None (i, operation) (Some current, observations) w
      = (Some (Inr (RollbackContinue (Some current, observations @ [observation]))), w')"
    unfolding execute_rollback_operation_def RollbackBackfill prod.case rollback_operation.case
      io_run(2) [of "execute_rollback_backfill ?env lease rollback None i", OF step]
    by (simp add: bind_res_def lift_res_def return_io_def)
  then show ?thesis using w' chain live RollbackBackfill by (simp add: reverse_backfill_count_def)
next
  case (RollbackSchemaDelta k)
  let ?env = "reference_env available fp"
  from chain RollbackSchemaDelta obtain step reverse where step: "nth_opt (rollback_steps rollback) k = Some step" "reverse_delta rollback step = Inr reverse"
    and current: "delta_source reverse = current" and rest: "operation_chain rollback (delta_target reverse) operations final"
    by (auto split: option.splits sum.splits)
  have "reverse_step rollback k step reverse" and scope: "rollback_scope rollback = lease_scope lease"
    using step ready by (auto simp: reverse_step_def rollback_ready_def Let_def nth_opt_def split: if_splits)
  from execute_rollback_step_runs [OF run this member, of available fp] live current obtain w' where
    "execute_rollback_step ?env lease rollback None k (Some current) w = (Some (Inr (RollbackStepDone (Some (delta_target reverse)))), w')"
    and w': "retiring lease ids digests b active (world_store w')"
      "state_managed_semantic_schema (world_observed w') = state_managed_semantic_schema (delta_target reverse)" by auto
  then have "execute_rollback_operation ?env limits lease rollback None (i, operation) (Some current, observations) w
      = (Some (Inr (RollbackContinue (Some (delta_target reverse), observations))), w')"
    by (simp add: execute_rollback_operation_def RollbackSchemaDelta io_run return_io_def)
  then show ?thesis using w' rest RollbackSchemaDelta by (simp add: reverse_backfill_count_def)
qed

lemma execute_rollback_operations_runs:
  assumes ready: "rollback_ready digest fp (lease_scope lease) rollback" and member: "rollback_digest rollback \<in> set digests"
    and "retiring lease ids digests (2 * length operations + b) active (world_store w)"
    and "\<And>i operation. (i, operation) \<in> set operations \<Longrightarrow> nth_opt (rollback_operations rollback) i = Some operation"
    and "operation_chain rollback current (map snd operations) final"
    and "state_managed_semantic_schema (world_observed w) = state_managed_semantic_schema current"
    and "int (length observations + reverse_backfill_count (map snd operations)) \<le> limit_backfill_observations limits"
  shows "\<exists>w' kept. execute_rollback_operations (reference_env available fp) limits lease rollback None operations (Some current, observations) w
      = (Some (Inr (RollbackContinue (Some final, kept))), w')
    \<and> retiring lease ids digests b active (world_store w')
    \<and> state_managed_semantic_schema (world_observed w') = state_managed_semantic_schema final
    \<and> length kept = length observations + reverse_backfill_count (map snd operations)"
  using assms(3-)
proof (induction operations arbitrary: current observations w)
  case Nil
  then show ?case by (simp add: return_io_def reverse_backfill_count_def)
next
  case (Cons entry operations)
  obtain i operation where entry: "entry = (i, operation)" by force
  let ?env = "reference_env available fp"
  have count: "reverse_backfill_count (operation # ops) = reverse_backfill_count [operation] + reverse_backfill_count ops" for ops
    by (simp add: reverse_backfill_count_def)
  have run: "retiring lease ids digests (Suc (Suc (2 * length operations + b))) active (world_store w)" using Cons.prems(1) by simp
  have nth: "nth_opt (rollback_operations rollback) i = Some operation" using Cons.prems(2) entry by simp
  have chain: "operation_chain rollback current (operation # map snd operations) final" using Cons.prems(3) entry by simp
  have room: "int (length observations + reverse_backfill_count [operation]) \<le> limit_backfill_observations limits"
    using Cons.prems(5) by (simp add: entry count [of "map snd operations"])
  from execute_rollback_operation_runs [OF ready member run nth chain Cons.prems(4) room, of available] obtain w1 middle kept1 where
    step: "execute_rollback_operation ?env limits lease rollback None (i, operation) (Some current, observations) w
        = (Some (Inr (RollbackContinue (Some middle, kept1))), w1)"
    and w1: "retiring lease ids digests (2 * length operations + b) active (world_store w1)" "operation_chain rollback middle (map snd operations) final"
      "state_managed_semantic_schema (world_observed w1) = state_managed_semantic_schema middle"
      "length kept1 = length observations + reverse_backfill_count [operation]" by blast
  have room1: "int (length kept1 + reverse_backfill_count (map snd operations)) \<le> limit_backfill_observations limits"
    using Cons.prems(5) w1(4) by (simp add: entry count [of "map snd operations"])
  have "execute_rollback_operations ?env limits lease rollback None (entry # operations) (Some current, observations) w
      = execute_rollback_operations ?env limits lease rollback None operations (Some middle, kept1) w1"
    unfolding entry execute_rollback_operations.simps reference_check
      io_run(2) [of "execute_rollback_operation ?env limits lease rollback None (i, operation) (Some current, observations)", OF step] by simp
  with Cons.IH [OF w1(1) Cons.prems(2) w1(2,3) room1] w1(4) show ?case by (auto simp: entry count [of "map snd operations"])
qed

lemma rolled_back_record_ready:
  assumes "rollback_ready digest fp (lease_scope lease) rollback"
  shows "\<exists>r. rolled_back_record_of digest lease (rollback_manifest_of rollback) = Inr r \<and> ledger_scope r = lease_scope lease
    \<and> ledger_fence r = lease_fence lease \<and> ledger_id r = rollback_id rollback \<and> ledger_digest r = rollback_digest rollback"
  using assms by (simp add: rollback_ready_def Let_def rolled_back_record_of_def ledger_record_of_def rollback_id_def res_simps)

lemma execute_rollback_manifest_runs:
  assumes ready: "rollback_ready digest fp (lease_scope lease) rollback" and member: "rollback_digest rollback \<in> set ds"
    and run: "retiring lease ids ds (rollback_records rollback + b) active (world_store w)" and has: "ledger_has active rollback"
    and names: "\<And>r. ledger_id r = rollback_id rollback \<Longrightarrow> ledger_digest r = rollback_digest rollback \<Longrightarrow> plan_names ids ds r"
    and live: "state_managed_semantic_schema (world_observed w) = state_managed_semantic_schema (manifest_target_state (rollback_manifest_of rollback))"
    and room: "int (length observations + reverse_backfill_count (rollback_operations rollback)) \<le> limit_backfill_observations limits"
  shows "\<exists>w' kept. execute_rollback_manifest (reference_env available fp) limits digest lease None rollback
        (Some (manifest_target_state (rollback_manifest_of rollback)), observations) w
      = (Some (Inr (RollbackContinue (Some (manifest_source_state (rollback_manifest_of rollback)), kept))), w')
    \<and> (if list_all (\<lambda>i. i \<notin> set (active_ids (without (rollback_id rollback) active))) ids
       then retired lease (without (rollback_id rollback) active) (world_store w')
       else retiring lease ids ds b (without (rollback_id rollback) active) (world_store w'))
    \<and> state_managed_semantic_schema (world_observed w') = state_managed_semantic_schema (manifest_source_state (rollback_manifest_of rollback))
    \<and> length kept = length observations + reverse_backfill_count (rollback_operations rollback)"
proof -
  let ?env = "reference_env available fp" and ?source = "manifest_target_state (rollback_manifest_of rollback)"
    and ?target = "manifest_source_state (rollback_manifest_of rollback)"
    and ?operations = "zip [0..<length (rollback_operations rollback)] (rollback_operations rollback)"
  have run1: "retiring lease ids ds (2 * length ?operations + Suc b) active (world_store w)" using run by (simp add: rollback_records_def)
  have nth: "nth_opt (rollback_operations rollback) i = Some operation" if "(i, operation) \<in> set ?operations" for i operation
    using that by (auto simp: nth_opt_def set_zip)
  have snd: "map snd ?operations = rollback_operations rollback" by simp
  have chain: "operation_chain rollback ?source (map snd ?operations) ?target" using ready unfolding snd by (simp add: rollback_ready_def Let_def)
  have room1: "int (length observations + reverse_backfill_count (map snd ?operations)) \<le> limit_backfill_observations limits"
    using room unfolding snd .
  from execute_rollback_operations_runs [OF ready member run1 nth chain live room1, of available] obtain w1 kept where
    steps: "execute_rollback_operations ?env limits lease rollback None ?operations (Some ?source, observations) w
        = (Some (Inr (RollbackContinue (Some ?target, kept))), w1)"
    and w1: "retiring lease ids ds (Suc b) active (world_store w1)" "state_managed_semantic_schema (world_observed w1) = state_managed_semantic_schema ?target"
      "length kept = length observations + reverse_backfill_count (rollback_operations rollback)" unfolding snd by blast
  from rolled_back_record_ready [OF ready] obtain r where r: "rolled_back_record_of digest lease (rollback_manifest_of rollback) = Inr r"
    "ledger_scope r = lease_scope lease" "ledger_fence r = lease_fence lease" "ledger_id r = rollback_id rollback" "ledger_digest r = rollback_digest rollback"
    by blast
  from record_rolled_back_runs [OF w1(1) r(2,3) names [OF r(4,5)] has r(4,5)] obtain entry m' where
    store: "store_record_rolled_back lease r (world_store w1) = (Inr entry, m')"
    "if list_all (\<lambda>i. i \<notin> set (active_ids (without (rollback_id rollback) active))) ids then retired lease (without (rollback_id rollback) active) m'
     else retiring lease ids ds b (without (rollback_id rollback) active) m'" unfolding r(4) by blast
  have recorded: "env_record_rolled_back ?env lease r w1 = (Some (Inr ()), w1\<lparr>world_store := m'\<rparr>)"
    by (simp add: reference_env_def with_store_def acknowledged_def store(1) res_simps)
  have "retire_manifest ?env digest lease rollback (Some ?target, kept) w1 = (Some (Inr (RollbackContinue (Some ?target, kept))), w1\<lparr>world_store := m'\<rparr>)"
    by (simp add: retire_manifest_def Let_def r(1) io_run(1) [of "env_record_rolled_back ?env lease r", OF recorded] io_run return_io_def)
  then have "execute_rollback_manifest ?env limits digest lease None rollback (Some ?source, observations) w
      = (Some (Inr (RollbackContinue (Some ?target, kept))), w1\<lparr>world_store := m'\<rparr>)"
    unfolding execute_rollback_manifest_def
      io_run(2) [of "execute_rollback_operations ?env limits lease rollback None ?operations (Some ?source, observations)", OF steps] by simp
  then show ?thesis using store(2) w1(2,3) by auto
qed

fun rollback_chain :: "managed_schema_state \<Rightarrow> rollback_manifest list \<Rightarrow> managed_schema_state \<Rightarrow> bool" where
  "rollback_chain current [] final \<longleftrightarrow> current = final"
| "rollback_chain current (m # ms) final \<longleftrightarrow>
     manifest_target_state (rollback_manifest_of m) = current \<and> rollback_chain (manifest_source_state (rollback_manifest_of m)) ms final"

definition surviving_entries :: "rollback_manifest list \<Rightarrow> ledger_record journal_entry list \<Rightarrow> ledger_record journal_entry list" where
  "surviving_entries rollbacks active = filter (\<lambda>e. ledger_id (entry_record e) \<notin> set (map rollback_id rollbacks)) active"

lemma surviving_entries_Cons: "surviving_entries (m # ms) active = surviving_entries ms (without (rollback_id m) active)"
  by (auto simp: surviving_entries_def without_def intro: filter_cong)

lemma without_has:
  assumes "ledger_has active other" and "rollback_id other \<noteq> i"
  shows "ledger_has (without i active) other"
  using assms by (auto simp: ledger_has_def without_def list_ex_iff)

lemma ledger_has_active: "ledger_has active rollback \<Longrightarrow> rollback_id rollback \<in> set (active_ids active)"
  by (force simp: ledger_has_def active_ids_def list_ex_iff)

lemma active_ids_without: "set (active_ids (without i active)) = set (active_ids active) - {i}"
  by (auto simp: active_ids_def without_def)

lemma execute_rollback_manifests_runs:
  assumes "all = finished @ rest" and "rest \<noteq> []" and "distinct (map rollback_id all)"
    and "list_all (rollback_ready digest fp (lease_scope lease)) all"
    and "retiring lease (map rollback_id all) (map rollback_digest all) (sum_list (map rollback_records rest)) active (world_store w)"
    and "list_all (ledger_has active) rest" and "set (active_ids active) \<inter> set (map rollback_id finished) = {}"
    and "rollback_chain current rest final" and "state_managed_semantic_schema (world_observed w) = state_managed_semantic_schema current"
    and "int (length observations + sum_list (map (\<lambda>m. reverse_backfill_count (rollback_operations m)) rest)) \<le> limit_backfill_observations limits"
  shows "\<exists>w' kept. execute_rollback_manifests (reference_env available fp) limits digest lease None rest (Some current, observations) w
      = (Some (Inr (RolledBack kept)), w')
    \<and> retired lease (surviving_entries rest active) (world_store w')
    \<and> state_managed_semantic_schema (world_observed w') = state_managed_semantic_schema final
    \<and> length kept = length observations + sum_list (map (\<lambda>m. reverse_backfill_count (rollback_operations m)) rest)"
  using assms
proof (induction rest arbitrary: finished active current observations w)
  case (Cons m rest)
  let ?env = "reference_env available fp" and ?ids = "map rollback_id all" and ?ds = "map rollback_digest all" and ?active = "without (rollback_id m) active"
  have ready: "rollback_ready digest fp (lease_scope lease) m" and member: "rollback_digest m \<in> set ?ds" using Cons.prems(1,4) by auto
  have current: "current = manifest_target_state (rollback_manifest_of m)" and chain: "rollback_chain (manifest_source_state (rollback_manifest_of m)) rest final"
    using Cons.prems(8) by auto
  have run: "retiring lease ?ids ?ds (rollback_records m + sum_list (map rollback_records rest)) active (world_store w)" using Cons.prems(5) by simp
  have has: "ledger_has active m" using Cons.prems(6) by simp
  have names: "plan_names ?ids ?ds r" if "ledger_id r = rollback_id m" "ledger_digest r = rollback_digest m" for r
  proof -
    have "index_of (\<lambda>i. i = ?ids ! length finished) ?ids = Some (length finished)"
      by (rule index_of_distinct [OF Cons.prems(3)]) (simp add: Cons.prems(1))
    then show ?thesis using that by (simp add: plan_names_def Cons.prems(1) nth_opt_def nth_append)
  qed
  have room: "int (length observations + reverse_backfill_count (rollback_operations m)) \<le> limit_backfill_observations limits" using Cons.prems(10) by simp
  from execute_rollback_manifest_runs [OF ready member run has names Cons.prems(9) [unfolded current] room, of available]
  obtain w1 kept1 where step: "execute_rollback_manifest ?env limits digest lease None m (Some current, observations) w
        = (Some (Inr (RollbackContinue (Some (manifest_source_state (rollback_manifest_of m)), kept1))), w1)"
    and store: "if list_all (\<lambda>i. i \<notin> set (active_ids ?active)) ?ids then retired lease ?active (world_store w1)
       else retiring lease ?ids ?ds (sum_list (map rollback_records rest)) ?active (world_store w1)"
    and w1: "state_managed_semantic_schema (world_observed w1) = state_managed_semantic_schema (manifest_source_state (rollback_manifest_of m))"
      "length kept1 = length observations + reverse_backfill_count (rollback_operations m)" unfolding current by blast
  have next_manifest: "execute_rollback_manifests ?env limits digest lease None (m # rest) (Some current, observations) w
      = execute_rollback_manifests ?env limits digest lease None rest (Some (manifest_source_state (rollback_manifest_of m)), kept1) w1"
    unfolding execute_rollback_manifests.simps io_run(2) [of "execute_rollback_manifest ?env limits digest lease None m (Some current, observations)", OF step]
    by simp
  have "rollback_id m \<notin> rollback_id ` set rest" using Cons.prems(1,3) by simp
  then have others: "\<forall>r \<in> set rest. rollback_id r \<noteq> rollback_id m" by (metis imageI)
  show ?case
  proof (cases "rest = []")
    case True
    then have "list_all (\<lambda>i. i \<notin> set (active_ids ?active)) ?ids" using Cons.prems(1,7) by (auto simp: list_all_iff active_ids_without)
    with store have "retired lease ?active (world_store w1)" by simp
    then show ?thesis unfolding next_manifest surviving_entries_Cons using True chain w1 by (simp add: surviving_entries_def return_io_def)
  next
    case False
    have rest_has: "list_all (ledger_has ?active) rest" using Cons.prems(6) others by (auto simp: list_all_iff intro: without_has)
    then have "\<not> list_all (\<lambda>i. i \<notin> set (active_ids ?active)) ?ids"
      using False Cons.prems(1) by (cases rest) (auto simp: list_all_iff dest: ledger_has_active)
    with store have run1: "retiring lease ?ids ?ds (sum_list (map rollback_records rest)) ?active (world_store w1)" by simp
    have all: "all = (finished @ [m]) @ rest" using Cons.prems(1) by simp
    have gone: "set (active_ids ?active) \<inter> set (map rollback_id (finished @ [m])) = {}" using Cons.prems(7) by (auto simp: active_ids_without)
    have room1: "int (length kept1 + sum_list (map (\<lambda>m. reverse_backfill_count (rollback_operations m)) rest)) \<le> limit_backfill_observations limits"
      using Cons.prems(10) w1(2) by simp
    from Cons.IH [OF all False Cons.prems(3,4) run1 rest_has gone chain w1(1) room1] show ?thesis
      unfolding next_manifest surviving_entries_Cons using w1(2) by auto
  qed
qed simp

section \<open>Plans\<close>

definition reverse_supported :: "capability_set \<Rightarrow> rollback_manifest \<Rightarrow> bool" where
  "reverse_supported available rollback \<longleftrightarrow>
     list_all (\<lambda>step. case reverse_delta rollback step of
         Inl _ \<Rightarrow> False | Inr reverse \<Rightarrow> delta_required_capabilities reverse |\<subseteq>| available) (rollback_steps rollback)
     \<and> list_all (\<lambda>step. case as_backfill step of
         None \<Rightarrow> False | Some (_, plan) \<Rightarrow> backfill_required_capabilities plan |\<subseteq>| available) (rollback_backfills rollback)"

definition rollback_plan_ready :: "manifest_digest \<Rightarrow> (attribute_backfill_plan \<Rightarrow> fingerprint res) \<Rightarrow> capability_set \<Rightarrow>
    execution_resource_limits \<Rightarrow> rollback_plan \<Rightarrow> bool" where
  "rollback_plan_ready digest fp available limits plan \<longleftrightarrow>
     (let rollbacks = rollback_rollbacks plan; source = rollback_source_state plan; target = rollback_target_state plan in
      rollback_execution_authorized plan \<and> rollbacks \<noteq> [] \<and> list_all (reverse_supported available) rollbacks
      \<and> int (sum_list (map (\<lambda>m. length (rollback_operations m)) rollbacks)) \<le> limit_transaction_groups limits
      \<and> int (sum_list (map (\<lambda>m. reverse_backfill_count (rollback_operations m)) rollbacks)) \<le> limit_backfill_observations limits
      \<and> distinct (map rollback_id rollbacks)
      \<and> list_all (rollback_ready digest fp (binding_scope_id (state_scope source))) rollbacks
      \<and> rollback_chain source rollbacks target \<and> state_scope target = state_scope source
      \<and> list_all (\<lambda>m. profile_fingerprints (rollback_manifest_of m) = profile_fingerprints (rollback_manifest_of (hd rollbacks))) rollbacks)"

definition rollback_scope_ready :: "scope_state \<Rightarrow> rollback_plan \<Rightarrow> ledger_record journal_entry list \<Rightarrow> bool" where
  "rollback_scope_ready s plan active \<longleftrightarrow> scope_free s (sum_list (map rollback_records (rollback_rollbacks plan))) active
     \<and> sorted_list_of_fset (fset_of_list (active_ids active)) = applied_basis plan
     \<and> list_all (ledger_has active) (rollback_rollbacks plan)"

lemma rollback_record_ready:
  assumes "rollback_plan_ready digest fp available limits plan" and "lease_scope lease = binding_scope_id (state_scope (rollback_source_state plan))"
  shows "\<exists>r. rollback_plan_record_from_verified lease plan (applied_basis plan) (rollback_source_state plan) = Inr r
    \<and> rollback_plan_scope r = lease_scope lease \<and> rollback_plan_fence r = lease_fence lease
    \<and> rollback_plan_ids r = map rollback_id (rollback_rollbacks plan) \<and> rollback_plan_digests r = map rollback_digest (rollback_rollbacks plan)"
proof -
  obtain m ms where rollbacks: "rollback_rollbacks plan = m # ms"
    using assms(1) by (cases "rollback_rollbacks plan") (auto simp: rollback_plan_ready_def Let_def)
  have "list_all (rollback_binding_matches (lease_scope lease) (profile_fingerprints (rollback_manifest_of m))) (m # ms)"
    using assms rollbacks by (auto simp: rollback_plan_ready_def rollback_ready_def rollback_binding_matches_def Let_def list_all_iff)
  moreover have "state_scope (rollback_target_state plan) = state_scope (rollback_source_state plan)"
    using assms(1) by (simp add: rollback_plan_ready_def Let_def)
  ultimately show ?thesis using assms(2) by (simp add: rollback_plan_record_from_verified_def rollbacks Let_def)
qed

lemma begin_rollback_runs:
  assumes "fmlookup m (lease_scope lease) = Some s" "active_lease s = Some lease" "\<not> plan_open s" "ledger_history s log active"
    and "unat (next_sequence s) + Suc b < 2 ^ 64" and "rollback_plan_scope r = lease_scope lease" "rollback_plan_fence r = lease_fence lease"
  shows "\<exists>entry m'. store_begin_rollback_plan lease r m = (Inr entry, m') \<and> retiring lease (rollback_plan_ids r) (rollback_plan_digests r) b active m'"
proof -
  note take = take_sequence_succeeds [OF assms(5)]
  have "ledger_history (s\<lparr>next_sequence := next_sequence s + 1, store_open_rollback := p\<rparr>) log active" for p
    by (rule ledger_history_bump [OF assms(4)]) (use take(2) in auto)
  then show ?thesis using assms take(3)
    by (simp add: store_begin_rollback_plan_def bound_record_def under_lease_def check_lease_def take(1) retiring_def plan_open_def) blast
qed

lemma begin_fresh_rollback_runs:
  assumes plan: "rollback_plan_ready digest fp available limits plan"
    and lease: "lease_scope lease = binding_scope_id (state_scope (rollback_source_state plan))" and live: "world_observed w = rollback_source_state plan"
    and s: "fmlookup (world_store w) (lease_scope lease) = Some s" "active_lease s = Some lease" "\<not> plan_open s" "ledger_history s log active"
    and budget: "unat (next_sequence s) + Suc b < 2 ^ 64"
    and applied: "sorted_list_of_fset (fset_of_list (active_ids active)) = applied_basis plan"
  shows "\<exists>w'. begin_fresh_rollback (reference_env available fp) lease plan active w = (Some (Inr (rollback_source_state plan)), w')
    \<and> retiring lease (map rollback_id (rollback_rollbacks plan)) (map rollback_digest (rollback_rollbacks plan)) b active (world_store w')
    \<and> world_observed w' = rollback_source_state plan"
proof -
  let ?env = "reference_env available fp" and ?source = "rollback_source_state plan"
  from rollback_record_ready [OF plan lease] obtain r where r: "rollback_plan_record_from_verified lease plan (applied_basis plan) ?source = Inr r"
    "rollback_plan_scope r = lease_scope lease" "rollback_plan_fence r = lease_fence lease" "rollback_plan_ids r = map rollback_id (rollback_rollbacks plan)"
    "rollback_plan_digests r = map rollback_digest (rollback_rollbacks plan)" by blast
  let ?w1 = "provider_call ''observe'' w"
  have observe: "env_observe ?env lease ?source ?source w = (Some (Inr ?source), ?w1)" by (simp add: reference_env_def observe_managed_state_def live)
  have loaded: "loaded_applied_migrations active = Inr (applied_basis plan)"
    using loaded_applied_sorted [OF ledger_history_sorted [OF s(4)]] s(4) applied by (simp add: ledger_history_def)
  from begin_rollback_runs [OF s budget r(2,3)] obtain entry m' where begin_plan: "store_begin_rollback_plan lease r (world_store w) = (Inr entry, m')"
    and run: "retiring lease (map rollback_id (rollback_rollbacks plan)) (map rollback_digest (rollback_rollbacks plan)) b active m'"
    unfolding r(4,5) by blast
  let ?w2 = "?w1\<lparr>world_store := m'\<rparr>"
  have begun: "env_begin_rollback_plan ?env lease r ?w1 = (Some (Inr ()), ?w2)"
    by (simp add: reference_env_def with_store_def acknowledged_def provider_call_def begin_plan res_simps)
  have "begin_fresh_rollback ?env lease plan active w = (Some (Inr ?source), ?w2)"
    by (simp add: begin_fresh_rollback_def io_run(2) [of "env_observe ?env lease ?source ?source", OF observe] loaded r(1) io_run(3)
        io_run(2) [of "env_begin_rollback_plan ?env lease r", OF begun] return_io_def try_io_def bind_io_def observe lift_res_def begun)
  then show ?thesis using run live by (simp add: provider_call_def)
qed

lemma execute_rollback_under_lease_runs:
  assumes plan: "rollback_plan_ready digest fp available limits plan"
    and lease: "lease_scope lease = binding_scope_id (state_scope (rollback_source_state plan))" and live: "world_observed w = rollback_source_state plan"
    and s: "fmlookup (world_store w) (lease_scope lease) = Some s" "active_lease s = Some lease" "\<not> plan_open s" "ledger_history s log active"
    and budget: "unat (next_sequence s) + Suc (sum_list (map rollback_records (rollback_rollbacks plan))) < 2 ^ 64"
    and applied: "sorted_list_of_fset (fset_of_list (active_ids active)) = applied_basis plan"
    and has: "list_all (ledger_has active) (rollback_rollbacks plan)"
  shows "\<exists>w' kept. execute_rollback_under_lease (reference_env available fp) limits digest lease plan w = (Some (Inr (RolledBack kept)), w')
    \<and> retired lease (surviving_entries (rollback_rollbacks plan) active) (world_store w')
    \<and> state_managed_semantic_schema (world_observed w') = state_managed_semantic_schema (rollback_target_state plan)
    \<and> length kept = sum_list (map (\<lambda>m. reverse_backfill_count (rollback_operations m)) (rollback_rollbacks plan))"
proof -
  let ?env = "reference_env available fp" and ?source = "rollback_source_state plan"
  have load: "env_load_applied ?env lease w = (Some (Inr active), w)" "env_load_rolled_back ?env lease w = (Some (Inr (store_rolled_back s)), w)"
    "env_load_open_rollback_plan ?env lease w = (Some (Inr None), w)"
    using s(3) ledger_history_active [OF s(4)]
    by (simp_all add: reference_env_def with_store_def store_load_applied_def store_load_rolled_back_def store_load_open_rollback_plan_def
        under_lease_same [OF s(1,2)] plan_open_def)
  from begin_fresh_rollback_runs [OF plan lease live s budget applied] obtain w2 where begun: "begin_fresh_rollback ?env lease plan active w = (Some (Inr ?source), w2)"
    and w2: "retiring lease (map rollback_id (rollback_rollbacks plan)) (map rollback_digest (rollback_rollbacks plan))
        (sum_list (map rollback_records (rollback_rollbacks plan))) active (world_store w2)" "world_observed w2 = ?source" by blast
  have nonempty: "rollback_rollbacks plan \<noteq> []" and distinct: "distinct (map rollback_id (rollback_rollbacks plan))"
    and ready: "list_all (rollback_ready digest fp (lease_scope lease)) (rollback_rollbacks plan)"
    and chain: "rollback_chain ?source (rollback_rollbacks plan) (rollback_target_state plan)"
    and room: "int (length ([] :: observed_backfill list) + sum_list (map (\<lambda>m. reverse_backfill_count (rollback_operations m)) (rollback_rollbacks plan)))
        \<le> limit_backfill_observations limits"
    using plan lease by (simp_all add: rollback_plan_ready_def Let_def)
  have "execute_rollback_under_lease ?env limits digest lease plan w
      = execute_rollback_manifests ?env limits digest lease None (rollback_rollbacks plan) (Some ?source, []) w2"
    by (simp add: execute_rollback_under_lease_def io_run(2) [of "env_load_applied ?env lease", OF load(1)]
        io_run(2) [of "env_load_rolled_back ?env lease", OF load(2)] io_run(2) [of "env_load_open_rollback_plan ?env lease", OF load(3)]
        io_run(2) [of "begin_fresh_rollback ?env lease plan active", OF begun] io_run(2))
  with execute_rollback_manifests_runs [OF append_Nil [symmetric] nonempty distinct ready w2(1) has _ chain _ room, of available] w2(2)
  show ?thesis by simp
qed

lemma check_rollback_plan_ready:
  assumes "rollback_plan_ready digest fp available limits plan"
  shows "check_rollback_plan available True limits plan = Inr ()"
proof -
  have steps: "fold_res (\<lambda>step _. bind_res (reverse_delta rollback step) (\<lambda>reverse.
      ensure_supported_by (delta_required_capabilities reverse) available)) steps () = Inr ()"
    if "list_all (\<lambda>step. case reverse_delta rollback step of Inl _ \<Rightarrow> False | Inr reverse \<Rightarrow> delta_required_capabilities reverse |\<subseteq>| available) steps" for rollback steps
    using that by (induction steps) (auto simp: ensure_supported_by_def missing_from_def res_simps split: sum.splits)
  have backfills: "fold_res (\<lambda>step _. bind_res (ok_or (as_backfill step) (execution_failure ''migration_execution_backfill_step_position''))
      (\<lambda>(_, plan). ensure_supported_by (backfill_required_capabilities plan) available)) steps () = Inr ()"
    if "list_all (\<lambda>step. case as_backfill step of None \<Rightarrow> False | Some (_, plan) \<Rightarrow> backfill_required_capabilities plan |\<subseteq>| available) steps" for steps
    using that by (induction steps) (auto simp: ensure_supported_by_def missing_from_def ok_or_def res_simps split: option.splits)
  have "fold_res (check_rollback_capabilities available) rollbacks () = Inr ()" if "list_all (reverse_supported available) rollbacks" for rollbacks
    using that by (induction rollbacks) (auto simp: check_rollback_capabilities_def reverse_supported_def steps backfills res_simps)
  then show ?thesis using assms
    by (simp add: check_rollback_plan_def require_authorized_rollback_plan_def rollback_plan_ready_def Let_def bind_res_def)
qed

lemma release_retired:
  assumes "retired lease active m"
  shows "\<exists>m' s. store_release lease m = (Inr (), m') \<and> fmlookup m' (lease_scope lease) = Some s \<and> active_lease s = None
    \<and> \<not> plan_open s \<and> active_applied_entries (store_applied s) (store_rolled_back s) = Inr active"
proof -
  from assms obtain s log where s: "fmlookup m (lease_scope lease) = Some s" "active_lease s = Some lease" "\<not> plan_open s"
    and history: "ledger_history s log active" by (auto simp: retired_def)
  then show ?thesis using ledger_history_active [OF history] by (simp add: store_release_def under_lease_def check_lease_def plan_open_def)
qed

text \<open>
  C9. Executing a ready rollback plan in the reference world always returns, and returns that the plan is
  rolled back: the live schema ends with the semantics of the restored state, exactly the planned migrations
  leave the active ledger and the others keep their order, one observation is reported for each reverse
  backfill, and neither an open plan nor the lease is left behind.
\<close>

theorem rollback_plan_completes:
  assumes "rollback_plan_ready digest fp available limits plan"
    and "store_reaches (world_store w)" and "world_observed w = rollback_source_state plan"
    and "rollback_scope_ready (scope_of (world_store w) (binding_scope_id (state_scope (rollback_source_state plan)))) plan active"
  shows "\<exists>w' kept s. execute_rollback_plan_controlled (reference_env available fp) limits digest holder plan w
      = (Some (Inr (RolledBack kept)), w')
    \<and> state_managed_semantic_schema (world_observed w') = state_managed_semantic_schema (rollback_target_state plan)
    \<and> fmlookup (world_store w') (binding_scope_id (state_scope (rollback_source_state plan))) = Some s \<and> active_lease s = None \<and> \<not> plan_open s
    \<and> active_applied_entries (store_applied s) (store_rolled_back s)
        = Inr (filter (\<lambda>e. ledger_id (entry_record e) \<notin> set (map rollback_id (rollback_rollbacks plan))) active)
    \<and> length kept = sum_list (map (\<lambda>m. reverse_backfill_count (rollback_operations m)) (rollback_rollbacks plan))"
proof -
  let ?env = "reference_env available fp" and ?scope = "binding_scope_id (state_scope (rollback_source_state plan))"
  have free: "scope_free (scope_of (world_store w) ?scope) (sum_list (map rollback_records (rollback_rollbacks plan))) active"
    and applied: "sorted_list_of_fset (fset_of_list (active_ids active)) = applied_basis plan" and has: "list_all (ledger_has active) (rollback_rollbacks plan)"
    using assms(4) by (simp_all add: rollback_scope_ready_def)
  from acquire_runs [OF assms(2) free, of holder] obtain lease m1 s1 log where acquire: "store_acquire ?scope holder (world_store w) = (Inr lease, m1)"
    and lease: "lease_scope lease = ?scope" and s1: "fmlookup m1 (lease_scope lease) = Some s1" "active_lease s1 = Some lease" "\<not> plan_open s1"
      "ledger_history s1 log active"
    and budget: "unat (next_sequence s1) + Suc (sum_list (map rollback_records (rollback_rollbacks plan))) < 2 ^ 64" by metis
  let ?w1 = "w\<lparr>world_store := m1\<rparr>"
  have acquired: "env_acquire ?env ?scope holder w = (Some (Inr lease), ?w1)" by (simp add: reference_env_def with_store_def acquire)
  have live: "world_observed ?w1 = rollback_source_state plan" and store: "fmlookup (world_store ?w1) (lease_scope lease) = Some s1" using assms(3) s1(1) by simp_all
  from execute_rollback_under_lease_runs [OF assms(1) lease live store s1(2-4) budget applied has]
  obtain w2 kept where run: "execute_rollback_under_lease ?env limits digest lease plan ?w1 = (Some (Inr (RolledBack kept)), w2)"
    and w2: "retired lease (surviving_entries (rollback_rollbacks plan) active) (world_store w2)"
      "state_managed_semantic_schema (world_observed w2) = state_managed_semantic_schema (rollback_target_state plan)"
      "length kept = sum_list (map (\<lambda>m. reverse_backfill_count (rollback_operations m)) (rollback_rollbacks plan))" by blast
  from release_retired [OF w2(1)] obtain m3 s3 where release: "store_release lease (world_store w2) = (Inr (), m3)"
    and s3: "fmlookup m3 (lease_scope lease) = Some s3" "active_lease s3 = None" "\<not> plan_open s3"
      "active_applied_entries (store_applied s3) (store_rolled_back s3) = Inr (surviving_entries (rollback_rollbacks plan) active)" by blast
  have released: "env_release ?env lease w2 = (Some (Inr ()), w2\<lparr>world_store := m3\<rparr>)" by (simp add: reference_env_def with_store_def release)
  have check: "check_rollback_plan (env_capabilities ?env) (env_supports_backfill ?env) limits plan = Inr ()"
    using check_rollback_plan_ready [OF assms(1)] by (simp add: reference_env_def)
  have "execute_rollback_plan_controlled ?env limits digest holder plan w = (Some (Inr (RolledBack kept)), w2\<lparr>world_store := m3\<rparr>)"
    unfolding execute_rollback_plan_controlled_def reference_check check io_run(3) io_run(2) [of "env_acquire ?env ?scope holder", OF acquired]
      io_run(1) [of "execute_rollback_under_lease ?env limits digest lease plan", OF run] io_run(1) [of "env_release ?env lease", OF released]
    by (simp add: return_io_def finish_rollback_lease_release_def)
  then show ?thesis using w2(2,3) s3 unfolding lease surviving_entries_def by auto
qed

section \<open>An example\<close>

definition example_reverse :: schema_delta where
  "example_reverse = \<lparr>delta_format = 1, delta_operations = [Undefine (FactType (TypeId Entity ''person''))], delta_required_capabilities = {||},
     delta_source = example_state ''after'' {||}, delta_target = example_state ''before'' {||}\<rparr>"

definition example_reversible_manifest :: verified_manifest where
  "example_reversible_manifest =
     (case example_delta_step (example_state ''before'' {||}) (example_state ''after'' {||}) of
        StepSchemaDelta step \<Rightarrow> (example_manifest ''m1'' [])\<lparr>manifest_steps :=
          [StepSchemaDelta (step\<lparr>delta_step_contract := (delta_step_contract step)\<lparr>delta_step_reverse := Some example_reverse\<rparr>\<rparr>)]\<rparr>
      | _ \<Rightarrow> example_manifest ''m1'' [])"

definition example_rollback :: rollback_manifest where
  "example_rollback = \<lparr>rollback_digest = ''m1'', rollback_manifest_of = example_reversible_manifest, rollback_safety = Destructive,
     rollback_steps = [\<lparr>rollback_forward_id = ''step'', rollback_lowering = example_lowering (example_state ''after'' {||}) (example_state ''before'' {||})\<rparr>],
     rollback_backfills = [], rollback_operations = [RollbackSchemaDelta 0]\<rparr>"

definition example_rollback_plan :: rollback_plan where
  "example_rollback_plan = \<lparr>rollback_rollbacks = [example_rollback], rollback_remaining_applied = [], rollback_source_state = example_state ''after'' {||},
     rollback_target_schema = manifest_source_schema example_reversible_manifest, rollback_target_state = example_state ''before'' {||},
     rollback_execution_authorized = True\<rparr>"

definition example_applied_entry :: ledger_record where
  "example_applied_entry = \<lparr>ledger_scope = ''main'', ledger_fence = 1, ledger_id = MigrationId ''app'' ''m1'', ledger_digest = ''m1'',
     ledger_source_declared = ''before'', ledger_target_declared = ''after'', ledger_source_semantics = ''before'', ledger_target_semantics = ''after''\<rparr>"

definition applied_store :: memory_store where
  "applied_store =
     (let lease = lease_new ''main'' ''holder'' 1 in
      snd (store_release lease (snd (store_record_applied lease example_applied_entry
        (snd (store_begin_plan lease example_open_plan (snd (store_acquire ''main'' ''holder'' fmempty))))))))"

definition applied_world :: reference_world where
  "applied_world = \<lparr>world_store = applied_store, world_observed = example_state ''after'' {||}, world_calls = [], world_transaction = None\<rparr>"

lemma applied_store_reaches: "store_reaches applied_store"
  unfolding applied_store_def Let_def
  by (rule store_reaches.released [OF store_reaches.applied [OF store_reaches.began [OF store_reaches.acquired [OF store_reaches.start]]]])
    (rule prod.collapse [symmetric])+

lemma example_rollback_plan_ready:
  "rollback_plan_ready (\<lambda>m. Inr (manifest_plan_fingerprint m)) (\<lambda>_. Inr ''b'') {||} (tightened 10 10) example_rollback_plan"
  by code_simp

lemma applied_scope_ready:
  "rollback_scope_ready (scope_of applied_store ''main'') example_rollback_plan [JournalEntry 2 example_applied_entry]"
proof -
  let ?s = "scope_of applied_store ''main''" and ?active = "[JournalEntry 2 example_applied_entry]"
  have "active_lease ?s = None \<and> highest_fence ?s = 1 \<and> \<not> plan_open ?s \<and> next_sequence ?s = 2" by code_simp
  moreover have "active_applied_entries (store_applied ?s) (store_rolled_back ?s) = Inr ?active" by code_simp
  moreover have "sum_list (map rollback_records (rollback_rollbacks example_rollback_plan)) = 3" by code_simp
  moreover have "sorted_list_of_fset (fset_of_list (active_ids ?active)) = applied_basis example_rollback_plan" by code_simp
  moreover have "list_all (ledger_has ?active) (rollback_rollbacks example_rollback_plan)" by code_simp
  ultimately show ?thesis by (simp add: rollback_scope_ready_def scope_free_def)
qed

theorem rollback_plan_completes_witness:
  "\<exists>w' kept s. execute_rollback_plan_controlled (reference_env {||} (\<lambda>_. Inr ''b'')) (tightened 10 10) (\<lambda>m. Inr (manifest_plan_fingerprint m)) ''holder''
       example_rollback_plan applied_world = (Some (Inr (RolledBack kept)), w')
     \<and> state_managed_semantic_schema (world_observed w') = ''before'' \<and> fmlookup (world_store w') ''main'' = Some s \<and> active_lease s = None
     \<and> active_applied_entries (store_applied s) (store_rolled_back s) = Inr []"
proof -
  have reaches: "store_reaches (world_store applied_world)" by (simp add: applied_world_def applied_store_reaches)
  have observed: "world_observed applied_world = rollback_source_state example_rollback_plan" by (simp add: applied_world_def example_rollback_plan_def)
  have scope: "binding_scope_id (state_scope (rollback_source_state example_rollback_plan)) = ''main''"
    "state_managed_semantic_schema (rollback_target_state example_rollback_plan) = ''before''"
    "map rollback_id (rollback_rollbacks example_rollback_plan) = [MigrationId ''app'' ''m1'']" by code_simp+
  have ready: "rollback_scope_ready (scope_of (world_store applied_world) (binding_scope_id (state_scope (rollback_source_state example_rollback_plan))))
      example_rollback_plan [JournalEntry 2 example_applied_entry]"
    using applied_scope_ready unfolding scope by (simp add: applied_world_def)
  from rollback_plan_completes [OF example_rollback_plan_ready reaches observed ready, of "''holder''"] show ?thesis
    unfolding scope by (simp add: example_applied_entry_def) blast
qed

definition retiring_example :: reference_world where
  "retiring_example =
     (let lease = lease_new ''main'' ''holder'' 2 in
      case rollback_plan_record_from_verified lease example_rollback_plan [MigrationId ''app'' ''m1''] (example_state ''after'' {||}) of
        Inl _ \<Rightarrow> applied_world
      | Inr r \<Rightarrow> applied_world\<lparr>world_store := snd (store_begin_rollback_plan lease r (snd (store_acquire ''main'' ''holder'' applied_store)))\<rparr>)"

definition example_reverse_attempt :: "(rollback_progress res) option \<times> reference_world" where
  "example_reverse_attempt = execute_rollback_step (reference_env {||} (\<lambda>_. Inr ''b'')) (lease_new ''main'' ''holder'' 2) example_rollback None 0 None retiring_example"

lemma example_reverse_step: "reverse_step example_rollback 0 (hd (rollback_steps example_rollback)) example_reverse"
  by code_simp

lemma example_reverse_attempt_commits: "commit_count (snd example_reverse_attempt) = 1"
  by code_simp

lemma retiring_example_fresh:
  "rollback_trail example_rollback 0 (stored_rollback_events retiring_example (rollback_scope example_rollback)) = []"
  "world_observed retiring_example = delta_source example_reverse" "commit_count retiring_example = 0"
  by code_simp+

theorem rollback_step_commit_once_witness:
  "rollback_attempts (reference_env {||} (\<lambda>_. Inr ''b'')) world_observed stored_rollback_events commit_count example_rollback 0
     retiring_example (snd example_reverse_attempt) \<and> world_observed (snd example_reverse_attempt) = example_state ''before'' {||}"
proof -
  let ?env = "reference_env {||} (\<lambda>_. Inr ''b'')"
  obtain r where run: "execute_rollback_step ?env (lease_new ''main'' ''holder'' 2) example_rollback None 0 None retiring_example = (r, snd example_reverse_attempt)"
    by (metis example_reverse_attempt_def prod.collapse)
  have attempts: "rollback_attempts ?env world_observed stored_rollback_events commit_count example_rollback 0 retiring_example (snd example_reverse_attempt)"
    by (rule rollback_attempts.attempt [OF rollback_attempts.untouched])
      (use run in \<open>simp_all add: retiring_example_fresh(1) trail_kind_def last_opt_def\<close>)
  from rollback_step_commit_once [OF reference_rollback.rollback_world_axioms example_reverse_step retiring_example_fresh(2,3,1) attempts]
    attempts example_reverse_attempt_commits show ?thesis by (simp add: example_reverse_def)
qed

end
