(* ===== verification/Lowering_Units.thy ===== *)
theory Lowering_Units
  imports Schema_Lowering
begin

text \<open>
  What a successful lowering has checked and produced: the units of a lowered plan against the rules
  of the transition registry, verb by verb and capability by capability.
\<close>

section \<open>The rules behind a classification\<close>

fun operation_rules :: "schema_operation \<Rightarrow> transition_rule list option" where
  "operation_rules (Define facts) = those (map (\<lambda>f. rule_defined_fact f (defined_functions facts)) facts)"
| "operation_rules (Redefine expected replacement) =
     (case rule_redefinition expected replacement of Some (Inr rule) \<Rightarrow> Some [rule] | _ \<Rightarrow> None)"
| "operation_rules (Undefine f) = map_option (\<lambda>rule. [rule]) (rule_undefined_fact f)"

fun mechanism_verbs :: "lowering_mechanism \<Rightarrow> typeql_verb list" where
  "mechanism_verbs LowerDefine = [VerbDefine]"
| "mechanism_verbs LowerUndefine = [VerbUndefine]"
| "mechanism_verbs LowerRedefine = [VerbRedefine]"
| "mechanism_verbs LowerAtomicUndefineDefine = [VerbUndefine, VerbDefine]"
| "mechanism_verbs LowerUnsupported = []"

fun verb_capabilities :: "typeql_verb \<Rightarrow> capability_set" where
  "verb_capabilities VerbDefine = {|CAP_DEFINE|}"
| "verb_capabilities VerbUndefine = {|CAP_UNDEFINE|}"
| "verb_capabilities VerbRedefine =
     {|CAP_REDEFINE_SUB, CAP_REDEFINE_VALUE, CAP_REDEFINE_RELATES_SPECIALIZATION, CAP_REDEFINE_ANNOTATION, CAP_REDEFINE_FUNCTION|}"

lemma those_map_Some: "those (map f xs) = Some ys \<longleftrightarrow> list_all2 (\<lambda>x y. f x = Some y) xs ys"
proof (induction xs arbitrary: ys)
  case (Cons x xs)
  then show ?case by (cases ys) (auto split: option.splits)
qed auto

lemma classify_rules:
  "classify_operation_transition op = Some (Inr t) \<longleftrightarrow> (\<exists>rules. operation_rules op = Some rules \<and> t = combine_rules rules)"
  by (cases op) (auto split: option.splits sum.splits)

definition rule_coherent :: "transition_rule \<Rightarrow> bool" where
  "rule_coherent rule \<longleftrightarrow>
     (rule_mechanism rule = LowerUnsupported \<longleftrightarrow> rule_safety rule = Unsupported)
     \<and> (\<forall>v \<in> set (mechanism_verbs (rule_mechanism rule)). verb_capabilities v |\<inter>| rule_required_capabilities rule \<noteq> {||})
     \<and> (rule_mechanism rule = LowerAtomicUndefineDefine \<longrightarrow> CAP_TRANSACTION_ATOMIC |\<in>| rule_required_capabilities rule)"

lemma rule_parts [simp]:
  "rule_mechanism (rule_unsupported b) = LowerUnsupported" "rule_mechanism (rule_define c b) = LowerDefine"
  "rule_mechanism (rule_undefine c b) = LowerUndefine" "rule_mechanism (rule_redefine c cap b) = LowerRedefine"
  "rule_mechanism (transition_rule_new m c caps b) = m"
  "rule_required_capabilities (rule_define c b) = {|CAP_DEFINE|}"
  "rule_required_capabilities (rule_undefine c b) = {|CAP_UNDEFINE|}"
  "rule_required_capabilities (rule_redefine c cap b) = {|cap|}"
  "rule_required_capabilities (transition_rule_new m c caps b) = fset_of_list caps"
  by (simp_all add: rule_unsupported_def rule_define_def rule_undefine_def rule_redefine_def transition_rule_new_def)

lemma rule_coherent_rules:
  "c \<noteq> Unsupported \<Longrightarrow> rule_coherent (rule_define c b)"
  "c \<noteq> Unsupported \<Longrightarrow> rule_coherent (rule_undefine c b)"
  "c \<noteq> Unsupported \<Longrightarrow> cap |\<in>| verb_capabilities VerbRedefine \<Longrightarrow> rule_coherent (rule_redefine c cap b)"
  "rule_coherent (rule_unsupported b)"
  by (auto simp: rule_coherent_def)

lemma fact_rule_coherent: "rule_coherent (fact_transition_rule k tr)"
  by (cases k; cases tr) (simp_all add: rule_coherent_rules)

lemma annotation_rule_coherent: "rule_coherent (annotation_transition_rule s k tr)"
  unfolding annotation_transition_rule_def Let_def
  by (cases tr) (auto simp: rule_coherent_rules, auto simp: rule_coherent_def)

lemma cardinality_safety_supported: "cardinality_transition_safety a b \<noteq> Unsupported"
  by (simp add: cardinality_transition_safety_def)

lemma rule_coherent_safety:
  "rule_coherent rule \<Longrightarrow> rule_mechanism rule \<noteq> LowerUnsupported \<Longrightarrow> c \<noteq> Unsupported \<Longrightarrow> rule_coherent (rule\<lparr>rule_safety := c\<rparr>)"
  by (simp add: rule_coherent_def)

lemma rule_annotation_mechanism:
  assumes "rule_annotation a tr expected = Some rule"
  shows "rule_mechanism rule =
    (if annotation_kind (annotation_fact_id_of a) = Distinct then LowerUnsupported
     else rule_mechanism (annotation_transition_rule (annotation_subject_kind_of (annotation_subject (annotation_fact_id_of a)))
            (the (annotation_rule_kind_of (annotation_kind (annotation_fact_id_of a)))) tr))"
  using assms
  by (cases "annotation_kind (annotation_fact_id_of a)")
     (auto simp: rule_annotation_def Let_def split: option.splits annotation_transition.splits)

lemma card_rule_supported:
  assumes "registry_default_cardinality subject = Some d"
  shows "rule_mechanism (annotation_transition_rule (annotation_subject_kind_of subject) RuleCard tr) \<noteq> LowerUnsupported"
  using assms
  by (cases subject; cases tr) (simp_all add: registry_default_eq annotation_transition_rule_def)

lemma annotation_rule_safety_coherent: "rule_annotation a tr expected = Some rule \<Longrightarrow> rule_coherent rule"
  by (cases "annotation_kind (annotation_fact_id_of a)")
     (auto simp: rule_annotation_def Let_def annotation_rule_coherent rule_coherent_rules cardinality_safety_supported
        card_rule_supported intro!: rule_coherent_safety split: option.splits annotation_transition.splits)

lemma operation_rules_coherent:
  assumes "operation_rules op = Some rules" "rule \<in> set rules"
  shows "rule_coherent rule"
proof (cases op)
  case (Define facts)
  have "rule_defined_fact f fns = Some r \<Longrightarrow> rule_coherent r" for f fns r
    by (cases f)
       (auto simp: fact_rule_coherent rule_coherent_rules annotation_rule_safety_coherent
          split: if_splits annotation_subject_id.splits)
  with assms Define show ?thesis by (auto simp: those_map_Some list_all2_conv_all_nth in_set_conv_nth)
next
  case (Redefine old new)
  with assms have "rule_redefinition old new = Some (Inr rule)" by (auto split: option.splits sum.splits)
  then show ?thesis
    by (cases old; cases new)
       (auto simp: rule_redefinition_def rule_coherent_rules annotation_rule_safety_coherent split: if_splits option.splits)
next
  case (Undefine f)
  with assms show ?thesis by (cases f) (auto simp: rule_coherent_rules annotation_rule_safety_coherent)
qed

section \<open>Verbs\<close>

lemma statement_verbs:
  "define_statement tq ds = Inr sts \<Longrightarrow> map statement_verb sts = [VerbDefine]"
  "redefine_statement tq d = Inr sts \<Longrightarrow> map statement_verb sts = [VerbRedefine]"
  "undefine_statement tq u = Inr sts \<Longrightarrow> map statement_verb sts = [VerbUndefine]"
  by (auto simp: define_statement_def redefine_statement_def undefine_statement_def statement_new_def res_simps)

lemma render_define_verbs: "render_define tq facts target = Inr sts \<Longrightarrow> map statement_verb sts = [VerbDefine]"
  by (auto simp: render_define_def Let_def res_simps dest: statement_verbs)

lemma bind_verbs:
  "bind_res r (redefine_statement tq) = Inr sts \<Longrightarrow> map statement_verb sts = [VerbRedefine]"
  "bind_res r' (undefine_statement tq) = Inr sts \<Longrightarrow> map statement_verb sts = [VerbUndefine]"
  "bind_res r (\<lambda>d. define_statement tq [d]) = Inr sts \<Longrightarrow> map statement_verb sts = [VerbDefine]"
  by (auto simp: res_simps dest: statement_verbs)

lemma annotation_change_mechanism:
  assumes "rule_annotation a AnnotationChange expected = Some rule" "rule_mechanism rule \<noteq> LowerUnsupported"
  shows "rule_mechanism rule =
    (case annotation_subject (annotation_fact_id_of a) of OnSub _ \<Rightarrow> LowerAtomicUndefineDefine | _ \<Rightarrow> LowerRedefine)"
    and "annotation_subject (annotation_fact_id_of a) = OnSub s \<Longrightarrow> is_metadata_kind (annotation_kind (annotation_fact_id_of a))"
  using assms(2)
  unfolding rule_annotation_mechanism [OF assms(1)]
  by (cases "annotation_subject (annotation_fact_id_of a)"; cases "annotation_kind (annotation_fact_id_of a)";
      simp add: annotation_transition_rule_def)+

lemma redefine_verbs:
  assumes "rule_redefinition old new = Some (Inr rule)" "rule_mechanism rule \<noteq> LowerUnsupported"
    and "fact_id old = fact_id new" "render_redefine tq old new source target = Inr sts"
  shows "map statement_verb sts = mechanism_verbs (rule_mechanism rule)"
proof (cases "\<exists>a b. old = FactAnnotation a \<and> new = FactAnnotation b")
  case True
  then obtain a b where ab: "old = FactAnnotation a" "new = FactAnnotation b" by blast
  with assms(1,3) have rule: "rule_annotation b AnnotationChange (Some a) = Some rule"
    and ids: "annotation_fact_id_of a = annotation_fact_id_of b" by (auto simp: rule_redefinition_def)
  show ?thesis
  proof (cases "\<exists>s. annotation_subject (annotation_fact_id_of b) = OnSub s")
    case True
    with annotation_change_mechanism [OF rule assms(2)] assms(4) ab ids show ?thesis
      by (auto simp: render_redefine_def Let_def res_simps dest!: statement_verbs)
  next
    case False
    then have "rule_mechanism rule = LowerRedefine"
      using annotation_change_mechanism(1) [OF rule assms(2)] by (auto split: annotation_subject_id.splits)
    moreover have "bind_res (definition_node tq new target False) (redefine_statement tq) = Inr sts"
      using assms(4) ab ids False by (auto simp: render_redefine_def Let_def split: annotation_subject_id.splits)
    ultimately show ?thesis using bind_verbs(1) by simp
  qed
next
  case False
  show ?thesis
  proof (cases "\<exists>a b. old = FactRelates a \<and> new = FactRelates b")
    case True
    with assms(1,4) show ?thesis
      by (auto simp: rule_redefinition_def render_redefine_def Let_def split: option.splits) (erule bind_verbs)+
  next
    case other: False
    then have "bind_res (definition_node tq new target False) (redefine_statement tq) = Inr sts"
      using False assms(4) by (cases old; cases new) (simp_all add: render_redefine_def Let_def)
    moreover have "rule_mechanism rule = LowerRedefine"
      using False other assms(1,2) by (cases old; cases new) (auto simp: rule_redefinition_def)
    ultimately show ?thesis using bind_verbs(1) by simp
  qed
qed

lemma annotation_mechanism:
  "rule_mechanism (annotation_transition_rule s k AnnotationAdd) \<in> {LowerDefine, LowerUnsupported}"
  "rule_mechanism (annotation_transition_rule s k AnnotationRemove) \<in> {LowerUndefine, LowerUnsupported}"
  by (simp_all add: annotation_transition_rule_def Let_def)

lemma undefine_mechanism:
  assumes "rule_undefined_fact f = Some rule" "rule_mechanism rule \<noteq> LowerUnsupported"
  shows "rule_mechanism rule = LowerUndefine"
proof (cases f)
  case (FactAnnotation a)
  with assms have rule: "rule_annotation a AnnotationRemove None = Some rule" by simp
  show ?thesis
    using assms(2) annotation_mechanism(2) unfolding rule_annotation_mechanism [OF rule] by (simp split: if_splits) blast
qed (use assms in \<open>auto split: if_splits\<close>)

lemma define_mechanism:
  assumes "rule_defined_fact f fns = Some rule" "rule_mechanism rule \<noteq> LowerUnsupported"
  shows "rule_mechanism rule = LowerDefine"
proof (cases f)
  case (FactAnnotation a)
  with assms(1) have "rule = rule_define SchemaMetadata False \<or> rule_annotation a AnnotationAdd None = Some rule"
    by (cases "annotation_subject (annotation_fact_id_of a)") (simp_all split: if_splits)
  then consider "rule = rule_define SchemaMetadata False" | "rule_annotation a AnnotationAdd None = Some rule" by blast
  then show ?thesis
  proof cases
    case 2
    show ?thesis
      using assms(2) annotation_mechanism(1) unfolding rule_annotation_mechanism [OF 2] by (simp split: if_splits) blast
  qed simp
qed (use assms in \<open>auto split: if_splits\<close>)

lemma rendered_verbs:
  assumes "operation_wf op" "operation_rules op = Some rules" "rule \<in> set rules" "rule_mechanism rule \<noteq> LowerUnsupported"
    and "render_operation_inner tq op source target = Inr sts"
  shows "map statement_verb sts = mechanism_verbs (rule_mechanism rule)"
proof (cases op)
  case (Define facts)
  with assms(2,3) obtain f where "rule_defined_fact f (defined_functions facts) = Some rule"
    by (auto simp: those_map_Some list_all2_conv_all_nth in_set_conv_nth)
  then have "rule_mechanism rule = LowerDefine" using define_mechanism assms(4) by blast
  with assms(5) Define render_define_verbs show ?thesis by auto
next
  case (Redefine old new)
  with assms redefine_verbs [of old new rule] show ?thesis
    by (auto simp: operation_wf_def split: option.splits sum.splits)
next
  case (Undefine f)
  with assms undefine_mechanism [of f rule] bind_verbs(2) show ?thesis by auto
qed

section \<open>Lowered units\<close>

lemma combine_rules_parts:
  "transition_atomic (combine_rules rules) \<longleftrightarrow> (\<exists>rule \<in> set rules. rule_mechanism rule = LowerAtomicUndefineDefine)"
  "transition_capabilities (combine_rules rules) = ffUnion (fset_of_list (map rule_required_capabilities rules))"
proof -
  have "transition_atomic (fold combine_rule rules acc)
      \<longleftrightarrow> transition_atomic acc \<or> (\<exists>rule \<in> set rules. rule_mechanism rule = LowerAtomicUndefineDefine)"
    "transition_capabilities (fold combine_rule rules acc)
      = transition_capabilities acc |\<union>| ffUnion (fset_of_list (map rule_required_capabilities rules))" for acc
    by (induction rules arbitrary: acc) (auto simp: combine_rule_def)
  then show "transition_atomic (combine_rules rules) \<longleftrightarrow> (\<exists>rule \<in> set rules. rule_mechanism rule = LowerAtomicUndefineDefine)"
    "transition_capabilities (combine_rules rules) = ffUnion (fset_of_list (map rule_required_capabilities rules))"
    by (simp_all add: combine_rules_def)
qed

lemma gate_supported: "gate_safety c resolved approved = Inr () \<Longrightarrow> c \<noteq> Unsupported \<and> c \<noteq> Opaque"
  by (auto simp: gate_safety_def split: if_splits)

lemma combined_supported:
  assumes "transition_safety (combine_rules rules) \<noteq> Unsupported" "rule \<in> set rules"
  shows "rule_safety rule \<noteq> Unsupported"
proof
  assume "rule_safety rule = Unsupported"
  with assms(2) have "Unsupported \<in> set (map rule_safety rules)" by (metis image_eqI set_map)
  then have "Unsupported \<le> transition_safety (combine_rules rules)"
    unfolding combine_rules_safety by (intro Max_ge) simp_all
  with assms(1) show False by (cases "transition_safety (combine_rules rules)") (simp_all add: less_eq_safety_class_def)
qed

lemma lower_operation_Inr:
  "lower_operation tq i op source target binding resolved approved = Some (Inr u) \<longleftrightarrow>
     (\<exists>rules sts. operation_rules op = Some rules
        \<and> transition_capabilities (combine_rules rules) |\<subseteq>| binding_capabilities binding
        \<and> gate_safety (transition_safety (combine_rules rules)) resolved approved = Inr ()
        \<and> render_operation_inner tq op source target = Inr sts
        \<and> u = \<lparr>unit_operation_index = i, unit_operation_kind = statement_kind (operation_kind op),
             unit_safety = transition_safety (combine_rules rules), unit_atomic = transition_atomic (combine_rules rules),
             unit_affected_ids = affected_ids op, unit_required_capabilities = transition_capabilities (combine_rules rules),
             unit_statements = sts\<rparr>)"
proof -
  have empty: "filter (\<lambda>c. c |\<notin>| A) (sorted_list_of_fset B) = [] \<longleftrightarrow> B |\<subseteq>| A" for A B :: capability_set
    by (auto simp: filter_empty_conv)
  have gate: "gate_operation i c resolved approved = Inr x \<longleftrightarrow> gate_safety c resolved approved = Inr ()" for c x
    by (cases "gate_safety c resolved approved") (simp_all add: gate_operation_def)
  have render: "render_operation tq i op source target = Inr sts \<longleftrightarrow> render_operation_inner tq op source target = Inr sts" for sts
    by (cases "render_operation_inner tq op source target") (simp_all add: render_operation_def)
  show ?thesis
  proof (cases "classify_operation_transition op")
    case None
    then show ?thesis using classify_rules [of op] by (auto simp: lower_operation_def)
  next
    case (Some r)
    show ?thesis
    proof (cases r)
      case (Inl e)
      then show ?thesis using Some classify_rules [of op] by (auto simp: lower_operation_def)
    next
      case (Inr t)
      then obtain rules where "operation_rules op = Some rules" "t = combine_rules rules"
        using Some classify_rules [of op t] by auto
      with Some Inr show ?thesis
        by (simp add: lower_operation_def Let_def empty gate render res_simps) blast
    qed
  qed
qed

definition unit_follows_registry ::
  "lowering_binding \<Rightarrow> nat list \<Rightarrow> bool \<Rightarrow> schema_operation list \<Rightarrow> nat \<Rightarrow> statement_unit \<Rightarrow> bool" where
  "unit_follows_registry binding discharged approved ops i u \<longleftrightarrow>
     (\<exists>rules. operation_rules (ops ! i) = Some rules
        \<and> unit_operation_index u = i \<and> unit_operation_kind u = statement_kind (operation_kind (ops ! i))
        \<and> unit_affected_ids u = affected_ids (ops ! i)
        \<and> unit_safety u = Max (insert FormalOnly (set (map rule_safety rules)))
        \<and> gate_safety (unit_safety u) (i \<in> set discharged) approved = Inr ()
        \<and> (\<forall>rule \<in> set rules. rule_required_capabilities rule |\<subseteq>| unit_required_capabilities u)
        \<and> unit_required_capabilities u |\<subseteq>| binding_capabilities binding
        \<and> (if cascaded ops (ops ! i) then unit_statements u = []
           else \<forall>rule \<in> set rules. map statement_verb (unit_statements u) = mechanism_verbs (rule_mechanism rule))
        \<and> (\<forall>s \<in> set (unit_statements u). verb_capabilities (statement_verb s) |\<inter>| unit_required_capabilities u \<noteq> {||})
        \<and> (1 < length (unit_statements u) \<longrightarrow> unit_atomic u \<and> CAP_TRANSACTION_ATOMIC |\<in>| unit_required_capabilities u))"

lemma operation_rules_nonempty: "operation_wf op \<Longrightarrow> operation_rules op = Some rules \<Longrightarrow> rules \<noteq> []"
  by (cases op) (auto simp: operation_wf_def those_map_Some split: option.splits sum.splits)

lemma lowered_unit_follows:
  assumes "operation_wf (ops ! i)"
    and "lower_unit tq ops source target binding discharged approved (i, ops ! i) = Some (Inr u)"
  shows "unit_follows_registry binding discharged approved ops i u"
proof -
  from assms(2) obtain v where v: "lower_operation tq i (ops ! i) source target binding (i \<in> set discharged) approved = Some (Inr v)"
    and u: "u = (if cascaded ops (ops ! i) then v\<lparr>unit_statements := []\<rparr> else v)"
    by (auto simp: lower_unit_def res_simps)
  from v obtain rules sts where rules: "operation_rules (ops ! i) = Some rules"
    and caps: "transition_capabilities (combine_rules rules) |\<subseteq>| binding_capabilities binding"
    and gate: "gate_safety (transition_safety (combine_rules rules)) (i \<in> set discharged) approved = Inr ()"
    and sts: "render_operation_inner tq (ops ! i) source target = Inr sts"
    and fields_v: "v = \<lparr>unit_operation_index = i, unit_operation_kind = statement_kind (operation_kind (ops ! i)),
      unit_safety = transition_safety (combine_rules rules), unit_atomic = transition_atomic (combine_rules rules),
      unit_affected_ids = affected_ids (ops ! i), unit_required_capabilities = transition_capabilities (combine_rules rules),
      unit_statements = sts\<rparr>"
    unfolding lower_operation_Inr by blast
  have sub: "rule_required_capabilities r |\<subseteq>| transition_capabilities (combine_rules rules)" if "r \<in> set rules" for r
    unfolding combine_rules_parts using that by (induction rules) auto
  have coherent: "rule_coherent r" if "r \<in> set rules" for r
    using operation_rules_coherent [OF rules that] .
  have verbs: "map statement_verb sts = mechanism_verbs (rule_mechanism r)" if "r \<in> set rules" for r
    using rendered_verbs [OF assms(1) rules that _ sts] combined_supported [OF _ that] gate_supported [OF gate] coherent [OF that]
    by (simp add: rule_coherent_def)
  obtain r where r: "r \<in> set rules" using operation_rules_nonempty [OF assms(1) rules] by (meson list.set_sel(1))
  have "verb_capabilities (statement_verb s) |\<inter>| transition_capabilities (combine_rules rules) \<noteq> {||}" if "s \<in> set sts" for s
  proof -
    have "statement_verb s \<in> set (mechanism_verbs (rule_mechanism r))" using verbs [OF r] that by (metis image_eqI set_map)
    with coherent [OF r] sub [OF r] show ?thesis unfolding rule_coherent_def by blast
  qed
  moreover have "transition_atomic (combine_rules rules) \<and> CAP_TRANSACTION_ATOMIC |\<in>| transition_capabilities (combine_rules rules)"
    if "1 < length sts"
  proof -
    have "1 < length (mechanism_verbs (rule_mechanism r))" using that verbs [OF r] by (metis length_map)
    then have "rule_mechanism r = LowerAtomicUndefineDefine" by (cases "rule_mechanism r") simp_all
    with coherent [OF r] sub [OF r] r show ?thesis by (auto simp: combine_rules_parts rule_coherent_def)
  qed
  ultimately show ?thesis
    unfolding unit_follows_registry_def u fields_v
    using rules caps gate verbs sub by (auto simp: combine_rules_safety)
qed

text \<open>
  C6. A lowered plan keeps the delta it lowers and has one unit per operation, in order. Each unit was
  admitted by the safety gate at the strongest class of the registry rules of its operation, needs
  only capabilities the provider has, and its statements use exactly the verbs of the mechanism the
  registry assigns, each verb covered by a capability the unit requires; a unit of more than one
  statement is atomic and requires atomic schema transactions. Only the removal of the value
  declaration of an attribute deleted by the same delta has no statement of its own.
\<close>

theorem lowered_units_follow_registry:
  assumes "list_all operation_wf (delta_operations delta)"
    and "lower_schema_delta_with_verified_assertions tq delta source target binding discharged approved = Some (Inr plan)"
  shows "lowering_delta plan = delta \<and> length (lowering_units plan) = length (delta_operations delta)
    \<and> (\<forall>i < length (delta_operations delta).
         unit_follows_registry binding discharged approved (delta_operations delta) i (lowering_units plan ! i))"
proof -
  let ?ops = "delta_operations delta"
  from assms(2) have plan: "lowering_delta plan = delta"
    and units: "list_all2 (\<lambda>x u. lower_unit tq ?ops source target binding discharged approved x = Some (Inr u))
      (zip [0..<length ?ops] ?ops) (lowering_units plan)"
    by (auto simp: lower_schema_delta_with_verified_assertions_def Let_def res_simps split: if_splits)
  from units have len: "length (lowering_units plan) = length ?ops" by (auto dest: list_all2_lengthD)
  have "unit_follows_registry binding discharged approved ?ops i (lowering_units plan ! i)" if "i < length ?ops" for i
    using that assms(1) lowered_unit_follows [of ?ops i tq source target binding discharged approved "lowering_units plan ! i"]
      list_all2_nthD [OF units, of i]
    by (simp add: list_all_length)
  with plan len show ?thesis by simp
qed

text \<open>A concrete instance of the TypeQL package, which accepts every nonempty label and prints the verb.\<close>

definition example_typeql :: typeql where
  "example_typeql =
     \<lparr>parse_label = (\<lambda>s. if s = [] then None else Some s), is_valid_var_identifier = (\<lambda>s. s \<noteq> []),
      parse_value = (\<lambda>s. Some (LitToken s)), parse_query = (\<lambda>_. None),
      display_query = (\<lambda>q. case q of QueryDefine _ \<Rightarrow> ''define'' | QueryRedefine _ \<Rightarrow> ''redefine''
        | QueryUndefine _ \<Rightarrow> ''undefine'' | QueryPipeline t \<Rightarrow> t),
      display_signature = signature_ident, display_annotation = (\<lambda>_. []), prepare_block = (\<lambda>f. (f, None)),
      prepare_pipeline = (\<lambda>t. (t, None)), kind_names = [''entity'', ''relation'', ''attribute'', ''role''],
      json_string = (\<lambda>s. Some (''\"'' @ s @ ''\"'')), double_display = (\<lambda>_. ''0''), double_debug = (\<lambda>_. ''0.0'')\<rparr>"

definition example_sub :: sub_fact_id where
  "example_sub = SubFactId (TypeId Entity ''employee'') (TypeId Entity ''person'')"

definition example_doc :: "string \<Rightarrow> schema_fact" where
  "example_doc text =
     FactAnnotation \<lparr>annotation_fact_id_of = AnnotationFactId (OnSub example_sub) Doc, annotation_value = PayloadDoc (DocText text)\<rparr>"

definition example_name :: "schema_fact list" where
  "example_name =
     [FactType (TypeId Attribute ''name''),
      FactValue \<lparr>value_fact_id_of = ValueFactId (AttributeId ''name''), value_fact_type = TagString\<rparr>]"

definition example_managed :: "schema_fact list \<Rightarrow> fact_map" where
  "example_managed fs =
     fold insert_fact ([FactType (TypeId Entity ''employee''), FactType (TypeId Entity ''person''), FactSub example_sub] @ fs) fmempty"

definition example_lowering_delta :: schema_delta where
  "example_lowering_delta =
     \<lparr>delta_format = 1,
      delta_operations = [Undefine (example_name ! 1), Undefine (example_name ! 0), Redefine (example_doc ''old'') (example_doc ''new'')],
      delta_required_capabilities = {||},
      delta_source = example_state ''s'' (fmdom (example_managed (example_doc ''old'' # example_name))),
      delta_target = example_state ''t'' (fmdom (example_managed [example_doc ''new'']))\<rparr>"

definition example_binding :: lowering_binding where
  "example_binding =
     \<lparr>binding_lowering_profile = TYPEDB_3_12_1_SCHEMA_LOWERING_PROFILE_ID, binding_lowering_fingerprint = ''f'',
      binding_capabilities = schema_transition_capability_vocabulary\<rparr>"

definition example_lowered :: "schema_lowering_plan lowering option" where
  "example_lowered =
     lower_schema_delta_with_verified_assertions example_typeql example_lowering_delta
       (example_managed (example_doc ''old'' # example_name)) (example_managed [example_doc ''new'']) example_binding [] True"

theorem lowered_units_follow_registry_witness:
  "\<exists>plan. example_lowered = Some (Inr plan)
     \<and> map (\<lambda>u. map statement_verb (unit_statements u)) (lowering_units plan) = [[], [VerbUndefine], [VerbUndefine, VerbDefine]]
     \<and> unit_follows_registry example_binding [] True (delta_operations example_lowering_delta) 2 (lowering_units plan ! 2)"
proof -
  have "map_option (map_sum id (\<lambda>plan. map (\<lambda>u. map statement_verb (unit_statements u)) (lowering_units plan))) example_lowered
     = Some (Inr [[], [VerbUndefine], [VerbUndefine, VerbDefine]])"
    by code_simp
  from map_option_sum_Inr [OF this] obtain plan where plan: "example_lowered = Some (Inr plan)"
    "map (\<lambda>u. map statement_verb (unit_statements u)) (lowering_units plan) = [[], [VerbUndefine], [VerbUndefine, VerbDefine]]"
    by (elim exE conjE)
  have "list_all operation_wf (delta_operations example_lowering_delta)" by code_simp
  note follow = lowered_units_follow_registry [OF this plan(1) [unfolded example_lowered_def]]
  have "length (delta_operations example_lowering_delta) = 3" by (simp add: example_lowering_delta_def)
  with follow have "unit_follows_registry example_binding [] True (delta_operations example_lowering_delta) 2 (lowering_units plan ! 2)"
    by simp
  with plan show ?thesis by (intro exI [of _ plan] conjI)
qed

end
