(* ===== verification/Lowering_Success.thy ===== *)
theory Lowering_Success
  imports Lowering_Units
begin

text \<open>
  Lowering succeeds: the operations planned between two declared schemas are rendered without a
  failure of their own, so that a delta is refused only for a capability the provider lacks or by
  the safety gate. What is needed of the TypeQL package is that it accepts the labels and the
  literals of the facts.
\<close>

section \<open>What is expected of the TypeQL package\<close>

definition label_admitted :: "typeql \<Rightarrow> label \<Rightarrow> bool" where
  "label_admitted tq l \<longleftrightarrow> parse_label tq l \<noteq> None \<and> strip_prefix ''$'' l = None \<and> split_once CHR '':'' l = None"

fun subject_labels :: "annotation_subject_id \<Rightarrow> label list" where
  "subject_labels (OnType t) = [type_id_label t]"
| "subject_labels (OnSub s) = [type_id_label (sub_subtype s), type_id_label (sub_supertype s)]"
| "subject_labels (OnValue v) = [attribute_label (value_attribute v)]"
| "subject_labels (OnOwns w) = [type_id_label (owns_owner w), attribute_label (owns_attribute w)]"
| "subject_labels (OnRelates r) = [type_id_label (relates_relation r), role_label (relates_role r)]"
| "subject_labels (OnPlays p) = [type_id_label (plays_player p), declaring_relation (plays_role p), role_label (plays_role p)]"
| "subject_labels (OnFunction _) = []"

fun fact_labels :: "schema_fact \<Rightarrow> label list" where
  "fact_labels (FactType t) = subject_labels (OnType t)"
| "fact_labels (FactSub s) = subject_labels (OnSub s)"
| "fact_labels (FactValue v) = subject_labels (OnValue (value_fact_id_of v))"
| "fact_labels (FactOwns w) = subject_labels (OnOwns (owns_fact_id_of w))"
| "fact_labels (FactRelates r) =
     subject_labels (OnRelates (relates_fact_id_of r))
     @ (case relates_specializes r of None \<Rightarrow> [] | Some parent \<Rightarrow> [role_label parent])"
| "fact_labels (FactPlays p) = subject_labels (OnPlays p)"
| "fact_labels (FactAnnotation a) = subject_labels (annotation_subject (annotation_fact_id_of a))"
| "fact_labels _ = []"

fun fact_literals :: "schema_fact \<Rightarrow> canonical_value set" where
  "fact_literals (FactAnnotation a) =
     (case annotation_value a of
        PayloadRange r \<Rightarrow> set_option (range_lower r) \<union> set_option (range_upper r)
      | PayloadValues vs \<Rightarrow> fset vs
      | _ \<Rightarrow> {})"
| "fact_literals _ = {}"

definition typeql_admits :: "typeql \<Rightarrow> schema_fact set \<Rightarrow> bool" where
  "typeql_admits tq facts \<longleftrightarrow>
     (\<forall>s. json_string tq s \<noteq> None)
     \<and> {''entity'', ''relation'', ''attribute''} \<subseteq> set (kind_names tq)
     \<and> (\<forall>f \<in> facts. (\<forall>l \<in> set (fact_labels f). label_admitted tq l)
          \<and> (\<forall>v \<in> fact_literals f. \<exists>x. canonical_literal tq v = Inr x))"

section \<open>What the constructors guarantee of a fact\<close>

definition annotation_constructed :: "annotation_fact \<Rightarrow> bool" where
  "annotation_constructed a \<longleftrightarrow>
     annotation_fact_new (annotation_fact_id_of a) (annotation_value a) = Inr (FactAnnotation a)
     \<and> (case annotation_value a of
          PayloadCardinality c \<Rightarrow> cardinality_new (card_min c) (card_max c) = Inr c
        | PayloadRange r \<Rightarrow> value_range_new (range_lower r) (range_upper r) = Some (Inr r)
        | PayloadValues vs \<Rightarrow> \<exists>members. value_set_new members = Inr vs
        | _ \<Rightarrow> True)"

fun fact_constructed :: "schema_fact \<Rightarrow> bool" where
  "fact_constructed (FactType t) \<longleftrightarrow> type_fact_new t = Inr (FactType t)"
| "fact_constructed (FactAnnotation a) \<longleftrightarrow> annotation_constructed a"
| "fact_constructed _ \<longleftrightarrow> True"

text \<open>Schema resolution refuses a specialized role whose collection mode is not its parent's.\<close>

definition modes_preserved :: "fact_map \<Rightarrow> bool" where
  "modes_preserved facts \<longleftrightarrow>
     (\<forall>i j r p. fmlookup facts i = Some (FactRelates r) \<and> fmlookup facts j = Some (FactRelates p)
        \<and> relates_specializes r = Some (relates_role (relates_fact_id_of p))
        \<longrightarrow> relates_collection_mode p = relates_collection_mode r)"

section \<open>Builders on admitted labels\<close>

lemma admitted_label [simp]: "label_admitted tq l \<Longrightarrow> tql_label tq l = Inr (the (parse_label tq l))"
  by (auto simp: label_admitted_def tql_label_def)

lemma admitted_reference [simp]:
  "label_admitted tq l \<Longrightarrow>
     reference tq l b = Inr (if b then RefList (RefLabel (the (parse_label tq l))) else RefType (RefLabel (the (parse_label tq l))))"
  by (auto simp: label_admitted_def tql_label_def reference_def tql_type_ref_def)

lemma range_bounded: "value_range_new l u = Some (Inr r) \<Longrightarrow> l \<noteq> None \<or> u \<noteq> None"
  by (cases l; cases u) (simp_all add: value_range_new_def)

lemma fset_of_list_empty [simp]: "fset_of_list xs = {||} \<longleftrightarrow> xs = []"
  by (cases xs) auto

lemma value_set_nonempty: "value_set_new members = Inr vs \<Longrightarrow> vs \<noteq> {||}"
  by (auto simp: value_set_new_def split: sum.splits if_splits)

lemma map_res_total: "(\<And>x. x \<in> set xs \<Longrightarrow> \<exists>y. f x = Inr y) \<Longrightarrow> \<exists>ys. map_res f xs = Inr ys"
proof (induction xs)
  case (Cons x xs)
  then obtain y ys where "f x = Inr y" "map_res f xs = Inr ys" by (meson list.set_intros)
  then show ?case by simp
qed simp

definition fact_admitted :: "typeql \<Rightarrow> schema_fact \<Rightarrow> bool" where
  "fact_admitted tq f \<longleftrightarrow>
     (\<forall>s. json_string tq s \<noteq> None) \<and> {''entity'', ''relation'', ''attribute''} \<subseteq> set (kind_names tq)
     \<and> (\<forall>l \<in> set (fact_labels f). label_admitted tq l) \<and> (\<forall>v \<in> fact_literals f. \<exists>x. canonical_literal tq v = Inr x)"

lemma admits_fact: "typeql_admits tq facts \<Longrightarrow> f \<in> facts \<Longrightarrow> fact_admitted tq f"
  by (auto simp: typeql_admits_def fact_admitted_def)

lemma quoted_admitted: "fact_admitted tq f \<Longrightarrow> quoted tq s = Inr (the (json_string tq s))"
  unfolding fact_admitted_def quoted_def by (metis ok_or_Some option.collapse)

lemma annotation_node_total:
  assumes "fact_admitted tq (FactAnnotation a)" "annotation_constructed a" "annotation_kind (annotation_fact_id_of a) \<noteq> Distinct"
  shows "\<exists>n. annotation_node tq a = Inr n"
proof -
  note quotes = quoted_admitted [OF assms(1)]
  have matches: "annotation_payload_matches (annotation_kind (annotation_fact_id_of a)) (annotation_value a)"
    using assms(2) by (auto simp: annotation_constructed_def annotation_fact_new_def validate_annotation_def split: if_splits)
  have literals: "\<forall>v \<in> fact_literals (FactAnnotation a). \<exists>x. canonical_literal tq v = Inr x"
    using assms(1) by (simp add: fact_admitted_def)
  note defs = annotation_node_def reject_distinct_lowering_def rendered_def schema_flag_def schema_doc_def schema_meta_def
    schema_regex_def quotes
  show ?thesis
  proof (cases "annotation_kind (annotation_fact_id_of a)")
    case Card
    with matches obtain c where c: "annotation_value a = PayloadCardinality c" by (auto split: schema_annotation_value.splits)
    with assms(2) have "cardinality_new (card_min c) (card_max c) = Inr c" by (simp add: annotation_constructed_def)
    with Card c show ?thesis
      by (auto simp: defs schema_card_def cardinality_new_def split: if_splits option.splits)
  next
    case Range
    with matches obtain r where r: "annotation_value a = PayloadRange r" by (auto split: schema_annotation_value.splits)
    with assms(2) have "range_lower r \<noteq> None \<or> range_upper r \<noteq> None"
      by (auto simp: annotation_constructed_def dest: range_bounded)
    moreover have "\<exists>y. option_res (canonical_literal tq) (range_lower r) = Inr y" "\<exists>y. option_res (canonical_literal tq) (range_upper r) = Inr y"
      using literals r by (cases "range_lower r"; cases "range_upper r"; fastforce)+
    ultimately show ?thesis using Range r by (auto simp: defs schema_canonical_range_def)
  next
    case Values
    with matches obtain vs where vs: "annotation_value a = PayloadValues vs" by (auto split: schema_annotation_value.splits)
    with assms(2) have "vs \<noteq> {||}" by (auto simp: annotation_constructed_def dest: value_set_nonempty)
    then have "sorted_list_of_fset vs \<noteq> []" by (metis bot_fset.rep_eq fset_inject set_empty sorted_list_of_fset_simps(1))
    moreover have "\<exists>ys. map_res (canonical_literal tq) (sorted_list_of_fset vs) = Inr ys"
      using literals vs by (intro map_res_total) simp
    ultimately show ?thesis using Values vs by (auto simp: defs schema_canonical_values_def)
  qed (use matches assms(3) in \<open>auto simp: defs split: schema_annotation_value.splits canonical_value.splits\<close>)
qed

lemma subject_node_total:
  assumes "\<forall>l \<in> set (subject_labels subject). label_admitted tq l" "\<nexists>f. subject = OnFunction f"
    and "\<And>v. subject = OnValue v \<Longrightarrow> \<exists>f. fmlookup catalog (IdValue v) = Some (FactValue f)"
  shows "\<exists>name c. annotation_subject_node tq subject catalog = Inr (name, c) \<and> label_admitted tq name
    \<and> (\<forall>d. c = Some d \<longrightarrow> capability_annotations d = [])"
proof (cases subject)
  case (OnValue v)
  with assms(1,3) show ?thesis by (fastforce simp: schema_value_domain_def tql_capability_new_def)
qed (use assms in \<open>auto simp: rendered_def schema_sub_def schema_owns_def schema_relates_def schema_plays_def tql_capability_new_def\<close>)

definition plain_definition :: "schema_definition \<Rightarrow> bool" where
  "plain_definition d \<longleftrightarrow> caller_body d = None \<and> (\<exists>t. definition_inner d = TypeDeclaration t)"

lemma schema_type_total:
  assumes "label_admitted tq name" "\<And>k. kind = Some k \<Longrightarrow> k \<in> set (kind_names tq)"
  shows "\<exists>d. schema_type tq kind name values capabilities = Inr d \<and> plain_definition d"
  using assms by (cases kind) (auto simp: schema_type_def plain_definition_def)

lemma annotation_definition_total:
  assumes "fact_admitted tq (FactAnnotation a)" "annotation_constructed a" "annotation_kind (annotation_fact_id_of a) \<noteq> Distinct"
    and subject: "\<nexists>f. annotation_subject (annotation_fact_id_of a) = OnFunction f"
      "\<And>v. annotation_subject (annotation_fact_id_of a) = OnValue v \<Longrightarrow> \<exists>f. fmlookup catalog (IdValue v) = Some (FactValue f)"
      "\<And>t. annotation_subject (annotation_fact_id_of a) = OnType t \<Longrightarrow> type_id_kind t \<noteq> Struct"
  shows "\<exists>d. annotation_definition tq a catalog defining = Inr d \<and> plain_definition d"
proof -
  obtain n where n: "annotation_node tq a = Inr n" using annotation_node_total [OF assms(1-3)] by blast
  have "\<forall>l \<in> set (subject_labels (annotation_subject (annotation_fact_id_of a))). label_admitted tq l"
    using assms(1) by (simp add: fact_admitted_def)
  then obtain name c where c: "annotation_subject_node tq (annotation_subject (annotation_fact_id_of a)) catalog = Inr (name, c)"
    "label_admitted tq name" using subject_node_total [OF _ subject(1,2)] by blast
  let ?kind = "if defining then (case annotation_subject (annotation_fact_id_of a) of OnType t \<Rightarrow> Some (kind_text (type_id_kind t)) | _ \<Rightarrow> None) else None"
  have "k \<in> set (kind_names tq)" if "?kind = Some k" for k
  proof -
    from that obtain t where "annotation_subject (annotation_fact_id_of a) = OnType t" "k = kind_text (type_id_kind t)"
      by (auto split: if_splits annotation_subject_id.splits)
    with subject(3) assms(1) show ?thesis by (cases "type_id_kind t") (auto simp: fact_admitted_def)
  qed
  then have kind: "\<And>k. ?kind = Some k \<Longrightarrow> k \<in> set (kind_names tq)" .
  from schema_type_total [of tq name ?kind "case c of None \<Rightarrow> [n] | Some _ \<Rightarrow> []"
      "case c of None \<Rightarrow> [] | Some x \<Rightarrow> [annotated x [n]]", OF c(2) kind]
  obtain d where "schema_type tq ?kind name (case c of None \<Rightarrow> [n] | Some _ \<Rightarrow> []) (case c of None \<Rightarrow> [] | Some x \<Rightarrow> [annotated x [n]]) = Inr d"
    "plain_definition d" by blast
  then have "annotation_definition tq a catalog defining = Inr d"
    by (simp only: annotation_definition_def Let_def n c(1) bind_res_Inr prod.case rendered_def map_sum.simps id_apply)
  with \<open>plain_definition d\<close> show ?thesis by blast
qed

section \<open>Statements of plain definitions\<close>

lemma plain_prepared [simp]: "plain_definition d \<Longrightarrow> snd (prepare_definable tq (definition_inner d)) = None"
  by (auto simp: plain_definition_def)

lemma plain_problem:
  "list_all plain_definition ds \<Longrightarrow> fold (\<lambda>d p. first_problem p (snd (prepare_definable tq d))) (map definition_inner ds) q = q"
  by (induction ds arbitrary: q) (auto simp: first_problem_def split: option.splits)

lemma map_filter_None: "(\<And>x. x \<in> set xs \<Longrightarrow> f x = None) \<Longrightarrow> List.map_filter f xs = []"
  by (induction xs) (simp_all add: map_filter_simps)

lemma plain_bodies: "list_all plain_definition ds \<Longrightarrow> caller_bodies ds = []"
  unfolding caller_bodies_def
  by (rule map_filter_None) (auto simp: plain_definition_def list_all_iff dest: set_zip_rightD)

lemma define_statement_total: "list_all plain_definition ds \<Longrightarrow> \<exists>sts. define_statement tq ds = Inr sts"
  by (simp add: define_statement_def statement_new_def rendered_def tql_render_def render_plain_def schema_define_def
      tql_schema_query_def query_from_ast_def prepare_definables_def plain_problem plain_bodies restore_function_bodies_def Let_def)

lemma redefine_statement_total: "plain_definition d \<Longrightarrow> \<exists>sts. redefine_statement tq d = Inr sts"
  using plain_bodies [of "[d]"]
  by (simp add: redefine_statement_def statement_new_def rendered_def tql_render_def render_plain_def schema_redefine_def
      tql_schema_query_def query_from_ast_def prepare_definables_def restore_function_bodies_def Let_def first_problem_def)

lemma undefine_statement_total: "\<exists>sts. undefine_statement tq u = Inr sts"
  by (simp add: undefine_statement_def statement_new_def rendered_def tql_render_def render_plain_def schema_undefine_def
      query_from_ast_def restore_function_bodies_def)

section \<open>Facts of a schema are rendered\<close>

definition rendering_context :: "typeql \<Rightarrow> fact_map \<Rightarrow> bool" where
  "rendering_context tq m \<longleftrightarrow>
     facts_keyed m \<and> complete_inventory m \<and> (\<forall>i f. fmlookup m i = Some f \<longrightarrow> fact_admitted tq f \<and> fact_constructed f)"

definition renderable :: "schema_fact \<Rightarrow> bool" where
  "renderable f \<longleftrightarrow>
     (case f of
        FactFunction _ \<Rightarrow> False
      | FactStruct _ \<Rightarrow> False
      | FactAnnotation a \<Rightarrow> annotation_kind (annotation_fact_id_of a) \<noteq> Distinct
          \<and> (\<nexists>f. annotation_subject (annotation_fact_id_of a) = OnFunction f)
      | _ \<Rightarrow> True)"

lemma context_subject:
  assumes "rendering_context tq m" "fmlookup m i = Some (FactAnnotation a)"
  shows "annotation_subject (annotation_fact_id_of a) = OnValue v \<Longrightarrow> \<exists>f. fmlookup m (IdValue v) = Some (FactValue f)"
    and "annotation_subject (annotation_fact_id_of a) = OnType t \<Longrightarrow> type_id_kind t \<noteq> Struct"
proof -
  have "subject_fact_id (annotation_subject (annotation_fact_id_of a)) |\<in>| fmdom m"
    using assms by (fastforce simp: rendering_context_def complete_inventory_def)
  then obtain f where f: "fmlookup m (subject_fact_id (annotation_subject (annotation_fact_id_of a))) = Some f" by (auto simp: fmlookup_dom_iff)
  then have id: "fact_id f = subject_fact_id (annotation_subject (annotation_fact_id_of a))"
    using assms(1) by (auto simp: rendering_context_def facts_keyed_def)
  { assume "annotation_subject (annotation_fact_id_of a) = OnValue v"
    with f id show "\<exists>f. fmlookup m (IdValue v) = Some (FactValue f)" by (cases f) auto }
  { assume t: "annotation_subject (annotation_fact_id_of a) = OnType t"
    with id have "f = FactType t" by (cases f) auto
    with f assms(1) have "fact_constructed (FactType t)" unfolding rendering_context_def by blast
    then show "type_id_kind t \<noteq> Struct" by (auto simp: type_fact_new_def) }
qed

lemma no_mode_conflict:
  assumes "facts_keyed m" "modes_preserved m" "fmlookup m i = Some (FactRelates r)"
  shows "\<not> specialized_mode_conflict r m"
proof (cases "relates_specializes r")
  case (Some parent)
  have "relates_collection_mode p = relates_collection_mode r"
    if "fmlookup m (IdRelates (RelatesFactId (TypeId Relation (declaring_relation parent)) parent)) = Some (FactRelates p)" for p
  proof -
    have "fact_id (FactRelates p) = IdRelates (RelatesFactId (TypeId Relation (declaring_relation parent)) parent)"
      using assms(1) that unfolding facts_keyed_def by blast
    with assms(2,3) Some that show ?thesis unfolding modes_preserved_def by (metis fact_id.simps(5) relates_fact_id.sel(2) schema_fact_id.inject(5))
  qed
  with Some show ?thesis
    by (auto simp: specialized_mode_conflict_def relates_fact_id_new_def split: option.splits schema_fact.splits)
qed (simp add: specialized_mode_conflict_def)

lemma definition_node_total:
  assumes ctx: "rendering_context tq m" "modes_preserved m" and f: "fmlookup m i = Some f" "renderable f"
  shows "\<exists>d. definition_node tq f m defining = Inr d \<and> plain_definition d"
proof -
  have admitted: "fact_admitted tq f" "fact_constructed f" using ctx(1) f(1) by (auto simp: rendering_context_def)
  then have labels: "\<forall>l \<in> set (fact_labels f). label_admitted tq l" by (simp add: fact_admitted_def)
  note defs = rendered_def schema_type_def plain_definition_def
  show ?thesis
  proof (cases f)
    case (FactType t)
    with admitted show ?thesis
      by (cases "type_id_kind t") (auto simp: fact_admitted_def type_fact_new_def defs)
  next
    case (FactAnnotation a)
    with annotation_definition_total [of tq a m defining] context_subject [OF ctx(1)] f admitted show ?thesis
      by (auto simp: renderable_def)
  next
    case (FactRelates r)
    with no_mode_conflict [of m i r] ctx f have "\<not> specialized_mode_conflict r m" by (simp add: rendering_context_def)
    with FactRelates labels show ?thesis
      by (cases "relates_specializes r") (simp_all add: relates_definition_def schema_relates_def defs)
  qed (use labels f(2) in \<open>auto simp: renderable_def schema_sub_def schema_owns_def schema_plays_def defs\<close>)
qed

lemma undefinition_node_total:
  assumes ctx: "rendering_context tq m" and f: "fmlookup m i = Some f" "renderable f"
  shows "\<exists>u. undefinition_node tq f m = Inr u"
proof -
  have admitted: "fact_admitted tq f" using ctx(1) f(1) by (auto simp: rendering_context_def)
  then have labels: "\<forall>l \<in> set (fact_labels f). label_admitted tq l" by (simp add: fact_admitted_def)
  note defs = rendered_def schema_undefine_capability_def tql_capability_new_def
  show ?thesis
  proof (cases f)
    case (FactAnnotation a)
    obtain name c where "annotation_subject_node tq (annotation_subject (annotation_fact_id_of a)) m = Inr (name, c)"
      "label_admitted tq name" "\<forall>d. c = Some d \<longrightarrow> capability_annotations d = []"
      using subject_node_total [of "annotation_subject (annotation_fact_id_of a)" tq m] labels context_subject(1) [OF ctx] f FactAnnotation
      by (auto simp: renderable_def)
    then show ?thesis
      using FactAnnotation f(2)
      by (cases "annotation_kind (annotation_fact_id_of a)")
         (auto simp: renderable_def annotation_undefinition_def reject_distinct_lowering_def rendered_def
           schema_undefine_annotation_def annotation_category_of_def quoted_admitted [OF admitted] split: option.splits)
  qed (use labels f(2) in \<open>auto simp: renderable_def schema_undefine_type_def schema_sub_def schema_owns_def schema_relates_def
      schema_plays_def schema_value_domain_def defs\<close>)
qed

section \<open>Supported operations are rendered\<close>

definition operation_between :: "fact_map \<Rightarrow> fact_map \<Rightarrow> schema_operation \<Rightarrow> bool" where
  "operation_between s t op \<longleftrightarrow>
     (case op of
        Define fs \<Rightarrow> \<forall>f \<in> set fs. (\<exists>i. fmlookup t i = Some f) \<and> \<not> is_function_fact f
      | Redefine a b \<Rightarrow> (\<exists>i. fmlookup s i = Some a \<and> fmlookup t i = Some b) \<and> \<not> is_function_fact b
      | Undefine f \<Rightarrow> (\<exists>i. fmlookup s i = Some f) \<and> \<not> is_function_fact f)"

lemma supported_annotation:
  assumes "rule_annotation a tr expected = Some rule" "rule_mechanism rule \<noteq> LowerUnsupported"
  shows "renderable (FactAnnotation a)"
proof -
  have "annotation_kind (annotation_fact_id_of a) \<noteq> Distinct" using assms rule_annotation_mechanism [OF assms(1)] by auto
  moreover have "annotation_subject (annotation_fact_id_of a) \<noteq> OnFunction f" for f
    using assms(2) unfolding rule_annotation_mechanism [OF assms(1)]
    by (auto simp: annotation_transition_rule_def split: if_splits)
  ultimately show ?thesis by (simp add: renderable_def)
qed

lemma supported_define:
  assumes "rule_defined_fact f [] = Some rule" "rule_mechanism rule \<noteq> LowerUnsupported" "\<not> is_function_fact f"
  shows "renderable f"
proof (cases f)
  case (FactAnnotation a)
  with assms(1) have "rule_annotation a AnnotationAdd None = Some rule"
    by (cases "annotation_subject (annotation_fact_id_of a)") simp_all
  with FactAnnotation assms(2) show ?thesis using supported_annotation by blast
qed (use assms in \<open>auto simp: renderable_def is_function_fact_def\<close>)

lemma supported_undefine:
  assumes "rule_undefined_fact f = Some rule" "rule_mechanism rule \<noteq> LowerUnsupported" "\<not> is_function_fact f"
  shows "renderable f"
proof (cases f)
  case (FactAnnotation a)
  with assms(1,2) show ?thesis using supported_annotation by auto
qed (use assms in \<open>auto simp: renderable_def is_function_fact_def\<close>)

lemma supported_redefine:
  assumes "rule_redefinition old new = Some (Inr rule)" "rule_mechanism rule \<noteq> LowerUnsupported"
    and "fact_id old = fact_id new" "\<not> is_function_fact new"
  shows "renderable new" "renderable old"
proof -
  show new: "renderable new"
  proof (cases new)
    case (FactAnnotation b)
    with assms(1,3) have "\<exists>a. rule_annotation b AnnotationChange (Some a) = Some rule"
      by (cases old) (auto simp: rule_redefinition_def)
    with FactAnnotation assms(2) supported_annotation show ?thesis by blast
  next
    case (FactStruct st)
    with assms show ?thesis by (cases old) (auto simp: rule_redefinition_def)
  qed (use assms(4) in \<open>simp_all add: renderable_def is_function_fact_def\<close>)
  then show "renderable old" using assms(3) by (cases old; cases new) (auto simp: renderable_def)
qed

lemma render_define_total:
  assumes "\<forall>f \<in> set fs. \<exists>d. definition_node tq f t True = Inr d \<and> plain_definition d" "\<forall>f \<in> set fs. \<not> is_function_fact f"
  shows "\<exists>sts. render_define tq fs t = Inr sts"
proof -
  have none: "defined_functions fs = []"
    unfolding defined_functions_def
    by (rule map_filter_None) (use assms(2) in \<open>auto simp: is_function_fact_def split: schema_fact.splits\<close>)
  have folded: "folded_into_function [] f = None" for f
    by (auto simp: folded_into_function_def split: schema_fact.splits annotation_subject_id.splits)
  have metadata: "fold_res (collect_metadata tq []) gs m = Inr m" for gs m
    by (induction gs) (simp_all add: collect_metadata_def folded split: schema_fact.splits)
  have "\<exists>ds. fold_res (define_fact tq [] t) fs (m, []) = Inr (m, ds) \<and> list_all plain_definition ds" for m
  proof -
    have "\<exists>st. fold_res (define_fact tq [] t) fs (m, []) = Inr st \<and> (fst st = m \<and> list_all plain_definition (snd st))"
    proof (rule fold_res_total)
      fix f st assume f: "f \<in> set fs" and st: "fst st = m \<and> list_all plain_definition (snd st)"
      then obtain d where d: "definition_node tq f t True = Inr d" "plain_definition d" using assms(1) by blast
      have "define_fact tq [] t f st = bind_res (definition_node tq f t True) (\<lambda>d. Inr (fst st, snd st @ [d]))"
        using bspec [OF assms(2) f] by (cases st; insert f; cases f rule: schema_fact.exhaust) (simp_all add: define_fact_def folded is_function_fact_def)
      with d st show "\<exists>u. define_fact tq [] t f st = Inr u \<and> (fst u = m \<and> list_all plain_definition (snd u))" by simp
    qed simp
    then show ?thesis by (metis prod.collapse)
  qed
  then obtain ds where "fold_res (define_fact tq [] t) fs (fmmap (sort_key (display_annotation tq)) fmempty, [])
      = Inr (fmmap (sort_key (display_annotation tq)) fmempty, ds)" "list_all plain_definition ds" by blast
  with define_statement_total [of ds tq] show ?thesis by (simp add: render_define_def none metadata)
qed

lemma render_redefine_total:
  assumes ctx: "rendering_context tq s" "rendering_context tq t" "modes_preserved t"
    and facts: "fmlookup s i = Some old" "fmlookup t i = Some new" "\<not> is_function_fact new"
    and rule: "rule_redefinition old new = Some (Inr rule)" "rule_mechanism rule \<noteq> LowerUnsupported"
  shows "\<exists>sts. render_redefine tq old new s t = Inr sts"
proof -
  have ids: "fact_id old = fact_id new" using ctx facts by (auto simp: rendering_context_def facts_keyed_def)
  note renderable = supported_redefine [OF rule ids facts(3)]
  obtain d where d: "definition_node tq new t False = Inr d" "plain_definition d"
    using definition_node_total [OF ctx(2,3) facts(2) renderable(1)] by blast
  obtain u where u: "undefinition_node tq old s = Inr u" using undefinition_node_total [OF ctx(1) facts(1) renderable(2)] by blast
  obtain sts where sts: "redefine_statement tq d = Inr sts" using redefine_statement_total d(2) by blast
  obtain us where us: "undefine_statement tq u = Inr us" using undefine_statement_total by blast
  obtain ds where ds: "define_statement tq [d] = Inr ds" using define_statement_total [of "[d]"] d(2) by auto
  show ?thesis
  proof (cases "\<exists>a b. old = FactRelates a \<and> new = FactRelates b")
    case True
    then obtain a b where ab: "old = FactRelates a" "new = FactRelates b" by blast
    have labels: "\<forall>l \<in> set (fact_labels old). label_admitted tq l"
      using ctx(1) facts(1) by (auto simp: rendering_context_def fact_admitted_def)
    show ?thesis
    proof (cases "relates_specializes a"; cases "relates_specializes b")
      fix p assume p: "relates_specializes a = Some p" "relates_specializes b = None"
      with labels ab(1) obtain v where "schema_undefine_specialisation_with_ordering tq
          (type_id_label (relates_relation (relates_fact_id_of a))) (role_label (relates_role (relates_fact_id_of a)))
          (role_label p) (is_ordered (relates_collection_mode a)) = Inr v"
        by (simp add: schema_undefine_specialisation_with_ordering_def)
      with ab p undefine_statement_total [of tq v] show ?thesis
        by (simp add: render_redefine_def Let_def rendered_def)
    qed (use ab d sts ds rule(1) in \<open>auto simp: render_redefine_def Let_def rule_redefinition_def\<close>)
  next
    case False
    show ?thesis
    proof (cases "\<exists>a b. old = FactAnnotation a \<and> new = FactAnnotation b")
      case True
      with d u sts us ds show ?thesis
        by (auto simp: render_redefine_def Let_def split: annotation_subject_id.splits)
    next
      case other: False
      then have "render_redefine tq old new s t = bind_res (definition_node tq new t False) (redefine_statement tq)"
        using False by (cases old; cases new) (simp_all add: render_redefine_def Let_def)
      with d(1) sts show ?thesis by simp
    qed
  qed
qed

section \<open>Planned operations\<close>

lemma plan_between:
  assumes keyed: "facts_keyed s" "facts_keyed t" and free: "function_free_change s t" and plan: "is_plan s t ops" and op: "op \<in> set ops"
  shows "operation_between s t op"
proof -
  obtain sg tg adds changes removals where p:
    "is_scc_order (graph_neighbors tg (added_ids s t)) (fset (added_ids s t)) adds"
    "set (concat changes) = fset (changed_ids s t)"
    "is_scc_order (graph_neighbors sg (removed_ids s t)) (fset (removed_ids s t)) removals"
    "ops = planned_operations s t adds (concat changes) (rev (concat removals))"
    using plan by (rule plan_parts)
  have adds: "set (concat adds) = fset (added_ids s t)" and removals: "set (concat removals) = fset (removed_ids s t)"
    using p(1,3) by (simp_all add: is_scc_order_def)
  have no_function: "\<not> touches_function s t i"
    if "i |\<in>| added_ids s t \<or> i |\<in>| removed_ids s t \<or> i |\<in>| changed_ids s t" for i
    using that free by (auto simp: function_free_change_def)
  have new: "fmlookup t i = Some (the (fmlookup t i)) \<and> \<not> is_function_fact (the (fmlookup t i))" if "i |\<in>| added_ids s t" for i
  proof -
    from that obtain g where "fmlookup s i = None" "fmlookup t i = Some g" by (auto simp: added_ids_def fmlookup_dom_iff)
    with no_function [of i] that show ?thesis by (simp add: touches_function_def)
  qed
  have old: "fmlookup s i = Some (the (fmlookup s i)) \<and> \<not> is_function_fact (the (fmlookup s i))"
    if "i |\<in>| removed_ids s t \<or> i |\<in>| changed_ids s t" for i
  proof -
    from that obtain g where "fmlookup s i = Some g" by (auto simp: removed_ids_def changed_ids_def fmlookup_dom_iff)
    with no_function [of i] that show ?thesis by (simp add: touches_function_def)
  qed
  have changed: "fmlookup t i = Some (the (fmlookup t i)) \<and> \<not> is_function_fact (the (fmlookup t i))" if "i |\<in>| changed_ids s t" for i
  proof -
    from that obtain g where g: "fmlookup t i = Some g" by (auto simp: changed_ids_def fmlookup_dom_iff)
    with old [of i] that keyed have "fact_id (the (fmlookup s i)) = fact_id g" by (metis facts_keyed_def)
    with old [of i] that g show ?thesis
      by (cases "the (fmlookup s i)"; cases g) (simp_all add: is_function_fact_def)
  qed
  from op consider
      c where "c \<in> set adds" "op = Define (map (\<lambda>i. the (fmlookup t i)) c)"
    | i where "i |\<in>| changed_ids s t" "op = Redefine (the (fmlookup s i)) (the (fmlookup t i))"
    | i where "i |\<in>| removed_ids s t" "op = Undefine (the (fmlookup s i))"
    unfolding p(4) planned_operations_def using p(2) removals by auto
  then show ?thesis
  proof cases
    case 1
    then have "i |\<in>| added_ids s t" if "i \<in> set c" for i using adds that by auto
    with 1(2) new show ?thesis unfolding operation_between_def by auto
  next
    case 2
    with old changed show ?thesis unfolding operation_between_def by auto
  next
    case 3
    with old show ?thesis unfolding operation_between_def by auto
  qed
qed

lemma list_all2_member: "list_all2 P xs ys \<Longrightarrow> x \<in> set xs \<Longrightarrow> \<exists>y \<in> set ys. P x y"
  by (induction rule: list_all2_induct) auto

lemma between_rendered:
  assumes ctx: "rendering_context tq s" "rendering_context tq t" "modes_preserved t"
    and op: "operation_between s t op" "operation_rules op = Some rules" "\<forall>rule \<in> set rules. rule_mechanism rule \<noteq> LowerUnsupported"
  shows "\<exists>sts. render_operation_inner tq op s t = Inr sts"
proof (cases op)
  case (Define fs)
  with op(1) have fs: "\<forall>f \<in> set fs. (\<exists>i. fmlookup t i = Some f) \<and> \<not> is_function_fact f" by (simp add: operation_between_def)
  then have none: "defined_functions fs = []"
    unfolding defined_functions_def
    by (intro map_filter_None) (auto simp: is_function_fact_def split: schema_fact.splits)
  have "\<exists>d. definition_node tq f t True = Inr d \<and> plain_definition d" if "f \<in> set fs" for f
  proof -
    from that op(2) Define none obtain rule where "rule_defined_fact f [] = Some rule" "rule \<in> set rules"
      using list_all2_member [of "\<lambda>f rule. rule_defined_fact f [] = Some rule" fs rules f] by (auto simp: those_map_Some)
    with op(3) fs that have "renderable f" using supported_define by blast
    with fs that definition_node_total [OF ctx(2,3)] show ?thesis by blast
  qed
  with Define fs render_define_total [of fs tq t] show ?thesis by simp
next
  case (Redefine a b)
  then obtain i where i: "fmlookup s i = Some a" "fmlookup t i = Some b" "\<not> is_function_fact b"
    using op(1) by (auto simp: operation_between_def)
  from Redefine op(2,3) obtain rule where "rule_redefinition a b = Some (Inr rule)" "rule_mechanism rule \<noteq> LowerUnsupported"
    by (auto split: option.splits sum.splits)
  with render_redefine_total [OF ctx i] Redefine show ?thesis by simp
next
  case (Undefine f)
  with op obtain i rule where "fmlookup s i = Some f" "\<not> is_function_fact f" "rule_undefined_fact f = Some rule"
    "rule_mechanism rule \<noteq> LowerUnsupported" by (auto simp: operation_between_def)
  then obtain u where "undefinition_node tq f s = Inr u"
    using undefinition_node_total [OF ctx(1)] supported_undefine by blast
  with undefine_statement_total Undefine show ?thesis by simp
qed

lemma rule_annotation_total: "rule_annotation a tr expected \<noteq> None"
  using rule_annotation_safety [of a tr expected] classify_annotation_total [of a tr expected] by auto

lemma classification_total: "classify_operation_transition op \<noteq> None"
proof (cases op)
  case (Define fs)
  have "rule_defined_fact f fns \<noteq> None" for f fns
    using classify_defined_fact_total [of f fns] rule_defined_safety [of f fns] by auto
  then have "list_all2 (\<lambda>f r. rule_defined_fact f (defined_functions fs) = Some r) fs
      (map (\<lambda>f. the (rule_defined_fact f (defined_functions fs))) fs)"
    by (simp add: list_all2_map2 list.rel_refl)
  then have "those (map (\<lambda>f. rule_defined_fact f (defined_functions fs)) fs) \<noteq> None" unfolding those_map_Some [symmetric] by simp
  with Define show ?thesis by simp
next
  case (Redefine old new)
  then show ?thesis
    by (cases old; cases new) (auto simp: rule_redefinition_def rule_annotation_total split: option.splits)
next
  case (Undefine f)
  then show ?thesis by (cases f) (auto simp: rule_annotation_total)
qed

section \<open>Planned deltas are lowered\<close>

definition operation_passes :: "lowering_binding \<Rightarrow> bool \<Rightarrow> bool \<Rightarrow> schema_operation \<Rightarrow> bool" where
  "operation_passes binding resolved approved op \<longleftrightarrow>
     (\<exists>rules. operation_rules op = Some rules
        \<and> (\<forall>rule \<in> set rules. rule_required_capabilities rule |\<subseteq>| binding_capabilities binding)
        \<and> gate_safety (Max (insert FormalOnly (set (map rule_safety rules)))) resolved approved = Inr ())"

lemma rules_available:
  "transition_capabilities (combine_rules rules) |\<subseteq>| A \<longleftrightarrow> (\<forall>rule \<in> set rules. rule_required_capabilities rule |\<subseteq>| A)"
  unfolding combine_rules_parts by (induction rules) auto

lemma passing_supported:
  assumes "operation_passes binding resolved approved op"
  shows "\<exists>rules. operation_rules op = Some rules \<and> (\<forall>rule \<in> set rules. rule_mechanism rule \<noteq> LowerUnsupported)"
proof -
  from assms obtain rules where rules: "operation_rules op = Some rules"
    and gate: "gate_safety (transition_safety (combine_rules rules)) resolved approved = Inr ()"
    by (auto simp: operation_passes_def combine_rules_safety)
  have "rule_mechanism rule \<noteq> LowerUnsupported" if "rule \<in> set rules" for rule
    using combined_supported [OF _ that] gate_supported [OF gate] operation_rules_coherent [OF rules that]
    by (auto simp: rule_coherent_def)
  with rules show ?thesis by blast
qed

lemma lower_operation_passes:
  assumes ctx: "rendering_context tq s" "rendering_context tq t" "modes_preserved t" and op: "operation_between s t op"
  shows "(\<exists>u. lower_operation tq i op s t binding resolved approved = Some (Inr u)) \<longleftrightarrow> operation_passes binding resolved approved op"
proof
  assume "\<exists>u. lower_operation tq i op s t binding resolved approved = Some (Inr u)"
  then show "operation_passes binding resolved approved op"
    unfolding lower_operation_Inr by (auto simp: operation_passes_def rules_available combine_rules_safety)
next
  assume passes: "operation_passes binding resolved approved op"
  from passing_supported [OF this] between_rendered [OF ctx op] obtain sts where "render_operation_inner tq op s t = Inr sts" by blast
  with passes show "\<exists>u. lower_operation tq i op s t binding resolved approved = Some (Inr u)"
    unfolding lower_operation_Inr by (auto simp: operation_passes_def rules_available combine_rules_safety)
qed

lemma lower_operation_no_panic: "lower_operation tq i op s t binding resolved approved \<noteq> None"
  using classification_total [of op] by (auto simp: lower_operation_def Let_def split: option.splits sum.splits)

lemma map_panicking_outcome:
  "(\<exists>ys. map_panicking f xs = Some (Inr ys)) \<longleftrightarrow> (\<forall>x \<in> set xs. \<exists>y. f x = Some (Inr y))"
  "(\<And>x. x \<in> set xs \<Longrightarrow> f x \<noteq> None) \<Longrightarrow> map_panicking f xs \<noteq> None"
  by (induction xs) (auto simp: bind_panicking_def split: option.splits sum.splits)

lemma ball_indexed: "(\<forall>x \<in> set (zip [0..<length xs] xs). P x) \<longleftrightarrow> (\<forall>i < length xs. P (i, xs ! i))"
  by (auto simp: set_zip) (metis add.left_neutral nth_upt)+

lemma increasing_adjacent:
  assumes "sorted_wrt (<) (xs :: nat list)"
  shows "\<not> list_ex (\<lambda>(a, b). b \<le> a) (zip xs (tl xs))"
proof -
  have "xs ! n < tl xs ! n" if "n < length (zip xs (tl xs))" for n
    using that sorted_wrt_nth_less [OF assms, of n "Suc n"] by (simp add: nth_tl)
  then show ?thesis by (auto simp: list_ex_length not_le)
qed

lemma matches_own_selection: "matches_selection m (fmdom m)"
  by (simp add: matches_selection_def fm_keys_def list_all_length)

text \<open>
  A delta planned between two declared schemas is lowered exactly when every operation passes the
  capability check and the safety gate, provided that specialized roles keep the collection mode of
  their parents.
\<close>

lemma planned_delta_lowered:
  assumes keyed: "facts_keyed (schema_facts source)" "facts_keyed (schema_facts target)"
    and plan: "plan_schema_operations source target = Some (Inr (delta_operations delta))"
    and selection: "state_selection (delta_source delta) = fmdom (schema_facts source)"
      "state_selection (delta_target delta) = fmdom (schema_facts target)"
    and facts: "list_all fact_constructed (facts_list (schema_facts source) @ facts_list (schema_facts target))"
      "modes_preserved (schema_facts target)"
      "typeql_admits tq (set (facts_list (schema_facts source) @ facts_list (schema_facts target)))"
    and discharged: "sorted_wrt (<) discharged" "list_all (\<lambda>i. i < length (delta_operations delta)) discharged"
  shows "(\<exists>r. lower_schema_delta_with_verified_assertions tq delta (schema_facts source) (schema_facts target)
            binding discharged approved = Some r)
    \<and> ((\<exists>lowered. lower_schema_delta_with_verified_assertions tq delta (schema_facts source) (schema_facts target)
            binding discharged approved = Some (Inr lowered))
       \<longleftrightarrow> (\<forall>i < length (delta_operations delta).
              operation_passes binding (i \<in> set discharged) approved (delta_operations delta ! i)))"
proof -
  let ?s = "schema_facts source" and ?t = "schema_facts target" and ?ops = "delta_operations delta"
  let ?unit = "lower_unit tq ?ops ?s ?t binding discharged approved"
  have complete: "complete_inventory ?s" "complete_inventory ?t" "function_free_change ?s ?t" "is_plan ?s ?t ?ops"
    using plan_rejected [OF keyed] plan_accepted [OF keyed] plan by fastforce+
  have ctx: "rendering_context tq ?s" "rendering_context tq ?t"
    unfolding rendering_context_def
    using keyed complete facts(1) admits_fact [OF facts(3)] by (simp_all add: list_all_iff) (metis UnI1 UnI2 set_facts_list)+
  have lowered: "(\<exists>u. ?unit (i, ?ops ! i) = Some (Inr u)) \<longleftrightarrow> operation_passes binding (i \<in> set discharged) approved (?ops ! i)"
    if "i < length ?ops" for i
    using lower_operation_passes [OF ctx facts(2) plan_between [OF keyed complete(3,4) nth_mem [OF that]]]
    by (auto simp: lower_unit_def res_simps)
  have total: "?unit x \<noteq> None" for x
    using lower_operation_no_panic by (auto simp: lower_unit_def bind_panicking_def split: option.splits sum.splits)
  have ordered: "\<not> list_ex (\<lambda>(a, b). b \<le> a) (zip discharged (tl discharged))"
    using increasing_adjacent [OF discharged(1)] .
  have bounded: "\<not> (discharged \<noteq> [] \<and> length ?ops \<le> last discharged)"
    using discharged(2) last_in_set unfolding list_all_iff not_le by (metis leD)
  have eq: "lower_schema_delta_with_verified_assertions tq delta ?s ?t binding discharged approved =
      bind_panicking (map_panicking ?unit (zip [0..<length ?ops] ?ops)) (\<lambda>units.
        Some (Inr \<lparr>lowering_delta = delta, lowering_profile = binding_lowering_profile binding,
          lowering_fingerprint = binding_lowering_fingerprint binding, lowering_units = units\<rparr>))"
    using ordered bounded
    by (auto simp: lower_schema_delta_with_verified_assertions_def Let_def selection matches_own_selection)
  have "(\<exists>units. map_panicking ?unit (zip [0..<length ?ops] ?ops) = Some (Inr units))
      \<longleftrightarrow> (\<forall>i < length ?ops. operation_passes binding (i \<in> set discharged) approved (?ops ! i))"
    unfolding map_panicking_outcome(1) ball_indexed using lowered by blast
  moreover have "map_panicking ?unit (zip [0..<length ?ops] ?ops) \<noteq> None"
    using total by (intro map_panicking_outcome(2))
  ultimately show ?thesis
    unfolding eq by (auto simp: bind_panicking_def split: option.splits sum.splits)
qed

end
