(* ===== verification/Lowering_Readback.thy ===== *)
theory Lowering_Readback
  imports Lowering_Success
begin

text \<open>
  What a lowered statement says: reading the syntax nodes back, with the types and the inherited roles
  that the labels of a schema name, gives the fact, the annotation or the removal that was lowered.
\<close>

section \<open>Reading nodes\<close>

text \<open>TypeQL names a type by its label only, and a specialized role by the label of an inherited
  role; a schema resolves both.\<close>

record label_scope =
  scope_type :: "label \<Rightarrow> type_id"
  scope_inherited_role :: "type_id \<Rightarrow> label \<Rightarrow> role_id"

fun reference_label :: "type_ref_any \<Rightarrow> label option" where
  "reference_label (RefType (RefLabel l)) = Some l"
| "reference_label (RefList (RefLabel l)) = Some l"
| "reference_label _ = None"

fun reference_mode :: "type_ref_any \<Rightarrow> collection_mode" where
  "reference_mode (RefType _) = Unordered"
| "reference_mode (RefList _) = OrderedList"

fun read_capability :: "label_scope \<Rightarrow> label \<Rightarrow> capability_base \<Rightarrow> schema_fact option" where
  "read_capability scope l (BaseSub p) = Some (FactSub (SubFactId (scope_type scope l) (scope_type scope p)))"
| "read_capability scope l (BaseValueType (BuiltinValueType spelling)) =
     map_option (\<lambda>tag. FactValue \<lparr>value_fact_id_of = ValueFactId (AttributeId l), value_fact_type = tag\<rparr>) (value_type_tag_of spelling)"
| "read_capability scope l (BaseValueType (NamedLabel _)) = None"
| "read_capability scope l (BaseOwns r) =
     map_option (\<lambda>a. FactOwns \<lparr>owns_fact_id_of = OwnsFactId (scope_type scope l) (AttributeId a), owns_collection_mode = reference_mode r\<rparr>)
       (reference_label r)"
| "read_capability scope l (BasePlays s n) = Some (FactPlays (PlaysFactId (scope_type scope l) (RoleId s n)))"
| "read_capability scope l (BaseRelates r parent) =
     map_option (\<lambda>n. FactRelates
         \<lparr>relates_fact_id_of = RelatesFactId (scope_type scope l) (RoleId l n),
          relates_specializes = map_option (scope_inherited_role scope (scope_type scope l)) (Option.bind parent reference_label),
          relates_collection_mode = reference_mode r\<rparr>)
       (reference_label r)"

datatype definition_claim = DefinesFact schema_fact | AddsAnnotation annotation_subject_id tql_annotation

datatype undefinition_claim =
    RemovesFact schema_fact_id
  | RemovesSpecialization relates_fact_id label
  | RemovesAnnotation annotation_subject_id annotation_category

fun fact_subject :: "schema_fact \<Rightarrow> annotation_subject_id option" where
  "fact_subject (FactType t) = Some (OnType t)"
| "fact_subject (FactSub s) = Some (OnSub s)"
| "fact_subject (FactValue v) = Some (OnValue (value_fact_id_of v))"
| "fact_subject (FactOwns w) = Some (OnOwns (owns_fact_id_of w))"
| "fact_subject (FactRelates r) = Some (OnRelates (relates_fact_id_of r))"
| "fact_subject (FactPlays p) = Some (OnPlays p)"
| "fact_subject _ = None"

definition kind_of_text :: "string \<Rightarrow> type_kind option" where
  "kind_of_text s =
     (if s = ''entity'' then Some Entity else if s = ''relation'' then Some Relation
      else if s = ''attribute'' then Some Attribute else if s = ''struct'' then Some Struct else None)"

definition read_declaration :: "label_scope \<Rightarrow> type_declaration \<Rightarrow> definition_claim option" where
  "read_declaration scope d =
     (let l = declaration_label d in
      case (declaration_kind d, declaration_annotations d, declaration_capabilities d) of
        (Some k, [], []) \<Rightarrow> map_option (\<lambda>kind. DefinesFact (FactType (TypeId kind l))) (kind_of_text k)
      | (_, [v], []) \<Rightarrow> Some (AddsAnnotation (OnType (scope_type scope l)) v)
      | (None, [], [c]) \<Rightarrow>
          Option.bind (read_capability scope l (capability_base c)) (\<lambda>f.
            case capability_annotations c of
              [] \<Rightarrow> Some (DefinesFact f)
            | [v] \<Rightarrow> map_option (\<lambda>s. AddsAnnotation s v) (fact_subject f)
            | _ \<Rightarrow> None)
      | _ \<Rightarrow> None)"

fun read_definition :: "label_scope \<Rightarrow> definable \<Rightarrow> definition_claim option" where
  "read_definition scope (TypeDeclaration d) = read_declaration scope d"
| "read_definition scope _ = None"

fun read_undefinition :: "label_scope \<Rightarrow> undefinable \<Rightarrow> undefinition_claim option" where
  "read_undefinition scope (UndefineType l) = Some (RemovesFact (IdType (scope_type scope l)))"
| "read_undefinition scope (UndefineFunction l) = Some (RemovesFact (IdFunction (FunctionId l)))"
| "read_undefinition scope (UndefineCapability base l) = map_option (RemovesFact \<circ> fact_id) (read_capability scope l base)"
| "read_undefinition scope (UndefineSpecialise p l base) =
     (case read_capability scope l base of
        Some (FactRelates r) \<Rightarrow> Some (RemovesSpecialization (relates_fact_id_of r) p)
      | _ \<Rightarrow> None)"
| "read_undefinition scope (UndefineAnnotationType category l) = Some (RemovesAnnotation (OnType (scope_type scope l)) category)"
| "read_undefinition scope (UndefineAnnotationCapability category l base) =
     map_option (\<lambda>s. RemovesAnnotation s category) (Option.bind (read_capability scope l base) fact_subject)"

section \<open>Scopes that resolve a fact\<close>

fun resolves_subject :: "label_scope \<Rightarrow> annotation_subject_id \<Rightarrow> bool" where
  "resolves_subject scope (OnType t) \<longleftrightarrow> scope_type scope (type_id_label t) = t"
| "resolves_subject scope (OnSub s) \<longleftrightarrow>
     scope_type scope (type_id_label (sub_subtype s)) = sub_subtype s \<and> scope_type scope (type_id_label (sub_supertype s)) = sub_supertype s"
| "resolves_subject scope (OnValue v) \<longleftrightarrow> True"
| "resolves_subject scope (OnOwns w) \<longleftrightarrow> scope_type scope (type_id_label (owns_owner w)) = owns_owner w"
| "resolves_subject scope (OnRelates r) \<longleftrightarrow>
     scope_type scope (type_id_label (relates_relation r)) = relates_relation r
     \<and> declaring_relation (relates_role r) = type_id_label (relates_relation r)"
| "resolves_subject scope (OnPlays p) \<longleftrightarrow> scope_type scope (type_id_label (plays_player p)) = plays_player p"
| "resolves_subject scope (OnFunction _) \<longleftrightarrow> True"

fun resolves :: "label_scope \<Rightarrow> schema_fact \<Rightarrow> bool" where
  "resolves scope (FactRelates r) \<longleftrightarrow>
     resolves_subject scope (OnRelates (relates_fact_id_of r))
     \<and> (\<forall>parent. relates_specializes r = Some parent \<longrightarrow>
          scope_inherited_role scope (relates_relation (relates_fact_id_of r)) (role_label parent) = parent)"
| "resolves scope (FactAnnotation a) \<longleftrightarrow> resolves_subject scope (annotation_subject (annotation_fact_id_of a))"
| "resolves scope f \<longleftrightarrow> (\<forall>s. fact_subject f = Some s \<longrightarrow> resolves_subject scope s)"

definition labels_exact :: "typeql \<Rightarrow> bool" where
  "labels_exact tq \<longleftrightarrow> (\<forall>l m. parse_label tq l = Some m \<longrightarrow> m = l)"

lemma exact_label: "labels_exact tq \<Longrightarrow> label_admitted tq l \<Longrightarrow> the (parse_label tq l) = l"
  by (auto simp: labels_exact_def label_admitted_def)

lemma read_mode [simp]: "is_ordered mode = b \<Longrightarrow> reference_mode (if b then RefList r else RefType r) = mode"
  by (cases mode) (auto simp: is_ordered_def)

lemma read_builtin [simp]:
  "read_capability scope l (BaseValueType (builtin_named_type tag)) =
     Some (FactValue \<lparr>value_fact_id_of = ValueFactId (AttributeId l), value_fact_type = tag\<rparr>)"
  by (cases tag) (simp_all add: builtin_named_type_def)

lemma read_kind [simp]: "kind_of_text (kind_text k) = Some k"
  by (cases k) (simp_all add: kind_of_text_def)

section \<open>Nodes say what was lowered\<close>

lemma rendered_Inr [simp]: "rendered r = Inr x \<longleftrightarrow> r = Inr x" "rendered (Inr x) = Inr x"
  by (cases r) (simp_all add: rendered_def)

lemma reference_label_mode [simp]: "reference_label (if b then RefList (RefLabel l) else RefType (RefLabel l)) = Some l"
  by simp

lemma reads_structural:
  assumes exact: "labels_exact tq" and labels: "\<forall>l \<in> set (fact_labels f). label_admitted tq l" and scope: "resolves scope f"
    and structural: "fact_subject f \<noteq> None" and node: "definition_node tq f m defining = Inr d"
  shows "read_definition scope (definition_inner d) = Some (DefinesFact f)"
proof -
  note defs = schema_type_def read_declaration_def tql_capability_new_def exact_label [OF exact]
  show ?thesis
  proof (cases f)
    case (FactType t)
    with labels node show ?thesis by (cases t) (auto simp: defs split: if_splits)
  next
    case (FactSub x)
    with labels node scope show ?thesis by (cases x) (auto simp: defs schema_sub_def)
  next
    case (FactValue v)
    with labels node show ?thesis
      by (cases v; cases "value_fact_id_of v"; cases "value_attribute (value_fact_id_of v)") (auto simp: defs schema_value_domain_def)
  next
    case (FactOwns w)
    with labels node scope show ?thesis
      by (cases w; cases "owns_fact_id_of w"; cases "owns_attribute (owns_fact_id_of w)")
         (auto simp: defs schema_owns_def)
  next
    case (FactRelates r)
    obtain i spec mode where r: "r = \<lparr>relates_fact_id_of = i, relates_specializes = spec, relates_collection_mode = mode\<rparr>"
      by (cases r) auto
    with FactRelates labels node scope show ?thesis
      by (cases i; cases "relates_role i"; cases spec; cases mode)
         (auto simp: defs schema_relates_def relates_definition_def is_ordered_def split: if_splits)
  next
    case (FactPlays p)
    with labels node scope show ?thesis
      by (cases p; cases "plays_role p") (auto simp: defs schema_plays_def)
  qed (use structural in simp_all)
qed

lemma reads_subject:
  assumes exact: "labels_exact tq" and labels: "\<forall>l \<in> set (subject_labels subject). label_admitted tq l"
    and scope: "resolves_subject scope subject" and node: "annotation_subject_node tq subject m = Inr (name, c)"
  shows "label_admitted tq name"
    and "c = None \<Longrightarrow> subject = OnType (scope_type scope name)"
    and "c = Some cap \<Longrightarrow> capability_annotations cap = [] \<and>
      (\<exists>f. read_capability scope name (capability_base cap) = Some f \<and> fact_subject f = Some subject)"
proof -
  note defs = tql_capability_new_def exact_label [OF exact] schema_sub_def schema_owns_def schema_relates_def schema_plays_def
    schema_value_domain_def
  have "label_admitted tq name
    \<and> (c = None \<longrightarrow> subject = OnType (scope_type scope name))
    \<and> (\<forall>cap. c = Some cap \<longrightarrow> capability_annotations cap = []
         \<and> (\<exists>f. read_capability scope name (capability_base cap) = Some f \<and> fact_subject f = Some subject))"
  proof (cases subject)
    case (OnSub x)
    then show ?thesis using labels node scope by (cases x) (auto simp: defs)
  next
    case (OnValue v)
    then show ?thesis
      using labels node by (cases v; cases "value_attribute v") (auto simp: defs split: option.splits schema_fact.splits)
  next
    case (OnOwns w)
    then show ?thesis using labels node scope by (cases w; cases "owns_attribute w") (auto simp: defs simp del: if_split)
  next
    case (OnRelates r)
    then show ?thesis using labels node scope by (cases r; cases "relates_role r") (auto simp: defs simp del: if_split)
  next
    case (OnPlays p)
    then show ?thesis using labels node scope by (cases p; cases "plays_role p") (auto simp: defs)
  qed (use labels node scope in auto)
  then show "label_admitted tq name" "c = None \<Longrightarrow> subject = OnType (scope_type scope name)"
    "c = Some cap \<Longrightarrow> capability_annotations cap = [] \<and>
      (\<exists>f. read_capability scope name (capability_base cap) = Some f \<and> fact_subject f = Some subject)" by auto
qed

definition definition_claim_of :: "typeql \<Rightarrow> schema_fact \<Rightarrow> definition_claim option" where
  "definition_claim_of tq f =
     (case f of
        FactAnnotation a \<Rightarrow>
          (case annotation_node tq a of
             Inr v \<Rightarrow> Some (AddsAnnotation (annotation_subject (annotation_fact_id_of a)) v)
           | Inl _ \<Rightarrow> None)
      | _ \<Rightarrow> Some (DefinesFact f))"

definition undefinition_claim_of :: "typeql \<Rightarrow> schema_fact \<Rightarrow> undefinition_claim option" where
  "undefinition_claim_of tq f =
     (case f of
        FactAnnotation a \<Rightarrow>
          (let (category, key) = undefined_category (annotation_kind (annotation_fact_id_of a)) in
           case annotation_category_of tq category key of
             Inr c \<Rightarrow> Some (RemovesAnnotation (annotation_subject (annotation_fact_id_of a)) c)
           | Inl _ \<Rightarrow> None)
      | _ \<Rightarrow> Some (RemovesFact (fact_id f)))"

lemma reads_annotation:
  assumes exact: "labels_exact tq" and labels: "\<forall>l \<in> set (fact_labels (FactAnnotation a)). label_admitted tq l"
    and scope: "resolves scope (FactAnnotation a)" and node: "annotation_definition tq a m defining = Inr d"
  shows "read_definition scope (definition_inner d) = definition_claim_of tq (FactAnnotation a)"
proof -
  let ?subject = "annotation_subject (annotation_fact_id_of a)"
  from node obtain v name c where v: "annotation_node tq a = Inr v" and c: "annotation_subject_node tq ?subject m = Inr (name, c)"
    and d: "schema_type tq (if defining then case ?subject of OnType t \<Rightarrow> Some (kind_text (type_id_kind t)) | _ \<Rightarrow> None else None) name
      (case c of None \<Rightarrow> [v] | Some _ \<Rightarrow> []) (case c of None \<Rightarrow> [] | Some x \<Rightarrow> [annotated x [v]]) = Inr d"
    by (auto simp: annotation_definition_def Let_def res_simps)
  have "\<forall>l \<in> set (subject_labels ?subject). label_admitted tq l" "resolves_subject scope ?subject" using labels scope by simp_all
  note subject = reads_subject [OF exact this c]
  note name = subject(1)
  show ?thesis
  proof (cases c)
    case None
    with subject(2) have "?subject = OnType (scope_type scope name)" by blast
    with None d name v show ?thesis
      by (auto simp: schema_type_def read_declaration_def definition_claim_of_def exact_label [OF exact] split: if_splits option.splits)
  next
    case (Some cap)
    with subject(3) obtain f where f: "capability_annotations cap = []"
      "read_capability scope name (capability_base cap) = Some f" "fact_subject f = Some ?subject" by blast
    have "schema_type tq None name [] [annotated cap [v]] = Inr d" using d c Some by (cases ?subject; cases defining) simp_all
    with name v f show ?thesis
      by (auto simp: schema_type_def read_declaration_def definition_claim_of_def annotated_def exact_label [OF exact])
  qed
qed

lemma reads_annotation_removal:
  assumes exact: "labels_exact tq" and labels: "\<forall>l \<in> set (fact_labels (FactAnnotation a)). label_admitted tq l"
    and scope: "resolves scope (FactAnnotation a)" and node: "annotation_undefinition tq a m = Inr u"
  shows "read_undefinition scope u = undefinition_claim_of tq (FactAnnotation a)"
proof -
  let ?subject = "annotation_subject (annotation_fact_id_of a)" and ?category = "undefined_category (annotation_kind (annotation_fact_id_of a))"
  from node obtain name c where c: "annotation_subject_node tq ?subject m = Inr (name, c)"
    and u: "schema_undefine_annotation tq (fst ?category) (snd ?category) name c = Inr u"
    by (auto simp: annotation_undefinition_def Let_def res_simps split_beta)
  have "\<forall>l \<in> set (subject_labels ?subject). label_admitted tq l" "resolves_subject scope ?subject" using labels scope by simp_all
  note subject = reads_subject [OF exact this c]
  note name = subject(1)
  from u name obtain category where category: "annotation_category_of tq (fst ?category) (snd ?category) = Inr category"
    and node: "(case c of None \<Rightarrow> Inr (UndefineAnnotationType category name)
      | Some x \<Rightarrow> if capability_annotations x \<noteq> [] then Inl InvalidSchemaShape
          else Inr (UndefineAnnotationCapability category name (capability_base x))) = Inr u"
    by (auto simp: schema_undefine_annotation_def exact_label [OF exact] res_simps split: if_splits)
  have claim: "undefinition_claim_of tq (FactAnnotation a) = Some (RemovesAnnotation ?subject category)"
    using category by (simp add: undefinition_claim_of_def split_beta)
  show ?thesis
  proof (cases c)
    case None
    with subject(2) have "?subject = OnType (scope_type scope name)" by blast
    with None node claim show ?thesis by auto
  next
    case (Some cap)
    with subject(3) obtain f where "read_capability scope name (capability_base cap) = Some f" "fact_subject f = Some ?subject"
      by blast
    with Some node claim show ?thesis by (auto split: if_splits)
  qed
qed

lemma reads_structural_removal:
  assumes exact: "labels_exact tq" and labels: "\<forall>l \<in> set (fact_labels f). label_admitted tq l" and scope: "resolves scope f"
    and structural: "fact_subject f \<noteq> None" and node: "undefinition_node tq f m = Inr u"
  shows "read_undefinition scope u = Some (RemovesFact (fact_id f))"
proof -
  note defs = schema_undefine_capability_def schema_undefine_type_def tql_capability_new_def exact_label [OF exact] schema_sub_def
    schema_owns_def schema_relates_def schema_plays_def schema_value_domain_def
  show ?thesis
  proof (cases f)
    case (FactSub x)
    with labels node scope show ?thesis by (cases x) (auto simp: defs)
  next
    case (FactValue v)
    with labels node show ?thesis
      by (cases "value_fact_id_of v"; cases "value_attribute (value_fact_id_of v)") (auto simp: defs)
  next
    case (FactOwns w)
    with labels node scope show ?thesis
      by (cases "owns_fact_id_of w"; cases "owns_attribute (owns_fact_id_of w)") (auto simp: defs simp del: if_split)
  next
    case (FactRelates r)
    with labels node scope show ?thesis
      by (cases "relates_fact_id_of r"; cases "relates_role (relates_fact_id_of r)") (auto simp: defs simp del: if_split)
  next
    case (FactPlays p)
    with labels node scope show ?thesis by (cases p; cases "plays_role p") (auto simp: defs)
  qed (use labels node scope structural in \<open>auto simp: defs\<close>)
qed


definition example_scope :: label_scope where
  "example_scope = \<lparr>scope_type = TypeId Entity, scope_inherited_role = (\<lambda>t. RoleId (type_id_label t))\<rparr>"

definition example_owns :: schema_fact where
  "example_owns =
     FactOwns \<lparr>owns_fact_id_of = OwnsFactId (TypeId Entity ''person'') (AttributeId ''name''), owns_collection_mode = OrderedList\<rparr>"


end
