(* ===== verification/Semantic_View.thy ===== *)
theory Semantic_View
  imports Value_Order Semantic_Profiles Schema_Ops
begin

text \<open>
  The semantic view of a declared schema, \<open>schema/src/semantic.rs\<close>: the facts that are hashed into a
  semantic fingerprint, with the cardinality of every interface made explicit and with zoned values
  replaced by their instants; the views behind the managed fingerprints; and the exclusive binding of
  a managed scope. Canonical JSON and hashing are external: the fields of the parameter
  \<open>schema_hashing\<close> stand for the encoding of a view and the computation of its fingerprint
  (\<open>contract/src/schema_fingerprint.rs\<close>), which may fail on the size limits of the encoder. An instant,
  which the source spells as a decimal number, is kept as the integer.
\<close>

section \<open>Views\<close>

datatype semantic_fact_value =
    SemanticDirect schema_fact
  | TimeZoneRange annotation_subject_id "int option" "int option"
  | TimeZoneValues annotation_subject_id "int list"
  | MaterializedCardinality annotation_subject_id cardinality

record semantic_schema_view =
  view_format :: nat
  view_managed_scope :: "managed_scope_binding option"
  view_semantic_profile :: string
  view_profile_fingerprint :: "fingerprint option"
  view_timezone_policy :: string
  view_required_capabilities :: capability_set
  view_facts :: "(schema_fact_id \<times> semantic_fact_value) list"

record managed_declared_view =
  declared_view_format :: nat
  declared_view_scope :: managed_scope_binding
  declared_view_capabilities :: capability_set
  declared_view_facts :: "schema_fact list"

record schema_hashing =
  hash_identity :: identity_fp
  hash_scope_profile :: "fingerprint res"
  hash_semantic_profile :: "semantic_profile \<Rightarrow> fingerprint res"
  hash_semantic :: "semantic_schema_view \<Rightarrow> fingerprint res"
  hash_managed_semantic :: "semantic_schema_view \<Rightarrow> fingerprint res"
  hash_managed_declared :: "managed_declared_view \<Rightarrow> fingerprint res"
  hash_descriptor :: "schema_fact_id \<Rightarrow> fingerprint res"

type_synonym 'a schema_res = "diagnostic list + 'a"

text \<open>\<open>map_err(no_source)\<close>: one diagnostic without a source.\<close>

definition no_source :: "'a res \<Rightarrow> 'a schema_res" where
  "no_source r = map_sum (\<lambda>d. [d]) id r"

lemma no_source_Inr [simp]: "no_source r = Inr x \<longleftrightarrow> r = Inr x"
  by (cases r) (auto simp: no_source_def)

section \<open>Semantic facts\<close>

definition timezone_key :: "canonical_value \<Rightarrow> int option" where
  "timezone_key v = (case v of VDateTimeTz z \<Rightarrow> Some (semantic_utc_nanoseconds z) | _ \<Rightarrow> None)"

definition semantic_timezone_value :: "annotation_fact \<Rightarrow> semantic_fact_value option" where
  "semantic_timezone_value a =
     (let subject = annotation_subject (annotation_fact_id_of a) in
      case annotation_value a of
        PayloadRange r \<Rightarrow>
          (let lower = Option.bind (range_lower r) timezone_key; upper = Option.bind (range_upper r) timezone_key in
           if lower \<noteq> None \<or> upper \<noteq> None then Some (TimeZoneRange subject lower upper) else None)
      | PayloadValues vs \<Rightarrow>
          (case sorted_list_of_fset vs of
             VDateTimeTz _ # _ \<Rightarrow>
               Some (TimeZoneValues subject (sort (List.map_filter timezone_key (sorted_list_of_fset vs))))
           | _ \<Rightarrow> None)
      | _ \<Rightarrow> None)"

fun interface_kind_of :: "annotation_subject_id \<Rightarrow> interface_kind option" where
  "interface_kind_of (OnOwns _) = Some InterfaceOwns"
| "interface_kind_of (OnRelates _) = Some InterfaceRelates"
| "interface_kind_of (OnPlays _) = Some InterfacePlays"
| "interface_kind_of _ = None"

definition scoped_facts :: "schema_fact_id fset option \<Rightarrow> declared_schema \<Rightarrow> schema_fact list" where
  "scoped_facts scope d =
     filter (\<lambda>f. case scope of None \<Rightarrow> True | Some selection \<Rightarrow> fact_id f |\<in>| selection) (facts_list (schema_facts d))"

definition key_subject :: "schema_fact \<Rightarrow> annotation_subject_id option" where
  "key_subject f =
     (case f of
        FactAnnotation a \<Rightarrow>
          (case (annotation_kind (annotation_fact_id_of a), annotation_subject (annotation_fact_id_of a)) of
             (Key, OnOwns i) \<Rightarrow> Some (OnOwns i)
           | _ \<Rightarrow> None)
      | _ \<Rightarrow> None)"

definition interface_of_fact :: "schema_fact \<Rightarrow> (annotation_subject_id \<times> interface_kind) option" where
  "interface_of_fact f =
     (case f of
        FactOwns w \<Rightarrow> Some (OnOwns (owns_fact_id_of w), InterfaceOwns)
      | FactRelates r \<Rightarrow> Some (OnRelates (relates_fact_id_of r), InterfaceRelates)
      | FactPlays p \<Rightarrow> Some (OnPlays p, InterfacePlays)
      | _ \<Rightarrow> None)"

text \<open>The value one fact contributes.\<close>

definition semantic_fact_value_of :: "semantic_profile \<Rightarrow> annotation_subject_id list \<Rightarrow> schema_fact \<Rightarrow> semantic_fact_value" where
  "semantic_fact_value_of profile key_owns f =
     (case f of
        FactAnnotation a \<Rightarrow>
          (let subject = annotation_subject (annotation_fact_id_of a) in
           if annotation_kind (annotation_fact_id_of a) = Card then
             (case interface_kind_of subject of
                None \<Rightarrow> SemanticDirect f
              | Some kind \<Rightarrow>
                  (let implicit = profile_effective_cardinality profile kind None (subject \<in> set key_owns) in
                   if annotation_value a = PayloadCardinality implicit
                   then MaterializedCardinality subject implicit else SemanticDirect f))
           else (case semantic_timezone_value a of Some v \<Rightarrow> v | None \<Rightarrow> SemanticDirect f))
      | _ \<Rightarrow> SemanticDirect f)"

definition or_insert :: "'k \<Rightarrow> 'v \<Rightarrow> ('k, 'v) fmap \<Rightarrow> ('k, 'v) fmap" where
  "or_insert k v m = (if k |\<in>| fmdom m then m else fmupd k v m)"

definition materialize_interface :: "semantic_profile \<Rightarrow> annotation_subject_id list \<Rightarrow> annotation_subject_id \<times> interface_kind \<Rightarrow>
    (schema_fact_id, semantic_fact_value) fmap \<Rightarrow> (schema_fact_id, semantic_fact_value) fmap" where
  "materialize_interface profile key_owns = (\<lambda>(subject, kind).
     or_insert (IdAnnotation (AnnotationFactId subject Card))
       (MaterializedCardinality subject (profile_effective_cardinality profile kind None (subject \<in> set key_owns))))"

definition semantic_facts :: "declared_schema \<Rightarrow> schema_fact_id fset option \<Rightarrow> semantic_profile \<Rightarrow>
    (schema_fact_id \<times> semantic_fact_value) list" where
  "semantic_facts d scope profile =
     (let fs = scoped_facts scope d;
          key_owns = List.map_filter key_subject fs;
          facts = fold (\<lambda>f. fmupd (fact_id f) (semantic_fact_value_of profile key_owns f)) fs fmempty;
          interfaces = List.map_filter interface_of_fact fs
      in sorted_list_of_fmap (fold (materialize_interface profile key_owns) interfaces facts))"

section \<open>Fingerprints\<close>

definition TYPEDB_3_12_1_TIMEZONE_POLICY_ID :: string where
  "TYPEDB_3_12_1_TIMEZONE_POLICY_ID = ''typedb-iana-2024a/v1''"

definition ordered_fact :: "schema_fact \<Rightarrow> bool" where
  "ordered_fact f =
     (case f of
        FactOwns w \<Rightarrow> owns_collection_mode w = OrderedList
      | FactRelates r \<Rightarrow> relates_collection_mode r = OrderedList
      | _ \<Rightarrow> False)"

definition validate_collection_profile :: "declared_schema \<Rightarrow> string \<Rightarrow> unit schema_res" where
  "validate_collection_profile d profile =
     (if profile \<in> {''typedb-3.12.1/v1'', ''typedb-3.13.6/v1''} then Inr ()
      else fold_res (\<lambda>f _. if ordered_fact f then Inl [Diagnostic UnsupportedCapability ''ordered_collection_profile_unsupported'']
                            else Inr ()) (facts_list (schema_facts d)) ())"

record bound_scope =
  bound_selection :: "schema_fact_id fset"
  bound_binding :: managed_scope_binding

definition EXCLUSIVE_MANAGED_SCOPE_PROFILE_ID :: string where
  "EXCLUSIVE_MANAGED_SCOPE_PROFILE_ID = ''typebridge.managed-scope/exclusive/v1''"

definition binding_exclusive :: "schema_hashing \<Rightarrow> string \<Rightarrow> managed_scope_binding res" where
  "binding_exclusive h scope_id =
     bind_res (hash_scope_profile h) (\<lambda>fp.
       Inr \<lparr>binding_scope_id = scope_id, binding_profile_id = EXCLUSIVE_MANAGED_SCOPE_PROFILE_ID,
            binding_profile_fingerprint = fp\<rparr>)"

definition bind_exclusive :: "schema_hashing \<Rightarrow> string \<Rightarrow> declared_schema \<Rightarrow> bound_scope schema_res" where
  "bind_exclusive h scope_id d =
     bind_res (no_source (binding_exclusive h scope_id)) (\<lambda>binding.
       Inr \<lparr>bound_selection = fset_of_list (map fact_id (facts_list (schema_facts d))), bound_binding = binding\<rparr>)"

text \<open>\<open>canonical_semantic_schema_bytes_for_scope\<close> up to the encoding. The outer option is the panic of
  the profile table.\<close>

definition semantic_view_for_scope :: "schema_hashing \<Rightarrow> declared_schema \<Rightarrow> string \<Rightarrow> bound_scope option \<Rightarrow>
    semantic_schema_view schema_res option" where
  "semantic_view_for_scope h d profile scope =
     bind_panicking (map_option no_source (semantic_profile_resolve profile)) (\<lambda>p.
     bind_panicking (Some (validate_collection_profile d profile)) (\<lambda>_.
     bind_panicking (Some (case scope of
                             None \<Rightarrow> Inr None
                           | Some _ \<Rightarrow> no_source (bind_res (hash_semantic_profile h p) (\<lambda>fp. Inr (Some fp))))) (\<lambda>profile_fingerprint.
       Some (Inr \<lparr>view_format = schema_format d, view_managed_scope = map_option bound_binding scope,
         view_semantic_profile = profile, view_profile_fingerprint = profile_fingerprint,
         view_timezone_policy = TYPEDB_3_12_1_TIMEZONE_POLICY_ID,
         view_required_capabilities = schema_required_capabilities d,
         view_facts = semantic_facts d (map_option bound_selection scope) p\<rparr>))))"

definition semantic_schema_fingerprint :: "schema_hashing \<Rightarrow> declared_schema \<Rightarrow> string \<Rightarrow> fingerprint schema_res option" where
  "semantic_schema_fingerprint h d profile =
     bind_panicking (semantic_view_for_scope h d profile None) (\<lambda>v. Some (no_source (hash_semantic h v)))"

definition managed_semantic_schema_fingerprint ::
  "schema_hashing \<Rightarrow> declared_schema \<Rightarrow> string \<Rightarrow> bound_scope \<Rightarrow> fingerprint schema_res option" where
  "managed_semantic_schema_fingerprint h d profile scope =
     bind_panicking (semantic_view_for_scope h d profile (Some scope)) (\<lambda>v. Some (no_source (hash_managed_semantic h v)))"

definition managed_declared_identity_fingerprint :: "schema_hashing \<Rightarrow> declared_schema \<Rightarrow> bound_scope \<Rightarrow> fingerprint schema_res" where
  "managed_declared_identity_fingerprint h d scope =
     no_source (hash_managed_declared h
       \<lparr>declared_view_format = schema_format d, declared_view_scope = bound_binding scope,
        declared_view_capabilities = schema_required_capabilities d,
        declared_view_facts = scoped_facts (Some (bound_selection scope)) d\<rparr>)"

end
