(* ===== verification/Schema_Resolution.thy ===== *)
theory Schema_Resolution
  imports Semantic_View Tarjan
begin

text \<open>
  Resolution of a declared schema, \<open>schema/src/resolve.rs\<close>: types in order of their depth, each
  inheriting from its resolved parent and overriding by its own facts, then subtypes, roles,
  descriptors and the dependency graph of types. The walk over ancestors is a loop that need not end:
  it is a partial function whose value is \<open>None\<close> when it runs forever, so that \<open>None\<close> in the result of
  \<open>resolve_schema_with_capabilities\<close> means divergence or a panic. Source spans only label diagnostics and
  are not kept, so a conflict with one or with two known sources is the same diagnostic.
\<close>

section \<open>Resolved data\<close>

record resolution_origin =
  origin_declared :: schema_fact_id
  origin_inheritance_path :: "type_id list"

definition origin_direct :: "schema_fact_id \<Rightarrow> resolution_origin" where
  "origin_direct i = \<lparr>origin_declared = i, origin_inheritance_path = []\<rparr>"

definition origin_inherited :: "resolution_origin \<Rightarrow> type_id \<Rightarrow> resolution_origin" where
  "origin_inherited origin via = origin\<lparr>origin_inheritance_path := origin_inheritance_path origin @ [via]\<rparr>"

definition origin_is_direct :: "resolution_origin \<Rightarrow> bool" where
  "origin_is_direct origin \<longleftrightarrow> origin_inheritance_path origin = []"

type_synonym annotation_map = "(annotation_kind_id, schema_annotation_value) fmap"

record effective_owns =
  eowns_id :: owns_fact_id
  eowns_origin :: resolution_origin
  eowns_collection_mode :: collection_mode
  eowns_annotations :: annotation_map
  eowns_cardinality :: cardinality
  eowns_key :: bool
  eowns_unique :: bool

record effective_plays =
  eplays_id :: plays_fact_id
  eplays_origin :: resolution_origin
  eplays_annotations :: annotation_map
  eplays_cardinality :: cardinality

datatype effective_relates_id = EffectiveRelatesId (erelates_relation: type_id) (erelates_role: role_id)

record effective_relates =
  erelates_id :: effective_relates_id
  erelates_origin :: resolution_origin
  erelates_collection_mode :: collection_mode
  erelates_annotations :: annotation_map
  erelates_cardinality :: cardinality
  erelates_replaced_roles :: "role_id fset"
  erelates_is_abstract :: bool

definition accepts_players_at_effective_scope :: "effective_relates \<Rightarrow> bool" where
  "accepts_players_at_effective_scope e \<longleftrightarrow> \<not> erelates_is_abstract e \<or> \<not> origin_is_direct (erelates_origin e)"

record effective_value_type =
  evalue_type :: value_type_tag
  evalue_origin :: resolution_origin
  evalue_annotations :: annotation_map

record effective_sub =
  esub_id :: sub_fact_id
  esub_origin :: resolution_origin
  esub_annotations :: annotation_map

record resolved_type =
  rt_id :: type_id
  rt_supertypes :: "type_id list"
  rt_subtypes :: "type_id fset"
  rt_direct_sub :: "effective_sub option"
  rt_annotations :: annotation_map
  rt_value_type :: "effective_value_type option"
  rt_owns :: "(attribute_id, effective_owns) fmap"
  rt_plays :: "(role_id, effective_plays) fmap"
  rt_relates :: "(role_id, effective_relates) fmap"
  rt_key_attributes :: "attribute_id fset"
  rt_unique_attributes :: "attribute_id fset"
  rt_owned_attribute_order :: "attribute_id list"
  rt_is_abstract :: bool
  rt_constructible :: bool

record resolved_role =
  rr_id :: role_id
  rr_accepted_players :: "type_id fset"
  rr_replacing_roles :: "role_id fset"
  rr_is_abstract :: bool

record resolved_function =
  rf_declaration :: function_fact
  rf_annotations :: annotation_map

record resolved_struct =
  rs_id :: struct_id
  rs_fields :: "struct_field list"

record dependency_graph =
  dg_edges :: "(type_id, type_id fset) fmap"
  dg_components :: "type_id fset list"

record resolved_schema =
  resolved_declared_identity :: fingerprint
  resolved_semantic_fingerprint :: fingerprint
  resolved_types :: "(type_id, resolved_type) fmap"
  resolved_roles :: "(role_id, resolved_role) fmap"
  resolved_functions :: "(function_id, resolved_function) fmap"
  resolved_structs :: "(struct_id, resolved_struct) fmap"
  resolved_descriptors :: "(string, schema_fact_id) fmap"
  resolved_dependencies :: dependency_graph

section \<open>The order of attributes and roles\<close>

text \<open>The derived \<open>Ord\<close> of \<open>AttributeId\<close> and \<open>RoleId\<close>.\<close>

instantiation attribute_id :: linorder
begin
definition less_eq_attribute_id :: "attribute_id \<Rightarrow> attribute_id \<Rightarrow> bool" where
  "less_eq_attribute_id a b \<longleftrightarrow> attribute_label a \<le> attribute_label b"
definition less_attribute_id :: "attribute_id \<Rightarrow> attribute_id \<Rightarrow> bool" where
  "less_attribute_id a b \<longleftrightarrow> attribute_label a < attribute_label b"
instance
  by standard (auto simp: less_eq_attribute_id_def less_attribute_id_def less_le_not_le
    intro: attribute_id.expand dest: order_antisym)
end

instantiation role_id :: linorder
begin
definition less_eq_role_id :: "role_id \<Rightarrow> role_id \<Rightarrow> bool" where
  "less_eq_role_id a b \<longleftrightarrow> role_id_key a \<le> role_id_key b"
definition less_role_id :: "role_id \<Rightarrow> role_id \<Rightarrow> bool" where
  "less_role_id a b \<longleftrightarrow> role_id_key a < role_id_key b"
instance
  by standard (auto simp: less_eq_role_id_def less_role_id_def less_le_not_le dest: order_antisym)
end

section \<open>Direct facts\<close>

record direct_index =
  index_types :: "type_id fset"
  index_parents :: "(type_id, sub_fact_id list) fmap"
  index_values :: "(attribute_id, value_type_tag \<times> value_fact_id) fmap"
  index_owns :: "(type_id, owns_fact list) fmap"
  index_relates :: "(type_id, relates_fact list) fmap"
  index_plays :: "(type_id, plays_fact_id list) fmap"
  index_annotations :: "(annotation_subject_id, annotation_map) fmap"
  index_functions :: "(function_id, function_fact) fmap"
  index_structs :: "(struct_id, struct_fact) fmap"

definition empty_index :: direct_index where
  "empty_index = \<lparr>index_types = {||}, index_parents = fmempty, index_values = fmempty, index_owns = fmempty,
     index_relates = fmempty, index_plays = fmempty, index_annotations = fmempty, index_functions = fmempty,
     index_structs = fmempty\<rparr>"

text \<open>\<open>entry(k).or_default()\<close>, and pushing to such an entry.\<close>

definition entry_list :: "('k, 'v list) fmap \<Rightarrow> 'k \<Rightarrow> 'v list" where
  "entry_list m k = unwrap_or (fmlookup m k) []"

definition push_entry :: "'k \<Rightarrow> 'v \<Rightarrow> ('k, 'v list) fmap \<Rightarrow> ('k, 'v list) fmap" where
  "push_entry k v m = fmupd k (entry_list m k @ [v]) m"

fun index_fact :: "schema_fact \<Rightarrow> direct_index \<Rightarrow> direct_index" where
  "index_fact (FactType i) ix = ix\<lparr>index_types := finsert i (index_types ix)\<rparr>"
| "index_fact (FactSub s) ix = ix\<lparr>index_parents := push_entry (sub_subtype s) s (index_parents ix)\<rparr>"
| "index_fact (FactValue v) ix =
     ix\<lparr>index_values := fmupd (value_attribute (value_fact_id_of v)) (value_fact_type v, value_fact_id_of v) (index_values ix)\<rparr>"
| "index_fact (FactOwns w) ix = ix\<lparr>index_owns := push_entry (owns_owner (owns_fact_id_of w)) w (index_owns ix)\<rparr>"
| "index_fact (FactRelates r) ix =
     ix\<lparr>index_relates := push_entry (relates_relation (relates_fact_id_of r)) r (index_relates ix)\<rparr>"
| "index_fact (FactPlays p) ix = ix\<lparr>index_plays := push_entry (plays_player p) p (index_plays ix)\<rparr>"
| "index_fact (FactAnnotation a) ix =
     (let subject = annotation_subject (annotation_fact_id_of a); annotations = index_annotations ix in
      ix\<lparr>index_annotations :=
           fmupd subject (fmupd (annotation_kind (annotation_fact_id_of a)) (annotation_value a)
             (unwrap_or (fmlookup annotations subject) fmempty)) annotations\<rparr>)"
| "index_fact (FactFunction f) ix = ix\<lparr>index_functions := fmupd (function_fact_id_of f) f (index_functions ix)\<rparr>"
| "index_fact (FactStruct st) ix = ix\<lparr>index_structs := fmupd (struct_fact_id_of st) st (index_structs ix)\<rparr>"

definition index_build :: "declared_schema \<Rightarrow> direct_index" where
  "index_build d = fold index_fact (facts_list (schema_facts d)) empty_index"

definition annotations_for :: "direct_index \<Rightarrow> annotation_subject_id \<Rightarrow> annotation_map" where
  "annotations_for ix subject = unwrap_or (fmlookup (index_annotations ix) subject) fmempty"

section \<open>Parents\<close>

type_synonym parent_map = "(type_id, type_id) fmap"

definition source_error :: "string \<Rightarrow> 'a schema_res" where
  "source_error code = Inl [invalid_contract code]"

text \<open>\<open>facts[0]\<close> panics on an empty entry.\<close>

definition validate_parent :: "type_id \<times> sub_fact_id list \<Rightarrow> parent_map \<Rightarrow> parent_map schema_res option" where
  "validate_parent = (\<lambda>(subtype, facts) parents.
     if length facts > 1 then Some (source_error ''multiple_type_parents'')
     else
       (case facts of
          [] \<Rightarrow> None
        | s # _ \<Rightarrow>
            if type_id_kind subtype \<noteq> type_id_kind (sub_supertype s) then Some (source_error ''invalid_type_parent_kind'')
            else Some (Inr (fmupd subtype (sub_supertype s) parents))))"

definition validate_parents :: "direct_index \<Rightarrow> parent_map schema_res option" where
  "validate_parents ix = fold_panicking validate_parent (sorted_list_of_fmap (index_parents ix)) fmempty"

function cycle_walk :: "parent_map \<Rightarrow> type_id \<Rightarrow> type_id fset \<Rightarrow> unit schema_res" where
  "cycle_walk parents current visited =
     (case fmlookup parents current of
        None \<Rightarrow> Inr ()
      | Some parent \<Rightarrow>
          if current |\<in>| visited
          then bind_res (no_source (sub_fact_id_new current parent)) (\<lambda>_. source_error ''schema_inheritance_cycle'')
          else cycle_walk parents parent (finsert current visited))"
  by pat_completeness auto

termination
proof (relation "measure (\<lambda>(parents, current, visited). card (fset (fmdom parents) - fset visited))")
  fix parents :: parent_map and current parent :: type_id and visited :: "type_id fset"
  assume "fmlookup parents current = Some parent" "current |\<notin>| visited"
  then have "fset (fmdom parents) - fset (finsert current visited) \<subset> fset (fmdom parents) - fset visited"
    by (auto intro: fmdomI)
  then show "((parents, parent, finsert current visited), (parents, current, visited))
      \<in> measure (\<lambda>(parents, current, visited). card (fset (fmdom parents) - fset visited))"
    by (simp add: psubset_card_mono)
qed simp

declare cycle_walk.simps [simp del]

definition validate_inheritance_cycles :: "type_id fset \<Rightarrow> parent_map \<Rightarrow> unit schema_res" where
  "validate_inheritance_cycles types parents =
     fold_res (\<lambda>start _. cycle_walk parents start {||}) (sorted_list_of_fset types) ()"

partial_function (option) ancestor_walk :: "parent_map \<Rightarrow> type_id \<Rightarrow> type_id list \<Rightarrow> type_id list option" where
  "ancestor_walk parents current ancestors =
     (case fmlookup parents current of
        None \<Rightarrow> Some ancestors
      | Some parent \<Rightarrow> ancestor_walk parents parent (ancestors @ [parent]))"

declare ancestor_walk.simps [code]

definition ancestor_chain :: "parent_map \<Rightarrow> type_id \<Rightarrow> type_id list option" where
  "ancestor_chain parents i = ancestor_walk parents i []"

text \<open>\<open>order.sort_by_key(..)\<close> on the declared types in their own order.\<close>

definition resolution_order :: "type_id fset \<Rightarrow> parent_map \<Rightarrow> type_id list option" where
  "resolution_order types parents =
     (let ids = sorted_list_of_fset types in
      map_option (\<lambda>chains. map snd (sort (zip (map length chains) ids))) (those (map (ancestor_chain parents) ids)))"

section \<open>Inheritance\<close>

definition cardinality_value :: "schema_annotation_value \<Rightarrow> cardinality option" where
  "cardinality_value v = (case v of PayloadCardinality c \<Rightarrow> Some c | _ \<Rightarrow> None)"

definition cardinality_of :: "annotation_map \<Rightarrow> semantic_profile \<Rightarrow> interface_kind \<Rightarrow> cardinality" where
  "cardinality_of annotations profile kind =
     profile_effective_cardinality profile kind (Option.bind (fmlookup annotations Card) cardinality_value)
       (kind = InterfaceOwns \<and> Key |\<in>| fmdom annotations)"

definition empty_resolved_type :: "type_id \<Rightarrow> resolved_type" where
  "empty_resolved_type i =
     \<lparr>rt_id = i, rt_supertypes = [], rt_subtypes = {||}, rt_direct_sub = None, rt_annotations = fmempty,
      rt_value_type = None, rt_owns = fmempty, rt_plays = fmempty, rt_relates = fmempty, rt_key_attributes = {||},
      rt_unique_attributes = {||}, rt_owned_attribute_order = [], rt_is_abstract = False, rt_constructible = True\<rparr>"

definition inherit_value :: "type_id \<Rightarrow> effective_value_type \<Rightarrow> effective_value_type" where
  "inherit_value via v = v\<lparr>evalue_origin := origin_inherited (evalue_origin v) via\<rparr>"

definition inherit_owns :: "semantic_profile \<Rightarrow> type_id \<Rightarrow> type_id \<Rightarrow> effective_owns \<Rightarrow>
    (attribute_id, effective_owns) fmap \<Rightarrow> (attribute_id, effective_owns) fmap schema_res" where
  "inherit_owns profile via child w m =
     bind_res (no_source (owns_fact_id_new child (owns_attribute (eowns_id w)))) (\<lambda>i.
       Inr (fmupd (owns_attribute i)
         (w\<lparr>eowns_id := i, eowns_origin := origin_inherited (eowns_origin w) via,
            eowns_cardinality := profile_effective_cardinality profile InterfaceOwns
              (Option.bind (fmlookup (eowns_annotations w) Card) cardinality_value) (eowns_key w)\<rparr>) m))"

definition inherit_plays :: "type_id \<Rightarrow> type_id \<Rightarrow> effective_plays \<Rightarrow>
    (role_id, effective_plays) fmap \<Rightarrow> (role_id, effective_plays) fmap schema_res" where
  "inherit_plays via child p m =
     bind_res (no_source (plays_fact_id_new child (plays_role (eplays_id p)))) (\<lambda>i.
       Inr (fmupd (plays_role i) (p\<lparr>eplays_id := i, eplays_origin := origin_inherited (eplays_origin p) via\<rparr>) m))"

definition inherit_relates :: "type_id \<Rightarrow> type_id \<Rightarrow> effective_relates \<Rightarrow>
    (role_id, effective_relates) fmap \<Rightarrow> (role_id, effective_relates) fmap" where
  "inherit_relates via child e m =
     (let i = EffectiveRelatesId child (erelates_role (erelates_id e)) in
      fmupd (erelates_role i) (e\<lparr>erelates_id := i, erelates_origin := origin_inherited (erelates_origin e) via\<rparr>) m)"

definition inherit_type :: "resolved_type \<Rightarrow> type_id \<Rightarrow> semantic_profile \<Rightarrow> resolved_type schema_res" where
  "inherit_type parent child profile =
     bind_res (fold_res (inherit_owns profile (rt_id parent) child) (fm_values (rt_owns parent)) fmempty) (\<lambda>owns.
     bind_res (fold_res (inherit_plays (rt_id parent) child) (fm_values (rt_plays parent)) fmempty) (\<lambda>plays.
       Inr ((empty_resolved_type child)
         \<lparr>rt_annotations := fmfilter (\<lambda>kind. kind = Independent) (rt_annotations parent),
          rt_value_type := map_option (inherit_value (rt_id parent)) (rt_value_type parent),
          rt_owns := owns, rt_plays := plays,
          rt_relates := fold (inherit_relates (rt_id parent) child) (fm_values (rt_relates parent)) fmempty\<rparr>)))"

section \<open>The facts of one type\<close>

definition apply_owns :: "direct_index \<Rightarrow> semantic_profile \<Rightarrow> owns_fact \<Rightarrow>
    (attribute_id, effective_owns) fmap \<Rightarrow> (attribute_id, effective_owns) fmap schema_res" where
  "apply_owns ix profile w m =
     (let i = owns_fact_id_of w; annotations = annotations_for ix (OnOwns i) in
      if (case fmlookup m (owns_attribute i) of
            None \<Rightarrow> False
          | Some inherited \<Rightarrow> eowns_collection_mode inherited \<noteq> owns_collection_mode w)
      then source_error ''inherited_owns_collection_mode_conflict''
      else Inr (fmupd (owns_attribute i)
        \<lparr>eowns_id = i, eowns_origin = origin_direct (IdOwns i), eowns_collection_mode = owns_collection_mode w,
         eowns_annotations = annotations, eowns_cardinality = cardinality_of annotations profile InterfaceOwns,
         eowns_key = Key |\<in>| fmdom annotations,
         eowns_unique = (Unique |\<in>| fmdom annotations \<or> Key |\<in>| fmdom annotations)\<rparr> m))"

definition apply_plays :: "direct_index \<Rightarrow> semantic_profile \<Rightarrow> plays_fact_id \<Rightarrow>
    (role_id, effective_plays) fmap \<Rightarrow> (role_id, effective_plays) fmap" where
  "apply_plays ix profile i m =
     (let annotations = annotations_for ix (OnPlays i) in
      fmupd (plays_role i)
        \<lparr>eplays_id = i, eplays_origin = origin_direct (IdPlays i), eplays_annotations = annotations,
         eplays_cardinality = cardinality_of annotations profile InterfacePlays\<rparr> m)"

text \<open>The effective role that stands for a specialized one. The source looks the located role up
  again, which finds the entry it was located at.\<close>

definition locate_role :: "role_id \<Rightarrow> (role_id, effective_relates) fmap \<Rightarrow> (role_id \<times> effective_relates) option" where
  "locate_role specialized m =
     List.find (\<lambda>(role, e). role = specialized \<or> specialized |\<in>| erelates_replaced_roles e) (sorted_list_of_fmap m)"

definition replace_role :: "relates_fact \<Rightarrow> (role_id, effective_relates) fmap \<Rightarrow>
    ((role_id, effective_relates) fmap \<times> role_id fset) schema_res" where
  "replace_role r m =
     (case relates_specializes r of
        None \<Rightarrow> Inr (m, {||})
      | Some specialized \<Rightarrow>
          (case locate_role specialized m of
             None \<Rightarrow> source_error ''invalid_role_specialization''
           | Some (role, replaced) \<Rightarrow>
               if erelates_collection_mode replaced \<noteq> relates_collection_mode r
               then source_error ''specialized_role_collection_mode_conflict''
               else Inr (fmdrop role m, finsert specialized (erelates_replaced_roles replaced))))"

definition apply_relates :: "direct_index \<Rightarrow> semantic_profile \<Rightarrow> type_id \<Rightarrow> relates_fact \<Rightarrow>
    (role_id, effective_relates) fmap \<Rightarrow> (role_id, effective_relates) fmap schema_res" where
  "apply_relates ix profile t r m =
     (let i = relates_fact_id_of r; annotations = annotations_for ix (OnRelates i) in
      bind_res (replace_role r m) (\<lambda>(m, replaced_roles).
        Inr (fmupd (relates_role i)
          \<lparr>erelates_id = EffectiveRelatesId t (relates_role i), erelates_origin = origin_direct (IdRelates i),
           erelates_collection_mode = relates_collection_mode r, erelates_annotations = annotations,
           erelates_cardinality = cardinality_of annotations profile InterfaceRelates,
           erelates_replaced_roles = replaced_roles, erelates_is_abstract = Abstract |\<in>| fmdom annotations\<rparr> m)))"

definition direct_value :: "direct_index \<Rightarrow> type_id \<Rightarrow> effective_value_type option \<Rightarrow> effective_value_type option" where
  "direct_value ix t inherited =
     (if type_id_kind t \<noteq> Attribute then inherited
      else
        (case fmlookup (index_values ix) (AttributeId (type_id_label t)) of
           None \<Rightarrow> inherited
         | Some (tag, i) \<Rightarrow>
             Some \<lparr>evalue_type = tag, evalue_origin = origin_direct (IdValue i), evalue_annotations = annotations_for ix (OnValue i)\<rparr>))"

definition direct_subtype :: "direct_index \<Rightarrow> parent_map \<Rightarrow> type_id \<Rightarrow> effective_sub option schema_res" where
  "direct_subtype ix parents t =
     (case fmlookup parents t of
        None \<Rightarrow> Inr None
      | Some parent \<Rightarrow>
          bind_res (no_source (sub_fact_id_new t parent)) (\<lambda>i.
            Inr (Some \<lparr>esub_id = i, esub_origin = origin_direct (IdSub i), esub_annotations = annotations_for ix (OnSub i)\<rparr>)))"

definition finish_type :: "resolved_type \<Rightarrow> resolved_type" where
  "finish_type r =
     r\<lparr>rt_key_attributes := fset_of_list (map (\<lambda>w. owns_attribute (eowns_id w)) (filter eowns_key (fm_values (rt_owns r)))),
       rt_unique_attributes := fset_of_list (map (\<lambda>w. owns_attribute (eowns_id w)) (filter eowns_unique (fm_values (rt_owns r)))),
       rt_owned_attribute_order := fm_keys (rt_owns r),
       rt_constructible := (\<not> rt_is_abstract r \<and> list_all accepts_players_at_effective_scope (fm_values (rt_relates r)))\<rparr>"

definition direct_annotations :: "direct_index \<Rightarrow> resolved_type option \<Rightarrow> type_id \<Rightarrow> annotation_map \<Rightarrow> annotation_map" where
  "direct_annotations ix inherited t base =
     (case Option.bind inherited (\<lambda>parent. fmlookup (rt_annotations parent) Independent) of
        None \<Rightarrow> base
      | Some independent \<Rightarrow> fmupd Independent independent base) ++\<^sub>f annotations_for ix (OnType t)"

text \<open>One iteration of the loop, given the resolved parent and the ancestors of the type.\<close>

definition resolve_type :: "direct_index \<Rightarrow> parent_map \<Rightarrow> semantic_profile \<Rightarrow> resolved_type option \<Rightarrow> type_id \<Rightarrow> type_id list \<Rightarrow>
    resolved_type schema_res" where
  "resolve_type ix parents profile inherited t supertypes =
     bind_res (case inherited of None \<Rightarrow> Inr (empty_resolved_type t) | Some parent \<Rightarrow> inherit_type parent t profile) (\<lambda>base.
     bind_res (direct_subtype ix parents t) (\<lambda>sub.
     (let annotations = direct_annotations ix inherited t (rt_annotations base) in
     bind_res (fold_res (apply_owns ix profile) (entry_list (index_owns ix) t) (rt_owns base)) (\<lambda>owns.
     bind_res (fold_res (apply_relates ix profile t) (entry_list (index_relates ix) t) (rt_relates base)) (\<lambda>relates.
       Inr (finish_type (base\<lparr>rt_id := t, rt_supertypes := supertypes,
         rt_direct_sub := (case sub of None \<Rightarrow> rt_direct_sub base | Some _ \<Rightarrow> sub), rt_annotations := annotations,
         rt_value_type := direct_value ix t (rt_value_type base), rt_owns := owns,
         rt_plays := fold (apply_plays ix profile) (entry_list (index_plays ix) t) (rt_plays base),
         rt_relates := relates, rt_is_abstract := Abstract |\<in>| fmdom annotations\<rparr>)))))))"

definition resolve_next :: "direct_index \<Rightarrow> parent_map \<Rightarrow> semantic_profile \<Rightarrow> type_id \<Rightarrow> (type_id, resolved_type) fmap \<Rightarrow>
    (type_id, resolved_type) fmap schema_res option" where
  "resolve_next ix parents profile t types =
     (let inherited = Option.bind (fmlookup parents t) (fmlookup types) in
      bind_panicking (map_option Inr (ancestor_chain parents t)) (\<lambda>supertypes.
      bind_panicking (Some (resolve_type ix parents profile inherited t supertypes)) (\<lambda>r.
        Some (Inr (fmupd t r types)))))"

section \<open>Subtypes, roles, descriptors and dependencies\<close>

definition add_subtype :: "type_id \<Rightarrow> type_id \<Rightarrow> (type_id, resolved_type) fmap \<Rightarrow> (type_id, resolved_type) fmap" where
  "add_subtype t parent types =
     (case fmlookup types parent of
        None \<Rightarrow> types
      | Some r \<Rightarrow> fmupd parent (r\<lparr>rt_subtypes := finsert t (rt_subtypes r)\<rparr>) types)"

fun add_to_ancestors :: "parent_map \<Rightarrow> type_id list \<Rightarrow> (type_id, resolved_type) fmap \<Rightarrow> (type_id, resolved_type) fmap option" where
  "add_to_ancestors parents [] types = Some types"
| "add_to_ancestors parents (t # ts) types =
     Option.bind (ancestor_chain parents t) (\<lambda>chain. add_to_ancestors parents ts (fold (add_subtype t) chain types))"

definition populate_subtypes :: "(type_id, resolved_type) fmap \<Rightarrow> parent_map \<Rightarrow> (type_id, resolved_type) fmap option" where
  "populate_subtypes types parents = add_to_ancestors parents (fm_keys types) types"

text \<open>\<open>if let Some(role) = roles.get_mut(..)\<close>\<close>

definition modify_entry :: "'k \<Rightarrow> ('v \<Rightarrow> 'v) \<Rightarrow> ('k, 'v) fmap \<Rightarrow> ('k, 'v) fmap" where
  "modify_entry k f m = (case fmlookup m k of None \<Rightarrow> m | Some v \<Rightarrow> fmupd k (f v) m)"

definition declare_role :: "direct_index \<Rightarrow> relates_fact \<Rightarrow> (role_id, resolved_role) fmap \<Rightarrow> (role_id, resolved_role) fmap" where
  "declare_role ix r =
     (let i = relates_fact_id_of r in
      fmupd (relates_role i) \<lparr>rr_id = relates_role i, rr_accepted_players = {||}, rr_replacing_roles = {||},
        rr_is_abstract = Abstract |\<in>| fmdom (annotations_for ix (OnRelates i))\<rparr>)"

definition record_replacement :: "effective_relates \<Rightarrow> (role_id, resolved_role) fmap \<Rightarrow> (role_id, resolved_role) fmap" where
  "record_replacement e =
     modify_entry (erelates_role (erelates_id e)) (\<lambda>role. role\<lparr>rr_replacing_roles := rr_replacing_roles role |\<union>| erelates_replaced_roles e\<rparr>)"

definition accept_player :: "type_id \<Rightarrow> effective_plays \<Rightarrow> (role_id, resolved_role) fmap \<Rightarrow> (role_id, resolved_role) fmap" where
  "accept_player t p =
     modify_entry (plays_role (eplays_id p)) (\<lambda>role. role\<lparr>rr_accepted_players := finsert t (rr_accepted_players role)\<rparr>)"

definition resolve_roles :: "(type_id, resolved_type) fmap \<Rightarrow> direct_index \<Rightarrow> (role_id, resolved_role) fmap" where
  "resolve_roles types ix =
     (let declared = fold (declare_role ix) (concat (fm_values (index_relates ix))) fmempty;
          replaced = fold (\<lambda>r. fold record_replacement (fm_values (rt_relates r))) (fm_values types) declared
      in fold (\<lambda>r. fold (accept_player (rt_id r)) (fm_values (rt_plays r))) (filter rt_constructible (fm_values types)) replaced)"

definition descriptor_index :: "schema_hashing \<Rightarrow> declared_schema \<Rightarrow> (string, schema_fact_id) fmap schema_res" where
  "descriptor_index h d =
     fold_res (\<lambda>f descriptors.
         bind_res (no_source (hash_descriptor h (fact_id f))) (\<lambda>digest.
           Inr (fmupd (''schema:'' @ digest) (fact_id f) descriptors)))
       (facts_list (schema_facts d)) fmempty"

definition add_edges :: "type_id \<Rightarrow> type_id fset \<Rightarrow> (type_id, type_id fset) fmap \<Rightarrow> (type_id, type_id fset) fmap" where
  "add_edges t targets edges = fmupd t (unwrap_or (fmlookup edges t) {||} |\<union>| targets) edges"

definition type_edges :: "(role_id, resolved_role) fmap \<Rightarrow> resolved_type \<Rightarrow> (type_id, type_id fset) fmap \<Rightarrow>
    (type_id, type_id fset) fmap" where
  "type_edges roles r edges =
     (let parent = (case rt_supertypes r of [] \<Rightarrow> id | p # _ \<Rightarrow> add_edges (rt_id r) {|p|});
          attributes = fold (\<lambda>a. add_edges (rt_id r) {|attribute_type_id a|}) (fm_keys (rt_owns r));
          relations = fold (\<lambda>role. add_edges (rt_id r) {|relation_type role|}) (fm_keys (rt_plays r));
          players = fold (\<lambda>e. case fmlookup roles (erelates_role (erelates_id e)) of
                                 None \<Rightarrow> id
                               | Some role \<Rightarrow> add_edges (rt_id r) (rr_accepted_players role)) (fm_values (rt_relates r))
      in players (relations (attributes (parent edges))))"

text \<open>The search of \<open>strongly_connected_components\<close> is the one of \<open>Tarjan\<close>, from the keys of the edge map;
  its depth is bounded by the number of types the edges mention.\<close>

definition edge_targets :: "(type_id, type_id fset) fmap \<Rightarrow> type_id \<Rightarrow> type_id list" where
  "edge_targets edges t = sorted_list_of_fset (unwrap_or (fmlookup edges t) {||})"

definition type_components :: "(type_id, type_id fset) fmap \<Rightarrow> type_id fset list option" where
  "type_components edges =
     (let depth = fcard (fmdom edges |\<union>| ffUnion (fmran edges)) in
      map_option (\<lambda>components. map fset_of_list (sort_key hd components))
        (scc_components (edge_targets edges) depth (fmdom edges)))"

definition dependency_graph_of :: "(type_id, resolved_type) fmap \<Rightarrow> (role_id, resolved_role) fmap \<Rightarrow> dependency_graph option" where
  "dependency_graph_of types roles =
     (let nodes = fold (\<lambda>t. fmupd t {||}) (fm_keys types) fmempty;
          edges = fold (type_edges roles) (fm_values types) nodes
      in map_option (\<lambda>components. \<lparr>dg_edges = edges, dg_components = components\<rparr>) (type_components edges))"

section \<open>Resolution\<close>

definition resolve_functions :: "direct_index \<Rightarrow> (function_id, resolved_function) fmap" where
  "resolve_functions ix =
     fmmap_keys (\<lambda>i f. \<lparr>rf_declaration = f, rf_annotations = annotations_for ix (OnFunction i)\<rparr>) (index_functions ix)"

definition resolve_structs :: "direct_index \<Rightarrow> (struct_id, resolved_struct) fmap" where
  "resolve_structs ix = fmmap (\<lambda>st. \<lparr>rs_id = struct_fact_id_of st, rs_fields = struct_fields st\<rparr>) (index_structs ix)"

definition resolve_types :: "direct_index \<Rightarrow> parent_map \<Rightarrow> semantic_profile \<Rightarrow> (type_id, resolved_type) fmap schema_res option" where
  "resolve_types ix parents profile =
     Option.bind (resolution_order (index_types ix) parents) (\<lambda>order.
       fold_panicking (resolve_next ix parents profile) order fmempty)"

definition resolve_schema_with_capabilities :: "schema_hashing \<Rightarrow> declared_schema \<Rightarrow> string \<Rightarrow> capability_set \<Rightarrow>
    resolved_schema schema_res option" where
  "resolve_schema_with_capabilities h d profile_name available =
     bind_panicking (Some (no_source (ensure_supported_by (schema_required_capabilities d) available))) (\<lambda>_.
     bind_panicking (map_option no_source (semantic_profile_resolve profile_name)) (\<lambda>profile.
     bind_panicking (Some (validate_collection_profile d profile_name)) (\<lambda>_.
     (let ix = index_build d in
     bind_panicking (validate_parents ix) (\<lambda>parents.
     bind_panicking (Some (validate_inheritance_cycles (index_types ix) parents)) (\<lambda>_.
     bind_panicking (resolve_types ix parents profile) (\<lambda>types.
     bind_panicking (map_option Inr (populate_subtypes types parents)) (\<lambda>types.
     (let roles = resolve_roles types ix in
     bind_panicking (Some (descriptor_index h d)) (\<lambda>descriptors.
     bind_panicking (map_option Inr (dependency_graph_of types roles)) (\<lambda>dependencies.
     bind_panicking (semantic_schema_fingerprint h d profile_name) (\<lambda>semantic_fingerprint.
       Some (Inr \<lparr>resolved_declared_identity = schema_fingerprint d, resolved_semantic_fingerprint = semantic_fingerprint,
         resolved_types = types, resolved_roles = roles, resolved_functions = resolve_functions ix,
         resolved_structs = resolve_structs ix, resolved_descriptors = descriptors,
         resolved_dependencies = dependencies\<rparr>)))))))))))))"

definition BUILTIN_SCHEMA_CAPABILITY_IDS :: "string list" where
  "BUILTIN_SCHEMA_CAPABILITY_IDS = [''schema.annotations'', ''schema.doc-meta'', ''schema.roles'']"

text \<open>The \<open>expect\<close> on the grammar of the built-in capabilities is the \<open>None\<close> branch.\<close>

definition builtin_schema_capabilities :: "capability_set option" where
  "builtin_schema_capabilities =
     (case map_res capability_id_new BUILTIN_SCHEMA_CAPABILITY_IDS of Inl _ \<Rightarrow> None | Inr ids \<Rightarrow> Some (fset_of_list ids))"

definition resolve :: "schema_hashing \<Rightarrow> declared_schema \<Rightarrow> string \<Rightarrow> resolved_schema schema_res option" where
  "resolve h d profile_name =
     Option.bind builtin_schema_capabilities (resolve_schema_with_capabilities h d profile_name)"

end
