(* ===== verification/Resolution_Chains.thy ===== *)
theory Resolution_Chains
  imports Schema_Resolution
begin

text \<open>
  Termination of resolution. The walk over ancestors ends exactly from the types from which the parent
  map reaches a type without parent; the cycle check accepts exactly when it ends from every declared
  type; and the order in which types are resolved then exists and puts parents first. With the bound on
  the component search this makes resolution total on every declaration, cyclic ones included.
\<close>

section \<open>Ancestor chains\<close>

fun is_chain :: "parent_map \<Rightarrow> type_id \<Rightarrow> type_id list \<Rightarrow> bool" where
  "is_chain parents t [] \<longleftrightarrow> fmlookup parents t = None"
| "is_chain parents t (p # ps) \<longleftrightarrow> fmlookup parents t = Some p \<and> is_chain parents p ps"

lemma ancestor_walk_chain: "is_chain parents t xs \<Longrightarrow> ancestor_walk parents t acc = Some (acc @ xs)"
  by (induction xs arbitrary: t acc) (simp_all add: ancestor_walk.simps)

lemma ancestor_walk_Some:
  assumes "ancestor_walk parents t acc = Some ys"
  shows "\<exists>xs. is_chain parents t xs \<and> ys = acc @ xs"
proof (rule ancestor_walk.raw_induct [OF _ assms])
  fix walk parents t acc ys
  assume ih: "\<And>parents t acc ys. walk parents t acc = Some ys \<Longrightarrow> \<exists>xs. is_chain parents t xs \<and> ys = acc @ xs"
    and body: "(case fmlookup parents t of None \<Rightarrow> Some acc | Some p \<Rightarrow> walk parents p (acc @ [p])) = Some ys"
  show "\<exists>xs. is_chain parents t xs \<and> ys = acc @ xs"
  proof (cases "fmlookup parents t")
    case None
    with body show ?thesis by (auto intro: exI [of _ "[]"])
  next
    case (Some p)
    with body have "walk parents p (acc @ [p]) = Some ys" by simp
    from ih [OF this] obtain xs where "is_chain parents p xs" "ys = (acc @ [p]) @ xs" by blast
    with Some show ?thesis by (intro exI [of _ "p # xs"]) simp
  qed
qed

lemma ancestor_chain_iff: "ancestor_chain parents t = Some xs \<longleftrightarrow> is_chain parents t xs"
  using ancestor_walk_chain [of parents t xs "[]"] ancestor_walk_Some [of parents t "[]" xs]
  by (auto simp: ancestor_chain_def)

lemma is_chain_unique: "is_chain parents t xs \<Longrightarrow> is_chain parents t ys \<Longrightarrow> xs = ys"
  using ancestor_chain_iff by (metis option.inject)

lemma is_chain_suffix: "is_chain parents t (xs @ p # ps) \<Longrightarrow> is_chain parents p ps"
  by (induction xs arbitrary: t) auto

lemma is_chain_distinct: "is_chain parents t xs \<Longrightarrow> distinct (t # xs)"
proof (induction xs arbitrary: t)
  case (Cons p ps)
  have "t \<notin> set (p # ps)"
  proof
    assume "t \<in> set (p # ps)"
    then obtain as bs where split: "p # ps = as @ t # bs" by (meson split_list)
    with Cons.prems have "is_chain parents t bs" by (metis is_chain_suffix)
    with Cons.prems have "bs = p # ps" by (rule is_chain_unique [rotated])
    with split have "length bs = length as + Suc (length bs)" by (metis length_append length_Cons)
    then show False by simp
  qed
  with Cons.IH [of p] Cons.prems show ?case by simp
qed simp

section \<open>The cycle check\<close>

lemma cycle_walk_accepts: "cycle_walk parents t visited = Inr () \<Longrightarrow> \<exists>xs. is_chain parents t xs"
proof (induction parents t visited rule: cycle_walk.induct)
  case (1 parents t visited)
  show ?case
  proof (cases "fmlookup parents t")
    case None
    then show ?thesis by (auto intro: exI [of _ "[]"])
  next
    case (Some p)
    with 1(2) have "t |\<notin>| visited" by (auto simp: cycle_walk.simps [of parents t] source_error_def res_simps)
    with 1(1) [OF Some this] 1(2) Some obtain xs where "is_chain parents p xs"
      by (auto simp: cycle_walk.simps [of parents t])
    with Some show ?thesis by (auto intro: exI [of _ "p # xs"])
  qed
qed

lemma cycle_walk_chain:
  "is_chain parents t xs \<Longrightarrow> (\<forall>x \<in> set (t # xs). x |\<notin>| visited) \<Longrightarrow> cycle_walk parents t visited = Inr ()"
proof (induction xs arbitrary: t visited)
  case (Cons p ps)
  have "t \<notin> set (p # ps)" using is_chain_distinct [OF Cons.prems(1)] by simp
  then have "cycle_walk parents p (finsert t visited) = Inr ()"
    using Cons.prems by (intro Cons.IH) auto
  with Cons.prems show ?case by (subst cycle_walk.simps) simp
qed (subst cycle_walk.simps, simp)

lemma cycle_walk_iff: "cycle_walk parents t {||} = Inr () \<longleftrightarrow> (\<exists>xs. ancestor_chain parents t = Some xs)"
  using cycle_walk_accepts [of parents t "{||}"] cycle_walk_chain [of parents t _ "{||}"]
  by (auto simp: ancestor_chain_iff)

lemma validate_cycles_iff:
  "validate_inheritance_cycles types parents = Inr () \<longleftrightarrow> (\<forall>t \<in> fset types. \<exists>xs. ancestor_chain parents t = Some xs)"
  by (simp add: validate_inheritance_cycles_def fold_res_checks cycle_walk_iff)

section \<open>The order of resolution\<close>

lemma those_map: "(\<forall>x \<in> set xs. \<exists>y. f x = Some y) \<Longrightarrow> those (map f xs) = Some (map (\<lambda>x. the (f x)) xs)"
  by (induction xs) auto

definition chain_length :: "parent_map \<Rightarrow> type_id \<Rightarrow> nat" where
  "chain_length parents t = length (the (ancestor_chain parents t))"

lemma chain_length_parent:
  "ancestor_chain parents t = Some xs \<Longrightarrow> fmlookup parents t = Some p \<Longrightarrow> chain_length parents t = Suc (chain_length parents p)"
proof -
  assume chain: "ancestor_chain parents t = Some xs" and p: "fmlookup parents t = Some p"
  then obtain ps where "xs = p # ps" "is_chain parents p ps" by (cases xs) (auto simp: ancestor_chain_iff)
  then have "ancestor_chain parents p = Some ps" by (simp add: ancestor_chain_iff)
  with chain \<open>xs = p # ps\<close> show ?thesis by (simp add: chain_length_def)
qed

lemma resolution_order_eq:
  assumes "\<forall>t \<in> fset types. \<exists>xs. ancestor_chain parents t = Some xs"
  shows "resolution_order types parents
    = Some (map snd (sort (map (\<lambda>t. (chain_length parents t, t)) (sorted_list_of_fset types))))"
proof -
  let ?ids = "sorted_list_of_fset types"
  have "those (map (ancestor_chain parents) ?ids) = Some (map (\<lambda>t. the (ancestor_chain parents t)) ?ids)"
    using assms by (intro those_map) simp
  moreover have "zip (map length (map (\<lambda>t. the (ancestor_chain parents t)) ?ids)) ?ids
      = map (\<lambda>t. (chain_length parents t, t)) ?ids"
    by (simp add: zip_map1 zip_same_conv_map chain_length_def)
  ultimately show ?thesis by (simp add: resolution_order_def Let_def)
qed

lemma resolution_order_spec:
  assumes "\<forall>t \<in> fset types. \<exists>xs. ancestor_chain parents t = Some xs" "resolution_order types parents = Some order"
  shows "set order = fset types" "distinct order" "sorted (map (chain_length parents) order)"
proof -
  let ?keyed = "sort (map (\<lambda>t. (chain_length parents t, t)) (sorted_list_of_fset types))"
  have order: "order = map snd ?keyed" using assms by (simp add: resolution_order_eq)
  show "set order = fset types" by (auto simp: order image_iff)
  have "inj_on snd (set ?keyed)" by (auto simp: inj_on_def)
  then show "distinct order"
    by (simp add: order distinct_map) (auto simp: inj_on_def distinct_map)
  have "map (chain_length parents) order = map fst ?keyed" by (auto simp: order)
  moreover have "sorted (map fst ?keyed)"
    unfolding sorted_map
    by (rule sorted_wrt_mono_rel [of ?keyed "(\<le>)"]) (auto simp: less_eq_prod_def)
  ultimately show "sorted (map (chain_length parents) order)" by simp
qed

section \<open>Totality\<close>

lemma bind_panicking_total:
  "r \<noteq> None \<Longrightarrow> (\<And>x. r = Some (Inr x) \<Longrightarrow> f x \<noteq> None) \<Longrightarrow> bind_panicking r f \<noteq> None"
  by (auto simp: bind_panicking_def split: option.splits sum.splits)

lemma fold_panicking_total:
  "(\<And>x s. x \<in> set xs \<Longrightarrow> f x s \<noteq> None) \<Longrightarrow> fold_panicking f xs s \<noteq> None"
  by (induction xs arbitrary: s) (auto simp: bind_panicking_def split: option.splits sum.splits)

lemma fold_panicking_invariant:
  assumes "fold_panicking f xs s = Some (Inr t)" "P s"
    and "\<And>x s t. x \<in> set xs \<Longrightarrow> P s \<Longrightarrow> f x s = Some (Inr t) \<Longrightarrow> P t"
  shows "P t"
  using assms
proof (induction xs arbitrary: s)
  case (Cons x xs)
  then obtain u where "f x s = Some (Inr u)" "fold_panicking f xs u = Some (Inr t)" by (auto simp: res_simps)
  with Cons show ?case by (metis list.set_intros(1,2))
qed simp

lemma index_parents_nonempty:
  assumes "fmlookup (index_parents (index_build d)) t = Some ss"
  shows "ss \<noteq> []"
proof -
  have "fmpred (\<lambda>_ ss. ss \<noteq> []) (index_parents (fold index_fact fs ix))"
    if "fmpred (\<lambda>_ ss. ss \<noteq> []) (index_parents ix)" for fs ix
    using that
  proof (induction fs arbitrary: ix)
    case (Cons f fs)
    then have "fmpred (\<lambda>_ ss. ss \<noteq> []) (index_parents (index_fact f ix))"
      by (cases f) (auto simp: push_entry_def Let_def)
    with Cons.IH show ?case by simp
  qed simp
  from this [of empty_index "facts_list (schema_facts d)"] assms show ?thesis
    by (auto simp: index_build_def empty_index_def fmpred_iff)
qed

lemma validate_parents_total: "validate_parents (index_build d) \<noteq> None"
  unfolding validate_parents_def
proof (rule fold_panicking_total)
  fix x and s :: parent_map
  assume "x \<in> set (sorted_list_of_fmap (index_parents (index_build d)))"
  then obtain t ss where x: "x = (t, ss)" "fmlookup (index_parents (index_build d)) t = Some ss"
    by (metis set_sorted_list_of_fmap surj_pair)
  then obtain i is' where "ss = i # is'" using index_parents_nonempty by (cases ss) blast+
  with x(1) show "validate_parent x s \<noteq> None" by (simp add: validate_parent_def)
qed

lemma resolve_types_total:
  assumes chains: "\<forall>t \<in> fset (index_types ix). \<exists>xs. ancestor_chain parents t = Some xs"
  shows "resolve_types ix parents profile \<noteq> None"
    and "resolve_types ix parents profile = Some (Inr types) \<Longrightarrow> fmdom types |\<subseteq>| index_types ix"
proof -
  obtain order where order: "resolution_order (index_types ix) parents = Some order"
    using resolution_order_eq [OF chains] by blast
  note set_order = resolution_order_spec(1) [OF chains order]
  have step: "resolve_next ix parents profile t s \<noteq> None" if "t \<in> set order" for t s
    using that chains set_order unfolding resolve_next_def Let_def
    by (intro bind_panicking_total) (auto split: sum.splits)
  then show "resolve_types ix parents profile \<noteq> None"
    by (simp add: resolve_types_def order fold_panicking_total)
  assume "resolve_types ix parents profile = Some (Inr types)"
  then have "fold_panicking (resolve_next ix parents profile) order fmempty = Some (Inr types)"
    by (simp add: resolve_types_def order)
  then show "fmdom types |\<subseteq>| index_types ix"
    by (rule fold_panicking_invariant) (auto simp: resolve_next_def Let_def res_simps set_order)
qed

lemma add_to_ancestors_total:
  "(\<forall>t \<in> set ts. \<exists>xs. ancestor_chain parents t = Some xs) \<Longrightarrow> \<exists>u. add_to_ancestors parents ts types = Some u"
  by (induction ts arbitrary: types) auto

lemma set_edge_targets: "set (edge_targets edges t) = fset (unwrap_or (fmlookup edges t) {||})"
  by (simp add: edge_targets_def)

interpretation type_graph: digraph "edge_targets edges" "fset (fmdom edges |\<union>| ffUnion (fmran edges))"
  for edges :: "(type_id, type_id fset) fmap"
proof
  fix t
  show "set (edge_targets edges t) \<subseteq> fset (fmdom edges |\<union>| ffUnion (fmran edges))"
    by (cases "fmlookup edges t") (auto simp: set_edge_targets unwrap_or_def ffUnion.rep_eq intro!: fmranI)
qed simp

lemma components_total: "type_components edges \<noteq> None"
proof -
  let ?nodes = "fset (fmdom edges |\<union>| ffUnion (fmran edges))"
  have "\<exists>t. tarjan_roots (edge_targets edges) (card ?nodes) (sorted_list_of_fset (fmdom edges)) tarjan_init = Some t
      \<and> tj_inv (edge_targets edges) ?nodes {} t \<and> tj_dom tarjan_init \<union> set (sorted_list_of_fset (fmdom edges)) \<subseteq> tj_dom t"
    by (rule type_graph.roots_total [OF type_graph.init_inv]) auto
  then show ?thesis
    by (auto simp: type_components_def scc_components_def Let_def fcard.rep_eq)
qed

text \<open>
  C16. Resolution always ends and never panics, on every declaration and profile and whatever the hash
  functions return: cyclic inheritance, which would make the walks over ancestors run forever, is
  refused before the first of them, and the component search stays within its bound.
\<close>

theorem resolution_terminates: "\<exists>r. resolve_schema_with_capabilities h d profile available = Some r"
proof -
  let ?ix = "index_build d"
  have order: "validate_inheritance_cycles (index_types ?ix) parents = Inr u \<Longrightarrow>
      \<forall>t \<in> fset (index_types ?ix). \<exists>xs. ancestor_chain parents t = Some xs" for parents u
    by (simp add: validate_cycles_iff)
  have subtypes: "populate_subtypes types parents \<noteq> None"
    if "validate_inheritance_cycles (index_types ?ix) parents = Inr u" "resolve_types ?ix parents p = Some (Inr types)"
    for parents types p u
    using add_to_ancestors_total [of "fm_keys types" parents types] resolve_types_total(2) [OF order [OF that(1)] that(2)]
      order [OF that(1)] by (auto simp: populate_subtypes_def)
  have profile: "semantic_profile_resolve profile \<noteq> None" by (simp add: semantic_profile_resolve_eq)
  then have fingerprint: "semantic_schema_fingerprint h d profile \<noteq> None"
    unfolding semantic_schema_fingerprint_def semantic_view_for_scope_def
    by (intro bind_panicking_total) (auto simp del: not_None_eq)
  have dependencies: "dependency_graph_of types roles \<noteq> None" for types roles
    using components_total by (auto simp: dependency_graph_of_def Let_def)
  have "resolve_schema_with_capabilities h d profile available \<noteq> None"
    unfolding resolve_schema_with_capabilities_def Let_def
    by (intro bind_panicking_total)
      (auto simp del: not_None_eq simp: profile fingerprint dependencies validate_parents_total subtypes
        resolve_types_total(1) order)
  then show ?thesis by blast
qed

end
