(* ===== verification/Resolution_Paths.thy ===== *)
theory Resolution_Paths
  imports Resolution_Chains
begin

text \<open>
  The order of resolution and the index in terms of the declared facts. The index is read back as
  lookups of facts, the validated parent map as the subtype facts, and the loop over the types in order
  of depth is shown to compute, for every type, the fold of \<open>resolve_type\<close> along its chain of ancestors.
\<close>

section \<open>The index read back\<close>

definition declared_type :: "schema_fact \<Rightarrow> type_id option" where
  "declared_type f = (case f of FactType t \<Rightarrow> Some t | _ \<Rightarrow> None)"

lemma declared_type_Some [simp]: "declared_type f = Some t \<longleftrightarrow> f = FactType t"
  by (cases f) (auto simp: declared_type_def)

lemma index_types_fold:
  "index_types (fold index_fact fs ix) = index_types ix |\<union>| fset_of_list (List.map_filter declared_type fs)"
proof (induction fs arbitrary: ix)
  case (Cons f fs)
  then show ?case by (cases f) (auto simp: map_filter_simps declared_type_def Let_def)
qed (simp add: map_filter_simps)

lemma index_types_iff: "t |\<in>| index_types (index_build d) \<longleftrightarrow> FactType t \<in> set (facts_list (schema_facts d))"
  by (auto simp: index_build_def index_types_fold empty_index_def fset_of_list_elem in_set_map_filter)

lemma entry_list_push [simp]: "entry_list (push_entry k v m) k' = entry_list m k' @ (if k' = k then [v] else [])"
  by (simp add: push_entry_def entry_list_def unwrap_or_def)

definition owns_of :: "type_id \<Rightarrow> schema_fact \<Rightarrow> owns_fact option" where
  "owns_of t f = (case f of FactOwns w \<Rightarrow> if owns_owner (owns_fact_id_of w) = t then Some w else None | _ \<Rightarrow> None)"

definition plays_of :: "type_id \<Rightarrow> schema_fact \<Rightarrow> plays_fact_id option" where
  "plays_of t f = (case f of FactPlays p \<Rightarrow> if plays_player p = t then Some p else None | _ \<Rightarrow> None)"

definition relates_of :: "type_id \<Rightarrow> schema_fact \<Rightarrow> relates_fact option" where
  "relates_of t f =
     (case f of FactRelates r \<Rightarrow> if relates_relation (relates_fact_id_of r) = t then Some r else None | _ \<Rightarrow> None)"

lemma members_of_Some:
  "owns_of t f = Some w \<longleftrightarrow> f = FactOwns w \<and> owns_owner (owns_fact_id_of w) = t"
  "plays_of t f = Some p \<longleftrightarrow> f = FactPlays p \<and> plays_player p = t"
  "relates_of t f = Some r \<longleftrightarrow> f = FactRelates r \<and> relates_relation (relates_fact_id_of r) = t"
  by (cases f; auto simp: owns_of_def plays_of_def relates_of_def)+

lemma index_members_fold:
  "entry_list (index_owns (fold index_fact fs ix)) t = entry_list (index_owns ix) t @ List.map_filter (owns_of t) fs"
  "entry_list (index_plays (fold index_fact fs ix)) t = entry_list (index_plays ix) t @ List.map_filter (plays_of t) fs"
  "entry_list (index_relates (fold index_fact fs ix)) t = entry_list (index_relates ix) t @ List.map_filter (relates_of t) fs"
proof (induction fs arbitrary: ix)
  case (Cons f fs)
  { case 1 from Cons.IH(1) show ?case by (cases f) (auto simp: map_filter_simps owns_of_def Let_def) }
  { case 2 from Cons.IH(2) show ?case by (cases f) (auto simp: map_filter_simps plays_of_def Let_def) }
  { case 3 from Cons.IH(3) show ?case by (cases f) (auto simp: map_filter_simps relates_of_def Let_def) }
qed (simp_all add: map_filter_simps)

lemma index_members:
  "entry_list (index_owns (index_build d)) t = List.map_filter (owns_of t) (facts_list (schema_facts d))"
  "entry_list (index_plays (index_build d)) t = List.map_filter (plays_of t) (facts_list (schema_facts d))"
  "entry_list (index_relates (index_build d)) t = List.map_filter (relates_of t) (facts_list (schema_facts d))"
  by (simp_all add: index_build_def index_members_fold) (simp_all add: empty_index_def entry_list_def unwrap_or_def)

definition payload_of :: "annotation_subject_id \<Rightarrow> annotation_kind_id \<Rightarrow> schema_fact \<Rightarrow> schema_annotation_value option" where
  "payload_of s k f =
     (case f of FactAnnotation a \<Rightarrow> if annotation_fact_id_of a = AnnotationFactId s k then Some (annotation_value a) else None | _ \<Rightarrow> None)"

definition tag_of :: "attribute_id \<Rightarrow> schema_fact \<Rightarrow> (value_type_tag \<times> value_fact_id) option" where
  "tag_of a f =
     (case f of FactValue v \<Rightarrow> if value_attribute (value_fact_id_of v) = a then Some (value_fact_type v, value_fact_id_of v) else None
      | _ \<Rightarrow> None)"

lemma payload_of_Some:
  "payload_of s k f = Some v \<longleftrightarrow> (\<exists>a. f = FactAnnotation a \<and> annotation_fact_id_of a = AnnotationFactId s k \<and> v = annotation_value a)"
  by (cases f) (auto simp: payload_of_def)

lemma tag_of_Some:
  "tag_of a f = Some x \<longleftrightarrow> (\<exists>v. f = FactValue v \<and> value_fact_id_of v = ValueFactId a \<and> x = (value_fact_type v, ValueFactId a))"
  by (cases f) (auto simp: tag_of_def intro: value_fact_id.expand)

text \<open>The last entry of a list that a fold of updates leaves in a map.\<close>

definition last_entry :: "('f \<Rightarrow> 'v option) \<Rightarrow> 'f list \<Rightarrow> 'v option \<Rightarrow> 'v option" where
  "last_entry g fs start = fold (\<lambda>f v. case g f of None \<Rightarrow> v | Some w \<Rightarrow> Some w) fs start"

lemma last_entry_unique:
  assumes "\<And>f v. f \<in> set fs \<Longrightarrow> g f = Some v \<Longrightarrow> v = w" "f0 \<in> set fs" "g f0 = Some w"
  shows "last_entry g fs start = Some w"
proof -
  have "last_entry g fs x = (if \<exists>f \<in> set fs. g f \<noteq> None then Some w else x)" for x
    using assms(1)
  proof (induction fs arbitrary: x)
    case (Cons f fs)
    have ih: "last_entry g fs y = (if \<exists>f \<in> set fs. g f \<noteq> None then Some w else y)" for y
      using Cons.prems by (intro Cons.IH) (meson list.set_intros(2))
    have "g f = Some v \<Longrightarrow> v = w" for v using Cons.prems [of f v] by simp
    moreover have "last_entry g (f # fs) x = last_entry g fs (case g f of None \<Rightarrow> x | Some w \<Rightarrow> Some w)"
      by (simp add: last_entry_def)
    ultimately show ?case by (cases "g f") (auto simp: ih)
  qed (simp add: last_entry_def)
  with assms(2,3) show ?thesis by auto
qed

lemma last_entry_None: "(\<And>f. f \<in> set fs \<Longrightarrow> g f = None) \<Longrightarrow> last_entry g fs start = start"
  by (induction fs) (simp_all add: last_entry_def)

lemma index_annotations_fold:
  "fmlookup (annotations_for (fold index_fact fs ix) s) k = last_entry (payload_of s k) fs (fmlookup (annotations_for ix s) k)"
proof (induction fs arbitrary: ix)
  case (Cons f fs)
  have "fmlookup (annotations_for (index_fact f ix) s) k
      = (case payload_of s k f of None \<Rightarrow> fmlookup (annotations_for ix s) k | Some v \<Rightarrow> Some v)"
  proof (cases f)
    case (FactAnnotation a)
    then show ?thesis
      by (cases "annotation_fact_id_of a") (auto simp: annotations_for_def payload_of_def Let_def unwrap_or_def)
  qed (simp_all add: annotations_for_def payload_of_def)
  with Cons show ?case by (simp add: last_entry_def)
qed (simp add: last_entry_def)

lemma index_values_fold:
  "fmlookup (index_values (fold index_fact fs ix)) a = last_entry (tag_of a) fs (fmlookup (index_values ix) a)"
proof (induction fs arbitrary: ix)
  case (Cons f fs)
  have "fmlookup (index_values (index_fact f ix)) a = (case tag_of a f of None \<Rightarrow> fmlookup (index_values ix) a | Some v \<Rightarrow> Some v)"
    by (cases f) (auto simp: tag_of_def Let_def)
  with Cons show ?case by (simp add: last_entry_def)
qed (simp add: last_entry_def)

text \<open>With facts stored under their own identity every entry is a lookup.\<close>

definition fact_payload :: "fact_map \<Rightarrow> annotation_subject_id \<Rightarrow> annotation_kind_id \<Rightarrow> schema_annotation_value option" where
  "fact_payload m s k =
     (case fmlookup m (IdAnnotation (AnnotationFactId s k)) of Some (FactAnnotation a) \<Rightarrow> Some (annotation_value a) | _ \<Rightarrow> None)"

lemma keyed_member: "facts_keyed m \<Longrightarrow> f \<in> set (facts_list m) \<longleftrightarrow> fmlookup m (fact_id f) = Some f"
  by (auto simp: facts_list_def set_fm_values facts_keyed_def)

lemma keyed_lookup: "facts_keyed m \<Longrightarrow> fmlookup m i = Some f \<Longrightarrow> fact_id f = i \<and> f \<in> set (facts_list m)"
  unfolding facts_keyed_def facts_list_def set_fm_values by blast

lemma annotations_lookup:
  assumes "facts_keyed (schema_facts d)"
  shows "fmlookup (annotations_for (index_build d) s) k = fact_payload (schema_facts d) s k"
proof (cases "fmlookup (schema_facts d) (IdAnnotation (AnnotationFactId s k))")
  case None
  have "payload_of s k f = None" if "f \<in> set (facts_list (schema_facts d))" for f
    using that None keyed_member [OF assms, of f] by (cases "payload_of s k f") (auto simp: payload_of_Some)
  with None show ?thesis
    by (simp add: index_build_def index_annotations_fold last_entry_None fact_payload_def)
       (simp add: annotations_for_def empty_index_def unwrap_or_def)
next
  case (Some f)
  with assms have "fact_id f = IdAnnotation (AnnotationFactId s k)" by (auto simp: facts_keyed_def)
  then obtain a where f: "f = FactAnnotation a" "annotation_fact_id_of a = AnnotationFactId s k" by (cases f) auto
  have "last_entry (payload_of s k) (facts_list (schema_facts d)) start = Some (annotation_value a)" for start
  proof (rule last_entry_unique)
    show "f \<in> set (facts_list (schema_facts d))" using Some by (auto simp: facts_list_def set_fm_values)
    show "payload_of s k f = Some (annotation_value a)" by (simp add: f payload_of_def)
    fix g v assume "g \<in> set (facts_list (schema_facts d))" "payload_of s k g = Some v"
    then show "v = annotation_value a"
      using Some f keyed_member [OF assms, of g] by (auto simp: payload_of_Some)
  qed
  with Some f show ?thesis by (simp add: index_build_def index_annotations_fold fact_payload_def)
qed

lemma values_lookup:
  assumes "facts_keyed (schema_facts d)"
  shows "fmlookup (index_values (index_build d)) a
    = (case fmlookup (schema_facts d) (IdValue (ValueFactId a)) of
         Some (FactValue v) \<Rightarrow> Some (value_fact_type v, ValueFactId a) | _ \<Rightarrow> None)"
proof (cases "fmlookup (schema_facts d) (IdValue (ValueFactId a))")
  case None
  have "tag_of a f = None" if "f \<in> set (facts_list (schema_facts d))" for f
    using that None keyed_member [OF assms, of f] by (cases "tag_of a f") (auto simp: tag_of_Some)
  with None show ?thesis
    by (simp add: index_build_def index_values_fold last_entry_None) (simp add: empty_index_def)
next
  case (Some f)
  with assms have "fact_id f = IdValue (ValueFactId a)" by (auto simp: facts_keyed_def)
  then obtain v where f: "f = FactValue v" "value_fact_id_of v = ValueFactId a" by (cases f) auto
  have "last_entry (tag_of a) (facts_list (schema_facts d)) start = Some (value_fact_type v, ValueFactId a)" for start
  proof (rule last_entry_unique)
    show "f \<in> set (facts_list (schema_facts d))" using Some by (auto simp: facts_list_def set_fm_values)
    show "tag_of a f = Some (value_fact_type v, ValueFactId a)" by (simp add: f tag_of_def)
    fix g x assume "g \<in> set (facts_list (schema_facts d))" "tag_of a g = Some x"
    then show "x = (value_fact_type v, ValueFactId a)"
      using Some f keyed_member [OF assms, of g] by (auto simp: tag_of_Some)
  qed
  with Some f show ?thesis by (simp add: index_build_def index_values_fold)
qed

section \<open>Parents read back\<close>

definition subs_of :: "type_id \<Rightarrow> schema_fact \<Rightarrow> sub_fact_id option" where
  "subs_of t f = (case f of FactSub s \<Rightarrow> if sub_subtype s = t then Some s else None | _ \<Rightarrow> None)"

lemma subs_of_Some: "subs_of t f = Some s \<longleftrightarrow> f = FactSub s \<and> sub_subtype s = t"
  by (cases f) (auto simp: subs_of_def)

lemma index_parents_fold:
  "entry_list (index_parents (fold index_fact fs ix)) t = entry_list (index_parents ix) t @ List.map_filter (subs_of t) fs"
proof (induction fs arbitrary: ix)
  case (Cons f fs)
  then show ?case by (cases f) (auto simp: map_filter_simps subs_of_def Let_def)
qed (simp add: map_filter_simps)

lemma index_parents_entry:
  "entry_list (index_parents (index_build d)) t = List.map_filter (subs_of t) (facts_list (schema_facts d))"
  by (simp add: index_build_def index_parents_fold) (simp add: empty_index_def entry_list_def unwrap_or_def)

lemma validate_parent_entries:
  assumes "fold_panicking validate_parent xs parents0 = Some (Inr parents)" "distinct (map fst xs)"
  shows "\<forall>(t, ss) \<in> set xs. \<exists>s. ss = [s]"
    and "fmlookup parents t = (case map_of xs t of Some (s # _) \<Rightarrow> Some (sub_supertype s) | _ \<Rightarrow> fmlookup parents0 t)"
  using assms
proof (induction xs arbitrary: parents0)
  case (Cons x xs)
  obtain u ss where x: "x = (u, ss)" by (cases x)
  have step: "\<exists>s. ss = [s] \<and> fold_panicking validate_parent xs (fmupd u (sub_supertype s) parents0) = Some (Inr parents)"
    if fold: "fold_panicking validate_parent (x # xs) parents0 = Some (Inr parents)" for parents0
  proof -
    obtain parents1 where step: "validate_parent x parents0 = Some (Inr parents1)"
      and rest: "fold_panicking validate_parent xs parents1 = Some (Inr parents)"
      using fold by (auto simp: res_simps)
    from step x obtain s where "ss = [s]" "parents1 = fmupd u (sub_supertype s) parents0"
      by (cases ss) (auto simp: validate_parent_def source_error_def split: if_splits)
    with rest show ?thesis by blast
  qed
  { case 1
    from step [OF 1(1)] obtain s where s: "ss = [s]"
      "fold_panicking validate_parent xs (fmupd u (sub_supertype s) parents0) = Some (Inr parents)" by blast
    from Cons.IH(1) [OF s(2)] 1(2) s(1) show ?case by (simp add: x) }
  { case 2
    from step [OF 2(1)] obtain s where s: "ss = [s]"
      "fold_panicking validate_parent xs (fmupd u (sub_supertype s) parents0) = Some (Inr parents)" by blast
    have "map_of xs u = None" using 2(2) by (simp add: x map_of_eq_None_iff)
    with Cons.IH(2) [OF s(2)] 2(2) show ?case by (auto simp: x s(1) split: option.splits list.splits) }
qed simp_all

lemma parents_lookup:
  assumes "validate_parents (index_build d) = Some (Inr parents)"
  shows "fmlookup parents t = Some p \<longleftrightarrow> FactSub (SubFactId t p) \<in> set (facts_list (schema_facts d))"
proof -
  let ?m = "index_parents (index_build d)"
  note fold = assms [unfolded validate_parents_def]
  have keys: "distinct (map fst (sorted_list_of_fmap ?m))" by (simp add: sorted_list_of_fmap_def comp_def)
  have entry: "map_of (sorted_list_of_fmap ?m) t = fmlookup ?m t"
    using keys by (cases "fmlookup ?m t") (auto simp: map_of_eq_None_iff set_sorted_list_of_fmap image_iff)
  have single: "\<exists>s. ss = [s]" if "fmlookup ?m t = Some ss" for ss
    using bspec [OF validate_parent_entries(1) [OF fold keys], of "(t, ss)"] that by (simp add: set_sorted_list_of_fmap)
  have members: "set (entry_list ?m t) = {s. FactSub s \<in> set (facts_list (schema_facts d)) \<and> sub_subtype s = t}"
    by (auto simp: index_parents_entry in_set_map_filter subs_of_Some)
  show ?thesis
  proof (cases "fmlookup ?m t")
    case None
    with members have "FactSub (SubFactId t p) \<notin> set (facts_list (schema_facts d))" by (auto simp: entry_list_def unwrap_or_def)
    with None show ?thesis using validate_parent_entries(2) [OF fold keys, of t] by (simp add: entry)
  next
    case (Some ss)
    with single obtain s where s: "ss = [s]" by blast
    with Some members have "{s} = {s. FactSub s \<in> set (facts_list (schema_facts d)) \<and> sub_subtype s = t}"
      by (simp add: entry_list_def unwrap_or_def)
    then have "FactSub (SubFactId t p) \<in> set (facts_list (schema_facts d)) \<longleftrightarrow> s = SubFactId t p" "sub_subtype s = t" by auto
    with Some s show ?thesis
      using validate_parent_entries(2) [OF fold keys, of t] by (cases s) (auto simp: entry)
  qed
qed

section \<open>Resolution along a chain\<close>

fun resolve_path :: "direct_index \<Rightarrow> parent_map \<Rightarrow> semantic_profile \<Rightarrow> type_id \<Rightarrow> type_id list \<Rightarrow> resolved_type schema_res" where
  "resolve_path ix parents profile t [] = resolve_type ix parents profile None t []"
| "resolve_path ix parents profile t (p # ps) =
     bind_res (resolve_path ix parents profile p ps) (\<lambda>r. resolve_type ix parents profile (Some r) t (p # ps))"

definition resolved_entry :: "direct_index \<Rightarrow> parent_map \<Rightarrow> semantic_profile \<Rightarrow> type_id \<Rightarrow> resolved_type \<Rightarrow> bool" where
  "resolved_entry ix parents profile t r \<longleftrightarrow> (\<exists>ps. is_chain parents t ps \<and> resolve_path ix parents profile t ps = Inr r)"

lemma resolve_next_entry:
  assumes "resolve_next ix parents profile t types = Some (Inr types')"
    and "\<And>p. fmlookup parents t = Some p \<Longrightarrow> \<exists>r. fmlookup types p = Some r \<and> resolved_entry ix parents profile p r"
  shows "\<exists>r. resolved_entry ix parents profile t r \<and> types' = fmupd t r types"
proof -
  from assms(1) obtain ps r where ps: "is_chain parents t ps"
    and r: "resolve_type ix parents profile (Option.bind (fmlookup parents t) (fmlookup types)) t ps = Inr r"
    and types': "types' = fmupd t r types"
    by (auto simp: resolve_next_def Let_def res_simps ancestor_chain_iff)
  have "resolve_path ix parents profile t ps = Inr r"
  proof (cases ps)
    case Nil
    with ps r show ?thesis by simp
  next
    case (Cons p qs)
    with ps have p: "fmlookup parents t = Some p" "is_chain parents p qs" by auto
    then obtain u where u: "fmlookup types p = Some u" "resolved_entry ix parents profile p u" using assms(2) by blast
    with p(2) have "resolve_path ix parents profile p qs = Inr u"
      by (auto simp: resolved_entry_def dest: is_chain_unique)
    with Cons p(1) u(1) r show ?thesis by simp
  qed
  with ps types' show ?thesis by (auto simp: resolved_entry_def)
qed

lemma fold_resolve_next:
  assumes "fold_panicking (resolve_next ix parents profile) order types0 = Some (Inr types)"
    and "distinct order" "sorted (map (chain_length parents) order)"
    and "\<And>t. t \<in> set order \<Longrightarrow> \<exists>xs. ancestor_chain parents t = Some xs"
    and "\<And>t p. t \<in> set order \<Longrightarrow> fmlookup parents t = Some p \<Longrightarrow> p \<in> set order \<or> p |\<in>| fmdom types0"
    and "\<And>t r. fmlookup types0 t = Some r \<Longrightarrow> resolved_entry ix parents profile t r"
  shows "(\<forall>t r. fmlookup types t = Some r \<longrightarrow> resolved_entry ix parents profile t r)
    \<and> fset (fmdom types) = fset (fmdom types0) \<union> set order"
  using assms
proof (induction order arbitrary: types0)
  case (Cons t order)
  obtain types1 where first: "resolve_next ix parents profile t types0 = Some (Inr types1)"
    and rest: "fold_panicking (resolve_next ix parents profile) order types1 = Some (Inr types)"
    using Cons.prems(1) by (auto simp: res_simps)
  have parent: "p |\<in>| fmdom types0" if p: "fmlookup parents t = Some p" for p
  proof (rule ccontr)
    assume "p |\<notin>| fmdom types0"
    with Cons.prems(5) [of t p] p have "p \<in> set (t # order)" by auto
    with Cons.prems(3) have "chain_length parents t \<le> chain_length parents p" by auto
    moreover have "chain_length parents t = Suc (chain_length parents p)"
      using Cons.prems(4) [of t] chain_length_parent p by auto
    ultimately show False by simp
  qed
  obtain r where r: "resolved_entry ix parents profile t r" "types1 = fmupd t r types0"
    using resolve_next_entry [OF first] parent Cons.prems(6) by (metis fmdomE)
  have "(\<forall>t r. fmlookup types t = Some r \<longrightarrow> resolved_entry ix parents profile t r)
    \<and> fset (fmdom types) = fset (fmdom types1) \<union> set order"
  proof (rule Cons.IH [OF rest])
    show "distinct order" "sorted (map (chain_length parents) order)" using Cons.prems(2,3) by simp_all
    show "\<exists>xs. ancestor_chain parents u = Some xs" if "u \<in> set order" for u using Cons.prems(4) that by simp
    show "p \<in> set order \<or> p |\<in>| fmdom types1" if "u \<in> set order" "fmlookup parents u = Some p" for u p
      using Cons.prems(5) [of u p] that by (auto simp: r(2))
    show "resolved_entry ix parents profile u v" if "fmlookup types1 u = Some v" for u v
      using Cons.prems(6) [of u v] that r by (auto split: if_splits)
  qed
  then show ?case by (auto simp: r(2))
qed simp

text \<open>What a valid declaration gives: the parent of a declared type is declared.\<close>

definition parents_declared :: "direct_index \<Rightarrow> parent_map \<Rightarrow> bool" where
  "parents_declared ix parents \<longleftrightarrow> (\<forall>t p. fmlookup parents t = Some p \<longrightarrow> p |\<in>| index_types ix)"

lemma resolve_types_entries:
  assumes chains: "\<forall>t \<in> fset (index_types ix). \<exists>xs. ancestor_chain parents t = Some xs"
    and "parents_declared ix parents" "resolve_types ix parents profile = Some (Inr types)"
  shows "fmlookup types t = Some r \<Longrightarrow> resolved_entry ix parents profile t r" and "fmdom types = index_types ix"
proof -
  obtain order where order: "resolution_order (index_types ix) parents = Some order"
    and fold: "fold_panicking (resolve_next ix parents profile) order fmempty = Some (Inr types)"
    using assms(3) by (auto simp: resolve_types_def bind_eq_Some_conv)
  note spec = resolution_order_spec [OF chains order]
  have "(\<forall>t r. fmlookup types t = Some r \<longrightarrow> resolved_entry ix parents profile t r)
    \<and> fset (fmdom types) = fset (fmdom (fmempty :: (type_id, resolved_type) fmap)) \<union> set order"
    by (rule fold_resolve_next [OF fold spec(2,3)]) (use assms(2) chains spec(1) in \<open>auto simp: parents_declared_def\<close>)
  then show "fmlookup types t = Some r \<Longrightarrow> resolved_entry ix parents profile t r" "fmdom types = index_types ix"
    using spec(1) by (auto simp: fset_inject)
qed

end
