(* ===== verification/Resolution_Members.thy ===== *)
theory Resolution_Members
  imports Resolution_Paths Delta_Plan
begin

text \<open>
  What a resolved type holds. Along a chain of ancestors the ownerships, the roles played and the value
  domain of a type are those of the nearest type on the chain that declares them, with the types they
  were inherited through. The locale \<open>inheritance\<close> is what the three have in common; it is interpreted on
  each of them.
\<close>

section \<open>The nearest declaration\<close>

text \<open>The first element of a chain at which something is declared, and the elements between it and the
  head, furthest first: the types an inherited member has passed through.\<close>

fun nearest :: "('t \<Rightarrow> 'd option) \<Rightarrow> 't list \<Rightarrow> ('t list \<times> 'd) option" where
  "nearest f [] = None"
| "nearest f (x # xs) =
     (case f x of
        Some w \<Rightarrow> Some ([], w)
      | None \<Rightarrow> map_option (\<lambda>(via, w). (via @ [hd xs], w)) (nearest f xs))"

lemma nearest_Some: "nearest f xs = Some (via, w) \<Longrightarrow> \<exists>x \<in> set xs. f x = Some w"
  by (induction xs arbitrary: via) (auto split: option.splits)

locale inheritance =
  fixes declared :: "type_id \<Rightarrow> 'k \<Rightarrow> 'd option"
    and member :: "type_id \<Rightarrow> type_id list \<Rightarrow> 'd \<Rightarrow> 'm"
    and inherit :: "type_id \<Rightarrow> type_id \<Rightarrow> 'm \<Rightarrow> 'm"
  assumes inherit_member: "inherit via child (member via path w) = member child (path @ [via]) w"
begin

text \<open>The members of a child, given those of its parent.\<close>

lemma nearest_child:
  assumes "m = map_option (\<lambda>(via, w). member p via w) (nearest (\<lambda>x. declared x k) (p # ps))"
  shows "(case declared t k of Some w \<Rightarrow> Some (member t [] w) | None \<Rightarrow> map_option (inherit p t) m)
    = map_option (\<lambda>(via, w). member t via w) (nearest (\<lambda>x. declared x k) (t # p # ps))"
proof (cases "declared t k")
  case None
  show ?thesis
  proof (cases "nearest (\<lambda>x. declared x k) (p # ps)")
    case (Some n)
    with None show ?thesis by (cases n) (simp add: assms inherit_member del: nearest.simps(2) add: nearest.simps(2) [of _ t])
  qed (use None in \<open>simp add: assms\<close>)
qed simp

lemma nearest_root:
  "(case declared t k of Some w \<Rightarrow> Some (member t [] w) | None \<Rightarrow> None)
    = map_option (\<lambda>(via, w). member t via w) (nearest (\<lambda>x. declared x k) [t])"
  by (simp split: option.splits)

end

section \<open>Folds that update a map\<close>

lemma fold_upd_lookup:
  "fmlookup (fold (\<lambda>e. fmupd (key e) (g e)) es m) k
    = last_entry (\<lambda>e. if key e = k then Some (g e) else None) es (fmlookup m k)"
  by (induction es arbitrary: m) (simp_all add: last_entry_def)

lemma fold_upd_declared:
  assumes "\<And>e. x = Some e \<longleftrightarrow> e \<in> set es \<and> key e = k"
  shows "fmlookup (fold (\<lambda>e. fmupd (key e) (g e)) es m) k = (case x of Some e \<Rightarrow> Some (g e) | None \<Rightarrow> fmlookup m k)"
proof (cases x)
  case None
  then have "(if key e = k then Some (g e) else None) = None" if "e \<in> set es" for e using assms [of e] that by simp
  then show ?thesis by (simp add: None fold_upd_lookup last_entry_None)
next
  case (Some e0)
  have "last_entry (\<lambda>e. if key e = k then Some (g e) else None) es (fmlookup m k) = Some (g e0)"
  proof (rule last_entry_unique)
    show "e0 \<in> set es" "(if key e0 = k then Some (g e0) else None) = Some (g e0)" using assms [of e0] Some by simp_all
    fix e v assume "e \<in> set es" "(if key e = k then Some (g e) else None) = Some v"
    with assms [of e] Some show "v = g e0" by (cases "key e = k") simp_all
  qed
  then show ?thesis by (simp add: Some fold_upd_lookup)
qed

lemma fold_res_fold:
  assumes "fold_res f xs s = Inr t" "\<And>x s t. x \<in> set xs \<Longrightarrow> f x s = Inr t \<Longrightarrow> t = g x s"
  shows "t = fold g xs s"
  using assms
proof (induction xs arbitrary: s)
  case (Cons x xs)
  then obtain u where "f x s = Inr u" "fold_res f xs u = Inr t" by (auto simp: res_simps)
  with Cons.prems(2) [of x s u] Cons.IH [of u] Cons.prems(2) show ?case by simp
qed simp

text \<open>Inheriting every member of a map whose entries carry their own key.\<close>

lemma fold_values_upd:
  assumes "\<And>k e. fmlookup m k = Some e \<Longrightarrow> key e = k"
  shows "fmlookup (fold (\<lambda>e. fmupd (key e) (g e)) (fm_values m) fmempty) k = map_option g (fmlookup m k)"
proof -
  have "fmlookup m k = Some e \<longleftrightarrow> e \<in> set (fm_values m) \<and> key e = k" for e
    using assms by (auto simp: set_fm_values)
  from fold_upd_declared [where x = "fmlookup m k" and key = key and g = g and m = fmempty, OF this] show ?thesis
    by (cases "fmlookup m k") simp_all
qed

section \<open>Ownerships\<close>

definition owns_member :: "direct_index \<Rightarrow> semantic_profile \<Rightarrow> type_id \<Rightarrow> type_id list \<Rightarrow> owns_fact \<Rightarrow> effective_owns" where
  "owns_member ix profile t path w =
     (let i = owns_fact_id_of w; annotations = annotations_for ix (OnOwns i) in
      \<lparr>eowns_id = OwnsFactId t (owns_attribute i), eowns_origin = \<lparr>origin_declared = IdOwns i, origin_inheritance_path = path\<rparr>,
       eowns_collection_mode = owns_collection_mode w, eowns_annotations = annotations,
       eowns_cardinality = cardinality_of annotations profile InterfaceOwns, eowns_key = Key |\<in>| fmdom annotations,
       eowns_unique = (Unique |\<in>| fmdom annotations \<or> Key |\<in>| fmdom annotations)\<rparr>)"

definition inherited_owns :: "semantic_profile \<Rightarrow> type_id \<Rightarrow> type_id \<Rightarrow> effective_owns \<Rightarrow> effective_owns" where
  "inherited_owns profile via child w =
     w\<lparr>eowns_id := OwnsFactId child (owns_attribute (eowns_id w)), eowns_origin := origin_inherited (eowns_origin w) via,
       eowns_cardinality := profile_effective_cardinality profile InterfaceOwns
         (Option.bind (fmlookup (eowns_annotations w) Card) cardinality_value) (eowns_key w)\<rparr>"

definition declared_owns :: "fact_map \<Rightarrow> type_id \<Rightarrow> attribute_id \<Rightarrow> owns_fact option" where
  "declared_owns m t a = (case fmlookup m (IdOwns (OwnsFactId t a)) of Some (FactOwns w) \<Rightarrow> Some w | _ \<Rightarrow> None)"

interpretation owns: inheritance "declared_owns (schema_facts d)" "owns_member ix profile" "inherited_owns profile"
  for d ix profile
  by unfold_locales (simp add: owns_member_def inherited_owns_def origin_inherited_def Let_def cardinality_of_def)

lemma declared_owns_Some:
  assumes "facts_keyed m"
  shows "declared_owns m t a = Some w \<longleftrightarrow> FactOwns w \<in> set (facts_list m) \<and> owns_fact_id_of w = OwnsFactId t a"
proof
  assume "declared_owns m t a = Some w"
  then have "fmlookup m (IdOwns (OwnsFactId t a)) = Some (FactOwns w)"
    by (auto simp: declared_owns_def split: option.splits schema_fact.splits)
  from keyed_lookup [OF assms this] show "FactOwns w \<in> set (facts_list m) \<and> owns_fact_id_of w = OwnsFactId t a" by simp
next
  assume "FactOwns w \<in> set (facts_list m) \<and> owns_fact_id_of w = OwnsFactId t a"
  with keyed_member [OF assms, of "FactOwns w"] show "declared_owns m t a = Some w" by (simp add: declared_owns_def)
qed

lemma apply_owns_lookup:
  assumes "facts_keyed (schema_facts d)"
    and "fold_res (apply_owns (index_build d) profile) (entry_list (index_owns (index_build d)) t) m = Inr m'"
  shows "fmlookup m' a
    = (case declared_owns (schema_facts d) t a of
         Some w \<Rightarrow> Some (owns_member (index_build d) profile t [] w) | None \<Rightarrow> fmlookup m a)"
proof -
  let ?ix = "index_build d" and ?ws = "entry_list (index_owns (index_build d)) t"
  have members: "w \<in> set ?ws \<longleftrightarrow> FactOwns w \<in> set (facts_list (schema_facts d)) \<and> owns_owner (owns_fact_id_of w) = t" for w
    by (auto simp: index_members in_set_map_filter members_of_Some)
  have "m' = fold (\<lambda>w. fmupd (owns_attribute (owns_fact_id_of w)) (owns_member ?ix profile t [] w)) ?ws m"
  proof (rule fold_res_fold [OF assms(2)])
    fix w s u assume "w \<in> set ?ws" "apply_owns ?ix profile w s = Inr u"
    then show "u = fmupd (owns_attribute (owns_fact_id_of w)) (owns_member ?ix profile t [] w) s"
      using members [of w] by (cases "owns_fact_id_of w")
        (simp add: apply_owns_def source_error_def owns_member_def origin_direct_def Let_def split: if_splits)
  qed
  moreover have "declared_owns (schema_facts d) t a = Some w \<longleftrightarrow> w \<in> set ?ws \<and> owns_attribute (owns_fact_id_of w) = a" for w
    using members [of w] declared_owns_Some [OF assms(1), of t a w] by (cases "owns_fact_id_of w") auto
  ultimately show ?thesis by (simp add: fold_upd_declared)
qed

lemma inherit_owns_lookup:
  assumes "fold_res (inherit_owns profile via child) (fm_values m) fmempty = Inr m'"
    and "\<And>a e. fmlookup m a = Some e \<Longrightarrow> owns_attribute (eowns_id e) = a"
  shows "fmlookup m' a = map_option (inherited_owns profile via child) (fmlookup m a)"
proof -
  have "m' = fold (\<lambda>e. fmupd (owns_attribute (eowns_id e)) (inherited_owns profile via child e)) (fm_values m) fmempty"
    by (rule fold_res_fold [OF assms(1)])
      (auto simp: inherit_owns_def inherited_owns_def owns_fact_id_new_def no_source_def res_simps split: if_splits)
  then show ?thesis by (simp add: fold_values_upd assms(2))
qed

section \<open>Roles played\<close>

definition plays_member :: "direct_index \<Rightarrow> semantic_profile \<Rightarrow> type_id \<Rightarrow> type_id list \<Rightarrow> plays_fact_id \<Rightarrow> effective_plays" where
  "plays_member ix profile t path i =
     (let annotations = annotations_for ix (OnPlays i) in
      \<lparr>eplays_id = PlaysFactId t (plays_role i), eplays_origin = \<lparr>origin_declared = IdPlays i, origin_inheritance_path = path\<rparr>,
       eplays_annotations = annotations, eplays_cardinality = cardinality_of annotations profile InterfacePlays\<rparr>)"

definition inherited_plays :: "type_id \<Rightarrow> type_id \<Rightarrow> effective_plays \<Rightarrow> effective_plays" where
  "inherited_plays via child p =
     p\<lparr>eplays_id := PlaysFactId child (plays_role (eplays_id p)), eplays_origin := origin_inherited (eplays_origin p) via\<rparr>"

definition declared_plays :: "fact_map \<Rightarrow> type_id \<Rightarrow> role_id \<Rightarrow> plays_fact_id option" where
  "declared_plays m t role =
     (if IdPlays (PlaysFactId t role) |\<in>| fmdom m then Some (PlaysFactId t role) else None)"

interpretation plays: inheritance "declared_plays (schema_facts d)" "plays_member ix profile" inherited_plays
  for d ix profile
  by unfold_locales (simp add: plays_member_def inherited_plays_def origin_inherited_def Let_def)

lemma declared_plays_Some:
  assumes "facts_keyed m"
  shows "declared_plays m t role = Some i \<longleftrightarrow> FactPlays i \<in> set (facts_list m) \<and> i = PlaysFactId t role"
proof -
  have "IdPlays i |\<in>| fmdom m \<longleftrightarrow> FactPlays i \<in> set (facts_list m)" for i
  proof
    assume "IdPlays i |\<in>| fmdom m"
    then obtain f where f: "fmlookup m (IdPlays i) = Some f" by (auto simp: fmlookup_dom_iff)
    with keyed_lookup [OF assms f] show "FactPlays i \<in> set (facts_list m)" by (cases f) auto
  next
    assume "FactPlays i \<in> set (facts_list m)"
    with keyed_member [OF assms, of "FactPlays i"] show "IdPlays i |\<in>| fmdom m" by (auto intro: fmdomI)
  qed
  then show ?thesis by (auto simp: declared_plays_def)
qed

lemma apply_plays_lookup:
  assumes "facts_keyed (schema_facts d)"
  shows "fmlookup (fold (apply_plays (index_build d) profile) (entry_list (index_plays (index_build d)) t) m) role
    = (case declared_plays (schema_facts d) t role of
         Some i \<Rightarrow> Some (plays_member (index_build d) profile t [] i) | None \<Rightarrow> fmlookup m role)"
proof -
  let ?ix = "index_build d" and ?is = "entry_list (index_plays (index_build d)) t"
  have members: "i \<in> set ?is \<longleftrightarrow> FactPlays i \<in> set (facts_list (schema_facts d)) \<and> plays_player i = t" for i
    by (auto simp: index_members in_set_map_filter members_of_Some)
  have "fold (apply_plays ?ix profile) ?is m = fold (\<lambda>i. fmupd (plays_role i) (plays_member ?ix profile t [] i)) ?is m"
  proof (rule fold_cong)
    fix i assume "i \<in> set ?is"
    with members have "i = PlaysFactId t (plays_role i)" by (cases i) auto
    then show "apply_plays ?ix profile i = fmupd (plays_role i) (plays_member ?ix profile t [] i)"
      by (auto simp: apply_plays_def plays_member_def origin_direct_def Let_def fun_eq_iff)
  qed simp_all
  moreover have "declared_plays (schema_facts d) t role = Some i \<longleftrightarrow> i \<in> set ?is \<and> plays_role i = role" for i
    using members [of i] declared_plays_Some [OF assms, of t role i] by (cases i) auto
  ultimately show ?thesis by (simp add: fold_upd_declared)
qed

lemma inherit_plays_lookup:
  assumes "fold_res (inherit_plays via child) (fm_values m) fmempty = Inr m'"
    and "\<And>role e. fmlookup m role = Some e \<Longrightarrow> plays_role (eplays_id e) = role"
  shows "fmlookup m' role = map_option (inherited_plays via child) (fmlookup m role)"
proof -
  have "m' = fold (\<lambda>e. fmupd (plays_role (eplays_id e)) (inherited_plays via child e)) (fm_values m) fmempty"
    by (rule fold_res_fold [OF assms(1)])
      (auto simp: inherit_plays_def inherited_plays_def plays_fact_id_new_def no_source_def res_simps split: if_splits)
  then show ?thesis by (simp add: fold_values_upd assms(2))
qed

section \<open>Value domains\<close>

definition value_member :: "direct_index \<Rightarrow> type_id \<Rightarrow> type_id list \<Rightarrow> value_type_tag \<times> value_fact_id \<Rightarrow> effective_value_type" where
  "value_member ix t path = (\<lambda>(tag, i).
     \<lparr>evalue_type = tag, evalue_origin = \<lparr>origin_declared = IdValue i, origin_inheritance_path = path\<rparr>,
      evalue_annotations = annotations_for ix (OnValue i)\<rparr>)"

definition declared_value :: "fact_map \<Rightarrow> type_id \<Rightarrow> unit \<Rightarrow> (value_type_tag \<times> value_fact_id) option" where
  "declared_value m t u =
     (if type_id_kind t \<noteq> Attribute then None
      else map_option (\<lambda>tag. (tag, ValueFactId (AttributeId (type_id_label t)))) (declared_value_type m (AttributeId (type_id_label t))))"

interpretation domains: inheritance "declared_value (schema_facts d)" "value_member ix" "\<lambda>via child. inherit_value via"
  for d ix
  by unfold_locales (simp add: value_member_def inherit_value_def origin_inherited_def split: prod.splits)

lemma direct_value_eq:
  assumes "facts_keyed (schema_facts d)"
  shows "direct_value (index_build d) t v
    = (case declared_value (schema_facts d) t () of Some w \<Rightarrow> Some (value_member (index_build d) t [] w) | None \<Rightarrow> v)"
  by (auto simp: direct_value_def declared_value_def declared_value_type_def values_lookup [OF assms] value_member_def
    origin_direct_def split: option.splits schema_fact.splits)

section \<open>Members along a chain\<close>

lemma resolve_type_members:
  assumes "resolve_type ix parents profile inherited t ps = Inr r"
  shows "rt_id r = t" "rt_supertypes r = ps" "rt_subtypes r = {||}"
    and "\<exists>base. (case inherited of None \<Rightarrow> Inr (empty_resolved_type t) | Some parent \<Rightarrow> inherit_type parent t profile) = Inr base
      \<and> fold_res (apply_owns ix profile) (entry_list (index_owns ix) t) (rt_owns base) = Inr (rt_owns r)
      \<and> rt_plays r = fold (apply_plays ix profile) (entry_list (index_plays ix) t) (rt_plays base)
      \<and> rt_value_type r = direct_value ix t (rt_value_type base)
      \<and> fold_res (apply_relates ix profile t) (entry_list (index_relates ix) t) (rt_relates base) = Inr (rt_relates r)"
proof -
  from assms obtain base sub owns relates where
    base: "(case inherited of None \<Rightarrow> Inr (empty_resolved_type t) | Some parent \<Rightarrow> inherit_type parent t profile) = Inr base"
    and owns: "fold_res (apply_owns ix profile) (entry_list (index_owns ix) t) (rt_owns base) = Inr owns"
    and relates: "fold_res (apply_relates ix profile t) (entry_list (index_relates ix) t) (rt_relates base) = Inr relates"
    and r: "r = finish_type (base\<lparr>rt_id := t, rt_supertypes := ps,
         rt_direct_sub := (case sub of None \<Rightarrow> rt_direct_sub base | Some _ \<Rightarrow> sub),
         rt_annotations := direct_annotations ix inherited t (rt_annotations base),
         rt_value_type := direct_value ix t (rt_value_type base), rt_owns := owns,
         rt_plays := fold (apply_plays ix profile) (entry_list (index_plays ix) t) (rt_plays base),
         rt_relates := relates, rt_is_abstract := Abstract |\<in>| fmdom (direct_annotations ix inherited t (rt_annotations base))\<rparr>)"
    by (auto simp: resolve_type_def Let_def res_simps)
  have "rt_subtypes base = {||}"
    using base by (cases inherited) (auto simp: inherit_type_def empty_resolved_type_def res_simps)
  with base owns relates r show "rt_id r = t" "rt_supertypes r = ps" "rt_subtypes r = {||}"
    and "\<exists>base. (case inherited of None \<Rightarrow> Inr (empty_resolved_type t) | Some parent \<Rightarrow> inherit_type parent t profile) = Inr base
      \<and> fold_res (apply_owns ix profile) (entry_list (index_owns ix) t) (rt_owns base) = Inr (rt_owns r)
      \<and> rt_plays r = fold (apply_plays ix profile) (entry_list (index_plays ix) t) (rt_plays base)
      \<and> rt_value_type r = direct_value ix t (rt_value_type base)
      \<and> fold_res (apply_relates ix profile t) (entry_list (index_relates ix) t) (rt_relates base) = Inr (rt_relates r)"
    by (simp_all add: finish_type_def)
qed

text \<open>The members of a type are those of the nearest declarations on its chain.\<close>

definition members_nearest :: "declared_schema \<Rightarrow> semantic_profile \<Rightarrow> resolved_type \<Rightarrow> bool" where
  "members_nearest d profile r \<longleftrightarrow>
     (let ix = index_build d; m = schema_facts d; chain = rt_id r # rt_supertypes r in
      (\<forall>a. fmlookup (rt_owns r) a
         = map_option (\<lambda>(via, w). owns_member ix profile (rt_id r) via w) (nearest (\<lambda>x. declared_owns m x a) chain))
      \<and> (\<forall>role. fmlookup (rt_plays r) role
         = map_option (\<lambda>(via, w). plays_member ix profile (rt_id r) via w) (nearest (\<lambda>x. declared_plays m x role) chain))
      \<and> rt_value_type r = map_option (\<lambda>(via, w). value_member ix (rt_id r) via w) (nearest (\<lambda>x. declared_value m x ()) chain))"

lemma members_nearest_subtypes [simp]: "members_nearest d profile (r\<lparr>rt_subtypes := us\<rparr>) = members_nearest d profile r"
  by (simp add: members_nearest_def)

lemma members_keyed:
  assumes "members_nearest d profile r" "facts_keyed (schema_facts d)"
  shows "fmlookup (rt_owns r) a = Some e \<Longrightarrow> owns_attribute (eowns_id e) = a"
    and "fmlookup (rt_plays r) role = Some p \<Longrightarrow> plays_role (eplays_id p) = role"
proof -
  { assume "fmlookup (rt_owns r) a = Some e"
    then obtain via w where "nearest (\<lambda>x. declared_owns (schema_facts d) x a) (rt_id r # rt_supertypes r) = Some (via, w)"
      and e: "e = owns_member (index_build d) profile (rt_id r) via w"
      using assms(1) by (auto simp: members_nearest_def Let_def simp del: nearest.simps)
    with declared_owns_Some [OF assms(2)] have "owns_attribute (owns_fact_id_of w) = a" by (fastforce dest!: nearest_Some)
    with e show "owns_attribute (eowns_id e) = a" by (simp add: owns_member_def Let_def) }
  { assume "fmlookup (rt_plays r) role = Some p"
    then obtain via w where "nearest (\<lambda>x. declared_plays (schema_facts d) x role) (rt_id r # rt_supertypes r) = Some (via, w)"
      and p: "p = plays_member (index_build d) profile (rt_id r) via w"
      using assms(1) by (auto simp: members_nearest_def Let_def simp del: nearest.simps)
    with declared_plays_Some [OF assms(2)] have "plays_role w = role" by (fastforce dest!: nearest_Some)
    with p show "plays_role (eplays_id p) = role" by (simp add: plays_member_def Let_def) }
qed

lemma resolve_path_members:
  assumes "facts_keyed (schema_facts d)" "resolve_path (index_build d) parents profile t ps = Inr r"
  shows "rt_id r = t \<and> rt_supertypes r = ps \<and> rt_subtypes r = {||} \<and> members_nearest d profile r"
  using assms(2)
proof (induction ps arbitrary: t r)
  case Nil
  then have res: "resolve_type (index_build d) parents profile None t [] = Inr r" by simp
  note ids = resolve_type_members(1-3) [OF res]
  obtain base where base: "base = empty_resolved_type t"
    and owns: "fold_res (apply_owns (index_build d) profile) (entry_list (index_owns (index_build d)) t) (rt_owns base) = Inr (rt_owns r)"
    and plays: "rt_plays r = fold (apply_plays (index_build d) profile) (entry_list (index_plays (index_build d)) t) (rt_plays base)"
    and v: "rt_value_type r = direct_value (index_build d) t (rt_value_type base)"
    using resolve_type_members(4) [OF res] by auto
  have empty: "rt_owns base = fmempty" "rt_plays base = fmempty" "rt_value_type base = None"
    by (simp_all add: base empty_resolved_type_def)
  have "fmlookup (rt_owns r) a = map_option (\<lambda>(via, w). owns_member (index_build d) profile t via w)
      (nearest (\<lambda>x. declared_owns (schema_facts d) x a) [t])" for a
    unfolding apply_owns_lookup [OF assms(1) owns] empty fmempty_lookup by (rule owns.nearest_root)
  moreover have "fmlookup (rt_plays r) role = map_option (\<lambda>(via, w). plays_member (index_build d) profile t via w)
      (nearest (\<lambda>x. declared_plays (schema_facts d) x role) [t])" for role
    unfolding plays apply_plays_lookup [OF assms(1)] empty fmempty_lookup by (rule plays.nearest_root)
  moreover have "rt_value_type r = map_option (\<lambda>(via, w). value_member (index_build d) t via w)
      (nearest (\<lambda>x. declared_value (schema_facts d) x ()) [t])"
    unfolding v direct_value_eq [OF assms(1)] empty by (rule domains.nearest_root)
  ultimately have "members_nearest d profile r" unfolding members_nearest_def Let_def ids by blast
  with ids show ?case by simp
next
  case (Cons p ps)
  then obtain q where q: "resolve_path (index_build d) parents profile p ps = Inr q"
    and res: "resolve_type (index_build d) parents profile (Some q) t (p # ps) = Inr r" by (auto simp: res_simps)
  have ih: "rt_id q = p" "rt_supertypes q = ps" "members_nearest d profile q" using Cons.IH [OF q] by simp_all
  note ids = resolve_type_members(1-3) [OF res]
  obtain base where base: "inherit_type q t profile = Inr base"
    and owns: "fold_res (apply_owns (index_build d) profile) (entry_list (index_owns (index_build d)) t) (rt_owns base) = Inr (rt_owns r)"
    and plays: "rt_plays r = fold (apply_plays (index_build d) profile) (entry_list (index_plays (index_build d)) t) (rt_plays base)"
    and v: "rt_value_type r = direct_value (index_build d) t (rt_value_type base)"
    using resolve_type_members(4) [OF res] by auto
  note keyed = members_keyed [OF ih(3) assms(1)]
  from base ih(1) have inherited:
    "fold_res (inherit_owns profile p t) (fm_values (rt_owns q)) fmempty = Inr (rt_owns base)"
    "fold_res (inherit_plays p t) (fm_values (rt_plays q)) fmempty = Inr (rt_plays base)"
    "rt_value_type base = map_option (inherit_value p) (rt_value_type q)"
    by (auto simp: inherit_type_def res_simps)
  have inherited_lookup: "fmlookup (rt_owns base) a = map_option (inherited_owns profile p t) (fmlookup (rt_owns q) a)"
    "fmlookup (rt_plays base) role = map_option (inherited_plays p t) (fmlookup (rt_plays q) role)" for a role
    using inherit_owns_lookup [OF inherited(1)] inherit_plays_lookup [OF inherited(2)] keyed by blast+
  note near = ih(3) [unfolded members_nearest_def Let_def ih(1,2)]
  have "fmlookup (rt_owns r) a = map_option (\<lambda>(via, w). owns_member (index_build d) profile t via w)
      (nearest (\<lambda>x. declared_owns (schema_facts d) x a) (t # p # ps))" for a
    unfolding apply_owns_lookup [OF assms(1) owns] inherited_lookup
    by (rule owns.nearest_child) (use near in blast)
  moreover have "fmlookup (rt_plays r) role = map_option (\<lambda>(via, w). plays_member (index_build d) profile t via w)
      (nearest (\<lambda>x. declared_plays (schema_facts d) x role) (t # p # ps))" for role
    unfolding plays apply_plays_lookup [OF assms(1)] inherited_lookup
    by (rule plays.nearest_child) (use near in blast)
  moreover have "rt_value_type r = map_option (\<lambda>(via, w). value_member (index_build d) t via w)
      (nearest (\<lambda>x. declared_value (schema_facts d) x ()) (t # p # ps))"
    unfolding v direct_value_eq [OF assms(1)] inherited(3) by (rule domains.nearest_child) (use near in blast)
  ultimately have "members_nearest d profile r" unfolding members_nearest_def Let_def ids by blast
  with ids show ?case by simp
qed

section \<open>Subtypes\<close>

lemma add_subtype_fold:
  "fmlookup (fold (add_subtype u) chain types) t
    = map_option (\<lambda>r. if t \<in> set chain then r\<lparr>rt_subtypes := finsert u (rt_subtypes r)\<rparr> else r) (fmlookup types t)"
proof (induction chain arbitrary: types)
  case (Cons p ps)
  show ?case by (simp add: Cons) (cases "fmlookup types t"; cases "fmlookup types p"; auto simp: add_subtype_def)
qed (simp add: option.map_ident)

lemma populate_subtypes_lookup:
  assumes "populate_subtypes types parents = Some types'"
  shows "fmlookup types' t = map_option (\<lambda>r. r\<lparr>rt_subtypes := rt_subtypes r
      |\<union>| fset_of_list (filter (\<lambda>u. t \<in> set (the (ancestor_chain parents u))) (fm_keys types))\<rparr>) (fmlookup types t)"
proof -
  have "fmlookup types' t = map_option (\<lambda>r. r\<lparr>rt_subtypes := rt_subtypes r
      |\<union>| fset_of_list (filter (\<lambda>u. t \<in> set (the (ancestor_chain parents u))) ts)\<rparr>) (fmlookup types t)"
    if "add_to_ancestors parents ts types = Some types'" for ts types
    using that
  proof (induction ts arbitrary: types)
    case Nil
    then show ?case by (cases "fmlookup types t") auto
  next
    case (Cons u ts)
    then obtain chain where chain: "ancestor_chain parents u = Some chain"
      and rest: "add_to_ancestors parents ts (fold (add_subtype u) chain types) = Some types'"
      by (auto simp: bind_eq_Some_conv)
    from Cons.IH [OF rest] show ?case
      by (cases "fmlookup types t") (simp_all add: add_subtype_fold chain)
  qed
  from this [of "fm_keys types" types] assms show ?thesis by (simp add: populate_subtypes_def)
qed

section \<open>Resolved schemas\<close>

text \<open>A chain of subtype facts up to a type without one.\<close>

fun sub_chain :: "fact_map \<Rightarrow> type_id \<Rightarrow> type_id list \<Rightarrow> bool" where
  "sub_chain m t [] \<longleftrightarrow> (\<forall>p. FactSub (SubFactId t p) \<notin> set (facts_list m))"
| "sub_chain m t (p # ps) \<longleftrightarrow> FactSub (SubFactId t p) \<in> set (facts_list m) \<and> sub_chain m p ps"

lemma is_chain_sub_chain:
  "validate_parents (index_build d) = Some (Inr parents) \<Longrightarrow> is_chain parents t ps \<longleftrightarrow> sub_chain (schema_facts d) t ps"
proof (induction ps arbitrary: t)
  case Nil
  have "fmlookup parents t = None \<longleftrightarrow> (\<forall>p. fmlookup parents t \<noteq> Some p)" by (cases "fmlookup parents t") auto
  then show ?case by (simp add: parents_lookup [OF Nil])
next
  case (Cons p ps)
  then show ?case by (simp add: parents_lookup)
qed

lemma set_type_ids: "t \<in> set (type_ids m) \<longleftrightarrow> IdType t |\<in>| fmdom m"
proof -
  have "(case i of IdType u \<Rightarrow> Some u | _ \<Rightarrow> None) = Some t \<longleftrightarrow> i = IdType t" for i by (cases i) auto
  then show ?thesis by (simp add: type_ids_def in_set_map_filter)
qed

lemma keyed_type:
  assumes "facts_keyed m"
  shows "IdType t |\<in>| fmdom m \<longleftrightarrow> FactType t \<in> set (facts_list m)"
proof
  assume "IdType t |\<in>| fmdom m"
  then obtain f where f: "fmlookup m (IdType t) = Some f" by (auto simp: fmlookup_dom_iff)
  with keyed_lookup [OF assms f] show "FactType t \<in> set (facts_list m)" by (cases f) auto
next
  assume "FactType t \<in> set (facts_list m)"
  with keyed_member [OF assms, of "FactType t"] show "IdType t |\<in>| fmdom m" by (auto intro: fmdomI)
qed

lemma valid_reference: "facts_valid m \<Longrightarrow> f \<in> set (facts_list m) \<Longrightarrow> references_valid m f"
  by (auto simp: facts_valid_def validate_references_def split: if_splits)

lemma valid_parents_declared:
  assumes "facts_keyed (schema_facts d)" "facts_valid (schema_facts d)" "validate_parents (index_build d) = Some (Inr parents)"
  shows "parents_declared (index_build d) parents"
  unfolding parents_declared_def
proof (intro allI impI)
  fix t p assume "fmlookup parents t = Some p"
  then have sub: "FactSub (SubFactId t p) \<in> set (facts_list (schema_facts d))" using parents_lookup [OF assms(3)] by blast
  from valid_reference [OF assms(2) this] have "p \<in> set (type_ids (schema_facts d))" by (simp add: references_valid_def)
  then show "p |\<in>| index_types (index_build d)" by (simp add: set_type_ids keyed_type [OF assms(1)] index_types_iff)
qed

lemma resolve_schema_types:
  assumes "resolve_schema_with_capabilities h d name available = Some (Inr s)"
  shows "\<exists>profile parents types. semantic_profile_resolve name = Some (Inr profile)
    \<and> validate_parents (index_build d) = Some (Inr parents)
    \<and> (\<forall>t \<in> fset (index_types (index_build d)). \<exists>xs. ancestor_chain parents t = Some xs)
    \<and> resolve_types (index_build d) parents profile = Some (Inr types)
    \<and> populate_subtypes types parents = Some (resolved_types s)
    \<and> resolved_roles s = resolve_roles (resolved_types s) (index_build d)"
proof -
  obtain profile parents types types' where
    "map_option no_source (semantic_profile_resolve name) = Some (Inr profile)"
    "validate_parents (index_build d) = Some (Inr parents)"
    "validate_inheritance_cycles (index_types (index_build d)) parents = Inr ()"
    "resolve_types (index_build d) parents profile = Some (Inr types)"
    "populate_subtypes types parents = Some types'" "resolved_types s = types'"
    "resolved_roles s = resolve_roles types' (index_build d)"
    using assms unfolding resolve_schema_with_capabilities_def Let_def bind_panicking_eq_Inr
    by (auto simp: res_simps)
  moreover from this(1) have "semantic_profile_resolve name = Some (Inr profile)"
    by auto
  ultimately show ?thesis unfolding validate_cycles_iff by blast
qed

definition resolved_as_declared :: "declared_schema \<Rightarrow> semantic_profile \<Rightarrow> resolved_schema \<Rightarrow> bool" where
  "resolved_as_declared d profile s \<longleftrightarrow>
     (\<forall>t. t |\<in>| fmdom (resolved_types s) \<longleftrightarrow> FactType t \<in> set (facts_list (schema_facts d)))
     \<and> (\<forall>subject kind. fmlookup (annotations_for (index_build d) subject) kind = fact_payload (schema_facts d) subject kind)
     \<and> (\<forall>t r. fmlookup (resolved_types s) t = Some r \<longrightarrow>
          rt_id r = t \<and> sub_chain (schema_facts d) t (rt_supertypes r) \<and> members_nearest d profile r
          \<and> (\<forall>u. u |\<in>| rt_subtypes r \<longleftrightarrow> (\<exists>q. fmlookup (resolved_types s) u = Some q \<and> t \<in> set (rt_supertypes q))))"

text \<open>
  C17. A resolved schema holds exactly the declared types, and each of them as it was declared: its
  supertypes are the chain of its subtype facts, its subtypes are the types it is a supertype of, and
  every ownership, role played and value domain is that of the nearest type on the chain which declares
  it, with the payloads of the annotation facts and the effective cardinality of that declaration and the
  types it was inherited through as its origin; nothing that is declared on the chain is missing.
\<close>

theorem resolution_nearest_declarations:
  assumes "facts_keyed (schema_facts d)" "facts_valid (schema_facts d)"
    and "resolve_schema_with_capabilities h d name available = Some (Inr s)"
  shows "\<exists>profile. semantic_profile_resolve name = Some (Inr profile) \<and> resolved_as_declared d profile s"
proof -
  obtain profile parents types where profile: "semantic_profile_resolve name = Some (Inr profile)"
    and parents: "validate_parents (index_build d) = Some (Inr parents)"
    and chains: "\<forall>t \<in> fset (index_types (index_build d)). \<exists>xs. ancestor_chain parents t = Some xs"
    and types: "resolve_types (index_build d) parents profile = Some (Inr types)"
    and subtypes: "populate_subtypes types parents = Some (resolved_types s)"
    using resolve_schema_types [OF assms(3)] by blast
  note entries = resolve_types_entries [OF chains valid_parents_declared [OF assms(1,2) parents] types]
  note lookup = populate_subtypes_lookup [OF subtypes]
  have entry: "rt_id r = t \<and> is_chain parents t (rt_supertypes r) \<and> rt_subtypes r = {||} \<and> members_nearest d profile r"
    if r: "fmlookup types t = Some r" for t r
  proof -
    obtain ps where ps: "is_chain parents t ps" "resolve_path (index_build d) parents profile t ps = Inr r"
      using entries(1) [OF r] by (auto simp: resolved_entry_def)
    with resolve_path_members [OF assms(1) ps(2)] show ?thesis by simp
  qed
  have supertypes: "the (ancestor_chain parents u) = rt_supertypes q" if "fmlookup types u = Some q" for u q
    using entry [OF that] by (simp flip: ancestor_chain_iff)
  have "fmdom (resolved_types s) = fmdom types"
    by (rule fset_eqI) (simp add: fmlookup_dom_iff lookup)
  then have dom: "\<forall>t. t |\<in>| fmdom (resolved_types s) \<longleftrightarrow> FactType t \<in> set (facts_list (schema_facts d))"
    by (simp add: entries(2) index_types_iff)
  have "rt_id r = t \<and> sub_chain (schema_facts d) t (rt_supertypes r) \<and> members_nearest d profile r
      \<and> (\<forall>u. u |\<in>| rt_subtypes r \<longleftrightarrow> (\<exists>q. fmlookup (resolved_types s) u = Some q \<and> t \<in> set (rt_supertypes q)))"
    if "fmlookup (resolved_types s) t = Some r" for t r
  proof -
    obtain q where q: "fmlookup types t = Some q"
      and r: "r = q\<lparr>rt_subtypes := rt_subtypes q |\<union>| fset_of_list (filter (\<lambda>u. t \<in> set (the (ancestor_chain parents u))) (fm_keys types))\<rparr>"
      using \<open>fmlookup (resolved_types s) t = Some r\<close> by (auto simp: lookup)
    have "(\<exists>q. fmlookup (resolved_types s) u = Some q \<and> t \<in> set (rt_supertypes q))
        \<longleftrightarrow> u |\<in>| fmdom types \<and> t \<in> set (the (ancestor_chain parents u))" for u
      by (cases "fmlookup types u") (auto simp: lookup supertypes fmlookup_dom_iff)
    moreover have "members_nearest d profile r" using entry [OF q] by (simp add: r)
    ultimately show ?thesis using entry [OF q] is_chain_sub_chain [OF parents] by (simp add: r fset_of_list_elem conj_commute)
  qed
  with profile dom annotations_lookup [OF assms(1)] show ?thesis unfolding resolved_as_declared_def by blast
qed

definition example_hashing :: schema_hashing where
  "example_hashing = \<lparr>hash_identity = (\<lambda>_ _ _. Inr ''identity''), hash_scope_profile = Inr ''exclusive'',
     hash_semantic_profile = (\<lambda>p. Inr (profile_id p)), hash_semantic = (\<lambda>v. Inr (view_semantic_profile v)),
     hash_managed_semantic = (\<lambda>v. Inr (view_semantic_profile v)), hash_managed_declared = (\<lambda>_. Inr ''declared''),
     hash_descriptor = (\<lambda>i. Inr (concat (schema_fact_id_key i)))\<rparr>"

definition example_person :: type_id where "example_person = TypeId Entity ''person''"
definition example_employee :: type_id where "example_employee = TypeId Entity ''employee''"
definition example_attribute :: attribute_id where "example_attribute = AttributeId ''name''"

definition example_inheritance :: declared_schema where
  "example_inheritance = example_schema
     [FactType example_person, FactType example_employee, FactType (attribute_type_id example_attribute),
      FactSub (SubFactId example_employee example_person),
      FactValue \<lparr>value_fact_id_of = ValueFactId example_attribute, value_fact_type = TagString\<rparr>,
      FactOwns \<lparr>owns_fact_id_of = OwnsFactId example_person example_attribute, owns_collection_mode = Unordered\<rparr>,
      FactAnnotation \<lparr>annotation_fact_id_of = AnnotationFactId (OnOwns (OwnsFactId example_person example_attribute)) Key,
        annotation_value = PayloadPresence\<rparr>]"

lemma example_valid: "validate_references (schema_facts example_inheritance) = []
    \<and> validate_annotation_combinations (schema_facts example_inheritance) = []
    \<and> validate_annotation_value_domains (schema_facts example_inheritance) = []"
  by code_simp

lemma example_resolved:
  "map_option (map_sum id (\<lambda>s. map_option rt_supertypes (fmlookup (resolved_types s) example_employee)))
     (resolve_schema_with_capabilities example_hashing example_inheritance ''typedb-3.12.1/v1'' {||})
   = Some (Inr (Some [example_person]))"
  by code_simp

theorem resolution_nearest_declarations_witness:
  "\<exists>s r e. resolve_schema_with_capabilities example_hashing example_inheritance ''typedb-3.12.1/v1'' {||} = Some (Inr s)
     \<and> fmlookup (resolved_types s) example_employee = Some r \<and> fmlookup (rt_owns r) example_attribute = Some e
     \<and> eowns_origin e = \<lparr>origin_declared = IdOwns (OwnsFactId example_person example_attribute), origin_inheritance_path = [example_person]\<rparr>
     \<and> eowns_key e \<and> eowns_cardinality e = \<lparr>card_min = 1, card_max = Some 1\<rparr>"
proof -
  obtain s r where s: "resolve_schema_with_capabilities example_hashing example_inheritance ''typedb-3.12.1/v1'' {||} = Some (Inr s)"
    and r: "fmlookup (resolved_types s) example_employee = Some r" "rt_supertypes r = [example_person]"
    using map_option_sum_Inr [OF example_resolved] by auto
  have keyed: "facts_keyed (schema_facts example_inheritance)" unfolding example_inheritance_def by (rule example_keyed)
  have valid: "facts_valid (schema_facts example_inheritance)" using example_valid by (simp add: facts_valid_def)
  obtain profile where profile: "semantic_profile_resolve ''typedb-3.12.1/v1'' = Some (Inr profile)"
    and resolved: "resolved_as_declared example_inheritance profile s"
    using resolution_nearest_declarations [OF keyed valid s] by blast
  let ?e = "owns_member (index_build example_inheritance) profile example_employee [example_person]
    \<lparr>owns_fact_id_of = OwnsFactId example_person example_attribute, owns_collection_mode = Unordered\<rparr>"
  have "nearest (\<lambda>x. declared_owns (schema_facts example_inheritance) x example_attribute) [example_employee, example_person]
      = Some ([example_person], \<lparr>owns_fact_id_of = OwnsFactId example_person example_attribute, owns_collection_mode = Unordered\<rparr>)"
    by code_simp
  with resolved r have e: "fmlookup (rt_owns r) example_attribute = Some ?e"
    by (auto simp: resolved_as_declared_def members_nearest_def Let_def simp del: nearest.simps)
  have "fmlookup (annotations_for (index_build example_inheritance) (OnOwns (OwnsFactId example_person example_attribute))) Key
      = Some PayloadPresence"
    by code_simp
  then have key: "Key |\<in>| fmdom (annotations_for (index_build example_inheritance) (OnOwns (OwnsFactId example_person example_attribute)))"
    by (rule fmdomI)
  have "profile_key_owns_cardinality profile = \<lparr>card_min = 1, card_max = Some 1\<rparr>"
    using profile by (auto simp: semantic_profile_resolve_eq)
  with key have "eowns_origin ?e = \<lparr>origin_declared = IdOwns (OwnsFactId example_person example_attribute), origin_inheritance_path = [example_person]\<rparr>
      \<and> eowns_key ?e \<and> eowns_cardinality ?e = \<lparr>card_min = 1, card_max = Some 1\<rparr>"
    by (simp add: owns_member_def Let_def cardinality_of_def profile_effective_cardinality_def)
  with s r(1) e show ?thesis by blast
qed

end
