(* ===== verification/Resolution_Roles.thy ===== *)
theory Resolution_Roles
  imports Resolution_Members Lowering_Success
begin

text \<open>
  Roles of resolved relations. Every effective role is declared on the chain of its relation, and so is
  every role it replaces, with one collection mode throughout; a declaration that resolves therefore
  keeps the collection mode of every role it specializes, which is what lowering asks of it, and deltas
  planned towards it are lowered. One section exhibits two specializations of one role, of which
  resolution keeps one.
\<close>

section \<open>Effective roles\<close>

text \<open>The declarations of a role on a chain.\<close>

definition role_declared :: "declared_schema \<Rightarrow> type_id list \<Rightarrow> role_id \<Rightarrow> relates_fact \<Rightarrow> bool" where
  "role_declared d chain role f \<longleftrightarrow>
     FactRelates f \<in> set (facts_list (schema_facts d)) \<and> relates_role (relates_fact_id_of f) = role
     \<and> relates_relation (relates_fact_id_of f) \<in> set chain"

definition role_entry :: "declared_schema \<Rightarrow> semantic_profile \<Rightarrow> type_id \<Rightarrow> type_id list \<Rightarrow> role_id \<Rightarrow> effective_relates \<Rightarrow> bool" where
  "role_entry d profile t chain role e \<longleftrightarrow>
     erelates_id e = EffectiveRelatesId t role
     \<and> (\<exists>f. role_declared d chain role f \<and> origin_declared (erelates_origin e) = IdRelates (relates_fact_id_of f)
          \<and> erelates_collection_mode e = relates_collection_mode f
          \<and> erelates_annotations e = annotations_for (index_build d) (OnRelates (relates_fact_id_of f))
          \<and> erelates_cardinality e = cardinality_of (erelates_annotations e) profile InterfaceRelates
          \<and> erelates_is_abstract e = (Abstract |\<in>| fmdom (erelates_annotations e)))
     \<and> (\<forall>s. s |\<in>| erelates_replaced_roles e \<longrightarrow>
          (\<exists>g. role_declared d chain s g \<and> relates_collection_mode g = erelates_collection_mode e))"

definition roles_entered :: "declared_schema \<Rightarrow> semantic_profile \<Rightarrow> type_id \<Rightarrow> type_id list \<Rightarrow> (role_id, effective_relates) fmap \<Rightarrow> bool" where
  "roles_entered d profile t chain m \<longleftrightarrow> (\<forall>role e. fmlookup m role = Some e \<longrightarrow> role_entry d profile t chain role e)"

lemma role_declared_mono: "role_declared d chain role f \<Longrightarrow> set chain \<subseteq> set chain' \<Longrightarrow> role_declared d chain' role f"
  by (auto simp: role_declared_def)

lemma roles_inherited:
  assumes "roles_entered d profile p ps m" "set ps \<subseteq> set chain"
  shows "roles_entered d profile t chain (fold (inherit_relates p t) (fm_values m) fmempty)"
proof -
  define inherit where "inherit e = e\<lparr>erelates_id := EffectiveRelatesId t (erelates_role (erelates_id e)),
    erelates_origin := origin_inherited (erelates_origin e) p\<rparr>" for e :: effective_relates
  have "inherit_relates p t e = fmupd (erelates_role (erelates_id e)) (inherit e)" for e
    by (simp add: inherit_relates_def inherit_def Let_def fun_eq_iff)
  then have "fold (inherit_relates p t) (fm_values m) fmempty
      = fold (\<lambda>e. fmupd (erelates_role (erelates_id e)) (inherit e)) (fm_values m) fmempty"
    by (intro fold_cong) simp_all
  moreover have "erelates_role (erelates_id e) = role" if "fmlookup m role = Some e" for role e
    using assms(1) that by (auto simp: roles_entered_def role_entry_def)
  ultimately have lookup: "fmlookup (fold (inherit_relates p t) (fm_values m) fmempty) role = map_option inherit (fmlookup m role)" for role
    by (simp add: fold_values_upd)
  show ?thesis
    unfolding roles_entered_def lookup
  proof (intro allI impI)
    fix role e assume "map_option inherit (fmlookup m role) = Some e"
    then obtain e0 where e0: "fmlookup m role = Some e0" "e = inherit e0" by auto
    with assms(1) have "role_entry d profile p ps role e0" by (simp add: roles_entered_def)
    with role_declared_mono [OF _ assms(2)] show "role_entry d profile t chain role e"
      unfolding role_entry_def e0(2) inherit_def by (simp add: origin_inherited_def) blast
  qed
qed

text \<open>The role that a specialization replaces stands for a declared role of the same collection mode.\<close>

lemma replaced_role:
  assumes "roles_entered d profile t chain m" "replace_role r m = Inr (m', replaced)"
  shows "(\<forall>role e. fmlookup m' role = Some e \<longrightarrow> fmlookup m role = Some e)
    \<and> (\<forall>s. s |\<in>| replaced \<longrightarrow> (\<exists>g. role_declared d chain s g \<and> relates_collection_mode g = relates_collection_mode r))
    \<and> (\<forall>s. relates_specializes r = Some s \<longrightarrow> s |\<in>| replaced)"
proof (cases "relates_specializes r")
  case None
  with assms(2) show ?thesis by (simp add: replace_role_def)
next
  case (Some s)
  from assms(2) Some obtain role e where found: "locate_role s m = Some (role, e)"
    and mode: "erelates_collection_mode e = relates_collection_mode r"
    and m': "m' = fmdrop role m" "replaced = finsert s (erelates_replaced_roles e)"
    by (auto simp: replace_role_def source_error_def split: option.splits if_splits)
  from found have e: "fmlookup m role = Some e" and s: "role = s \<or> s |\<in>| erelates_replaced_roles e"
    by (auto simp: locate_role_def find_Some_iff in_set_conv_nth simp flip: set_sorted_list_of_fmap)
  with assms(1) have "role_entry d profile t chain role e" by (simp add: roles_entered_def)
  with s mode m' Some show ?thesis by (auto simp: role_entry_def)
qed

lemma role_applied:
  assumes "roles_entered d profile t chain m" "apply_relates (index_build d) profile t r m = Inr m'"
    and "role_declared d chain (relates_role (relates_fact_id_of r)) r"
  shows "roles_entered d profile t chain m'"
    and "relates_specializes r = Some s \<Longrightarrow> \<exists>g. role_declared d chain s g \<and> relates_collection_mode g = relates_collection_mode r"
proof -
  from assms(2) obtain m1 replaced where step: "replace_role r m = Inr (m1, replaced)"
    and m': "m' = fmupd (relates_role (relates_fact_id_of r))
      \<lparr>erelates_id = EffectiveRelatesId t (relates_role (relates_fact_id_of r)),
       erelates_origin = origin_direct (IdRelates (relates_fact_id_of r)), erelates_collection_mode = relates_collection_mode r,
       erelates_annotations = annotations_for (index_build d) (OnRelates (relates_fact_id_of r)),
       erelates_cardinality = cardinality_of (annotations_for (index_build d) (OnRelates (relates_fact_id_of r))) profile InterfaceRelates,
       erelates_replaced_roles = replaced,
       erelates_is_abstract = Abstract |\<in>| fmdom (annotations_for (index_build d) (OnRelates (relates_fact_id_of r)))\<rparr> m1"
    by (auto simp: apply_relates_def Let_def res_simps)
  note replaced = replaced_role [OF assms(1) step]
  show "roles_entered d profile t chain m'"
    unfolding roles_entered_def
  proof (intro allI impI)
    fix role e assume e: "fmlookup m' role = Some e"
    show "role_entry d profile t chain role e"
    proof (cases "role = relates_role (relates_fact_id_of r)")
      case True
      with e m' assms(3) replaced show ?thesis by (auto simp: role_entry_def origin_direct_def)
    next
      case False
      with e m' have "fmlookup m1 role = Some e" by simp
      with replaced assms(1) show ?thesis by (simp add: roles_entered_def)
    qed
  qed
  show "relates_specializes r = Some s \<Longrightarrow> \<exists>g. role_declared d chain s g \<and> relates_collection_mode g = relates_collection_mode r"
    using replaced by blast
qed

section \<open>Roles along a chain\<close>

lemma fold_res_each:
  assumes "fold_res f xs s = Inr t" "P s"
    and "\<And>x s t. x \<in> set xs \<Longrightarrow> P s \<Longrightarrow> f x s = Inr t \<Longrightarrow> P t \<and> Q x"
  shows "P t \<and> (\<forall>x \<in> set xs. Q x)"
  using assms
proof (induction xs arbitrary: s)
  case (Cons x xs)
  then obtain u where u: "f x s = Inr u" "fold_res f xs u = Inr t" by (auto simp: res_simps)
  have first: "P u \<and> Q x" using Cons.prems(2,3) u(1) by (metis list.set_intros(1))
  then have "P t \<and> (\<forall>x \<in> set xs. Q x)"
    by (intro Cons.IH [OF u(2)]) (use Cons.prems(3) in \<open>auto\<close>)
  with first show ?case by simp
qed simp

definition specialization_kept :: "declared_schema \<Rightarrow> type_id list \<Rightarrow> relates_fact \<Rightarrow> bool" where
  "specialization_kept d chain r \<longleftrightarrow>
     (\<forall>s. relates_specializes r = Some s \<longrightarrow>
        (\<exists>g. role_declared d chain s g \<and> relates_collection_mode g = relates_collection_mode r))"

lemma roles_applied:
  assumes "fold_res (apply_relates (index_build d) profile t) (entry_list (index_relates (index_build d)) t) m = Inr m'"
    and "roles_entered d profile t chain m" "t \<in> set chain"
  shows "roles_entered d profile t chain m'
    \<and> (\<forall>r. FactRelates r \<in> set (facts_list (schema_facts d)) \<and> relates_relation (relates_fact_id_of r) = t
          \<longrightarrow> specialization_kept d chain r)"
proof -
  let ?rs = "entry_list (index_relates (index_build d)) t"
  have members: "r \<in> set ?rs \<longleftrightarrow> FactRelates r \<in> set (facts_list (schema_facts d)) \<and> relates_relation (relates_fact_id_of r) = t" for r
    by (auto simp: index_members in_set_map_filter members_of_Some)
  have "roles_entered d profile t chain m' \<and> (\<forall>r \<in> set ?rs. specialization_kept d chain r)"
  proof (rule fold_res_each [where P = "roles_entered d profile t chain", OF assms(1,2)])
    fix r m m' assume r: "r \<in> set ?rs" and m: "roles_entered d profile t chain m"
      "apply_relates (index_build d) profile t r m = Inr m'"
    from r assms(3) have declared: "role_declared d chain (relates_role (relates_fact_id_of r)) r"
      by (simp add: role_declared_def members)
    show "roles_entered d profile t chain m' \<and> specialization_kept d chain r"
      using role_applied [OF m declared] by (simp add: specialization_kept_def)
  qed
  then show ?thesis by (simp add: members)
qed

lemma resolve_path_roles:
  assumes "facts_keyed (schema_facts d)" "resolve_path (index_build d) parents profile t ps = Inr r"
  shows "roles_entered d profile t (t # ps) (rt_relates r)
    \<and> (\<forall>f. FactRelates f \<in> set (facts_list (schema_facts d)) \<and> relates_relation (relates_fact_id_of f) = t
          \<longrightarrow> specialization_kept d (t # ps) f)"
  using assms(2)
proof (induction ps arbitrary: t r)
  case Nil
  then have res: "resolve_type (index_build d) parents profile None t [] = Inr r" by simp
  then have "fold_res (apply_relates (index_build d) profile t) (entry_list (index_relates (index_build d)) t) fmempty = Inr (rt_relates r)"
    using resolve_type_members(4) [OF res] by (auto simp: empty_resolved_type_def)
  then show ?case by (rule roles_applied) (simp_all add: roles_entered_def)
next
  case (Cons p ps)
  then obtain q where q: "resolve_path (index_build d) parents profile p ps = Inr q"
    and res: "resolve_type (index_build d) parents profile (Some q) t (p # ps) = Inr r" by (auto simp: res_simps)
  have "rt_id q = p" using resolve_path_members [OF assms(1) q] by simp
  then have "fold_res (apply_relates (index_build d) profile t) (entry_list (index_relates (index_build d)) t)
      (fold (inherit_relates p t) (fm_values (rt_relates q)) fmempty) = Inr (rt_relates r)"
    using resolve_type_members(4) [OF res] by (auto simp: inherit_type_def res_simps)
  moreover have "roles_entered d profile t (t # p # ps) (fold (inherit_relates p t) (fm_values (rt_relates q)) fmempty)"
    by (rule roles_inherited) (use Cons.IH [OF q] in auto)
  ultimately show ?case by (rule roles_applied) simp
qed

section \<open>Resolved schemas\<close>

text \<open>The roles of facts are declared by the relation of their identity.\<close>

definition role_identities :: "fact_map \<Rightarrow> bool" where
  "role_identities m \<longleftrightarrow> (\<forall>r. FactRelates r \<in> set (facts_list m) \<longrightarrow>
     relates_fact_id_new (relates_relation (relates_fact_id_of r)) (relates_role (relates_fact_id_of r)) = Inr (relates_fact_id_of r))"

lemma role_identities_unique:
  assumes "facts_keyed m" "role_identities m" "FactRelates f \<in> set (facts_list m)" "FactRelates g \<in> set (facts_list m)"
    and "relates_role (relates_fact_id_of f) = relates_role (relates_fact_id_of g)"
  shows "f = g"
proof -
  have "relates_fact_id_of r = relates_id (relates_role (relates_fact_id_of r))" if "FactRelates r \<in> set (facts_list m)" for r
  proof -
    have "relates_fact_id_new (relates_relation (relates_fact_id_of r)) (relates_role (relates_fact_id_of r)) = Inr (relates_fact_id_of r)"
      using assms(2) that by (simp add: role_identities_def)
    then show ?thesis
      by (cases "relates_fact_id_of r"; cases "relates_relation (relates_fact_id_of r)")
        (auto simp: relates_fact_id_new_def relates_id_def relation_type_def split: if_splits)
  qed
  then have id: "fact_id (FactRelates f) = fact_id (FactRelates g)" using assms(3-5) by (metis fact_id.simps(5))
  have "fmlookup m (fact_id (FactRelates f)) = Some (FactRelates f)" "fmlookup m (fact_id (FactRelates g)) = Some (FactRelates g)"
    using assms(3,4) keyed_member [OF assms(1)] by blast+
  then show ?thesis unfolding id by simp
qed

lemma resolved_entries:
  assumes "facts_keyed (schema_facts d)" "facts_valid (schema_facts d)"
    and "resolve_schema_with_capabilities h d name available = Some (Inr s)"
  shows "\<exists>profile parents. semantic_profile_resolve name = Some (Inr profile)
    \<and> (\<forall>t r. fmlookup (resolved_types s) t = Some r \<longrightarrow>
         (\<exists>q. resolve_path (index_build d) parents profile t (rt_supertypes r) = Inr q \<and> rt_relates r = rt_relates q))
    \<and> (\<forall>t. FactType t \<in> set (facts_list (schema_facts d)) \<longrightarrow> t |\<in>| fmdom (resolved_types s))"
proof -
  obtain profile parents types where profile: "semantic_profile_resolve name = Some (Inr profile)"
    and parents: "validate_parents (index_build d) = Some (Inr parents)"
    and chains: "\<forall>t \<in> fset (index_types (index_build d)). \<exists>xs. ancestor_chain parents t = Some xs"
    and types: "resolve_types (index_build d) parents profile = Some (Inr types)"
    and subtypes: "populate_subtypes types parents = Some (resolved_types s)"
    using resolve_schema_types [OF assms(3)] by blast
  note entries = resolve_types_entries [OF chains valid_parents_declared [OF assms(1,2) parents] types]
  note lookup = populate_subtypes_lookup [OF subtypes]
  have "\<exists>q. resolve_path (index_build d) parents profile t (rt_supertypes r) = Inr q \<and> rt_relates r = rt_relates q"
    if r: "fmlookup (resolved_types s) t = Some r" for t r
  proof -
    obtain q where q: "fmlookup types t = Some q" "rt_supertypes r = rt_supertypes q" "rt_relates r = rt_relates q"
      using r by (auto simp: lookup)
    obtain ps where ps: "resolve_path (index_build d) parents profile t ps = Inr q"
      using entries(1) [OF q(1)] by (auto simp: resolved_entry_def)
    with resolve_path_members [OF assms(1) ps] q(2,3) show ?thesis by auto
  qed
  moreover have "t |\<in>| fmdom (resolved_types s)" if "FactType t \<in> set (facts_list (schema_facts d))" for t
  proof -
    from that have "t |\<in>| fmdom types" by (simp add: entries(2) index_types_iff)
    then show ?thesis by (auto simp: fmlookup_dom_iff lookup)
  qed
  ultimately show ?thesis using profile by blast
qed

lemma resolved_modes_preserved:
  assumes "facts_keyed (schema_facts d)" "facts_valid (schema_facts d)" "role_identities (schema_facts d)"
    and "resolve_schema_with_capabilities h d name available = Some (Inr s)"
  shows "modes_preserved (schema_facts d)"
  unfolding modes_preserved_def
proof (intro allI impI, elim conjE)
  fix i j r p assume r: "fmlookup (schema_facts d) i = Some (FactRelates r)" and p: "fmlookup (schema_facts d) j = Some (FactRelates p)"
    and special: "relates_specializes r = Some (relates_role (relates_fact_id_of p))"
  let ?t = "relates_relation (relates_fact_id_of r)"
  have member: "FactRelates r \<in> set (facts_list (schema_facts d))" "FactRelates p \<in> set (facts_list (schema_facts d))"
    using r p keyed_lookup [OF assms(1)] by blast+
  obtain profile parents where
    path: "\<And>t u. fmlookup (resolved_types s) t = Some u \<Longrightarrow>
      \<exists>q. resolve_path (index_build d) parents profile t (rt_supertypes u) = Inr q"
    and types: "\<And>t. FactType t \<in> set (facts_list (schema_facts d)) \<Longrightarrow> t |\<in>| fmdom (resolved_types s)"
    using resolved_entries [OF assms(1,2,4)] by blast
  have "?t \<in> set (type_ids (schema_facts d))"
    using valid_reference [OF assms(2) member(1)] by (simp add: references_valid_def)
  then have "?t |\<in>| fmdom (resolved_types s)" using types by (simp add: set_type_ids keyed_type [OF assms(1)])
  then obtain u where "fmlookup (resolved_types s) ?t = Some u" by (auto simp: fmlookup_dom_iff)
  from path [OF this] obtain q where "resolve_path (index_build d) parents profile ?t (rt_supertypes u) = Inr q" by blast
  from resolve_path_roles [OF assms(1) this] member(1) have "specialization_kept d (?t # rt_supertypes u) r" by blast
  then obtain g where g: "role_declared d (?t # rt_supertypes u) (relates_role (relates_fact_id_of p)) g"
    "relates_collection_mode g = relates_collection_mode r"
    using special by (auto simp: specialization_kept_def)
  then have "g = p" by (intro role_identities_unique [OF assms(1,3) _ member(2)]) (simp_all add: role_declared_def)
  with g show "relates_collection_mode p = relates_collection_mode r" by simp
qed

text \<open>
  C18. Every effective role of a resolved relation is declared by the relation or one of its supertypes,
  and takes its collection mode, annotations, cardinality and abstractness from that declaration; every
  role it replaces is declared on the chain with the same collection mode, and so is the role that a
  declaration of the relation specializes.
\<close>

theorem effective_roles_declared:
  assumes "facts_keyed (schema_facts d)" "facts_valid (schema_facts d)"
    and "resolve_schema_with_capabilities h d name available = Some (Inr s)"
  shows "\<exists>profile. semantic_profile_resolve name = Some (Inr profile)
    \<and> (\<forall>t r. fmlookup (resolved_types s) t = Some r \<longrightarrow>
         roles_entered d profile t (t # rt_supertypes r) (rt_relates r)
         \<and> (\<forall>f. FactRelates f \<in> set (facts_list (schema_facts d)) \<and> relates_relation (relates_fact_id_of f) = t
              \<longrightarrow> specialization_kept d (t # rt_supertypes r) f))"
proof -
  obtain profile parents where profile: "semantic_profile_resolve name = Some (Inr profile)"
    and path: "\<And>t r. fmlookup (resolved_types s) t = Some r \<Longrightarrow>
      \<exists>q. resolve_path (index_build d) parents profile t (rt_supertypes r) = Inr q \<and> rt_relates r = rt_relates q"
    using resolved_entries [OF assms] by blast
  then show ?thesis using resolve_path_roles [OF assms(1)] by metis
qed

section \<open>Two specializations of one role\<close>

definition example_role :: "label \<Rightarrow> label \<Rightarrow> role_id option \<Rightarrow> schema_fact" where
  "example_role relation role special =
     FactRelates \<lparr>relates_fact_id_of = RelatesFactId (TypeId Relation relation) (RoleId relation role),
       relates_specializes = special, relates_collection_mode = Unordered\<rparr>"

definition pair_facts :: "schema_fact list" where
  "pair_facts =
     [FactType (TypeId Relation ''group''), FactType (TypeId Relation ''pair''),
      FactSub (SubFactId (TypeId Relation ''pair'') (TypeId Relation ''group'')),
      example_role ''group'' ''member'' None,
      example_role ''pair'' ''left'' (Some (RoleId ''group'' ''member'')),
      example_role ''pair'' ''right'' (Some (RoleId ''group'' ''member''))]"

definition example_pair :: declared_schema where "example_pair = example_schema pair_facts"
definition example_left :: declared_schema where "example_left = example_schema (take 5 pair_facts)"

definition resolved_pair :: "declared_schema \<Rightarrow> (type_id list \<times> (role_id \<times> role_id list) list) option schema_res option" where
  "resolved_pair d =
     map_option (map_sum id (\<lambda>s. map_option (\<lambda>r.
         (rt_supertypes r, map (\<lambda>(role, e). (role, sorted_list_of_fset (erelates_replaced_roles e))) (sorted_list_of_fmap (rt_relates r))))
       (fmlookup (resolved_types s) (TypeId Relation ''pair''))))
     (resolve_schema_with_capabilities example_hashing d ''typedb-3.12.1/v1'' {||})"

lemma example_left_resolved:
  "resolved_pair example_left = Some (Inr (Some ([TypeId Relation ''group''], [(RoleId ''pair'' ''left'', [RoleId ''group'' ''member''])])))"
  by code_simp

lemma example_pair_valid:
  "validate_references (schema_facts example_pair) = [] \<and> validate_annotation_combinations (schema_facts example_pair) = []
    \<and> validate_annotation_value_domains (schema_facts example_pair) = []"
  "validate_references (schema_facts example_left) = [] \<and> validate_annotation_combinations (schema_facts example_left) = []
    \<and> validate_annotation_value_domains (schema_facts example_left) = []"
  by code_simp+

theorem effective_roles_declared_witness:
  "\<exists>s r e g. resolve_schema_with_capabilities example_hashing example_left ''typedb-3.12.1/v1'' {||} = Some (Inr s)
     \<and> fmlookup (resolved_types s) (TypeId Relation ''pair'') = Some r
     \<and> fmlookup (rt_relates r) (RoleId ''pair'' ''left'') = Some e \<and> RoleId ''group'' ''member'' |\<in>| erelates_replaced_roles e
     \<and> role_declared example_left [TypeId Relation ''pair'', TypeId Relation ''group''] (RoleId ''group'' ''member'') g
     \<and> relates_collection_mode g = erelates_collection_mode e"
proof -
  obtain s r where s: "resolve_schema_with_capabilities example_hashing example_left ''typedb-3.12.1/v1'' {||} = Some (Inr s)"
    and r: "fmlookup (resolved_types s) (TypeId Relation ''pair'') = Some r" "rt_supertypes r = [TypeId Relation ''group'']"
    and roles: "map (\<lambda>(role, e). (role, sorted_list_of_fset (erelates_replaced_roles e))) (sorted_list_of_fmap (rt_relates r))
      = [(RoleId ''pair'' ''left'', [RoleId ''group'' ''member''])]"
    using map_option_sum_Inr [OF example_left_resolved [unfolded resolved_pair_def]] by auto
  from roles obtain e where "sorted_list_of_fmap (rt_relates r) = [(RoleId ''pair'' ''left'', e)]"
    and replaced: "sorted_list_of_fset (erelates_replaced_roles e) = [RoleId ''group'' ''member'']"
    by auto
  then have e: "fmlookup (rt_relates r) (RoleId ''pair'' ''left'') = Some e"
    by (metis list.set_intros(1) set_sorted_list_of_fmap)
  have member: "RoleId ''group'' ''member'' |\<in>| erelates_replaced_roles e"
    using replaced by (metis list.set_intros(1) sorted_list_of_fset_simps(1))
  have keyed: "facts_keyed (schema_facts example_left)" unfolding example_left_def by (rule example_keyed)
  have valid: "facts_valid (schema_facts example_left)" using example_pair_valid(2) by (simp add: facts_valid_def)
  from effective_roles_declared [OF keyed valid s] r e
  obtain profile where "role_entry example_left profile (TypeId Relation ''pair'') [TypeId Relation ''pair'', TypeId Relation ''group'']
      (RoleId ''pair'' ''left'') e"
    unfolding roles_entered_def by fastforce
  with member obtain g where "role_declared example_left [TypeId Relation ''pair'', TypeId Relation ''group''] (RoleId ''group'' ''member'') g"
    "relates_collection_mode g = erelates_collection_mode e"
    unfolding role_entry_def by blast
  with s r(1) e member show ?thesis by blast
qed


section \<open>Lowering of resolved declarations\<close>

text \<open>
  C5. Every delta planned towards a declaration that resolves is lowered, unless a capability is
  missing or the safety gate refuses an operation. If the facts are built by their constructors and
  the TypeQL package accepts their labels and literals, then lowering returns; and it returns a plan
  exactly when every operation passes: its rules need no capability the provider lacks, and its
  strongest class is admitted, given the operations the verifier has discharged and the approval of
  destructive ones. Resolution has refused the specializations that change a collection mode, which
  lowering would refuse.
\<close>

theorem resolved_delta_lowered_exactly:
  assumes keyed: "facts_keyed (schema_facts source)" "facts_keyed (schema_facts target)"
    and plan: "plan_schema_operations source target = Some (Inr (delta_operations delta))"
    and selection: "state_selection (delta_source delta) = fmdom (schema_facts source)"
      "state_selection (delta_target delta) = fmdom (schema_facts target)"
    and facts: "list_all fact_constructed (facts_list (schema_facts source) @ facts_list (schema_facts target))"
      "role_identities (schema_facts target)"
      "typeql_admits tq (set (facts_list (schema_facts source) @ facts_list (schema_facts target)))"
    and resolves: "facts_valid (schema_facts target)" "resolve_schema_with_capabilities h target name available = Some (Inr s)"
    and discharged: "sorted_wrt (<) discharged" "list_all (\<lambda>i. i < length (delta_operations delta)) discharged"
  shows "(\<exists>r. lower_schema_delta_with_verified_assertions tq delta (schema_facts source) (schema_facts target)
            binding discharged approved = Some r)
    \<and> ((\<exists>lowered. lower_schema_delta_with_verified_assertions tq delta (schema_facts source) (schema_facts target)
            binding discharged approved = Some (Inr lowered))
       \<longleftrightarrow> (\<forall>i < length (delta_operations delta).
              operation_passes binding (i \<in> set discharged) approved (delta_operations delta ! i)))"
  using planned_delta_lowered [OF keyed plan selection facts(1)
      resolved_modes_preserved [OF keyed(2) resolves(1) facts(2) resolves(2)] facts(3) discharged] .

definition example_specialization_delta :: schema_delta where
  "example_specialization_delta =
     \<lparr>delta_format = 1, delta_operations = map (\<lambda>f. Define [f]) (take 5 pair_facts), delta_required_capabilities = {||},
      delta_source = example_state ''s'' (fmdom (schema_facts (example_schema []))),
      delta_target = example_state ''t'' (fmdom (schema_facts example_left))\<rparr>"

lemma example_left_plan:
  "plan_schema_operations (example_schema []) example_left = Some (Inr (delta_operations example_specialization_delta))"
  by code_simp

lemma example_left_facts:
  "facts_list (schema_facts (example_schema [])) = []" "set (facts_list (schema_facts example_left)) = set (take 5 pair_facts)"
  by code_simp+

theorem resolved_delta_lowered_exactly_witness:
  "plan_schema_operations (example_schema []) example_left = Some (Inr (delta_operations example_specialization_delta))
   \<and> (\<exists>lowered. lower_schema_delta_with_verified_assertions example_typeql example_specialization_delta
        (schema_facts (example_schema [])) (schema_facts example_left) example_binding [2, 4] False
      = Some (Inr lowered))"
proof -
  let ?s = "example_schema []" and ?t = "example_left"
  have keyed: "facts_keyed (schema_facts ?t)" unfolding example_left_def by (rule example_keyed)
  have selection: "state_selection (delta_source example_specialization_delta) = fmdom (schema_facts ?s)"
    "state_selection (delta_target example_specialization_delta) = fmdom (schema_facts ?t)"
    by (simp_all add: example_specialization_delta_def example_state_def)
  have constructed: "list_all fact_constructed (facts_list (schema_facts ?s) @ facts_list (schema_facts ?t))"
    unfolding list_all_iff set_append example_left_facts
    by (simp add: pair_facts_def example_role_def type_fact_new_def)
  have identities: "role_identities (schema_facts ?t)"
    unfolding role_identities_def example_left_facts by (auto simp: pair_facts_def example_role_def relates_fact_id_new_def)
  have admits: "typeql_admits example_typeql (set (facts_list (schema_facts ?s) @ facts_list (schema_facts ?t)))"
    unfolding set_append example_left_facts
    by (simp add: typeql_admits_def pair_facts_def example_role_def example_typeql_def label_admitted_def strip_prefix_def split_once_def)
  have valid: "facts_valid (schema_facts ?t)" using example_pair_valid(2) by (simp add: facts_valid_def)
  obtain s where s: "resolve_schema_with_capabilities example_hashing ?t ''typedb-3.12.1/v1'' {||} = Some (Inr s)"
    using map_option_sum_Inr [OF example_left_resolved [unfolded resolved_pair_def]] by blast
  have ops: "length (delta_operations example_specialization_delta) = 5"
    by (simp add: example_specialization_delta_def pair_facts_def)
  have passes: "operation_passes example_binding (i \<in> set [2, 4]) False (delta_operations example_specialization_delta ! i)" if "i < 5" for i
  proof -
    from that consider "i = 0" | "i = 1" | "i = 2" | "i = 3" | "i = 4" by linarith
    then show ?thesis
      by cases (simp_all add: operation_passes_def example_specialization_delta_def pair_facts_def example_role_def defined_functions_def
        map_filter_simps example_binding_def schema_transition_capability_vocabulary_def SCHEMA_TRANSITION_CAPABILITY_IDS_def
        CAP_DEFINE_def gate_safety_def max_def less_eq_safety_class_def)
  qed
  with resolved_delta_lowered_exactly [OF example_keyed keyed example_left_plan selection constructed identities admits valid s,
      of "[2, 4]" example_binding False] example_left_plan ops
  show ?thesis by simp
qed

end
